(* ===== verification/Prelude.thy ===== *)
theory Prelude
  imports Complex_Main "HOL-Library.Word" "HOL-Library.List_Lexorder" "HOL-Library.Char_ord"
begin

text \<open>
  Shared vocabulary of the development: the Rust types and library operations every component
  uses (results, machine integers, strings, the two map types, \<open>f64\<close>), the automation
  collections, and the generic lemmas about them.

  \<^item> \<open>Result<T, E>\<close> is the sum \<open>'e + 'a\<close>; \<open>Ok\<close> and \<open>Err\<close> abbreviate
    \<open>Inr\<close> and \<open>Inl\<close>.
  \<^item> \<open>u64\<close> and \<open>u32\<close> are words; \<open>i64\<close> values that are only compared or
    stored are \<open>int\<close>.
  \<^item> \<open>String\<close> is \<open>string\<close>, a list of bytes, so \<open>len\<close> and the order agree with
    Rust's (byte length, byte-wise lexicographic order). The whitespace that \<open>trim\<close> and
    \<open>split_whitespace\<close> recognise is the ASCII whitespace.
  \<^item> \<open>BTreeMap\<close> (also \<open>serde_json::Map\<close>, which is one without the crate's
    \<open>preserve_order\<close> feature) is an association list kept strictly sorted by key;
    \<open>HashMap\<close> is an association list with distinct keys whose order stands for the
    unspecified iteration order.
\<close>

named_theorems map_facts \<open>lookup and invariant facts of the two map models\<close>
named_theorems str_facts \<open>facts about joining, splitting and printing strings\<close>

type_synonym u64 = "64 word"
type_synonym u32 = "32 word"
type_synonym i64 = int

abbreviation Ok :: "'a \<Rightarrow> 'e + 'a" where "Ok \<equiv> Inr"
abbreviation Err :: "'e \<Rightarrow> 'e + 'a" where "Err \<equiv> Inl"

section \<open>Results\<close>

text \<open>\<open>map_err\<close> and the \<open>?\<close> operator.\<close>

definition map_err :: "('e \<Rightarrow> 'f) \<Rightarrow> 'e + 'a \<Rightarrow> 'f + 'a" where
  "map_err f r = (case r of Err e \<Rightarrow> Err (f e) | Ok a \<Rightarrow> Ok a)"

definition and_then :: "'e + 'a \<Rightarrow> ('a \<Rightarrow> 'e + 'b) \<Rightarrow> 'e + 'b" where
  "and_then r k = (case r of Err e \<Rightarrow> Err e | Ok a \<Rightarrow> k a)"

lemma map_err_simps [simp]: "map_err f (Err e) = Err (f e)" "map_err f (Ok a) = Ok a"
  by (simp_all add: map_err_def)

lemma and_then_simps [simp]: "and_then (Err e) k = Err e" "and_then (Ok a) k = k a"
  by (simp_all add: and_then_def)

lemma and_then_Ok_iff: "and_then r k = Ok b \<longleftrightarrow> (\<exists>a. r = Ok a \<and> k a = Ok b)"
  by (cases r) auto

lemma map_err_Ok_iff [simp]: "map_err f r = Ok a \<longleftrightarrow> r = Ok a"
  by (cases r) auto

section \<open>Words\<close>

lemma unat_plus_one: "unat a + 1 < 2 ^ LENGTH('a) \<Longrightarrow> unat (a + 1 :: 'a::len word) = unat a + 1"
  by (simp add: unat_word_ariths)

lemma unat_plus_one_less: "(a :: 'a::len word) < b \<Longrightarrow> unat (a + 1) = unat a + 1"
proof -
  assume "a < b"
  then have "unat a + 1 \<le> unat b" by (simp add: word_less_nat_alt)
  also have "unat b < 2 ^ LENGTH('a)" by (rule unsigned_less)
  finally show ?thesis by (intro unat_plus_one) simp
qed

section \<open>Options and lists\<close>

text \<open>\<open>Iterator::find_map\<close>: the first \<open>Some\<close> the closure returns.\<close>

fun find_map :: "('a \<Rightarrow> 'b option) \<Rightarrow> 'a list \<Rightarrow> 'b option" where
  "find_map f [] = None"
| "find_map f (x # xs) = (case f x of Some y \<Rightarrow> Some y | None \<Rightarrow> find_map f xs)"

lemma find_map_None_iff: "find_map f xs = None \<longleftrightarrow> (\<forall>x \<in> set xs. f x = None)"
  by (induction xs) (auto split: option.splits)

lemma find_map_SomeD: "find_map f xs = Some y \<Longrightarrow> \<exists>x \<in> set xs. f x = Some y"
  by (induction xs) (auto split: option.splits)

text \<open>
  \<open>iter().map(f).collect::<Result<Vec<_>, _>>()\<close>: the first error, or all the results.
\<close>

fun collect_results :: "('a \<Rightarrow> 'e + 'b) \<Rightarrow> 'a list \<Rightarrow> 'e + 'b list" where
  "collect_results f [] = Ok []"
| "collect_results f (x # xs) =
     (case f x of
        Err e \<Rightarrow> Err e
      | Ok y \<Rightarrow> (case collect_results f xs of Err e \<Rightarrow> Err e | Ok ys \<Rightarrow> Ok (y # ys)))"

lemma collect_results_Ok_iff:
  "collect_results f xs = Ok ys \<longleftrightarrow> list_all2 (\<lambda>x y. f x = Ok y) xs ys"
proof (induction xs arbitrary: ys)
  case Nil
  show ?case by auto
next
  case (Cons x xs)
  show ?case
  proof (cases "f x")
    case (Inl e)
    then show ?thesis by (auto simp: list_all2_Cons1)
  next
    case (Inr y)
    then show ?thesis
      using Cons.IH by (cases "collect_results f xs") (auto simp: list_all2_Cons1)
  qed
qed

lemma collect_results_member: "collect_results f xs = Ok ys \<Longrightarrow> y \<in> set ys \<Longrightarrow> \<exists>x \<in> set xs. f x = Ok y"
  by (induction xs arbitrary: ys) (auto split: sum.splits)

lemma collect_results_all: "collect_results f xs = Ok ys \<Longrightarrow> x \<in> set xs \<Longrightarrow> \<exists>y \<in> set ys. f x = Ok y"
  by (induction xs arbitrary: ys) (auto split: sum.splits)

lemma collect_results_ex: "(\<And>x. x \<in> set xs \<Longrightarrow> \<exists>y. f x = Ok y) \<Longrightarrow> \<exists>ys. collect_results f xs = Ok ys"
  by (induction xs) fastforce+

lemma collect_results_total:
  "(\<And>x. x \<in> set xs \<Longrightarrow> f x = Ok (g x)) \<Longrightarrow> collect_results f xs = Ok (map g xs)"
  by (induction xs) auto

text \<open>A loop whose body threads a state and may return early with an error.\<close>

fun fold_results :: "('a \<Rightarrow> 's \<Rightarrow> 'e + 's) \<Rightarrow> 'a list \<Rightarrow> 's \<Rightarrow> 'e + 's" where
  "fold_results f [] s = Ok s"
| "fold_results f (x # xs) s = and_then (f x s) (fold_results f xs)"

lemma fold_results_invariant:
  "fold_results f xs s = Ok s' \<Longrightarrow> (\<And>x s s'. x \<in> set xs \<Longrightarrow> P s \<Longrightarrow> f x s = Ok s' \<Longrightarrow> P s') \<Longrightarrow> P s \<Longrightarrow> P s'"
  by (induction xs arbitrary: s) (auto simp: and_then_Ok_iff)

lemma fold_results_Err:
  "fold_results f xs s = Err e \<Longrightarrow> (\<And>x s. f x s = Err e \<Longrightarrow> Q) \<Longrightarrow> Q"
  by (induction xs arbitrary: s) (auto simp: and_then_def split: sum.splits)

lemma map_filter_cong [fundef_cong]:
  "xs = ys \<Longrightarrow> (\<And>x. x \<in> set ys \<Longrightarrow> f x = g x) \<Longrightarrow> List.map_filter f xs = List.map_filter g ys"
  by (induction ys arbitrary: xs) (auto split: option.splits)

lemma in_map_filter_iff: "y \<in> set (List.map_filter f xs) \<longleftrightarrow> (\<exists>x \<in> set xs. f x = Some y)"
  by (induction xs) (auto split: option.splits)

lemma those_map_total: "(\<And>x. x \<in> set xs \<Longrightarrow> f x = Some (g x)) \<Longrightarrow> those (map f xs) = Some (map g xs)"
  by (induction xs) auto

lemma find_SomeD:
  "find P xs = Some x \<Longrightarrow> \<exists>ys zs. xs = ys @ x # zs \<and> P x \<and> (\<forall>y \<in> set ys. \<not> P y)"
proof (induction xs)
  case Nil
  then show ?case by simp
next
  case (Cons a xs)
  show ?case
  proof (cases "P a")
    case True
    then have "a # xs = [] @ x # xs \<and> P x" using Cons.prems by simp
    then show ?thesis by fastforce
  next
    case False
    then obtain ys zs where "xs = ys @ x # zs" "P x" "\<forall>y \<in> set ys. \<not> P y"
      using Cons by auto
    then have "a # xs = (a # ys) @ x # zs \<and> P x \<and> (\<forall>y \<in> set (a # ys). \<not> P y)"
      using False by simp
    then show ?thesis by blast
  qed
qed

section \<open>Strings\<close>

text \<open>\<open>slice::join\<close> with a separator, and \<open>str::split\<close> on a character.\<close>

fun str_join :: "string \<Rightarrow> string list \<Rightarrow> string" where
  "str_join sep [] = []"
| "str_join sep [x] = x"
| "str_join sep (x # xs) = x @ sep @ str_join sep xs"

fun str_split :: "char \<Rightarrow> string \<Rightarrow> string list" where
  "str_split c [] = [[]]"
| "str_split c (x # xs) =
     (if x = c then [] # str_split c xs
      else (case str_split c xs of [] \<Rightarrow> [[x]] | s # ss \<Rightarrow> (x # s) # ss))"

definition starts_with :: "string \<Rightarrow> string \<Rightarrow> bool" where
  "starts_with p s \<longleftrightarrow> take (length p) s = p"

lemma str_join_Cons: "xs \<noteq> [] \<Longrightarrow> str_join sep (x # xs) = x @ sep @ str_join sep xs"
  by (cases xs) auto

lemma str_split_nonempty [simp]: "str_split c s \<noteq> []"
  by (induction s) (auto split: list.splits)

lemma str_split_no_sep: "s \<in> set (str_split c t) \<Longrightarrow> c \<notin> set s"
  by (induction t arbitrary: s) (auto split: if_splits list.splits)

lemma join_split [str_facts]: "str_join [c] (str_split c s) = s"
proof (induction s)
  case Nil
  show ?case by simp
next
  case (Cons a s)
  obtain t ts where split: "str_split c s = t # ts"
    by (cases "str_split c s") auto
  show ?case
  proof (cases "a = c")
    case True
    then show ?thesis using Cons.IH split by (simp add: str_join_Cons)
  next
    case False
    then show ?thesis using Cons.IH split by (cases ts) auto
  qed
qed

lemma split_append_sep: "c \<notin> set s \<Longrightarrow> str_split c (s @ c # t) = s # str_split c t"
  by (induction s) (auto split: list.splits)

lemma split_single: "c \<notin> set s \<Longrightarrow> str_split c s = [s]"
  by (induction s) auto

lemma split_join [str_facts]:
  "xs \<noteq> [] \<Longrightarrow> (\<And>x. x \<in> set xs \<Longrightarrow> c \<notin> set x) \<Longrightarrow> str_split c (str_join [c] xs) = xs"
proof (induction xs)
  case Nil
  then show ?case by simp
next
  case (Cons x xs)
  show ?case
  proof (cases "xs = []")
    case True
    then show ?thesis using Cons.prems(2) [of x] by (simp add: split_single)
  next
    case False
    have "str_split c (x @ c # str_join [c] xs) = x # str_split c (str_join [c] xs)"
      using Cons.prems(2) [of x] by (intro split_append_sep) simp
    also have "str_split c (str_join [c] xs) = xs"
      using False Cons.prems(2) by (intro Cons.IH) auto
    finally show ?thesis using False by (simp add: str_join_Cons)
  qed
qed

lemma starts_with_iff: "starts_with p s \<longleftrightarrow> (\<exists>t. s = p @ t)"
  unfolding starts_with_def by (metis append_eq_conv_conj append_take_drop_id)

lemma join_append:
  "xs \<noteq> [] \<Longrightarrow> ys \<noteq> [] \<Longrightarrow> str_join sep (xs @ ys) = str_join sep xs @ sep @ str_join sep ys"
proof (induction xs)
  case Nil
  then show ?case by simp
next
  case (Cons x xs)
  then show ?case by (cases "xs = []") (auto simp: str_join_Cons)
qed

text \<open>\<open>str::contains\<close>.\<close>

fun str_contains :: "string \<Rightarrow> string \<Rightarrow> bool" where
  "str_contains [] p = (p = [])"
| "str_contains (c # s) p = (starts_with p (c # s) \<or> str_contains s p)"

lemma str_contains_iff: "str_contains s p \<longleftrightarrow> (\<exists>a b. s = a @ p @ b)"
proof (induction s)
  case Nil
  then show ?case by auto
next
  case (Cons c s)
  have "(\<exists>a b. c # s = a @ p @ b) \<longleftrightarrow> (\<exists>b. c # s = p @ b) \<or> (\<exists>a b. s = a @ p @ b)"
    by (metis append_Cons append_Nil list.exhaust list.inject)
  then show ?case using Cons by (simp add: starts_with_iff)
qed

subsection \<open>Decimal numbers\<close>

definition digit_char :: "nat \<Rightarrow> char" where
  "digit_char d = char_of (48 + d)"

definition digit_val :: "char \<Rightarrow> nat option" where
  "digit_val c = (let n = of_char c in if 48 \<le> n \<and> n \<le> 57 then Some (n - 48) else None)"

text \<open>\<open>Display\<close> of an unsigned integer.\<close>

fun nat_dec :: "nat \<Rightarrow> string" where
  "nat_dec n = (if n < 10 then [digit_char n] else nat_dec (n div 10) @ [digit_char (n mod 10)])"

declare nat_dec.simps [simp del]

fun digits_val :: "nat \<Rightarrow> string \<Rightarrow> nat option" where
  "digits_val acc [] = Some acc"
| "digits_val acc (c # cs) =
     (case digit_val c of None \<Rightarrow> None | Some d \<Rightarrow> digits_val (10 * acc + d) cs)"

text \<open>
  \<open>str::parse::<u64>\<close>: an optional plus sign, then one or more digits, refused when the value
  does not fit; \<open>str::parse::<i64>\<close> also takes a minus sign.
\<close>

definition parse_u64 :: "string \<Rightarrow> u64 option" where
  "parse_u64 s =
     (let ds = (case s of c # cs \<Rightarrow> if c = CHR ''+'' then cs else s | [] \<Rightarrow> s)
      in if ds = [] then None
         else (case digits_val 0 ds of
                 None \<Rightarrow> None
               | Some n \<Rightarrow> if n < 2 ^ 64 then Some (of_nat n) else None))"

definition parse_i64 :: "string \<Rightarrow> i64 option" where
  "parse_i64 s =
     (let neg = (case s of c # cs \<Rightarrow> c = CHR ''-'' | [] \<Rightarrow> False);
          ds = (case s of c # cs \<Rightarrow> if c = CHR ''+'' \<or> c = CHR ''-'' then cs else s | [] \<Rightarrow> s)
      in if ds = [] then None
         else (case digits_val 0 ds of
                 None \<Rightarrow> None
               | Some n \<Rightarrow>
                   let v = (if neg then - int n else int n)
                   in if - (2 ^ 63) \<le> v \<and> v < 2 ^ 63 then Some v else None))"

lemma digit_val_digit_char: "d < 10 \<Longrightarrow> digit_val (digit_char d) = Some d"
  by (simp add: digit_val_def digit_char_def Let_def)

lemma digits_val_append:
  "digits_val acc (s @ t) = Option.bind (digits_val acc s) (\<lambda>a. digits_val a t)"
  by (induction s arbitrary: acc) (auto split: option.splits)

lemma digits_val_nat_dec: "digits_val 0 (nat_dec n) = Some n"
proof (induction n rule: nat_dec.induct)
  case (1 n)
  show ?case
  proof (cases "n < 10")
    case True
    then show ?thesis by (simp add: nat_dec.simps [of n] digit_val_digit_char)
  next
    case False
    then show ?thesis
      using 1 by (simp add: nat_dec.simps [of n] digits_val_append digit_val_digit_char)
  qed
qed

lemma nat_dec_nonempty: "nat_dec n \<noteq> []"
  by (simp add: nat_dec.simps [of n])

lemma digit_char_is_digit: "d < 10 \<Longrightarrow> 48 \<le> (of_char (digit_char d) :: nat) \<and> (of_char (digit_char d) :: nat) \<le> 57"
  by (simp add: digit_char_def)

lemma nat_dec_digits: "c \<in> set (nat_dec n) \<Longrightarrow> 48 \<le> (of_char c :: nat) \<and> (of_char c :: nat) \<le> 57"
proof (induction n rule: nat_dec.induct)
  case (1 n)
  show ?case
  proof (cases "n < 10")
    case True
    then show ?thesis using "1.prems" digit_char_is_digit [of n] by (simp add: nat_dec.simps [of n])
  next
    case False
    then show ?thesis
      using 1 digit_char_is_digit [of "n mod 10"] by (auto simp: nat_dec.simps [of n])
  qed
qed

lemma parse_u64_nat_dec [str_facts]: "parse_u64 (nat_dec (unat v)) = Some v"
proof -
  obtain c cs where dec: "nat_dec (unat v) = c # cs"
    using nat_dec_nonempty by (cases "nat_dec (unat v)") auto
  have "c \<noteq> CHR ''+''"
    using nat_dec_digits [of c "unat v"] dec by auto
  moreover have "unat v < 2 ^ 64"
    using unsigned_less [of v] by simp
  ultimately show ?thesis
    using digits_val_nat_dec [of "unat v"] dec by (simp add: parse_u64_def Let_def)
qed

subsection \<open>Trimming\<close>

definition is_ws :: "char \<Rightarrow> bool" where
  "is_ws c \<longleftrightarrow> (let n = (of_char c :: nat) in n = 32 \<or> (9 \<le> n \<and> n \<le> 13))"

definition trim_matches :: "(char \<Rightarrow> bool) \<Rightarrow> string \<Rightarrow> string" where
  "trim_matches P s = rev (dropWhile P (rev (dropWhile P s)))"

abbreviation str_trim :: "string \<Rightarrow> string" where
  "str_trim \<equiv> trim_matches is_ws"

lemma trim_matches_id: "s \<noteq> [] \<Longrightarrow> \<not> P (hd s) \<Longrightarrow> \<not> P (last s) \<Longrightarrow> trim_matches P s = s"
proof -
  assume s: "s \<noteq> []" "\<not> P (hd s)" "\<not> P (last s)"
  have "dropWhile P s = s" using s by (cases s) auto
  moreover have "dropWhile P (rev s) = rev s" using s by (cases s rule: rev_cases) auto
  ultimately show ?thesis by (simp add: trim_matches_def)
qed

lemma trim_matches_quote:
  assumes "\<And>c. c \<in> set s \<Longrightarrow> \<not> P c" "P q"
  shows "trim_matches P (q # s @ [q]) = s"
proof -
  have dw: "dropWhile P t = t" if "\<And>c. c \<in> set t \<Longrightarrow> \<not> P c" for t
    using that by (cases t) auto
  have "dropWhile P (s @ [q]) = (if s = [] then [] else s @ [q])"
    using assms by (cases s) auto
  then show ?thesis
    using assms dw [of "rev s"] by (auto simp: trim_matches_def)
qed

text \<open>\<open>char::to_ascii_lowercase\<close>, \<open>char::to_uppercase\<close> on ASCII letters, and
  \<open>str::split_whitespace\<close>.\<close>

definition ascii_lower :: "char \<Rightarrow> char" where
  "ascii_lower c =
     (let n = (of_char c :: nat) in if 65 \<le> n \<and> n \<le> 90 then char_of (n + 32) else c)"

definition ascii_upper :: "char \<Rightarrow> char" where
  "ascii_upper c =
     (let n = (of_char c :: nat) in if 97 \<le> n \<and> n \<le> 122 then char_of (n - 32) else c)"

definition split_whitespace :: "string \<Rightarrow> string list" where
  "split_whitespace s =
     filter (\<lambda>w. w \<noteq> [])
       (foldr (\<lambda>c ws. if is_ws c then [] # ws else (case ws of [] \<Rightarrow> [[c]] | w # r \<Rightarrow> (c # w) # r)) s [[]])"

end
