(* ===== verification/Rust_Maps.thy ===== *)
theory Rust_Maps
  imports Prelude
begin

text \<open>
  The two standard maps of the program and the contract both keep.

  \<open>BTreeMap\<close> is an association list sorted strictly by key, so two maps are equal exactly when
  the lists are, and iterating it is iterating the list. \<open>HashMap\<close> is an association list with
  distinct keys. The locale \<open>keyed_map\<close> is the interface the components rely on (what a lookup
  returns after an insert, what an insert keeps), with the facts about inserting a whole sequence
  of entries proved once; both maps interpret it.
\<close>

section \<open>Association lists\<close>

lemma map_of_distinct_perm:
  "distinct (map fst xs) \<Longrightarrow> distinct (map fst ys) \<Longrightarrow> set xs = set ys \<Longrightarrow> map_of xs = map_of ys"
  by (intro ext) (metis map_of_eq_Some_iff not_Some_eq)

lemma map_of_rev [map_facts]: "distinct (map fst xs) \<Longrightarrow> map_of (rev xs) = map_of xs"
  by (rule map_of_distinct_perm) (simp_all add: rev_map [symmetric])

lemma map_of_filter_key:
  "map_of (filter (\<lambda>e. P (fst e)) m) k = (if P k then map_of m k else None)"
  by (induction m) auto

section \<open>The interface\<close>

locale keyed_map =
  fixes invar :: "('k \<times> 'v) list \<Rightarrow> bool"
    and ins :: "'k \<Rightarrow> 'v \<Rightarrow> ('k \<times> 'v) list \<Rightarrow> ('k \<times> 'v) list"
  assumes invar_Nil: "invar []"
    and invar_distinct: "invar m \<Longrightarrow> distinct (map fst m)"
    and invar_ins: "invar m \<Longrightarrow> invar (ins k v m)"
    and lookup_ins: "invar m \<Longrightarrow> map_of (ins k v m) = (map_of m)(k \<mapsto> v)"
begin

lemma keys_ins: "invar m \<Longrightarrow> fst ` set (ins k v m) = insert k (fst ` set m)"
proof -
  assume m: "invar m"
  have "dom (map_of (ins k v m)) = insert k (dom (map_of m))"
    using m by (simp add: lookup_ins)
  then show ?thesis by (simp add: dom_map_of_conv_image_fst)
qed

lemma entry_ins:
  "invar m \<Longrightarrow> (k', v') \<in> set (ins k v m) \<longleftrightarrow> (if k' = k then v' = v else (k', v') \<in> set m)"
  using map_of_eq_Some_iff [of "ins k v m" k' v'] map_of_eq_Some_iff [of m k' v']
  by (auto simp: invar_ins invar_distinct lookup_ins split: if_splits)

lemma invar_ins_all: "invar m \<Longrightarrow> invar (fold (\<lambda>(k, v). ins k v) kvs m)"
  by (induction kvs arbitrary: m) (auto simp: invar_ins)

lemma lookup_ins_all:
  "invar m \<Longrightarrow> map_of (fold (\<lambda>(k, v). ins k v) kvs m) = map_of m ++ map_of (rev kvs)"
proof (induction kvs arbitrary: m)
  case Nil
  then show ?case by simp
next
  case (Cons kv kvs)
  obtain k v where kv: "kv = (k, v)" by fastforce
  then show ?case
    using Cons.IH [of "ins k v m"] Cons.prems
    by (simp add: invar_ins lookup_ins map_add_upd_left fun_eq_iff map_add_def
        split: option.splits)
qed

lemma lookup_ins_all_distinct:
  "invar m \<Longrightarrow> distinct (map fst kvs) \<Longrightarrow>
   map_of (fold (\<lambda>(k, v). ins k v) kvs m) = map_of m ++ map_of kvs"
  by (simp add: lookup_ins_all map_of_rev)

end

section \<open>BTreeMap\<close>

type_synonym ('k, 'v) btree_map = "('k \<times> 'v) list"

definition bm_wf :: "('k::linorder, 'v) btree_map \<Rightarrow> bool" where
  "bm_wf m \<longleftrightarrow> sorted_wrt (<) (map fst m)"

text \<open>\<open>BTreeMap::insert\<close> (a present key keeps its place and takes the new value) and
  \<open>BTreeMap::remove\<close>.\<close>

fun bm_insert :: "'k::linorder \<Rightarrow> 'v \<Rightarrow> ('k, 'v) btree_map \<Rightarrow> ('k, 'v) btree_map" where
  "bm_insert k v [] = [(k, v)]"
| "bm_insert k v ((k', v') # m) =
     (if k < k' then (k, v) # (k', v') # m
      else if k = k' then (k, v) # m
      else (k', v') # bm_insert k v m)"

definition bm_remove :: "'k \<Rightarrow> ('k, 'v) btree_map \<Rightarrow> ('k, 'v) btree_map" where
  "bm_remove k m = filter (\<lambda>e. fst e \<noteq> k) m"

text \<open>\<open>FromIterator\<close>: later entries replace earlier ones.\<close>

definition bm_of_list :: "('k::linorder \<times> 'v) list \<Rightarrow> ('k, 'v) btree_map" where
  "bm_of_list kvs = fold (\<lambda>(k, v). bm_insert k v) kvs []"

lemma bm_wf_Nil [simp]: "bm_wf []"
  by (simp add: bm_wf_def)

lemma bm_wf_Cons [simp]: "bm_wf ((k, v) # m) \<longleftrightarrow> (\<forall>e \<in> set m. k < fst e) \<and> bm_wf m"
  by (auto simp: bm_wf_def)

lemma bm_wf_distinct [map_facts]: "bm_wf m \<Longrightarrow> distinct (map fst m)"
  unfolding bm_wf_def by (simp add: strict_sorted_iff)

lemma bm_insert_keys: "fst ` set (bm_insert k v m) = insert k (fst ` set m)"
  by (induction k v m rule: bm_insert.induct) auto

lemma bm_insert_wf [map_facts]: "bm_wf m \<Longrightarrow> bm_wf (bm_insert k v m)"
proof (induction k v m rule: bm_insert.induct)
  case (1 k v)
  show ?case by simp
next
  case (2 k v k' v' m)
  have "k' < fst e" if "\<not> k < k'" "k \<noteq> k'" "e \<in> set (bm_insert k v m)" for e
  proof -
    have "fst e \<in> insert k (fst ` set m)"
      using that(3) bm_insert_keys [of k v m] by blast
    then show ?thesis using 2 that by auto
  qed
  then show ?case using 2 by (auto dest: order.strict_trans)
qed

lemma bm_insert_lookup [map_facts, simp]: "map_of (bm_insert k v m) = (map_of m)(k \<mapsto> v)"
  by (induction k v m rule: bm_insert.induct) (auto simp: fun_eq_iff)

interpretation bm: keyed_map "bm_wf :: ('k::linorder, 'v) btree_map \<Rightarrow> bool" bm_insert
  by unfold_locales (auto simp: bm_wf_distinct bm_insert_wf)

lemma bm_remove_wf [map_facts]: "bm_wf m \<Longrightarrow> bm_wf (bm_remove k m)"
  by (induction m) (auto simp: bm_remove_def)

lemma bm_remove_lookup [map_facts, simp]: "map_of (bm_remove k m) = (map_of m)(k := None)"
  using map_of_filter_key [of "\<lambda>k'. k' \<noteq> k" m] by (auto simp: bm_remove_def fun_eq_iff)

lemma bm_of_list_wf [map_facts]: "bm_wf (bm_of_list kvs)"
  unfolding bm_of_list_def by (rule bm.invar_ins_all) simp

lemma bm_of_list_lookup [map_facts]: "map_of (bm_of_list kvs) = map_of (rev kvs)"
  unfolding bm_of_list_def by (simp add: bm.lookup_ins_all)

text \<open>A sorted association list is determined by its lookups.\<close>

lemma bm_ext:
  assumes "bm_wf m" "bm_wf m'" "map_of m = map_of m'"
  shows "m = m'"
proof (rule map_sorted_distinct_set_unique [where f = fst])
  have "(k, v) \<in> set m \<longleftrightarrow> (k, v) \<in> set m'" for k v
    using assms by (metis bm_wf_distinct map_of_eq_Some_iff)
  then show eq: "set m = set m'" by auto
  show "inj_on fst (set m \<union> set m')"
    using bm_wf_distinct [OF assms(1)] eq by (simp add: distinct_map)
  show "sorted (map fst m)" "distinct (map fst m)" "sorted (map fst m')" "distinct (map fst m')"
    using assms by (simp_all add: bm_wf_def strict_sorted_iff)
qed

lemma bm_insert_commute:
  "bm_wf m \<Longrightarrow> k \<noteq> k' \<Longrightarrow> bm_insert k v (bm_insert k' v' m) = bm_insert k' v' (bm_insert k v m)"
  by (rule bm_ext) (auto simp: bm_insert_wf fun_eq_iff)

lemma bm_of_list_id: "bm_wf m \<Longrightarrow> bm_of_list m = m"
  by (rule bm_ext) (simp_all add: bm_of_list_wf bm_of_list_lookup map_of_rev bm_wf_distinct)

lemma bm_entry_lookup: "bm_wf m \<Longrightarrow> (k, v) \<in> set m \<longleftrightarrow> map_of m k = Some v"
  by (simp add: map_of_eq_Some_iff bm_wf_distinct)

section \<open>HashMap\<close>

type_synonym ('k, 'v) hash_map = "('k \<times> 'v) list"

definition hm_wf :: "('k, 'v) hash_map \<Rightarrow> bool" where
  "hm_wf m \<longleftrightarrow> distinct (map fst m)"

fun hm_insert :: "'k \<Rightarrow> 'v \<Rightarrow> ('k, 'v) hash_map \<Rightarrow> ('k, 'v) hash_map" where
  "hm_insert k v [] = [(k, v)]"
| "hm_insert k v ((k', v') # m) = (if k = k' then (k, v) # m else (k', v') # hm_insert k v m)"

definition hm_of_list :: "('k \<times> 'v) list \<Rightarrow> ('k, 'v) hash_map" where
  "hm_of_list kvs = fold (\<lambda>(k, v). hm_insert k v) kvs []"

abbreviation hm_contains :: "('k, 'v) hash_map \<Rightarrow> 'k \<Rightarrow> bool" where
  "hm_contains m k \<equiv> map_of m k \<noteq> None"

lemma hm_insert_keys: "fst ` set (hm_insert k v m) = insert k (fst ` set m)"
  by (induction k v m rule: hm_insert.induct) auto

lemma hm_insert_wf [map_facts]: "hm_wf m \<Longrightarrow> hm_wf (hm_insert k v m)"
  unfolding hm_wf_def
  by (induction k v m rule: hm_insert.induct) (auto simp: hm_insert_keys)

lemma hm_insert_lookup [map_facts, simp]: "map_of (hm_insert k v m) = (map_of m)(k \<mapsto> v)"
  by (induction k v m rule: hm_insert.induct) (auto simp: fun_eq_iff)

interpretation hm: keyed_map "hm_wf :: ('k, 'v) hash_map \<Rightarrow> bool" hm_insert
  by unfold_locales (auto simp: hm_wf_def hm_insert_wf [unfolded hm_wf_def])

lemma hm_of_list_wf [map_facts]: "hm_wf (hm_of_list kvs)"
  unfolding hm_of_list_def by (rule hm.invar_ins_all) (simp add: hm_wf_def)

lemma hm_of_list_lookup [map_facts]: "map_of (hm_of_list kvs) = map_of (rev kvs)"
  unfolding hm_of_list_def by (simp add: hm.lookup_ins_all hm_wf_def)

lemma hm_contains_iff: "hm_contains m k \<longleftrightarrow> k \<in> fst ` set m"
  by (simp add: map_of_eq_None_iff)

end
