(* ===== verification/Json.thy ===== *)
theory Json
  imports Rust_Maps
begin

text \<open>
  The values of \<open>serde_json\<close> and the \<open>f64\<close> they carry. A finite \<open>f64\<close> is the
  rational it denotes: the program only compares, stores and prints floats, and both signed zeros
  compare equal, so the rational loses nothing the code can see. An object is a
  \<open>BTreeMap\<close> of its members; \<open>wf_json\<close> is the type invariant of the map, at every depth.
\<close>

section \<open>Floating point numbers\<close>

datatype f64 = F_nan | F_pos_inf | F_neg_inf | F_fin rat

fun f64_lt :: "f64 \<Rightarrow> f64 \<Rightarrow> bool" where
  "f64_lt F_nan y = False"
| "f64_lt x F_nan = False"
| "f64_lt F_neg_inf y = (y \<noteq> F_neg_inf)"
| "f64_lt x F_neg_inf = False"
| "f64_lt F_pos_inf y = False"
| "f64_lt x F_pos_inf = True"
| "f64_lt (F_fin a) (F_fin b) = (a < b)"

text \<open>
  The cast \<open>n as f64\<close>: 53 significant bits, ties to even.
\<close>

fun bit_len :: "nat \<Rightarrow> nat" where
  "bit_len n = (if n = 0 then 0 else Suc (bit_len (n div 2)))"

declare bit_len.simps [simp del]

definition round_bits :: "nat \<Rightarrow> nat \<Rightarrow> nat" where
  "round_bits n k =
     (let q = n div 2 ^ k; r = n mod 2 ^ k; half = 2 ^ (k - 1)
      in (if r < half \<or> (r = half \<and> even q) then q else q + 1) * 2 ^ k)"

definition f64_of_int :: "int \<Rightarrow> f64" where
  "f64_of_int i =
     (let n = nat \<bar>i\<bar>; k = bit_len n - 53;
          m = (if k = 0 then n else round_bits n k)
      in F_fin (if i < 0 then - of_nat m else of_nat m))"

lemma bit_len_le: "n < 2 ^ k \<Longrightarrow> bit_len n \<le> k"
proof (induction n arbitrary: k rule: bit_len.induct)
  case (1 n)
  show ?case
  proof (cases "n = 0")
    case True
    then show ?thesis by (simp add: bit_len.simps [of 0])
  next
    case False
    then obtain k' where k: "k = Suc k'"
      using "1.prems" by (cases k) auto
    then have "n div 2 < 2 ^ k'"
      using "1.prems" by auto
    then have "bit_len (n div 2) \<le> k'"
      using 1 False by blast
    then show ?thesis using False k by (simp add: bit_len.simps [of n])
  qed
qed

lemma f64_of_int_exact: "\<bar>i\<bar> < 2 ^ 53 \<Longrightarrow> f64_of_int i = F_fin (of_int i)"
proof -
  assume i: "\<bar>i\<bar> < 2 ^ 53"
  then have "nat \<bar>i\<bar> < 2 ^ 53" by (simp add: nat_less_iff)
  then have "bit_len (nat \<bar>i\<bar>) - 53 = 0" using bit_len_le [of "nat \<bar>i\<bar>" 53] by simp
  then have "f64_of_int i = F_fin (if i < 0 then - of_nat (nat \<bar>i\<bar>) else of_nat (nat \<bar>i\<bar>))"
    unfolding f64_of_int_def Let_def by (simp only: if_True simp_thms)
  then show ?thesis by simp
qed

section \<open>Values\<close>

text \<open>\<open>serde_json::Number\<close>: a non-negative integer, a negative one, or a finite float.\<close>

datatype jnum = PosInt u64 | NegInt int | FloatNum rat

datatype json =
    JNull
  | JBool bool
  | JNum jnum
  | JStr string
  | JArr "json list"
  | JObj "(string, json) btree_map"

type_synonym json_map = "(string, json) btree_map"

fun wf_json :: "json \<Rightarrow> bool" where
  "wf_json (JArr xs) = (\<forall>x \<in> set xs. wf_json x)"
| "wf_json (JObj es) = (bm_wf es \<and> (\<forall>e \<in> set es. wf_json (snd e)))"
| "wf_json _ = True"

definition wf_map :: "json_map \<Rightarrow> bool" where
  "wf_map m \<longleftrightarrow> wf_json (JObj m)"

fun is_object :: "json \<Rightarrow> bool" where
  "is_object (JObj _) = True"
| "is_object _ = False"

fun as_object :: "json \<Rightarrow> json_map option" where
  "as_object (JObj m) = Some m"
| "as_object _ = None"

fun as_str :: "json \<Rightarrow> string option" where
  "as_str (JStr s) = Some s"
| "as_str _ = None"

fun as_array :: "json \<Rightarrow> json list option" where
  "as_array (JArr xs) = Some xs"
| "as_array _ = None"

fun as_u64 :: "json \<Rightarrow> u64 option" where
  "as_u64 (JNum (PosInt n)) = Some n"
| "as_u64 _ = None"

fun is_i64 :: "json \<Rightarrow> bool" where
  "is_i64 (JNum (PosInt n)) = (unat n < 2 ^ 63)"
| "is_i64 (JNum (NegInt _)) = True"
| "is_i64 _ = False"

fun num_as_i64 :: "jnum \<Rightarrow> i64 option" where
  "num_as_i64 (PosInt n) = (if unat n < 2 ^ 63 then Some (uint n) else None)"
| "num_as_i64 (NegInt i) = Some i"
| "num_as_i64 (FloatNum _) = None"

fun as_i64 :: "json \<Rightarrow> i64 option" where
  "as_i64 (JNum n) = num_as_i64 n"
| "as_i64 _ = None"

fun is_u64 :: "json \<Rightarrow> bool" where
  "is_u64 (JNum (PosInt _)) = True"
| "is_u64 _ = False"

fun is_number :: "json \<Rightarrow> bool" where
  "is_number (JNum _) = True"
| "is_number _ = False"

fun as_f64 :: "json \<Rightarrow> f64 option" where
  "as_f64 (JNum (PosInt n)) = Some (f64_of_int (uint n))"
| "as_f64 (JNum (NegInt i)) = Some (f64_of_int i)"
| "as_f64 (JNum (FloatNum r)) = Some (F_fin r)"
| "as_f64 _ = None"

text \<open>\<open>Value::get\<close> with a string index: the member of an object.\<close>

definition json_get :: "json \<Rightarrow> string \<Rightarrow> json option" where
  "json_get v k = Option.bind (as_object v) (\<lambda>m. map_of m k)"

text \<open>Indexing with a string gives \<open>null\<close> where there is no such member.\<close>

definition json_index :: "json \<Rightarrow> string \<Rightarrow> json" where
  "json_index v k = (case json_get v k of Some x \<Rightarrow> x | None \<Rightarrow> JNull)"

lemma wf_map_Nil [simp]: "wf_map []"
  by (simp add: wf_map_def)

lemma wf_map_bm_wf: "wf_map m \<Longrightarrow> bm_wf m"
  by (simp add: wf_map_def)

lemma wf_map_insert: "wf_map m \<Longrightarrow> wf_json v \<Longrightarrow> wf_map (bm_insert k v m)"
proof -
  assume m: "wf_map m" and v: "wf_json v"
  have "wf_json (snd e)" if "e \<in> set (bm_insert k v m)" for e
    using that m v bm.entry_ins [of m "fst e" "snd e" k v]
    by (auto simp: wf_map_def split: if_splits)
  then show ?thesis using m by (simp add: wf_map_def bm_insert_wf)
qed

lemma wf_map_remove: "wf_map m \<Longrightarrow> wf_map (bm_remove k m)"
  by (auto simp: wf_map_def bm_remove_wf) (auto simp: bm_remove_def)

lemma wf_map_lookup: "wf_map m \<Longrightarrow> map_of m k = Some v \<Longrightarrow> wf_json v"
  by (auto simp: wf_map_def dest!: map_of_SomeD)

lemma as_object_Some_iff: "as_object v = Some m \<longleftrightarrow> v = JObj m"
  by (cases v) auto

lemma as_str_Some_iff: "as_str v = Some s \<longleftrightarrow> v = JStr s"
  by (cases v) auto

lemma is_object_iff: "is_object v \<longleftrightarrow> (\<exists>m. v = JObj m)"
  by (cases v) auto

end
