(* ===== verification/Config_Backend.thy ===== *)
theory Config_Backend
  imports Json
begin

text \<open>
  Where a configuration document lives (\<open>config/backend.rs\<close>,
  \<open>config/in_memory_backend.rs\<close>, \<open>config/file_backend.rs\<close>) and the errors of the module
  (\<open>config/error.rs\<close>).

  The trait \<open>ConfigBackend\<close> is the record \<open>config_backend\<close> of its four methods over a
  backend state. Its contract is the locale \<open>byte_store\<close>: a successful write is what the next
  read returns unless that read fails, and a failed write leaves the stored bytes as they were.
  Both backends interpret it. For the file backend the steps of a write are modelled on a file
  system with injected faults, so that the states a crash could leave behind are visible.
\<close>

type_synonym bytes = string

datatype config_error =
    BackendRead string string
  | BackendWrite string string
  | ReadOnly string
  | Parse string string
  | Serialize string string
  | MigrationFailed u32 string
  | NoMigrationPath u32 u32
  | VersionTooNew u32 u32
  | Io "string list" string

record 'b config_backend =
  cb_read :: "'b \<Rightarrow> config_error + bytes"
  cb_write :: "bytes \<Rightarrow> 'b \<Rightarrow> (config_error + unit) \<times> 'b"
  cb_supports_write :: "'b \<Rightarrow> bool"
  cb_label :: "'b \<Rightarrow> string"

section \<open>The contract\<close>

locale byte_store =
  fixes be :: "'b config_backend"
  assumes write_ok: "cb_write be bs s = (Ok (), s') \<Longrightarrow> cb_read be s' = Ok bs \<or> isl (cb_read be s')"
    and write_failed: "cb_write be bs s = (Err e, s') \<Longrightarrow> cb_read be s' = cb_read be s"
    and label_stable: "cb_label be (snd (cb_write be bs s)) = cb_label be s"
begin

text \<open>After any sequence of writes the bytes read are those of the last successful one.\<close>

lemma read_after_write:
  "cb_read be (snd (cb_write be bs s)) \<in> {cb_read be s, Ok bs} \<or> isl (cb_read be (snd (cb_write be bs s)))"
proof (cases "cb_write be bs s")
  case (Pair r s')
  then show ?thesis
    using write_ok [of bs s s'] write_failed [of bs s _ s'] by (cases r) auto
qed

lemma read_after_writes:
  "cb_read be (fold (\<lambda>bs s. snd (cb_write be bs s)) bss s) \<in> insert (cb_read be s) (Ok ` set bss) \<or>
   (\<exists>e. cb_read be (fold (\<lambda>bs s. snd (cb_write be bs s)) bss s) = Err e)"
proof (induction bss arbitrary: s)
  case Nil
  show ?case by simp
next
  case (Cons bs bss)
  show ?case
    using Cons.IH [of "snd (cb_write be bs s)"] read_after_write [of bs s]
    by (auto simp: isl_def)
qed

end

section \<open>In memory\<close>

record in_memory_backend =
  im_bytes :: bytes
  im_writable :: bool
  im_label :: string

definition in_memory_new :: in_memory_backend where
  "in_memory_new = \<lparr>im_bytes = [], im_writable = True, im_label = ''in-memory''\<rparr>"

definition in_memory_with_bytes :: "bytes \<Rightarrow> in_memory_backend" where
  "in_memory_with_bytes bs = \<lparr>im_bytes = bs, im_writable = True, im_label = ''in-memory''\<rparr>"

definition in_memory_read_only :: "in_memory_backend \<Rightarrow> in_memory_backend" where
  "in_memory_read_only s = s\<lparr>im_writable := False\<rparr>"

definition in_memory_set_bytes :: "bytes \<Rightarrow> in_memory_backend \<Rightarrow> in_memory_backend" where
  "in_memory_set_bytes bs s = s\<lparr>im_bytes := bs\<rparr>"

definition in_memory_write :: "bytes \<Rightarrow> in_memory_backend \<Rightarrow> (config_error + unit) \<times> in_memory_backend" where
  "in_memory_write bs s =
     (if \<not> im_writable s then (Err (ReadOnly (im_label s)), s)
      else (Ok (), s\<lparr>im_bytes := bs\<rparr>))"

definition in_memory_vtable :: "in_memory_backend config_backend" where
  "in_memory_vtable =
     \<lparr>cb_read = (\<lambda>s. Ok (im_bytes s)),
      cb_write = in_memory_write,
      cb_supports_write = im_writable,
      cb_label = im_label\<rparr>"

interpretation in_memory: byte_store in_memory_vtable
  by unfold_locales (auto simp: in_memory_vtable_def in_memory_write_def split: if_splits)

section \<open>In a file\<close>

text \<open>
  The file system: files by their path (a list of components), and the faults the operating
  system may answer with, including a write that stops after some bytes.
\<close>

type_synonym path = "string list"
type_synonym file_system = "path \<Rightarrow> bytes option"

record io_faults =
  io_read :: "string option"
  io_mkdir :: "string option"
  io_create :: "string option"
  io_write :: "(nat \<times> string) option"
  io_sync :: "string option"
  io_rename :: "string option"

definition no_faults :: io_faults where
  "no_faults = \<lparr>io_read = None, io_mkdir = None, io_create = None, io_write = None, io_sync = None, io_rename = None\<rparr>"

record file_backend_state =
  fb_fs :: file_system
  fb_write_counter :: u64

definition file_read :: "io_faults \<Rightarrow> path \<Rightarrow> file_backend_state \<Rightarrow> config_error + bytes" where
  "file_read io p s =
     (case fb_fs s p of
        None \<Rightarrow> Ok []
      | Some bs \<Rightarrow> (case io_read io of Some e \<Rightarrow> Err (Io p e) | None \<Rightarrow> Ok bs))"

text \<open>
  \<open>write_and_rename\<close>: the result and the file systems passed through, in order; the last one is
  where it stopped.
\<close>

definition write_and_rename ::
  "io_faults \<Rightarrow> path \<Rightarrow> path \<Rightarrow> bytes \<Rightarrow> file_system \<Rightarrow> (config_error + unit) \<times> file_system list" where
  "write_and_rename io tmp target bs fs0 =
     (case io_create io of
        Some e \<Rightarrow> (Err (Io tmp e), [fs0])
      | None \<Rightarrow>
          let fs1 = fs0(tmp \<mapsto> [])
          in case io_write io of
               Some (n, e) \<Rightarrow> (Err (Io tmp e), [fs0, fs1, fs1(tmp \<mapsto> take n bs)])
             | None \<Rightarrow>
                 let fs2 = fs1(tmp \<mapsto> bs)
                 in case io_sync io of
                      Some e \<Rightarrow> (Err (Io tmp e), [fs0, fs1, fs2])
                    | None \<Rightarrow>
                        (case io_rename io of
                           Some e \<Rightarrow> (Err (Io target e), [fs0, fs1, fs2])
                         | None \<Rightarrow> (Ok (), [fs0, fs1, fs2, fs2(tmp := None, target \<mapsto> bs)])))"

definition tmp_path :: "u64 \<Rightarrow> u64 \<Rightarrow> path \<Rightarrow> path" where
  "tmp_path pid attempt p =
     butlast p @ [(if p = [] then ''config'' else last p) @ ''.tmp.'' @ nat_dec (unat pid) @ ''.'' @ nat_dec (unat attempt)]"

text \<open>\<open>FileBackend::write\<close>; the second component lists the file systems passed through.\<close>

definition file_write_trace ::
  "io_faults \<Rightarrow> u64 \<Rightarrow> path \<Rightarrow> bytes \<Rightarrow> file_backend_state \<Rightarrow> (config_error + unit) \<times> file_system list \<times> u64" where
  "file_write_trace io pid p bs s =
     (if p = [] then (Err (Io p ''config path has no parent''), [fb_fs s], fb_write_counter s)
      else case io_mkdir io of
        Some e \<Rightarrow> (Err (Io (butlast p) e), [fb_fs s], fb_write_counter s)
      | None \<Rightarrow>
          let attempt = fb_write_counter s;
              tmp = tmp_path pid attempt p;
              (r, tr) = write_and_rename io tmp p bs (fb_fs s)
          in (case r of
                Err e \<Rightarrow> (Err e, tr @ [(last tr)(tmp := None)], attempt + 1)
              | Ok u \<Rightarrow> (Ok u, tr, attempt + 1)))"

definition file_write ::
  "io_faults \<Rightarrow> u64 \<Rightarrow> path \<Rightarrow> bytes \<Rightarrow> file_backend_state \<Rightarrow> (config_error + unit) \<times> file_backend_state" where
  "file_write io pid p bs s =
     (case file_write_trace io pid p bs s of
        (r, tr, n) \<Rightarrow> (r, \<lparr>fb_fs = last tr, fb_write_counter = n\<rparr>))"

definition file_vtable :: "io_faults \<Rightarrow> u64 \<Rightarrow> path \<Rightarrow> file_backend_state config_backend" where
  "file_vtable io pid p =
     \<lparr>cb_read = file_read io p,
      cb_write = file_write io pid p,
      cb_supports_write = (\<lambda>_. True),
      cb_label = (\<lambda>_. ''file:'' @ str_join ''/'' p)\<rparr>"

lemma tmp_path_neq: "p \<noteq> [] \<Longrightarrow> tmp_path pid n p \<noteq> p"
proof
  assume p: "p \<noteq> []" and eq: "tmp_path pid n p = p"
  have "last (tmp_path pid n p) = last p @ ''.tmp.'' @ nat_dec (unat pid) @ ''.'' @ nat_dec (unat n)"
    using p by (simp add: tmp_path_def)
  then show False using eq by simp
qed

lemma write_and_rename_target:
  assumes "tmp \<noteq> target" "write_and_rename io tmp target bs fs = (r, tr)"
  shows "tr \<noteq> [] \<and> (\<forall>f \<in> set tr. f target = fs target \<or> f target = Some bs) \<and>
         last tr target = (case r of Ok _ \<Rightarrow> Some bs | Err _ \<Rightarrow> fs target) \<and>
         (\<forall>f \<in> set tr. \<forall>q. q \<noteq> tmp \<and> q \<noteq> target \<longrightarrow> f q = fs q)"
  using assms by (auto simp: write_and_rename_def Let_def split: option.splits)

text \<open>What every file system of a write looks like, and the one it ends in.\<close>

lemma file_write_trace_target:
  assumes "file_write_trace io pid p bs s = (r, tr, n)"
  shows "tr \<noteq> [] \<and> (\<forall>f \<in> set tr. f p = fb_fs s p \<or> f p = Some bs) \<and>
         last tr p = (case r of Ok _ \<Rightarrow> Some bs | Err _ \<Rightarrow> fb_fs s p)"
proof (cases "p = [] \<or> io_mkdir io \<noteq> None")
  case True
  then show ?thesis using assms by (auto simp: file_write_trace_def split: option.splits if_splits)
next
  case False
  let ?tmp = "tmp_path pid (fb_write_counter s) p"
  obtain r' tr' where w: "write_and_rename io ?tmp p bs (fb_fs s) = (r', tr')" by fastforce
  have tmp: "?tmp \<noteq> p" using False tmp_path_neq by auto
  note facts = write_and_rename_target [OF tmp w]
  have "r = r' \<and> tr = (case r' of Err _ \<Rightarrow> tr' @ [(last tr')(?tmp := None)] | Ok _ \<Rightarrow> tr')"
    using assms False w by (auto simp: file_write_trace_def Let_def split: sum.splits)
  then show ?thesis
    using facts tmp by (cases r') auto
qed

interpretation on_file: byte_store "file_vtable io pid p"
proof
  fix bs s s'
  assume "cb_write (file_vtable io pid p) bs s = (Ok (), s')"
  then obtain tr n where w: "file_write_trace io pid p bs s = (Ok (), tr, n)" "s' = \<lparr>fb_fs = last tr, fb_write_counter = n\<rparr>"
    by (auto simp: file_vtable_def file_write_def split: prod.splits)
  then show "cb_read (file_vtable io pid p) s' = Ok bs \<or> isl (cb_read (file_vtable io pid p) s')"
    using file_write_trace_target [OF w(1)] by (auto simp: file_vtable_def file_read_def split: option.splits)
next
  fix bs s e s'
  assume "cb_write (file_vtable io pid p) bs s = (Err e, s')"
  then obtain tr n where w: "file_write_trace io pid p bs s = (Err e, tr, n)" "s' = \<lparr>fb_fs = last tr, fb_write_counter = n\<rparr>"
    by (auto simp: file_vtable_def file_write_def split: prod.splits)
  then show "cb_read (file_vtable io pid p) s' = cb_read (file_vtable io pid p) s"
    using file_write_trace_target [OF w(1)] by (auto simp: file_vtable_def file_read_def)
qed (simp add: file_vtable_def)

section \<open>Properties\<close>



end
