(* ===== verification/Install_Disk.thy ===== *)
theory Install_Disk
  imports Config_Backend "HOL-Library.Sublist"
begin

text \<open>
  The disk the installer works on, for \<open>src/self_install\<close>: what the source uses of \<open>std::fs\<close>,
  and the programs over it.

  A disk holds its nodes by path (a path is the list of its components below the root), a counter
  of the system calls made so far, and the requests sent over the network. A \<open>machine\<close> says which
  call fails and with what: a failing write or copy may leave any bytes behind. A call that fails
  without an effect and a crash before that call leave the same disk, so what holds for every
  \<open>mc_fault\<close> also holds for a process that is killed. A fault of \<open>read_to_string\<close> also stands for
  contents that are not UTF-8. Symbolic links appear only through \<open>mc_real\<close>, the canonical form of
  an existing path.

  An operation of the source is a function from the disk to a result and a disk. The combinators are
  the \<open>?\<close> operator, \<open>map_err\<close>, \<open>let _ = \<dots>\<close> and the destructors. Two judgements carry the proofs:
  \<open>triple P m Q E\<close>, a triple with a postcondition for each kind of result, and \<open>keeps q m\<close>, that an
  operation leaves the node at \<open>q\<close> as it is whatever fails.
\<close>

named_theorems keep_rules \<open>operations that leave a node alone\<close>

section \<open>Nodes\<close>

datatype io_kind = KNotFound | KPermissionDenied | KAlreadyExists | KInvalidInput | KOther

datatype io_error = IoError (ie_kind: io_kind) (ie_text: string)

record file_node =
  fn_bytes :: bytes
  fn_exec :: bool
  fn_mtime :: nat

datatype node = FileNode file_node | DirNode

record http_request =
  rq_url :: string
  rq_accept :: string
  rq_bearer :: "string option"

record disk =
  dk_nodes :: "(path, node) hash_map"
  dk_tick :: nat
  dk_requests :: "http_request list"

datatype fault = Fault io_error "bytes option"

record machine =
  mc_fault :: "nat \<Rightarrow> fault option"
  mc_now :: "nat \<Rightarrow> nat"
  mc_pid :: nat
  mc_real :: "path \<Rightarrow> path"
  mc_cwd :: "path option"

definition node_at :: "path \<Rightarrow> disk \<Rightarrow> node option" where
  "node_at p d = map_of (dk_nodes d) p"

definition path_exists :: "path \<Rightarrow> disk \<Rightarrow> bool" where
  "path_exists p d \<longleftrightarrow> node_at p d \<noteq> None"

definition is_file :: "path \<Rightarrow> disk \<Rightarrow> bool" where
  "is_file p d = (case node_at p d of Some (FileNode _) \<Rightarrow> True | _ \<Rightarrow> False)"

definition is_dir :: "path \<Rightarrow> disk \<Rightarrow> bool" where
  "is_dir p d \<longleftrightarrow> p = [] \<or> node_at p d = Some DirNode"

definition set_node :: "path \<Rightarrow> node \<Rightarrow> disk \<Rightarrow> disk" where
  "set_node p n d = d\<lparr>dk_nodes := hm_insert p n (dk_nodes d)\<rparr>"

definition del_node :: "path \<Rightarrow> disk \<Rightarrow> disk" where
  "del_node p d = d\<lparr>dk_nodes := filter (\<lambda>(q, _). q \<noteq> p) (dk_nodes d)\<rparr>"

definition del_tree :: "path \<Rightarrow> disk \<Rightarrow> disk" where
  "del_tree p d = d\<lparr>dk_nodes := filter (\<lambda>(q, _). \<not> prefix p q) (dk_nodes d)\<rparr>"

definition make_dirs :: "path \<Rightarrow> disk \<Rightarrow> disk" where
  "make_dirs p d =
     fold (\<lambda>q d. if node_at q d = None then set_node q DirNode d else d) (filter (\<lambda>q. q \<noteq> []) (prefixes p)) d"

definition move_tree :: "path \<Rightarrow> path \<Rightarrow> disk \<Rightarrow> disk" where
  "move_tree src dst d =
     d\<lparr>dk_nodes := map (\<lambda>(q, n). (if prefix src q then dst @ drop (length src) q else q, n)) (dk_nodes d)\<rparr>"

text \<open>\<open>PathBuf::join\<close> of a relative name, which may itself have several components.\<close>

definition path_join :: "path \<Rightarrow> string \<Rightarrow> path" where
  "path_join p name = p @ filter (\<lambda>c. c \<noteq> [] \<and> c \<noteq> ''.'') (str_split (CHR ''/'') name)"

definition path_display :: "path \<Rightarrow> string" where
  "path_display p = ''/'' @ str_join ''/'' p"

text \<open>Text appended to a path, as \<open>OsString::push\<close> does.\<close>

definition os_str_push :: "path \<Rightarrow> string \<Rightarrow> path" where
  "os_str_push p sfx = (case rev p of [] \<Rightarrow> [sfx] | l # r \<Rightarrow> rev r @ [l @ sfx])"

lemma node_at_tick [simp]: "node_at p (d\<lparr>dk_tick := t\<rparr>) = node_at p d"
  "node_at p (d\<lparr>dk_requests := rs\<rparr>) = node_at p d"
  by (simp_all add: node_at_def)

lemma node_at_set [simp]: "node_at p (set_node q n d) = (if p = q then Some n else node_at p d)"
  by (simp add: node_at_def set_node_def)

lemma map_of_filter_keys: "map_of (filter (\<lambda>(q, _). P q) m) p = (if P p then map_of m p else None)"
  by (induction m) auto

lemma node_at_del [simp]: "node_at p (del_node q d) = (if p = q then None else node_at p d)"
  by (simp add: node_at_def del_node_def map_of_filter_keys)

lemma node_at_del_tree [simp]: "node_at p (del_tree q d) = (if prefix q p then None else node_at p d)"
  by (simp add: node_at_def del_tree_def map_of_filter_keys)

lemma node_at_fold_dirs:
  "node_at p (fold (\<lambda>q d. if node_at q d = None then set_node q DirNode d else d) qs d) =
   (if node_at p d = None \<and> p \<in> set qs then Some DirNode else node_at p d)"
  by (induction qs arbitrary: d) auto

lemma node_at_make_dirs [simp]:
  "node_at q (make_dirs p d) =
   (if node_at q d = None \<and> q \<noteq> [] \<and> prefix q p then Some DirNode else node_at q d)"
  by (simp add: make_dirs_def node_at_fold_dirs)

lemma node_at_move_tree:
  "\<not> prefix src p \<Longrightarrow> \<not> prefix dst p \<Longrightarrow> node_at p (move_tree src dst d) = node_at p d"
proof -
  assume p: "\<not> prefix src p" "\<not> prefix dst p"
  then have "map_of (map (\<lambda>(q, n). (if prefix src q then dst @ drop (length src) q else q, n)) m) p = map_of m p" for m
    by (induction m) (auto simp: prefix_def)
  then show ?thesis by (simp add: node_at_def move_tree_def)
qed

lemma path_push_snoc [simp]: "os_str_push (p @ [l]) sfx = p @ [l @ sfx]"
  by (simp add: os_str_push_def)

lemma path_push_neq: "sfx \<noteq> [] \<Longrightarrow> os_str_push p sfx \<noteq> p"
  by (cases p rule: rev_cases) (auto simp: os_str_push_def)

section \<open>Programs\<close>

type_synonym ('e, 'a) op = "disk \<Rightarrow> ('e + 'a) \<times> disk"

definition op_lift :: "'e + 'a \<Rightarrow> ('e, 'a) op" where
  "op_lift r d = (r, d)"

abbreviation op_ok :: "'a \<Rightarrow> ('e, 'a) op" where
  "op_ok x \<equiv> op_lift (Ok x)"

abbreviation op_err :: "'e \<Rightarrow> ('e, 'a) op" where
  "op_err e \<equiv> op_lift (Err e)"

definition op_get :: "(disk \<Rightarrow> 'a) \<Rightarrow> ('e, 'a) op" where
  "op_get f d = (Ok (f d), d)"

definition op_bind :: "('e, 'a) op \<Rightarrow> ('a \<Rightarrow> ('e, 'b) op) \<Rightarrow> ('e, 'b) op" where
  "op_bind m f d = (case m d of (Ok x, d') \<Rightarrow> f x d' | (Err e, d') \<Rightarrow> (Err e, d'))"

definition op_map_err :: "('e \<Rightarrow> 'f) \<Rightarrow> ('e, 'a) op \<Rightarrow> ('f, 'a) op" where
  "op_map_err g m d = (case m d of (r, d') \<Rightarrow> (map_err g r, d'))"

text \<open>The result as a value (\<open>match\<close> on it, or \<open>let _ =\<close>).\<close>

definition op_result :: "('e, 'a) op \<Rightarrow> ('f, 'e + 'a) op" where
  "op_result m d = (case m d of (r, d') \<Rightarrow> (Ok r, d'))"

definition op_ignore :: "('e, 'a) op \<Rightarrow> ('f, unit) op" where
  "op_ignore m d = (case m d of (_, d') \<Rightarrow> (Ok (), d'))"

text \<open>Clean-up on the error path, and on every path (a destructor).\<close>

definition op_on_err :: "('e, 'a) op \<Rightarrow> ('f, 'b) op \<Rightarrow> ('e, 'a) op" where
  "op_on_err m h d = (case m d of (Ok x, d') \<Rightarrow> (Ok x, d') | (Err e, d') \<Rightarrow> (Err e, snd (h d')))"

definition op_finally :: "('e, 'a) op \<Rightarrow> ('f, 'b) op \<Rightarrow> ('e, 'a) op" where
  "op_finally m h d = (case m d of (r, d') \<Rightarrow> (r, snd (h d')))"

fun op_each :: "('a \<Rightarrow> ('e, 'b) op) \<Rightarrow> 'a list \<Rightarrow> ('e, 'b list) op" where
  "op_each f [] = op_ok []"
| "op_each f (x # xs) = op_bind (f x) (\<lambda>y. op_bind (op_each f xs) (\<lambda>ys. op_ok (y # ys)))"

lemmas op_defs = op_lift_def op_get_def op_bind_def op_map_err_def op_result_def op_ignore_def
  op_on_err_def op_finally_def

lemma op_bind_cases [consumes 1, case_names err ok]:
  assumes "op_bind m f d = (r, d')"
  obtains e where "m d = (Err e, d')" "r = Err e" | x d1 where "m d = (Ok x, d1)" "f x d1 = (r, d')"
  using assms by (auto simp: op_bind_def split: prod.splits sum.splits)

text \<open>When a program succeeds.\<close>

lemma op_Ok_iffs:
  "op_bind m f d = (Ok y, d') \<longleftrightarrow> (\<exists>x d1. m d = (Ok x, d1) \<and> f x d1 = (Ok y, d'))"
  "op_map_err g n d = (Ok z, d') \<longleftrightarrow> n d = (Ok z, d')"
  "op_lift r d = (r', d') \<longleftrightarrow> r = r' \<and> d' = d"
  "op_get h d = (Ok w, d') \<longleftrightarrow> w = h d \<and> d' = d"
  "op_result n d = (Ok q, d') \<longleftrightarrow> n d = (q, d')"
  "op_ignore n d = (Ok u, d') \<longleftrightarrow> snd (n d) = d'"
  "op_on_err n k d = (Ok z, d') \<longleftrightarrow> n d = (Ok z, d')"
  by (auto simp: op_defs map_err_def split: prod.splits sum.splits)

subsection \<open>Triples\<close>

definition triple :: "(disk \<Rightarrow> bool) \<Rightarrow> ('e, 'a) op \<Rightarrow> ('a \<Rightarrow> disk \<Rightarrow> bool) \<Rightarrow> (disk \<Rightarrow> bool) \<Rightarrow> bool" where
  "triple P m Q E \<longleftrightarrow> (\<forall>d. P d \<longrightarrow> (case m d of (Ok x, d') \<Rightarrow> Q x d' | (Err e, d') \<Rightarrow> E d'))"

lemma tripleI: "(\<And>d x d'. P d \<Longrightarrow> m d = (Ok x, d') \<Longrightarrow> Q x d') \<Longrightarrow>
    (\<And>d e d'. P d \<Longrightarrow> m d = (Err e, d') \<Longrightarrow> E d') \<Longrightarrow> triple P m Q E"
  by (auto simp: triple_def split: prod.splits sum.splits)

lemma triple_Ok: "triple P m Q E \<Longrightarrow> P d \<Longrightarrow> m d = (Ok x, d') \<Longrightarrow> Q x d'"
  by (auto simp: triple_def split: prod.splits)

lemma triple_Err: "triple P m Q E \<Longrightarrow> P d \<Longrightarrow> m d = (Err e, d') \<Longrightarrow> E d'"
  by (auto simp: triple_def split: prod.splits)

lemma triple_bind:
  "triple P m Q E \<Longrightarrow> (\<And>x. triple (Q x) (f x) R E) \<Longrightarrow> triple P (op_bind m f) R E"
  by (fastforce simp: triple_def op_bind_def split: prod.splits sum.splits)

lemma triple_conseq:
  "triple P m Q E \<Longrightarrow> (\<And>d. P' d \<Longrightarrow> P d) \<Longrightarrow> (\<And>x d. Q x d \<Longrightarrow> Q' x d) \<Longrightarrow> (\<And>d. E d \<Longrightarrow> E' d) \<Longrightarrow>
   triple P' m Q' E'"
  by (fastforce simp: triple_def split: prod.splits sum.splits)

lemma triple_pre: "triple P m Q E \<Longrightarrow> (\<And>d. P' d \<Longrightarrow> P d) \<Longrightarrow> triple P' m Q E"
  by (rule triple_conseq)

lemma triple_lift: "triple (\<lambda>d. (\<forall>x. r = Ok x \<longrightarrow> Q x d) \<and> (\<forall>e. r = Err e \<longrightarrow> E d)) (op_lift r) Q E"
  by (auto simp: triple_def op_lift_def split: sum.splits)

lemma triple_get: "triple (\<lambda>d. Q (f d) d) (op_get f) Q E"
  by (simp add: triple_def op_get_def)

lemma triple_map_err: "triple P m Q E \<Longrightarrow> triple P (op_map_err g m) Q E"
  proof (rule tripleI)
  fix d x d'
  assume "triple P m Q E" "P d" "op_map_err g m d = (Ok x, d')"
  then show "Q x d'" by (auto simp: op_map_err_def split: prod.splits dest: triple_Ok)
next
  fix d e d'
  assume t: "triple P m Q E" "P d" and "op_map_err g m d = (Err e, d')"
  then obtain r where "m d = (r, d')" "map_err g r = Err e"
    by (auto simp: op_map_err_def split: prod.splits)
  then show "E d'" using t by (cases r) (auto dest: triple_Err)
qed

lemma triple_pre_False: "(\<And>d. \<not> P d) \<Longrightarrow> triple P m Q E"
  by (simp add: triple_def)

lemma triple_split_pre: "(c \<Longrightarrow> triple P m Q E) \<Longrightarrow> triple (\<lambda>d. c \<and> P d) m Q E"
  by (cases c) (auto simp: triple_def)

subsection \<open>Frames\<close>

definition keeps :: "path \<Rightarrow> ('e, 'a) op \<Rightarrow> bool" where
  "keeps q m \<longleftrightarrow> (\<forall>d. node_at q (snd (m d)) = node_at q d)"

lemma keepsD: "keeps q m \<Longrightarrow> m d = (r, d') \<Longrightarrow> node_at q d' = node_at q d"
  by (metis keeps_def snd_conv)

lemma keepsI: "(\<And>d r d'. m d = (r, d') \<Longrightarrow> node_at q d' = node_at q d) \<Longrightarrow> keeps q m"
  by (metis keeps_def prod.collapse)

lemma keeps_lift [keep_rules]: "keeps q (op_lift r)"
  by (simp add: keeps_def op_lift_def)

lemma keeps_get [keep_rules]: "keeps q (op_get f)"
  by (simp add: keeps_def op_get_def)

lemma keeps_bind [keep_rules]: "keeps q m \<Longrightarrow> (\<And>x. keeps q (f x)) \<Longrightarrow> keeps q (op_bind m f)"
  by (auto simp: keeps_def op_bind_def split: prod.splits sum.splits) (metis snd_conv)+

lemma keeps_map_err [keep_rules]: "keeps q m \<Longrightarrow> keeps q (op_map_err g m)"
  by (simp add: keeps_def op_map_err_def split_beta)

lemma keeps_result [keep_rules]: "keeps q m \<Longrightarrow> keeps q (op_result m)"
  by (simp add: keeps_def op_result_def split_beta)

lemma keeps_ignore [keep_rules]: "keeps q m \<Longrightarrow> keeps q (op_ignore m)"
  by (simp add: keeps_def op_ignore_def split_beta)

lemma keeps_on_err [keep_rules]: "keeps q m \<Longrightarrow> keeps q h \<Longrightarrow> keeps q (op_on_err m h)"
  by (auto simp: keeps_def op_on_err_def split: prod.splits sum.splits) (metis snd_conv)+

lemma keeps_finally [keep_rules]: "keeps q m \<Longrightarrow> keeps q h \<Longrightarrow> keeps q (op_finally m h)"
  by (simp add: keeps_def op_finally_def split_beta)

lemma keeps_each [keep_rules]: "(\<And>x. x \<in> set xs \<Longrightarrow> keeps q (f x)) \<Longrightarrow> keeps q (op_each f xs)"
  by (induction xs) (auto intro!: keeps_bind keeps_lift)

lemma keeps_if [keep_rules]: "(c \<Longrightarrow> keeps q m) \<Longrightarrow> (\<not> c \<Longrightarrow> keeps q n) \<Longrightarrow> keeps q (if c then m else n)"
  by simp

lemma keeps_option [keep_rules]:
  "(x = None \<Longrightarrow> keeps q m) \<Longrightarrow> (\<And>y. x = Some y \<Longrightarrow> keeps q (f y)) \<Longrightarrow>
   keeps q (case x of None \<Rightarrow> m | Some y \<Rightarrow> f y)"
  by (simp split: option.splits)

lemma keeps_sum [keep_rules]:
  "(\<And>e. x = Err e \<Longrightarrow> keeps q (g e)) \<Longrightarrow> (\<And>y. x = Ok y \<Longrightarrow> keeps q (f y)) \<Longrightarrow>
   keeps q (case x of Inl e \<Rightarrow> g e | Inr y \<Rightarrow> f y)"
  by (simp split: sum.splits)

lemma keeps_prod [keep_rules]: "(\<And>a b. x = (a, b) \<Longrightarrow> keeps q (f a b)) \<Longrightarrow> keeps q (case x of (a, b) \<Rightarrow> f a b)"
  by (simp split: prod.splits)

lemma keeps_Let [keep_rules]: "keeps q (f t) \<Longrightarrow> keeps q (let x = t in f x)"
  by (simp add: Let_def)

lemma triple_keeps: "keeps q m \<Longrightarrow> triple (\<lambda>d. node_at q d = n) m (\<lambda>_ d. node_at q d = n) (\<lambda>d. node_at q d = n)"
  by (auto intro!: tripleI dest: keepsD)

section \<open>System calls\<close>

definition syscall :: "machine \<Rightarrow> (bytes option \<Rightarrow> disk \<Rightarrow> disk) \<Rightarrow> (io_error, 'a) op \<Rightarrow> (io_error, 'a) op" where
  "syscall m broken f d =
     (let d1 = d\<lparr>dk_tick := Suc (dk_tick d)\<rparr>
      in case mc_fault m (dk_tick d) of
           Some (Fault e part) \<Rightarrow> (Err e, broken part d1)
         | None \<Rightarrow> f d1)"

abbreviation unbroken :: "bytes option \<Rightarrow> disk \<Rightarrow> disk" where
  "unbroken \<equiv> \<lambda>_ d. d"

definition not_found :: io_error where
  "not_found = IoError KNotFound ''No such file or directory (os error 2)''"

definition parent_is_dir :: "path \<Rightarrow> disk \<Rightarrow> bool" where
  "parent_is_dir p d \<longleftrightarrow> p \<noteq> [] \<and> is_dir (butlast p) d"

text \<open>What a write that stops half-way leaves at its target.\<close>

definition half_written :: "machine \<Rightarrow> path \<Rightarrow> bytes option \<Rightarrow> disk \<Rightarrow> disk" where
  "half_written m p part d =
     (case part of
        None \<Rightarrow> d
      | Some bs \<Rightarrow> if is_dir p d \<or> \<not> parent_is_dir p d then d
          else set_node p (FileNode \<lparr>fn_bytes = bs, fn_exec = False, fn_mtime = mc_now m (dk_tick d)\<rparr>) d)"

definition fs_remove_file :: "machine \<Rightarrow> path \<Rightarrow> (io_error, unit) op" where
  "fs_remove_file m p = syscall m unbroken (\<lambda>d.
     case node_at p d of
       None \<Rightarrow> (Err not_found, d)
     | Some (FileNode _) \<Rightarrow> (Ok (), del_node p d)
     | Some DirNode \<Rightarrow> (Err (IoError KOther ''Is a directory (os error 21)''), d))"

definition fs_remove_dir :: "machine \<Rightarrow> path \<Rightarrow> (io_error, unit) op" where
  "fs_remove_dir m p = syscall m unbroken (\<lambda>d.
     if node_at p d \<noteq> Some DirNode then (Err not_found, d)
     else if list_ex (\<lambda>(q, _). strict_prefix p q) (dk_nodes d)
     then (Err (IoError KOther ''Directory not empty (os error 39)''), d)
     else (Ok (), del_node p d))"

definition fs_remove_dir_all :: "machine \<Rightarrow> path \<Rightarrow> (io_error, unit) op" where
  "fs_remove_dir_all m p = syscall m unbroken (\<lambda>d.
     if node_at p d \<noteq> Some DirNode then (Err not_found, d) else (Ok (), del_tree p d))"

definition fs_create_dir_all :: "machine \<Rightarrow> path \<Rightarrow> (io_error, unit) op" where
  "fs_create_dir_all m p = syscall m unbroken (\<lambda>d.
     if list_ex (\<lambda>q. is_file q d) (prefixes p) then (Err (IoError KOther ''Not a directory (os error 20)''), d)
     else (Ok (), make_dirs p d))"

definition fs_rename :: "machine \<Rightarrow> path \<Rightarrow> path \<Rightarrow> (io_error, unit) op" where
  "fs_rename m src dst = syscall m unbroken (\<lambda>d.
     case node_at src d of
       None \<Rightarrow> (Err not_found, d)
     | Some (FileNode f) \<Rightarrow>
         if \<not> parent_is_dir dst d then (Err not_found, d)
         else if is_dir dst d then (Err (IoError KOther ''Is a directory (os error 21)''), d)
         else (Ok (), set_node dst (FileNode f) (del_node src d))
     | Some DirNode \<Rightarrow>
         if \<not> parent_is_dir dst d \<or> path_exists dst d \<or> prefix src dst
         then (Err (IoError KOther ''Directory not empty (os error 39)''), d)
         else (Ok (), move_tree src dst d))"

text \<open>\<open>std::fs::copy\<close> copies the permission bits too.\<close>

definition fs_copy :: "machine \<Rightarrow> path \<Rightarrow> path \<Rightarrow> (io_error, unit) op" where
  "fs_copy m src dst = syscall m (half_written m dst) (\<lambda>d.
     case node_at src d of
       Some (FileNode f) \<Rightarrow>
         if \<not> parent_is_dir dst d then (Err not_found, d)
         else if is_dir dst d then (Err (IoError KOther ''Is a directory (os error 21)''), d)
         else (Ok (), set_node dst (FileNode (f\<lparr>fn_mtime := mc_now m (dk_tick d)\<rparr>)) d)
     | Some DirNode \<Rightarrow> (Err (IoError KInvalidInput ''the source path is neither a regular file nor a symlink to a regular file''), d)
     | None \<Rightarrow> (Err not_found, d))"

text \<open>Writing keeps the permission bits of a file that exists.\<close>

definition fs_write :: "machine \<Rightarrow> path \<Rightarrow> bytes \<Rightarrow> (io_error, unit) op" where
  "fs_write m p bs = syscall m (half_written m p) (\<lambda>d.
     if \<not> parent_is_dir p d then (Err not_found, d)
     else if is_dir p d then (Err (IoError KOther ''Is a directory (os error 21)''), d)
     else (Ok (), set_node p (FileNode
             (case node_at p d of
                Some (FileNode f) \<Rightarrow> f\<lparr>fn_bytes := bs, fn_mtime := mc_now m (dk_tick d)\<rparr>
              | _ \<Rightarrow> \<lparr>fn_bytes = bs, fn_exec = False, fn_mtime = mc_now m (dk_tick d)\<rparr>)) d))"

definition fs_create_new :: "machine \<Rightarrow> path \<Rightarrow> (io_error, unit) op" where
  "fs_create_new m p = syscall m unbroken (\<lambda>d.
     if path_exists p d then (Err (IoError KAlreadyExists ''File exists (os error 17)''), d)
     else if \<not> parent_is_dir p d then (Err not_found, d)
     else (Ok (), set_node p (FileNode \<lparr>fn_bytes = [], fn_exec = False, fn_mtime = mc_now m (dk_tick d)\<rparr>) d))"

definition fs_read :: "machine \<Rightarrow> path \<Rightarrow> (io_error, bytes) op" where
  "fs_read m p = syscall m unbroken (\<lambda>d.
     case node_at p d of
       Some (FileNode f) \<Rightarrow> (Ok (fn_bytes f), d)
     | Some DirNode \<Rightarrow> (Err (IoError KOther ''Is a directory (os error 21)''), d)
     | None \<Rightarrow> (Err not_found, d))"

definition fs_modified :: "machine \<Rightarrow> path \<Rightarrow> (io_error, nat) op" where
  "fs_modified m p = syscall m unbroken (\<lambda>d.
     case node_at p d of Some (FileNode f) \<Rightarrow> (Ok (fn_mtime f), d) | _ \<Rightarrow> (Err not_found, d))"

definition fs_set_exec :: "machine \<Rightarrow> path \<Rightarrow> bool \<Rightarrow> (io_error, unit) op" where
  "fs_set_exec m p b = syscall m unbroken (\<lambda>d.
     case node_at p d of
       Some (FileNode f) \<Rightarrow> (Ok (), set_node p (FileNode (f\<lparr>fn_exec := b\<rparr>)) d)
     | Some DirNode \<Rightarrow> (Ok (), d)
     | None \<Rightarrow> (Err not_found, d))"

definition fs_read_dir :: "machine \<Rightarrow> path \<Rightarrow> (io_error, string list) op" where
  "fs_read_dir m p = syscall m unbroken (\<lambda>d.
     if \<not> is_dir p d then (Err not_found, d)
     else (Ok (map (last \<circ> fst) (filter (\<lambda>(q, _). q \<noteq> [] \<and> butlast q = p) (dk_nodes d))), d))"

lemmas syscall_defs = fs_remove_file_def fs_remove_dir_def fs_remove_dir_all_def fs_create_dir_all_def
  fs_rename_def fs_copy_def fs_write_def fs_create_new_def fs_read_def fs_modified_def fs_set_exec_def
  fs_read_dir_def

lemma read_effect:
  "fs_read m p d = (Ok bs, d') \<Longrightarrow> (\<exists>f. node_at p d = Some (FileNode f) \<and> fn_bytes f = bs) \<and> (\<forall>q. node_at q d' = node_at q d)"
  by (auto simp: fs_read_def syscall_def Let_def split: option.splits fault.splits node.splits)

lemma node_at_half_written [simp]: "q \<noteq> p \<Longrightarrow> node_at q (half_written m p part d) = node_at q d"
  by (auto simp: half_written_def split: option.splits)

lemma syscall_keeps:
  "(\<And>part d. node_at q (broken part d) = node_at q d) \<Longrightarrow> (\<And>d. node_at q (snd (f d)) = node_at q d) \<Longrightarrow>
   keeps q (syscall m broken f)"
  by (auto simp: keeps_def syscall_def Let_def split: option.splits fault.splits)

lemma keeps_calls [keep_rules]:
  "q \<noteq> p \<Longrightarrow> keeps q (fs_remove_file m p)"
  "q \<noteq> p \<Longrightarrow> keeps q (fs_remove_dir m p)"
  "\<not> prefix p q \<Longrightarrow> keeps q (fs_remove_dir_all m p)"
  "q \<noteq> p \<Longrightarrow> keeps q (fs_copy m src p)"
  "q \<noteq> p \<Longrightarrow> keeps q (fs_write m p bs)"
  "q \<noteq> p \<Longrightarrow> keeps q (fs_create_new m p)"
  "q \<noteq> p \<Longrightarrow> keeps q (fs_set_exec m p b)"
  "keeps q (fs_read m p)"
  "keeps q (fs_modified m p)"
  "keeps q (fs_read_dir m p)"
  by (unfold syscall_defs; rule syscall_keeps; auto split: option.splits node.splits)+

text \<open>A directory creation leaves every node that exists alone, and creates nothing off its path.\<close>

lemma keeps_create_dir_all [keep_rules]: "\<not> prefix q p \<Longrightarrow> keeps q (fs_create_dir_all m p)"
  unfolding syscall_defs by (rule syscall_keeps) auto

lemma create_dir_all_node:
  "fs_create_dir_all m p d = (r, d') \<Longrightarrow> node_at q d = Some n \<Longrightarrow> node_at q d' = Some n"
  by (auto simp: fs_create_dir_all_def syscall_def Let_def split: option.splits fault.splits if_splits)

end
