(* ===== verification/Install_Place.thy ===== *)
theory Install_Place
  imports Install_Disk
begin

text \<open>
  What the installer knows of the machine and how it writes to it: \<open>self_install/env.rs\<close>,
  \<open>layout.rs\<close>, \<open>method.rs\<close>, \<open>options.rs\<close>, \<open>place.rs\<close> and \<open>receipt.rs\<close>.

  \<open>place_binary\<close> never leaves a half-written executable at its destination, whichever system call
  fails. The name of the application is one path component.
\<close>

section \<open>Environment and layout\<close>

datatype os = Linux | Macos | Windows | OtherUnix

definition is_windows :: "os \<Rightarrow> bool" where
  "is_windows sys \<longleftrightarrow> sys = Windows"

record install_env =
  ev_app :: string
  ev_version :: string
  ev_os :: os
  ev_home :: "path option"
  ev_vars :: "(string, string) btree_map"
  ev_current_exe :: path
  ev_stdout_is_terminal :: bool
  ev_is_root :: bool
  ev_state_root :: "path option"
  ev_config_root :: "path option"
  ev_data_root :: "path option"
  ev_user_path_key :: string
  ev_uninstall_key_root :: string
  ev_completion_command :: "string list option"
  ev_self_invocation :: string

definition env_var :: "install_env \<Rightarrow> string \<Rightarrow> string option" where
  "env_var env key =
     (case map_of (ev_vars env) key of Some v \<Rightarrow> if v = [] then None else Some v | None \<Rightarrow> None)"

text \<open>\<open>PathBuf::from\<close>: the components of a path text; a backslash separates them on Windows too.\<close>

definition path_of_text :: "os \<Rightarrow> string \<Rightarrow> path" where
  "path_of_text sys s =
     filter (\<lambda>c. c \<noteq> [] \<and> c \<noteq> ''.'')
       (str_split (CHR ''/'') (if is_windows sys then map (\<lambda>c. if c = CHR 0x5C then CHR ''/'' else c) s else s))"

definition path_entries :: "install_env \<Rightarrow> path list" where
  "path_entries env =
     (let is_path = (\<lambda>k. if is_windows (ev_os env) then map ascii_lower k = ''path'' else k = ''PATH'');
          raw = (case find (\<lambda>(k, _). is_path k) (ev_vars env) of Some (_, v) \<Rightarrow> v | None \<Rightarrow> []);
          sep = (if is_windows (ev_os env) then CHR '';'' else CHR '':'')
      in map (path_of_text (ev_os env)) (filter (\<lambda>s. s \<noteq> []) (str_split sep raw)))"

definition RECEIPT_FILE :: string where
  "RECEIPT_FILE = ''install-receipt.json''"

definition install_var_prefix :: "string \<Rightarrow> string" where
  "install_var_prefix app = map (\<lambda>c. if c = CHR ''-'' \<or> c = CHR ''.'' then CHR ''_'' else c) (map ascii_upper app)"

definition binary_file_name :: "string \<Rightarrow> os \<Rightarrow> string" where
  "binary_file_name app sys = (if is_windows sys then app @ ''.exe'' else app)"

definition default_bin_dir :: "install_env \<Rightarrow> path option" where
  "default_bin_dir env =
     (case (if is_windows (ev_os env) then None else env_var env ''XDG_BIN_HOME'') of
        Some xdg \<Rightarrow>
          if starts_with ''/'' xdg then Some (path_of_text (ev_os env) xdg)
          else map_option (\<lambda>h. h @ [''.local'', ''bin'']) (ev_home env)
      | None \<Rightarrow> map_option (\<lambda>h. h @ [''.local'', ''bin'']) (ev_home env))"

definition receipt_path :: "install_env \<Rightarrow> path option" where
  "receipt_path env = map_option (\<lambda>r. r @ [ev_app env, RECEIPT_FILE]) (ev_state_root env)"

definition canonical :: "machine \<Rightarrow> disk \<Rightarrow> path \<Rightarrow> path" where
  "canonical m d p = (if path_exists p d then mc_real m p else p)"

definition normalize_windows :: "path \<Rightarrow> path" where
  "normalize_windows p = map (map ascii_lower) p"

definition same_path :: "machine \<Rightarrow> disk \<Rightarrow> path \<Rightarrow> path \<Rightarrow> os \<Rightarrow> bool" where
  "same_path m d a b sys =
     (if is_windows sys then normalize_windows (canonical m d a) = normalize_windows (canonical m d b)
      else canonical m d a = canonical m d b)"

lemma same_path_refl [simp]: "same_path m d p p sys"
  by (simp add: same_path_def)

section \<open>How a copy got onto the machine\<close>

datatype install_method = SelfInstall | Script | Unmanaged | Homebrew | Scoop | Winget | Cargo | UnknownMethod

fun method_str :: "install_method \<Rightarrow> string" where
  "method_str SelfInstall = ''self-install''"
| "method_str Script = ''script''"
| "method_str Unmanaged = ''unmanaged''"
| "method_str Homebrew = ''homebrew''"
| "method_str Scoop = ''scoop''"
| "method_str Winget = ''winget''"
| "method_str Cargo = ''cargo''"
| "method_str UnknownMethod = ''unknown''"

definition is_package_manager :: "install_method \<Rightarrow> bool" where
  "is_package_manager mt \<longleftrightarrow> mt \<in> {Homebrew, Scoop, Winget, Cargo}"

definition classify_method :: "string \<Rightarrow> install_method option" where
  "classify_method raw =
     (let p = map ascii_lower (map (\<lambda>c. if c = CHR 0x5C then CHR ''/'' else c) raw)
      in if str_contains p ''/cellar/'' \<or> starts_with ''/opt/homebrew/'' p \<or>
            starts_with ''/home/linuxbrew/.linuxbrew/'' p then Some Homebrew
         else if str_contains p ''/scoop/apps/'' \<or> str_contains p ''/scoop/shims/'' then Some Scoop
         else if str_contains p ''/winget/'' then Some Winget
         else if str_contains p ''/.cargo/bin/'' then Some Cargo
         else None)"

definition infer_method_from_path :: "machine \<Rightarrow> disk \<Rightarrow> path \<Rightarrow> install_method option" where
  "infer_method_from_path m d p =
     find_map (\<lambda>q. classify_method (path_display q)) (p # (if path_exists p d then [mc_real m p] else []))"

fun upgrade_command :: "install_method \<Rightarrow> string \<Rightarrow> string option" where
  "upgrade_command Homebrew app = Some (''brew upgrade '' @ app)"
| "upgrade_command Scoop app = Some (''scoop update '' @ app)"
| "upgrade_command Winget app = Some (''winget upgrade '' @ app)"
| "upgrade_command Cargo app = Some (''cargo install '' @ app @ '' --force'')"
| "upgrade_command _ app = None"

definition upgrade_hint :: "install_method \<Rightarrow> string \<Rightarrow> string option" where
  "upgrade_hint mt app =
     Option.bind
       (case mt of
          Homebrew \<Rightarrow> Some (''brew uninstall '' @ app)
        | Scoop \<Rightarrow> Some (''scoop uninstall '' @ app)
        | Winget \<Rightarrow> Some (''winget uninstall '' @ app)
        | Cargo \<Rightarrow> Some (''cargo uninstall '' @ app)
        | _ \<Rightarrow> None)
       (\<lambda>remove. Option.bind (upgrade_command mt app) (\<lambda>up. Some (up @ ''  (remove: '' @ remove @ '')'')))"

section \<open>What an application declares\<close>

datatype release_source = Github string "string option" | HttpMirror string

record self_install_options =
  so_source :: release_source
  so_tag_prefix :: string
  so_asset_template :: string
  so_completions :: bool
  so_public_key :: "string option"
  so_update_notice :: bool
  so_apps_and_features :: bool
  so_publisher :: "string option"

definition DEFAULT_ASSET_TEMPLATE :: string where
  "DEFAULT_ASSET_TEMPLATE = ''{app}-{target}.{ext}''"

definition options_with_source :: "release_source \<Rightarrow> self_install_options" where
  "options_with_source src =
     \<lparr>so_source = src, so_tag_prefix = ''v'', so_asset_template = DEFAULT_ASSET_TEMPLATE, so_completions = False,
      so_public_key = None, so_update_notice = False, so_apps_and_features = True, so_publisher = None\<rparr>"

definition github_api_base :: "string \<Rightarrow> self_install_options \<Rightarrow> self_install_options" where
  "github_api_base base opts = (case so_source opts of
     Github repo _ \<Rightarrow> opts\<lparr>so_source := Github repo (Some base)\<rparr> | HttpMirror _ \<Rightarrow> opts)"

definition publisher_name :: "self_install_options \<Rightarrow> string \<Rightarrow> string" where
  "publisher_name opts app =
     (case so_publisher opts of
        Some p \<Rightarrow> p
      | None \<Rightarrow> (case so_source opts of Github repo _ \<Rightarrow> hd (str_split (CHR ''/'') repo) | HttpMirror _ \<Rightarrow> app))"

text \<open>\<open>str::replace\<close> of a pattern that is not empty.\<close>

function str_replace :: "string \<Rightarrow> string \<Rightarrow> string \<Rightarrow> string" where
  "str_replace pat rep s =
     (if pat = [] \<or> s = [] then s
      else if starts_with pat s then rep @ str_replace pat rep (drop (length pat) s)
      else hd s # str_replace pat rep (tl s))"
  by pat_completeness auto
termination by (relation "measure (\<lambda>(_, _, s). length s)") auto

declare str_replace.simps [simp del]

definition asset_name :: "self_install_options \<Rightarrow> string \<Rightarrow> string \<Rightarrow> string \<Rightarrow> string" where
  "asset_name opts app version target =
     (let ext = (if str_contains target ''windows'' then ''zip'' else ''tar.gz'')
      in str_replace ''{ext}'' ext
           (str_replace ''{version}'' (dropWhile (\<lambda>c. c = CHR ''v'') version)
             (str_replace ''{target}'' target
               (str_replace ''{app}'' app (so_asset_template opts)))))"

definition is_loopback_http :: "string \<Rightarrow> bool" where
  "is_loopback_http url =
     list_ex (\<lambda>p. starts_with p url \<and>
         (let rest = drop (length p) url in rest = [] \<or> starts_with '':'' rest \<or> starts_with ''/'' rest))
       [''http://127.0.0.1'', ''http://localhost'', ''http://[::1]'']"

definition check_https :: "string \<Rightarrow> bool" where
  "check_https url \<longleftrightarrow> starts_with ''https://'' url \<or> is_loopback_http url"

datatype options_error = BadRepo string | NotHttps string | NoTargetPlaceholder string | BadKey string

definition validate_options :: "(string \<Rightarrow> string + unit) \<Rightarrow> self_install_options \<Rightarrow> options_error + unit" where
  "validate_options key_ok opts =
     and_then
       (case so_source opts of
          Github repo base \<Rightarrow>
            (case str_split (CHR ''/'') repo of
               [owner, name] \<Rightarrow>
                 if owner = [] \<or> name = [] then Err (BadRepo repo)
                 else (case base of Some b \<Rightarrow> if check_https b then Ok () else Err (NotHttps b) | None \<Rightarrow> Ok ())
             | _ \<Rightarrow> Err (BadRepo repo))
        | HttpMirror url \<Rightarrow> if check_https url then Ok () else Err (NotHttps url))
       (\<lambda>_. if \<not> str_contains (so_asset_template opts) ''{target}'' then Err (NoTargetPlaceholder (so_asset_template opts))
            else (case so_public_key opts of None \<Rightarrow> Ok () | Some key \<Rightarrow> map_err BadKey (key_ok key)))"

section \<open>Placing the binary\<close>

datatype place_mode = Copy | Move

record place_result =
  pr_already_in_place :: bool
  pr_replaced_existing :: bool
  pr_parked_old :: "path option"

definition make_executable :: "machine \<Rightarrow> os \<Rightarrow> path \<Rightarrow> (io_error, unit) op" where
  "make_executable m sys p = (if is_windows sys then op_ok () else fs_set_exec m p True)"

definition park_old :: "machine \<Rightarrow> path \<Rightarrow> (io_error, path) op" where
  "park_old m dest =
     (let base = os_str_push dest ''.old''
      in op_bind (op_ignore (fs_remove_file m base)) (\<lambda>_.
         op_bind (op_get (path_exists base)) (\<lambda>there.
         let old = (if there then os_str_push base (''.'' @ nat_dec (mc_pid m)) else base)
         in op_bind (fs_rename m dest old) (\<lambda>_. op_ok old))))"

definition clear_download_marks :: "machine \<Rightarrow> os \<Rightarrow> path \<Rightarrow> (io_error, unit) op" where
  "clear_download_marks m sys p =
     (if is_windows sys then op_ignore (fs_remove_file m (os_str_push p '':Zone.Identifier'')) else op_ok ())"

definition stage_binary :: "machine \<Rightarrow> place_mode \<Rightarrow> path \<Rightarrow> path \<Rightarrow> (io_error, unit) op" where
  "stage_binary m mode src tmp =
     (case mode of
        Move \<Rightarrow>
          op_bind (op_result (fs_rename m src tmp)) (\<lambda>r. case r of
            Ok u \<Rightarrow> op_ok u
          | Err _ \<Rightarrow> op_bind (fs_copy m src tmp) (\<lambda>_. op_ignore (fs_remove_file m src)))
      | Copy \<Rightarrow> fs_copy m src tmp)"

definition staging_path :: "machine \<Rightarrow> path \<Rightarrow> path" where
  "staging_path m dest = butlast dest @ [''.'' @ last dest @ ''.tmp-'' @ nat_dec (mc_pid m)]"

text \<open>The last step: the staged file takes the name of the destination.\<close>

definition swap_in :: "machine \<Rightarrow> os \<Rightarrow> path \<Rightarrow> path \<Rightarrow> (io_error, path option) op" where
  "swap_in m sys tmp dest =
     op_bind (op_get (path_exists dest)) (\<lambda>there.
     if is_windows sys \<and> there then
       op_bind (park_old m dest) (\<lambda>old.
       op_bind (op_on_err (fs_rename m tmp dest)
                  (op_bind (op_ignore (fs_rename m old dest)) (\<lambda>_. fs_remove_file m tmp))) (\<lambda>_.
       op_bind (op_result (fs_remove_file m old)) (\<lambda>r.
       op_ok (case r of Err _ \<Rightarrow> Some old | Ok _ \<Rightarrow> None))))
     else op_bind (op_on_err (fs_rename m tmp dest) (fs_remove_file m tmp)) (\<lambda>_. op_ok None))"

definition place_binary :: "machine \<Rightarrow> path \<Rightarrow> path \<Rightarrow> place_mode \<Rightarrow> os \<Rightarrow> (io_error, place_result) op" where
  "place_binary m src dest mode sys =
     op_bind (op_get (\<lambda>d. path_exists dest d \<and> same_path m d src dest sys)) (\<lambda>here.
     if here then op_ok \<lparr>pr_already_in_place = True, pr_replaced_existing = False, pr_parked_old = None\<rparr>
     else if dest = [] then op_err (IoError KInvalidInput ''destination has no parent'')
     else
       let tmp = staging_path m dest
       in op_bind (fs_create_dir_all m (butlast dest)) (\<lambda>_.
          op_bind (op_ignore (fs_remove_file m tmp)) (\<lambda>_.
          op_bind (op_on_err (stage_binary m mode src tmp) (fs_remove_file m tmp)) (\<lambda>_.
          op_bind (make_executable m sys tmp) (\<lambda>_.
          op_bind (op_get (path_exists dest)) (\<lambda>replaced.
          op_bind (swap_in m sys tmp dest) (\<lambda>parked.
          op_bind (clear_download_marks m sys dest) (\<lambda>_.
          op_ok \<lparr>pr_already_in_place = False, pr_replaced_existing = replaced, pr_parked_old = parked\<rparr>))))))))"

definition stale_name :: "string \<Rightarrow> os \<Rightarrow> string \<Rightarrow> bool" where
  "stale_name app sys name =
     (let binary = binary_file_name app sys
      in starts_with (binary @ ''.old'') name \<or> starts_with (''.'' @ app @ ''-install.'') name \<or>
         starts_with (''.'' @ app @ ''-update.'') name \<or> starts_with (''.'' @ binary @ ''.tmp-'') name \<or>
         name = ''.'' @ app @ ''.lock'')"

definition stale_files :: "machine \<Rightarrow> path \<Rightarrow> string \<Rightarrow> os \<Rightarrow> ('e, path list) op" where
  "stale_files m bin_dir app sys =
     op_bind (op_result (fs_read_dir m bin_dir)) (\<lambda>r. case r of
       Err _ \<Rightarrow> op_ok []
     | Ok names \<Rightarrow> op_ok (map (\<lambda>n. bin_dir @ [n]) (sort (filter (stale_name app sys) names))))"

text \<open>\<open>startup_cleanup\<close>: the parked executables beside the running one are deleted at the next start.\<close>

definition startup_cleanup :: "machine \<Rightarrow> os \<Rightarrow> path \<Rightarrow> ('e, unit) op" where
  "startup_cleanup m sys exe =
     (if \<not> is_windows sys \<or> exe = [] then op_ok ()
      else op_bind (op_result (fs_read_dir m (butlast exe))) (\<lambda>r. case r of
             Err _ \<Rightarrow> op_ok ()
           | Ok names \<Rightarrow>
               op_bind (op_each (\<lambda>n. op_ignore (fs_remove_file m (butlast exe @ [n])))
                 (filter (\<lambda>n. starts_with (map ascii_lower (last exe @ ''.old'')) (map ascii_lower n)) names)) (\<lambda>_.
               op_ok ())))"

section \<open>Placing is atomic\<close>

lemma rename_file_effect:
  assumes "fs_rename m src dst d = (r, d')" "node_at src d = Some (FileNode f)"
  shows "(\<exists>e. r = Err e) \<and> (\<forall>q. node_at q d' = node_at q d) \<or>
     r = Ok () \<and> (\<forall>q. node_at q d' = (if q = dst then Some (FileNode f) else if q = src then None else node_at q d))"
  using assms by (auto simp: fs_rename_def syscall_def Let_def split: option.splits fault.splits if_splits)

lemma rename_missing:
  "fs_rename m src dst d = (r, d') \<Longrightarrow> node_at src d = None \<Longrightarrow> (\<exists>e. r = Err e) \<and> (\<forall>q. node_at q d' = node_at q d)"
  by (auto simp: fs_rename_def syscall_def Let_def split: option.splits fault.splits)

lemma copy_file_effect:
  assumes "fs_copy m src dst d = (r, d')" "node_at src d = Some (FileNode f)"
  shows "(\<forall>q. q \<noteq> dst \<longrightarrow> node_at q d' = node_at q d) \<and>
     (r = Ok () \<longrightarrow> (\<exists>t. node_at dst d' = Some (FileNode (f\<lparr>fn_mtime := t\<rparr>))))"
  using assms by (auto simp: fs_copy_def syscall_def Let_def split: option.splits fault.splits if_splits)

lemma remove_file_effect:
  assumes "fs_remove_file m p d = (r, d')"
  shows "(\<exists>e. r = Err e) \<and> (\<forall>q. node_at q d' = node_at q d) \<or> r = Ok () \<and> (\<forall>q. node_at q d' = (if q = p then None else node_at q d))"
  using assms
  by (auto simp: fs_remove_file_def syscall_def Let_def split: option.splits fault.splits node.splits)

lemma stage_binary_effect:
  assumes run: "stage_binary m mode src tmp d = (r, d')" and src: "node_at src d = Some (FileNode f)" and ne: "src \<noteq> tmp"
  shows "(\<forall>q. q \<noteq> src \<and> q \<noteq> tmp \<longrightarrow> node_at q d' = node_at q d) \<and>
     (r = Ok () \<longrightarrow> (\<exists>t. node_at tmp d' = Some (FileNode (f\<lparr>fn_mtime := t\<rparr>))))"
proof (cases mode)
  case Copy
  then show ?thesis using copy_file_effect [of m src tmp d r d'] run src by (auto simp: stage_binary_def)
next
  case Move
  obtain r1 d1 where rn: "fs_rename m src tmp d = (r1, d1)" by fastforce
  show ?thesis
  proof (cases r1)
    case (Inr u)
    then have "r = Ok ()" "d' = d1" using run Move rn by (auto simp: stage_binary_def op_defs)
    then show ?thesis using rename_file_effect [OF rn src] Inr by (auto intro: exI [of _ "fn_mtime f"])
  next
    case (Inl e)
    then have same: "\<forall>q. node_at q d1 = node_at q d" using rename_file_effect [OF rn src] by auto
    obtain r2 d2 where cp: "fs_copy m src tmp d1 = (r2, d2)" by fastforce
    have eff: "(\<forall>q. q \<noteq> tmp \<longrightarrow> node_at q d2 = node_at q d) \<and>
        (r2 = Ok () \<longrightarrow> (\<exists>t. node_at tmp d2 = Some (FileNode (f\<lparr>fn_mtime := t\<rparr>))))"
      using copy_file_effect [OF cp, of f] src same by auto
    show ?thesis
      using run eff ne remove_file_effect [of m src d2]
      by (cases r2) (auto simp: stage_binary_def op_defs Move rn Inl cp split: prod.splits)
  qed
qed

lemma staging_path_neq:
  assumes "dest \<noteq> []"
  shows "staging_path m dest \<noteq> dest" "os_str_push dest ''.old'' \<noteq> staging_path m dest"
    "os_str_push (os_str_push dest ''.old'') (''.'' @ nat_dec (mc_pid m)) \<noteq> staging_path m dest"
  using assms by (cases dest rule: rev_cases; auto simp: staging_path_def dest: arg_cong [where f = length])+

definition parked_paths :: "machine \<Rightarrow> path \<Rightarrow> path list" where
  "parked_paths m dest = [os_str_push dest ''.old'', os_str_push (os_str_push dest ''.old'') (''.'' @ nat_dec (mc_pid m))]"

lemma parked_paths_neq:
  assumes "dest \<noteq> []" "old \<in> set (parked_paths m dest)"
  shows "old \<noteq> dest" "old \<noteq> staging_path m dest"
  using assms staging_path_neq [OF assms(1), of m]
  by (cases dest rule: rev_cases; auto simp: parked_paths_def)+

lemma park_old_effect:
  assumes "park_old m dest d = (r, d')" "node_at dest d = Some (FileNode f)" "dest \<noteq> []"
  shows "(\<exists>e. r = Err e) \<and> (\<forall>q. q \<notin> set (parked_paths m dest) \<longrightarrow> node_at q d' = node_at q d) \<or>
     (\<exists>old \<in> set (parked_paths m dest). r = Ok old \<and> node_at old d' = Some (FileNode f) \<and> node_at dest d' = None \<and>
        (\<forall>q. q \<noteq> dest \<and> q \<notin> set (parked_paths m dest) \<longrightarrow> node_at q d' = node_at q d))"
proof -
  let ?base = "os_str_push dest ''.old''"
  obtain r1 d1 where rm: "fs_remove_file m ?base d = (r1, d1)" by fastforce
  define old where "old = (if path_exists ?base d1 then os_str_push ?base (''.'' @ nat_dec (mc_pid m)) else ?base)"
  obtain r2 d2 where rn: "fs_rename m dest old d1 = (r2, d2)" by fastforce
  have old: "old \<in> set (parked_paths m dest)" by (simp add: old_def parked_paths_def)
  then have ne: "old \<noteq> dest" using parked_paths_neq [OF assms(3)] by blast
  have d1: "node_at q d1 = node_at q d" if "q \<noteq> ?base" for q using remove_file_effect [OF rm] that by auto
  have dest: "node_at dest d1 = Some (FileNode f)"
    using d1 [of dest] assms(2,3) path_push_neq [of "''.old''" dest] by simp
  have "r = map_sum id (\<lambda>_. old) r2 \<and> d' = d2"
    using assms(1) rm rn by (cases r2) (auto simp: park_old_def op_defs Let_def old_def)
  then show ?thesis
    using rename_file_effect [OF rn dest] old ne d1 by (auto simp: parked_paths_def)
qed

text \<open>The state of the destination after a failure: as it was, or on Windows parked beside it.\<close>

definition left_alone :: "machine \<Rightarrow> os \<Rightarrow> path \<Rightarrow> disk \<Rightarrow> disk \<Rightarrow> bool" where
  "left_alone m sys dest d d' \<longleftrightarrow> node_at dest d' = node_at dest d \<or>
     is_windows sys \<and> node_at dest d' = None \<and> list_ex (\<lambda>old. node_at old d' = node_at dest d) (parked_paths m dest)"

lemma swap_in_unix:
  assumes "swap_in m sys tmp dest d = (r, d')" "node_at tmp d = Some (FileNode g)" "dest \<noteq> tmp"
    and "\<not> (is_windows sys \<and> path_exists dest d)"
  shows "(\<forall>p. r = Ok p \<longrightarrow> node_at dest d' = Some (FileNode g)) \<and> (\<forall>e. r = Err e \<longrightarrow> node_at dest d' = node_at dest d)"
proof -
  obtain r1 d1 where rn: "fs_rename m tmp dest d = (r1, d1)" by fastforce
  obtain r2 d2 where rm: "fs_remove_file m tmp d1 = (r2, d2)" by fastforce
  have "(r, d') = (case r1 of Ok _ \<Rightarrow> (Ok None, d1) | Err e \<Rightarrow> (Err e, d2))"
    using assms(1,4) rn rm by (cases r1) (auto simp: swap_in_def op_defs)
  then show ?thesis
    using rename_file_effect [OF rn assms(2)] remove_file_effect [OF rm] assms(3) by (auto split: sum.splits)
qed

lemma swap_in_windows:
  assumes run: "swap_in m sys tmp dest d = (r, d')" and tmp: "node_at tmp d = Some (FileNode g)"
    and dest: "node_at dest d = Some (FileNode f)" and ne: "dest \<noteq> []" "tmp = staging_path m dest"
    and win: "is_windows sys"
  shows "(\<forall>p. r = Ok p \<longrightarrow> node_at dest d' = Some (FileNode g)) \<and> (\<forall>e. r = Err e \<longrightarrow> left_alone m sys dest d d')"
proof -
  obtain r1 d1 where pk: "park_old m dest d = (r1, d1)" by fastforce
  note park = park_old_effect [OF pk dest ne(1)]
  have there: "path_exists dest d" using dest by (simp add: path_exists_def)
  have tmp_dest: "tmp \<noteq> dest" using staging_path_neq [OF ne(1)] ne(2) by auto
  show ?thesis
  proof (cases r1)
    case (Inl e)
    then have "r = Err e \<and> d' = d1" using run win there pk by (auto simp: swap_in_def op_defs)
    then show ?thesis
      using park Inl parked_paths_neq [OF ne(1)] by (auto simp: left_alone_def)
  next
    case (Inr old)
    then have old: "old \<in> set (parked_paths m dest)" "node_at old d1 = Some (FileNode f)" "node_at dest d1 = None"
      and rest: "\<And>q. q \<noteq> dest \<Longrightarrow> q \<notin> set (parked_paths m dest) \<Longrightarrow> node_at q d1 = node_at q d"
      using park by auto
    have old_ne: "old \<noteq> dest" "old \<noteq> tmp" using parked_paths_neq [OF ne(1) old(1)] ne(2) by auto
    have "node_at tmp d1 = Some (FileNode g)"
      using rest [of tmp] tmp tmp_dest parked_paths_neq [OF ne(1)] ne(2) by auto
    note rename1 = rename_file_effect [OF _ this]
    obtain r2 d2 where rn: "fs_rename m tmp dest d1 = (r2, d2)" by fastforce
    show ?thesis
    proof (cases r2)
      case (Inr u)
      obtain r3 d3 where rm: "fs_remove_file m old d2 = (r3, d3)" by fastforce
      have "isl r = False \<and> d' = d3"
        using run win there pk \<open>r1 = Inr old\<close> rn Inr rm by (auto simp: swap_in_def op_defs)
      then show ?thesis
        using rename1 [OF rn] Inr remove_file_effect [OF rm] old_ne by auto
    next
      case (Inl e)
      obtain r3 d3 where undo: "fs_rename m old dest d2 = (r3, d3)" by fastforce
      obtain r4 d4 where rm: "fs_remove_file m tmp d3 = (r4, d4)" by fastforce
      have res: "r = Err e \<and> d' = d4"
        using run win there pk \<open>r1 = Inr old\<close> rn Inl undo rm by (auto simp: swap_in_def op_defs)
      have d2: "node_at q d2 = node_at q d1" for q using rename1 [OF rn] Inl by auto
      have "(\<forall>q. node_at q d3 = node_at q d1) \<or> node_at dest d3 = Some (FileNode f)"
        using rename_file_effect [OF undo, of f] d2 old(2) by auto
      then show ?thesis
        using res remove_file_effect [OF rm] old old_ne tmp_dest dest win
        by (auto simp: left_alone_def list_ex_iff)
    qed
  qed
qed

lemma swap_in_effect:
  assumes "swap_in m sys tmp dest d = (r, d')" "node_at tmp d = Some (FileNode g)" "\<not> is_dir dest d"
    and "tmp = staging_path m dest"
  shows "(\<forall>p. r = Ok p \<longrightarrow> node_at dest d' = Some (FileNode g)) \<and> (\<forall>e. r = Err e \<longrightarrow> left_alone m sys dest d d')"
proof (cases "is_windows sys \<and> path_exists dest d")
  case True
  then obtain f where "node_at dest d = Some (FileNode f)"
    using assms(3) by (cases "node_at dest d"; cases "the (node_at dest d)") (auto simp: path_exists_def is_dir_def)
  then show ?thesis using swap_in_windows assms True by (auto simp: is_dir_def)
next
  case False
  then show ?thesis
    using swap_in_unix [OF assms(1,2) _ False] assms(3,4) staging_path_neq(1) [of dest m]
    by (auto simp: left_alone_def is_dir_def)
qed

text \<open>The bits a placed binary carries: on Unix it is made executable.\<close>

definition placed_node :: "os \<Rightarrow> file_node \<Rightarrow> nat \<Rightarrow> node" where
  "placed_node sys f t = FileNode (f\<lparr>fn_exec := (if is_windows sys then fn_exec f else True), fn_mtime := t\<rparr>)"

lemma make_executable_effect:
  assumes "make_executable m sys tmp d = (r, d')" "node_at tmp d = Some (FileNode (f\<lparr>fn_mtime := t\<rparr>))"
  shows "(\<forall>q. q \<noteq> tmp \<longrightarrow> node_at q d' = node_at q d) \<and> (r = Ok () \<longrightarrow> node_at tmp d' = Some (placed_node sys f t))"
  using assms
  by (auto simp: make_executable_def placed_node_def fs_set_exec_def syscall_def Let_def op_lift_def
      split: if_splits option.splits fault.splits)

lemma clear_marks_keeps: "keeps p (clear_download_marks m sys p)"
  unfolding clear_download_marks_def using path_push_neq [of "'':Zone.Identifier''" p]
  by (auto intro!: keep_rules)

lemma place_tail:
  assumes run: "op_bind (make_executable m sys (staging_path m dest)) (\<lambda>_. op_bind (op_get (path_exists dest)) (\<lambda>replaced.
      op_bind (swap_in m sys (staging_path m dest) dest) (\<lambda>parked. op_bind (clear_download_marks m sys dest) (\<lambda>_.
      op_ok \<lparr>pr_already_in_place = False, pr_replaced_existing = replaced, pr_parked_old = parked\<rparr>)))) d = (r, d')"
    and tmp: "node_at (staging_path m dest) d = Some (FileNode (f\<lparr>fn_mtime := t\<rparr>))" and dest: "\<not> is_dir dest d"
  shows "(\<forall>res. r = Ok res \<longrightarrow> \<not> pr_already_in_place res \<and> (\<exists>t. node_at dest d' = Some (placed_node sys f t))) \<and>
     (\<forall>e. r = Err e \<longrightarrow> left_alone m sys dest d d')"
proof -
  have ne: "dest \<noteq> []" "dest \<noteq> staging_path m dest" using dest staging_path_neq(1) [of dest m] by (auto simp: is_dir_def)
  obtain r1 d1 where mx: "make_executable m sys (staging_path m dest) d = (r1, d1)" by fastforce
  note exec = make_executable_effect [OF mx tmp]
  have d1: "node_at dest d1 = node_at dest d" using exec ne by auto
  obtain r2 d2 where sw: "swap_in m sys (staging_path m dest) dest d1 = (r2, d2)" by fastforce
  show ?thesis
  proof (cases r1)
    case (Inl e)
    then show ?thesis using run mx d1 by (auto simp: op_defs left_alone_def)
  next
    case (Inr u)
    then have "node_at (staging_path m dest) d1 = Some (placed_node sys f t)" using exec by auto
    then have swap: "(\<forall>p. r2 = Ok p \<longrightarrow> node_at dest d2 = Some (placed_node sys f t)) \<and>
        (\<forall>e. r2 = Err e \<longrightarrow> left_alone m sys dest d1 d2)"
      using swap_in_effect [OF sw] dest d1 by (auto simp: placed_node_def is_dir_def)
    obtain r3 d3 where cl: "clear_download_marks m sys dest d2 = (r3, d3)" by fastforce
    have "r3 = Ok ()" using cl by (auto simp: clear_download_marks_def op_defs split: if_splits prod.splits)
    then show ?thesis
      using run mx Inr sw cl swap d1 keepsD [OF clear_marks_keeps cl]
      by (cases r2) (auto simp: op_defs left_alone_def)
  qed
qed

lemma place_binary_effect:
  assumes run: "place_binary m src dest mode sys d = (r, d')" and src: "node_at src d = Some (FileNode f)"
    and dest: "\<not> is_dir dest d" and fresh: "src \<noteq> staging_path m dest"
    and other: "\<not> (path_exists dest d \<and> same_path m d src dest sys)"
  shows "(\<forall>res. r = Ok res \<longrightarrow> \<not> pr_already_in_place res \<and> (\<exists>t. node_at dest d' = Some (placed_node sys f t))) \<and>
     (\<forall>e. r = Err e \<longrightarrow> left_alone m sys dest d d')"
proof -
  let ?tmp = "staging_path m dest"
  have ne: "dest \<noteq> []" "src \<noteq> dest" "?tmp \<noteq> dest"
    using dest src other staging_path_neq(1) [of dest m] by (auto simp: is_dir_def path_exists_def)
  have quiet: "keeps dest (op_ignore (fs_remove_file m ?tmp))" "keeps dest (fs_remove_file m ?tmp)"
    using ne by (auto intro!: keep_rules)
  have alone: "left_alone m sys dest d d1" if "node_at dest d1 = node_at dest d" for d1
    using that by (simp add: left_alone_def)
  have "\<not> prefix dest (butlast dest)" using ne(1) prefix_length_le [of dest "butlast dest"]
    by (cases dest rule: rev_cases) auto
  then have mk: "keeps dest (fs_create_dir_all m (butlast dest))" by (rule keep_rules)
  let ?rest = "op_bind (make_executable m sys ?tmp) (\<lambda>_. op_bind (op_get (path_exists dest)) (\<lambda>replaced.
      op_bind (swap_in m sys ?tmp dest) (\<lambda>parked. op_bind (clear_download_marks m sys dest) (\<lambda>_.
      op_ok \<lparr>pr_already_in_place = False, pr_replaced_existing = replaced, pr_parked_old = parked\<rparr>))))"
  have "op_bind (fs_create_dir_all m (butlast dest)) (\<lambda>_. op_bind (op_ignore (fs_remove_file m ?tmp)) (\<lambda>_.
      op_bind (op_on_err (stage_binary m mode src ?tmp) (fs_remove_file m ?tmp)) (\<lambda>_. ?rest))) d = (r, d')"
    using run ne other by (auto simp: place_binary_def Let_def op_bind_def [of "op_get f" for f] op_get_def)
  then show ?thesis
  proof (cases rule: op_bind_cases)
    case (err e)
    then show ?thesis using keepsD [OF mk] alone by auto
  next
    case (ok u d1)
    have d1: "node_at src d1 = Some (FileNode f)" "node_at dest d1 = node_at dest d"
      using create_dir_all_node [OF ok(1)] keepsD [OF mk ok(1)] src by auto
    obtain r2 d2 where rm: "fs_remove_file m ?tmp d1 = (r2, d2)" by fastforce
    have d2: "node_at src d2 = Some (FileNode f)" "node_at dest d2 = node_at dest d"
      using remove_file_effect [OF rm] d1 fresh ne by auto
    obtain r3 d3 where st: "stage_binary m mode src ?tmp d2 = (r3, d3)" by fastforce
    note stage = stage_binary_effect [OF st d2(1) fresh]
    have d3: "node_at dest d3 = node_at dest d" using stage d2 ne by auto
    have tail: "op_bind (op_on_err (stage_binary m mode src ?tmp) (fs_remove_file m ?tmp)) (\<lambda>_. ?rest) d2 = (r, d')"
      using ok(2) rm by (simp add: op_bind_def [of "op_ignore x" for x] op_ignore_def)
    show ?thesis
    proof (cases r3)
      case (Inl e)
      then have "r = Err e \<and> d' = snd (fs_remove_file m ?tmp d3)" using tail st by (auto simp: op_bind_def op_on_err_def)
      moreover have "node_at dest (snd (fs_remove_file m ?tmp d3)) = node_at dest d3" using quiet(2) by (simp add: keeps_def)
      ultimately show ?thesis using d3 alone by auto
    next
      case (Inr u)
      then obtain t where tmp: "node_at ?tmp d3 = Some (FileNode (f\<lparr>fn_mtime := t\<rparr>))" using stage by auto
      have "?rest d3 = (r, d')" using tail st Inr by (simp add: op_bind_def [of "op_on_err x y" for x y] op_on_err_def)
      then show ?thesis using place_tail [OF _ tmp] d3 dest ne by (auto simp: is_dir_def left_alone_def)
    qed
  qed
qed

text \<open>The loopback exception looks at the text of the URL and not at its host: user information passes.\<close>

lemma loopback_userinfo_accepted: "check_https ''http://localhost:x@example.com/''"
  by code_simp

end
