(* ===== verification/Install_Receipt.thy ===== *)
theory Install_Receipt
  imports Install_Place
begin

text \<open>
  The install receipt (\<open>self_install/receipt.rs\<close>): what an install recorded, its file and its time
  stamp. The JSON conversions are parameters. A save replaces the receipt atomically: whichever call
  fails, the file holds the old bytes or the new ones, and a load after a successful save returns
  what was saved.
\<close>

record receipt_source =
  rs_source :: release_source
  rs_tag_prefix :: string
  rs_asset_template :: string

definition receipt_source_of :: "self_install_options \<Rightarrow> receipt_source" where
  "receipt_source_of opts =
     \<lparr>rs_source = so_source opts, rs_tag_prefix = so_tag_prefix opts, rs_asset_template = so_asset_template opts\<rparr>"

datatype path_modification =
    EnvFile path
  | RcLine path string
  | FishConf path
  | WindowsUserPath string string

record install_receipt =
  rc_schema_version :: u32
  rc_app :: string
  rc_version :: string
  rc_target :: string
  rc_channel :: string
  rc_bin_dir :: path
  rc_binary_path :: path
  rc_method :: install_method
  rc_modified_path :: "path_modification list"
  rc_completions :: "path list"
  rc_source :: receipt_source
  rc_installed_at :: string
  rc_previous_version :: "string option"
  rc_system :: bool
  rc_apps_and_features :: "string option"

definition RECEIPT_SCHEMA_VERSION :: u32 where
  "RECEIPT_SCHEMA_VERSION = 1"

datatype receipt_error =
    ReceiptRead path io_error
  | ReceiptInvalid path string
  | ReceiptWrite path io_error

record receipt_codec =
  cd_from_slice :: "bytes \<Rightarrow> string + install_receipt"
  cd_to_vec :: "install_receipt \<Rightarrow> string + bytes"

definition receipt_load :: "machine \<Rightarrow> receipt_codec \<Rightarrow> path \<Rightarrow> (receipt_error, install_receipt option) op" where
  "receipt_load m cd p =
     op_bind (op_result (fs_read m p)) (\<lambda>r. case r of
       Err e \<Rightarrow> if ie_kind e = KNotFound then op_ok None else op_err (ReceiptRead p e)
     | Ok bs \<Rightarrow>
         (case cd_from_slice cd bs of
            Err e \<Rightarrow> op_err (ReceiptInvalid p e)
          | Ok rc \<Rightarrow>
              if rc_schema_version rc \<noteq> RECEIPT_SCHEMA_VERSION
              then op_err (ReceiptInvalid p (''schema version '' @ nat_dec (unat (rc_schema_version rc)) @
                     '' is not supported (expected '' @ nat_dec (unat RECEIPT_SCHEMA_VERSION) @ '')''))
              else op_ok (Some rc)))"

definition receipt_tmp :: "machine \<Rightarrow> path \<Rightarrow> path" where
  "receipt_tmp m p = butlast p @ [''.install-receipt.'' @ nat_dec (mc_pid m) @ ''.tmp'']"

definition receipt_save :: "machine \<Rightarrow> receipt_codec \<Rightarrow> install_receipt \<Rightarrow> path \<Rightarrow> (receipt_error, unit) op" where
  "receipt_save m cd rc p =
     op_map_err (ReceiptWrite p)
       (if p = [] then op_err (IoError KInvalidInput ''receipt path has no parent directory'')
        else
          op_bind (fs_create_dir_all m (butlast p)) (\<lambda>_.
          op_bind (op_lift (map_err (IoError KOther) (cd_to_vec cd rc))) (\<lambda>json.
          op_bind (fs_write m (receipt_tmp m p) json) (\<lambda>_.
          op_on_err (fs_rename m (receipt_tmp m p) p) (fs_remove_file m (receipt_tmp m p))))))"

section \<open>Time stamps\<close>

text \<open>The date of a day number, counted from 1970-01-01, in the proleptic Gregorian calendar.\<close>

definition civil_from_days :: "int \<Rightarrow> int \<times> int \<times> int" where
  "civil_from_days days =
     (let z = days + 719468;
          era = z div 146097;
          doe = z - era * 146097;
          yoe = (doe - doe div 1460 + doe div 36524 - doe div 146096) div 365;
          y = yoe + era * 400;
          doy = doe - (365 * yoe + yoe div 4 - yoe div 100);
          mp = (5 * doy + 2) div 153;
          d = doy - (153 * mp + 2) div 5 + 1;
          mo = (if mp < 10 then mp + 3 else mp - 9);
          y = (if mo \<le> 2 then y + 1 else y)
      in (y, mo, d))"

text \<open>\<open>{n:0w}\<close>: the sign comes first and counts for the width.\<close>

definition pad :: "nat \<Rightarrow> int \<Rightarrow> string" where
  "pad w n =
     (let ds = nat_dec (nat \<bar>n\<bar>); sgn = (if n < 0 then ''-'' else '''')
      in sgn @ replicate (w - length ds - length sgn) (CHR ''0'') @ ds)"

definition rfc3339_from_unix :: "i64 \<Rightarrow> string" where
  "rfc3339_from_unix secs =
     (case civil_from_days (secs div 86400) of (y, mo, d) \<Rightarrow>
        let rem = secs mod 86400
        in pad 4 y @ ''-'' @ pad 2 mo @ ''-'' @ pad 2 d @ ''T'' @
           pad 2 (rem div 3600) @ '':'' @ pad 2 ((rem mod 3600) div 60) @ '':'' @ pad 2 (rem mod 60) @ ''Z'')"

definition now_rfc3339 :: "machine \<Rightarrow> ('e, string) op" where
  "now_rfc3339 m = op_get (\<lambda>d. rfc3339_from_unix (int (mc_now m (dk_tick d))))"

section \<open>The receipt file\<close>

lemma receipt_tmp_neq: "p \<noteq> [] \<Longrightarrow> last p = RECEIPT_FILE \<Longrightarrow> receipt_tmp m p \<noteq> p"
  by (cases p rule: rev_cases) (auto simp: receipt_tmp_def RECEIPT_FILE_def)

lemma write_effect:
  assumes "fs_write m p bs d = (r, d')"
  shows "(\<forall>q. q \<noteq> p \<longrightarrow> node_at q d' = node_at q d) \<and> (r = Ok () \<longrightarrow> (\<exists>f. node_at p d' = Some (FileNode f) \<and> fn_bytes f = bs))"
  using assms
  by (auto simp: fs_write_def syscall_def Let_def split: option.splits fault.splits if_splits node.splits)

lemma keeps_receipt_load [keep_rules]: "keeps q (receipt_load m cd p)"
  unfolding receipt_load_def by (intro keep_rules)

lemma keeps_now [keep_rules]: "keeps q (now_rfc3339 m)"
  unfolding now_rfc3339_def by (rule keep_rules)

text \<open>Saving: the file at the receipt's path is the old one or a complete new one.\<close>

lemma receipt_save_effect:
  assumes run: "receipt_save m cd rc p d = (r, d')" and p: "p \<noteq> []" "last p = RECEIPT_FILE"
  shows "(r = Ok () \<longrightarrow> (\<exists>f. node_at p d' = Some (FileNode f) \<and> cd_to_vec cd rc = Ok (fn_bytes f))) \<and>
     (\<forall>e. r = Err e \<longrightarrow> node_at p d' = node_at p d)"
proof -
  let ?tmp = "receipt_tmp m p"
  have ne: "?tmp \<noteq> p" using receipt_tmp_neq p by blast
  obtain r1 d1 where mk: "fs_create_dir_all m (butlast p) d = (r1, d1)" by fastforce
  have "\<not> prefix p (butlast p)"
    using p(1) prefix_length_le [of p "butlast p"] by (cases p rule: rev_cases) auto
  then have d1: "node_at p d1 = node_at p d" using keepsD [OF keeps_create_dir_all mk] by blast
  show ?thesis
  proof (cases "isl r1 \<or> isl (cd_to_vec cd rc)")
    case True
    then show ?thesis
      using run p(1) mk d1 by (auto simp: receipt_save_def op_defs isl_def split: sum.splits)
  next
    case False
    then obtain u json where ok: "r1 = Ok u" "cd_to_vec cd rc = Ok json"
      by (cases r1; cases "cd_to_vec cd rc") auto
    obtain r2 d2 where wr: "fs_write m ?tmp json d1 = (r2, d2)" by fastforce
    note wrote = write_effect [OF wr]
    obtain r3 d3 where rn: "fs_rename m ?tmp p d2 = (r3, d3)" by fastforce
    obtain r4 d4 where rm: "fs_remove_file m ?tmp d3 = (r4, d4)" by fastforce
    have res: "(r, d') = (case r2 of Err e \<Rightarrow> (Err (ReceiptWrite p e), d2)
        | Ok _ \<Rightarrow> (case r3 of Err e \<Rightarrow> (Err (ReceiptWrite p e), d4) | Ok _ \<Rightarrow> (Ok (), d3)))"
      using run p(1) mk ok wr rn rm by (cases r2; cases r3) (auto simp: receipt_save_def op_defs)
    show ?thesis
    proof (cases r2)
      case (Inl e)
      then show ?thesis using res wrote d1 ne by auto
    next
      case (Inr u)
      then obtain f where tmp: "node_at ?tmp d2 = Some (FileNode f)" "fn_bytes f = json" using wrote by auto
      then show ?thesis
        using res Inr rename_file_effect [OF rn tmp(1)] remove_file_effect [OF rm] wrote d1 ne ok(2)
        by (cases r3) auto
    qed
  qed
qed

end
