(* ===== verification/Config_Manifest.thy ===== *)
theory Config_Manifest
  imports Json
begin

text \<open>
  The configuration manifest (\<open>config/manifest/types.rs\<close>): the declared fields of an
  application, nested in sections, and their flattening into the dotted leaf keyspace every other
  configuration component is keyed by.

  The lemmas relate the dotted paths to the lists of segments they are joined from:
  \<open>iter_leaves_segs\<close> says what is listed, \<open>leaf_paths_distinct\<close> that a manifest with
  well-formed keys names every leaf once.
\<close>

section \<open>Data\<close>

datatype scope = Machine | User | Org

record field_constraints =
  fc_min :: "f64 option"
  fc_max :: "f64 option"
  fc_allowed_values :: "json list option"

datatype field_kind =
    KBool
  | KInt
  | KFloat
  | KStr
  | KEnum "string list"
  | KDuration
  | KPath
  | KUrl
  | KList field_kind
  | KSection "field_manifest list"
and field_manifest =
  FieldManifest
    (fm_key: string)
    (fm_kind: field_kind)
    (fm_default: "json option")
    (fm_label: "string option")
    (fm_description: "string option")
    (fm_group: "string option")
    (fm_scope: scope)
    (fm_platforms: "string list")
    (fm_secret: bool)
    (fm_local_only: bool)
    (fm_protected: bool)
    (fm_manageable: bool)
    (fm_enforceable: bool)
    (fm_restart_required: bool)
    (fm_constraints: "field_constraints option")

record config_manifest =
  manifest_schema_version :: u32
  cm_app :: string
  cm_fields :: "field_manifest list"

definition MANIFEST_SCHEMA_VERSION :: u32 where
  "MANIFEST_SCHEMA_VERSION = 1"

definition config_manifest_new :: "string \<Rightarrow> field_manifest list \<Rightarrow> config_manifest" where
  "config_manifest_new app fs =
     \<lparr>manifest_schema_version = MANIFEST_SCHEMA_VERSION, cm_app = app, cm_fields = fs\<rparr>"

text \<open>A leaf paired with its dotted path.\<close>

record leaf_field =
  lf_path :: string
  lf_field :: field_manifest

section \<open>Leaves\<close>

text \<open>The path scheme shared by the manifest and the flattened documents.\<close>

definition dotted :: "string \<Rightarrow> string \<Rightarrow> string" where
  "dotted prefix key = (if prefix = [] then key else prefix @ ''.'' @ key)"

lemma section_child_size: "fm_kind f = KSection fs \<Longrightarrow> c \<in> set fs \<Longrightarrow> size c < size f"
proof -
  assume f: "fm_kind f = KSection fs" and c: "c \<in> set fs"
  have "size c < size_list size fs" using c by (induction fs) auto
  then show ?thesis using f by (cases f) simp
qed

function collect_leaves :: "field_manifest \<Rightarrow> string \<Rightarrow> leaf_field list" where
  "collect_leaves field prefix =
     (let full_path = dotted prefix (fm_key field)
      in case fm_kind field of
           KSection fs \<Rightarrow> concat (map (\<lambda>child. collect_leaves child full_path) fs)
         | _ \<Rightarrow> [\<lparr>lf_path = full_path, lf_field = field\<rparr>])"
  by pat_completeness auto
termination
  by (relation "measure (\<lambda>(f, _). size f)") (auto simp: section_child_size)

declare collect_leaves.simps [simp del]

definition iter_leaves :: "config_manifest \<Rightarrow> leaf_field list" where
  "iter_leaves m = concat (map (\<lambda>field. collect_leaves field []) (cm_fields m))"

definition leaf_by_path :: "config_manifest \<Rightarrow> string \<Rightarrow> field_manifest option" where
  "leaf_by_path m path = map_option lf_field (find (\<lambda>l. lf_path l = path) (iter_leaves m))"

section \<open>Segments\<close>

definition is_section :: "field_manifest \<Rightarrow> bool" where
  "is_section f = (case fm_kind f of KSection _ \<Rightarrow> True | _ \<Rightarrow> False)"

definition section_fields :: "field_manifest \<Rightarrow> field_manifest list" where
  "section_fields f = (case fm_kind f of KSection fs \<Rightarrow> fs | _ \<Rightarrow> [])"

lemma is_section_iff: "is_section f \<longleftrightarrow> fm_kind f = KSection (section_fields f)"
  by (auto simp: is_section_def section_fields_def split: field_kind.splits)

lemma section_fields_size: "c \<in> set (section_fields f) \<Longrightarrow> size c < size f"
  by (auto simp: section_fields_def split: field_kind.splits intro: section_child_size [OF sym])

lemma collect_leaves_section:
  "is_section f \<Longrightarrow> collect_leaves f p =
     concat (map (\<lambda>c. collect_leaves c (dotted p (fm_key f))) (section_fields f))"
  by (simp add: collect_leaves.simps [of f] is_section_iff Let_def)

lemma collect_leaves_leaf:
  "\<not> is_section f \<Longrightarrow> collect_leaves f p = [\<lparr>lf_path = dotted p (fm_key f), lf_field = f\<rparr>]"
  by (auto simp: collect_leaves.simps [of f] is_section_def Let_def split: field_kind.splits)

text \<open>The segment lists of the leaves below a field.\<close>

function leaf_segs :: "field_manifest \<Rightarrow> (string list \<times> field_manifest) list" where
  "leaf_segs f =
     (if is_section f
      then map (\<lambda>(ss, l). (fm_key f # ss, l)) (concat (map leaf_segs (section_fields f)))
      else [([fm_key f], f)])"
  by pat_completeness auto
termination
  by (relation "measure size") (auto simp: section_fields_size)

declare leaf_segs.simps [simp del]

text \<open>A key that is one path segment, and a manifest whose siblings have distinct such keys.\<close>

definition ok_key :: "string \<Rightarrow> bool" where
  "ok_key k \<longleftrightarrow> k \<noteq> [] \<and> CHR ''.'' \<notin> set k"

function wf_field :: "field_manifest \<Rightarrow> bool" where
  "wf_field f \<longleftrightarrow>
     ok_key (fm_key f) \<and> distinct (map fm_key (section_fields f)) \<and>
     (\<forall>c \<in> set (section_fields f). wf_field c)"
  by pat_completeness auto
termination
  by (relation "measure size") (auto simp: section_fields_size)

declare wf_field.simps [simp del]

definition wf_fields :: "field_manifest list \<Rightarrow> bool" where
  "wf_fields fs \<longleftrightarrow> distinct (map fm_key fs) \<and> (\<forall>f \<in> set fs. wf_field f)"

abbreviation wf_manifest :: "config_manifest \<Rightarrow> bool" where
  "wf_manifest m \<equiv> wf_fields (cm_fields m)"

abbreviation dot_join :: "string list \<Rightarrow> string" where
  "dot_join \<equiv> str_join ''.''"

lemma str_join_nonempty: "ss \<noteq> [] \<Longrightarrow> (\<And>s. s \<in> set ss \<Longrightarrow> s \<noteq> []) \<Longrightarrow> str_join sep ss \<noteq> []"
  by (cases "(sep, ss)" rule: str_join.cases) auto

lemma dotted_join:
  "(\<And>s. s \<in> set ss \<Longrightarrow> ok_key s) \<Longrightarrow> dotted (dot_join ss) k = dot_join (ss @ [k])"
proof (cases "ss = []")
  case True
  then show ?thesis by (simp add: dotted_def)
next
  case False
  assume "\<And>s. s \<in> set ss \<Longrightarrow> ok_key s"
  then have "dot_join ss \<noteq> []"
    using False by (intro str_join_nonempty) (auto simp: ok_key_def)
  then show ?thesis
    using False by (simp add: dotted_def join_append)
qed

lemma dot_join_inj:
  assumes "\<And>s. s \<in> set ss \<Longrightarrow> ok_key s" "\<And>t. t \<in> set ts \<Longrightarrow> ok_key t"
    and eq: "dot_join ss = dot_join ts"
  shows "ss = ts"
proof -
  have ne: "dot_join us \<noteq> []" if "us \<noteq> []" "\<And>s. s \<in> set us \<Longrightarrow> ok_key s" for us
    using that by (intro str_join_nonempty) (auto simp: ok_key_def)
  have dots: "CHR ''.'' \<notin> set s" if "s \<in> set ss \<or> s \<in> set ts" for s
    using that assms by (auto simp: ok_key_def)
  show ?thesis
  proof (cases "ss = [] \<or> ts = []")
    case True
    then show ?thesis using ne [of ss] ne [of ts] assms by (cases "ss = []"; cases "ts = []") auto
  next
    case False
    then have "ss = str_split CHR ''.'' (dot_join ss)" "ts = str_split CHR ''.'' (dot_join ts)"
      using dots by (metis split_join)+
    then show ?thesis using eq by metis
  qed
qed

lemma leaf_segs_ok: "wf_field f \<Longrightarrow> (ss, l) \<in> set (leaf_segs f) \<Longrightarrow> ss \<noteq> [] \<and> (\<forall>s \<in> set ss. ok_key s)"
proof (induction f arbitrary: ss rule: leaf_segs.induct)
  case (1 f)
  then show ?case
    by (cases "is_section f") (fastforce simp: leaf_segs.simps [of f] wf_field.simps [of f])+
qed

lemma leaf_segs_hd: "(ss, l) \<in> set (leaf_segs f) \<Longrightarrow> hd ss = fm_key f"
  by (cases "is_section f") (auto simp: leaf_segs.simps [of f])

lemma leaf_segs_leaf: "(ss, l) \<in> set (leaf_segs f) \<Longrightarrow> \<not> is_section l"
proof (induction f arbitrary: ss rule: leaf_segs.induct)
  case (1 f)
  then show ?case
    by (cases "is_section f") (auto simp: leaf_segs.simps [of f])
qed

lemma collect_leaves_segs:
  assumes "wf_field f" "\<And>s. s \<in> set pre \<Longrightarrow> ok_key s"
  shows "collect_leaves f (dot_join pre) =
           map (\<lambda>(ss, l). \<lparr>lf_path = dot_join (pre @ ss), lf_field = l\<rparr>) (leaf_segs f)"
  using assms
proof (induction f arbitrary: pre rule: leaf_segs.induct)
  case (1 f)
  have wf: "ok_key (fm_key f)" "\<And>c. c \<in> set (section_fields f) \<Longrightarrow> wf_field c"
    using "1.prems"(1) by (auto simp: wf_field.simps [of f])
  have dj: "dotted (dot_join pre) (fm_key f) = dot_join (pre @ [fm_key f])"
    using "1.prems"(2) by (rule dotted_join)
  show ?case
  proof (cases "is_section f")
    case False
    then show ?thesis using dj by (simp add: collect_leaves_leaf leaf_segs.simps [of f])
  next
    case True
    have "collect_leaves c (dot_join (pre @ [fm_key f])) =
            map (\<lambda>(ss, l). \<lparr>lf_path = dot_join (pre @ fm_key f # ss), lf_field = l\<rparr>) (leaf_segs c)"
      if "c \<in> set (section_fields f)" for c
      using "1.IH" [OF True that, of "pre @ [fm_key f]"] "1.prems"(2) wf that by auto
    then have "map (\<lambda>c. collect_leaves c (dot_join (pre @ [fm_key f]))) (section_fields f) =
        map (\<lambda>c. map (\<lambda>(ss, l). \<lparr>lf_path = dot_join (pre @ fm_key f # ss), lf_field = l\<rparr>)
                   (leaf_segs c)) (section_fields f)"
      by simp
    then show ?thesis
      using True dj
      by (simp add: collect_leaves_section leaf_segs.simps [of f] map_concat comp_def
          case_prod_unfold cong: map_cong)
  qed
qed

definition manifest_segs :: "config_manifest \<Rightarrow> (string list \<times> field_manifest) list" where
  "manifest_segs m = concat (map leaf_segs (cm_fields m))"

lemma iter_leaves_segs:
  "wf_manifest m \<Longrightarrow>
   iter_leaves m = map (\<lambda>(ss, l). \<lparr>lf_path = dot_join ss, lf_field = l\<rparr>) (manifest_segs m)"
proof -
  assume "wf_manifest m"
  then have "map (\<lambda>f. collect_leaves f []) (cm_fields m) =
      map (\<lambda>f. map (\<lambda>(ss, l). \<lparr>lf_path = dot_join ss, lf_field = l\<rparr>) (leaf_segs f)) (cm_fields m)"
    using collect_leaves_segs [where pre = "[]"] by (simp add: wf_fields_def)
  then show ?thesis
    by (simp add: iter_leaves_def manifest_segs_def map_concat comp_def cong: map_cong)
qed

lemma distinct_concat_segs:
  assumes "distinct (map fm_key fs)" "\<And>f. f \<in> set fs \<Longrightarrow> distinct (map fst (leaf_segs f))"
  shows "distinct (map fst (concat (map leaf_segs fs)))"
  using assms
proof (induction fs)
  case Nil
  then show ?case by simp
next
  case (Cons f fs)
  have "False" if "(ss, l) \<in> set (leaf_segs f)" "(ss, l') \<in> set (leaf_segs g)" "g \<in> set fs" for ss l l' g
    using that leaf_segs_hd Cons.prems(1) by (metis distinct.simps(2) image_eqI list.simps(9) set_map)
  then show ?case using Cons by fastforce
qed

lemma leaf_segs_distinct: "wf_field f \<Longrightarrow> distinct (map fst (leaf_segs f))"
proof (induction f rule: leaf_segs.induct)
  case (1 f)
  show ?case
  proof (cases "is_section f")
    case False
    then show ?thesis by (simp add: leaf_segs.simps [of f])
  next
    case True
    have "distinct (map fst (concat (map leaf_segs (section_fields f))))"
      using 1 True by (intro distinct_concat_segs) (auto simp: wf_field.simps [of f])
    then have "distinct (map ((#) (fm_key f)) (map fst (concat (map leaf_segs (section_fields f)))))"
      by (simp only: distinct_map) (simp add: inj_on_def)
    then show ?thesis
      using True by (simp add: leaf_segs.simps [of f] comp_def case_prod_unfold)
  qed
qed

lemma manifest_segs_distinct: "wf_manifest m \<Longrightarrow> distinct (map fst (manifest_segs m))"
  unfolding manifest_segs_def wf_fields_def
  by (intro distinct_concat_segs) (auto simp: leaf_segs_distinct)

lemma manifest_segs_ok:
  "wf_manifest m \<Longrightarrow> (ss, l) \<in> set (manifest_segs m) \<Longrightarrow> ss \<noteq> [] \<and> (\<forall>s \<in> set ss. ok_key s)"
  by (auto simp: manifest_segs_def wf_fields_def dest: leaf_segs_ok)

lemma leaf_paths_distinct: "wf_manifest m \<Longrightarrow> distinct (map lf_path (iter_leaves m))"
proof -
  assume m: "wf_manifest m"
  have "inj_on dot_join (set (map fst (manifest_segs m)))"
    using manifest_segs_ok [OF m] by (intro inj_onI) (auto intro!: dot_join_inj)
  then have "distinct (map dot_join (map fst (manifest_segs m)))"
    using manifest_segs_distinct [OF m] by (simp only: distinct_map)
  then show ?thesis using m by (simp add: iter_leaves_segs comp_def case_prod_unfold)
qed

lemma leaf_by_path_None_iff: "leaf_by_path m p = None \<longleftrightarrow> p \<notin> lf_path ` set (iter_leaves m)"
  by (auto simp: leaf_by_path_def find_None_iff)

lemma leaf_by_path_SomeD:
  "leaf_by_path m p = Some f \<Longrightarrow> \<lparr>lf_path = p, lf_field = f\<rparr> \<in> set (iter_leaves m)"
  unfolding leaf_by_path_def by (auto dest!: find_SomeD)

lemma leaf_by_path_complete:
  assumes "distinct (map lf_path (iter_leaves m))" "l \<in> set (iter_leaves m)"
  shows "leaf_by_path m (lf_path l) = Some (lf_field l)"
proof -
  obtain f where f: "leaf_by_path m (lf_path l) = Some f"
    using assms(2) leaf_by_path_None_iff by (metis image_eqI not_Some_eq)
  have "\<lparr>lf_path = lf_path l, lf_field = f\<rparr> = l"
    using leaf_by_path_SomeD [OF f] assms by (auto simp: distinct_map inj_on_def)
  then show ?thesis using f by (metis leaf_field.select_convs(2))
qed

section \<open>A sample manifest\<close>

text \<open>The field the witnesses build on: every flag at its default.\<close>

definition sample_field :: "string \<Rightarrow> field_kind \<Rightarrow> field_manifest" where
  "sample_field key kind =
     FieldManifest key kind None None None None Machine [] False False False True True False None"

definition sample_local_field :: "string \<Rightarrow> field_kind \<Rightarrow> field_manifest" where
  "sample_local_field key kind =
     FieldManifest key kind None None None None Machine [] False True False True True False None"

definition sample_manifest :: config_manifest where
  "sample_manifest =
     config_manifest_new ''app''
       [sample_field ''net'' (KSection [sample_field ''url'' KUrl, sample_field ''port'' KInt]),
        sample_local_field ''home'' KPath]"

lemma sample_leaves:
  "iter_leaves sample_manifest =
     [\<lparr>lf_path = ''net.url'', lf_field = sample_field ''url'' KUrl\<rparr>,
      \<lparr>lf_path = ''net.port'', lf_field = sample_field ''port'' KInt\<rparr>,
      \<lparr>lf_path = ''home'', lf_field = sample_local_field ''home'' KPath\<rparr>]"
  by code_simp

lemma sample_manifest_wf: "wf_manifest sample_manifest"
  by code_simp

end
