(* ===== verification/Flatten.thy ===== *)
theory Flatten
  imports Config_Manifest
begin

text \<open>
  Flattening a nested document into the dotted keyspace and rebuilding it from the manifest
  (\<open>config/resolution/flatten.rs\<close>). \<open>value_at\<close> reads a document along a list of
  segments; both directions are characterised by it, and the round trip follows because a map is
  determined by its lookups.
\<close>

section \<open>Operations\<close>

fun flatten_into :: "json_map \<Rightarrow> string \<Rightarrow> json_map \<Rightarrow> json_map" where
  "flatten_into [] prefix out = out"
| "flatten_into ((key, JObj nested) # m) prefix out =
     flatten_into m prefix (flatten_into nested (dotted prefix key) out)"
| "flatten_into ((key, other) # m) prefix out =
     flatten_into m prefix (bm_insert (dotted prefix key) other out)"

definition flatten_to_paths :: "json \<Rightarrow> json_map" where
  "flatten_to_paths value = (case value of JObj m \<Rightarrow> flatten_into m [] [] | _ \<Rightarrow> [])"

text \<open>One iteration of the loop of \<open>unflatten_fields\<close>, and the loop.\<close>

function unflatten_fields :: "field_manifest list \<Rightarrow> string \<Rightarrow> json_map \<Rightarrow> json_map" where
  "unflatten_fields fs prefix flat =
     fold (\<lambda>field out.
             let path = dotted prefix (fm_key field)
             in case fm_kind field of
                  KSection nested \<Rightarrow>
                    bm_insert (fm_key field) (JObj (unflatten_fields nested path flat)) out
                | _ \<Rightarrow> (case map_of flat path of
                           Some v \<Rightarrow> bm_insert (fm_key field) v out
                         | None \<Rightarrow> out))
          fs []"
  by pat_completeness auto
termination
proof (relation "measure (\<lambda>(fs, _, _). size_list size fs)", goal_cases)
  case 1
  show ?case by simp
next
  case (2 fs prefix flat f out path nested)
  have "size_list size nested < size f" using 2(3) by (cases f) auto
  also have "size f \<le> size_list size fs" using 2(1) by (induction fs) auto
  finally show ?case by simp
qed

declare unflatten_fields.simps [simp del]

definition unflatten_from_paths :: "config_manifest \<Rightarrow> json_map \<Rightarrow> json" where
  "unflatten_from_paths m flat = JObj (unflatten_fields (cm_fields m) [] flat)"

section \<open>Reading a document along a path\<close>

fun value_at :: "json_map \<Rightarrow> string list \<Rightarrow> json option" where
  "value_at m [] = None"
| "value_at m [k] =
     (case map_of m k of Some v \<Rightarrow> if is_object v then None else Some v | None \<Rightarrow> None)"
| "value_at m (k # ks) =
     (case map_of m k of Some (JObj m') \<Rightarrow> value_at m' ks | _ \<Rightarrow> None)"

text \<open>Every object key, at every depth below arrays, is one path segment.\<close>

fun ok_keys :: "json_map \<Rightarrow> bool" where
  "ok_keys [] = True"
| "ok_keys ((k, v) # m) =
     (ok_key k \<and> (case v of JObj n \<Rightarrow> ok_keys n | _ \<Rightarrow> True) \<and> ok_keys m)"

text \<open>The entries \<open>flatten_into\<close> inserts, as segment lists.\<close>

fun flat_entries :: "json_map \<Rightarrow> (string list \<times> json) list" where
  "flat_entries [] = []"
| "flat_entries ((k, v) # m) =
     (case v of
        JObj n \<Rightarrow> map (\<lambda>(ss, v). (k # ss, v)) (flat_entries n)
      | _ \<Rightarrow> [([k], v)]) @ flat_entries m"

lemma flatten_into_Cons:
  "flatten_into ((k, v) # m) p out =
     flatten_into m p (case v of JObj n \<Rightarrow> flatten_into n (dotted p k) out
                                | _ \<Rightarrow> bm_insert (dotted p k) v out)"
  by (cases v) auto

lemma flatten_into_entries:
  assumes "ok_keys m" "\<And>s. s \<in> set pre \<Longrightarrow> ok_key s"
  shows "flatten_into m (dot_join pre) out =
           fold (\<lambda>(k, v). bm_insert k v)
             (map (\<lambda>(ss, v). (dot_join (pre @ ss), v)) (flat_entries m)) out"
  using assms
proof (induction m arbitrary: pre out rule: flat_entries.induct)
  case 1
  then show ?case by simp
next
  case (2 k v m)
  have d: "dotted (dot_join pre) k = dot_join (pre @ [k])"
    using "2.prems"(2) by (rule dotted_join)
  have "flatten_into n (dot_join (pre @ [k])) out =
      fold (\<lambda>(k, v). bm_insert k v)
        (map (\<lambda>(ss, v). (dot_join ((pre @ [k]) @ ss), v)) (flat_entries n)) out"
    if "v = JObj n" for n
    using "2.prems" that by (intro "2.IH"(1)) auto
  then show ?case
    using 2 d by (cases v) (auto simp: flatten_into_Cons comp_def case_prod_unfold)
qed

lemma flat_entries_hd: "(ss, v) \<in> set (flat_entries m) \<Longrightarrow> ss \<noteq> [] \<and> hd ss \<in> fst ` set m"
  by (induction m arbitrary: ss rule: flat_entries.induct) (auto split: json.splits)

lemma flat_entries_ok: "ok_keys m \<Longrightarrow> (ss, v) \<in> set (flat_entries m) \<Longrightarrow> \<forall>s \<in> set ss. ok_key s"
  by (induction m arbitrary: ss rule: flat_entries.induct) (auto split: json.splits)

lemma flat_entries_distinct:
  "wf_map m \<Longrightarrow> distinct (map fst (flat_entries m))"
proof (induction m rule: flat_entries.induct)
  case 1
  show ?case by simp
next
  case (2 k v m)
  have IH: "v = JObj n \<Longrightarrow> distinct (map fst (flat_entries n))" "distinct (map fst (flat_entries m))" for n
    using 2 by (auto simp: wf_map_def)
  have "k \<notin> fst ` set m" using "2.prems" by (auto simp: wf_map_def)
  then have absent: "(k # ss, w) \<notin> set (flat_entries m)" for ss w
    using flat_entries_hd [of "k # ss" w m] by auto
  have "distinct (map ((#) k) (map fst (flat_entries n)))" if "v = JObj n" for n
    using IH(1) [OF that] by (simp only: distinct_map) (simp add: inj_on_def)
  then show ?case
    using IH(2) absent by (cases v) (auto simp: comp_def case_prod_unfold)
qed

lemma value_at_Cons:
  "value_at ((k, v) # m) (k' # ks) =
     (if k = k' then (case v of JObj n \<Rightarrow> value_at n ks | _ \<Rightarrow> if ks = [] then Some v else None)
      else value_at m (k' # ks))"
  by (cases ks; cases v) auto

lemma map_of_map_Cons:
  "map_of (map (\<lambda>(ss, v). (k # ss, v)) xs) ks =
     (case ks of [] \<Rightarrow> None | k' # ks' \<Rightarrow> if k' = k then map_of xs ks' else None)"
  by (induction xs) (auto split: list.splits)

lemma value_at_absent: "map_of m k = None \<Longrightarrow> value_at m (k # ks) = None"
  by (cases ks) auto

lemma value_at_Nil_map [simp]: "value_at [] ss = None"
  by (cases "([] :: json_map, ss)" rule: value_at.cases) auto

lemma flat_entries_value_at: "wf_map m \<Longrightarrow> map_of (flat_entries m) ss = value_at m ss"
proof (induction m arbitrary: ss rule: flat_entries.induct)
  case 1
  show ?case by simp
next
  case (2 k v m)
  have IH: "v = JObj n \<Longrightarrow> map_of (flat_entries n) ss' = value_at n ss'"
      "map_of (flat_entries m) ss' = value_at m ss'" for n ss'
    using 2 by (auto simp: wf_map_def)
  have "value_at m (k # ks) = None" for ks
    using "2.prems" by (intro value_at_absent) (auto simp: wf_map_def map_of_eq_None_iff)
  then show ?case
    using IH
    by (cases ss; cases v) (auto simp: map_add_def map_of_map_Cons value_at_Cons split: option.splits)
qed

lemma map_of_map_inj:
  "inj_on g (insert k (fst ` set xs)) \<Longrightarrow> map_of (map (\<lambda>(k, v). (g k, v)) xs) (g k) = map_of xs k"
proof (induction xs)
  case Nil
  show ?case by simp
next
  case (Cons x xs)
  have "inj_on g (insert k (fst ` set xs))"
    using Cons.prems by (rule inj_on_subset) auto
  moreover have "g (fst x) = g k \<longleftrightarrow> fst x = k"
    using Cons.prems by (auto simp: inj_on_def)
  ultimately show ?case
    using Cons.IH by (auto simp: case_prod_unfold)
qed

text \<open>What the flattened document holds at the path of a segment list.\<close>

lemma flatten_lookup:
  assumes m: "wf_map m" "ok_keys m" and ss: "\<And>s. s \<in> set ss \<Longrightarrow> ok_key s"
  shows "map_of (flatten_to_paths (JObj m)) (dot_join ss) = value_at m ss"
proof -
  let ?es = "map (\<lambda>(ss, v). (dot_join ss, v)) (flat_entries m)"
  have inj: "inj_on dot_join (insert ss (fst ` set (flat_entries m)))"
    using flat_entries_ok [OF m(2)] ss by (intro inj_onI) (auto intro!: dot_join_inj)
  then have "distinct (map dot_join (map fst (flat_entries m)))"
    using flat_entries_distinct [OF m(1)] by (simp only: distinct_map inj_on_insert) simp
  then have "distinct (map fst ?es)"
    by (simp add: comp_def case_prod_unfold)
  moreover have "flatten_to_paths (JObj m) = fold (\<lambda>(k, v). bm_insert k v) ?es []"
    using flatten_into_entries [OF m(2), of "[]"] by (simp add: flatten_to_paths_def)
  ultimately have "map_of (flatten_to_paths (JObj m)) (dot_join ss) = map_of ?es (dot_join ss)"
    using bm.lookup_ins_all_distinct [of "[]" ?es] by simp
  also have "\<dots> = value_at m ss"
    using map_of_map_inj [OF inj] flat_entries_value_at [OF m(1)] by simp
  finally show ?thesis .
qed

lemma flatten_to_paths_wf: "ok_keys m \<Longrightarrow> bm_wf (flatten_to_paths (JObj m))"
  using flatten_into_entries [of m "[]" "[]"] bm.invar_ins_all [of "[]"]
  by (simp add: flatten_to_paths_def)

lemma flatten_keys:
  assumes "ok_keys m" "map_of (flatten_to_paths (JObj m)) p = Some v"
  shows "\<exists>ss. p = dot_join ss \<and> (\<forall>s \<in> set ss. ok_key s)"
proof -
  let ?es = "map (\<lambda>(ss, v). (dot_join ss, v)) (flat_entries m)"
  have "flatten_to_paths (JObj m) = fold (\<lambda>(k, v). bm_insert k v) ?es []"
    using flatten_into_entries [OF assms(1), of "[]"] by (simp add: flatten_to_paths_def)
  then have "map_of (rev ?es) p = Some v"
    using assms(2) bm.lookup_ins_all [of "[]" ?es] by simp
  then have "(p, v) \<in> set ?es" by (auto dest: map_of_SomeD)
  then show ?thesis using flat_entries_ok [OF assms(1)] by auto
qed

section \<open>Rebuilding\<close>

text \<open>The member a field contributes to the rebuilt object.\<close>

definition unflat_member :: "string \<Rightarrow> json_map \<Rightarrow> field_manifest \<Rightarrow> json option" where
  "unflat_member prefix flat f =
     (if is_section f
      then Some (JObj (unflatten_fields (section_fields f) (dotted prefix (fm_key f)) flat))
      else map_of flat (dotted prefix (fm_key f)))"

definition put_member :: "(field_manifest \<Rightarrow> json option) \<Rightarrow> field_manifest \<Rightarrow> json_map \<Rightarrow> json_map" where
  "put_member g f out = (case g f of Some v \<Rightarrow> bm_insert (fm_key f) v out | None \<Rightarrow> out)"

lemma unflatten_fields_fold:
  "unflatten_fields fs prefix flat = fold (put_member (unflat_member prefix flat)) fs []"
proof -
  have "put_member (unflat_member prefix flat) f out =
      (let path = dotted prefix (fm_key f)
       in case fm_kind f of
            KSection nested \<Rightarrow> bm_insert (fm_key f) (JObj (unflatten_fields nested path flat)) out
          | _ \<Rightarrow> (case map_of flat path of Some v \<Rightarrow> bm_insert (fm_key f) v out | None \<Rightarrow> out))"
    for f out
    by (auto simp: put_member_def unflat_member_def is_section_def section_fields_def Let_def
        split: field_kind.splits option.splits)
  then show ?thesis by (subst unflatten_fields.simps) presburger
qed

lemma put_member_wf: "bm_wf out \<Longrightarrow> bm_wf (fold (put_member g) fs out)"
  by (induction fs arbitrary: out) (auto simp: put_member_def bm_insert_wf split: option.splits)

lemma put_member_other:
  "k \<notin> fm_key ` set fs \<Longrightarrow> map_of (fold (put_member g) fs out) k = map_of out k"
  by (induction fs arbitrary: out) (auto simp: put_member_def split: option.splits)

lemma put_member_lookup:
  "distinct (map fm_key fs) \<Longrightarrow> f \<in> set fs \<Longrightarrow> map_of out (fm_key f) = None \<Longrightarrow>
   map_of (fold (put_member g) fs out) (fm_key f) = g f"
proof (induction fs arbitrary: out)
  case Nil
  then show ?case by simp
next
  case (Cons a fs)
  show ?case
  proof (cases "f = a")
    case True
    then have "fm_key f \<notin> fm_key ` set fs" using Cons.prems by auto
    then show ?thesis
      using True Cons.prems by (simp add: put_member_other) (simp add: put_member_def split: option.splits)
  next
    case False
    then have "fm_key f \<noteq> fm_key a" using Cons.prems by (auto dest: sym)
    then have "map_of (put_member g a out) (fm_key f) = None"
      using Cons.prems by (auto simp: put_member_def split: option.splits)
    then show ?thesis using Cons False by simp
  qed
qed

lemma unflatten_wf: "bm_wf (unflatten_fields fs prefix flat)"
  by (simp add: unflatten_fields_fold put_member_wf)

lemma unflatten_lookup:
  assumes "wf_fields fs"
  shows "map_of (unflatten_fields fs prefix flat) k =
           Option.bind (find (\<lambda>f. fm_key f = k) fs) (unflat_member prefix flat)"
proof (cases "find (\<lambda>f. fm_key f = k) fs")
  case None
  then have "k \<notin> fm_key ` set fs" by (auto simp: find_None_iff)
  then show ?thesis using None by (simp add: unflatten_fields_fold put_member_other)
next
  case (Some f)
  then have "f \<in> set fs" "fm_key f = k" by (auto dest: find_SomeD)
  then show ?thesis
    using Some assms put_member_lookup [of fs f "[]" "unflat_member prefix flat"]
    by (auto simp: unflatten_fields_fold wf_fields_def)
qed

text \<open>A document of the manifest's shape: no unknown keys, an object for every section, no object
  for a leaf.\<close>

function doc_fits :: "field_manifest list \<Rightarrow> json_map \<Rightarrow> bool" where
  "doc_fits fs m \<longleftrightarrow>
     fst ` set m \<subseteq> fm_key ` set fs \<and>
     (\<forall>f \<in> set fs.
        if is_section f
        then (case map_of m (fm_key f) of Some (JObj n) \<Rightarrow> doc_fits (section_fields f) n | _ \<Rightarrow> False)
        else (case map_of m (fm_key f) of Some v \<Rightarrow> \<not> is_object v | None \<Rightarrow> True))"
  by pat_completeness auto
termination
proof (relation "measure (\<lambda>(fs, _). size_list size fs)", goal_cases)
  case 1
  show ?case by simp
next
  case (2 fs m f v n)
  have "size_list size (section_fields f) < size f"
    using 2(2) by (cases f) (auto simp: is_section_def section_fields_def split: field_kind.splits)
  also have "size f \<le> size_list size fs" using 2(1) by (induction fs) auto
  finally show ?case by simp
qed

declare doc_fits.simps [simp del]

lemma wf_fields_section: "wf_fields fs \<Longrightarrow> f \<in> set fs \<Longrightarrow> wf_fields (section_fields f)"
  by (auto simp: wf_fields_def wf_field.simps [of f])

lemma wf_fields_ok_key: "wf_fields fs \<Longrightarrow> f \<in> set fs \<Longrightarrow> ok_key (fm_key f)"
  by (auto simp: wf_fields_def wf_field.simps [of f])

lemma ok_keys_iff:
  "ok_keys m \<longleftrightarrow> (\<forall>(k, v) \<in> set m. ok_key k \<and> (case v of JObj n \<Rightarrow> ok_keys n | _ \<Rightarrow> True))"
  by (induction m rule: list.induct) auto

lemma doc_fits_member:
  "doc_fits fs m \<Longrightarrow> f \<in> set fs \<Longrightarrow>
   (if is_section f
    then (case map_of m (fm_key f) of Some (JObj n) \<Rightarrow> doc_fits (section_fields f) n | _ \<Rightarrow> False)
    else (case map_of m (fm_key f) of Some v \<Rightarrow> \<not> is_object v | None \<Rightarrow> True))"
  using iffD1 [OF doc_fits.simps [of fs m]] by blast

lemma doc_fits_section:
  "doc_fits fs m \<Longrightarrow> f \<in> set fs \<Longrightarrow> is_section f \<Longrightarrow>
   \<exists>n. map_of m (fm_key f) = Some (JObj n) \<and> doc_fits (section_fields f) n"
  using doc_fits_member [of fs m f] by (simp split: option.split_asm json.split_asm)

lemma doc_fits_leaf:
  "doc_fits fs m \<Longrightarrow> f \<in> set fs \<Longrightarrow> \<not> is_section f \<Longrightarrow> map_of m (fm_key f) = Some v \<Longrightarrow> \<not> is_object v"
  using doc_fits_member [of fs m f] by simp

lemma doc_fits_keys: "doc_fits fs m \<Longrightarrow> map_of m k = Some v \<Longrightarrow> \<exists>f \<in> set fs. fm_key f = k"
proof -
  assume d: "doc_fits fs m" and "map_of m k = Some v"
  then have "k \<in> fst ` set m" by (metis domI dom_map_of_conv_image_fst)
  moreover have "fst ` set m \<subseteq> fm_key ` set fs"
    by (rule conjunct1 [OF iffD1 [OF doc_fits.simps [of fs m] d]])
  ultimately have "k \<in> fm_key ` set fs" by (rule subsetD [rotated])
  then show ?thesis by auto
qed

lemma doc_fits_ok_keys: "wf_fields fs \<Longrightarrow> wf_map m \<Longrightarrow> doc_fits fs m \<Longrightarrow> ok_keys m"
proof (induction fs m rule: doc_fits.induct)
  case (1 fs m)
  have "ok_key k \<and> (case v of JObj n \<Rightarrow> ok_keys n | _ \<Rightarrow> True)" if kv: "(k, v) \<in> set m" for k v
  proof -
    have look: "map_of m k = Some v"
      using kv "1.prems"(2) by (simp add: wf_map_bm_wf bm_wf_distinct)
    then obtain f where f: "f \<in> set fs" "fm_key f = k"
      using doc_fits_keys "1.prems"(3) by blast
    have "ok_keys n" if v: "v = JObj n" for n
    proof -
      have sec: "is_section f"
        using doc_fits_leaf [OF "1.prems"(3) f(1)] look v f(2) by fastforce
      then have "doc_fits (section_fields f) n"
        using doc_fits_section [OF "1.prems"(3) f(1)] look v f(2) by auto
      moreover have "wf_map n"
        using wf_map_lookup [OF "1.prems"(2) look] v by (simp add: wf_map_def)
      ultimately show ?thesis
        using "1.IH" [OF f(1) sec, of v n] look v f wf_fields_section [OF "1.prems"(1)] by auto
    qed
    then show ?thesis
      using f wf_fields_ok_key [OF "1.prems"(1)] by (auto split: json.splits)
  qed
  then show ?case by (auto simp: ok_keys_iff)
qed

text \<open>
  Rebuilding from a flat map that agrees with a document of the manifest's shape gives that
  document.
\<close>

lemma unflatten_agrees:
  assumes "wf_fields fs" "wf_map m" "doc_fits fs m" "\<forall>s \<in> set pre. ok_key s"
    and "\<And>ss. ss \<noteq> [] \<Longrightarrow> \<forall>s \<in> set ss. ok_key s \<Longrightarrow> map_of flat (dot_join (pre @ ss)) = value_at m ss"
  shows "unflatten_fields fs (dot_join pre) flat = m"
  using assms
proof (induction fs m arbitrary: pre rule: doc_fits.induct)
  case (1 fs m)
  note agree = "1.prems"(5)
  have member: "unflat_member (dot_join pre) flat f = map_of m (fm_key f)" if f: "f \<in> set fs" for f
  proof -
    have ok: "ok_key (fm_key f)" by (rule wf_fields_ok_key [OF "1.prems"(1) f])
    have path: "dotted (dot_join pre) (fm_key f) = dot_join (pre @ [fm_key f])"
      using "1.prems"(4) by (intro dotted_join) auto
    show ?thesis
    proof (cases "is_section f")
      case True
      then obtain n where n: "map_of m (fm_key f) = Some (JObj n)" "doc_fits (section_fields f) n"
        using doc_fits_section [OF "1.prems"(3) f] by blast
      have "wf_map n"
        using wf_map_lookup [OF "1.prems"(2) n(1)] by (simp add: wf_map_def)
      moreover have "map_of flat (dot_join ((pre @ [fm_key f]) @ ss)) = value_at n ss"
        if "ss \<noteq> []" "\<forall>s \<in> set ss. ok_key s" for ss
        using agree [of "fm_key f # ss"] that ok n(1) by (cases ss) auto
      ultimately have "unflatten_fields (section_fields f) (dot_join (pre @ [fm_key f])) flat = n"
        using "1.IH" [OF f True n(1) refl, of "pre @ [fm_key f]"]
          wf_fields_section [OF "1.prems"(1) f] n(2) ok "1.prems"(4) by auto
      then show ?thesis using True n(1) path by (simp add: unflat_member_def)
    next
      case False
      then show ?thesis
        using agree [of "[fm_key f]"] ok path doc_fits_leaf [OF "1.prems"(3) f False]
        by (auto simp: unflat_member_def split: option.splits)
    qed
  qed
  show ?case
  proof (rule bm_ext)
    show "map_of (unflatten_fields fs (dot_join pre) flat) = map_of m"
    proof
      fix k
      show "map_of (unflatten_fields fs (dot_join pre) flat) k = map_of m k"
      proof (cases "find (\<lambda>f. fm_key f = k) fs")
        case None
        then have "\<not> (\<exists>f \<in> set fs. fm_key f = k)" by (auto simp: find_None_iff)
        then have "map_of m k = None"
          using doc_fits_keys [OF "1.prems"(3), of k] by (cases "map_of m k") auto
        then show ?thesis using None by (simp add: unflatten_lookup "1.prems"(1))
      next
        case (Some f)
        then have "f \<in> set fs" "fm_key f = k" by (auto dest: find_SomeD)
        then show ?thesis using Some member by (simp add: unflatten_lookup "1.prems"(1))
      qed
    qed
  qed (simp_all add: unflatten_wf wf_map_bm_wf "1.prems"(2))
qed

lemma flatten_unflatten:
  "wf_manifest cm \<Longrightarrow> wf_map m \<Longrightarrow> doc_fits (cm_fields cm) m \<Longrightarrow>
   unflatten_from_paths cm (flatten_to_paths (JObj m)) = JObj m"
  using unflatten_agrees [of "cm_fields cm" m "[]" "flatten_to_paths (JObj m)"]
  by (auto simp: unflatten_from_paths_def flatten_lookup doc_fits_ok_keys)

section \<open>Flattening what was rebuilt\<close>

definition segs_of :: "field_manifest list \<Rightarrow> string list set" where
  "segs_of fs = fst ` set (concat (map leaf_segs fs))"

lemma segs_of_Cons_iff:
  assumes "wf_fields fs" "f \<in> set fs" "fm_key f = k"
  shows "k # ks \<in> segs_of fs \<longleftrightarrow> (if is_section f then ks \<in> segs_of (section_fields f) else ks = [])"
proof -
  have "k # ks \<in> segs_of fs \<longleftrightarrow> k # ks \<in> fst ` set (leaf_segs f)"
  proof
    assume "k # ks \<in> segs_of fs"
    then obtain g l where g: "g \<in> set fs" "(k # ks, l) \<in> set (leaf_segs g)"
      by (auto simp: segs_of_def)
    then have "g = f"
      using leaf_segs_hd [OF g(2)] assms by (auto simp: wf_fields_def distinct_map inj_on_def)
    then show "k # ks \<in> fst ` set (leaf_segs f)" using g(2) by force
  qed (use assms in \<open>auto simp: segs_of_def\<close>)
  then show ?thesis using assms(3) by (force simp: leaf_segs.simps [of f] segs_of_def)
qed

lemma segs_of_field: "k # ks \<in> segs_of fs \<Longrightarrow> \<exists>f \<in> set fs. fm_key f = k"
  using leaf_segs_hd by (fastforce simp: segs_of_def)

lemma Nil_not_segs_of: "[] \<notin> segs_of fs"
proof
  assume "[] \<in> segs_of fs"
  then obtain f l where "([], l) \<in> set (leaf_segs f)" by (auto simp: segs_of_def)
  then show False by (cases "is_section f") (auto simp: leaf_segs.simps [of f])
qed

lemma section_size_less: "f \<in> set fs \<Longrightarrow> size_list size (section_fields f) < size_list size fs"
proof -
  assume f: "f \<in> set fs"
  have "size_list size (section_fields f) < size f"
    by (cases f) (auto simp: section_fields_def split: field_kind.splits)
  also have "size f \<le> size_list size fs" using f by (induction fs) auto
  finally show ?thesis .
qed

lemma value_at_unflatten:
  assumes "wf_fields fs" "\<forall>s \<in> set pre. ok_key s" "\<forall>v \<in> snd ` set flat. \<not> is_object v"
  shows "value_at (unflatten_fields fs (dot_join pre) flat) ss =
           (if ss \<in> segs_of fs then map_of flat (dot_join (pre @ ss)) else None)"
  using assms
proof (induction "size_list size fs" arbitrary: fs pre ss rule: less_induct)
  case less
  show ?case
  proof (cases ss)
    case Nil
    then show ?thesis by (simp add: Nil_not_segs_of)
  next
    case (Cons k ks)
    show ?thesis
    proof (cases "find (\<lambda>f. fm_key f = k) fs")
      case None
      then have "map_of (unflatten_fields fs (dot_join pre) flat) k = None"
        by (simp add: unflatten_lookup less.prems(1))
      moreover have "k # ks \<notin> segs_of fs"
        using None segs_of_field by (fastforce simp: find_None_iff)
      ultimately show ?thesis by (simp add: Cons value_at_absent)
    next
      case (Some f)
      then have f: "f \<in> set fs" "fm_key f = k" by (auto dest: find_SomeD)
      have ok: "ok_key k" using wf_fields_ok_key [OF less.prems(1) f(1)] f(2) by simp
      have path: "dotted (dot_join pre) k = dot_join (pre @ [k])"
        using less.prems(2) by (intro dotted_join) auto
      have look: "map_of (unflatten_fields fs (dot_join pre) flat) k = unflat_member (dot_join pre) flat f"
        using Some by (simp add: unflatten_lookup less.prems(1))
      show ?thesis
      proof (cases "is_section f")
        case True
        have "value_at (unflatten_fields (section_fields f) (dot_join (pre @ [k])) flat) ks =
            (if ks \<in> segs_of (section_fields f) then map_of flat (dot_join ((pre @ [k]) @ ks)) else None)"
          using less.prems ok wf_fields_section [OF less.prems(1) f(1)]
          by (intro less.hyps section_size_less f) auto
        moreover have "value_at (unflatten_fields fs (dot_join pre) flat) (k # ks) =
            value_at (unflatten_fields (section_fields f) (dot_join (pre @ [k])) flat) ks"
          using look True path f(2) by (cases ks) (auto simp: unflat_member_def)
        ultimately show ?thesis
          using True segs_of_Cons_iff [OF less.prems(1) f] by (simp add: Cons)
      next
        case False
        have "\<not> is_object v" if "map_of flat (dot_join (pre @ [k])) = Some v" for v
          using that less.prems(3) by (auto dest!: map_of_SomeD)
        then have "value_at (unflatten_fields fs (dot_join pre) flat) (k # ks) =
            (if ks = [] then map_of flat (dot_join (pre @ [k])) else None)"
          using look False path f(2)
          by (cases ks) (auto simp: unflat_member_def is_object_iff split: option.splits json.splits)
        then show ?thesis
          using False segs_of_Cons_iff [OF less.prems(1) f] by (simp add: Cons)
      qed
    qed
  qed
qed

lemma unflatten_ok:
  assumes "wf_fields fs" "\<forall>v \<in> snd ` set flat. wf_json v \<and> \<not> is_object v"
  shows "wf_map (unflatten_fields fs pre flat) \<and> ok_keys (unflatten_fields fs pre flat)"
  using assms(1)
proof (induction "size_list size fs" arbitrary: fs pre rule: less_induct)
  case less
  have "wf_json v \<and> ok_key k \<and> (case v of JObj n \<Rightarrow> ok_keys n | _ \<Rightarrow> True)"
    if kv: "(k, v) \<in> set (unflatten_fields fs pre flat)" for k v
  proof -
    have "map_of (unflatten_fields fs pre flat) k = Some v"
      using kv by (simp add: unflatten_wf bm_wf_distinct)
    then obtain f where fnd: "find (\<lambda>f. fm_key f = k) fs = Some f" "unflat_member pre flat f = Some v"
      by (auto simp: unflatten_lookup less.prems bind_eq_Some_conv)
    then have f: "f \<in> set fs" "fm_key f = k" "unflat_member pre flat f = Some v"
      by (auto dest: find_SomeD)
    have "ok_key k" using wf_fields_ok_key [OF less.prems f(1)] f(2) by simp
    moreover have "wf_json v \<and> (case v of JObj n \<Rightarrow> ok_keys n | _ \<Rightarrow> True)"
    proof (cases "is_section f")
      case True
      have "wf_map (unflatten_fields (section_fields f) (dotted pre k) flat) \<and>
          ok_keys (unflatten_fields (section_fields f) (dotted pre k) flat)"
        by (intro less.hyps section_size_less f wf_fields_section [OF less.prems])
      then show ?thesis using True f(2,3) by (auto simp: unflat_member_def wf_map_def)
    next
      case False
      then have "v \<in> snd ` set flat"
        using f(3) by (force simp: unflat_member_def dest: map_of_SomeD)
      then have "wf_json v \<and> \<not> is_object v" by (rule bspec [OF assms(2)])
      then show ?thesis by (auto simp: is_object_iff split: json.split)
    qed
    ultimately show ?thesis by blast
  qed
  then show ?case by (auto simp: wf_map_def unflatten_wf ok_keys_iff)
qed

lemma unflatten_flatten:
  assumes cm: "wf_manifest cm" and flat: "bm_wf flat"
    and vals: "\<forall>v \<in> snd ` set flat. wf_json v \<and> \<not> is_object v"
  shows "flatten_to_paths (unflatten_from_paths cm flat) =
           filter (\<lambda>e. fst e \<in> lf_path ` set (iter_leaves cm)) flat"
proof (rule bm_ext)
  let ?m = "unflatten_fields (cm_fields cm) [] flat"
  have m: "wf_map ?m" "ok_keys ?m" using unflatten_ok [OF cm vals] by blast+
  have va: "value_at ?m ss = (if ss \<in> segs_of (cm_fields cm) then map_of flat (dot_join ss) else None)" for ss
    using value_at_unflatten [OF cm, of "[]"] vals by simp
  have paths: "lf_path ` set (iter_leaves cm) = dot_join ` segs_of (cm_fields cm)"
    using cm by (force simp: iter_leaves_segs manifest_segs_def segs_of_def)
  have ok: "\<forall>s \<in> set ss. ok_key s" if "ss \<in> segs_of (cm_fields cm)" for ss
    using that manifest_segs_ok [OF cm] by (fastforce simp: segs_of_def manifest_segs_def)
  show "map_of (flatten_to_paths (unflatten_from_paths cm flat)) =
      map_of (filter (\<lambda>e. fst e \<in> lf_path ` set (iter_leaves cm)) flat)"
  proof
    fix p
    have lookup: "map_of (flatten_to_paths (JObj ?m)) (dot_join ss) = value_at ?m ss" if "\<forall>s \<in> set ss. ok_key s" for ss
      using that m by (intro flatten_lookup) auto
    have "map_of (flatten_to_paths (JObj ?m)) p =
        (if p \<in> dot_join ` segs_of (cm_fields cm) then map_of flat p else None)"
    proof (cases "\<exists>ss. p = dot_join ss \<and> (\<forall>s \<in> set ss. ok_key s)")
      case True
      then obtain ss where ss: "p = dot_join ss" "\<forall>s \<in> set ss. ok_key s" by blast
      have "ss = ts" if "ts \<in> segs_of (cm_fields cm)" "dot_join ss = dot_join ts" for ts
        using ok [OF that(1)] ss(2) by (intro dot_join_inj [OF _ _ that(2)]) simp_all
      then have "p \<in> dot_join ` segs_of (cm_fields cm) \<longleftrightarrow> ss \<in> segs_of (cm_fields cm)"
        using ss(1) by (auto simp: image_iff)
      then show ?thesis using lookup ss va by simp
    next
      case False
      then have "p \<notin> dot_join ` segs_of (cm_fields cm)" using ok by blast
      moreover have "map_of (flatten_to_paths (JObj ?m)) p = None"
        using False flatten_keys [OF m(2), of p] by (cases "map_of (flatten_to_paths (JObj ?m)) p") blast+
      ultimately show ?thesis by simp
    qed
    then show "map_of (flatten_to_paths (unflatten_from_paths cm flat)) p =
        map_of (filter (\<lambda>e. fst e \<in> lf_path ` set (iter_leaves cm)) flat) p"
      using map_of_filter_key [of "\<lambda>k. k \<in> dot_join ` segs_of (cm_fields cm)" flat p]
      by (simp add: unflatten_from_paths_def paths)
  qed
  show "bm_wf (flatten_to_paths (unflatten_from_paths cm flat))"
    using m(2) by (simp add: unflatten_from_paths_def flatten_to_paths_wf)
  show "bm_wf (filter (\<lambda>e. fst e \<in> lf_path ` set (iter_leaves cm)) flat)"
    using flat by (induction flat) auto
qed

section \<open>Properties\<close>

definition sample_doc :: json_map where
  "sample_doc = [(''home'', JStr ''h''), (''net'', JObj [(''port'', JNum (PosInt 8)), (''url'', JStr ''u'')])]"

text \<open>
  C4. Flattening a document of the manifest's shape into dotted paths and rebuilding it from the
  manifest returns the document.
\<close>

theorem flatten_roundtrip:
  assumes "wf_manifest cm" "wf_json (JObj m)" "doc_fits (cm_fields cm) m"
  shows "unflatten_from_paths cm (flatten_to_paths (JObj m)) = JObj m"
  using assms by (intro flatten_unflatten) (simp_all add: wf_map_def)

theorem flatten_roundtrip_witness:
  "unflatten_from_paths sample_manifest (flatten_to_paths (JObj sample_doc)) = JObj sample_doc"
proof (rule flatten_roundtrip)
  show "wf_manifest sample_manifest" by (rule sample_manifest_wf)
  show "wf_json (JObj sample_doc)" by code_simp
  show "doc_fits (cm_fields sample_manifest) sample_doc" by code_simp
qed

text \<open>
  Rebuilding a document from a flat map of leaf values and flattening it again keeps exactly the
  entries whose path is a leaf of the manifest, with their values.
\<close>

theorem unflatten_roundtrip:
  assumes "wf_manifest cm" "bm_wf flat" "\<forall>v \<in> snd ` set flat. wf_json v \<and> \<not> is_object v"
  shows "flatten_to_paths (unflatten_from_paths cm flat) =
           filter (\<lambda>e. fst e \<in> lf_path ` set (iter_leaves cm)) flat"
  using assms by (rule unflatten_flatten)

theorem unflatten_roundtrip_witness:
  "flatten_to_paths (unflatten_from_paths sample_manifest [(''home'', JStr ''h''), (''other'', JNull)]) =
     [(''home'', JStr ''h'')]"
proof -
  have "bm_wf [(''home'', JStr ''h''), (''other'', JNull)]" by code_simp
  then show ?thesis
    using unflatten_roundtrip [OF sample_manifest_wf, of "[(''home'', JStr ''h''), (''other'', JNull)]"]
    by (simp add: sample_leaves)
qed

end
