(* ===== verification/Resolver.thy ===== *)
theory Resolver
  imports Flatten
begin

text \<open>
  The resolver (\<open>config/resolution/resolver.rs\<close>, \<open>provenance.rs\<close>): six layers folded in
  order for each leaf of the manifest, with the enforced tree as a last veto pass, and a warning
  for every server-tree entry that is dropped.

  Layers are linearly ordered by precedence, and the specification is declarative: the layer that
  supplies a field's value is the greatest one offering an acceptable value
  (\<open>layer_value\<close>). Lemmas about one leaf are lifted to \<open>resolve\<close> by
  \<open>resolve_lookup\<close> (what is stored) and \<open>resolve_warnings\<close> (what is reported).
\<close>

section \<open>Layers and provenance\<close>

datatype layer =
  LDefault | LRecommended | LConfigFile | LEnvironment | LFlags | LBuilderOverride | LEnforced

record provenance =
  pv_layer :: layer
  pv_locked :: bool

definition provenance_new :: "layer \<Rightarrow> provenance" where
  "provenance_new l = \<lparr>pv_layer = l, pv_locked = (l = LEnforced)\<rparr>"

record resolution_input =
  ri_recommended :: json_map
  ri_config_file :: json_map
  ri_environment :: json_map
  ri_flags :: json_map
  ri_builder_overrides :: json_map
  ri_enforced :: json_map

datatype warning_reason =
    LocalOnlyInServerTree
  | NotManageableInServerTree
  | SecretInServerTree
  | OrgScopeInRecommended
  | NotEnforceableInEnforced
  | UnknownKey
  | TypeMismatch

record resolution_warning =
  rw_path :: string
  rw_reason :: warning_reason

record resolved =
  rs_values :: "(string, json) btree_map"
  rs_provenance :: "(string, provenance) btree_map"
  rs_warnings :: "resolution_warning list"

record resolved_entry =
  re_path :: string
  re_value :: json
  re_provenance :: provenance

definition resolved_default :: resolved where
  "resolved_default = \<lparr>rs_values = [], rs_provenance = [], rs_warnings = []\<rparr>"

definition resolved_value :: "resolved \<Rightarrow> string \<Rightarrow> json option" where
  "resolved_value r path = map_of (rs_values r) path"

definition resolved_provenance :: "resolved \<Rightarrow> string \<Rightarrow> provenance option" where
  "resolved_provenance r path = map_of (rs_provenance r) path"

definition resolved_paths :: "resolved \<Rightarrow> string list" where
  "resolved_paths r = map fst (rs_values r)"

definition has_warning :: "resolved \<Rightarrow> string \<Rightarrow> warning_reason \<Rightarrow> bool" where
  "has_warning r path reason =
     list_ex (\<lambda>w. rw_path w = path \<and> rw_reason w = reason) (rs_warnings r)"

text \<open>\<open>Resolved::entries\<close>; \<open>None\<close> is the panic of its \<open>expect\<close>.\<close>

definition resolved_entries :: "resolved \<Rightarrow> resolved_entry list option" where
  "resolved_entries r =
     those (map (\<lambda>(path, v).
                   map_option (\<lambda>p. \<lparr>re_path = path, re_value = v, re_provenance = p\<rparr>)
                     (map_of (rs_provenance r) path))
                (rs_values r))"

section \<open>Resolution\<close>

fun is_boolean :: "json \<Rightarrow> bool" where
  "is_boolean (JBool _) = True"
| "is_boolean _ = False"

fun is_string :: "json \<Rightarrow> bool" where
  "is_string (JStr _) = True"
| "is_string _ = False"

fun value_matches_kind :: "json \<Rightarrow> field_kind \<Rightarrow> bool" where
  "value_matches_kind v KBool = is_boolean v"
| "value_matches_kind v KInt = (is_i64 v \<or> is_u64 v)"
| "value_matches_kind v KDuration = (is_i64 v \<or> is_u64 v)"
| "value_matches_kind v KFloat = is_number v"
| "value_matches_kind v KStr = is_string v"
| "value_matches_kind v KPath = is_string v"
| "value_matches_kind v KUrl = is_string v"
| "value_matches_kind v (KEnum values) =
     (case as_str v of Some s \<Rightarrow> s \<in> set values | None \<Rightarrow> False)"
| "value_matches_kind v (KList item) =
     (case as_array v of Some arr \<Rightarrow> (\<forall>e \<in> set arr. value_matches_kind e item) | None \<Rightarrow> False)"
| "value_matches_kind v (KSection _) = is_object v"

fun default_for_kind :: "field_kind \<Rightarrow> json" where
  "default_for_kind KBool = JBool False"
| "default_for_kind KInt = JNum (PosInt 0)"
| "default_for_kind KDuration = JNum (PosInt 0)"
| "default_for_kind KFloat = JNum (FloatNum 0)"
| "default_for_kind KStr = JStr []"
| "default_for_kind KPath = JStr []"
| "default_for_kind KUrl = JStr []"
| "default_for_kind (KEnum values) = (case values of v # _ \<Rightarrow> JStr v | [] \<Rightarrow> JStr [])"
| "default_for_kind (KList _) = JArr []"
| "default_for_kind (KSection _) = JObj []"

definition server_tree_drop_reason_recommended :: "field_manifest \<Rightarrow> json \<Rightarrow> warning_reason option" where
  "server_tree_drop_reason_recommended field raw =
     (if fm_local_only field then Some LocalOnlyInServerTree
      else if \<not> fm_manageable field then Some NotManageableInServerTree
      else if fm_secret field then Some SecretInServerTree
      else if fm_scope field = Org then Some OrgScopeInRecommended
      else if \<not> value_matches_kind raw (fm_kind field) then Some TypeMismatch
      else None)"

definition server_tree_drop_reason_enforced :: "field_manifest \<Rightarrow> json \<Rightarrow> warning_reason option" where
  "server_tree_drop_reason_enforced field raw =
     (if fm_local_only field then Some LocalOnlyInServerTree
      else if \<not> fm_manageable field then Some NotManageableInServerTree
      else if fm_secret field then Some SecretInServerTree
      else if \<not> fm_enforceable field then Some NotEnforceableInEnforced
      else if \<not> value_matches_kind raw (fm_kind field) then Some TypeMismatch
      else None)"

definition push_unknown_key_warnings ::
  "leaf_field list \<Rightarrow> json_map \<Rightarrow> resolution_warning list \<Rightarrow> resolution_warning list" where
  "push_unknown_key_warnings leaves tree warnings =
     fold (\<lambda>key ws. if list_ex (\<lambda>l. lf_path l = key) leaves then ws
                    else ws @ [\<lparr>rw_path = key, rw_reason = UnknownKey\<rparr>])
          (map fst tree) warnings"

text \<open>
  The body of the loop of \<open>resolve\<close>: the running value, its layer and the warnings, threaded
  through the seven passes. A server tree is passed with its drop rule, a local layer without.
\<close>

definition server_pass ::
  "(field_manifest \<Rightarrow> json \<Rightarrow> warning_reason option) \<Rightarrow> json_map \<Rightarrow> layer \<Rightarrow> leaf_field \<Rightarrow>
   json \<times> layer \<times> resolution_warning list \<Rightarrow> json \<times> layer \<times> resolution_warning list" where
  "server_pass drop_reason tree l leaf st =
     (case st of (v, cur, ws) \<Rightarrow>
        (case map_of tree (lf_path leaf) of
           None \<Rightarrow> (v, cur, ws)
         | Some raw \<Rightarrow>
             (case drop_reason (lf_field leaf) raw of
                Some reason \<Rightarrow> (v, cur, ws @ [\<lparr>rw_path = lf_path leaf, rw_reason = reason\<rparr>])
              | None \<Rightarrow> (raw, l, ws))))"

definition local_pass ::
  "json_map \<Rightarrow> layer \<Rightarrow> leaf_field \<Rightarrow>
   json \<times> layer \<times> resolution_warning list \<Rightarrow> json \<times> layer \<times> resolution_warning list" where
  "local_pass tree l leaf st =
     (case st of (v, cur, ws) \<Rightarrow>
        (case map_of tree (lf_path leaf) of None \<Rightarrow> (v, cur, ws) | Some raw \<Rightarrow> (raw, l, ws)))"

definition field_default :: "field_manifest \<Rightarrow> json" where
  "field_default field =
     (case fm_default field of Some v \<Rightarrow> v | None \<Rightarrow> default_for_kind (fm_kind field))"

definition resolve_leaf :: "resolution_input \<Rightarrow> leaf_field \<Rightarrow> resolved \<Rightarrow> resolved" where
  "resolve_leaf input leaf r =
     (let st0 = (field_default (lf_field leaf), LDefault, rs_warnings r);
          st1 = server_pass server_tree_drop_reason_recommended (ri_recommended input) LRecommended leaf st0;
          st2 = local_pass (ri_config_file input) LConfigFile leaf st1;
          st3 = local_pass (ri_environment input) LEnvironment leaf st2;
          st4 = local_pass (ri_flags input) LFlags leaf st3;
          st5 = local_pass (ri_builder_overrides input) LBuilderOverride leaf st4;
          (v, l, ws) = server_pass server_tree_drop_reason_enforced (ri_enforced input) LEnforced leaf st5
      in \<lparr>rs_values = bm_insert (lf_path leaf) v (rs_values r),
          rs_provenance = bm_insert (lf_path leaf) (provenance_new l) (rs_provenance r),
          rs_warnings = ws\<rparr>)"

definition resolve :: "config_manifest \<Rightarrow> resolution_input \<Rightarrow> resolved" where
  "resolve manifest input =
     (let leaves = iter_leaves manifest;
          r = fold (resolve_leaf input) leaves resolved_default;
          ws1 = push_unknown_key_warnings leaves (ri_recommended input) (rs_warnings r);
          ws2 = push_unknown_key_warnings leaves (ri_enforced input) ws1
      in r\<lparr>rs_warnings := ws2\<rparr>)"

section \<open>Precedence\<close>

text \<open>Layers in the order of precedence.\<close>

fun layer_rank :: "layer \<Rightarrow> nat" where
  "layer_rank LDefault = 0"
| "layer_rank LRecommended = 1"
| "layer_rank LConfigFile = 2"
| "layer_rank LEnvironment = 3"
| "layer_rank LFlags = 4"
| "layer_rank LBuilderOverride = 5"
| "layer_rank LEnforced = 6"

lemma layer_rank_inj: "layer_rank a = layer_rank b \<Longrightarrow> a = b"
  by (cases a; cases b) auto

instantiation layer :: linorder
begin

definition less_eq_layer :: "layer \<Rightarrow> layer \<Rightarrow> bool" where
  "a \<le> b \<longleftrightarrow> layer_rank a \<le> layer_rank b"

definition less_layer :: "layer \<Rightarrow> layer \<Rightarrow> bool" where
  "a < b \<longleftrightarrow> layer_rank a < layer_rank b"

instance
  by standard (auto simp: less_eq_layer_def less_layer_def dest: layer_rank_inj)

end

text \<open>What a layer offers for a leaf: its entry, unless a server-tree rule drops it.\<close>

fun layer_value :: "resolution_input \<Rightarrow> leaf_field \<Rightarrow> layer \<Rightarrow> json option" where
  "layer_value i l LDefault = Some (field_default (lf_field l))"
| "layer_value i l LRecommended =
     Option.bind (map_of (ri_recommended i) (lf_path l))
       (\<lambda>v. if server_tree_drop_reason_recommended (lf_field l) v = None then Some v else None)"
| "layer_value i l LConfigFile = map_of (ri_config_file i) (lf_path l)"
| "layer_value i l LEnvironment = map_of (ri_environment i) (lf_path l)"
| "layer_value i l LFlags = map_of (ri_flags i) (lf_path l)"
| "layer_value i l LBuilderOverride = map_of (ri_builder_overrides i) (lf_path l)"
| "layer_value i l LEnforced =
     Option.bind (map_of (ri_enforced i) (lf_path l))
       (\<lambda>v. if server_tree_drop_reason_enforced (lf_field l) v = None then Some v else None)"

text \<open>The warnings one leaf contributes.\<close>

definition leaf_warnings :: "resolution_input \<Rightarrow> leaf_field \<Rightarrow> resolution_warning list" where
  "leaf_warnings i l =
     (case Option.bind (map_of (ri_recommended i) (lf_path l)) (server_tree_drop_reason_recommended (lf_field l)) of
        Some reason \<Rightarrow> [\<lparr>rw_path = lf_path l, rw_reason = reason\<rparr>] | None \<Rightarrow> []) @
     (case Option.bind (map_of (ri_enforced i) (lf_path l)) (server_tree_drop_reason_enforced (lf_field l)) of
        Some reason \<Rightarrow> [\<lparr>rw_path = lf_path l, rw_reason = reason\<rparr>] | None \<Rightarrow> [])"

text \<open>The winner: the greatest layer that offers a value.\<close>

definition effective_layer :: "resolution_input \<Rightarrow> leaf_field \<Rightarrow> layer" where
  "effective_layer i l =
     last (filter (\<lambda>x. layer_value i l x \<noteq> None)
       [LDefault, LRecommended, LConfigFile, LEnvironment, LFlags, LBuilderOverride, LEnforced])"

definition all_layers :: "layer list" where
  "all_layers = [LDefault, LRecommended, LConfigFile, LEnvironment, LFlags, LBuilderOverride, LEnforced]"

lemma all_layers_facts: "sorted all_layers" "x \<in> set all_layers"
  by (simp_all add: all_layers_def less_eq_layer_def) (cases x; simp)

lemma last_filter_greatest:
  assumes "sorted xs" "y \<in> set xs" "P y"
  shows "P (last (filter P xs)) \<and> y \<le> last (filter P xs)"
proof -
  have y: "y \<in> set (filter P xs)" using assms by simp
  then have ne: "filter P xs \<noteq> []" by (metis empty_iff empty_set)
  then have "last (filter P xs) \<in> set (filter P xs)" by (rule last_in_set)
  moreover have "sorted (butlast (filter P xs) @ [last (filter P xs)])"
    using assms(1) ne by (simp add: sorted_wrt_filter)
  then have "y \<le> last (filter P xs)"
    using y ne by (metis append_butlast_last_id in_set_butlastD order_refl rotate1.simps(2) set_ConsD set_rotate1 sorted_append list.set_intros(1))
  ultimately show ?thesis by simp
qed

lemma effective_layer_spec:
  "layer_value i l (effective_layer i l) \<noteq> None"
  "layer_value i l x \<noteq> None \<Longrightarrow> x \<le> effective_layer i l"
  using last_filter_greatest [OF all_layers_facts(1) all_layers_facts(2), of "\<lambda>x. layer_value i l x \<noteq> None"]
    layer_value.simps(1) [of i l]
  unfolding effective_layer_def all_layers_def by blast+

lemma effective_layer_eqI:
  assumes "layer_value i l x \<noteq> None" "\<And>y. layer_value i l y \<noteq> None \<Longrightarrow> y \<le> x"
  shows "effective_layer i l = x"
  by (rule antisym) (use assms effective_layer_spec in auto)

text \<open>One pass moves the winner to its layer exactly when the layer offers a value.\<close>

definition pass_winner :: "resolution_input \<Rightarrow> leaf_field \<Rightarrow> layer \<Rightarrow> layer \<Rightarrow> layer" where
  "pass_winner i l x w = (if layer_value i l x \<noteq> None then x else w)"

definition drop_warning :: "resolution_input \<Rightarrow> leaf_field \<Rightarrow> warning_reason option \<Rightarrow> resolution_warning list" where
  "drop_warning i l r = (case r of Some reason \<Rightarrow> [\<lparr>rw_path = lf_path l, rw_reason = reason\<rparr>] | None \<Rightarrow> [])"

lemma local_pass_winner:
  "layer_value i l x = map_of t (lf_path l) \<Longrightarrow>
   local_pass t x l (the (layer_value i l w), w, ws) =
     (the (layer_value i l (pass_winner i l x w)), pass_winner i l x w, ws)"
  by (auto simp: local_pass_def pass_winner_def split: option.splits)

lemma server_pass_winner:
  "layer_value i l x =
     Option.bind (map_of t (lf_path l)) (\<lambda>v. if dr (lf_field l) v = None then Some v else None) \<Longrightarrow>
   server_pass dr t x l (the (layer_value i l w), w, ws) =
     (the (layer_value i l (pass_winner i l x w)), pass_winner i l x w,
      ws @ drop_warning i l (Option.bind (map_of t (lf_path l)) (dr (lf_field l))))"
  by (auto simp: server_pass_def pass_winner_def drop_warning_def split: option.splits)

lemma last_filter_fold: "last (w # filter P xs) = fold (\<lambda>x w. if P x then x else w) xs w"
  by (induction xs arbitrary: w) auto

lemma effective_layer_fold:
  "effective_layer i l =
     fold (pass_winner i l)
       [LRecommended, LConfigFile, LEnvironment, LFlags, LBuilderOverride, LEnforced] LDefault"
proof -
  have "pass_winner i l = (\<lambda>x w. if layer_value i l x \<noteq> None then x else w)"
    by (simp add: pass_winner_def fun_eq_iff)
  then show ?thesis
    unfolding effective_layer_def by (simp only: last_filter_fold [symmetric]) simp
qed

lemma resolve_leaf_eq:
  "resolve_leaf i l r =
     \<lparr>rs_values = bm_insert (lf_path l) (the (layer_value i l (effective_layer i l))) (rs_values r),
      rs_provenance = bm_insert (lf_path l) (provenance_new (effective_layer i l)) (rs_provenance r),
      rs_warnings = rs_warnings r @ leaf_warnings i l\<rparr>"
proof -
  let ?st = "\<lambda>w ws. (the (layer_value i l w), w, ws)"
  have "(field_default (lf_field l), LDefault, rs_warnings r) = ?st LDefault (rs_warnings r)"
    by simp
  then show ?thesis
    unfolding resolve_leaf_def Let_def effective_layer_fold leaf_warnings_def drop_warning_def [of i, symmetric]
    by (simp only: server_pass_winner [of i l LRecommended "ri_recommended i"]
        server_pass_winner [of i l LEnforced "ri_enforced i"] layer_value.simps(2-7)
        local_pass_winner [of i l LConfigFile] local_pass_winner [of i l LEnvironment]
        local_pass_winner [of i l LFlags] local_pass_winner [of i l LBuilderOverride]
        prod.case fold_simps append_assoc)
qed

section \<open>The whole manifest\<close>

abbreviation effective_value :: "resolution_input \<Rightarrow> leaf_field \<Rightarrow> json" where
  "effective_value i l \<equiv> the (layer_value i l (effective_layer i l))"

lemma resolve_fold:
  "fold (resolve_leaf i) ls r =
     \<lparr>rs_values = fold (\<lambda>(k, v). bm_insert k v) (map (\<lambda>l. (lf_path l, effective_value i l)) ls) (rs_values r),
      rs_provenance = fold (\<lambda>(k, v). bm_insert k v)
        (map (\<lambda>l. (lf_path l, provenance_new (effective_layer i l))) ls) (rs_provenance r),
      rs_warnings = rs_warnings r @ concat (map (leaf_warnings i) ls)\<rparr>"
  by (induction ls arbitrary: r) (simp_all add: resolve_leaf_eq)

lemma resolve_values:
  "rs_values (resolve m i) = bm_of_list (map (\<lambda>l. (lf_path l, effective_value i l)) (iter_leaves m))"
  "rs_provenance (resolve m i) =
     bm_of_list (map (\<lambda>l. (lf_path l, provenance_new (effective_layer i l))) (iter_leaves m))"
  by (simp_all add: resolve_def Let_def resolve_fold resolved_default_def bm_of_list_def)

lemma bm_of_list_keys: "fst ` set (bm_of_list kvs) = fst ` set kvs"
  using arg_cong [OF bm_of_list_lookup [of kvs], of dom]
  by (simp add: dom_map_of_conv_image_fst)

lemma resolve_keys:
  "fst ` set (rs_values (resolve m i)) = lf_path ` set (iter_leaves m)"
  "fst ` set (rs_provenance (resolve m i)) = lf_path ` set (iter_leaves m)"
  by (simp_all add: resolve_values bm_of_list_keys image_image)

lemma resolve_entries_eq:
  "resolved_entries (resolve m i) =
     Some (map (\<lambda>e. \<lparr>re_path = fst e, re_value = snd e,
                     re_provenance = the (map_of (rs_provenance (resolve m i)) (fst e))\<rparr>) (rs_values (resolve m i)))"
proof -
  have "map_of (rs_provenance (resolve m i)) (fst e) \<noteq> None" if "e \<in> set (rs_values (resolve m i))" for e
    using that resolve_keys [of m i] by (simp add: map_of_eq_None_iff) (metis image_eqI)
  then show ?thesis
    unfolding resolved_entries_def by (intro those_map_total) (auto simp: case_prod_unfold)
qed

lemma resolve_lookup:
  assumes "distinct (map lf_path (iter_leaves m))" "l \<in> set (iter_leaves m)"
  shows "resolved_value (resolve m i) (lf_path l) = Some (effective_value i l)"
    and "resolved_provenance (resolve m i) (lf_path l) = Some (provenance_new (effective_layer i l))"
proof -
  have "map_of (rev (map (\<lambda>l. (lf_path l, g l)) (iter_leaves m))) (lf_path l) = Some (g l)" for g :: "leaf_field \<Rightarrow> json"
    using assms by (subst map_of_rev) (auto simp: comp_def map_of_eq_Some_iff)
  moreover have "map_of (rev (map (\<lambda>l. (lf_path l, g l)) (iter_leaves m))) (lf_path l) = Some (g l)" for g :: "leaf_field \<Rightarrow> provenance"
    using assms by (subst map_of_rev) (auto simp: comp_def map_of_eq_Some_iff)
  ultimately show "resolved_value (resolve m i) (lf_path l) = Some (effective_value i l)"
      "resolved_provenance (resolve m i) (lf_path l) = Some (provenance_new (effective_layer i l))"
    by (simp_all add: resolved_value_def resolved_provenance_def resolve_values bm_of_list_lookup)
qed

lemma push_unknown_eq:
  "push_unknown_key_warnings ls t ws =
     ws @ map (\<lambda>k. \<lparr>rw_path = k, rw_reason = UnknownKey\<rparr>)
            (filter (\<lambda>k. k \<notin> lf_path ` set ls) (map fst t))"
proof -
  have "fold (\<lambda>key ws. if list_ex (\<lambda>l. lf_path l = key) ls then ws
                    else ws @ [\<lparr>rw_path = key, rw_reason = UnknownKey\<rparr>]) ks ws =
      ws @ map (\<lambda>k. \<lparr>rw_path = k, rw_reason = UnknownKey\<rparr>) (filter (\<lambda>k. k \<notin> lf_path ` set ls) ks)" for ks
    by (induction ks arbitrary: ws) (auto simp: list_ex_iff)
  then show ?thesis by (simp add: push_unknown_key_warnings_def)
qed

lemma resolve_warnings:
  "rs_warnings (resolve m i) =
     concat (map (leaf_warnings i) (iter_leaves m)) @
     map (\<lambda>k. \<lparr>rw_path = k, rw_reason = UnknownKey\<rparr>)
       (filter (\<lambda>k. k \<notin> lf_path ` set (iter_leaves m)) (map fst (ri_recommended i) @ map fst (ri_enforced i)))"
  by (simp add: resolve_def Let_def resolve_fold resolved_default_def push_unknown_eq)

lemma leaf_warnings_iff:
  "\<lparr>rw_path = p, rw_reason = w\<rparr> \<in> set (leaf_warnings i l) \<longleftrightarrow>
     p = lf_path l \<and>
     ((\<exists>v. map_of (ri_recommended i) p = Some v \<and> server_tree_drop_reason_recommended (lf_field l) v = Some w) \<or>
      (\<exists>v. map_of (ri_enforced i) p = Some v \<and> server_tree_drop_reason_enforced (lf_field l) v = Some w))"
  by (auto simp: leaf_warnings_def bind_eq_Some_conv split: option.splits)

lemma drop_reason_not_unknown:
  "server_tree_drop_reason_recommended f v \<noteq> Some UnknownKey"
  "server_tree_drop_reason_enforced f v \<noteq> Some UnknownKey"
  by (simp_all add: server_tree_drop_reason_recommended_def server_tree_drop_reason_enforced_def)

section \<open>Properties\<close>

text \<open>
  Every leaf of a manifest with distinct leaf paths gets a value and a provenance, no other
  path does, the paths are listed in key order and \<open>entries\<close> never panics.
\<close>

theorem resolve_total:
  "set (resolved_paths (resolve m i)) = lf_path ` set (iter_leaves m) \<and>
   sorted_wrt (<) (resolved_paths (resolve m i)) \<and>
   (\<forall>p. (resolved_value (resolve m i) p \<noteq> None \<longleftrightarrow> p \<in> lf_path ` set (iter_leaves m)) \<and>
        (resolved_provenance (resolve m i) p \<noteq> None \<longleftrightarrow> p \<in> lf_path ` set (iter_leaves m))) \<and>
   (\<exists>es. resolved_entries (resolve m i) = Some es \<and> map re_path es = resolved_paths (resolve m i))"
proof -
  let ?r = "resolve m i"
  have "\<exists>es. resolved_entries ?r = Some es \<and> map re_path es = resolved_paths ?r"
    by (simp add: resolve_entries_eq resolved_paths_def)
  moreover have "sorted_wrt (<) (resolved_paths ?r)"
    using bm_of_list_wf by (simp add: resolved_paths_def resolve_values bm_wf_def)
  ultimately show ?thesis
    using resolve_keys [of m i] map_of_eq_None_iff [of "rs_values ?r"] map_of_eq_None_iff [of "rs_provenance ?r"]
    by (simp add: resolved_paths_def resolved_value_def resolved_provenance_def del: not_None_eq)
qed

text \<open>
  C1. The value of a leaf and its provenance come from the greatest layer, in the order default,
  recommended, config file, environment, flags, builder override, enforced, that offers a value the
  server-tree rules accept; the field is locked exactly when that layer is the enforced one.
\<close>

theorem resolve_precedence:
  assumes "distinct (map lf_path (iter_leaves m))" "l \<in> set (iter_leaves m)"
  shows "\<exists>x v. resolved_provenance (resolve m i) (lf_path l) = Some \<lparr>pv_layer = x, pv_locked = (x = LEnforced)\<rparr> \<and>
               resolved_value (resolve m i) (lf_path l) = Some v \<and>
               layer_value i l x = Some v \<and> (\<forall>y. x < y \<longrightarrow> layer_value i l y = None)"
proof (intro exI conjI allI impI)
  let ?x = "effective_layer i l"
  show "resolved_provenance (resolve m i) (lf_path l) = Some \<lparr>pv_layer = ?x, pv_locked = (?x = LEnforced)\<rparr>"
    using resolve_lookup(2) [OF assms] by (simp add: provenance_new_def)
  show "resolved_value (resolve m i) (lf_path l) = Some (effective_value i l)"
    by (rule resolve_lookup(1) [OF assms])
  show "layer_value i l ?x = Some (effective_value i l)"
    using effective_layer_spec(1) [of i l] by auto
  show "layer_value i l y = None" if "?x < y" for y
    using effective_layer_spec(2) [of i l y] that by (meson not_le)
qed

definition sample_input :: resolution_input where
  "sample_input =
     \<lparr>ri_recommended = [(''net.port'', JNum (PosInt 80))], ri_config_file = [(''net.port'', JNum (PosInt 81))],
      ri_environment = [], ri_flags = [(''net.url'', JStr ''f'')], ri_builder_overrides = [],
      ri_enforced = [(''home'', JStr ''x''), (''net.url'', JStr ''e'')]\<rparr>"

theorem resolve_precedence_witness:
  "distinct (map lf_path (iter_leaves sample_manifest)) \<and>
   (\<exists>x v. resolved_provenance (resolve sample_manifest sample_input) ''net.url'' =
            Some \<lparr>pv_layer = x, pv_locked = (x = LEnforced)\<rparr> \<and>
          resolved_value (resolve sample_manifest sample_input) ''net.url'' = Some v \<and>
          layer_value sample_input \<lparr>lf_path = ''net.url'', lf_field = sample_field ''url'' KUrl\<rparr> x = Some v \<and>
          (\<forall>y. x < y \<longrightarrow>
             layer_value sample_input \<lparr>lf_path = ''net.url'', lf_field = sample_field ''url'' KUrl\<rparr> y = None))"
  using resolve_precedence [of sample_manifest "\<lparr>lf_path = ''net.url'', lf_field = sample_field ''url'' KUrl\<rparr>" sample_input]
  by (simp add: sample_leaves)



text \<open>
  C3. A leaf that is secret, local-only or not manageable is out of reach of the server: any two
  inputs with the same local layers resolve it to the same value and provenance, whatever the
  recommended and enforced trees are, and the provenance is never a server layer.
\<close>

theorem resolve_unmanaged_isolated:
  assumes "distinct (map lf_path (iter_leaves m))" "l \<in> set (iter_leaves m)"
    and "fm_secret (lf_field l) \<or> fm_local_only (lf_field l) \<or> \<not> fm_manageable (lf_field l)"
  shows "resolved_value (resolve m (i\<lparr>ri_recommended := r, ri_enforced := e\<rparr>)) (lf_path l) =
           resolved_value (resolve m i) (lf_path l) \<and>
         resolved_provenance (resolve m (i\<lparr>ri_recommended := r, ri_enforced := e\<rparr>)) (lf_path l) =
           resolved_provenance (resolve m i) (lf_path l) \<and>
         (\<forall>p. resolved_provenance (resolve m i) (lf_path l) = Some p \<longrightarrow>
              pv_layer p \<noteq> LRecommended \<and> pv_layer p \<noteq> LEnforced \<and> \<not> pv_locked p)"
proof -
  have server: "layer_value i' l LRecommended = None" "layer_value i' l LEnforced = None" for i'
    using assms(3)
    by (auto simp: server_tree_drop_reason_recommended_def server_tree_drop_reason_enforced_def
        split: option.split Option.bind_split)
  have "layer_value (i\<lparr>ri_recommended := r, ri_enforced := e\<rparr>) l x = layer_value i l x" for x
    using server by (cases x) (simp_all del: layer_value.simps(2,7))
  then have "layer_value (i\<lparr>ri_recommended := r, ri_enforced := e\<rparr>) l = layer_value i l" by blast
  moreover from this have "effective_layer (i\<lparr>ri_recommended := r, ri_enforced := e\<rparr>) l = effective_layer i l"
    by (simp only: effective_layer_def)
  moreover have "effective_layer i l \<noteq> LRecommended \<and> effective_layer i l \<noteq> LEnforced"
    using effective_layer_spec(1) [of i l] server by metis
  ultimately show ?thesis
    using resolve_lookup [OF assms(1,2)] by (simp add: provenance_new_def)
qed

theorem resolve_unmanaged_isolated_witness:
  "resolved_value (resolve sample_manifest (sample_input\<lparr>ri_recommended := [], ri_enforced := []\<rparr>)) ''home'' =
     resolved_value (resolve sample_manifest sample_input) ''home''"
  using resolve_unmanaged_isolated [where m = sample_manifest and i = sample_input and r = "[]" and e = "[]"
      and l = "\<lparr>lf_path = ''home'', lf_field = sample_local_field ''home'' KPath\<rparr>"]
  by (simp add: sample_leaves sample_local_field_def)

text \<open>
  Warnings are exact: a path is reported with a reason precisely when a server tree holds an
  entry for it that is dropped for that reason, namely an entry no leaf has (\<open>UnknownKey\<close>), or an
  entry of a leaf that the rule of its tree rejects. Nothing is dropped silently and nothing that is
  applied is reported.
\<close>

theorem resolve_warnings_exact:
  "has_warning (resolve m i) p reason \<longleftrightarrow>
     (reason = UnknownKey \<and> p \<notin> lf_path ` set (iter_leaves m) \<and>
      p \<in> dom (map_of (ri_recommended i)) \<union> dom (map_of (ri_enforced i))) \<or>
     (\<exists>l \<in> set (iter_leaves m). p = lf_path l \<and>
        ((\<exists>v. map_of (ri_recommended i) p = Some v \<and> server_tree_drop_reason_recommended (lf_field l) v = Some reason) \<or>
         (\<exists>v. map_of (ri_enforced i) p = Some v \<and> server_tree_drop_reason_enforced (lf_field l) v = Some reason)))"
proof -
  have "has_warning (resolve m i) p reason \<longleftrightarrow>
      \<lparr>rw_path = p, rw_reason = reason\<rparr> \<in> set (rs_warnings (resolve m i))"
  proof
    assume "has_warning (resolve m i) p reason"
    then obtain w where w: "w \<in> set (rs_warnings (resolve m i))" "rw_path w = p" "rw_reason w = reason"
      by (auto simp: has_warning_def list_ex_iff)
    have "w = \<lparr>rw_path = p, rw_reason = reason\<rparr>" using w(2,3) by (cases w) simp
    then show "\<lparr>rw_path = p, rw_reason = reason\<rparr> \<in> set (rs_warnings (resolve m i))"
      using w(1) by (simp only:)
  next
    assume "\<lparr>rw_path = p, rw_reason = reason\<rparr> \<in> set (rs_warnings (resolve m i))"
    then show "has_warning (resolve m i) p reason"
      by (force simp: has_warning_def list_ex_iff intro: bexI)
  qed
  also have "\<dots> \<longleftrightarrow>
      (\<exists>l \<in> set (iter_leaves m). \<lparr>rw_path = p, rw_reason = reason\<rparr> \<in> set (leaf_warnings i l)) \<or>
      (reason = UnknownKey \<and> p \<notin> lf_path ` set (iter_leaves m) \<and>
       (p \<in> fst ` set (ri_recommended i) \<or> p \<in> fst ` set (ri_enforced i)))"
    by (auto simp: resolve_warnings)
  finally have eq: "has_warning (resolve m i) p reason \<longleftrightarrow>
      (\<exists>l \<in> set (iter_leaves m). \<lparr>rw_path = p, rw_reason = reason\<rparr> \<in> set (leaf_warnings i l)) \<or>
      (reason = UnknownKey \<and> p \<notin> lf_path ` set (iter_leaves m) \<and>
       p \<in> dom (map_of (ri_recommended i)) \<union> dom (map_of (ri_enforced i)))"
    by (simp only: dom_map_of_conv_image_fst Un_iff)
  show ?thesis unfolding eq leaf_warnings_iff by (rule disj_commute)
qed

text \<open>
  The protection flag of a field plays no part in these decisions: an organisation policy sets a
  protected field, which the manifest says no automated caller may change.
\<close>

theorem protected_field_accepts_policy:
  assumes "fm_protected f" "\<not> fm_local_only f" "\<not> fm_secret f" "fm_manageable f" "fm_enforceable f"
    and "value_matches_kind v (fm_kind f)"
  shows "server_tree_drop_reason_enforced f v = None"
  using assms by (simp add: server_tree_drop_reason_enforced_def)

end
