(* ===== verification/Config_Store.thy ===== *)
theory Config_Store
  imports Config_Backend
begin

text \<open>
  The typed configuration store (\<open>config/store.rs\<close>, \<open>config/format.rs\<close>,
  \<open>config/versioned.rs\<close>, \<open>config/handle.rs\<close>, \<open>config/options.rs\<close>).

  The application's own type is the type variable \<open>'c\<close> with the record \<open>versioned_config\<close> of
  what the trait bounds give the store (\<open>Default\<close>, the version accessors, the serde
  conversions); the serde and toml codecs are the record \<open>codec\<close>. A store is a state record
  over a backend. Subscribers are identifiers, and the notifications they receive are logged in
  order.
\<close>

section \<open>Parameters\<close>

record 'c versioned_config =
  vc_default :: 'c
  vc_schema_version :: "'c \<Rightarrow> u32"
  vc_set_schema_version :: "u32 \<Rightarrow> 'c \<Rightarrow> 'c"
  vc_to_value :: "'c \<Rightarrow> string + json"
  vc_from_value :: "json \<Rightarrow> string + 'c"

record 't codec =
  json_from_slice :: "bytes \<Rightarrow> string + json"
  json_to_vec_pretty :: "json \<Rightarrow> string + bytes"
  str_from_utf8 :: "bytes \<Rightarrow> string + string"
  toml_from_str :: "string \<Rightarrow> string + 't"
  toml_to_json :: "'t \<Rightarrow> string + json"
  toml_from_json :: "json \<Rightarrow> string + 't"
  toml_to_string_pretty :: "'t \<Rightarrow> string + string"

section \<open>Formats\<close>

datatype config_format = Json | Toml

definition bytes_to_value :: "'t codec \<Rightarrow> config_format \<Rightarrow> string \<Rightarrow> bytes \<Rightarrow> config_error + json" where
  "bytes_to_value cd fmt label bs =
     (case fmt of
        Json \<Rightarrow> map_err (Parse label) (json_from_slice cd bs)
      | Toml \<Rightarrow>
          and_then (map_err (Parse label) (str_from_utf8 cd bs)) (\<lambda>text.
          and_then (map_err (Parse label) (toml_from_str cd text)) (\<lambda>v.
          map_err (Parse label) (toml_to_json cd v))))"

definition value_to_bytes :: "'t codec \<Rightarrow> config_format \<Rightarrow> string \<Rightarrow> json \<Rightarrow> config_error + bytes" where
  "value_to_bytes cd fmt label v =
     (case fmt of
        Json \<Rightarrow> map_err (Serialize label) (json_to_vec_pretty cd v)
      | Toml \<Rightarrow>
          and_then (map_err (Serialize label) (toml_from_json cd v)) (\<lambda>t.
          map_err (Serialize label) (toml_to_string_pretty cd t)))"

section \<open>The store\<close>

type_synonym migration_fn = "json \<Rightarrow> string + json"

record ('c, 'b) config_store =
  cs_vtable :: "'b config_backend"
  cs_backend :: 'b
  cs_format :: config_format
  cs_current_version :: u32
  cs_migrations :: "(u32 \<times> migration_fn) list"
  cs_current :: 'c
  cs_subscribers :: "nat list"
  cs_notified :: "(nat \<times> 'c) list"

definition SCHEMA_VERSION_FIELD :: string where
  "SCHEMA_VERSION_FIELD = ''schema_version''"

definition read_version :: "json \<Rightarrow> u32" where
  "read_version v =
     (case Option.bind (json_get v SCHEMA_VERSION_FIELD) as_u64 of
        Some n \<Rightarrow> if unat n < 2 ^ 32 then ucast n else - 1
      | None \<Rightarrow> 0)"

definition write_version :: "json \<Rightarrow> u32 \<Rightarrow> json" where
  "write_version v version =
     (case v of
        JObj m \<Rightarrow> JObj (bm_insert SCHEMA_VERSION_FIELD (JNum (PosInt (ucast version))) m)
      | _ \<Rightarrow> v)"

definition config_store_new ::
  "'c versioned_config \<Rightarrow> 'b config_backend \<Rightarrow> 'b \<Rightarrow> config_format \<Rightarrow> u32 \<Rightarrow> ('c, 'b) config_store" where
  "config_store_new vc be b fmt version =
     \<lparr>cs_vtable = be, cs_backend = b, cs_format = fmt, cs_current_version = version,
      cs_migrations = [], cs_current = vc_set_schema_version vc version (vc_default vc),
      cs_subscribers = [], cs_notified = []\<rparr>"

definition with_migration ::
  "u32 \<Rightarrow> migration_fn \<Rightarrow> ('c, 'b) config_store \<Rightarrow> ('c, 'b) config_store" where
  "with_migration from_version m st = st\<lparr>cs_migrations := hm_insert from_version m (cs_migrations st)\<rparr>"

text \<open>The loop of \<open>load\<close>.\<close>

function migrate ::
  "(u32 \<times> migration_fn) list \<Rightarrow> u32 \<Rightarrow> json \<Rightarrow> u32 \<Rightarrow> config_error + json" where
  "migrate ms target v version =
     (if version < target
      then (case map_of ms version of
              None \<Rightarrow> Err (NoMigrationPath version target)
            | Some m \<Rightarrow>
                (case m v of
                   Err e \<Rightarrow> Err (MigrationFailed version e)
                 | Ok v' \<Rightarrow> migrate ms target (write_version v' (version + 1)) (version + 1)))
      else Ok v)"
  by pat_completeness auto
termination
proof (relation "measure (\<lambda>(_, t, _, v). unat t - unat v)", goal_cases)
  case 1
  show ?case by simp
next
  case (2 ms target v version m v')
  then have "unat (version + 1) = unat version + 1"
    by (intro unat_plus_one_less)
  then show ?case using 2 by (simp add: word_less_nat_alt)
qed

declare migrate.simps [simp del]

definition load :: "'c versioned_config \<Rightarrow> 't codec \<Rightarrow> ('c, 'b) config_store \<Rightarrow> config_error + 'c" where
  "load vc cd st =
     (let label = cb_label (cs_vtable st) (cs_backend st)
      in and_then (cb_read (cs_vtable st) (cs_backend st)) (\<lambda>bs.
         if bs = [] then Ok (vc_set_schema_version vc (cs_current_version st) (vc_default vc))
         else and_then (bytes_to_value cd (cs_format st) label bs) (\<lambda>v.
           let version = read_version v
           in if version > cs_current_version st
              then Err (VersionTooNew version (cs_current_version st))
              else and_then (migrate (cs_migrations st) (cs_current_version st) v version) (\<lambda>v'.
                   and_then (map_err (Parse label) (vc_from_value vc v')) (\<lambda>result.
                   Ok (vc_set_schema_version vc (cs_current_version st) result))))))"

definition save ::
  "'c versioned_config \<Rightarrow> 't codec \<Rightarrow> 'c \<Rightarrow> ('c, 'b) config_store \<Rightarrow> (config_error + unit) \<times> ('c, 'b) config_store" where
  "save vc cd value0 st =
     (let be = cs_vtable st; label = cb_label be (cs_backend st)
      in if \<not> cb_supports_write be (cs_backend st) then (Err (ReadOnly label), st)
         else
           let value = vc_set_schema_version vc (cs_current_version st) value0
           in case map_err (Serialize label) (vc_to_value vc value) of
                Err e \<Rightarrow> (Err e, st)
              | Ok j \<Rightarrow>
                  (case value_to_bytes cd (cs_format st) label j of
                     Err e \<Rightarrow> (Err e, st)
                   | Ok bs \<Rightarrow>
                       (case cb_write be bs (cs_backend st) of
                          (Err e, b) \<Rightarrow> (Err e, st\<lparr>cs_backend := b\<rparr>)
                        | (Ok _, b) \<Rightarrow> (Ok (), st\<lparr>cs_backend := b, cs_current := value\<rparr>))))"

definition store_resolve ::
  "'c versioned_config \<Rightarrow> 't codec \<Rightarrow> ('c, 'b) config_store \<Rightarrow> (config_error + 'c) \<times> ('c, 'b) config_store" where
  "store_resolve vc cd st =
     (case load vc cd st of
        Err e \<Rightarrow> (Err e, st)
      | Ok value \<Rightarrow> (Ok value, st\<lparr>cs_current := value\<rparr>))"

text \<open>Subscribers are called in order, from the snapshot taken when the value changes.\<close>

definition notify :: "'c \<Rightarrow> ('c, 'b) config_store \<Rightarrow> ('c, 'b) config_store" where
  "notify value st = st\<lparr>cs_notified := cs_notified st @ map (\<lambda>f. (f, value)) (cs_subscribers st)\<rparr>"

definition reload ::
  "'c versioned_config \<Rightarrow> 't codec \<Rightarrow> ('c, 'b) config_store \<Rightarrow> (config_error + unit) \<times> ('c, 'b) config_store" where
  "reload vc cd st =
     (case load vc cd st of
        Err e \<Rightarrow> (Err e, st)
      | Ok value \<Rightarrow> (Ok (), notify value (st\<lparr>cs_current := value\<rparr>)))"

definition subscribe :: "nat \<Rightarrow> ('c, 'b) config_store \<Rightarrow> ('c, 'b) config_store" where
  "subscribe f st = st\<lparr>cs_subscribers := cs_subscribers st @ [f]\<rparr>"

definition set_current_and_notify :: "'c \<Rightarrow> ('c, 'b) config_store \<Rightarrow> ('c, 'b) config_store" where
  "set_current_and_notify value st = notify value (st\<lparr>cs_current := value\<rparr>)"

section \<open>The type-erased handle\<close>

definition backend_label :: "('c, 'b) config_store \<Rightarrow> string" where
  "backend_label st = cb_label (cs_vtable st) (cs_backend st)"

definition current_json :: "'c versioned_config \<Rightarrow> ('c, 'b) config_store \<Rightarrow> config_error + json" where
  "current_json vc st = map_err (Serialize (backend_label st)) (vc_to_value vc (cs_current st))"

definition backend_json :: "'c versioned_config \<Rightarrow> 't codec \<Rightarrow> ('c, 'b) config_store \<Rightarrow> config_error + json" where
  "backend_json vc cd st =
     and_then (load vc cd st) (\<lambda>fresh. map_err (Serialize (backend_label st)) (vc_to_value vc fresh))"

definition save_json ::
  "'c versioned_config \<Rightarrow> 't codec \<Rightarrow> json \<Rightarrow> ('c, 'b) config_store \<Rightarrow> (config_error + unit) \<times> ('c, 'b) config_store" where
  "save_json vc cd v st =
     (case map_err (Parse (backend_label st)) (vc_from_value vc v) of
        Err e \<Rightarrow> (Err e, st)
      | Ok typed \<Rightarrow> save vc cd typed st)"

definition set_current_json_and_notify ::
  "'c versioned_config \<Rightarrow> json \<Rightarrow> ('c, 'b) config_store \<Rightarrow> (config_error + unit) \<times> ('c, 'b) config_store" where
  "set_current_json_and_notify vc v st =
     (case map_err (Parse (backend_label st)) (vc_from_value vc v) of
        Err e \<Rightarrow> (Err e, st)
      | Ok typed \<Rightarrow> (Ok (), set_current_and_notify typed st))"

section \<open>Migration\<close>

text \<open>One migration, as a step on a result.\<close>

definition migration_step :: "(u32 \<times> migration_fn) list \<Rightarrow> u32 \<Rightarrow> u32 \<Rightarrow> config_error + json \<Rightarrow> config_error + json" where
  "migration_step ms target version r =
     and_then r (\<lambda>v.
       case map_of ms version of
         None \<Rightarrow> Err (NoMigrationPath version target)
       | Some m \<Rightarrow> and_then (map_err (MigrationFailed version) (m v)) (\<lambda>v'. Ok (write_version v' (version + 1))))"

lemma migration_step_Ok:
  "migration_step ms t n (Ok v) =
     (case map_of ms n of
        None \<Rightarrow> Err (NoMigrationPath n t)
      | Some m \<Rightarrow> and_then (map_err (MigrationFailed n) (m v)) (\<lambda>v'. Ok (write_version v' (n + 1))))"
  by (simp add: migration_step_def)

lemma migration_steps_Err: "fold (migration_step ms t) ns (Err e) = Err e"
  by (induction ns) (simp_all add: migration_step_def)

lemma migrate_fold:
  "migrate ms t v a = fold (migration_step ms t) (map of_nat [unat a..<unat t]) (Ok v)"
proof (induction ms t v a rule: migrate.induct)
  case (1 ms t v a)
  show ?case
  proof (cases "a < t")
    case False
    then show ?thesis by (simp add: migrate.simps [of ms] word_less_nat_alt)
  next
    case True
    then have lt: "unat a < unat t" and suc: "unat (a + 1) = unat a + 1"
      by (simp_all add: word_less_nat_alt unat_plus_one_less)
    have ns: "map of_nat [unat a..<unat t] = a # map of_nat [unat (a + 1)..<unat t]"
      using lt suc by (simp add: upt_conv_Cons)
    show ?thesis
    proof (cases "map_of ms a")
      case None
      then show ?thesis
        using True unfolding ns by (simp add: migrate.simps [of ms _ v a] migration_step_Ok migration_steps_Err)
    next
      case (Some m)
      show ?thesis
      proof (cases "m v")
        case (Inl e)
        then show ?thesis
          using True Some unfolding ns
          by (simp add: migrate.simps [of ms _ v a] migration_step_Ok migration_steps_Err)
      next
        case (Inr v')
        then show ?thesis
          using True Some "1.IH" [OF True Some Inr] unfolding ns
          by (simp add: migrate.simps [of ms _ v a] migration_step_Ok)
      qed
    qed
  qed
qed

lemma read_write_version: "is_object v \<Longrightarrow> read_version (write_version v n) = n"
proof -
  assume "is_object v"
  then obtain m where v: "v = JObj m" by (auto simp: is_object_iff)
  have "unat n < 2 ^ 32" using unsigned_less [of n] by simp
  moreover from this have "unat (ucast n :: u64) = unat n"
    by (simp add: unsigned_ucast_eq take_bit_nat_eq_self)
  moreover from calculation have "(ucast (ucast n :: u64) :: u32) = n"
    by (simp only: word_unat_eq_iff unsigned_ucast_eq) (simp add: take_bit_nat_eq_self take_bit_word_eq_self)
  ultimately show ?thesis
    by (simp add: v read_version_def write_version_def json_get_def)
qed

section \<open>Properties\<close>

text \<open>
  C6. Loading a document behind the current schema version applies the registered migrations of
  its version, the next one, and so on up to the current version, each once and in that order,
  re-stamping the version after each; the first missing or failing migration is the error of the
  load, and nothing migrated so far is returned.
\<close>

theorem load_migrates_in_order:
  assumes "cb_read (cs_vtable st) (cs_backend st) = Ok bs" "bs \<noteq> []"
    and "bytes_to_value cd (cs_format st) (backend_label st) bs = Ok v"
    and "read_version v \<le> cs_current_version st"
  shows "load vc cd st =
           and_then (fold (migration_step (cs_migrations st) (cs_current_version st))
                       (map of_nat [unat (read_version v)..<unat (cs_current_version st)]) (Ok v))
             (\<lambda>v'. and_then (map_err (Parse (backend_label st)) (vc_from_value vc v'))
                (\<lambda>c. Ok (vc_set_schema_version vc (cs_current_version st) c)))"
  using assms by (auto simp: load_def Let_def backend_label_def migrate_fold)

definition sample_vc :: "u32 versioned_config" where
  "sample_vc =
     \<lparr>vc_default = 0, vc_schema_version = id, vc_set_schema_version = (\<lambda>v _. v),
      vc_to_value = (\<lambda>c. Ok (JObj [(SCHEMA_VERSION_FIELD, JNum (PosInt (ucast c)))])),
      vc_from_value = (\<lambda>j. Ok (read_version j))\<rparr>"

definition sample_codec :: "json codec" where
  "sample_codec =
     \<lparr>json_from_slice = (\<lambda>bs. case parse_u64 bs of
          None \<Rightarrow> Err ''number'' | Some n \<Rightarrow> Ok (JObj [(SCHEMA_VERSION_FIELD, JNum (PosInt n))])),
      json_to_vec_pretty = (\<lambda>j. case Option.bind (json_get j SCHEMA_VERSION_FIELD) as_u64 of
          None \<Rightarrow> Err ''shape'' | Some n \<Rightarrow> if j = JObj [(SCHEMA_VERSION_FIELD, JNum (PosInt n))] then Ok (nat_dec (unat n)) else Err ''shape''),
      str_from_utf8 = Ok, toml_from_str = (\<lambda>_. Err ''toml''), toml_to_json = Ok,
      toml_from_json = Ok, toml_to_string_pretty = (\<lambda>_. Err ''toml'')\<rparr>"

definition sample_store :: "(u32, in_memory_backend) config_store" where
  "sample_store = with_migration 1 Ok
     (config_store_new sample_vc in_memory_vtable (in_memory_with_bytes ''1'') Json 2)"

lemma sample_doc_version: "json_from_slice sample_codec ''1'' = Ok (JObj [(SCHEMA_VERSION_FIELD, JNum (PosInt 1))])"
  by (simp add: sample_codec_def parse_u64_def Let_def digit_val_def)

theorem load_migrates_in_order_witness:
  "load sample_vc sample_codec sample_store = Ok 2"
proof -
  have v: "read_version (JObj [(SCHEMA_VERSION_FIELD, JNum (PosInt 1))]) = 1"
    by (simp add: read_version_def json_get_def)
  have "bytes_to_value sample_codec (cs_format sample_store) (backend_label sample_store) ''1'' =
      Ok (JObj [(SCHEMA_VERSION_FIELD, JNum (PosInt 1))])"
    by (simp add: bytes_to_value_def sample_store_def with_migration_def config_store_new_def sample_doc_version)
  from load_migrates_in_order [OF _ _ this, of sample_vc] v show ?thesis
    by (simp add: sample_store_def with_migration_def config_store_new_def in_memory_vtable_def
        in_memory_with_bytes_def migration_step_def sample_vc_def upt_rec)
qed

text \<open>
  A document stamped with a schema version ahead of the store's is refused, never downgraded or
  migrated: this covers stored versions that do not fit 32 bits, which are clamped rather than
  wrapped, as long as the store's own version is below the largest 32-bit value.
\<close>

theorem load_refuses_newer:
  assumes "cb_read (cs_vtable st) (cs_backend st) = Ok bs" "bs \<noteq> []"
    and "bytes_to_value cd (cs_format st) (backend_label st) bs = Ok v"
    and "Option.bind (json_get v SCHEMA_VERSION_FIELD) as_u64 = Some n"
    and "unat (cs_current_version st) < unat n" "cs_current_version st \<noteq> - 1"
  shows "\<exists>found. load vc cd st = Err (VersionTooNew found (cs_current_version st)) \<and>
           cs_current_version st < found"
proof -
  have "cs_current_version st < read_version v"
  proof (cases "unat n < 2 ^ 32")
    case True
    then have "unat (ucast n :: u32) = unat n"
      by (simp add: unsigned_ucast_eq take_bit_nat_eq_self)
    then show ?thesis using True assms(4,5) by (simp add: read_version_def word_less_nat_alt)
  next
    case False
    then show ?thesis
      using assms(4,6) by (simp add: read_version_def word_order.not_eq_extremum)
  qed
  then show ?thesis using assms(1-3) by (simp add: load_def Let_def backend_label_def)
qed

theorem load_refuses_newer_witness:
  "load sample_vc sample_codec (sample_store\<lparr>cs_current_version := 0\<rparr>) = Err (VersionTooNew 1 0)"
proof -
  let ?st = "sample_store\<lparr>cs_current_version := 0\<rparr>"
  have "bytes_to_value sample_codec (cs_format ?st) (backend_label ?st) ''1'' =
      Ok (JObj [(SCHEMA_VERSION_FIELD, JNum (PosInt 1))])"
    by (simp add: bytes_to_value_def sample_store_def with_migration_def config_store_new_def sample_doc_version)
  from load_refuses_newer [OF _ _ this, of 1 sample_vc]
  obtain found where f: "load sample_vc sample_codec ?st = Err (VersionTooNew found 0)"
    by (auto simp: sample_store_def with_migration_def config_store_new_def in_memory_vtable_def
        in_memory_with_bytes_def json_get_def)
  then have "found = 1"
    by (simp add: load_def sample_store_def with_migration_def config_store_new_def in_memory_vtable_def
        in_memory_with_bytes_def Let_def bytes_to_value_def sample_doc_version read_version_def json_get_def)
  then show ?thesis using f by simp
qed

lemma save_then_load:
  assumes "byte_store (cs_vtable st)"
    and codec: "\<And>j bs. value_to_bytes cd (cs_format st) (backend_label st) j = Ok bs \<Longrightarrow>
        bs \<noteq> [] \<and> bytes_to_value cd (cs_format st) (backend_label st) bs = Ok j"
    and serde: "\<And>c j. vc_to_value vc c = Ok j \<Longrightarrow> vc_from_value vc j = Ok c \<and> read_version j = vc_schema_version vc c"
    and stamp: "\<And>n c. vc_schema_version vc (vc_set_schema_version vc n c) = n"
      "\<And>n c. vc_set_schema_version vc n (vc_set_schema_version vc n c) = vc_set_schema_version vc n c"
    and "save vc cd c st = (Ok (), st')"
  shows "(load vc cd st' = Ok (vc_set_schema_version vc (cs_current_version st) c) \<or>
          (\<exists>e. cb_read (cs_vtable st) (cs_backend st') = Err e \<and> load vc cd st' = Err e)) \<and>
         cs_current st' = vc_set_schema_version vc (cs_current_version st) c"
proof -
  let ?be = "cs_vtable st" and ?n = "cs_current_version st"
  let ?c = "vc_set_schema_version vc ?n c"
  obtain j bs b where j: "vc_to_value vc ?c = Ok j"
    and bs: "value_to_bytes cd (cs_format st) (backend_label st) j = Ok bs"
    and w: "cb_write ?be bs (cs_backend st) = (Ok (), b)"
    and st': "st' = st\<lparr>cs_backend := b, cs_current := ?c\<rparr>"
    using assms(6) by (auto simp: save_def Let_def backend_label_def split: if_splits sum.splits prod.splits)
  have label: "cb_label ?be b = backend_label st"
    using byte_store.label_stable [OF assms(1), of bs "cs_backend st"] w by (simp add: backend_label_def)
  have version: "read_version j = ?n" using serde [OF j] stamp(1) by simp
  show ?thesis
  proof (cases "cb_read ?be b")
    case (Inl e)
    then show ?thesis by (simp add: load_def Let_def st')
  next
    case (Inr bs')
    then have "bs' = bs" using byte_store.write_ok [OF assms(1) w] by auto
    then show ?thesis
      using Inr codec [OF bs] serde [OF j] version label stamp(2)
      by (simp add: load_def Let_def st' migrate_fold)
  qed
qed



text \<open>
  A store never loses the previous state on failure: a failed \<open>save\<close> leaves the cached value
  and the stored bytes as they were, and against a read-only backend it does not write at all;
  \<open>load\<close> and the handle's \<open>backend_json\<close> change nothing, and a failed \<open>reload\<close> keeps the
  cached value and notifies nobody.
\<close>

theorem store_failure_keeps_state:
  assumes "byte_store (cs_vtable st)"
  shows "(case save vc cd c st of
            (Err e, st') \<Rightarrow> cs_current st' = cs_current st \<and> cs_notified st' = cs_notified st \<and>
              cb_read (cs_vtable st) (cs_backend st') = cb_read (cs_vtable st) (cs_backend st) \<and>
              (\<not> cb_supports_write (cs_vtable st) (cs_backend st) \<longrightarrow> st' = st \<and> e = ReadOnly (backend_label st))
          | (Ok _, st') \<Rightarrow> cs_current st' = vc_set_schema_version vc (cs_current_version st) c) \<and>
         (case reload vc cd st of
            (Err e, st') \<Rightarrow> st' = st \<and> load vc cd st = Err e
          | (Ok _, st') \<Rightarrow> load vc cd st = Ok (cs_current st') \<and> cs_backend st' = cs_backend st \<and>
              cs_notified st' = cs_notified st @ map (\<lambda>f. (f, cs_current st')) (cs_subscribers st))"
proof (rule conjI)
  show "case save vc cd c st of
            (Err e, st') \<Rightarrow> cs_current st' = cs_current st \<and> cs_notified st' = cs_notified st \<and>
              cb_read (cs_vtable st) (cs_backend st') = cb_read (cs_vtable st) (cs_backend st) \<and>
              (\<not> cb_supports_write (cs_vtable st) (cs_backend st) \<longrightarrow> st' = st \<and> e = ReadOnly (backend_label st))
          | (Ok _, st') \<Rightarrow> cs_current st' = vc_set_schema_version vc (cs_current_version st) c"
    using byte_store.write_failed [OF assms]
    by (auto simp: save_def Let_def backend_label_def split: prod.splits sum.splits)
  show "case reload vc cd st of
            (Err e, st') \<Rightarrow> st' = st \<and> load vc cd st = Err e
          | (Ok _, st') \<Rightarrow> load vc cd st = Ok (cs_current st') \<and> cs_backend st' = cs_backend st \<and>
              cs_notified st' = cs_notified st @ map (\<lambda>f. (f, cs_current st')) (cs_subscribers st)"
    by (auto simp: reload_def notify_def split: sum.splits)
qed

theorem store_failure_keeps_state_witness:
  "save sample_vc sample_codec 0 (sample_store\<lparr>cs_backend := in_memory_read_only in_memory_new\<rparr>) =
     (Err (ReadOnly ''in-memory''), sample_store\<lparr>cs_backend := in_memory_read_only in_memory_new\<rparr>)"
proof -
  let ?st = "sample_store\<lparr>cs_backend := in_memory_read_only in_memory_new\<rparr>"
  have vt: "cs_vtable sample_store = in_memory_vtable"
    by (simp add: sample_store_def with_migration_def config_store_new_def)
  have ro: "\<not> cb_supports_write (cs_vtable ?st) (cs_backend ?st)" "backend_label ?st = ''in-memory''"
    by (simp_all add: vt backend_label_def in_memory_vtable_def in_memory_read_only_def in_memory_new_def)
  obtain e where "save sample_vc sample_codec 0 ?st = (Err e, ?st)"
    using ro(1) by (simp add: save_def Let_def)
  moreover have "byte_store (cs_vtable ?st)"
    using in_memory.byte_store_axioms vt by simp
  ultimately show ?thesis
    using store_failure_keeps_state [where st = ?st and vc = sample_vc and cd = sample_codec and c = 0] ro by simp
qed

end
