(* ===== verification/Managed.thy ===== *)
theory Managed
  imports Resolver Config_Store
begin

text \<open>
  The managed-configuration client (\<open>config/policy.rs\<close>, \<open>config/managed/\<close>): folding a policy
  into the application's configuration, the on-disk policy cache, the fetch with its failure
  mapping, and the roaming user document.

  The HTTP client is a function from the request (address, conditional ETag) to its result; the
  clock reading and the serde conversions of the policy and the cache entry are parameters.
\<close>

section \<open>Policies\<close>

datatype stale_action = Warn | Refuse

record policy =
  pol_contract_version :: u32
  pol_app :: string
  pol_profile :: string
  pol_version :: u64
  pol_max_cache_age_secs :: u64
  pol_stale_action :: stale_action
  pol_enforced :: json_map
  pol_recommended :: json_map

datatype policy_outcome = Fresh policy | FromCache policy bool | Unmanaged | Denied

datatype fold_failure = LocalUnreadable config_error | LocalUnserializable string | FoldedMismatch string
  | FoldedNotApplied config_error

datatype response_problem = BadBody string | NotModifiedWithoutCache | UnexpectedStatus nat

datatype policy_client_error =
    Unreachable string string
  | StaleCacheRefused string
  | CacheCorrupt string string
  | InvalidResponse string response_problem
  | Cache config_error
  | ClientError string nat string
  | FoldFailed string fold_failure

section \<open>Folding a policy into a document\<close>

definition policy_trees :: "policy_outcome \<Rightarrow> json_map \<times> json_map" where
  "policy_trees outcome =
     (case outcome of
        Fresh p \<Rightarrow> (pol_enforced p, pol_recommended p)
      | FromCache p _ \<Rightarrow> (pol_enforced p, pol_recommended p)
      | Unmanaged \<Rightarrow> ([], [])
      | Denied \<Rightarrow> ([], []))"

text \<open>\<open>merge_json_objects\<close>: the loop over the overlay's members.\<close>

fun merge_json_objects :: "json \<Rightarrow> json \<Rightarrow> json"
  and merge_members :: "json_map \<Rightarrow> json_map \<Rightarrow> json_map" where
  "merge_json_objects (JObj base) (JObj overlay) = JObj (merge_members base overlay)"
| "merge_json_objects base overlay = base"
| "merge_members base [] = base"
| "merge_members base ((key, ov) # rest) =
     merge_members
       (case map_of base key of
          Some bv \<Rightarrow> if is_object bv \<and> is_object ov then bm_insert key (merge_json_objects bv ov) base
                     else bm_insert key ov base
        | None \<Rightarrow> bm_insert key ov base)
       rest"

text \<open>\<open>entries\<close> does not panic on the output of \<open>resolve\<close> (\<open>resolve_entries_eq\<close>), so the
  other branch of the case is never taken.\<close>

definition fold_into_json :: "config_manifest \<Rightarrow> json \<Rightarrow> json_map \<Rightarrow> json_map \<Rightarrow> json" where
  "fold_into_json manifest current enforced recommended =
     (let input = \<lparr>ri_recommended = recommended, ri_config_file = flatten_to_paths current,
                   ri_environment = [], ri_flags = [], ri_builder_overrides = [],
                   ri_enforced = enforced\<rparr>;
          es = (case resolved_entries (resolve manifest input) of Some es \<Rightarrow> es | None \<Rightarrow> []);
          flat = fold (\<lambda>e. bm_insert (re_path e) (re_value e)) es [];
          manifest_shaped = unflatten_from_paths manifest flat
      in merge_json_objects current manifest_shaped)"

section \<open>The cache\<close>

record policy_cache_entry =
  ce_policy :: json
  ce_etag :: "string option"
  ce_fetched_at_epoch_secs :: u64

text \<open>The conversions serde derives for the client's documents.\<close>

record policy_serde =
  ps_entry_from_slice :: "bytes \<Rightarrow> string + policy_cache_entry"
  ps_entry_to_vec :: "policy_cache_entry \<Rightarrow> string + bytes"
  ps_json_from_slice :: "bytes \<Rightarrow> string + json"
  ps_policy_from_value :: "json \<Rightarrow> string + policy"

definition cache_read ::
  "policy_serde \<Rightarrow> 'b config_backend \<Rightarrow> 'b \<Rightarrow> config_error + policy_cache_entry option" where
  "cache_read ps be b =
     and_then (cb_read be b) (\<lambda>bs.
       if bs = [] then Ok None
       else and_then (map_err (Parse (cb_label be b)) (ps_entry_from_slice ps bs)) (\<lambda>e. Ok (Some e)))"

definition cache_write ::
  "policy_serde \<Rightarrow> 'b config_backend \<Rightarrow> policy_cache_entry \<Rightarrow> 'b \<Rightarrow> (config_error + unit) \<times> 'b" where
  "cache_write ps be e b =
     (case map_err (Serialize (cb_label be b)) (ps_entry_to_vec ps e) of
        Err x \<Rightarrow> (Err x, b)
      | Ok bs \<Rightarrow> cb_write be bs b)"

definition cache_clear :: "'b config_backend \<Rightarrow> 'b \<Rightarrow> (config_error + unit) \<times> 'b" where
  "cache_clear be b = cb_write be [] b"

section \<open>Fetching\<close>

text \<open>What \<open>AuthenticatedHttpClient::execute_with_retry\<close> answers: a response, or an error that
  is an \<open>AuthError\<close>, a \<open>reqwest::Error\<close> with an optional status, or another one.\<close>

record http_response =
  hr_status :: nat
  hr_etag :: "string option"
  hr_body :: "string + bytes"

datatype http_error = AuthError string | ReqwestError "nat option" string | OtherError string

fun http_error_message :: "http_error \<Rightarrow> string" where
  "http_error_message (AuthError m) = m"
| "http_error_message (ReqwestError _ m) = m"
| "http_error_message (OtherError m) = m"

type_synonym http_client = "string \<Rightarrow> string option \<Rightarrow> http_error + http_response"

datatype http_failure_class = Unauthorized | Forbidden | NotFound | ServerOrNetwork | ClientFailure nat

fun classify :: "http_error \<Rightarrow> http_failure_class" where
  "classify (AuthError _) = Unauthorized"
| "classify (ReqwestError (Some status) _) =
     (if status = 401 then Unauthorized
      else if status = 403 then Forbidden
      else if status = 404 then NotFound
      else if 500 \<le> status \<and> status < 600 then ServerOrNetwork
      else ClientFailure status)"
| "classify (ReqwestError None _) = ServerOrNetwork"
| "classify (OtherError _) = ServerOrNetwork"

record 'b policy_client =
  pc_http :: http_client
  pc_cache :: "'b config_backend"
  pc_base_url :: string
  pc_app :: string

text \<open>\<open>trim_end_matches\<close> on one character.\<close>

definition trim_end :: "char \<Rightarrow> string \<Rightarrow> string" where
  "trim_end c s = rev (dropWhile (\<lambda>x. x = c) (rev s))"

definition policy_url :: "'b policy_client \<Rightarrow> string" where
  "policy_url pc = trim_end CHR ''/'' (pc_base_url pc) @ ''/v1/policy/'' @ pc_app pc"

definition handle_response ::
  "policy_serde \<Rightarrow> u64 \<Rightarrow> 'b policy_client \<Rightarrow> http_response \<Rightarrow> policy_cache_entry option \<Rightarrow> 'b \<Rightarrow>
   (policy_client_error + policy_outcome) \<times> 'b" where
  "handle_response ps now pc resp cached b =
     (let app = pc_app pc
      in if hr_status resp = 200 then
           (case hr_body resp of
              Err m \<Rightarrow> (Err (InvalidResponse app (BadBody m)), b)
            | Ok bs \<Rightarrow>
                (case ps_json_from_slice ps bs of
                   Err m \<Rightarrow> (Err (InvalidResponse app (BadBody m)), b)
                 | Ok raw \<Rightarrow>
                     (case ps_policy_from_value ps raw of
                        Err m \<Rightarrow> (Err (InvalidResponse app (BadBody m)), b)
                      | Ok pol \<Rightarrow>
                          (case cache_write ps (pc_cache pc)
                                  \<lparr>ce_policy = raw, ce_etag = hr_etag resp, ce_fetched_at_epoch_secs = now\<rparr> b of
                             (Err e, b') \<Rightarrow> (Err (Cache e), b')
                           | (Ok _, b') \<Rightarrow> (Ok (Fresh pol), b')))))
         else if hr_status resp = 304 then
           (case cached of
              None \<Rightarrow> (Err (InvalidResponse app NotModifiedWithoutCache), b)
            | Some c \<Rightarrow>
                let refreshed = \<lparr>ce_policy = ce_policy c,
                                 ce_etag = (case hr_etag resp of Some e \<Rightarrow> Some e | None \<Rightarrow> ce_etag c),
                                 ce_fetched_at_epoch_secs = now\<rparr>
                in case cache_write ps (pc_cache pc) refreshed b of
                     (Err e, b') \<Rightarrow> (Err (Cache e), b')
                   | (Ok _, b') \<Rightarrow>
                       (case ps_policy_from_value ps (ce_policy refreshed) of
                          Err m \<Rightarrow> (Err (CacheCorrupt app m), b')
                        | Ok pol \<Rightarrow> (Ok (Fresh pol), b')))
         else (Err (InvalidResponse app (UnexpectedStatus (hr_status resp))), b))"

definition fall_back_to_cache ::
  "policy_serde \<Rightarrow> u64 \<Rightarrow> string \<Rightarrow> string \<Rightarrow> policy_cache_entry option \<Rightarrow> policy_client_error + policy_outcome" where
  "fall_back_to_cache ps now app message cached =
     (case cached of
        None \<Rightarrow> Err (Unreachable app message)
      | Some entry \<Rightarrow>
          (case ps_policy_from_value ps (ce_policy entry) of
             Err m \<Rightarrow> Err (CacheCorrupt app m)
           | Ok pol \<Rightarrow>
               let age = (if ce_fetched_at_epoch_secs entry \<le> now then now - ce_fetched_at_epoch_secs entry else 0)
               in if age \<le> pol_max_cache_age_secs pol then Ok (FromCache pol False)
                  else (case pol_stale_action pol of
                          Warn \<Rightarrow> Ok (FromCache pol True)
                        | Refuse \<Rightarrow> Err (StaleCacheRefused app))))"

definition handle_error ::
  "policy_serde \<Rightarrow> u64 \<Rightarrow> 'b policy_client \<Rightarrow> http_error \<Rightarrow> policy_cache_entry option \<Rightarrow> 'b \<Rightarrow>
   (policy_client_error + policy_outcome) \<times> 'b" where
  "handle_error ps now pc e cached b =
     (case classify e of
        Unauthorized \<Rightarrow> (Ok Denied, b)
      | Forbidden \<Rightarrow> (Ok Denied, b)
      | NotFound \<Rightarrow>
          (case cache_clear (pc_cache pc) b of
             (Err x, b') \<Rightarrow> (Err (Cache x), b')
           | (Ok _, b') \<Rightarrow> (Ok Unmanaged, b'))
      | ServerOrNetwork \<Rightarrow> (fall_back_to_cache ps now (pc_app pc) (http_error_message e) cached, b)
      | ClientFailure status \<Rightarrow> (Err (ClientError (pc_app pc) status (http_error_message e)), b))"

definition fetch_with_cached ::
  "policy_serde \<Rightarrow> u64 \<Rightarrow> 'b policy_client \<Rightarrow> policy_cache_entry option \<Rightarrow> 'b \<Rightarrow>
   (policy_client_error + policy_outcome) \<times> 'b" where
  "fetch_with_cached ps now pc cached b =
     (case pc_http pc (policy_url pc) (Option.bind cached ce_etag) of
        Ok resp \<Rightarrow> handle_response ps now pc resp cached b
      | Err e \<Rightarrow> handle_error ps now pc e cached b)"

definition cached_or_none :: "policy_serde \<Rightarrow> 'b policy_client \<Rightarrow> 'b \<Rightarrow> policy_cache_entry option" where
  "cached_or_none ps pc b = (case cache_read ps (pc_cache pc) b of Ok c \<Rightarrow> c | Err _ \<Rightarrow> None)"

definition fetch ::
  "policy_serde \<Rightarrow> u64 \<Rightarrow> 'b policy_client \<Rightarrow> 'b \<Rightarrow> (policy_client_error + policy_outcome) \<times> 'b" where
  "fetch ps now pc b = fetch_with_cached ps now pc (cached_or_none ps pc b) b"

definition cached_policy ::
  "policy_serde \<Rightarrow> 'b policy_client \<Rightarrow> 'b \<Rightarrow> policy_client_error + policy option" where
  "cached_policy ps pc b =
     and_then (map_err Cache (cache_read ps (pc_cache pc) b)) (\<lambda>entry.
       case entry of
         None \<Rightarrow> Ok None
       | Some e \<Rightarrow> and_then (map_err (CacheCorrupt (pc_app pc)) (ps_policy_from_value ps (ce_policy e)))
                     (\<lambda>p. Ok (Some p)))"

definition background_refresh :: "policy_serde \<Rightarrow> u64 \<Rightarrow> 'b policy_client \<Rightarrow> 'b \<Rightarrow> bool \<times> 'b" where
  "background_refresh ps now pc b =
     (case fetch ps now pc b of (Ok _, b') \<Rightarrow> (True, b') | (Err _, b') \<Rightarrow> (False, b'))"

section \<open>Connecting the client to a store\<close>

text \<open>The local document the policy is folded over: always read from the backend.\<close>

definition local_document ::
  "'c versioned_config \<Rightarrow> 't codec \<Rightarrow> string \<Rightarrow> ('c, 's) config_store \<Rightarrow> policy_client_error + json" where
  "local_document vc cd app store =
     and_then (map_err (\<lambda>e. FoldFailed app (LocalUnreadable e)) (load vc cd store)) (\<lambda>local.
       map_err (\<lambda>m. FoldFailed app (LocalUnserializable m)) (vc_to_value vc local))"

definition fold_cached_policy_into_value ::
  "'c versioned_config \<Rightarrow> 't codec \<Rightarrow> policy_serde \<Rightarrow> ('c, 's) config_store \<Rightarrow> config_manifest \<Rightarrow>
   'b policy_client \<Rightarrow> 'b \<Rightarrow> policy_client_error + 'c" where
  "fold_cached_policy_into_value vc cd ps store manifest pc b =
     and_then (cached_policy ps pc b) (\<lambda>cached.
       let (enforced, recommended) =
             (case cached of Some p \<Rightarrow> (pol_enforced p, pol_recommended p) | None \<Rightarrow> ([], []))
       in and_then (local_document vc cd (cm_app manifest) store) (\<lambda>current.
            map_err (\<lambda>m. FoldFailed (cm_app manifest) (FoldedMismatch m))
              (vc_from_value vc (fold_into_json manifest current enforced recommended))))"

definition refresh_managed_config ::
  "'c versioned_config \<Rightarrow> 't codec \<Rightarrow> policy_serde \<Rightarrow> u64 \<Rightarrow> config_manifest \<Rightarrow> 'b policy_client \<Rightarrow>
   ('c, 's) config_store \<times> 'b \<Rightarrow> (policy_client_error + policy_outcome) \<times> ('c, 's) config_store \<times> 'b" where
  "refresh_managed_config vc cd ps now manifest pc st =
     (case st of (store, b) \<Rightarrow>
        (case fetch ps now pc b of
           (Err e, b') \<Rightarrow> (Err e, store, b')
         | (Ok outcome, b') \<Rightarrow>
             (case and_then (local_document vc cd (cm_app manifest) store) (\<lambda>current.
                     map_err (\<lambda>m. FoldFailed (cm_app manifest) (FoldedMismatch m))
                       (vc_from_value vc (fold_into_json manifest current
                          (fst (policy_trees outcome)) (snd (policy_trees outcome))))) of
                Err e \<Rightarrow> (Err e, store, b')
              | Ok v \<Rightarrow> (Ok outcome, set_current_and_notify v store, b'))))"

definition apply_policy_outcome_to_handle ::
  "'c versioned_config \<Rightarrow> 't codec \<Rightarrow> config_manifest \<Rightarrow> policy_outcome \<Rightarrow> ('c, 's) config_store \<Rightarrow>
   (policy_client_error + unit) \<times> ('c, 's) config_store" where
  "apply_policy_outcome_to_handle vc cd manifest outcome store =
     (case map_err (\<lambda>e. FoldFailed (cm_app manifest) (LocalUnreadable e)) (backend_json vc cd store) of
        Err e \<Rightarrow> (Err e, store)
      | Ok current \<Rightarrow>
          (case set_current_json_and_notify vc
                  (fold_into_json manifest current (fst (policy_trees outcome)) (snd (policy_trees outcome))) store of
             (Err e, store') \<Rightarrow> (Err (FoldFailed (cm_app manifest) (FoldedNotApplied e)), store')
           | (Ok u, store') \<Rightarrow> (Ok u, store')))"

section \<open>The roaming document\<close>

definition filter_user_scoped :: "config_manifest \<Rightarrow> json_map \<Rightarrow> json_map" where
  "filter_user_scoped manifest doc =
     (let user_paths = map lf_path (filter (\<lambda>l. fm_scope (lf_field l) = User \<and>
            \<not> fm_local_only (lf_field l) \<and> \<not> fm_secret (lf_field l)) (iter_leaves manifest))
      in filter (\<lambda>e. fst e \<in> set user_paths) doc)"

record roaming_document =
  rd_value :: json_map
  rd_etag :: "string option"

datatype roaming_client_error =
  Conflict | Request string | UnexpectedRoamingStatus nat | InvalidRoamingResponse string

record roaming_client =
  rc_get :: "string \<Rightarrow> http_error + http_response"
  rc_put :: "string \<Rightarrow> string \<Rightarrow> json \<Rightarrow> http_error + http_response"
  rc_base_url :: string
  rc_app :: string

definition roaming_url :: "roaming_client \<Rightarrow> string" where
  "roaming_url rc = trim_end CHR ''/'' (rc_base_url rc) @ ''/v1/config/'' @ rc_app rc"

definition roaming_get ::
  "(bytes \<Rightarrow> string + json_map) \<Rightarrow> roaming_client \<Rightarrow> roaming_client_error + roaming_document" where
  "roaming_get map_from_slice rc =
     and_then (map_err (\<lambda>e. Request (http_error_message e)) (rc_get rc (roaming_url rc))) (\<lambda>resp.
     and_then (map_err InvalidRoamingResponse (hr_body resp)) (\<lambda>bs.
     and_then (if bs = [] then Ok [] else map_err InvalidRoamingResponse (map_from_slice bs)) (\<lambda>v.
     Ok \<lparr>rd_value = v, rd_etag = hr_etag resp\<rparr>)))"

fun classify_put_error :: "http_error \<Rightarrow> roaming_client_error" where
  "classify_put_error (ReqwestError (Some status) m) = (if status = 412 then Conflict else Request m)"
| "classify_put_error e = Request (http_error_message e)"

definition roaming_put ::
  "roaming_client \<Rightarrow> config_manifest \<Rightarrow> json_map \<Rightarrow> string \<Rightarrow> roaming_client_error + unit" where
  "roaming_put rc manifest doc if_match =
     (case rc_put rc (roaming_url rc) if_match (JObj (filter_user_scoped manifest doc)) of
        Err e \<Rightarrow> Err (classify_put_error e)
      | Ok resp \<Rightarrow>
          if hr_status resp = 200 \<or> hr_status resp = 204 then Ok ()
          else Err (UnexpectedRoamingStatus (hr_status resp)))"

section \<open>Facts about merging and folding\<close>

lemma merge_members_lookup:
  "distinct (map fst ov) \<Longrightarrow>
   map_of (merge_members base ov) k =
     (case map_of ov k of
        None \<Rightarrow> map_of base k
      | Some o' \<Rightarrow> (case map_of base k of
            Some b \<Rightarrow> Some (if is_object b \<and> is_object o' then merge_json_objects b o' else o')
          | None \<Rightarrow> Some o'))"
proof (induction ov arbitrary: base)
  case Nil
  show ?case by simp
next
  case (Cons e ov)
  obtain key v where e: "e = (key, v)" by fastforce
  have "map_of ov key = None" using Cons.prems by (simp add: e map_of_eq_None_iff)
  then show ?case
    using Cons by (auto simp: e split: option.splits)
qed

lemma merge_value_at:
  "wf_map ov \<Longrightarrow> value_at ov ss = Some v \<Longrightarrow> value_at (merge_members base ov) ss = Some v"
proof (induction ov ss arbitrary: base rule: value_at.induct)
  case (1 m)
  then show ?case by simp
next
  case (2 m k)
  then have "map_of m k = Some v" "\<not> is_object v"
    by (auto split: option.splits if_splits)
  then show ?case
    using merge_members_lookup [OF bm_wf_distinct [OF wf_map_bm_wf [OF "2.prems"(1)]], of base k]
    by (auto split: option.splits)
next
  case (3 m k k' ks)
  then obtain n where n: "map_of m k = Some (JObj n)" "value_at n (k' # ks) = Some v"
    by (auto split: option.splits json.splits)
  have "wf_map n" using wf_map_lookup [OF "3.prems"(1) n(1)] by (simp add: wf_map_def)
  then have IH: "value_at (merge_members b n) (k' # ks) = Some v" for b
    using "3.IH" [OF n(1) refl] n(2) by blast
  have "map_of (merge_members base m) k =
      (case map_of base k of
         Some bv \<Rightarrow> Some (if is_object bv then merge_json_objects bv (JObj n) else JObj n)
       | None \<Rightarrow> Some (JObj n))"
    using n(1) merge_members_lookup [OF bm_wf_distinct [OF wf_map_bm_wf [OF "3.prems"(1)]], of base k]
    by (simp split: option.split)
  then show ?case
    using IH n(2) by (auto simp: is_object_iff split: option.splits)
qed

lemma bm_insert_all: "(\<forall>e \<in> set m. P (snd e)) \<Longrightarrow> P v \<Longrightarrow> \<forall>e \<in> set (bm_insert k v m). P (snd e)"
  by (induction k v m rule: bm_insert.induct) auto

abbreviation plain_members :: "json_map \<Rightarrow> bool" where
  "plain_members m \<equiv> \<forall>e \<in> set m. wf_json (snd e) \<and> \<not> is_object (snd e)"

lemma flatten_into_values:
  "(\<forall>e \<in> set m. wf_json (snd e)) \<Longrightarrow> plain_members out \<Longrightarrow> plain_members (flatten_into m p out)"
proof (induction m arbitrary: p out rule: flat_entries.induct)
  case 1
  then show ?case by simp
next
  case (2 k v m)
  have v: "wf_json v" and m: "\<forall>e \<in> set m. wf_json (snd e)" using "2.prems"(1) by auto
  have "plain_members (case v of JObj n \<Rightarrow> flatten_into n (dotted p k) out | _ \<Rightarrow> bm_insert (dotted p k) v out)"
  proof (cases "is_object v")
    case True
    then obtain n where n: "v = JObj n" by (auto simp: is_object_iff)
    have "plain_members (flatten_into n (dotted p k) out)"
      using "2.IH"(1) [OF n _ "2.prems"(2)] v by (simp add: n)
    then show ?thesis by (simp add: n)
  next
    case False
    then have "plain_members (bm_insert (dotted p k) v out)"
      using v "2.prems"(2) by (intro bm_insert_all) auto
    then show ?thesis using False by (cases v) simp_all
  qed
  then show ?case unfolding flatten_into_Cons by (rule "2.IH"(2) [OF m])
qed

lemma flatten_values: "wf_map m \<Longrightarrow> map_of (flatten_to_paths (JObj m)) p = Some v \<Longrightarrow> wf_json v \<and> \<not> is_object v"
  using flatten_into_values [of m "[]" "[]"]
  by (auto simp: flatten_to_paths_def wf_map_def dest!: map_of_SomeD)

lemma leaf_kind_not_object: "value_matches_kind v (fm_kind f) \<Longrightarrow> \<not> is_section f \<Longrightarrow> \<not> is_object v"
  by (cases "fm_kind f"; cases v) (auto simp: is_section_def)

text \<open>Manifest defaults that are documents of their own kind: well formed and not objects.\<close>

definition plain_defaults :: "config_manifest \<Rightarrow> bool" where
  "plain_defaults cm \<longleftrightarrow>
     (\<forall>l \<in> set (iter_leaves cm). case fm_default (lf_field l) of
        Some v \<Rightarrow> wf_json v \<and> \<not> is_object v | None \<Rightarrow> True)"

definition fold_input :: "json_map \<Rightarrow> json_map \<Rightarrow> json_map \<Rightarrow> resolution_input" where
  "fold_input m enforced recommended =
     \<lparr>ri_recommended = recommended, ri_config_file = flatten_to_paths (JObj m),
      ri_environment = [], ri_flags = [], ri_builder_overrides = [], ri_enforced = enforced\<rparr>"

lemma leaf_not_section: "wf_manifest cm \<Longrightarrow> l \<in> set (iter_leaves cm) \<Longrightarrow> \<not> is_section (lf_field l)"
  by (auto simp: iter_leaves_segs manifest_segs_def dest: leaf_segs_leaf)

lemma default_for_kind_plain: "\<not> is_section f \<Longrightarrow> wf_json (default_for_kind (fm_kind f)) \<and> \<not> is_object (default_for_kind (fm_kind f))"
  by (cases "fm_kind f") (auto simp: is_section_def split: list.splits)

lemma effective_value_plain:
  assumes cm: "wf_manifest cm" "plain_defaults cm" and l: "l \<in> set (iter_leaves cm)"
    and m: "wf_map m" "wf_map e" "wf_map r"
  shows "wf_json (effective_value (fold_input m e r) l) \<and> \<not> is_object (effective_value (fold_input m e r) l)"
proof -
  let ?i = "fold_input m e r"
  have sec: "\<not> is_section (lf_field l)" using leaf_not_section [OF cm(1) l] .
  have "wf_json v \<and> \<not> is_object v" if "layer_value ?i l x = Some v" for x v
  proof (cases x)
    case LDefault
    then show ?thesis
      using that cm(2) l default_for_kind_plain [OF sec]
      by (auto simp: field_default_def plain_defaults_def split: option.splits)
  next
    case LRecommended
    then have "map_of r (lf_path l) = Some v" "value_matches_kind v (fm_kind (lf_field l))"
      using that by (auto simp: fold_input_def server_tree_drop_reason_recommended_def bind_eq_Some_conv split: if_splits)
    then show ?thesis using wf_map_lookup [OF m(3)] leaf_kind_not_object [OF _ sec] by blast
  next
    case LConfigFile
    then show ?thesis using that flatten_values [OF m(1)] by (auto simp: fold_input_def)
  next
    case LEnforced
    then have "map_of e (lf_path l) = Some v" "value_matches_kind v (fm_kind (lf_field l))"
      using that by (auto simp: fold_input_def server_tree_drop_reason_enforced_def bind_eq_Some_conv split: if_splits)
    then show ?thesis using wf_map_lookup [OF m(2)] leaf_kind_not_object [OF _ sec] by blast
  qed (use that in \<open>simp_all add: fold_input_def\<close>)
  then show ?thesis using effective_layer_spec(1) [of ?i l] by auto
qed

lemma fold_into_json_eq:
  "fold_into_json cm (JObj m) e r =
     JObj (merge_members m (unflatten_fields (cm_fields cm) [] (rs_values (resolve cm (fold_input m e r)))))"
proof -
  let ?vs = "rs_values (resolve cm (fold_input m e r))"
  obtain es where es: "resolved_entries (resolve cm (fold_input m e r)) = Some es"
      "map (\<lambda>e. (re_path e, re_value e)) es = ?vs"
    by (simp add: resolve_entries_eq comp_def)
  have "fold (\<lambda>x. bm_insert (re_path x) (re_value x)) es [] =
      bm_of_list (map (\<lambda>e. (re_path e, re_value e)) es)"
    by (simp add: bm_of_list_def fold_map comp_def)
  also have "\<dots> = ?vs"
    by (simp add: es(2)) (simp add: bm_of_list_id resolve_values bm_of_list_wf)
  finally show ?thesis
    using es(1) by (simp add: fold_into_json_def Let_def fold_input_def unflatten_from_paths_def)
qed

lemma fold_overlay:
  assumes "wf_manifest cm" "plain_defaults cm" "wf_map m" "wf_map e" "wf_map r"
  defines "ov \<equiv> unflatten_fields (cm_fields cm) [] (rs_values (resolve cm (fold_input m e r)))"
  shows "wf_map ov"
    and "(ss, f) \<in> set (manifest_segs cm) \<Longrightarrow>
         value_at ov ss = Some (effective_value (fold_input m e r) \<lparr>lf_path = dot_join ss, lf_field = f\<rparr>)"
    and "k \<notin> fm_key ` set (cm_fields cm) \<Longrightarrow> map_of ov k = None"
proof -
  let ?vs = "rs_values (resolve cm (fold_input m e r))"
  have plain: "\<forall>v \<in> snd ` set ?vs. wf_json v \<and> \<not> is_object v"
  proof
    fix v
    assume "v \<in> snd ` set ?vs"
    then obtain p where "(p, v) \<in> set ?vs" by auto
    then have "map_of ?vs p = Some v"
      by (simp add: resolve_values bm_of_list_wf bm_wf_distinct)
    then obtain l where "l \<in> set (iter_leaves cm)" "v = effective_value (fold_input m e r) l"
      by (auto simp: resolve_values bm_of_list_lookup dest!: map_of_SomeD)
    then show "wf_json v \<and> \<not> is_object v" using effective_value_plain assms by blast
  qed
  show "wf_map ov" unfolding ov_def using unflatten_ok [OF assms(1) plain] by blast
  show "value_at ov ss = Some (effective_value (fold_input m e r) \<lparr>lf_path = dot_join ss, lf_field = f\<rparr>)"
    if sf: "(ss, f) \<in> set (manifest_segs cm)"
  proof -
    let ?l = "\<lparr>lf_path = dot_join ss, lf_field = f\<rparr>"
    have "?l \<in> set (iter_leaves cm)" using sf assms(1) by (force simp: iter_leaves_segs)
    from resolve_lookup(1) [OF leaf_paths_distinct [OF assms(1)] this, of "fold_input m e r"]
    have "map_of ?vs (dot_join ss) = Some (effective_value (fold_input m e r) ?l)"
      by (simp add: resolved_value_def)
    moreover have "ss \<in> segs_of (cm_fields cm)"
      using sf by (force simp: segs_of_def manifest_segs_def)
    ultimately show ?thesis
      using value_at_unflatten [OF assms(1), of "[]" ?vs ss] plain by (simp add: ov_def)
  qed
  show "map_of ov k = None" if "k \<notin> fm_key ` set (cm_fields cm)"
  proof -
    have "find (\<lambda>f. fm_key f = k) (cm_fields cm) = None"
      using that by (auto simp: find_None_iff)
    then show ?thesis by (simp add: ov_def unflatten_lookup [OF assms(1)])
  qed
qed

section \<open>Properties\<close>

text \<open>
  Folding a policy into a configuration document: at the place of every leaf the folded document
  holds the value the resolver chooses, so an acceptable enforced value is there whatever the
  document held, and top-level members the manifest does not declare (such as the schema version)
  are kept as they were.
\<close>

theorem fold_into_json_correct:
  assumes "wf_manifest cm" "plain_defaults cm" "wf_map m" "wf_map e" "wf_map r"
  shows "\<exists>m'. fold_into_json cm (JObj m) e r = JObj m' \<and>
           (\<forall>(ss, f) \<in> set (manifest_segs cm).
              value_at m' ss = resolved_value (resolve cm (fold_input m e r)) (dot_join ss) \<and>
              (\<forall>v. map_of e (dot_join ss) = Some v \<and> server_tree_drop_reason_enforced f v = None \<longrightarrow>
                   value_at m' ss = Some v)) \<and>
           (\<forall>k. k \<notin> fm_key ` set (cm_fields cm) \<longrightarrow> map_of m' k = map_of m k)"
proof -
  let ?i = "fold_input m e r"
  define ov where "ov = unflatten_fields (cm_fields cm) [] (rs_values (resolve cm ?i))"
  note overlay = fold_overlay [OF assms, folded ov_def]
  have d: "distinct (map fst ov)" by (rule bm_wf_distinct [OF wf_map_bm_wf [OF overlay(1)]])
  have leaf: "value_at (merge_members m ov) ss = resolved_value (resolve cm ?i) (dot_join ss) \<and>
      (\<forall>v. map_of e (dot_join ss) = Some v \<and> server_tree_drop_reason_enforced f v = None \<longrightarrow>
         value_at (merge_members m ov) ss = Some v)"
    if sf: "(ss, f) \<in> set (manifest_segs cm)" for ss f
  proof -
    let ?l = "\<lparr>lf_path = dot_join ss, lf_field = f\<rparr>"
    have l: "?l \<in> set (iter_leaves cm)" using sf assms(1) by (force simp: iter_leaves_segs)
    have va: "value_at (merge_members m ov) ss = Some (effective_value ?i ?l)"
      by (rule merge_value_at [OF overlay(1) overlay(2) [OF sf]])
    have "effective_value ?i ?l = v"
      if "map_of e (dot_join ss) = Some v" "server_tree_drop_reason_enforced f v = None" for v
    proof -
      have v: "layer_value ?i ?l LEnforced = Some v" using that by (simp add: fold_input_def)
      moreover have "y \<le> LEnforced" for y by (cases y) (simp_all add: less_eq_layer_def)
      ultimately have "effective_layer ?i ?l = LEnforced" by (intro effective_layer_eqI) auto
      then show ?thesis using v by simp
    qed
    then show ?thesis
      using va resolve_lookup(1) [OF leaf_paths_distinct [OF assms(1)] l, of ?i] by auto
  qed
  have "fold_into_json cm (JObj m) e r = JObj (merge_members m ov)"
    by (simp add: fold_into_json_eq ov_def)
  moreover have "map_of (merge_members m ov) k = map_of m k" if "k \<notin> fm_key ` set (cm_fields cm)" for k
    using merge_members_lookup [OF d, of m k] overlay(3) [OF that] by simp
  ultimately show ?thesis using leaf by blast
qed

theorem fold_into_json_correct_witness:
  "\<exists>m'. fold_into_json sample_manifest (JObj sample_doc) [(''net.url'', JStr ''org'')] [] = JObj m' \<and>
        value_at m' [''net'', ''url''] = Some (JStr ''org'')"
proof -
  have hyps: "plain_defaults sample_manifest" "wf_map sample_doc" "wf_map [(''net.url'', JStr ''org'')]" "wf_map []"
    by (simp_all add: plain_defaults_def sample_leaves sample_field_def sample_local_field_def wf_map_def)
      (code_simp+)
  have leaf: "([''net'', ''url''], sample_field ''url'' KUrl) \<in> set (manifest_segs sample_manifest)"
    by code_simp
  have ok: "server_tree_drop_reason_enforced (sample_field ''url'' KUrl) (JStr ''org'') = None"
    by code_simp
  show ?thesis
    using fold_into_json_correct [OF sample_manifest_wf hyps] leaf ok by fastforce
qed

text \<open>
  Refreshing never writes the configuration file and never depends on what a previous policy put
  into the running value: the result is a function of the stored document and the outcome, so a
  field that a withdrawn policy set falls back to the local value or the default. With no policy in
  force (unmanaged or denied) no leaf is resolved from a server layer.
\<close>

theorem refresh_ignores_current:
  assumes "wf_manifest cm"
  shows "(case refresh_managed_config vc cd ps now cm pc (store, b) of
            (res, store', b') \<Rightarrow>
              cs_backend store' = cs_backend store \<and>
              (\<forall>c. refresh_managed_config vc cd ps now cm pc (store\<lparr>cs_current := c\<rparr>, b) =
                     (res, (case res of Ok _ \<Rightarrow> store' | Err _ \<Rightarrow> store\<lparr>cs_current := c\<rparr>), b'))) \<and>
         (\<forall>outcome \<in> {Unmanaged, Denied}. \<forall>m. \<forall>l \<in> set (iter_leaves cm).
            case resolved_provenance
                   (resolve cm (fold_input m (fst (policy_trees outcome)) (snd (policy_trees outcome)))) (lf_path l) of
              Some p \<Rightarrow> pv_layer p \<in> {LDefault, LConfigFile} \<and> \<not> pv_locked p
            | None \<Rightarrow> False)"
proof (rule conjI)
  have "load vc cd (store\<lparr>cs_current := c\<rparr>) = load vc cd store" for c
    by (simp add: load_def cong: if_cong)
  then have "local_document vc cd app (store\<lparr>cs_current := c\<rparr>) = local_document vc cd app store" for app c
    by (simp add: local_document_def)
  then show "case refresh_managed_config vc cd ps now cm pc (store, b) of
            (res, store', b') \<Rightarrow>
              cs_backend store' = cs_backend store \<and>
              (\<forall>c. refresh_managed_config vc cd ps now cm pc (store\<lparr>cs_current := c\<rparr>, b) =
                     (res, (case res of Ok _ \<Rightarrow> store' | Err _ \<Rightarrow> store\<lparr>cs_current := c\<rparr>), b'))"
    by (auto simp: refresh_managed_config_def set_current_and_notify_def notify_def
        split: prod.splits sum.splits)
  have "effective_layer (fold_input m [] []) l \<in> {LDefault, LConfigFile}" for m l
    using effective_layer_spec(1) [of "fold_input m [] []" l]
    by (cases "effective_layer (fold_input m [] []) l") (simp_all add: fold_input_def)
  then have layer: "effective_layer (fold_input m [] []) l = LDefault \<or> effective_layer (fold_input m [] []) l = LConfigFile" for m l
    by auto
  show "\<forall>outcome \<in> {Unmanaged, Denied}. \<forall>m. \<forall>l \<in> set (iter_leaves cm).
            case resolved_provenance
                   (resolve cm (fold_input m (fst (policy_trees outcome)) (snd (policy_trees outcome)))) (lf_path l) of
              Some p \<Rightarrow> pv_layer p \<in> {LDefault, LConfigFile} \<and> \<not> pv_locked p
            | None \<Rightarrow> False"
  proof (intro ballI allI)
    fix outcome m l
    assume o: "outcome \<in> {Unmanaged, Denied}" and l: "l \<in> set (iter_leaves cm)"
    have "policy_trees outcome = ([], [])" using o by (auto simp: policy_trees_def)
    then show "case resolved_provenance
                   (resolve cm (fold_input m (fst (policy_trees outcome)) (snd (policy_trees outcome)))) (lf_path l) of
              Some p \<Rightarrow> pv_layer p \<in> {LDefault, LConfigFile} \<and> \<not> pv_locked p
            | None \<Rightarrow> False"
      using resolve_lookup(2) [OF leaf_paths_distinct [OF assms] l] layer [of m l]
      by (auto simp: provenance_new_def)
  qed
qed

theorem refresh_ignores_current_witness:
  "case resolved_provenance (resolve sample_manifest (fold_input sample_doc [] [])) ''home'' of
     Some p \<Rightarrow> pv_layer p \<in> {LDefault, LConfigFile} \<and> \<not> pv_locked p | None \<Rightarrow> False"
  using conjunct2 [OF refresh_ignores_current [OF sample_manifest_wf]]
  by (auto simp: sample_leaves policy_trees_def)

lemma fetch_failure_by_class:
  assumes "pc_http pc (policy_url pc) (Option.bind (cached_or_none ps pc b) ce_etag) = Err e"
  shows "case classify e of
           Unauthorized \<Rightarrow> fetch ps now pc b = (Ok Denied, b)
         | Forbidden \<Rightarrow> fetch ps now pc b = (Ok Denied, b)
         | NotFound \<Rightarrow>
             fetch ps now pc b =
               (case cb_write (pc_cache pc) [] b of
                  (Ok _, b') \<Rightarrow> (Ok Unmanaged, b') | (Err x, b') \<Rightarrow> (Err (Cache x), b'))
         | ClientFailure status \<Rightarrow>
             fetch ps now pc b = (Err (ClientError (pc_app pc) status (http_error_message e)), b) \<and>
             status \<notin> {401, 403, 404} \<and> \<not> (500 \<le> status \<and> status < 600)
         | ServerOrNetwork \<Rightarrow>
             snd (fetch ps now pc b) = b \<and>
             (\<forall>pol stale. fst (fetch ps now pc b) = Ok (FromCache pol stale) \<longleftrightarrow>
                (\<exists>entry. cache_read ps (pc_cache pc) b = Ok (Some entry) \<and>
                   ps_policy_from_value ps (ce_policy entry) = Ok pol \<and>
                   (stale \<longleftrightarrow> unat (pol_max_cache_age_secs pol) < unat now - unat (ce_fetched_at_epoch_secs entry)) \<and>
                   (stale \<longrightarrow> pol_stale_action pol = Warn))) \<and>
             (\<forall>x. fst (fetch ps now pc b) = Ok x \<longrightarrow> (\<exists>pol stale. x = FromCache pol stale))"
proof -
  have age: "unat (if f \<le> now then now - f else 0) = unat now - unat f" for f :: u64
    by (simp add: word_le_nat_alt unat_sub)
  have fetch_eq: "fetch ps now pc b = handle_error ps now pc e (cached_or_none ps pc b) b"
    using assms by (simp add: fetch_def fetch_with_cached_def)
  have fb: "fall_back_to_cache ps now app msg cached = Ok x \<longleftrightarrow>
      (\<exists>entry pol stale. cached = Some entry \<and> ps_policy_from_value ps (ce_policy entry) = Ok pol \<and>
         x = FromCache pol stale \<and>
         (stale \<longleftrightarrow> unat (pol_max_cache_age_secs pol) < unat now - unat (ce_fetched_at_epoch_secs entry)) \<and>
         (stale \<longrightarrow> pol_stale_action pol = Warn))" for app msg cached x
    unfolding fall_back_to_cache_def Let_def word_le_nat_alt [of _ "pol_max_cache_age_secs _"] age
    by (auto split: option.splits sum.splits stale_action.splits if_splits)
  show ?thesis
  proof (cases "classify e")
    case ServerOrNetwork
    have "fst (fetch ps now pc b) = fall_back_to_cache ps now (pc_app pc) (http_error_message e) (cached_or_none ps pc b)"
        "snd (fetch ps now pc b) = b"
      using ServerOrNetwork by (simp_all add: fetch_eq handle_error_def)
    then show ?thesis
      using ServerOrNetwork by (auto simp: fb cached_or_none_def split: sum.splits)
  next
    case (ClientFailure status)
    then show ?thesis
      by (cases e rule: classify.cases) (auto simp: fetch_eq handle_error_def split: if_splits)
  qed (auto simp: fetch_eq handle_error_def cache_clear_def split: prod.splits sum.splits)
qed

text \<open>The kinds of failure, by what the request came back with.\<close>

definition identity_rejected :: "http_error \<Rightarrow> bool" where
  "identity_rejected e \<longleftrightarrow>
     (\<exists>m. e = AuthError m) \<or> (\<exists>status m. e = ReqwestError (Some status) m \<and> status \<in> {401, 403})"

definition server_unavailable :: "http_error \<Rightarrow> bool" where
  "server_unavailable e \<longleftrightarrow>
     (\<exists>m. e = OtherError m) \<or> (\<exists>m. e = ReqwestError None m) \<or>
     (\<exists>status m. e = ReqwestError (Some status) m \<and> 500 \<le> status \<and> status < 600)"

definition served_from_cache ::
  "policy_serde \<Rightarrow> u64 \<Rightarrow> 'b policy_client \<Rightarrow> 'b \<Rightarrow> policy \<Rightarrow> bool \<Rightarrow> bool" where
  "served_from_cache ps now pc b pol stale \<longleftrightarrow>
     (\<exists>entry. cache_read ps (pc_cache pc) b = Ok (Some entry) \<and>
        ps_policy_from_value ps (ce_policy entry) = Ok pol \<and>
        (stale \<longleftrightarrow> unat (pol_max_cache_age_secs pol) < unat now - unat (ce_fetched_at_epoch_secs entry)) \<and>
        (stale \<longrightarrow> pol_stale_action pol = Warn))"

text \<open>
  The failure mapping of a fetch. A rejected identity (an authentication error, 401 or 403) is
  always \<open>Denied\<close> and neither reads nor writes the cache, so a revoked user cannot keep running on
  a cached policy; 404 is the only outcome that clears the cache; a cached policy is served only
  when the server is unreachable or answers 5xx, only within its age limit or flagged as stale when
  its own rule is to warn; any other client error is an error whatever is cached.
\<close>

theorem fetch_failure_mapping:
  assumes "pc_http pc (policy_url pc) (Option.bind (cached_or_none ps pc b) ce_etag) = Err e"
  shows "(identity_rejected e \<longrightarrow> fetch ps now pc b = (Ok Denied, b)) \<and>
         (\<forall>m. e = ReqwestError (Some 404) m \<longrightarrow>
            fetch ps now pc b =
              (case cb_write (pc_cache pc) [] b of
                 (Ok _, b') \<Rightarrow> (Ok Unmanaged, b') | (Err x, b') \<Rightarrow> (Err (Cache x), b'))) \<and>
         (server_unavailable e \<longrightarrow>
            snd (fetch ps now pc b) = b \<and>
            (\<forall>x. fst (fetch ps now pc b) = Ok x \<longleftrightarrow>
               (\<exists>pol stale. x = FromCache pol stale \<and> served_from_cache ps now pc b pol stale))) \<and>
         (\<forall>status m. e = ReqwestError (Some status) m \<and> status \<notin> {401, 403, 404} \<and>
                     \<not> (500 \<le> status \<and> status < 600) \<longrightarrow>
            fetch ps now pc b = (Err (ClientError (pc_app pc) status (http_error_message e)), b))"
proof (intro conjI impI allI; (elim conjE)?)
  note by_class = fetch_failure_by_class [OF assms, of now]
  show "fetch ps now pc b = (Ok Denied, b)" if "identity_rejected e"
    using by_class that by (auto simp: identity_rejected_def)
  show "fetch ps now pc b =
      (case cb_write (pc_cache pc) [] b of
         (Ok _, b') \<Rightarrow> (Ok Unmanaged, b') | (Err x, b') \<Rightarrow> (Err (Cache x), b'))"
    if "e = ReqwestError (Some 404) m" for m
    using by_class that by simp
  have unavailable: "classify e = ServerOrNetwork" if "server_unavailable e"
    using that by (auto simp: server_unavailable_def)
  show "snd (fetch ps now pc b) = b" if "server_unavailable e"
    using by_class unavailable [OF that] by simp
  show "fst (fetch ps now pc b) = Ok x \<longleftrightarrow>
      (\<exists>pol stale. x = FromCache pol stale \<and> served_from_cache ps now pc b pol stale)"
    if "server_unavailable e" for x
    using by_class unavailable [OF that] unfolding served_from_cache_def by auto
  show "fetch ps now pc b = (Err (ClientError (pc_app pc) status (http_error_message e)), b)"
    if "e = ReqwestError (Some status) m" "status \<notin> {401, 403, 404}" "\<not> (500 \<le> status \<and> status < 600)" for status m
    using by_class that by auto
qed

definition sample_serde :: policy_serde where
  "sample_serde =
     \<lparr>ps_entry_from_slice = (\<lambda>_. Err ''entry''), ps_entry_to_vec = (\<lambda>_. Err ''entry''),
      ps_json_from_slice = (\<lambda>_. Err ''json''), ps_policy_from_value = (\<lambda>_. Err ''policy'')\<rparr>"

definition sample_client :: "nat \<Rightarrow> in_memory_backend policy_client" where
  "sample_client status =
     \<lparr>pc_http = (\<lambda>_ _. Err (ReqwestError (Some status) ''status'')), pc_cache = in_memory_vtable,
      pc_base_url = ''https://c/'', pc_app = ''app''\<rparr>"

theorem fetch_failure_mapping_witness:
  "fetch sample_serde 0 (sample_client 401) (in_memory_with_bytes ''x'') = (Ok Denied, in_memory_with_bytes ''x'')"
  using fetch_failure_mapping [of "sample_client 401" sample_serde "in_memory_with_bytes ''x''"
      "ReqwestError (Some 401) ''status''" 0]
  by (simp add: sample_client_def identity_rejected_def)

text \<open>
  The cache agrees with the last answer of the server: after a fetch that reports a fresh policy
  the cached policy is that one, and after one that reports \<open>Unmanaged\<close> there is no cached policy
  left (unless the cache cannot be read at all), so rules that no longer apply are not enforced from
  the cache at the next start. The hypotheses are the backend contract and that decoding inverts
  encoding for cache entries.
\<close>

theorem fetch_cache_agrees:
  assumes "byte_store (pc_cache pc)"
    and "\<And>en bs. ps_entry_to_vec ps en = Ok bs \<Longrightarrow> bs \<noteq> [] \<and> ps_entry_from_slice ps bs = Ok en"
    and "fetch ps now pc b = (Ok outcome, b')" "cb_read (pc_cache pc) b' = Ok bytes"
  shows "(\<forall>pol. outcome = Fresh pol \<longrightarrow> cached_policy ps pc b' = Ok (Some pol)) \<and>
         (outcome = Unmanaged \<longrightarrow> cached_policy ps pc b' = Ok None) \<and>
         (outcome = Denied \<longrightarrow> b' = b)"
proof (intro conjI allI impI)
  have written: "cache_read ps (pc_cache pc) b' = Ok (Some en)"
    if w: "cache_write ps (pc_cache pc) en b = (Ok (), b')" for en
  proof -
    obtain bs where bs: "ps_entry_to_vec ps en = Ok bs" "cb_write (pc_cache pc) bs b = (Ok (), b')"
      using w by (cases "ps_entry_to_vec ps en") (auto simp: cache_write_def)
    then have "cb_read (pc_cache pc) b' = Ok bs"
      using byte_store.write_ok [OF assms(1) bs(2)] assms(4) by auto
    then show ?thesis using assms(2) [OF bs(1)] by (simp add: cache_read_def)
  qed
  show "cached_policy ps pc b' = Ok (Some pol)" if out: "outcome = Fresh pol" for pol
  proof -
    obtain en where "cache_write ps (pc_cache pc) en b = (Ok (), b')" "ps_policy_from_value ps (ce_policy en) = Ok pol"
      using assms(3) out
      by (auto simp: fetch_def fetch_with_cached_def handle_response_def handle_error_def fall_back_to_cache_def Let_def
          split: sum.splits if_splits option.splits prod.splits http_failure_class.splits stale_action.splits)
    then show ?thesis using written by (auto simp: cached_policy_def)
  qed
  show "cached_policy ps pc b' = Ok None" if out: "outcome = Unmanaged"
  proof -
    have "cb_write (pc_cache pc) [] b = (Ok (), b')"
      using assms(3) out
      by (auto simp: fetch_def fetch_with_cached_def handle_response_def handle_error_def fall_back_to_cache_def
          cache_clear_def Let_def
          split: sum.splits if_splits option.splits prod.splits http_failure_class.splits stale_action.splits)
    then have "cb_read (pc_cache pc) b' = Ok []"
      using byte_store.write_ok [OF assms(1)] assms(4) by fastforce
    then show ?thesis by (simp add: cached_policy_def cache_read_def)
  qed
  show "b' = b" if "outcome = Denied"
    using assms(3) that
    by (auto simp: fetch_def fetch_with_cached_def handle_response_def handle_error_def fall_back_to_cache_def
        cache_clear_def Let_def
        split: sum.splits if_splits option.splits prod.splits http_failure_class.splits stale_action.splits)
qed

theorem fetch_cache_agrees_witness:
  "cached_policy sample_serde (sample_client 404)
     (snd (fetch sample_serde 0 (sample_client 404) (in_memory_with_bytes ''x''))) = Ok None"
proof -
  let ?pc = "sample_client 404" and ?b = "in_memory_with_bytes ''x''"
  have f: "fetch sample_serde 0 ?pc ?b = (Ok Unmanaged, in_memory_with_bytes [])"
    by (simp add: fetch_def fetch_with_cached_def handle_error_def cache_clear_def sample_client_def
        in_memory_vtable_def in_memory_write_def in_memory_with_bytes_def)
  have "byte_store (pc_cache ?pc)" using in_memory.byte_store_axioms by (simp add: sample_client_def)
  moreover have "cb_read (pc_cache ?pc) (in_memory_with_bytes []) = Ok []"
    by (simp add: sample_client_def in_memory_vtable_def in_memory_with_bytes_def)
  ultimately show ?thesis
    using fetch_cache_agrees [OF _ _ f] f by (simp add: sample_serde_def)
qed

text \<open>
  The roaming write sends a sub-document: exactly the entries of the caller's document whose path
  is a leaf declared for the user's scope that is neither secret nor local to the machine. Nothing
  else reaches the server, whatever the caller passes in.
\<close>

theorem roaming_put_sends_user_scope_only:
  "roaming_put rc cm doc if_match =
     (case rc_put rc (roaming_url rc) if_match (JObj (filter_user_scoped cm doc)) of
        Ok resp \<Rightarrow> if hr_status resp \<in> {200, 204} then Ok () else Err (UnexpectedRoamingStatus (hr_status resp))
      | Err e \<Rightarrow> Err (classify_put_error e)) \<and>
   map_of (filter_user_scoped cm doc) p =
     (if (\<exists>l \<in> set (iter_leaves cm). lf_path l = p \<and> fm_scope (lf_field l) = User \<and>
            \<not> fm_local_only (lf_field l) \<and> \<not> fm_secret (lf_field l))
      then map_of doc p else None)"
proof -
  let ?U = "lf_path ` {l \<in> set (iter_leaves cm). fm_scope (lf_field l) = User \<and>
            \<not> fm_local_only (lf_field l) \<and> \<not> fm_secret (lf_field l)}"
  have "filter_user_scoped cm doc = filter (\<lambda>e. fst e \<in> ?U) doc"
    by (simp add: filter_user_scoped_def Let_def)
  then have "map_of (filter_user_scoped cm doc) p = (if p \<in> ?U then map_of doc p else None)"
    using map_of_filter_key [of "\<lambda>k. k \<in> ?U" doc p] by simp
  moreover have "p \<in> ?U \<longleftrightarrow> (\<exists>l \<in> set (iter_leaves cm). lf_path l = p \<and> fm_scope (lf_field l) = User \<and>
            \<not> fm_local_only (lf_field l) \<and> \<not> fm_secret (lf_field l))"
    by auto
  ultimately show ?thesis
    by (simp add: roaming_put_def split: sum.splits)
qed

end
