(* ===== verification/Self_Release.thy ===== *)
theory Self_Release
  imports Install_Receipt Managed
begin

text \<open>
  Finding, verifying and unpacking a release: \<open>self_install/policy.rs\<close>, \<open>release.rs\<close> and
  \<open>archive.rs\<close>.

  Third-party code is a parameter: the \<open>semver\<close> crate is a linear order with conversions, the HTTP
  client a function from requests to answers (indexed by the system-call counter, so that two equal
  requests may be answered differently), serde's decoding of the answers, SHA-256, \<open>minisign\<close>, and
  the readers of the two archive formats. Running a binary is a function of the file. Every request
  made is recorded on the disk, which is what the facts about tokens and plain HTTP speak about.
\<close>

section \<open>Versions, channels and the policy of an organisation\<close>

record 'v semver =
  sv_parse :: "string \<Rightarrow> string + 'v"
  sv_show :: "'v \<Rightarrow> string"
  sv_pre_empty :: "'v \<Rightarrow> bool"

definition trim_v :: "string \<Rightarrow> string" where
  "trim_v s = dropWhile (\<lambda>c. c = CHR ''v'') s"

datatype 'v channel = ChStable | ChLatest | ChExact 'v

datatype request_problem =
    NotAChannel string string
  | RunningVersion string string
  | BadBaseUrl string string
  | FromWithTarget
  | SystemWithBinDir

definition channel_parse :: "'v semver \<Rightarrow> string \<Rightarrow> request_problem + 'v channel" where
  "channel_parse sv raw =
     (let other = str_trim raw
      in if other = ''stable'' then Ok ChStable
         else if other = ''latest'' then Ok ChLatest
         else map_err (NotAChannel other) (map_sum id ChExact (sv_parse sv (trim_v other))))"

fun channel_name :: "'v channel \<Rightarrow> string option" where
  "channel_name ChStable = Some ''stable''"
| "channel_name ChLatest = Some ''latest''"
| "channel_name (ChExact _) = None"

definition KEY_ENABLED :: string where "KEY_ENABLED = ''self_update.enabled''"
definition KEY_CHANNEL :: string where "KEY_CHANNEL = ''self_update.channel''"
definition KEY_BASE_URL :: string where "KEY_BASE_URL = ''self_update.base_url''"
definition KEY_MINIMUM_VERSION :: string where "KEY_MINIMUM_VERSION = ''self_update.minimum_version''"

record 'v self_update_policy =
  up_enabled :: "bool option"
  up_channel :: "string option"
  up_base_url :: "string option"
  up_minimum_version :: "'v option"
  up_malformed :: "string list"

definition no_update_policy :: "'v self_update_policy" where
  "no_update_policy =
     \<lparr>up_enabled = None, up_channel = None, up_base_url = None, up_minimum_version = None, up_malformed = []\<rparr>"

definition update_policy_of :: "'v semver \<Rightarrow> json_map \<Rightarrow> 'v self_update_policy" where
  "update_policy_of sv enforced =
     (let (enabled, bad1) =
            (case map_of enforced KEY_ENABLED of
               None \<Rightarrow> (None, []) | Some (JBool b) \<Rightarrow> (Some b, []) | Some _ \<Rightarrow> (Some False, [KEY_ENABLED]));
          (channel, bad2) =
            (case map_of enforced KEY_CHANNEL of
               None \<Rightarrow> (None, [])
             | Some (JStr s) \<Rightarrow> if s = ''stable'' \<or> s = ''latest'' then (Some s, []) else (None, [KEY_CHANNEL])
             | Some _ \<Rightarrow> (None, [KEY_CHANNEL]));
          (base, bad3) =
            (case map_of enforced KEY_BASE_URL of
               None \<Rightarrow> (None, [])
             | Some (JStr s) \<Rightarrow> if check_https s then (Some s, []) else (None, [KEY_BASE_URL])
             | Some _ \<Rightarrow> (None, [KEY_BASE_URL]));
          (minimum, bad4) =
            (case map_of enforced KEY_MINIMUM_VERSION of
               None \<Rightarrow> (None, [])
             | Some (JStr s) \<Rightarrow> (case sv_parse sv (trim_v s) of
                 Ok v \<Rightarrow> (Some v, []) | Err _ \<Rightarrow> (None, [KEY_MINIMUM_VERSION]))
             | Some _ \<Rightarrow> (None, [KEY_MINIMUM_VERSION]))
      in \<lparr>up_enabled = enabled, up_channel = channel, up_base_url = base, up_minimum_version = minimum,
          up_malformed = bad1 @ bad2 @ bad3 @ bad4\<rparr>)"

definition allows_update :: "'v self_update_policy \<Rightarrow> bool" where
  "allows_update p \<longleftrightarrow> up_enabled p \<noteq> Some False"

section \<open>Archives\<close>

definition SUMS_FILE :: string where "SUMS_FILE = ''SHA256SUMS''"
definition SIGNATURE_FILE :: string where "SIGNATURE_FILE = ''SHA256SUMS.minisig''"

datatype archive_error =
    ArchiveIo path io_error
  | NotListed string
  | Mismatch string string string
  | BadSignature string
  | Unsigned string
  | BadPublicKey string
  | UnsafeEntry path string
  | MissingBinary path string
  | UnknownFormat path
  | Corrupt path string

record tar_entry =
  te_name :: string
  te_is_file :: bool
  te_data :: "string + bytes"

record zip_entry =
  ze_name :: "string + string"
  ze_enclosed :: bool
  ze_is_file :: bool
  ze_open :: "string + (string + bytes)"

datatype spawn_result = Exited bool string string | TextBusy | SpawnError string

record archive_tools =
  at_sha256 :: "bytes \<Rightarrow> string"
  at_key_decode :: "string \<Rightarrow> string + string"
  at_key_from_base64 :: "string \<Rightarrow> string + string"
  at_signature_decode :: "string \<Rightarrow> string + string"
  at_verify :: "string \<Rightarrow> bytes \<Rightarrow> string \<Rightarrow> string + unit"
  at_tar :: "bytes \<Rightarrow> string + (string + tar_entry) list"
  at_zip :: "bytes \<Rightarrow> string + (string + zip_entry) list"
  at_spawn :: "node option \<Rightarrow> nat \<Rightarrow> spawn_result"

definition sha256_file :: "machine \<Rightarrow> archive_tools \<Rightarrow> path \<Rightarrow> (archive_error, string) op" where
  "sha256_file m tools p = op_bind (op_map_err (ArchiveIo p) (fs_read m p)) (\<lambda>bs. op_ok (at_sha256 tools bs))"

definition newline_char :: char where
  "newline_char = CHR 0x0A"

definition str_lines :: "string \<Rightarrow> string list" where
  "str_lines s =
     (let ls = str_split newline_char s
      in map (\<lambda>l. if l \<noteq> [] \<and> last l = CHR 0x0D then butlast l else l) (butlast ls) @
         (if last ls = [] then [] else [last ls]))"

definition is_ascii_hexdigit :: "char \<Rightarrow> bool" where
  "is_ascii_hexdigit c \<longleftrightarrow> (let n = (of_char c :: nat) in 48 \<le> n \<and> n \<le> 57 \<or> 65 \<le> n \<and> n \<le> 70 \<or> 97 \<le> n \<and> n \<le> 102)"

definition digest_on_line :: "string \<Rightarrow> string \<Rightarrow> string option" where
  "digest_on_line asset line =
     (let l = rev (dropWhile is_ws (rev line));
          hash = takeWhile (\<lambda>c. \<not> is_ws c) l;
          rest = dropWhile (\<lambda>c. \<not> is_ws c) l
      in if rest = [] then None
         else
           let name = dropWhile is_ws (tl rest);
               name = (if starts_with ''*'' name then tl name else name)
           in if name = asset \<and> length hash = 64 \<and> list_all is_ascii_hexdigit hash then Some (map ascii_lower hash) else None)"

definition expected_digest :: "string \<Rightarrow> string \<Rightarrow> string option" where
  "expected_digest listing asset = find_map (digest_on_line asset) (str_lines listing)"

definition verify_checksum :: "machine \<Rightarrow> archive_tools \<Rightarrow> path \<Rightarrow> string \<Rightarrow> string \<Rightarrow> (archive_error, unit) op" where
  "verify_checksum m tools archive asset listing =
     (case expected_digest listing asset of
        None \<Rightarrow> op_err (NotListed asset)
      | Some expected \<Rightarrow>
          op_bind (sha256_file m tools archive) (\<lambda>actual.
          if actual \<noteq> expected then op_err (Mismatch asset expected actual) else op_ok ()))"

definition parse_key :: "archive_tools \<Rightarrow> string \<Rightarrow> string + string" where
  "parse_key tools public_key =
     (let key = str_trim public_key
      in if newline_char \<in> set key then at_key_decode tools key else at_key_from_base64 tools key)"

definition verify_signature :: "archive_tools \<Rightarrow> bytes \<Rightarrow> string \<Rightarrow> string \<Rightarrow> archive_error + unit" where
  "verify_signature tools listing sig public_key =
     and_then (map_err BadPublicKey (parse_key tools public_key)) (\<lambda>key.
     and_then (map_err BadSignature (at_signature_decode tools sig)) (\<lambda>s.
     map_err BadSignature (at_verify tools key listing s)))"

definition check_public_key :: "archive_tools \<Rightarrow> string \<Rightarrow> string + unit" where
  "check_public_key tools public_key = map_sum id (\<lambda>_. ()) (parse_key tools public_key)"

definition slashes :: "string \<Rightarrow> string" where
  "slashes s = map (\<lambda>c. if c = CHR 0x5C then CHR ''/'' else c) s"

definition is_safe_entry :: "string \<Rightarrow> bool" where
  "is_safe_entry name \<longleftrightarrow>
     \<not> (name = [] \<or> starts_with ''/'' name \<or> hd name = CHR 0x5C \<or> CHR '':'' \<in> set name) \<and>
     list_all (\<lambda>c. c \<noteq> ''..'') (str_split (CHR ''/'') (slashes name))"

definition names_binary :: "string \<Rightarrow> string \<Rightarrow> bool" where
  "names_binary name binary =
     (case filter (\<lambda>p. p \<noteq> [] \<and> p \<noteq> ''.'') (str_split (CHR ''/'') (slashes name)) of
        [f] \<Rightarrow> f = binary
      | [_, f] \<Rightarrow> f = binary
      | _ \<Rightarrow> False)"

text \<open>The first pass over a tar archive: every entry can be read and has a safe name.\<close>

fun tar_names_safe :: "path \<Rightarrow> (string + tar_entry) list \<Rightarrow> archive_error + unit" where
  "tar_names_safe archive [] = Ok ()"
| "tar_names_safe archive (Err e # es) = Err (Corrupt archive e)"
| "tar_names_safe archive (Ok en # es) =
     (if is_safe_entry (te_name en) then tar_names_safe archive es else Err (UnsafeEntry archive (te_name en)))"

text \<open>The second pass: the first regular file that is the binary.\<close>

fun tar_find :: "path \<Rightarrow> string \<Rightarrow> (string + tar_entry) list \<Rightarrow> archive_error + tar_entry option" where
  "tar_find archive binary [] = Ok None"
| "tar_find archive binary (Err e # es) = Err (Corrupt archive e)"
| "tar_find archive binary (Ok en # es) =
     (if names_binary (te_name en) binary \<and> te_is_file en then Ok (Some en) else tar_find archive binary es)"

text \<open>\<open>File::create\<close> and \<open>io::copy\<close>: a copy that stops leaves an incomplete file.\<close>

definition write_out :: "machine \<Rightarrow> path \<Rightarrow> path \<Rightarrow> string + bytes \<Rightarrow> (archive_error, unit) op" where
  "write_out m archive out body =
     op_bind (op_map_err (ArchiveIo out) (fs_write m out [])) (\<lambda>_.
     case body of
       Err e \<Rightarrow> op_err (Corrupt archive e)
     | Ok bs \<Rightarrow> op_map_err (\<lambda>e. Corrupt archive (ie_text e)) (fs_write m out bs))"

definition extract_tar_gz :: "machine \<Rightarrow> archive_tools \<Rightarrow> path \<Rightarrow> string \<Rightarrow> path \<Rightarrow> (archive_error, bool) op" where
  "extract_tar_gz m tools archive binary out =
     op_bind (op_map_err (ArchiveIo archive) (fs_read m archive)) (\<lambda>bs.
     op_bind (op_lift (map_err (Corrupt archive) (at_tar tools bs))) (\<lambda>entries.
     op_bind (op_lift (tar_names_safe archive entries)) (\<lambda>_.
     op_bind (op_map_err (ArchiveIo archive) (fs_read m archive)) (\<lambda>bs.
     op_bind (op_lift (map_err (Corrupt archive) (at_tar tools bs))) (\<lambda>entries.
     op_bind (op_lift (tar_find archive binary entries)) (\<lambda>found.
     case found of
       None \<Rightarrow> op_ok False
     | Some en \<Rightarrow> op_bind (write_out m archive out (te_data en)) (\<lambda>_. op_ok True)))))))"

fun zip_scan :: "path \<Rightarrow> string \<Rightarrow> (string + zip_entry) list \<Rightarrow> zip_entry option \<Rightarrow> archive_error + zip_entry option" where
  "zip_scan archive binary [] wanted = Ok wanted"
| "zip_scan archive binary (Err e # es) wanted = Err (Corrupt archive e)"
| "zip_scan archive binary (Ok en # es) wanted =
     and_then (map_err (Corrupt archive) (ze_name en)) (\<lambda>name.
     if \<not> is_safe_entry name \<or> \<not> ze_enclosed en then Err (UnsafeEntry archive name)
     else zip_scan archive binary es
            (if wanted = None \<and> ze_is_file en \<and> names_binary name binary then Some en else wanted))"

definition extract_zip :: "machine \<Rightarrow> archive_tools \<Rightarrow> path \<Rightarrow> string \<Rightarrow> path \<Rightarrow> (archive_error, bool) op" where
  "extract_zip m tools archive binary out =
     op_bind (op_map_err (ArchiveIo archive) (fs_read m archive)) (\<lambda>bs.
     op_bind (op_lift (map_err (Corrupt archive) (at_zip tools bs))) (\<lambda>entries.
     op_bind (op_lift (zip_scan archive binary entries None)) (\<lambda>wanted.
     case wanted of
       None \<Rightarrow> op_ok False
     | Some en \<Rightarrow>
         op_bind (op_lift (map_err (Corrupt archive) (ze_open en))) (\<lambda>body.
         op_bind (write_out m archive out body) (\<lambda>_. op_ok True)))))"

definition ends_with :: "string \<Rightarrow> string \<Rightarrow> bool" where
  "ends_with e s \<longleftrightarrow> starts_with (rev e) (rev s)"

definition extract_binary :: "machine \<Rightarrow> archive_tools \<Rightarrow> os \<Rightarrow> path \<Rightarrow> string \<Rightarrow> path \<Rightarrow> (archive_error, path) op" where
  "extract_binary m tools sys archive binary dest_dir =
     (let name = (if archive = [] then [] else map ascii_lower (last archive));
          out = dest_dir @ [binary]
      in op_bind
           (if ends_with ''.tar.gz'' name \<or> ends_with ''.tgz'' name then extract_tar_gz m tools archive binary out
            else if ends_with ''.zip'' name then extract_zip m tools archive binary out
            else op_err (UnknownFormat archive)) (\<lambda>found.
         if \<not> found
         then op_bind (op_ignore (fs_remove_file m out)) (\<lambda>_. op_err (MissingBinary archive binary))
         else op_bind (op_map_err (ArchiveIo out) (make_executable m sys out)) (\<lambda>_. op_ok out)))"

datatype probe_error = CannotRun path string | ExitedWith path string | NoVersion path string

text \<open>Up to ten retries while the file is still open for writing in a forked child.\<close>

fun spawn_version :: "os \<Rightarrow> (nat \<Rightarrow> spawn_result) \<Rightarrow> nat \<Rightarrow> nat \<Rightarrow> spawn_result" where
  "spawn_version sys run attempt 0 = run attempt"
| "spawn_version sys run attempt (Suc left) =
     (case run attempt of
        TextBusy \<Rightarrow> if is_windows sys then TextBusy else spawn_version sys run (Suc attempt) left
      | r \<Rightarrow> r)"

definition probe_version :: "'v semver \<Rightarrow> archive_tools \<Rightarrow> os \<Rightarrow> path \<Rightarrow> node option \<Rightarrow> probe_error + 'v" where
  "probe_version sv tools sys binary n =
     (case spawn_version sys (at_spawn tools n) 0 10 of
        TextBusy \<Rightarrow> Err (CannotRun binary ''Text file busy (os error 26)'')
      | SpawnError e \<Rightarrow> Err (CannotRun binary e)
      | Exited ok status out \<Rightarrow>
          if \<not> ok then Err (ExitedWith binary status)
          else (case find_map (\<lambda>t. case sv_parse sv (trim_v t) of Ok v \<Rightarrow> Some v | Err _ \<Rightarrow> None) (split_whitespace out) of
                  Some v \<Rightarrow> Ok v
                | None \<Rightarrow> Err (NoVersion binary (str_trim out))))"

section \<open>Releases\<close>

definition DEFAULT_GITHUB_API :: string where
  "DEFAULT_GITHUB_API = ''https://api.github.com''"

record resolved_release_base =
  rr_tag :: string
  rr_asset :: string
  rr_asset_url :: string
  rr_sums_url :: string
  rr_signature_url :: "string option"
  rr_via_api :: bool

record 'v resolved_release = resolved_release_base +
  rr_version :: 'v

datatype invalid_release =
    UrlNotHttps string
  | TagWithoutVersion string string
  | LatestNotVersion string string string
  | NoClient string

datatype 'v wanted = WantedVersion string | WantedChannel "'v channel"

datatype 'v release_error =
    RInvalid invalid_release
  | RHttp string string
  | RStatus string nat
  | RNotFound "'v wanted" string
  | RMissingAsset string string
  | RWrite path io_error
  | RNoToken "'v release_error" string

record github_asset =
  ga_name :: string
  ga_url :: string
  ga_browser_download_url :: string

record github_release =
  gr_tag_name :: string
  gr_draft :: bool
  gr_prerelease :: bool
  gr_assets :: "github_asset list"

record latest_json =
  lj_version :: string
  lj_latest :: "string option"

datatype http_body = Body bytes | BrokenBody bytes string
datatype http_answer = NoAnswer string | Answer nat http_body

record network =
  nw_client :: "string + unit"
  nw_http :: "nat \<Rightarrow> http_request \<Rightarrow> http_answer"
  nw_releases :: "bytes \<Rightarrow> string + github_release list"
  nw_release :: "bytes \<Rightarrow> string + github_release"
  nw_latest :: "bytes \<Rightarrow> string + latest_json"

definition tag_version :: "'v semver \<Rightarrow> string \<Rightarrow> string \<Rightarrow> 'v option" where
  "tag_version sv tag prefix_text =
     (if starts_with prefix_text tag
      then (case sv_parse sv (drop (length prefix_text) tag) of Ok v \<Rightarrow> Some v | Err _ \<Rightarrow> None)
      else None)"

text \<open>\<open>Iterator::max_by\<close>: of several greatest elements the last one.\<close>

fun max_by :: "('a \<Rightarrow> 'v::linorder) \<Rightarrow> 'a list \<Rightarrow> 'a option" where
  "max_by key [] = None"
| "max_by key (x # xs) =
     (case max_by key xs of None \<Rightarrow> Some x | Some y \<Rightarrow> if key y < key x then Some x else Some y)"

definition channel_admits :: "'v semver \<Rightarrow> 'v channel \<Rightarrow> 'v \<Rightarrow> github_release \<Rightarrow> bool" where
  "channel_admits sv channel v r =
     (case channel of
        ChStable \<Rightarrow> \<not> gr_prerelease r \<and> sv_pre_empty sv v
      | ChLatest \<Rightarrow> True
      | ChExact want \<Rightarrow> v = want)"

definition pick_release ::
  "'v::linorder semver \<Rightarrow> github_release list \<Rightarrow> string \<Rightarrow> 'v channel \<Rightarrow> ('v \<times> github_release) option" where
  "pick_release sv releases prefix_text channel =
     max_by fst (filter (\<lambda>(v, r). channel_admits sv channel v r)
       (List.map_filter (\<lambda>r. map_option (\<lambda>v. (v, r)) (tag_version sv (gr_tag_name r) prefix_text))
          (filter (\<lambda>r. \<not> gr_draft r) releases)))"

text \<open>The redirect policy of the HTTP client, from the number of hops and the next URL.\<close>

datatype redirect_decision = TooManyRedirects | RefuseNonHttps string | Follow

definition redirect_policy :: "nat \<Rightarrow> string \<Rightarrow> redirect_decision" where
  "redirect_policy previous url =
     (if 10 \<le> previous then TooManyRedirects
      else if \<not> check_https url then RefuseNonHttps url
      else Follow)"

definition http_get :: "network \<Rightarrow> string option \<Rightarrow> string \<Rightarrow> string \<Rightarrow> bool \<Rightarrow> ('v release_error, http_body) op" where
  "http_get nw token url accept auth =
     (if \<not> check_https url then op_err (RInvalid (UrlNotHttps url))
      else
        let req = \<lparr>rq_url = url, rq_accept = accept, rq_bearer = (if auth then token else None)\<rparr>
        in (\<lambda>d. (case nw_http nw (dk_tick d) req of
                    NoAnswer e \<Rightarrow> Err (RHttp url e)
                  | Answer status body \<Rightarrow> if 200 \<le> status \<and> status < 300 then Ok body else Err (RStatus url status),
                 d\<lparr>dk_tick := Suc (dk_tick d), dk_requests := dk_requests d @ [req]\<rparr>)))"

definition get_json ::
  "network \<Rightarrow> string option \<Rightarrow> (bytes \<Rightarrow> string + 'a) \<Rightarrow> string \<Rightarrow> bool \<Rightarrow> ('v release_error, 'a) op" where
  "get_json nw token decode url auth =
     op_bind (http_get nw token url ''application/vnd.github+json'' auth) (\<lambda>body.
     op_lift (map_err (\<lambda>e. RHttp url (''unexpected response: '' @ e))
       (case body of Body bs \<Rightarrow> decode bs | BrokenBody _ e \<Rightarrow> Err e)))"

definition find_asset :: "github_release \<Rightarrow> string \<Rightarrow> github_asset option" where
  "find_asset r name = find (\<lambda>a. ga_name a = name) (gr_assets r)"

definition github_release_urls ::
  "github_release \<Rightarrow> 'v \<Rightarrow> string \<Rightarrow> bool \<Rightarrow> 'v release_error + 'v resolved_release" where
  "github_release_urls release version asset with_token =
     (let pick = (\<lambda>a. if with_token then ga_url a else ga_browser_download_url a)
      in case find_asset release asset of
           None \<Rightarrow> Err (RMissingAsset (gr_tag_name release) asset)
         | Some archive \<Rightarrow>
             (case find_asset release SUMS_FILE of
                None \<Rightarrow> Err (RMissingAsset (gr_tag_name release) SUMS_FILE)
              | Some listing \<Rightarrow>
                  Ok \<lparr>rr_tag = gr_tag_name release, rr_asset = asset, rr_asset_url = pick archive, rr_sums_url = pick listing,
                      rr_signature_url = map_option pick (find_asset release SIGNATURE_FILE),
                      rr_via_api = with_token, rr_version = version\<rparr>))"

definition github_api :: "string option \<Rightarrow> string" where
  "github_api api_base = trim_end (CHR ''/'') (case api_base of Some b \<Rightarrow> b | None \<Rightarrow> DEFAULT_GITHUB_API)"

text \<open>The release the GitHub source offers for a channel.\<close>

definition github_pick ::
  "'v::linorder semver \<Rightarrow> network \<Rightarrow> string option \<Rightarrow> string \<Rightarrow> string \<Rightarrow> string \<Rightarrow> 'v channel \<Rightarrow>
   ('v release_error, github_release) op" where
  "github_pick sv nw token api repo tag_prefix channel =
     (case channel of
        ChExact v \<Rightarrow>
          op_bind (op_result (get_json nw token (nw_release nw)
                     (api @ ''/repos/'' @ repo @ ''/releases/tags/'' @ tag_prefix @ sv_show sv v) True)) (\<lambda>r. case r of
            Ok rel \<Rightarrow> op_ok rel
          | Err e \<Rightarrow> (case e of
              RStatus _ status \<Rightarrow>
                if status = 404 then op_err (RNotFound (WantedVersion (sv_show sv v)) tag_prefix) else op_err e
            | _ \<Rightarrow> op_err e))
      | _ \<Rightarrow>
          op_bind (get_json nw token (nw_releases nw) (api @ ''/repos/'' @ repo @ ''/releases?per_page=100'') True) (\<lambda>rels.
          case pick_release sv rels tag_prefix channel of
            Some (_, r) \<Rightarrow> op_ok r
          | None \<Rightarrow> op_err (RNotFound (WantedChannel channel) tag_prefix)))"

definition fetcher_resolve ::
  "'v::linorder semver \<Rightarrow> network \<Rightarrow> string option \<Rightarrow> release_source \<Rightarrow> string \<Rightarrow> ('v \<Rightarrow> string) \<Rightarrow> 'v channel \<Rightarrow>
   ('v release_error, 'v resolved_release) op" where
  "fetcher_resolve sv nw token source tag_prefix asset_for channel =
     (case source of
        Github repo api_base \<Rightarrow>
          op_bind (github_pick sv nw token (github_api api_base) repo tag_prefix channel) (\<lambda>release.
          case tag_version sv (gr_tag_name release) tag_prefix of
            None \<Rightarrow> op_err (RInvalid (TagWithoutVersion (gr_tag_name release) tag_prefix))
          | Some v \<Rightarrow> op_lift (github_release_urls release v (asset_for v) (token \<noteq> None)))
      | HttpMirror base_url \<Rightarrow>
          let base = trim_end (CHR ''/'') base_url; url = base @ ''/latest.json''
          in op_bind
               (case channel of
                  ChExact v \<Rightarrow> op_ok v
                | _ \<Rightarrow>
                    op_bind (get_json nw token (nw_latest nw) url False) (\<lambda>latest.
                    let raw = (if channel = ChLatest
                               then (case lj_latest latest of Some l \<Rightarrow> l | None \<Rightarrow> lj_version latest)
                               else lj_version latest)
                    in op_lift (map_err (\<lambda>e. RInvalid (LatestNotVersion url raw e)) (sv_parse sv (trim_v raw)))))
               (\<lambda>version.
                let tag = tag_prefix @ sv_show sv version; asset = asset_for version
                in op_ok \<lparr>rr_tag = tag, rr_asset = asset, rr_asset_url = base @ ''/'' @ tag @ ''/'' @ asset,
                          rr_sums_url = base @ ''/'' @ tag @ ''/'' @ SUMS_FILE,
                          rr_signature_url = Some (base @ ''/'' @ tag @ ''/'' @ SIGNATURE_FILE),
                          rr_via_api = False, rr_version = version\<rparr>))"

definition newest_version ::
  "'v::linorder semver \<Rightarrow> network \<Rightarrow> string option \<Rightarrow> release_source \<Rightarrow> string \<Rightarrow> 'v channel \<Rightarrow> ('v release_error, 'v) op" where
  "newest_version sv nw token source tag_prefix channel =
     (case source of
        Github repo api_base \<Rightarrow>
          op_bind (get_json nw token (nw_releases nw) (github_api api_base @ ''/repos/'' @ repo @ ''/releases?per_page=100'') True) (\<lambda>rels.
          case pick_release sv rels tag_prefix channel of
            Some (v, _) \<Rightarrow> op_ok v
          | None \<Rightarrow> op_err (RNotFound (WantedChannel channel) tag_prefix))
      | HttpMirror _ \<Rightarrow>
          op_bind (fetcher_resolve sv nw token source tag_prefix (\<lambda>_. []) channel) (\<lambda>r. op_ok (rr_version r)))"

definition accept_header :: "bool \<Rightarrow> string" where
  "accept_header api = (if api then ''application/octet-stream'' else ''*/*'')"

definition fetcher_download ::
  "machine \<Rightarrow> network \<Rightarrow> string option \<Rightarrow> string \<Rightarrow> bool \<Rightarrow> path \<Rightarrow> ('v release_error, unit) op" where
  "fetcher_download m nw token url api dest =
     op_bind (http_get nw token url (accept_header api) api) (\<lambda>body.
     op_bind (op_map_err (RWrite dest) (fs_write m dest [])) (\<lambda>_.
     case body of
       Body bs \<Rightarrow> op_map_err (RWrite dest) (fs_write m dest bs)
     | BrokenBody bs e \<Rightarrow> op_bind (op_map_err (RWrite dest) (fs_write m dest bs)) (\<lambda>_. op_err (RHttp url e))))"

definition fetch_optional_text ::
  "network \<Rightarrow> string option \<Rightarrow> string \<Rightarrow> bool \<Rightarrow> ('v release_error, string option) op" where
  "fetch_optional_text nw token url api =
     op_bind (op_result (http_get nw token url (accept_header api) api)) (\<lambda>r. case r of
       Ok (Body bs) \<Rightarrow> op_ok (Some bs)
     | Ok (BrokenBody _ e) \<Rightarrow> op_err (RHttp url e)
     | Err e \<Rightarrow> (case e of RStatus _ status \<Rightarrow> if status = 404 then op_ok None else op_err e | _ \<Rightarrow> op_err e))"

section \<open>Which release is picked\<close>

lemma max_by_None [simp]: "max_by key xs = None \<longleftrightarrow> xs = []"
  by (cases xs) (auto split: option.splits)

lemma max_by_Some: "max_by key xs = Some y \<Longrightarrow> y \<in> set xs \<and> (\<forall>x \<in> set xs. key x \<le> key y)"
  by (induction xs arbitrary: y) (auto split: option.splits if_splits)

text \<open>What a channel may take: no draft, a tag of this application, and a version the channel admits.\<close>

definition eligible :: "'v semver \<Rightarrow> github_release list \<Rightarrow> string \<Rightarrow> 'v channel \<Rightarrow> ('v \<times> github_release) set" where
  "eligible sv releases prefix_text channel =
     {(v, r). r \<in> set releases \<and> \<not> gr_draft r \<and> tag_version sv (gr_tag_name r) prefix_text = Some v \<and>
        channel_admits sv channel v r}"

lemma set_map_filter_Some: "set (List.map_filter f xs) = {y. \<exists>x \<in> set xs. f x = Some y}"
  by (auto simp: List.map_filter_def image_iff) (metis option.sel option.discI)+

lemma pick_release_candidates:
  "set (filter (\<lambda>(v, r). channel_admits sv channel v r)
     (List.map_filter (\<lambda>r. map_option (\<lambda>v. (v, r)) (tag_version sv (gr_tag_name r) prefix_text))
        (filter (\<lambda>r. \<not> gr_draft r) releases))) = eligible sv releases prefix_text channel"
  by (auto simp: eligible_def set_map_filter_Some)

lemma pick_release_newest:
  "pick_release sv releases prefix_text channel = Some (v, r) \<Longrightarrow>
   (v, r) \<in> eligible sv releases prefix_text channel \<and>
   (\<forall>(v', r') \<in> eligible sv releases prefix_text channel. v' \<le> v)"
  unfolding pick_release_def pick_release_candidates [symmetric] by (drule max_by_Some) auto

lemma pick_release_None:
  "pick_release sv releases prefix_text channel = None \<longleftrightarrow> eligible sv releases prefix_text channel = {}"
  unfolding pick_release_def pick_release_candidates [symmetric] by (simp only: max_by_None set_empty)

section \<open>What an archive yields\<close>

definition tar_holds :: "archive_tools \<Rightarrow> bytes \<Rightarrow> string \<Rightarrow> bytes \<Rightarrow> bool" where
  "tar_holds tools bs binary body \<longleftrightarrow>
     (\<exists>es en. at_tar tools bs = Ok es \<and> (\<forall>en'. Ok en' \<in> set es \<longrightarrow> is_safe_entry (te_name en')) \<and>
        Ok en \<in> set es \<and> names_binary (te_name en) binary \<and> te_is_file en \<and> te_data en = Ok body)"

definition zip_holds :: "archive_tools \<Rightarrow> bytes \<Rightarrow> string \<Rightarrow> bytes \<Rightarrow> bool" where
  "zip_holds tools bs binary body \<longleftrightarrow>
     (\<exists>es en nm. at_zip tools bs = Ok es \<and>
        (\<forall>en'. Ok en' \<in> set es \<longrightarrow> (\<exists>nm'. ze_name en' = Ok nm' \<and> is_safe_entry nm' \<and> ze_enclosed en')) \<and>
        Ok en \<in> set es \<and> ze_name en = Ok nm \<and> names_binary nm binary \<and> ze_is_file en \<and> ze_open en = Ok (Ok body))"

text \<open>The archive, read by the format its name says, holds these bytes as the binary.\<close>

definition archive_holds :: "archive_tools \<Rightarrow> string \<Rightarrow> bytes \<Rightarrow> string \<Rightarrow> bytes \<Rightarrow> bool" where
  "archive_holds tools name bs binary body =
     (let lower = map ascii_lower name
      in if ends_with ''.tar.gz'' lower \<or> ends_with ''.tgz'' lower then tar_holds tools bs binary body
         else ends_with ''.zip'' lower \<and> zip_holds tools bs binary body)"

lemma tar_names_safe_Ok:
  "tar_names_safe a es = Ok () \<Longrightarrow> Ok en \<in> set es \<Longrightarrow> is_safe_entry (te_name en)"
  by (induction a es rule: tar_names_safe.induct) (auto split: if_splits)

lemma tar_find_Ok:
  "tar_find a binary es = Ok (Some en) \<Longrightarrow> Ok en \<in> set es \<and> names_binary (te_name en) binary \<and> te_is_file en"
  by (induction a binary es rule: tar_find.induct) (auto split: if_splits)

lemma zip_scan_Ok:
  "zip_scan a binary es w = Ok w' \<Longrightarrow>
   (\<forall>en. Ok en \<in> set es \<longrightarrow> (\<exists>nm. ze_name en = Ok nm \<and> is_safe_entry nm \<and> ze_enclosed en)) \<and>
   (\<forall>en. w' = Some en \<longrightarrow> w = Some en \<or>
      (Ok en \<in> set es \<and> (\<exists>nm. ze_name en = Ok nm \<and> names_binary nm binary) \<and> ze_is_file en))"
proof (induction a binary es w rule: zip_scan.induct)
  case (3 archive binary en es wanted)
  then obtain nm where nm: "ze_name en = Ok nm" by (cases "ze_name en") auto
  let ?w = "if wanted = None \<and> ze_is_file en \<and> names_binary nm binary then Some en else wanted"
  have safe: "is_safe_entry nm" "ze_enclosed en" and rest: "zip_scan archive binary es ?w = Ok w'"
    using "3.prems" nm by (auto split: if_splits)
  have "\<not> (\<not> is_safe_entry nm \<or> \<not> ze_enclosed en)" using safe by simp
  note IH = "3.IH" [OF this rest]
  then show ?case using safe nm by (auto split: if_splits)
qed auto

lemma write_out_effect:
  "write_out m a out body d = (Ok u, d') \<Longrightarrow>
   \<exists>bs f. body = Ok bs \<and> node_at out d' = Some (FileNode f) \<and> fn_bytes f = bs"
  using write_effect [of m out] by (fastforce simp: write_out_def op_Ok_iffs split: sum.splits)

lemma extract_tar_effect:
  assumes "extract_tar_gz m tools archive binary out d = (Ok True, d')"
  shows "\<exists>f g. node_at archive d = Some (FileNode f) \<and> node_at out d' = Some (FileNode g) \<and>
     tar_holds tools (fn_bytes f) binary (fn_bytes g)"
proof -
  obtain bs d1 es bs2 d2 es2 en where
    r1: "fs_read m archive d = (Ok bs, d1)" and t1: "at_tar tools bs = Ok es" "tar_names_safe archive es = Ok ()"
    and r2: "fs_read m archive d1 = (Ok bs2, d2)" and t2: "at_tar tools bs2 = Ok es2" "tar_find archive binary es2 = Ok (Some en)"
    and w: "\<exists>u. write_out m archive out (te_data en) d2 = (Ok u, d')"
    using assms by (auto simp: extract_tar_gz_def op_Ok_iffs split: option.splits)
  obtain f where f: "node_at archive d = Some (FileNode f)" "fn_bytes f = bs" "node_at archive d1 = Some (FileNode f)"
    using read_effect [OF r1] by auto
  then have "bs2 = bs" using read_effect [OF r2] by auto
  then show ?thesis
    using f t1 t2 w tar_names_safe_Ok tar_find_Ok [OF t2(2)] write_out_effect
    unfolding tar_holds_def by (metis sum.inject(2))
qed

lemma extract_zip_effect:
  assumes "extract_zip m tools archive binary out d = (Ok True, d')"
  shows "\<exists>f g. node_at archive d = Some (FileNode f) \<and> node_at out d' = Some (FileNode g) \<and>
     zip_holds tools (fn_bytes f) binary (fn_bytes g)"
proof -
  obtain bs d1 es en body where
    r1: "fs_read m archive d = (Ok bs, d1)" and t: "at_zip tools bs = Ok es" and scan: "zip_scan archive binary es None = Ok (Some en)"
    and op: "ze_open en = Ok body" and w: "\<exists>u. write_out m archive out body d1 = (Ok u, d')"
    using assms by (auto simp: extract_zip_def op_Ok_iffs split: option.splits)
  obtain g bs' where g: "body = Ok bs'" "node_at out d' = Some (FileNode g)" "fn_bytes g = bs'"
    using w write_out_effect by blast
  obtain f where f: "node_at archive d = Some (FileNode f)" "fn_bytes f = bs" using read_effect [OF r1] by auto
  have "zip_holds tools (fn_bytes f) binary (fn_bytes g)"
    unfolding zip_holds_def using zip_scan_Ok [OF scan] t f op g by blast
  then show ?thesis using f g by blast
qed

lemma exec_bytes:
  assumes "make_executable m sys p d = (Ok u, d')" "node_at p d = Some (FileNode g)"
  shows "\<exists>g'. node_at p d' = Some (FileNode g') \<and> fn_bytes g' = fn_bytes g"
  using assms by (auto simp: make_executable_def fs_set_exec_def syscall_def Let_def op_Ok_iffs
      split: if_splits option.splits fault.splits)

lemma extract_binary_effect:
  assumes "extract_binary m tools sys archive binary dir d = (Ok out, d')" "archive \<noteq> []"
  shows "out = dir @ [binary] \<and> (\<exists>f g. node_at archive d = Some (FileNode f) \<and> node_at out d' = Some (FileNode g) \<and>
     archive_holds tools (last archive) (fn_bytes f) binary (fn_bytes g))"
proof -
  let ?out = "dir @ [binary]" and ?name = "map ascii_lower (last archive)"
  obtain d1 u where out: "out = ?out" and mx: "make_executable m sys ?out d1 = (Ok u, d')"
    and ex: "(if ends_with ''.tar.gz'' ?name \<or> ends_with ''.tgz'' ?name then extract_tar_gz m tools archive binary ?out
        else if ends_with ''.zip'' ?name then extract_zip m tools archive binary ?out
        else op_err (UnknownFormat archive)) d = (Ok True, d1)"
    using assms by (auto simp: extract_binary_def Let_def op_Ok_iffs split: if_splits)
  obtain f g where f: "node_at archive d = Some (FileNode f)" "node_at ?out d1 = Some (FileNode g)"
    and h: "archive_holds tools (last archive) (fn_bytes f) binary (fn_bytes g)"
    using ex extract_tar_effect [of m tools archive binary ?out d d1] extract_zip_effect [of m tools archive binary ?out d d1]
    by (auto simp: archive_holds_def Let_def op_Ok_iffs split: if_splits)
  then show ?thesis using exec_bytes [OF mx f(2)] out by metis
qed

lemma verify_checksum_effect:
  assumes "verify_checksum m tools archive asset listing d = (Ok u, d')"
  shows "(\<exists>f. node_at archive d = Some (FileNode f) \<and> expected_digest listing asset = Some (at_sha256 tools (fn_bytes f))) \<and>
     (\<forall>q. node_at q d' = node_at q d)"
  using assms read_effect [of m archive d]
  by (auto simp: verify_checksum_def sha256_file_def op_Ok_iffs split: option.splits if_splits)

end
