(* ===== verification/Shell_Path.thy ===== *)
theory Shell_Path
  imports Self_Release
begin

text \<open>
  Putting the bin dir on \<open>PATH\<close> for Unix shells (\<open>self_install/shell_path.rs\<close>): an \<open>env\<close> file in the bin
  dir, one line that sources it at the end of every start-up file that exists, and a file of the
  application's own for fish.

  The main facts, for every machine: a start-up file only ever grows at its end, and no other file
  that existed changes; once the edit has succeeded, doing it again changes nothing.
\<close>

section \<open>Appending\<close>

text \<open>A file opened with \<open>append\<close>: a write that stops half-way leaves a first part of the text.\<close>

definition append_bytes :: "machine \<Rightarrow> path \<Rightarrow> bytes \<Rightarrow> disk \<Rightarrow> disk" where
  "append_bytes m p bs d =
     (case node_at p d of
        Some (FileNode f) \<Rightarrow>
          set_node p (FileNode (f\<lparr>fn_bytes := fn_bytes f @ bs, fn_mtime := mc_now m (dk_tick d)\<rparr>)) d
      | _ \<Rightarrow> d)"

definition fs_open_append :: "machine \<Rightarrow> path \<Rightarrow> (io_error, unit) op" where
  "fs_open_append m p = syscall m unbroken (\<lambda>d.
     case node_at p d of
       Some (FileNode _) \<Rightarrow> (Ok (), d)
     | Some DirNode \<Rightarrow> (Err (IoError KOther ''Is a directory (os error 21)''), d)
     | None \<Rightarrow> (Err not_found, d))"

definition fs_append :: "machine \<Rightarrow> path \<Rightarrow> bytes \<Rightarrow> (io_error, unit) op" where
  "fs_append m p bs =
     syscall m (\<lambda>part d. case part of None \<Rightarrow> d | Some b \<Rightarrow> append_bytes m p (take (length b) bs) d)
       (\<lambda>d. (Ok (), append_bytes m p bs d))"

lemma append_bytes_node:
  "node_at q (append_bytes m p bs d) =
   (case node_at p d of
      Some (FileNode f) \<Rightarrow>
        if q = p then Some (FileNode (f\<lparr>fn_bytes := fn_bytes f @ bs, fn_mtime := mc_now m (dk_tick d)\<rparr>)) else node_at q d
    | _ \<Rightarrow> node_at q d)"
  by (simp add: append_bytes_def split: option.splits node.splits)

lemma keeps_append [keep_rules]: "q \<noteq> p \<Longrightarrow> keeps q (fs_append m p bs)" "keeps q (fs_open_append m p)"
  unfolding fs_append_def fs_open_append_def
  by (rule syscall_keeps; auto simp: append_bytes_node split: option.splits node.splits)+

section \<open>The files\<close>

record unix_path_report =
  pr_modifications :: "path_modification list"
  pr_notes :: "string list"
  pr_current_shell_hint :: string

definition empty_report :: unix_path_report where
  "empty_report = \<lparr>pr_modifications = [], pr_notes = [], pr_current_shell_hint = []\<rparr>"

definition add_note :: "string \<Rightarrow> unix_path_report \<Rightarrow> unix_path_report" where
  "add_note n r = r\<lparr>pr_notes := pr_notes r @ [n]\<rparr>"

definition add_modification :: "path_modification \<Rightarrow> unix_path_report \<Rightarrow> unix_path_report" where
  "add_modification c r = r\<lparr>pr_modifications := pr_modifications r @ [c]\<rparr>"

definition quoted :: "string \<Rightarrow> string" where
  "quoted s = CHR 0x22 # s @ [CHR 0x22]"

definition strip_home :: "path option \<Rightarrow> path \<Rightarrow> path option" where
  "strip_home home dir =
     (case home of Some h \<Rightarrow> if prefix h dir then Some (drop (length h) dir) else None | None \<Rightarrow> None)"

definition shell_dir_expr :: "path option \<Rightarrow> path \<Rightarrow> string option" where
  "shell_dir_expr home dir =
     (let expr = (case strip_home home dir of
                    Some rest \<Rightarrow> if rest = [] then ''$HOME'' else ''$HOME/'' @ str_join ''/'' rest
                  | None \<Rightarrow> path_display dir);
          body = (if starts_with ''$HOME'' expr then drop 5 expr else expr)
      in if list_ex (\<lambda>c. c \<in> {CHR 0x22, CHR ''$'', CHR 0x60, CHR 0x5C, newline_char}) body then None else Some expr)"

definition posix_env_file_contents :: "string \<Rightarrow> string" where
  "posix_env_file_contents bin_expr =
     concat (map (\<lambda>l. l @ [newline_char])
       [''#!/bin/sh'',
        ''# add binaries to PATH if they aren'' @ [CHR 0x27] @ ''t added yet'',
        ''# affix colons on either side of $PATH to simplify matching'',
        ''case '' @ quoted '':${PATH}:'' @ '' in'',
        ''    *:'' @ quoted bin_expr @ '':*)'',
        ''        ;;'',
        ''    *)'',
        ''        # Prepending path in case a system-installed binary needs to be overridden'',
        ''        export PATH='' @ quoted (bin_expr @ '':$PATH''),
        ''        ;;'',
        ''esac''])"

definition fish_env_file_contents :: "string \<Rightarrow> string" where
  "fish_env_file_contents bin_expr =
     concat (map (\<lambda>l. l @ [newline_char])
       [''if not contains '' @ quoted bin_expr @ '' $PATH'',
        ''    # Prepending path in case a system-installed binary needs to be overridden'',
        ''    set -x PATH '' @ quoted bin_expr @ '' $PATH'',
        ''end''])"

definition rc_candidates :: "path \<Rightarrow> path option \<Rightarrow> disk \<Rightarrow> path list" where
  "rc_candidates home zdotdir d =
     (let zdot = (case zdotdir of Some z \<Rightarrow> z | None \<Rightarrow> home);
          zshenv = zdot @ [''.zshenv'']
      in filter (\<lambda>p. is_file p d)
           (map (\<lambda>n. home @ [n]) [''.profile'', ''.bash_profile'', ''.bash_login'', ''.bashrc''] @
            [if is_file zshenv d then zshenv else zdot @ [''.zshrc'']]))"

definition ensure_env_file :: "machine \<Rightarrow> path \<Rightarrow> string \<Rightarrow> string \<Rightarrow> unix_path_report \<Rightarrow> (io_error, bool \<times> unix_path_report) op" where
  "ensure_env_file m p contents bin_expr report =
     op_bind (op_result (fs_read m p)) (\<lambda>r. case r of
       Ok existing \<Rightarrow>
         if str_contains existing (quoted bin_expr) then op_ok (True, report)
         else op_ok (False, add_note (path_display p @ '' exists but does not add '' @ bin_expr @
                '' to PATH; left unchanged, add the directory to PATH yourself'') report)
     | Err e \<Rightarrow>
         if ie_kind e = KNotFound then
           op_bind (fs_write m p contents) (\<lambda>_. op_ok (True, add_modification (EnvFile p) report))
         else op_err e)"

definition has_line :: "string \<Rightarrow> string \<Rightarrow> string \<Rightarrow> bool" where
  "has_line line alt existing = list_ex (\<lambda>l. str_trim l = line \<or> str_trim l = alt) (str_lines existing)"

definition appended_text :: "string \<Rightarrow> string \<Rightarrow> string" where
  "appended_text existing line =
     (if existing = [] \<or> last existing = newline_char then [] else [newline_char]) @ line @ [newline_char]"

fun add_rc_lines :: "machine \<Rightarrow> string \<Rightarrow> string \<Rightarrow> path list \<Rightarrow> unix_path_report \<Rightarrow> (io_error, unix_path_report) op" where
  "add_rc_lines m line alt [] report = op_ok report"
| "add_rc_lines m line alt (rc # rcs) report =
     op_bind (fs_read m rc) (\<lambda>existing.
     if has_line line alt existing then add_rc_lines m line alt rcs report
     else op_bind (fs_open_append m rc) (\<lambda>_.
          op_bind (fs_append m rc (appended_text existing line)) (\<lambda>_.
          add_rc_lines m line alt rcs (add_modification (RcLine rc line) report))))"

definition fish_conf :: "machine \<Rightarrow> path \<Rightarrow> string \<Rightarrow> string \<Rightarrow> unix_path_report \<Rightarrow> (io_error, unix_path_report) op" where
  "fish_conf m fish_dir app bin_expr report =
     (let conf = fish_dir @ [''conf.d'', app @ ''.fish''];
          wanted = ''source '' @ quoted (bin_expr @ ''/env.fish'') @ [newline_char]
      in op_bind (op_result (fs_read m conf)) (\<lambda>r. case r of
           Ok c \<Rightarrow>
             if c = wanted then op_ok report
             else op_ok (add_note (path_display conf @ '' exists with other content; left unchanged'') report)
         | Err e \<Rightarrow>
             if ie_kind e = KNotFound then
               op_bind (fs_create_dir_all m (fish_dir @ [''conf.d''])) (\<lambda>_.
               op_bind (fs_write m conf wanted) (\<lambda>_.
               op_ok (add_modification (FishConf conf) report)))
             else op_err e))"

definition fish_dir_of :: "install_env \<Rightarrow> path \<Rightarrow> path" where
  "fish_dir_of env home =
     (case env_var env ''XDG_CONFIG_HOME'' of Some x \<Rightarrow> path_of_text (ev_os env) x | None \<Rightarrow> home @ [''.config'']) @ [''fish'']"

definition source_line :: "string \<Rightarrow> string" where
  "source_line bin_expr = ''. '' @ quoted (bin_expr @ ''/env'')"

definition other_source_line :: "string \<Rightarrow> string" where
  "other_source_line bin_expr = ''source '' @ quoted (bin_expr @ ''/env'')"

definition zdotdir_of :: "install_env \<Rightarrow> path option" where
  "zdotdir_of env = map_option (path_of_text (ev_os env)) (env_var env ''ZDOTDIR'')"

definition edit_rc_files :: "machine \<Rightarrow> install_env \<Rightarrow> path \<Rightarrow> string \<Rightarrow> unix_path_report \<Rightarrow> (io_error, unix_path_report) op" where
  "edit_rc_files m env home bin_expr report =
     op_bind (op_get (rc_candidates home (zdotdir_of env))) (\<lambda>candidates.
     op_bind (add_rc_lines m (source_line bin_expr) (other_source_line bin_expr) candidates report) (\<lambda>report.
     op_ok (if candidates = []
            then add_note (''no shell rc file found; add this line to your shell'' @ [CHR 0x27] @
                   ''s startup file: '' @ source_line bin_expr) report
            else report)))"

definition edit_fish :: "machine \<Rightarrow> install_env \<Rightarrow> path \<Rightarrow> path \<Rightarrow> string \<Rightarrow> unix_path_report \<Rightarrow> (io_error, unix_path_report) op" where
  "edit_fish m env home bin_dir bin_expr report =
     op_bind (op_get (is_dir (fish_dir_of env home))) (\<lambda>fish.
     if \<not> fish then op_ok report
     else
       op_bind (ensure_env_file m (bin_dir @ [''env.fish'']) (fish_env_file_contents bin_expr) bin_expr report)
         (\<lambda>(fish_ok, report).
       if fish_ok then fish_conf m (fish_dir_of env home) (ev_app env) bin_expr report else op_ok report))"

definition apply_unix_path :: "machine \<Rightarrow> install_env \<Rightarrow> path \<Rightarrow> (io_error, unix_path_report) op" where
  "apply_unix_path m env bin_dir =
     (case ev_home env of
        None \<Rightarrow> op_ok (add_note ''no home directory; add the bin dir to PATH yourself'' empty_report)
      | Some home \<Rightarrow>
          (case shell_dir_expr (Some home) bin_dir of
             None \<Rightarrow> op_ok (add_note (path_display bin_dir @
               '' contains characters that cannot be quoted in a shell file; add it to PATH yourself'') empty_report)
           | Some bin_expr \<Rightarrow>
               op_bind (ensure_env_file m (bin_dir @ [''env'']) (posix_env_file_contents bin_expr) bin_expr
                          (empty_report\<lparr>pr_current_shell_hint := source_line bin_expr\<rparr>)) (\<lambda>(usable, report).
               if \<not> usable then op_ok report
               else op_bind (edit_rc_files m env home bin_expr report) (edit_fish m env home bin_dir bin_expr))))"

definition remove_fish_conf :: "machine \<Rightarrow> path \<Rightarrow> (io_error, bool) op" where
  "remove_fish_conf m p =
     op_bind (op_result (fs_remove_file m p)) (\<lambda>r. case r of
       Ok _ \<Rightarrow> op_ok True
     | Err e \<Rightarrow> if ie_kind e = KNotFound then op_ok False else op_err e)"

section \<open>Lines\<close>

lemma str_split_append: "str_split c (a @ c # b) = str_split c a @ str_split c b"
  by (induction a) (auto split: list.splits)

lemma last_line_kept:
  assumes "newline_char \<notin> set line" "line \<noteq> []" "last line \<noteq> CHR 0x0D"
  shows "line \<in> set (str_lines (existing @ appended_text existing line))"
proof -
  have split: "str_split newline_char (line @ [newline_char]) = [line, []]"
    using split_append_sep [OF assms(1), of "[]"] by simp
  obtain ls where "str_split newline_char (existing @ appended_text existing line) = ls @ [line, []]"
  proof (cases "existing = [] \<or> last existing = newline_char")
    case True
    then obtain e where "existing = [] \<or> existing = e @ [newline_char]" by (metis append_butlast_last_id)
    then show ?thesis
      using that split str_split_append [of newline_char e "line @ [newline_char]"] by (auto simp: appended_text_def)
  next
    case False
    then show ?thesis
      using that split str_split_append [of newline_char existing "line @ [newline_char]"] by (auto simp: appended_text_def)
  qed
  then show ?thesis using assms by (simp add: str_lines_def butlast_append)
qed

lemma shell_dir_expr_no_newline: "shell_dir_expr home dir = Some e \<Longrightarrow> newline_char \<notin> set e"
proof -
  assume a: "shell_dir_expr home dir = Some e"
  then have "newline_char \<notin> set (if starts_with ''$HOME'' e then drop 5 e else e)"
    by (auto simp: shell_dir_expr_def Let_def list_ex_iff split: if_splits option.splits)
  moreover have "newline_char \<notin> set e \<longleftrightarrow> newline_char \<notin> set (drop 5 e)" if "starts_with ''$HOME'' e"
    using that by (auto simp: starts_with_iff newline_char_def)
  ultimately show ?thesis by (auto split: if_splits)
qed


lemma source_line_facts:
  assumes "newline_char \<notin> set e"
  shows "newline_char \<notin> set (source_line e)" "source_line e \<noteq> []" "last (source_line e) \<noteq> CHR 0x0D"
    "str_trim (source_line e) = source_line e"
  using assms
  by (auto simp: source_line_def quoted_def newline_char_def is_ws_def intro!: trim_matches_id)

lemma has_line_appended:
  "newline_char \<notin> set e \<Longrightarrow> has_line (source_line e) alt (existing @ appended_text existing (source_line e))"
  using last_line_kept source_line_facts unfolding has_line_def list_ex_iff by blast

lemma env_files_name_dir:
  "str_contains (posix_env_file_contents e) (quoted e)" "str_contains (fish_env_file_contents e) (quoted e)"
proof -
  have line: "str_contains (concat (map (\<lambda>l. l @ [newline_char]) ls)) p" if l: "a @ p @ b \<in> set ls" for ls a p b
  proof -
    obtain l1 l2 where "ls = l1 @ (a @ p @ b) # l2" using split_list [OF l] by auto
    then have "concat (map (\<lambda>l. l @ [newline_char]) ls) =
        (concat (map (\<lambda>l. l @ [newline_char]) l1) @ a) @ p @ b @ newline_char # concat (map (\<lambda>l. l @ [newline_char]) l2)"
      by simp
    then show ?thesis unfolding str_contains_iff by blast
  qed
  show "str_contains (fish_env_file_contents e) (quoted e)"
    unfolding fish_env_file_contents_def by (rule line [of "''if not contains ''" _ "'' $PATH''"]) simp
  show "str_contains (posix_env_file_contents e) (quoted e)"
    unfolding posix_env_file_contents_def by (rule line [of "''    *:''" _ "'':*)''"]) simp
qed


section \<open>What the edit leaves behind\<close>

definition holds_dir :: "string \<Rightarrow> path \<Rightarrow> disk \<Rightarrow> bool" where
  "holds_dir e p d = (case node_at p d of Some (FileNode f) \<Rightarrow> str_contains (fn_bytes f) (quoted e) | _ \<Rightarrow> False)"

definition foreign_file :: "string \<Rightarrow> path \<Rightarrow> disk \<Rightarrow> bool" where
  "foreign_file e p d \<longleftrightarrow> is_file p d \<and> \<not> holds_dir e p d"

definition sources_env :: "string \<Rightarrow> disk \<Rightarrow> path \<Rightarrow> bool" where
  "sources_env e d rc =
     (case node_at rc d of
        Some (FileNode f) \<Rightarrow> has_line (source_line e) (other_source_line e) (fn_bytes f)
      | _ \<Rightarrow> False)"

abbreviation fish_conf_path :: "install_env \<Rightarrow> path \<Rightarrow> path" where
  "fish_conf_path env home \<equiv> fish_dir_of env home @ [''conf.d'', ev_app env @ ''.fish'']"

definition path_set_up :: "install_env \<Rightarrow> path \<Rightarrow> disk \<Rightarrow> bool" where
  "path_set_up env bin_dir d =
     (case ev_home env of
        None \<Rightarrow> True
      | Some home \<Rightarrow>
          (case shell_dir_expr (Some home) bin_dir of
             None \<Rightarrow> True
           | Some e \<Rightarrow>
               foreign_file e (bin_dir @ [''env'']) d \<or>
               holds_dir e (bin_dir @ [''env'']) d \<and>
               list_all (sources_env e d) (rc_candidates home (zdotdir_of env) d) \<and>
               (is_dir (fish_dir_of env home) d \<longrightarrow>
                  foreign_file e (bin_dir @ [''env.fish'']) d \<or>
                  holds_dir e (bin_dir @ [''env.fish'']) d \<and> is_file (fish_conf_path env home) d)))"

lemma write_node:
  "fs_write m p bs d = (Ok u, d') \<Longrightarrow> \<exists>f. node_at p d' = Some (FileNode f) \<and> fn_bytes f = bs"
  by (auto simp: fs_write_def syscall_def Let_def split: option.splits fault.splits if_splits node.splits)

lemma keeps_ensure [keep_rules]: "q \<noteq> p \<Longrightarrow> keeps q (ensure_env_file m p c e r)"
  unfolding ensure_env_file_def by (intro keep_rules)

lemma keeps_add_rc_lines [keep_rules]: "q \<notin> set rcs \<Longrightarrow> keeps q (add_rc_lines m line alt rcs r)"
  by (induction rcs arbitrary: r) (auto intro!: keep_rules)

lemma ensure_env_file_effect:
  assumes "ensure_env_file m p c e r d = (Ok (b, r'), d')" "str_contains c (quoted e)"
  shows "if b then holds_dir e p d' else foreign_file e p d'"
proof (cases "fs_read m p d")
  case (Pair x d1)
  note defs = ensure_env_file_def op_bind_def op_result_def op_lift_def holds_dir_def foreign_file_def is_file_def
  show ?thesis
  proof (cases x)
    case (Inl er)
    then obtain u where "fs_write m p c d1 = (Ok u, d')" "b"
      using assms Pair by (auto simp: defs split: if_splits prod.splits sum.splits)
    then show ?thesis using write_node [of m p c d1 u d'] assms(2) by (auto simp: holds_dir_def)
  next
    case (Inr bs)
    then have "d' = d1" "b = str_contains bs (quoted e)" using assms Pair by (auto simp: defs split: if_splits)
    moreover obtain f where "node_at p d1 = Some (FileNode f)" "fn_bytes f = bs"
      using read_effect [of m p d bs d1] Pair Inr by auto
    ultimately show ?thesis by (simp add: defs)
  qed
qed

lemma append_effect:
  assumes "fs_append m p bs d = (Ok u, d')" "node_at p d = Some (FileNode f)"
  shows "\<exists>t. node_at p d' = Some (FileNode (f\<lparr>fn_bytes := fn_bytes f @ bs, fn_mtime := t\<rparr>))"
  using assms by (auto simp: fs_append_def syscall_def Let_def append_bytes_node split: option.splits fault.splits)

lemma add_rc_lines_effect:
  assumes "add_rc_lines m (source_line e) (other_source_line e) rcs r d = (Ok r', d')"
    "distinct rcs" "newline_char \<notin> set e" "rc \<in> set rcs"
  shows "sources_env e d' rc"
  using assms
proof (induction rcs arbitrary: r d)
  case (Cons x rcs)
  let ?l = "source_line e" and ?a = "other_source_line e"
  obtain bs d1 where rd: "fs_read m x d = (Ok bs, d1)"
    using Cons.prems(1) by (auto simp: op_Ok_iffs)
  then obtain f where f: "node_at x d1 = Some (FileNode f)" "fn_bytes f = bs"
    using read_effect by fastforce
  obtain r1 d2 where rest: "add_rc_lines m ?l ?a rcs r1 d2 = (Ok r', d')" and here: "sources_env e d2 x"
  proof (cases "has_line ?l ?a bs")
    case True
    then show ?thesis using that [of r d1] Cons.prems(1) rd f by (simp add: op_bind_def sources_env_def)
  next
    case False
    then obtain d3 d2 where op: "fs_open_append m x d1 = (Ok (), d3)" and ap: "fs_append m x (appended_text bs ?l) d3 = (Ok (), d2)"
      and "add_rc_lines m ?l ?a rcs (add_modification (RcLine x ?l) r) d2 = (Ok r', d')"
      using Cons.prems(1) rd by (auto simp: op_bind_def split: prod.splits sum.splits)
    moreover have "node_at x d3 = Some (FileNode f)" using keepsD [OF keeps_append(2) op] f by simp
    ultimately show ?thesis
      using that append_effect [OF ap] has_line_appended [OF Cons.prems(3)] f(2) by (fastforce simp: sources_env_def)
  qed
  show ?case
  proof (cases "rc = x")
    case True
    moreover have "node_at x d' = node_at x d2"
      using keepsD [OF keeps_add_rc_lines rest] Cons.prems(2) by simp
    ultimately show ?thesis using here by (simp add: sources_env_def)
  next
    case False
    then show ?thesis using Cons.IH [OF rest] Cons.prems by simp
  qed
qed simp

lemma rc_candidates_cong:
  assumes "\<And>q n. n \<in> set [''.profile'', ''.bash_profile'', ''.bash_login'', ''.bashrc'', ''.zshenv'', ''.zshrc''] \<Longrightarrow>
    is_file (q @ [n]) d' = is_file (q @ [n]) d"
  shows "rc_candidates home z d' = rc_candidates home z d"
  using assms by (simp add: rc_candidates_def Let_def)

lemma rc_candidates_distinct: "distinct (rc_candidates home z d)"
  by (simp add: rc_candidates_def Let_def)

lemma rc_candidates_facts:
  assumes "rc \<in> set (rc_candidates home z d)"
  shows "is_file rc d"
    and "\<exists>q n. n \<in> set [''.profile'', ''.bash_profile'', ''.bash_login'', ''.bashrc'', ''.zshenv'', ''.zshrc''] \<and> rc = q @ [n]"
proof -
  let ?z = "case z of Some z \<Rightarrow> z | None \<Rightarrow> home"
  have "is_file rc d \<and> rc \<in> {home @ [''.profile''], home @ [''.bash_profile''], home @ [''.bash_login''], home @ [''.bashrc''],
      ?z @ [''.zshenv''], ?z @ [''.zshrc'']}"
    using assms unfolding rc_candidates_def Let_def set_filter mem_Collect_eq
    by (simp split: if_splits) (elim conjE disjE; simp)+
  then show "is_file rc d"
    and "\<exists>q n. n \<in> set [''.profile'', ''.bash_profile'', ''.bash_login'', ''.bashrc'', ''.zshenv'', ''.zshrc''] \<and> rc = q @ [n]"
    by auto
qed

lemma fish_conf_effect:
  assumes "fish_conf m fd app e r d = (Ok r', d')"
  shows "is_file (fd @ [''conf.d'', app @ ''.fish'']) d'"
    and "q \<noteq> fd @ [''conf.d'', app @ ''.fish''] \<Longrightarrow> node_at q d = Some n \<Longrightarrow> node_at q d' = Some n"
    and "q \<noteq> fd @ [''conf.d'', app @ ''.fish''] \<Longrightarrow> is_file q d' = is_file q d"
proof -
  let ?conf = "fd @ [''conf.d'', app @ ''.fish'']" and ?bs = "''source '' @ quoted (e @ ''/env.fish'') @ [newline_char]"
  obtain x d1 where rd: "fs_read m ?conf d = (x, d1)" by fastforce
  have same: "node_at q d1 = node_at q d" for q using keepsD [OF keeps_calls(8) rd] .
  have "(is_file ?conf d1 \<and> d' = d1) \<or>
      (\<exists>d2. fs_create_dir_all m (fd @ [''conf.d'']) d1 = (Ok (), d2) \<and> fs_write m ?conf ?bs d2 = (Ok (), d'))"
  proof (cases x)
    case (Inr c)
    then show ?thesis
      using assms rd read_effect [of m ?conf d c d1]
      by (auto simp: fish_conf_def Let_def op_bind_def op_result_def op_lift_def is_file_def split: if_splits)
  next
    case (Inl er)
    then show ?thesis
      using assms rd
      by (auto simp: fish_conf_def Let_def op_bind_def op_result_def op_lift_def split: if_splits prod.splits sum.splits)
  qed
  then consider "is_file ?conf d1" "d' = d1" | d2 where "fs_create_dir_all m (fd @ [''conf.d'']) d1 = (Ok (), d2)"
    "fs_write m ?conf ?bs d2 = (Ok (), d')" by blast
  note cs = this
  show "is_file ?conf d'"
    by (cases rule: cs) (auto simp: is_file_def dest!: write_node)
  show "q \<noteq> ?conf \<Longrightarrow> node_at q d = Some n \<Longrightarrow> node_at q d' = Some n"
    by (cases rule: cs) (auto simp: same dest!: create_dir_all_node [where n = n] keepsD [OF keeps_calls(5), of q])
  have dirs: "is_file q d2 = is_file q d1" if "fs_create_dir_all m (fd @ [''conf.d'']) d1 = (Ok (), d2)" for d2
    using that
    by (auto simp: fs_create_dir_all_def syscall_def Let_def is_file_def split: option.splits fault.splits if_splits)
  show "q \<noteq> ?conf \<Longrightarrow> is_file q d' = is_file q d"
    by (cases rule: cs) (auto simp: is_file_def same dirs [unfolded is_file_def] dest!: keepsD [OF keeps_calls(5), of q])
qed

lemma set_up_frame:
  assumes "node_at p d' = node_at p d"
  shows "holds_dir e p d' = holds_dir e p d" "foreign_file e p d' = foreign_file e p d" "is_file p d' = is_file p d"
    "sources_env e d' p = sources_env e d p"
  using assms by (simp_all add: holds_dir_def foreign_file_def is_file_def sources_env_def)

text \<open>A successful edit sets the path up.\<close>

lemma edit_rc_files_effect:
  assumes "edit_rc_files m env home e r d = (Ok r', d')" "newline_char \<notin> set e"
  shows "rc \<in> set (rc_candidates home (zdotdir_of env) d) \<Longrightarrow> sources_env e d' rc"
    and "q \<notin> set (rc_candidates home (zdotdir_of env) d) \<Longrightarrow> node_at q d' = node_at q d"
    and "rc_candidates home (zdotdir_of env) d' = rc_candidates home (zdotdir_of env) d"
proof -
  let ?cs = "rc_candidates home (zdotdir_of env) d"
  obtain r1 where run: "add_rc_lines m (source_line e) (other_source_line e) ?cs r d = (Ok r1, d')"
    using assms(1) by (auto simp: edit_rc_files_def op_Ok_iffs)
  show here: "sources_env e d' rc" if "rc \<in> set ?cs" for rc
    using add_rc_lines_effect [OF run rc_candidates_distinct assms(2) that] .
  show frame: "node_at q d' = node_at q d" if "q \<notin> set ?cs" for q
    using keepsD [OF keeps_add_rc_lines [OF that] run] .
  have "is_file q d' = is_file q d" for q
  proof (cases "q \<in> set ?cs")
    case True
    then show ?thesis
      using here [OF True] rc_candidates_facts(1) [OF True]
      by (auto simp: sources_env_def is_file_def split: option.splits node.splits)
  next
    case False
    then show ?thesis using frame [OF False] by (simp add: is_file_def)
  qed
  then show "rc_candidates home (zdotdir_of env) d' = ?cs" by (intro rc_candidates_cong)
qed

text \<open>No call reports a file that exists as missing.\<close>

definition honest :: "machine \<Rightarrow> bool" where
  "honest m \<longleftrightarrow> (\<forall>n e part. mc_fault m n = Some (Fault e part) \<longrightarrow> ie_kind e \<noteq> KNotFound)"

lemma honest_read: "honest m \<Longrightarrow> fs_read m p d = (Err e, d') \<Longrightarrow> ie_kind e = KNotFound \<Longrightarrow> node_at p d = None"
  by (auto simp: fs_read_def syscall_def Let_def honest_def split: option.splits fault.splits node.splits)

lemma existing_kept:
  assumes "honest m" "node_at q d = Some n"
  shows "ensure_env_file m p c e r d = (res, d') \<Longrightarrow> node_at q d' = Some n"
    and "fish_conf m fd app e r d = (res', d') \<Longrightarrow> node_at q d' = Some n"
proof -
  assume run: "ensure_env_file m p c e r d = (res, d')"
  show "node_at q d' = Some n"
  proof (cases "q = p")
    case False
    then show ?thesis using keepsD [OF keeps_ensure run] assms(2) by simp
  next
    case True
    obtain x d1 where rd: "fs_read m p d = (x, d1)" by fastforce
    then have "d' = d1"
      using run True assms honest_read [OF assms(1), of p d]
      by (auto simp: ensure_env_file_def op_bind_def op_result_def op_lift_def split: sum.splits if_splits)
    then show ?thesis using keepsD [OF keeps_calls(8) rd] assms(2) by simp
  qed
next
  let ?conf = "fd @ [''conf.d'', app @ ''.fish'']" and ?bs = "''source '' @ quoted (e @ ''/env.fish'') @ [newline_char]"
  assume run: "fish_conf m fd app e r d = (res', d')"
  obtain x d1 where rd: "fs_read m ?conf d = (x, d1)" by fastforce
  have n1: "node_at q d1 = Some n" using keepsD [OF keeps_calls(8) rd] assms(2) by simp
  show "node_at q d' = Some n"
  proof (cases "d' = d1")
    case False
    then obtain er where x: "x = Err er" "ie_kind er = KNotFound"
      using run rd by (auto simp: fish_conf_def Let_def op_bind_def op_result_def op_lift_def split: sum.splits if_splits)
    then have q: "q \<noteq> ?conf" using honest_read [OF assms(1)] rd assms(2) by fastforce
    obtain y d2 where mk: "fs_create_dir_all m (fd @ [''conf.d'']) d1 = (y, d2)" by fastforce
    have n2: "node_at q d2 = Some n" using create_dir_all_node [OF mk n1] .
    have "d' = d2 \<or> (\<exists>z. fs_write m ?conf ?bs d2 = (z, d'))"
      using run rd x mk
      by (auto simp: fish_conf_def Let_def op_bind_def op_result_def op_lift_def split: sum.splits prod.splits)
    then show ?thesis using n2 keepsD [OF keeps_calls(5) [OF q]] by metis
  qed (use n1 in simp)
qed

lemma edit_fish_effect:
  assumes hon: "honest m" and run: "edit_fish m env home bin_dir e r d = (Ok r', d')"
  shows "is_dir (fish_dir_of env home) d' \<longrightarrow> foreign_file e (bin_dir @ [''env.fish'']) d' \<or>
      holds_dir e (bin_dir @ [''env.fish'']) d' \<and> is_file (fish_conf_path env home) d'"
    and "node_at q d = Some n \<Longrightarrow> node_at q d' = Some n"
    and "q \<noteq> bin_dir @ [''env.fish''] \<Longrightarrow> q \<noteq> fish_conf_path env home \<Longrightarrow> is_file q d' = is_file q d"
proof -
  let ?f = "bin_dir @ [''env.fish'']" and ?fd = "fish_dir_of env home"
  consider "\<not> is_dir ?fd d" "d' = d"
    | b r1 d1 where "ensure_env_file m ?f (fish_env_file_contents e) e r d = (Ok (b, r1), d1)"
        "if b then fish_conf m ?fd (ev_app env) e r1 d1 = (Ok r', d') else d' = d1"
    using run by (auto simp: edit_fish_def op_Ok_iffs split: if_splits)
  note cs = this
  show old: "node_at q d = Some n \<Longrightarrow> node_at q d' = Some n" for q n
    by (cases rule: cs) (auto dest: existing_kept [OF hon] split: if_splits)
  show "is_dir ?fd d' \<longrightarrow> foreign_file e ?f d' \<or> holds_dir e ?f d' \<and> is_file (fish_conf_path env home) d'"
  proof (cases rule: cs)
    case (2 b r1 d1)
    note env = ensure_env_file_effect [OF 2(1) env_files_name_dir(2)]
    show ?thesis
    proof (cases b)
      case True
      then have fc: "fish_conf m ?fd (ev_app env) e r1 d1 = (Ok r', d')" using 2(2) by simp
      have "holds_dir e ?f d'"
        using env True existing_kept(2) [OF hon _ fc, of ?f] by (auto simp: holds_dir_def split: option.splits)
      then show ?thesis using fish_conf_effect(1) [OF fc] by simp
    qed (use 2(2) env in simp)
  qed simp
  assume q: "q \<noteq> ?f" "q \<noteq> fish_conf_path env home"
  show "is_file q d' = is_file q d"
  proof (cases rule: cs)
    case (2 b r1 d1)
    have "is_file q d1 = is_file q d" using keepsD [OF keeps_ensure [OF q(1)] 2(1)] by (simp add: is_file_def)
    then show ?thesis using 2(2) fish_conf_effect(3) [of m ?fd "ev_app env" e r1 d1 r' d' q] q(2) by (auto split: if_splits)
  qed simp
qed

lemma rc_name_distinct:
  assumes "n \<in> set [''.profile'', ''.bash_profile'', ''.bash_login'', ''.bashrc'', ''.zshenv'', ''.zshrc'']"
  shows "q @ [n] \<noteq> bin_dir @ [''env.fish'']" "q @ [n] \<noteq> fish_conf_path env home" "q @ [n] \<noteq> bin_dir @ [''env'']"
proof -
  have n: "hd n = CHR ''.'' \<and> last n \<noteq> CHR ''h''"
    using assms unfolding list.set by (elim insertE emptyE; simp)
  have "last (ev_app env @ ''.fish'') = CHR ''h''" by simp
  then show "q @ [n] \<noteq> bin_dir @ [''env.fish'']" "q @ [n] \<noteq> fish_conf_path env home" "q @ [n] \<noteq> bin_dir @ [''env'']"
    using n by (auto simp del: last_appendR)
qed

theorem apply_sets_path_up:
  assumes hon: "honest m" and run: "apply_unix_path m env bin_dir d = (Ok r, d')"
  shows "path_set_up env bin_dir d'"
proof (cases "Option.bind (ev_home env) (\<lambda>h. shell_dir_expr (Some h) bin_dir)")
  case None
  then show ?thesis by (auto simp: path_set_up_def split: option.splits)
next
  case (Some e)
  then obtain home where home: "ev_home env = Some home" "shell_dir_expr (Some home) bin_dir = Some e"
    by (cases "ev_home env") auto
  let ?e = "bin_dir @ [''env'']" and ?cs = "rc_candidates home (zdotdir_of env)"
  have nl: "newline_char \<notin> set e" using shell_dir_expr_no_newline [OF home(2)] .
  obtain b r1 d1 where en: "ensure_env_file m ?e (posix_env_file_contents e) e
      (empty_report\<lparr>pr_current_shell_hint := source_line e\<rparr>) d = (Ok (b, r1), d1)"
    using run home by (auto simp: apply_unix_path_def op_Ok_iffs)
  note env = ensure_env_file_effect [OF en env_files_name_dir(1)]
  show ?thesis
  proof (cases b)
    case False
    then have "d' = d1" using run home en by (simp add: apply_unix_path_def op_bind_def op_lift_def)
    then show ?thesis using env False home by (simp add: path_set_up_def)
  next
    case True
    then obtain r2 d2 where rc: "edit_rc_files m env home e r1 d1 = (Ok r2, d2)"
      and fi: "edit_fish m env home bin_dir e r2 d2 = (Ok r, d')"
      using run home en by (auto simp: apply_unix_path_def op_bind_def split: prod.splits sum.splits)
    note rcs = edit_rc_files_effect [OF rc nl] and fish = edit_fish_effect [OF hon fi]
    note names = rc_name_distinct
    have "?cs d' = ?cs d2"
      by (rule rc_candidates_cong) (rule fish(3) [OF names(1,2)]; assumption)
    then have "?cs d' = ?cs d1" by (simp only: rcs(3))
    moreover have "sources_env e d' rc" if "rc \<in> set (?cs d1)" for rc
      using rcs(1) [OF that] fish(2) by (auto simp: sources_env_def split: option.splits)
    moreover have "holds_dir e ?e d'"
    proof -
      have "?e \<notin> set (?cs d1)" using rc_candidates_facts(2) names(3) by metis
      then have "node_at ?e d2 = node_at ?e d1" by (rule rcs(2))
      then show ?thesis using env True fish(2) by (auto simp: holds_dir_def split: option.splits)
    qed
    ultimately show ?thesis using fish(1) home by (simp add: path_set_up_def list_all_iff)
  qed
qed

section \<open>Editing again\<close>

definition calm :: "machine \<Rightarrow> bool" where
  "calm m \<longleftrightarrow> (\<forall>n. mc_fault m n = None)"

lemma set_up_tick [simp]:
  "holds_dir e p (d\<lparr>dk_tick := t\<rparr>) = holds_dir e p d" "foreign_file e p (d\<lparr>dk_tick := t\<rparr>) = foreign_file e p d"
  "is_file p (d\<lparr>dk_tick := t\<rparr>) = is_file p d" "is_dir p (d\<lparr>dk_tick := t\<rparr>) = is_dir p d"
  "sources_env e (d\<lparr>dk_tick := t\<rparr>) p = sources_env e d p"
  "rc_candidates h z (d\<lparr>dk_tick := t\<rparr>) = rc_candidates h z d"
  by (simp_all add: holds_dir_def foreign_file_def is_file_def is_dir_def sources_env_def rc_candidates_def)

lemma calm_read:
  "calm m \<Longrightarrow> node_at p d = Some (FileNode f) \<Longrightarrow> fs_read m p d = (Ok (fn_bytes f), d\<lparr>dk_tick := Suc (dk_tick d)\<rparr>)"
  by (simp add: fs_read_def syscall_def calm_def)

text \<open>The operation succeeds, changes no node and records no modification.\<close>

definition idle :: "path_modification list \<Rightarrow> (io_error, unix_path_report) op \<Rightarrow> disk \<Rightarrow> bool" where
  "idle ms f d \<longleftrightarrow> (\<exists>r t. f d = (Ok r, d\<lparr>dk_tick := t\<rparr>) \<and> pr_modifications r = ms)"

lemma idle_ok: "pr_modifications r = ms \<Longrightarrow> idle ms (op_ok r) d"
  unfolding idle_def op_lift_def by (intro exI [of _ r] exI [of _ "dk_tick d"]) simp

lemma idle_bind:
  "f d = (Ok x, d\<lparr>dk_tick := t\<rparr>) \<Longrightarrow> idle ms (g x) (d\<lparr>dk_tick := t\<rparr>) \<Longrightarrow> idle ms (op_bind f g) d"
  by (auto simp: idle_def op_bind_def)

lemma calm_ensure:
  assumes "calm m"
  shows "holds_dir e p d \<Longrightarrow> ensure_env_file m p c e r d = (Ok (True, r), d\<lparr>dk_tick := Suc (dk_tick d)\<rparr>)"
    and "foreign_file e p d \<Longrightarrow> \<exists>n. ensure_env_file m p c e r d = (Ok (False, add_note n r), d\<lparr>dk_tick := Suc (dk_tick d)\<rparr>)"
  by (auto simp: ensure_env_file_def op_bind_def op_result_def op_lift_def holds_dir_def foreign_file_def is_file_def
      calm_read [OF assms] split: option.splits node.splits)

lemma calm_add_rc_lines:
  assumes "calm m" "list_all (sources_env e d) rcs"
  shows "\<exists>t. add_rc_lines m (source_line e) (other_source_line e) rcs r d = (Ok r, d\<lparr>dk_tick := t\<rparr>)"
  using assms(2)
proof (induction rcs arbitrary: d)
  case Nil
  show ?case by (intro exI [of _ "dk_tick d"]) (simp add: op_lift_def)
next
  case (Cons rc rcs)
  then obtain f where f: "node_at rc d = Some (FileNode f)" "has_line (source_line e) (other_source_line e) (fn_bytes f)"
    by (auto simp: sources_env_def split: option.splits node.splits)
  have "list_all (sources_env e (d\<lparr>dk_tick := Suc (dk_tick d)\<rparr>)) rcs" using Cons.prems by (simp add: list_all_iff)
  from Cons.IH [OF this] show ?case using f by (auto simp: op_bind_def calm_read [OF assms(1)])
qed

lemma idle_fish_conf:
  assumes "calm m" "is_file (fd @ [''conf.d'', app @ ''.fish'']) d"
  shows "idle (pr_modifications r) (fish_conf m fd app e r) d"
proof -
  obtain f where f: "node_at (fd @ [''conf.d'', app @ ''.fish'']) d = Some (FileNode f)"
    using assms(2) by (auto simp: is_file_def split: option.splits node.splits)
  show ?thesis
    unfolding fish_conf_def Let_def
    by (rule idle_bind [where t = "Suc (dk_tick d)"])
       (auto simp: op_result_def calm_read [OF assms(1) f] add_note_def intro!: idle_ok)
qed

lemma idle_edit_fish:
  assumes "calm m" "is_dir (fish_dir_of env home) d \<longrightarrow> foreign_file e (bin_dir @ [''env.fish'']) d \<or>
      holds_dir e (bin_dir @ [''env.fish'']) d \<and> is_file (fish_conf_path env home) d"
  shows "idle (pr_modifications r) (edit_fish m env home bin_dir e r) d"
proof -
  let ?p = "bin_dir @ [''env.fish'']" and ?c = "fish_env_file_contents e"
  have "idle (pr_modifications r) (op_bind (ensure_env_file m ?p ?c e r) (\<lambda>(fish_ok, report).
      if fish_ok then fish_conf m (fish_dir_of env home) (ev_app env) e report else op_ok report)) d"
    if "foreign_file e ?p d \<or> holds_dir e ?p d \<and> is_file (fish_conf_path env home) d"
    using that
  proof
    assume "foreign_file e ?p d"
    then obtain n where "ensure_env_file m ?p ?c e r d = (Ok (False, add_note n r), d\<lparr>dk_tick := Suc (dk_tick d)\<rparr>)"
      using calm_ensure(2) [OF assms(1)] by blast
    then show ?thesis by (rule idle_bind) (simp add: add_note_def idle_ok)
  next
    assume "holds_dir e ?p d \<and> is_file (fish_conf_path env home) d"
    then show ?thesis
      by (intro idle_bind [OF calm_ensure(1) [OF assms(1)]]) (auto intro!: idle_fish_conf [OF assms(1)])
  qed
  then show ?thesis
    using assms(2) unfolding edit_fish_def
    by (intro idle_bind [where t = "dk_tick d"]) (auto simp: op_get_def intro!: idle_ok)
qed

lemma path_edit_idempotent:
  assumes "calm m" "path_set_up env bin_dir d"
  shows "idle [] (apply_unix_path m env bin_dir) d"
proof (cases "Option.bind (ev_home env) (\<lambda>h. shell_dir_expr (Some h) bin_dir)")
  case None
  then show ?thesis
    by (auto simp: apply_unix_path_def empty_report_def add_note_def split: option.splits intro!: idle_ok)
next
  case (Some e)
  then obtain home where home: "ev_home env = Some home" "shell_dir_expr (Some home) bin_dir = Some e"
    by (cases "ev_home env") auto
  let ?p = "bin_dir @ [''env'']" and ?c = "posix_env_file_contents e"
    and ?r = "empty_report\<lparr>pr_current_shell_hint := source_line e\<rparr>" and ?d = "d\<lparr>dk_tick := Suc (dk_tick d)\<rparr>"
  have unf: "apply_unix_path m env bin_dir = op_bind (ensure_env_file m ?p ?c e ?r) (\<lambda>(usable, report).
      if \<not> usable then op_ok report else op_bind (edit_rc_files m env home e report) (edit_fish m env home bin_dir e))"
    by (simp add: apply_unix_path_def home)
  show ?thesis
  proof (cases "foreign_file e ?p d")
    case True
    then obtain n where "ensure_env_file m ?p ?c e ?r d = (Ok (False, add_note n ?r), ?d)"
      using calm_ensure(2) [OF assms(1)] by blast
    then show ?thesis unfolding unf by (rule idle_bind) (simp add: add_note_def empty_report_def idle_ok)
  next
    case False
    then have up: "holds_dir e ?p d" "list_all (sources_env e d) (rc_candidates home (zdotdir_of env) d)"
      "is_dir (fish_dir_of env home) d \<longrightarrow> foreign_file e (bin_dir @ [''env.fish'']) d \<or>
        holds_dir e (bin_dir @ [''env.fish'']) d \<and> is_file (fish_conf_path env home) d"
      using assms(2) home by (auto simp: path_set_up_def)
    obtain t where "add_rc_lines m (source_line e) (other_source_line e) (rc_candidates home (zdotdir_of env) d) ?r ?d =
        (Ok ?r, ?d\<lparr>dk_tick := t\<rparr>)"
      using calm_add_rc_lines [OF assms(1), of e ?d] up(2) by (fastforce simp: list_all_iff)
    then obtain r where rc: "edit_rc_files m env home e ?r ?d = (Ok r, d\<lparr>dk_tick := t\<rparr>)" "pr_modifications r = []"
      by (auto simp: edit_rc_files_def op_bind_def op_get_def op_lift_def add_note_def empty_report_def)
    have "idle [] (edit_fish m env home bin_dir e r) (d\<lparr>dk_tick := t\<rparr>)"
      using idle_edit_fish [OF assms(1), of env home "d\<lparr>dk_tick := t\<rparr>" e bin_dir r] up(3) rc(2) by simp
    then have "idle [] (op_bind (edit_rc_files m env home e ?r) (edit_fish m env home bin_dir e)) ?d"
      using rc(1) by (simp add: idle_def op_bind_def)
    then have rest: "idle [] (case (True, ?r) of (usable, report) \<Rightarrow> if \<not> usable then op_ok report
        else op_bind (edit_rc_files m env home e report) (edit_fish m env home bin_dir e)) ?d" by simp
    show ?thesis unfolding unf
      by (rule idle_bind [where x = "(True, ?r)" and t = "Suc (dk_tick d)"])
         (rule calm_ensure(1) [OF assms(1) up(1)], rule rest)
  qed
qed

section \<open>What the edit touches\<close>

text \<open>The node afterwards: as before, or a file with (a first part of) the line appended once.\<close>

definition grown :: "string \<Rightarrow> node \<Rightarrow> node option \<Rightarrow> bool" where
  "grown line n n' \<longleftrightarrow>
     (\<exists>f k t. n = FileNode f \<and>
        n' = Some (FileNode (f\<lparr>fn_bytes := fn_bytes f @ take k (appended_text (fn_bytes f) line), fn_mtime := t\<rparr>)))"

lemma append_grows:
  assumes "fs_append m p (appended_text (fn_bytes f) line) d = (res, d')" "node_at p d = Some (FileNode f)"
  shows "node_at p d' = Some (FileNode f) \<or> grown line (FileNode f) (node_at p d')"
proof -
  let ?bs = "appended_text (fn_bytes f) line"
  consider "node_at p d' = Some (FileNode f)"
    | k t where "node_at p d' = Some (FileNode (f\<lparr>fn_bytes := fn_bytes f @ take k ?bs, fn_mtime := t\<rparr>))"
    using assms
    by (auto simp: fs_append_def syscall_def Let_def append_bytes_node split: option.splits fault.splits)
       (metis order_refl take_all)
  then show ?thesis by cases (auto simp: grown_def)
qed

lemma add_rc_lines_step:
  assumes "add_rc_lines m line alt (rc # rcs) r d = (res, d')"
  obtains dx where
    "d' = dx \<or> (\<exists>r1. add_rc_lines m line alt rcs r1 dx = (res, d'))"
    "(\<forall>q. node_at q dx = node_at q d) \<or>
     (\<exists>f d2 z. (\<forall>q. node_at q d2 = node_at q d) \<and> node_at rc d = Some (FileNode f) \<and>
        fs_append m rc (appended_text (fn_bytes f) line) d2 = (z, dx))"
proof -
  obtain x d1 where rd: "fs_read m rc d = (x, d1)" by fastforce
  have n1: "node_at q d1 = node_at q d" for q using keepsD [OF keeps_calls(8) rd] .
  obtain y d2 where op: "fs_open_append m rc d1 = (y, d2)" by fastforce
  have n2: "node_at q d2 = node_at q d" for q using keepsD [OF keeps_append(2) op] n1 by simp
  show ?thesis
  proof (cases "isl x \<or> has_line line alt (projr x)")
    case True
    then show ?thesis
      using that [of d1] assms rd n1 by (cases x) (auto simp: op_bind_def split: if_splits)
  next
    case False
    then obtain f where x: "x = Ok (fn_bytes f)" "node_at rc d = Some (FileNode f)"
      using rd read_effect [of m rc d _ d1] by (cases x) auto
    obtain z dx where ap: "fs_append m rc (appended_text (fn_bytes f) line) d2 = (z, dx)" by fastforce
    show ?thesis
    proof (cases y)
      case (Inl er)
      then show ?thesis using that [of d2] assms rd op x n2 False by (auto simp: op_bind_def)
    next
      case (Inr u)
      then have "d' = dx \<or> (\<exists>r1. add_rc_lines m line alt rcs r1 dx = (res, d'))"
        using assms rd op x ap False by (cases z) (auto simp: op_bind_def)
      then show ?thesis using that [of dx] ap x(2) n2 by blast
    qed
  qed
qed

lemma add_rc_lines_grows:
  assumes "add_rc_lines m line alt rcs r d = (res, d')" "distinct rcs" "node_at q d = Some n"
  shows "node_at q d' = Some n \<or> q \<in> set rcs \<and> grown line n (node_at q d')"
  using assms
proof (induction rcs arbitrary: r d)
  case Nil
  then show ?case by (simp add: op_lift_def)
next
  case (Cons rc rcs)
  obtain dx where rest: "d' = dx \<or> (\<exists>r1. add_rc_lines m line alt rcs r1 dx = (res, d'))"
    and step: "(\<forall>q. node_at q dx = node_at q d) \<or>
     (\<exists>f d2 z. (\<forall>q. node_at q d2 = node_at q d) \<and> node_at rc d = Some (FileNode f) \<and>
        fs_append m rc (appended_text (fn_bytes f) line) d2 = (z, dx))"
    using add_rc_lines_step [OF Cons.prems(1)] .
  show ?case
  proof (cases "q = rc")
    case False
    then have "node_at q dx = Some n" using step Cons.prems(3) keepsD [OF keeps_append(1)] by metis
    then show ?thesis using rest Cons.IH Cons.prems(2) by auto
  next
    case True
    have "node_at q dx = Some n \<or> grown line n (node_at q dx)"
      using step append_grows [of m rc _ line] True Cons.prems(3) by fastforce
    moreover have "node_at q d' = node_at q dx"
      using rest True Cons.prems(2) keepsD [OF keeps_add_rc_lines [of q rcs]] by auto
    ultimately show ?thesis using True by simp
  qed
qed

lemma edit_fish_keeps_existing:
  assumes "honest m" "edit_fish m env home bin_dir e r d = (res, d')" "node_at q d = Some n"
  shows "node_at q d' = Some n"
proof (cases "is_dir (fish_dir_of env home) d")
  case False
  then show ?thesis using assms(2,3) by (simp add: edit_fish_def op_bind_def op_get_def op_lift_def)
next
  case True
  obtain x d1 where en: "ensure_env_file m (bin_dir @ [''env.fish'']) (fish_env_file_contents e) e r d = (x, d1)" by fastforce
  have "node_at q d1 = Some n" by (rule existing_kept(1) [OF assms(1,3) en])
  then show ?thesis
    using assms(2) True en existing_kept(2) [OF assms(1), of q d1 n]
    by (auto simp: edit_fish_def op_bind_def op_get_def op_lift_def split: sum.splits if_splits prod.splits)
qed

lemma edit_rc_files_run:
  assumes "edit_rc_files m env home e r d = (res, d')"
  obtains res' where "add_rc_lines m (source_line e) (other_source_line e) (rc_candidates home (zdotdir_of env) d) r d = (res', d')"
  using assms by (auto simp: edit_rc_files_def op_bind_def op_get_def op_lift_def split: prod.splits sum.splits)

lemma apply_unix_path_run:
  assumes "apply_unix_path m env bin_dir d = (res, d')" "d' \<noteq> d"
  obtains home e r x d1 where "ev_home env = Some home" "shell_dir_expr (Some home) bin_dir = Some e"
    "ensure_env_file m (bin_dir @ [''env'']) (posix_env_file_contents e) e r d = (x, d1)"
    "d' = d1 \<or> (\<exists>r1 y d2. edit_rc_files m env home e r1 d1 = (y, d2) \<and>
       (d' = d2 \<or> (\<exists>r2. edit_fish m env home bin_dir e r2 d2 = (res, d'))))"
proof -
  obtain home e where home: "ev_home env = Some home" "shell_dir_expr (Some home) bin_dir = Some e"
    using assms by (auto simp: apply_unix_path_def op_lift_def split: option.splits)
  let ?r = "empty_report\<lparr>pr_current_shell_hint := source_line e\<rparr>"
  obtain x d1 where en: "ensure_env_file m (bin_dir @ [''env'']) (posix_env_file_contents e) e ?r d = (x, d1)" by fastforce
  have "d' = d1 \<or> (\<exists>r1 y d2. edit_rc_files m env home e r1 d1 = (y, d2) \<and>
       (d' = d2 \<or> (\<exists>r2. edit_fish m env home bin_dir e r2 d2 = (res, d'))))"
    using assms(1) home en
    by (auto simp: apply_unix_path_def op_bind_def op_lift_def split: sum.splits prod.splits if_splits)
  then show ?thesis using that home en by blast
qed

lemma edit_rc_files_grows:
  assumes "edit_rc_files m env home e r d = (res, d')" "node_at q d = Some n"
  shows "\<exists>n'. node_at q d' = Some n' \<and>
    (n' = n \<or> q \<in> set (rc_candidates home (zdotdir_of env) d) \<and> grown (source_line e) n (Some n'))"
proof -
  obtain res' where "add_rc_lines m (source_line e) (other_source_line e) (rc_candidates home (zdotdir_of env) d) r d = (res', d')"
    using edit_rc_files_run [OF assms(1)] .
  from add_rc_lines_grows [OF this rc_candidates_distinct assms(2)] show ?thesis by (auto simp: grown_def)
qed

lemma apply_existing:
  assumes hon: "honest m" and run: "apply_unix_path m env bin_dir d = (res, d')" and n: "node_at q d = Some n"
  shows "node_at q d' = Some n \<or>
      (\<exists>home e. ev_home env = Some home \<and> shell_dir_expr (Some home) bin_dir = Some e \<and>
         q \<in> set (rc_candidates home (zdotdir_of env) d) \<and> grown (source_line e) n (node_at q d'))"
proof (cases "d' = d")
  case False
  obtain home e r x d1 where home: "ev_home env = Some home" "shell_dir_expr (Some home) bin_dir = Some e"
    and en: "ensure_env_file m (bin_dir @ [''env'']) (posix_env_file_contents e) e r d = (x, d1)"
    and rest: "d' = d1 \<or> (\<exists>r1 y d2. edit_rc_files m env home e r1 d1 = (y, d2) \<and>
       (d' = d2 \<or> (\<exists>r2. edit_fish m env home bin_dir e r2 d2 = (res, d'))))"
    using apply_unix_path_run [OF run False] .
  let ?cs = "rc_candidates home (zdotdir_of env)"
  have cs: "?cs d1 = ?cs d"
    by (rule rc_candidates_cong) (simp add: is_file_def keepsD [OF keeps_ensure [OF rc_name_distinct(3)] en])
  have n1: "node_at q d1 = Some n" by (rule existing_kept(1) [OF hon n en])
  show ?thesis
  proof (cases "d' = d1")
    case False
    then obtain r1 y d2 where rc: "edit_rc_files m env home e r1 d1 = (y, d2)"
      and last: "d' = d2 \<or> (\<exists>r2. edit_fish m env home bin_dir e r2 d2 = (res, d'))" using rest by blast
    obtain n' where n': "node_at q d2 = Some n'" "n' = n \<or> q \<in> set (?cs d1) \<and> grown (source_line e) n (Some n')"
      using edit_rc_files_grows [OF rc n1] by blast
    have "node_at q d' = Some n'" using last n'(1) edit_fish_keeps_existing [OF hon] by blast
    then show ?thesis using n'(2) home cs by auto
  qed (use n1 in simp)
qed (use n in simp)

lemma keeps_edit_fish:
  assumes "q \<noteq> bin_dir @ [''env.fish'']" "q \<noteq> fish_conf_path env home" "\<not> prefix q (fish_dir_of env home @ [''conf.d''])"
  shows "keeps q (edit_fish m env home bin_dir e r)"
  using assms unfolding edit_fish_def fish_conf_def Let_def by (intro keep_rules)

lemma apply_created:
  assumes run: "apply_unix_path m env bin_dir d = (res, d')" and n: "node_at q d = None" "node_at q d' \<noteq> None"
  shows "q \<in> {bin_dir @ [''env''], bin_dir @ [''env.fish'']} \<or>
      (\<exists>home. ev_home env = Some home \<and> (q = fish_conf_path env home \<or> prefix q (fish_dir_of env home @ [''conf.d''])))"
proof (rule ccontr)
  assume no: "\<not> ?thesis"
  then have "d' \<noteq> d" using n by auto
  obtain home e r x d1 where home: "ev_home env = Some home"
    and en: "ensure_env_file m (bin_dir @ [''env'']) (posix_env_file_contents e) e r d = (x, d1)"
    and rest: "d' = d1 \<or> (\<exists>r1 y d2. edit_rc_files m env home e r1 d1 = (y, d2) \<and>
       (d' = d2 \<or> (\<exists>r2. edit_fish m env home bin_dir e r2 d2 = (res, d'))))"
    using apply_unix_path_run [OF run \<open>d' \<noteq> d\<close>] by metis
  have n1: "node_at q d1 = None" using keepsD [OF keeps_ensure en] no n(1) by auto
  then have cs: "q \<notin> set (rc_candidates home (zdotdir_of env) d1)"
    using rc_candidates_facts(1) by (fastforce simp: is_file_def)
  obtain r1 y d2 where rc: "edit_rc_files m env home e r1 d1 = (y, d2)"
    and last: "d' = d2 \<or> (\<exists>r2. edit_fish m env home bin_dir e r2 d2 = (res, d'))" using rest n1 n(2) by auto
  obtain y' where "add_rc_lines m (source_line e) (other_source_line e) (rc_candidates home (zdotdir_of env) d1) r1 d1 = (y', d2)"
    using edit_rc_files_run [OF rc] .
  then have "node_at q d2 = None" using keepsD [OF keeps_add_rc_lines [OF cs]] n1 by simp
  then show False using last n(2) no home keepsD [OF keeps_edit_fish] by auto
qed

end
