(* ===== verification/Self_Update.thy ===== *)
theory Self_Update
  imports Self_Release
begin

text \<open>
  \<open>self update\<close> and \<open>self rollback\<close> (\<open>self_install/update.rs\<close>): the receipt that must describe the
  running binary, the channel and the organisation's policy, the lock and the work directory with
  their destructors, downloading and verifying a release, and the exchange of the binary.

  The record \<open>update_world\<close> gathers the parameters. The main facts: whatever fails, the installed
  binary is left alone or replaced by one that came out of an archive listed, with its digest, in a
  checksum file that is signed when the application has a key; a successful rollback undoes a
  successful update.
\<close>

section \<open>Errors and requests\<close>

datatype refusal = UpdateDisabled | RollbackDisabled | OnlyStable | BelowMinimum string string

datatype bad_release = ProbeFailed probe_error | OtherVersion string string

datatype 'v self_install_error =
    RunningAsRoot string
  | NoBinDir
  | NoStateDir
  | ForeignBinary path string
  | ReceiptFailed receipt_error
  | PlaceFailed path io_error
  | ManagedByPackageManager string string string
  | NoReceipt string path string path
  | UnsafePurge path string
  | IoFailed string path io_error
  | NeedsElevation path string
  | NotManaged string path string
  | ReceiptMismatch path path
  | PolicyRefused string refusal
  | ReleaseFailed "'v release_error"
  | VerifyFailed archive_error
  | BadRelease bad_release
  | Downgrade string string string
  | NothingToRollBack path
  | BadRequest request_problem
  | Locked path

datatype arg_path = AbsPath path | RelPath path

definition resolve_arg :: "machine \<Rightarrow> arg_path \<Rightarrow> path" where
  "resolve_arg m a =
     (case a of AbsPath p \<Rightarrow> p | RelPath p \<Rightarrow> (case mc_cwd m of Some c \<Rightarrow> c @ p | None \<Rightarrow> p))"

record update_request =
  ur_target :: "string option"
  ur_check :: bool
  ur_from :: "arg_path option"
  ur_force :: bool

datatype update_action = UpToDate | Available | Updated

record update_outcome =
  uo_action :: update_action
  uo_current :: string
  uo_target :: string
  uo_channel :: "string option"
  uo_binary_path :: path
  uo_previous :: "path option"
  uo_notes :: "string list"

record rollback_outcome =
  ro_from :: string
  ro_to :: string
  ro_binary_path :: path
  ro_notes :: "string list"

record build =
  bd_arch :: string
  bd_os :: os
  bd_os_name :: string
  bd_target_env :: string

definition current_target :: "build \<Rightarrow> string" where
  "current_target b =
     bd_arch b @ ''-'' @
     (case bd_os b of
        Macos \<Rightarrow> ''apple-darwin''
      | Windows \<Rightarrow> if bd_target_env b = ''msvc'' then ''pc-windows-msvc'' else ''pc-windows-gnu''
      | Linux \<Rightarrow> if bd_target_env b = ''musl'' then ''unknown-linux-musl'' else ''unknown-linux-gnu''
      | OtherUnix \<Rightarrow> bd_os_name b)"

record 'v update_world =
  uw_machine :: machine
  uw_network :: network
  uw_tools :: archive_tools
  uw_codec :: receipt_codec
  uw_semver :: "'v semver"
  uw_build :: build
  uw_set_version :: "string \<Rightarrow> string \<Rightarrow> string + unit"

section \<open>Deciding\<close>

definition prev_path :: "path \<Rightarrow> path" where
  "prev_path binary = os_str_push binary ''.prev''"

definition managed_receipt :: "'v update_world \<Rightarrow> install_env \<Rightarrow> ('v self_install_error, path \<times> install_receipt) op" where
  "managed_receipt w env =
     (let m = uw_machine w
      in case receipt_path env of
           None \<Rightarrow> op_err NoStateDir
         | Some receipt_file \<Rightarrow>
             op_bind (op_map_err ReceiptFailed (receipt_load m (uw_codec w) receipt_file)) (\<lambda>receipt.
             op_bind (op_get (\<lambda>d. infer_method_from_path m d (ev_current_exe env))) (\<lambda>inferred.
             let pm = (\<lambda>mt. if is_package_manager mt then Some mt else None);
                 from_path = Option.bind inferred pm
             in case (case Option.bind receipt (\<lambda>r. pm (rc_method r)) of Some mt \<Rightarrow> Some mt | None \<Rightarrow> from_path) of
                  Some mt \<Rightarrow>
                    op_err (ManagedByPackageManager (ev_app env) (method_str mt)
                      (case upgrade_hint mt (ev_app env) of Some h \<Rightarrow> h | None \<Rightarrow> []))
                | None \<Rightarrow>
                    (case receipt of
                       None \<Rightarrow> op_err (NotManaged (ev_app env) receipt_file (ev_self_invocation env))
                     | Some rc \<Rightarrow>
                         op_bind (op_get (\<lambda>d. same_path m d (rc_binary_path rc) (ev_current_exe env) (ev_os env))) (\<lambda>ours.
                         if ours then op_ok (receipt_file, rc)
                         else op_err (ReceiptMismatch (rc_binary_path rc) (ev_current_exe env)))))))"

definition choose_channel ::
  "'v semver \<Rightarrow> 'v channel option \<Rightarrow> string \<Rightarrow> 'v self_update_policy \<Rightarrow> 'v self_install_error + 'v channel" where
  "choose_channel sv requested recorded policy =
     and_then
       (case requested of
          Some c \<Rightarrow> Ok c
        | None \<Rightarrow>
            (case up_channel policy of
               Some enforced \<Rightarrow> map_err BadRequest (channel_parse sv enforced)
             | None \<Rightarrow> (case channel_parse sv recorded of Ok c \<Rightarrow> Ok c | Err _ \<Rightarrow> Ok ChStable)))
       (\<lambda>channel.
        if up_channel policy = Some ''stable'' \<and>
           (case channel of ChLatest \<Rightarrow> True | ChExact v \<Rightarrow> \<not> sv_pre_empty sv v | ChStable \<Rightarrow> False)
        then Err (PolicyRefused KEY_CHANNEL OnlyStable)
        else Ok channel)"

definition check_minimum :: "'v::linorder semver \<Rightarrow> 'v self_update_policy \<Rightarrow> 'v \<Rightarrow> 'v self_install_error + unit" where
  "check_minimum sv policy version =
     (case up_minimum_version policy of
        Some low \<Rightarrow>
          if version < low then Err (PolicyRefused KEY_MINIMUM_VERSION (BelowMinimum (sv_show sv version) (sv_show sv low)))
          else Ok ()
      | None \<Rightarrow> Ok ())"

definition effective_source ::
  "install_env \<Rightarrow> self_install_options \<Rightarrow> 'v self_update_policy \<Rightarrow> 'v self_install_error + release_source" where
  "effective_source env opts policy =
     (case up_base_url policy of
        Some base \<Rightarrow> Ok (HttpMirror base)
      | None \<Rightarrow>
          let var = install_var_prefix (ev_app env) @ ''_INSTALLER_BASE_URL''
          in case env_var env var of
               Some base \<Rightarrow> if check_https base then Ok (HttpMirror base) else Err (BadRequest (BadBaseUrl var base))
             | None \<Rightarrow> Ok (so_source opts))"

definition github_token :: "install_env \<Rightarrow> release_source \<Rightarrow> string option" where
  "github_token env source =
     (case source of
        HttpMirror _ \<Rightarrow> None
      | Github _ _ \<Rightarrow>
          (case env_var env (install_var_prefix (ev_app env) @ ''_GITHUB_TOKEN'') of
             Some t \<Rightarrow> Some t
           | None \<Rightarrow> env_var env ''GITHUB_TOKEN''))"

definition token_hint :: "install_env \<Rightarrow> release_source \<Rightarrow> bool \<Rightarrow> 'v release_error \<Rightarrow> 'v release_error" where
  "token_hint env source sent err =
     (let hidden = (case err of
                      RStatus _ status \<Rightarrow> status \<in> {401, 403, 404}
                    | RNotFound _ _ \<Rightarrow> True
                    | _ \<Rightarrow> False);
          github = (case source of Github _ _ \<Rightarrow> True | HttpMirror _ \<Rightarrow> False)
      in if sent \<or> \<not> hidden \<or> \<not> github then err
         else RNoToken err (install_var_prefix (ev_app env) @ ''_GITHUB_TOKEN or GITHUB_TOKEN''))"

definition parse_running_version :: "'v semver \<Rightarrow> install_env \<Rightarrow> 'v self_install_error + 'v" where
  "parse_running_version sv env =
     map_err (\<lambda>e. BadRequest (RunningVersion (ev_version env) e)) (sv_parse sv (trim_v (ev_version env)))"

section \<open>The lock and the work directory\<close>

definition STALE_LOCK :: nat where "STALE_LOCK = 15 * 60"

definition lock_path :: "path \<Rightarrow> string \<Rightarrow> path" where
  "lock_path bin_dir app = bin_dir @ [''.'' @ app @ ''.lock'']"

definition lock_is_stale :: "machine \<Rightarrow> path \<Rightarrow> ('e, bool) op" where
  "lock_is_stale m p =
     op_bind (op_result (fs_modified m p)) (\<lambda>r.
     op_get (\<lambda>d. case r of
       Err _ \<Rightarrow> False
     | Ok t \<Rightarrow> t \<le> mc_now m (dk_tick d) \<and> STALE_LOCK < mc_now m (dk_tick d) - t))"

fun lock_attempts :: "machine \<Rightarrow> path \<Rightarrow> nat \<Rightarrow> ('v self_install_error, unit) op" where
  "lock_attempts m p 0 = op_err (Locked p)"
| "lock_attempts m p (Suc n) =
     op_bind (op_result (fs_create_new m p)) (\<lambda>r. case r of
       Ok _ \<Rightarrow> op_ignore (fs_write m p (nat_dec (mc_pid m) @ [newline_char]))
     | Err e \<Rightarrow>
         if ie_kind e = KAlreadyExists then
           op_bind (lock_is_stale m p) (\<lambda>stale.
           if \<not> stale then op_err (Locked p)
           else op_bind (op_ignore (fs_remove_file m p)) (\<lambda>_. lock_attempts m p n))
         else op_err (IoFailed ''cannot create the update lock'' p e))"

definition lock_acquire :: "machine \<Rightarrow> path \<Rightarrow> string \<Rightarrow> ('v self_install_error, unit) op" where
  "lock_acquire m bin_dir app =
     lock_attempts m (lock_path bin_dir app) 2"

text \<open>The scope of the lock: its destructor removes the file on every way out.\<close>

definition with_lock :: "machine \<Rightarrow> path \<Rightarrow> string \<Rightarrow> ('v self_install_error, 'a) op \<Rightarrow> ('v self_install_error, 'a) op" where
  "with_lock m bin_dir app body =
     op_bind (lock_acquire m bin_dir app) (\<lambda>_. op_finally body (fs_remove_file m (lock_path bin_dir app)))"

definition work_path :: "machine \<Rightarrow> path \<Rightarrow> string \<Rightarrow> path" where
  "work_path m bin_dir app = bin_dir @ [''.'' @ app @ ''-update.'' @ nat_dec (mc_pid m)]"

definition work_create :: "machine \<Rightarrow> path \<Rightarrow> string \<Rightarrow> ('v self_install_error, unit) op" where
  "work_create m bin_dir app =
     (let p = work_path m bin_dir app
      in op_bind (op_ignore (fs_remove_dir_all m p)) (\<lambda>_.
         op_map_err (IoFailed ''cannot create a temporary directory'' p) (fs_create_dir_all m p)))"

definition with_work :: "machine \<Rightarrow> path \<Rightarrow> string \<Rightarrow> (path \<Rightarrow> ('v self_install_error, 'a) op) \<Rightarrow> ('v self_install_error, 'a) op" where
  "with_work m bin_dir app body =
     (let p = work_path m bin_dir app
      in op_bind (work_create m bin_dir app) (\<lambda>_. op_finally (body p) (fs_remove_dir_all m p)))"

section \<open>Staging a release\<close>

definition read_text :: "machine \<Rightarrow> path \<Rightarrow> ('v self_install_error, string) op" where
  "read_text m p = op_map_err (\<lambda>e. VerifyFailed (ArchiveIo p e)) (fs_read m p)"

definition probe_staged :: "'v update_world \<Rightarrow> install_env \<Rightarrow> path \<Rightarrow> ('v self_install_error, 'v) op" where
  "probe_staged w env binary =
     op_bind (op_get (node_at binary)) (\<lambda>n.
     op_lift (map_err (\<lambda>e. BadRelease (ProbeFailed e)) (probe_version (uw_semver w) (uw_tools w) (ev_os env) binary n)))"

definition stage_local_archive ::
  "'v update_world \<Rightarrow> install_env \<Rightarrow> self_install_options \<Rightarrow> arg_path \<Rightarrow> path \<Rightarrow> ('v self_install_error, path \<times> 'v) op" where
  "stage_local_archive w env opts arg work =
     (let m = uw_machine w; tools = uw_tools w;
          archive = resolve_arg m arg;
          dir = butlast archive;
          asset = (if archive = [] then [] else last archive)
      in op_bind (read_text m (dir @ [SUMS_FILE])) (\<lambda>listing.
         op_bind
           (case so_public_key opts of
              None \<Rightarrow> op_ok ()
            | Some key \<Rightarrow>
                op_bind (op_get (path_exists (dir @ [SIGNATURE_FILE]))) (\<lambda>there.
                if \<not> there then op_err (VerifyFailed (Unsigned (path_display dir)))
                else op_bind (read_text m (dir @ [SIGNATURE_FILE])) (\<lambda>sig.
                     op_lift (map_err VerifyFailed (verify_signature tools listing sig key))))) (\<lambda>_.
         op_bind (op_map_err VerifyFailed (verify_checksum m tools archive asset listing)) (\<lambda>_.
         op_bind (op_map_err VerifyFailed
                    (extract_binary m tools (ev_os env) archive (binary_file_name (ev_app env) (ev_os env)) work)) (\<lambda>binary.
         op_bind (probe_staged w env binary) (\<lambda>version.
         op_ok (binary, version)))))))"

definition resolve_release ::
  "'v::linorder update_world \<Rightarrow> install_env \<Rightarrow> self_install_options \<Rightarrow> 'v self_update_policy \<Rightarrow> 'v channel \<Rightarrow>
   ('v self_install_error, string option \<times> 'v resolved_release) op" where
  "resolve_release w env opts policy channel =
     op_bind (op_lift (effective_source env opts policy)) (\<lambda>source.
     let token = github_token env source
     in op_bind (op_lift (map_err (\<lambda>e. ReleaseFailed (RInvalid (NoClient e))) (nw_client (uw_network w)))) (\<lambda>_.
        op_bind (op_map_err (\<lambda>e. ReleaseFailed (token_hint env source (token \<noteq> None) e))
                   (fetcher_resolve (uw_semver w) (uw_network w) token source (so_tag_prefix opts)
                      (\<lambda>v. asset_name opts (ev_app env) (sv_show (uw_semver w) v) (current_target (uw_build w))) channel)) (\<lambda>release.
        op_ok (token, release))))"

definition download_verified ::
  "'v update_world \<Rightarrow> install_env \<Rightarrow> self_install_options \<Rightarrow> string option \<Rightarrow> 'v resolved_release \<Rightarrow> path \<Rightarrow>
   ('v self_install_error, path) op" where
  "download_verified w env opts token release work =
     (let m = uw_machine w; nw = uw_network w; tools = uw_tools w;
          archive = path_join work (rr_asset release)
      in op_bind (op_map_err ReleaseFailed
                    (fetcher_download m nw token (rr_sums_url release) (rr_via_api release) (work @ [SUMS_FILE]))) (\<lambda>_.
         op_bind (read_text m (work @ [SUMS_FILE])) (\<lambda>listing.
         op_bind
           (case so_public_key opts of
              None \<Rightarrow> op_ok ()
            | Some key \<Rightarrow>
                op_bind
                  (case rr_signature_url release of
                     Some url \<Rightarrow> op_map_err ReleaseFailed (fetch_optional_text nw token url (rr_via_api release))
                   | None \<Rightarrow> op_ok None) (\<lambda>signature.
                case signature of
                  None \<Rightarrow> op_err (VerifyFailed (Unsigned (''release '' @ rr_tag release)))
                | Some sig \<Rightarrow> op_lift (map_err VerifyFailed (verify_signature tools listing sig key)))) (\<lambda>_.
         op_bind (op_map_err ReleaseFailed
                    (fetcher_download m nw token (rr_asset_url release) (rr_via_api release) archive)) (\<lambda>_.
         op_bind (op_map_err VerifyFailed (verify_checksum m tools archive (rr_asset release) listing)) (\<lambda>_.
         op_bind (op_map_err VerifyFailed
                    (extract_binary m tools (ev_os env) archive (binary_file_name (ev_app env) (ev_os env)) work)) (\<lambda>binary.
         op_bind (probe_staged w env binary) (\<lambda>reported.
         if reported \<noteq> rr_version release
         then op_err (BadRelease (OtherVersion (rr_tag release) (sv_show (uw_semver w) reported)))
         else op_ok binary))))))))"

section \<open>Replacing the binary\<close>

definition set_not_executable :: "machine \<Rightarrow> os \<Rightarrow> path \<Rightarrow> ('e, unit) op" where
  "set_not_executable m sys p = (if is_windows sys then op_ok () else op_ignore (fs_set_exec m p False))"

definition keep_previous :: "machine \<Rightarrow> path \<Rightarrow> os \<Rightarrow> ('v self_install_error, path) op" where
  "keep_previous m dest sys =
     (let prev = prev_path dest
      in op_bind (op_map_err (IoFailed ''cannot keep the previous binary at'' prev) (fs_copy m dest prev)) (\<lambda>_.
         op_bind (set_not_executable m sys prev) (\<lambda>_. op_ok prev)))"

text \<open>The common end of both branches, inside the work directory.\<close>

definition place_staged ::
  "'v update_world \<Rightarrow> install_env \<Rightarrow> path \<Rightarrow> path \<Rightarrow> 'v \<Rightarrow>
   ('v self_install_error, update_outcome + (path \<times> place_result \<times> 'v)) op" where
  "place_staged w env dest staged target =
     op_bind (keep_previous (uw_machine w) dest (ev_os env)) (\<lambda>previous.
     op_bind (op_map_err (PlaceFailed dest) (place_binary (uw_machine w) staged dest Move (ev_os env))) (\<lambda>placed.
     op_ok (Inr (previous, placed, target))))"

definition parked_note :: "string \<Rightarrow> place_result \<Rightarrow> string list" where
  "parked_note what placed =
     (case pr_parked_old placed of
        Some old \<Rightarrow> [what @ '' is still running; '' @ path_display old @ '' is removed on the next start'']
      | None \<Rightarrow> [])"

definition apps_features_note :: "'v update_world \<Rightarrow> install_receipt \<Rightarrow> string list" where
  "apps_features_note w rc =
     (case rc_apps_and_features rc of
        None \<Rightarrow> []
      | Some key \<Rightarrow> (case uw_set_version w key (rc_version rc) of
          Err e \<Rightarrow> [''Apps & Features entry not updated: '' @ e] | Ok _ \<Rightarrow> []))"

definition record_update ::
  "'v update_world \<Rightarrow> update_request \<Rightarrow> path \<Rightarrow> install_receipt \<Rightarrow> 'v channel \<Rightarrow> 'v \<Rightarrow>
   (update_action \<Rightarrow> 'v \<Rightarrow> path option \<Rightarrow> string list \<Rightarrow> update_outcome) \<Rightarrow>
   update_outcome + (path \<times> place_result \<times> 'v) \<Rightarrow> ('v self_install_error, update_outcome) op" where
  "record_update w req receipt_file receipt channel current outcome step =
     (case step of
        Inl out \<Rightarrow> op_ok out
      | Inr (previous, placed, target) \<Rightarrow>
          op_bind (now_rfc3339 (uw_machine w)) (\<lambda>now.
          let rc = receipt\<lparr>rc_previous_version := Some (sv_show (uw_semver w) current),
                           rc_version := sv_show (uw_semver w) target,
                           rc_target := current_target (uw_build w),
                           rc_channel := (case channel_name channel of
                             Some name \<Rightarrow> if ur_from req = None then name else rc_channel receipt
                           | None \<Rightarrow> rc_channel receipt),
                           rc_installed_at := now\<rparr>
          in op_bind (op_map_err ReceiptFailed (receipt_save (uw_machine w) (uw_codec w) rc receipt_file)) (\<lambda>_.
             op_ok (outcome Updated target (Some previous)
               (parked_note ''the previous binary'' placed @ apps_features_note w rc)))))"

definition update ::
  "'v::linorder update_world \<Rightarrow> install_env \<Rightarrow> self_install_options \<Rightarrow> 'v self_update_policy \<Rightarrow> update_request \<Rightarrow>
   ('v self_install_error, update_outcome) op" where
  "update w env opts policy req =
     (let sv = uw_semver w; m = uw_machine w; app = ev_app env
      in op_bind (managed_receipt w env) (\<lambda>(receipt_file, receipt).
         if \<not> allows_update policy then op_err (PolicyRefused KEY_ENABLED UpdateDisabled)
         else
         op_bind (op_lift (parse_running_version sv env)) (\<lambda>current.
         op_bind (op_lift (map_err BadRequest (case ur_target req of
                    None \<Rightarrow> Ok None | Some t \<Rightarrow> map_sum id Some (channel_parse sv t)))) (\<lambda>requested.
         if ur_from req \<noteq> None \<and> requested \<noteq> None then op_err (BadRequest FromWithTarget)
         else
         op_bind (op_lift (choose_channel sv requested (rc_channel receipt) policy)) (\<lambda>channel.
         let bin_dir = rc_bin_dir receipt; dest = rc_binary_path receipt;
             outcome = (\<lambda>action target previous notes.
               \<lparr>uo_action = action, uo_current = sv_show sv current, uo_target = sv_show sv target,
                uo_channel = channel_name channel, uo_binary_path = dest, uo_previous = previous, uo_notes = notes\<rparr>);
             finish = record_update w req receipt_file receipt channel current outcome
         in case ur_from req of
              Some archive \<Rightarrow>
                with_lock m bin_dir app
                  (op_bind (with_work m bin_dir app (\<lambda>work.
                     op_bind (stage_local_archive w env opts archive work) (\<lambda>(binary, version).
                     op_bind (op_lift (check_minimum sv policy version)) (\<lambda>_.
                     if version = current \<and> \<not> ur_force req then op_ok (Inl (outcome UpToDate version None []))
                     else if ur_check req then op_ok (Inl (outcome Available version None []))
                     else place_staged w env dest binary version)))) finish)
            | None \<Rightarrow>
                op_bind (resolve_release w env opts policy channel) (\<lambda>(token, release).
                let version = rr_version release
                in if version = current \<and> \<not> ur_force req then op_ok (outcome UpToDate version None [])
                   else if version < current \<and> (case channel of ChExact _ \<Rightarrow> False | _ \<Rightarrow> True)
                   then op_err (Downgrade (sv_show sv current) (sv_show sv version) (ev_self_invocation env))
                   else
                   op_bind (op_lift (check_minimum sv policy version)) (\<lambda>_.
                   if ur_check req then op_ok (outcome Available version None [])
                   else
                     with_lock m bin_dir app
                       (op_bind (with_work m bin_dir app (\<lambda>work.
                          op_bind (download_verified w env opts token release work) (\<lambda>binary.
                          place_staged w env dest binary version))) finish))))))))"

text \<open>\<open>rollback\<close>: the binary and its previous copy change places.\<close>

definition swap_previous :: "'v update_world \<Rightarrow> install_env \<Rightarrow> path \<Rightarrow> path \<Rightarrow> ('v self_install_error, place_result) op" where
  "swap_previous w env bin_dir dest =
     (let m = uw_machine w; prev = prev_path dest;
          hold = bin_dir @ [''.'' @ binary_file_name (ev_app env) (ev_os env) @ ''.tmp-rollback-'' @ nat_dec (mc_pid m)]
      in op_bind (op_map_err (IoFailed ''cannot copy the current binary to'' hold) (fs_copy m dest hold)) (\<lambda>_.
         op_bind (op_map_err (PlaceFailed dest)
                    (op_on_err (place_binary m prev dest Move (ev_os env)) (fs_remove_file m hold))) (\<lambda>placed.
         op_bind (op_map_err (IoFailed ''cannot keep the replaced binary at'' prev) (fs_rename m hold prev)) (\<lambda>_.
         op_bind (set_not_executable m (ev_os env) prev) (\<lambda>_. op_ok placed)))))"

definition rollback ::
  "'v::linorder update_world \<Rightarrow> install_env \<Rightarrow> 'v self_update_policy \<Rightarrow> ('v self_install_error, rollback_outcome) op" where
  "rollback w env policy =
     (let m = uw_machine w; sv = uw_semver w
      in op_bind (managed_receipt w env) (\<lambda>(receipt_file, receipt).
         if \<not> allows_update policy then op_err (PolicyRefused KEY_ENABLED RollbackDisabled)
         else
         let dest = rc_binary_path receipt; prev = prev_path dest
         in op_bind (op_get (is_file prev)) (\<lambda>there.
            if \<not> there then op_err (NothingToRollBack prev)
            else
            let to = (case rc_previous_version receipt of Some v \<Rightarrow> v | None \<Rightarrow> ''unknown'')
            in op_bind (case sv_parse sv to of Ok v \<Rightarrow> op_lift (check_minimum sv policy v) | Err _ \<Rightarrow> op_ok ()) (\<lambda>_.
               with_lock m (rc_bin_dir receipt) (ev_app env)
                 (op_bind (swap_previous w env (rc_bin_dir receipt) dest) (\<lambda>placed.
                  op_bind (now_rfc3339 m) (\<lambda>now.
                  let rc = receipt\<lparr>rc_version := to, rc_previous_version := Some (rc_version receipt), rc_installed_at := now\<rparr>
                  in op_bind (op_map_err ReceiptFailed (receipt_save m (uw_codec w) rc receipt_file)) (\<lambda>_.
                     op_ok \<lparr>ro_from = rc_version receipt, ro_to = to, ro_binary_path = dest,
                            ro_notes = parked_note ''the replaced binary'' placed @ apps_features_note w rc\<rparr>))))))))"

end
