(* ===== verification/Install_Ops.thy ===== *)
theory Install_Ops
  imports Shell_Path Self_Update
begin

text \<open>
  \<open>self install\<close>, \<open>self uninstall\<close> and \<open>self status\<close> (\<open>self_install/ops.rs\<close>), as the build for Unix has
  them: the code compiled for Windows only (the registry's \<open>Path\<close> and the entry under Apps and
  Features) is not part of the model.

  A run of the installed binary for its completion scripts is the parameter \<open>run_binary\<close>; deleting the
  running executable, which a library does, is the parameter \<open>self_delete\<close>.
\<close>

section \<open>Requests and outcomes\<close>

record install_request =
  iq_bin_dir :: "arg_path option"
  iq_no_modify_path :: bool
  iq_unmanaged :: bool
  iq_force :: bool
  iq_from_bootstrap :: bool
  iq_system :: bool
  iq_from :: "arg_path option"

datatype path_decision = EditPath | AlreadyOnPath | SkipPath string

record install_outcome =
  it_version :: string
  it_binary_path :: path
  it_bin_dir :: path
  it_replaced_existing :: bool
  it_already_in_place :: bool
  it_receipt_path :: "path option"
  it_path :: path_decision
  it_path_modifications :: "path_modification list"
  it_current_shell_hint :: "string option"
  it_completions :: "path list"
  it_notes :: "string list"
  it_source_left_behind :: "path option"

text \<open>An entry of the list of what was removed: a path, or the name of a registry key.\<close>

datatype removed_item = RemovedPath path | RemovedKey string

record uninstall_outcome =
  un_removed :: "removed_item list"
  un_kept :: "string list"
  un_purged :: "path list"
  un_deletion_deferred :: bool

record install_status =
  sr_app :: string
  sr_version :: string
  sr_target :: string
  sr_running_binary :: path
  sr_method :: install_method
  sr_receipt_path :: "path option"
  sr_receipt :: "install_receipt option"
  sr_receipt_error :: "receipt_error option"
  sr_bin_dir :: "path option"
  sr_bin_dir_on_path :: bool
  sr_resolved_on_path :: "path option"
  sr_copies_on_path :: "path list"
  sr_stale_files :: "path list"
  sr_upgrade_hint :: "string option"

text \<open>What running \<open><binary> <args> <shell>\<close> gives.\<close>

datatype process_result = ProcessExited bool bytes string | ProcessFailed string

section \<open>Deciding about \<open>PATH\<close>\<close>

definition on_path :: "machine \<Rightarrow> install_env \<Rightarrow> path \<Rightarrow> disk \<Rightarrow> bool" where
  "on_path m env dir d = list_ex (\<lambda>entry. same_path m d entry dir (ev_os env)) (path_entries env)"

definition path_decision_of :: "machine \<Rightarrow> install_env \<Rightarrow> install_request \<Rightarrow> path \<Rightarrow> disk \<Rightarrow> path_decision" where
  "path_decision_of m env req bin_dir d =
     (if iq_system req then
        if on_path m env bin_dir d then AlreadyOnPath
        else SkipPath (''--system: the system PATH is the administrator'' @ [CHR 0x27] @ ''s'')
      else if iq_unmanaged req then SkipPath ''--unmanaged''
      else if iq_no_modify_path req then SkipPath ''--no-modify-path''
      else if env_var env ''CI'' \<noteq> None then SkipPath ''CI is set''
      else if \<not> ev_stdout_is_terminal env then SkipPath ''stdout is not a terminal''
      else if on_path m env bin_dir d then AlreadyOnPath
      else EditPath)"

definition system_bin_dir :: "install_env \<Rightarrow> path" where
  "system_bin_dir env =
     (if is_windows (ev_os env) then
        path_of_text (ev_os env)
          (case env_var env ''ProgramFiles'' of Some p \<Rightarrow> p | None \<Rightarrow> ''C:'' @ [CHR 0x5C] @ ''Program Files'')
        @ [ev_app env, ''bin'']
      else [''usr'', ''local'', ''bin''])"

definition arg_display :: "arg_path \<Rightarrow> string" where
  "arg_display a = (case a of AbsPath p \<Rightarrow> path_display p | RelPath p \<Rightarrow> str_join ''/'' p)"

text \<open>What follows the application's name in \<open>self_invocation\<close>.\<close>

definition command_group :: "install_env \<Rightarrow> string" where
  "command_group env =
     (case dropWhile (\<lambda>c. c \<noteq> CHR '' '') (ev_self_invocation env) of [] \<Rightarrow> ''self'' | _ # rest \<Rightarrow> rest)"

definition elevated_command :: "install_env \<Rightarrow> install_request \<Rightarrow> string" where
  "elevated_command env req =
     (let args = command_group env @ '' install --system'' @
            (case iq_from req of Some p \<Rightarrow> '' --from '' @ quoted (arg_display p) | None \<Rightarrow> []);
          exe = path_display (ev_current_exe env)
      in if is_windows (ev_os env)
         then ''Start-Process -Verb RunAs -FilePath '' @ quoted exe @ '' -ArgumentList '' @
              [CHR 0x27] @ args @ [CHR 0x27] @ '' (in PowerShell)''
         else ''sudo '' @ quoted exe @ '' '' @ args)"

definition probe_path :: "machine \<Rightarrow> install_env \<Rightarrow> path \<Rightarrow> path" where
  "probe_path m env bin_dir = bin_dir @ [''.'' @ ev_app env @ ''.write-probe-'' @ nat_dec (mc_pid m)]"

definition probe_writable :: "machine \<Rightarrow> install_env \<Rightarrow> install_request \<Rightarrow> path \<Rightarrow> ('v self_install_error, unit) op" where
  "probe_writable m env req bin_dir =
     (let probe = probe_path m env bin_dir
      in op_bind (op_result (op_bind (fs_create_dir_all m bin_dir) (\<lambda>_. fs_create_new m probe))) (\<lambda>result.
         op_bind (op_ignore (fs_remove_file m probe)) (\<lambda>_.
         case result of
           Ok _ \<Rightarrow> op_ok ()
         | Err e \<Rightarrow>
             if ie_kind e = KPermissionDenied then op_err (NeedsElevation bin_dir (elevated_command env req))
             else op_err (IoFailed ''cannot write to'' bin_dir e))))"

definition manual_path_hint :: "install_env \<Rightarrow> path \<Rightarrow> string" where
  "manual_path_hint env bin_dir =
     (if is_windows (ev_os env)
      then ''$env:Path = '' @ quoted (path_display bin_dir @ '';$env:Path'')
      else
        let expr = (case shell_dir_expr (ev_home env) bin_dir of Some e \<Rightarrow> e | None \<Rightarrow> path_display bin_dir)
        in ''export PATH='' @ quoted (expr @ '':$PATH''))"

definition edit_path ::
  "machine \<Rightarrow> install_env \<Rightarrow> path \<Rightarrow> ('v self_install_error, path_modification list \<times> string option \<times> string list) op" where
  "edit_path m env bin_dir =
     op_bind (op_map_err (IoFailed ''cannot update shell startup files for'' bin_dir) (apply_unix_path m env bin_dir)) (\<lambda>report.
     op_ok (pr_modifications report,
            if pr_current_shell_hint report = [] then None else Some (pr_current_shell_hint report),
            pr_notes report))"

section \<open>Completions\<close>

definition completion_targets :: "install_env \<Rightarrow> path \<Rightarrow> disk \<Rightarrow> (string \<times> path) list" where
  "completion_targets env home d =
     (let dir = (\<lambda>var fallback. case env_var env var of Some t \<Rightarrow> path_of_text (ev_os env) t | None \<Rightarrow> home @ fallback);
          data_home = dir ''XDG_DATA_HOME'' [''.local'', ''share''];
          config_home = dir ''XDG_CONFIG_HOME'' [''.config'']
      in (''bash'', data_home @ [''bash-completion'', ''completions'', ev_app env]) #
         (if is_dir (config_home @ [''fish'']) d
          then [(''fish'', config_home @ [''fish'', ''completions'', ev_app env @ ''.fish''])] else []))"

fun write_completions ::
  "machine \<Rightarrow> (node option \<Rightarrow> string list \<Rightarrow> process_result) \<Rightarrow> path \<Rightarrow> string list \<Rightarrow> (string \<times> path) list \<Rightarrow>
   ('e, path list \<times> string list) op" where
  "write_completions m run_binary binary argv [] = op_ok ([], [])"
| "write_completions m run_binary binary argv ((shell, p) # targets) =
     op_bind (op_get (\<lambda>d. run_binary (node_at binary d) (argv @ [shell]))) (\<lambda>output.
     op_bind
       (case output of
          ProcessFailed e \<Rightarrow> op_ok ([], [shell @ '' completions not written: '' @ e])
        | ProcessExited success stdout shown \<Rightarrow>
            if success \<and> stdout \<noteq> [] then
              op_bind (op_result (op_bind (fs_create_dir_all m (butlast p)) (\<lambda>_. fs_write m p stdout))) (\<lambda>res. case res of
                Ok _ \<Rightarrow> op_ok ([p], [])
              | Err e \<Rightarrow> op_ok ([], [shell @ '' completions not written: '' @ ie_text e]))
            else op_ok ([], [shell @ '' completions not written: completion command exited with '' @ shown])) (\<lambda>(ps, ns).
     op_bind (write_completions m run_binary binary argv targets) (\<lambda>(ps', ns').
     op_ok (ps @ ps', ns @ ns'))))"

definition install_completions ::
  "machine \<Rightarrow> (node option \<Rightarrow> string list \<Rightarrow> process_result) \<Rightarrow> install_env \<Rightarrow> path \<Rightarrow> ('e, path list \<times> string list) op" where
  "install_completions m run_binary env binary =
     (case ev_completion_command env of
        None \<Rightarrow> op_ok ([], [''completions are enabled but the completion command is disabled''])
      | Some argv \<Rightarrow>
          if is_windows (ev_os env) then op_ok ([], [])
          else (case ev_home env of
                  None \<Rightarrow> op_ok ([], [])
                | Some home \<Rightarrow>
                    op_bind (op_get (completion_targets env home)) (\<lambda>targets.
                    write_completions m run_binary binary argv targets)))"

section \<open>Installing\<close>

text \<open>\<open>apps_features.rs\<close> as the Unix build has it: nothing to register, nothing to remove.\<close>

definition apps_features_register :: "string \<Rightarrow> string + unit" where
  "apps_features_register key = Ok ()"

definition apps_features_remove :: "string \<Rightarrow> string + unit" where
  "apps_features_remove key = Ok ()"

definition register_apps_and_features :: "install_env \<Rightarrow> string option \<times> string list" where
  "register_apps_and_features env =
     (let key = ev_uninstall_key_root env @ [CHR 0x5C] @ ev_app env
      in case apps_features_register key of
           Ok _ \<Rightarrow> (Some key, [])
         | Err e \<Rightarrow> (None, [''no Apps & Features entry: '' @ e]))"

definition chosen_bin_dir :: "machine \<Rightarrow> install_env \<Rightarrow> install_request \<Rightarrow> 'v self_install_error + path" where
  "chosen_bin_dir m env req =
     (case iq_bin_dir req of
        Some a \<Rightarrow> Ok (resolve_arg m a)
      | None \<Rightarrow>
          if iq_system req then Ok (system_bin_dir env)
          else (case default_bin_dir env of Some p \<Rightarrow> Ok p | None \<Rightarrow> Err NoBinDir))"

text \<open>The receipt of an earlier install; \<open>--force\<close> overlooks one that cannot be read.\<close>

definition previous_receipt ::
  "machine \<Rightarrow> receipt_codec \<Rightarrow> bool \<Rightarrow> path option \<Rightarrow> ('v self_install_error, install_receipt option) op" where
  "previous_receipt m cd force receipt_file =
     (case receipt_file of
        None \<Rightarrow> op_ok None
      | Some p \<Rightarrow>
          op_bind (op_result (receipt_load m cd p)) (\<lambda>r. case r of
            Ok found \<Rightarrow> op_ok found
          | Err e \<Rightarrow> if force then op_ok None else op_err (ReceiptFailed e)))"

definition push_new :: "'a list \<Rightarrow> 'a list \<Rightarrow> 'a list" where
  "push_new xs ys = foldl (\<lambda>acc y. if y \<in> set acc then acc else acc @ [y]) xs ys"

definition install_receipt_of ::
  "'v update_world \<Rightarrow> install_env \<Rightarrow> self_install_options \<Rightarrow> install_request \<Rightarrow> path \<Rightarrow> path \<Rightarrow> install_receipt option \<Rightarrow>
   string \<Rightarrow> path_modification list \<Rightarrow> path list \<Rightarrow> string option \<Rightarrow> bool \<Rightarrow> string \<Rightarrow> install_receipt" where
  "install_receipt_of w env opts req bin_dir dest previous version modifications completions key prev_kept now =
     \<lparr>rc_schema_version = RECEIPT_SCHEMA_VERSION, rc_app = ev_app env, rc_version = version,
      rc_target = current_target (uw_build w),
      rc_channel = (case previous of Some r \<Rightarrow> rc_channel r | None \<Rightarrow> ''stable''),
      rc_bin_dir = bin_dir, rc_binary_path = dest,
      rc_method = (if iq_from_bootstrap req then Script else SelfInstall),
      rc_modified_path = push_new (case previous of Some r \<Rightarrow> rc_modified_path r | None \<Rightarrow> []) modifications,
      rc_completions = push_new (case previous of Some r \<Rightarrow> rc_completions r | None \<Rightarrow> []) completions,
      rc_source = receipt_source_of opts, rc_installed_at = now,
      rc_previous_version = (if prev_kept then Option.bind previous rc_previous_version else None),
      rc_system = iq_system req, rc_apps_and_features = key\<rparr>"

definition adjust_path ::
  "machine \<Rightarrow> install_env \<Rightarrow> install_request \<Rightarrow> path \<Rightarrow>
   ('v self_install_error, path_decision \<times> path_modification list \<times> string option \<times> string list) op" where
  "adjust_path m env req bin_dir =
     op_bind (op_get (path_decision_of m env req bin_dir)) (\<lambda>decision. case decision of
       EditPath \<Rightarrow>
         op_bind (edit_path m env bin_dir) (\<lambda>(modifications, hint, notes). op_ok (decision, modifications, hint, notes))
     | SkipPath _ \<Rightarrow>
         op_bind (op_get (on_path m env bin_dir)) (\<lambda>reachable.
         op_ok (decision, [], if reachable then None else Some (manual_path_hint env bin_dir), []))
     | AlreadyOnPath \<Rightarrow> op_ok (decision, [], None, []))"

definition record_install ::
  "'v update_world \<Rightarrow> (node option \<Rightarrow> string list \<Rightarrow> process_result) \<Rightarrow> install_env \<Rightarrow> self_install_options \<Rightarrow> install_request \<Rightarrow>
   path \<Rightarrow> path \<Rightarrow> path option \<Rightarrow> install_receipt option \<Rightarrow> place_mode \<Rightarrow> place_result \<times> string \<Rightarrow>
   ('v self_install_error, install_outcome) op" where
  "record_install w run_binary env opts req bin_dir dest receipt_file previous mode = (\<lambda>(placed, version).
     op_bind (adjust_path (uw_machine w) env req bin_dir) (\<lambda>(decision, modifications, hint, path_notes).
     let notes = parked_note ''the previous binary'' placed @ path_notes;
         outcome = (\<lambda>completions notes receipt. \<lparr>it_version = version, it_binary_path = dest, it_bin_dir = bin_dir,
           it_replaced_existing = pr_replaced_existing placed, it_already_in_place = pr_already_in_place placed,
           it_receipt_path = receipt, it_path = decision, it_path_modifications = modifications,
           it_current_shell_hint = hint, it_completions = completions, it_notes = notes,
           it_source_left_behind =
             (if \<not> pr_already_in_place placed \<and> mode = Copy then Some (ev_current_exe env) else None)\<rparr>)
     in case receipt_file of
          None \<Rightarrow> op_ok (outcome [] notes None)
        | Some rf \<Rightarrow>
            op_bind (if so_completions opts \<and> \<not> iq_system req
                     then install_completions (uw_machine w) run_binary env dest else op_ok ([], [])) (\<lambda>(completions, completion_notes).
            op_bind (op_ok (if is_windows (ev_os env) \<and> so_apps_and_features opts \<and> \<not> iq_system req
                            then register_apps_and_features env else (None, []))) (\<lambda>(key, key_notes).
            op_bind (op_get (is_file (prev_path dest))) (\<lambda>prev_kept.
            op_bind (now_rfc3339 (uw_machine w)) (\<lambda>now.
            op_bind (op_map_err ReceiptFailed (receipt_save (uw_machine w) (uw_codec w)
                       (install_receipt_of w env opts req bin_dir dest previous version modifications completions key prev_kept now) rf)) (\<lambda>_.
            op_ok (outcome completions (notes @ completion_notes @ key_notes) (Some rf)))))))))"

definition place_for_install ::
  "'v update_world \<Rightarrow> install_env \<Rightarrow> path \<Rightarrow> place_mode \<Rightarrow> path \<Rightarrow> string \<Rightarrow> ('v self_install_error, place_result \<times> string) op" where
  "place_for_install w env dest mode src version =
     op_bind (op_map_err (PlaceFailed dest) (place_binary (uw_machine w) src dest mode (ev_os env))) (\<lambda>placed.
     op_ok (placed, version))"

definition install_binary ::
  "'v update_world \<Rightarrow> (node option \<Rightarrow> string list \<Rightarrow> process_result) \<Rightarrow> install_env \<Rightarrow> self_install_options \<Rightarrow> install_request \<Rightarrow>
   path \<Rightarrow> path \<Rightarrow> path option \<Rightarrow> install_receipt option \<Rightarrow> ('v self_install_error, install_outcome) op" where
  "install_binary w run_binary env opts req bin_dir dest receipt_file previous =
     (let m = uw_machine w;
          mode = (if iq_from_bootstrap req \<or> iq_from req \<noteq> None then Move else Copy);
          finish = record_install w run_binary env opts req bin_dir dest receipt_file previous mode
      in case iq_from req of
           Some archive \<Rightarrow>
             op_bind (op_map_err (IoFailed ''cannot create'' bin_dir) (fs_create_dir_all m bin_dir)) (\<lambda>_.
             with_lock m bin_dir (ev_app env)
               (op_bind (with_work m bin_dir (ev_app env) (\<lambda>work.
                  op_bind (stage_local_archive w env opts archive work) (\<lambda>(binary, version).
                  place_for_install w env dest mode binary (sv_show (uw_semver w) version)))) finish))
         | None \<Rightarrow> op_bind (place_for_install w env dest mode (ev_current_exe env) (ev_version env)) finish)"

text \<open>A file at the destination that is neither the running binary nor the one the receipt records.\<close>

definition foreign_binary :: "machine \<Rightarrow> install_env \<Rightarrow> path \<Rightarrow> install_receipt option \<Rightarrow> disk \<Rightarrow> bool" where
  "foreign_binary m env dest previous d \<longleftrightarrow>
     path_exists dest d \<and> \<not> same_path m d (ev_current_exe env) dest (ev_os env) \<and>
     \<not> (case previous of Some r \<Rightarrow> same_path m d (rc_binary_path r) dest (ev_os env) | None \<Rightarrow> False)"

definition install ::
  "'v update_world \<Rightarrow> (node option \<Rightarrow> string list \<Rightarrow> process_result) \<Rightarrow> install_env \<Rightarrow> self_install_options \<Rightarrow> install_request \<Rightarrow>
   ('v self_install_error, install_outcome) op" where
  "install w run_binary env opts req =
     (let m = uw_machine w;
          allow_var = install_var_prefix (ev_app env) @ ''_INSTALL_ALLOW_SUDO''
      in if ev_is_root env \<and> \<not> iq_system req \<and> env_var env allow_var = None then op_err (RunningAsRoot allow_var)
         else if iq_system req \<and> (iq_bin_dir req \<noteq> None \<or> iq_unmanaged req) then op_err (BadRequest SystemWithBinDir)
         else
         op_bind (op_lift (chosen_bin_dir m env req)) (\<lambda>bin_dir.
         op_bind (if iq_system req then probe_writable m env req bin_dir else op_ok ()) (\<lambda>_.
         let dest = bin_dir @ [binary_file_name (ev_app env) (ev_os env)]
         in op_bind (op_lift (if iq_unmanaged req then Ok None
                     else (case receipt_path env of Some p \<Rightarrow> Ok (Some p) | None \<Rightarrow> Err NoStateDir))) (\<lambda>receipt_file.
            op_bind (previous_receipt m (uw_codec w) (iq_force req) receipt_file) (\<lambda>previous.
            op_bind (op_get (foreign_binary m env dest previous)) (\<lambda>foreign.
            if foreign \<and> \<not> iq_force req then op_err (ForeignBinary dest (ev_self_invocation env))
            else install_binary w run_binary env opts req bin_dir dest receipt_file previous))))))"

section \<open>Uninstalling\<close>

definition remove_if_exists :: "machine \<Rightarrow> path \<Rightarrow> ('v self_install_error, bool) op" where
  "remove_if_exists m p =
     op_bind (op_result (fs_remove_file m p)) (\<lambda>r. case r of
       Ok _ \<Rightarrow> op_ok True
     | Err e \<Rightarrow> if ie_kind e = KNotFound then op_ok False else op_err (IoFailed ''cannot remove'' p e))"

definition guard_purge :: "machine \<Rightarrow> disk \<Rightarrow> install_env \<Rightarrow> path \<Rightarrow> 'v self_install_error + unit" where
  "guard_purge m d env dir =
     (let app = ev_app env
      in if app = [] \<or> CHR ''/'' \<in> set app \<or> CHR 0x5C \<in> set app \<or> app = ''.'' \<or> app = ''..''
         then Err (UnsafePurge dir ''the application name is not a plain name'')
         else if dir = [] \<or> butlast dir = [] then Err (UnsafePurge dir ''it is at or directly under a filesystem root'')
         else if (case ev_home env of Some home \<Rightarrow> same_path m d dir home (ev_os env) \<or> prefix dir home | None \<Rightarrow> False)
         then Err (UnsafePurge dir ''it is the home directory or contains it'')
         else if last dir \<noteq> app then Err (UnsafePurge dir ''it is not named after the application'')
         else Ok ())"

fun first_error :: "('a \<Rightarrow> 'e + unit) \<Rightarrow> 'a list \<Rightarrow> 'e + unit" where
  "first_error f [] = Ok ()"
| "first_error f (x # xs) = and_then (f x) (\<lambda>_. first_error f xs)"

definition purge_roots :: "machine \<Rightarrow> disk \<Rightarrow> install_env \<Rightarrow> 'v self_install_error + path list" where
  "purge_roots m d env =
     (let dirs = map (\<lambda>r. path_join r (ev_app env)) (List.map_filter id [ev_config_root env, ev_state_root env, ev_data_root env]);
          roots = foldl (\<lambda>acc dir. if list_ex (\<lambda>r. same_path m d r dir (ev_os env)) acc then acc else acc @ [dir]) [] dirs
      in and_then (first_error (guard_purge m d env) roots) (\<lambda>_. Ok roots))"

definition keep_note :: "string \<Rightarrow> uninstall_outcome \<Rightarrow> uninstall_outcome" where
  "keep_note n out = out\<lparr>un_kept := un_kept out @ [n]\<rparr>"

definition note_removed :: "removed_item \<Rightarrow> uninstall_outcome \<Rightarrow> uninstall_outcome" where
  "note_removed i out = out\<lparr>un_removed := un_removed out @ [i]\<rparr>"

definition remove_listed :: "machine \<Rightarrow> path \<Rightarrow> uninstall_outcome \<Rightarrow> ('v self_install_error, uninstall_outcome) op" where
  "remove_listed m p out =
     op_bind (remove_if_exists m p) (\<lambda>gone. op_ok (if gone then note_removed (RemovedPath p) out else out))"

definition other_executables :: "machine \<Rightarrow> path \<Rightarrow> string \<Rightarrow> ('e, bool) op" where
  "other_executables m dir ours =
     op_bind (op_result (fs_read_dir m dir)) (\<lambda>r. case r of
       Err _ \<Rightarrow> op_ok False
     | Ok names \<Rightarrow>
         op_ok (list_ex (\<lambda>n. let name = map ascii_lower n
                              in name \<noteq> map ascii_lower ours \<and> ends_with ''.exe'' name \<and>
                                 \<not> str_contains name ''.exe.old'') names))"

definition remove_windows_path :: "path \<Rightarrow> uninstall_outcome \<Rightarrow> uninstall_outcome" where
  "remove_windows_path dir out =
     keep_note (''user Path entry '' @ path_display dir @ '' (recorded on Windows; nothing to do here)'') out"

definition shared_note :: string where
  "shared_note = '' (shared with other apps using this bin dir)''"

definition undo_modification ::
  "machine \<Rightarrow> install_env \<Rightarrow> path_modification \<Rightarrow> uninstall_outcome \<Rightarrow> ('v self_install_error, uninstall_outcome) op" where
  "undo_modification m env c out =
     (case c of
        FishConf p \<Rightarrow> remove_listed m p out
      | RcLine p line \<Rightarrow>
          op_ok (keep_note (path_display p @ '': '' @ [CHR 0x60] @ line @ [CHR 0x60] @ shared_note) out)
      | EnvFile p \<Rightarrow> op_ok (keep_note (path_display p @ shared_note) out)
      | WindowsUserPath key entry \<Rightarrow>
          let dir = path_of_text (ev_os env) entry
          in op_bind (other_executables m dir (binary_file_name (ev_app env) (ev_os env))) (\<lambda>others.
             op_ok (if others then keep_note (''user Path entry '' @ entry @ '' (other programs still live there)'') out
                    else remove_windows_path dir out)))"

fun op_fold :: "('a \<Rightarrow> 's \<Rightarrow> ('e, 's) op) \<Rightarrow> 'a list \<Rightarrow> 's \<Rightarrow> ('e, 's) op" where
  "op_fold f [] s = op_ok s"
| "op_fold f (x # xs) s = op_bind (f x s) (op_fold f xs)"

definition remove_stale :: "machine \<Rightarrow> path \<Rightarrow> uninstall_outcome \<Rightarrow> ('v self_install_error, uninstall_outcome) op" where
  "remove_stale m p out =
     op_bind (op_get (is_file p)) (\<lambda>there.
     if \<not> there then op_ok out
     else op_bind (op_result (remove_if_exists m p :: ('v self_install_error, bool) op)) (\<lambda>r.
          op_ok (if (case r of Ok gone \<Rightarrow> gone | Err _ \<Rightarrow> False) then note_removed (RemovedPath p) out else out)))"

definition purge_root :: "machine \<Rightarrow> path \<Rightarrow> uninstall_outcome \<Rightarrow> ('v self_install_error, uninstall_outcome) op" where
  "purge_root m dir out =
     op_bind (op_get (path_exists dir)) (\<lambda>there.
     if \<not> there then op_ok out
     else op_bind (op_map_err (IoFailed ''cannot remove'' dir) (fs_remove_dir_all m dir)) (\<lambda>_.
          op_ok (out\<lparr>un_purged := un_purged out @ [dir]\<rparr>)))"

definition remove_binary ::
  "machine \<Rightarrow> (io_error, unit) op \<Rightarrow> install_env \<Rightarrow> path \<Rightarrow> uninstall_outcome \<Rightarrow> ('v self_install_error, uninstall_outcome) op" where
  "remove_binary m self_delete env binary out =
     op_bind (op_get (path_exists binary)) (\<lambda>there.
     if \<not> there then op_ok out
     else
       op_bind (op_get (\<lambda>d. same_path m d binary (ev_current_exe env) (ev_os env))) (\<lambda>running.
       if running then
         op_bind (op_map_err (IoFailed ''cannot remove'' binary) self_delete) (\<lambda>_.
         op_ok (note_removed (RemovedPath binary) (out\<lparr>un_deletion_deferred := is_windows (ev_os env)\<rparr>)))
       else
         op_bind (remove_if_exists m binary) (\<lambda>_. op_ok (note_removed (RemovedPath binary) out))))"

definition unregister :: "install_receipt \<Rightarrow> uninstall_outcome \<Rightarrow> uninstall_outcome" where
  "unregister rc out =
     (case rc_apps_and_features rc of
        None \<Rightarrow> out
      | Some key \<Rightarrow>
          let entry = ''HKCU'' @ [CHR 0x5C] @ key
          in case apps_features_remove key of
               Ok _ \<Rightarrow> note_removed (RemovedKey entry) out
             | Err e \<Rightarrow> keep_note (''Apps & Features entry '' @ entry @ '' ('' @ e @ '')'') out)"

text \<open>The receipt, the purged directories and, last, the binary.\<close>

definition remove_receipt_and_binary ::
  "machine \<Rightarrow> (io_error, unit) op \<Rightarrow> install_env \<Rightarrow> path \<Rightarrow> path list \<Rightarrow> path \<Rightarrow> uninstall_outcome \<Rightarrow>
   ('v self_install_error, uninstall_outcome) op" where
  "remove_receipt_and_binary m self_delete env receipt_file roots binary out =
     op_bind (remove_if_exists m receipt_file) (\<lambda>_.
     op_bind (if receipt_file = [] then op_ok () else op_ignore (fs_remove_dir m (butlast receipt_file))) (\<lambda>_.
     op_bind (op_fold (purge_root m) roots (note_removed (RemovedPath receipt_file) out)) (\<lambda>out.
     remove_binary m self_delete env binary out)))"

definition remove_leftovers :: "machine \<Rightarrow> install_env \<Rightarrow> path \<Rightarrow> uninstall_outcome \<Rightarrow> ('v self_install_error, uninstall_outcome) op" where
  "remove_leftovers m env bin_dir out =
     op_bind (stale_files m bin_dir (ev_app env) (ev_os env)) (\<lambda>stale. op_fold (remove_stale m) stale out)"

definition uninstall_recorded ::
  "machine \<Rightarrow> (io_error, unit) op \<Rightarrow> install_env \<Rightarrow> path \<Rightarrow> path list \<Rightarrow> install_receipt \<Rightarrow> ('v self_install_error, uninstall_outcome) op" where
  "uninstall_recorded m self_delete env receipt_file roots rc =
     op_bind (op_fold (remove_listed m) (rc_completions rc)
                \<lparr>un_removed = [], un_kept = [], un_purged = [], un_deletion_deferred = False\<rparr>) (\<lambda>out.
     op_bind (op_fold (undo_modification m env) (rc_modified_path rc) out) (\<lambda>out.
     op_bind (remove_listed m (prev_path (rc_binary_path rc)) out) (\<lambda>out.
     op_bind (remove_leftovers m env (rc_bin_dir rc) (unregister rc out)) (\<lambda>out.
     remove_receipt_and_binary m self_delete env receipt_file roots (rc_binary_path rc) out))))"

definition uninstall ::
  "machine \<Rightarrow> receipt_codec \<Rightarrow> (io_error, unit) op \<Rightarrow> install_env \<Rightarrow> bool \<Rightarrow> ('v self_install_error, uninstall_outcome) op" where
  "uninstall m cd self_delete env purge =
     (case receipt_path env of
        None \<Rightarrow> op_err NoStateDir
      | Some receipt_file \<Rightarrow>
          op_bind (op_map_err ReceiptFailed (receipt_load m cd receipt_file)) (\<lambda>found. case found of
            None \<Rightarrow>
              op_bind (op_get (\<lambda>d. infer_method_from_path m d (ev_current_exe env))) (\<lambda>inferred.
              case inferred of
                Some mt \<Rightarrow>
                  if is_package_manager mt then
                    op_err (ManagedByPackageManager (ev_app env) (method_str mt)
                      (case upgrade_hint mt (ev_app env) of Some h \<Rightarrow> h | None \<Rightarrow> []))
                  else op_err (NoReceipt (ev_app env) receipt_file (ev_self_invocation env) (ev_current_exe env))
              | None \<Rightarrow> op_err (NoReceipt (ev_app env) receipt_file (ev_self_invocation env) (ev_current_exe env)))
          | Some rc \<Rightarrow>
              op_bind (op_get (\<lambda>d. if purge then purge_roots m d env else Ok [])) (\<lambda>guarded.
              op_bind (op_lift guarded) (\<lambda>roots.
              uninstall_recorded m self_delete env receipt_file roots rc))))"

section \<open>Reporting\<close>

definition copies_on_path :: "machine \<Rightarrow> install_env \<Rightarrow> disk \<Rightarrow> path list" where
  "copies_on_path m env d =
     foldl (\<lambda>found dir.
              let candidate = dir @ [binary_file_name (ev_app env) (ev_os env)]
              in if is_file candidate d \<and> \<not> list_ex (\<lambda>f. same_path m d f candidate (ev_os env)) found
                 then found @ [candidate] else found)
       [] (path_entries env)"

definition status :: "machine \<Rightarrow> receipt_codec \<Rightarrow> build \<Rightarrow> install_env \<Rightarrow> ('e, install_status) op" where
  "status m cd b env =
     op_bind (case receipt_path env of
                None \<Rightarrow> op_ok (None, None)
              | Some p \<Rightarrow>
                  op_bind (op_result (receipt_load m cd p)) (\<lambda>r.
                  op_ok (case r of Ok found \<Rightarrow> (found, None) | Err e \<Rightarrow> (None, Some e)))) (\<lambda>(receipt, receipt_error).
     op_bind (op_get (\<lambda>d. infer_method_from_path m d (ev_current_exe env))) (\<lambda>inferred.
     op_bind (op_get (copies_on_path m env)) (\<lambda>copies.
     let way = (case receipt of Some r \<Rightarrow> rc_method r
                | None \<Rightarrow> (case inferred of Some mt \<Rightarrow> mt | None \<Rightarrow> UnknownMethod));
         bin_dir = (case receipt of Some r \<Rightarrow> Some (rc_bin_dir r) | None \<Rightarrow> default_bin_dir env)
     in op_bind (op_get (\<lambda>d. case bin_dir of Some p \<Rightarrow> on_path m env p d | None \<Rightarrow> False)) (\<lambda>reachable.
        op_bind (case bin_dir of Some p \<Rightarrow> stale_files m p (ev_app env) (ev_os env) | None \<Rightarrow> op_ok []) (\<lambda>stale.
        op_ok \<lparr>sr_app = ev_app env, sr_version = ev_version env, sr_target = current_target b,
               sr_running_binary = ev_current_exe env, sr_method = way, sr_receipt_path = receipt_path env,
               sr_receipt = receipt, sr_receipt_error = receipt_error, sr_bin_dir = bin_dir,
               sr_bin_dir_on_path = reachable,
               sr_resolved_on_path = (case copies of [] \<Rightarrow> None | c # _ \<Rightarrow> Some c), sr_copies_on_path = copies,
               sr_stale_files = stale, sr_upgrade_hint = upgrade_hint way (ev_app env)\<rparr>)))))"

end
