(* ===== verification/Update_Safety.thy ===== *)
theory Update_Safety
  imports Self_Update
begin

text \<open>
  What \<open>self update\<close> and \<open>self rollback\<close> may do to the installed binary.
\<close>

section \<open>Predicates on one node\<close>

text \<open>Assertions about the node at \<open>q\<close> alone go through everything that keeps \<open>q\<close>.\<close>

lemma triple_keeps_node:
  "keeps q m \<Longrightarrow> triple (\<lambda>d. p (node_at q d)) m (\<lambda>_ d. p (node_at q d)) (\<lambda>d. p (node_at q d))"
  by (auto intro!: tripleI dest: keepsD)

lemma triple_keeps_two:
  "keeps a m \<Longrightarrow> keeps b m \<Longrightarrow>
   triple (\<lambda>d. p (node_at a d) (node_at b d)) m (\<lambda>_ d. p (node_at a d) (node_at b d)) (\<lambda>d. p (node_at a d) (node_at b d))"
  by (rule tripleI; frule (1) keepsD; drule (1) keepsD [of b]; simp)

lemma triple_finally:
  assumes t: "triple P m (\<lambda>x d. q x (node_at p d)) (\<lambda>d. e (node_at p d))" and k: "keeps p h"
  shows "triple P (op_finally m h) (\<lambda>x d. q x (node_at p d)) (\<lambda>d. e (node_at p d))"
proof (rule tripleI)
  fix d x d'
  assume "P d" "op_finally m h d = (Ok x, d')"
  then obtain d1 where "m d = (Ok x, d1)" "d' = snd (h d1)" by (auto simp: op_finally_def split: prod.splits)
  then show "q x (node_at p d')" using triple_Ok [OF t \<open>P d\<close>] k by (simp add: keeps_def)
next
  fix d x d'
  assume "P d" "op_finally m h d = (Err x, d')"
  then obtain d1 where "m d = (Err x, d1)" "d' = snd (h d1)" by (auto simp: op_finally_def split: prod.splits)
  then show "e (node_at p d')" using triple_Err [OF t \<open>P d\<close>] k by (simp add: keeps_def)
qed

lemma triple_if: "(c \<Longrightarrow> triple P m Q E) \<Longrightarrow> (\<not> c \<Longrightarrow> triple P n Q E) \<Longrightarrow> triple P (if c then m else n) Q E"
  by simp

lemma triple_check: "(\<And>x. r = Ok x \<Longrightarrow> triple P (f x) Q E) \<Longrightarrow> (\<And>d. P d \<Longrightarrow> E d) \<Longrightarrow> triple P (op_bind (op_lift r) f) Q E"
  by (cases r) (auto simp: triple_def op_bind_def op_lift_def)

section \<open>Frames\<close>

lemma keeps_rename: "\<not> prefix src q \<Longrightarrow> \<not> prefix dst q \<Longrightarrow> keeps q (fs_rename m src dst)"
  unfolding fs_rename_def by (rule syscall_keeps) (auto simp: node_at_move_tree split: option.splits node.splits)

lemma keeps_lock_attempts: "q \<noteq> p \<Longrightarrow> keeps q (lock_attempts m p n)"
proof (induction n)
  case 0
  show ?case by (auto intro: keep_rules)
next
  case (Suc n)
  then show ?case
    unfolding lock_attempts.simps lock_is_stale_def
    by (intro keep_rules Suc.IH) auto
qed

lemma keeps_lock_acquire: "q \<noteq> lock_path bin_dir app \<Longrightarrow> keeps q (lock_acquire m bin_dir app)"
  unfolding lock_acquire_def by (intro keep_rules keeps_lock_attempts)

lemma keeps_work_create:
  "\<not> prefix (work_path m bin_dir app) q \<Longrightarrow> \<not> prefix q (work_path m bin_dir app) \<Longrightarrow> keeps q (work_create m bin_dir app)"
  unfolding work_create_def Let_def by (intro keep_rules)

lemma keeps_http_get [keep_rules]: "keeps q (http_get nw token url accept auth)"
  unfolding http_get_def by (intro keep_rules) (auto simp: keeps_def Let_def)

lemma keeps_get_json [keep_rules]: "keeps q (get_json nw token decode url auth)"
  unfolding get_json_def by (intro keep_rules)

lemma keeps_fetcher_download: "q \<noteq> dst \<Longrightarrow> keeps q (fetcher_download m nw token url api dst)"
  unfolding fetcher_download_def by (auto intro!: keep_rules split: http_body.splits)

lemma keeps_fetch_optional [keep_rules]: "keeps q (fetch_optional_text nw token url api)"
  unfolding fetch_optional_text_def
  by (auto intro!: keep_rules split: http_body.splits release_error.splits sum.splits)

lemma keeps_resolve [keep_rules]: "keeps q (fetcher_resolve sv nw token source tag_prefix asset_for channel)"
  unfolding fetcher_resolve_def github_pick_def
  by (auto intro!: keep_rules split: release_source.splits channel.splits release_error.splits sum.splits option.splits)

lemma keeps_make_executable: "q \<noteq> p \<Longrightarrow> keeps q (make_executable m sys p)"
  unfolding make_executable_def by (intro keep_rules)

lemma keeps_verify_checksum [keep_rules]: "keeps q (verify_checksum m tools archive asset listing)"
  unfolding verify_checksum_def sha256_file_def by (intro keep_rules)

lemma keeps_write_out: "q \<noteq> out \<Longrightarrow> keeps q (write_out m archive out body)"
  unfolding write_out_def by (intro keep_rules) auto

lemma keeps_extract: "q \<noteq> dir @ [binary] \<Longrightarrow> keeps q (extract_binary m tools sys archive binary dir)"
  unfolding extract_binary_def extract_tar_gz_def extract_zip_def Let_def
  by (intro keep_rules keeps_make_executable keeps_write_out) auto

lemma keeps_read_text [keep_rules]: "keeps q (read_text m p)"
  unfolding read_text_def by (intro keep_rules)

lemma keeps_probe_staged [keep_rules]: "keeps q (probe_staged w env binary)"
  unfolding probe_staged_def by (intro keep_rules)

lemma keeps_set_not_executable: "q \<noteq> p \<Longrightarrow> keeps q (set_not_executable m sys p)"
  unfolding set_not_executable_def by (intro keep_rules)

lemma keeps_keep_previous: "q \<noteq> prev_path dest \<Longrightarrow> keeps q (keep_previous m dest sys)"
  unfolding keep_previous_def Let_def by (intro keep_rules keeps_set_not_executable)

lemma keeps_managed_receipt [keep_rules]: "keeps q (managed_receipt w env)"
  unfolding managed_receipt_def Let_def by (intro keep_rules)

lemma keeps_resolve_release [keep_rules]: "keeps q (resolve_release w env opts policy channel)"
  unfolding resolve_release_def Let_def by (intro keep_rules)

lemma keeps_receipt_save:
  "\<not> prefix q (butlast p) \<Longrightarrow> \<not> prefix (receipt_tmp m p) q \<Longrightarrow> \<not> prefix p q \<Longrightarrow> keeps q (receipt_save m cd rc p)"
  unfolding receipt_save_def by (intro keep_rules keeps_rename) auto

lemma keeps_stage_local: "\<not> prefix work q \<Longrightarrow> keeps q (stage_local_archive w env opts arg work)"
  unfolding stage_local_archive_def Let_def by (intro keep_rules keeps_extract) (auto simp: prefix_def)

lemma keeps_download: "\<not> prefix work q \<Longrightarrow> keeps q (download_verified w env opts token release work)"
  unfolding download_verified_def Let_def
  by (intro keep_rules keeps_extract keeps_fetcher_download) (auto simp: prefix_def path_join_def)

section \<open>What a staged binary is\<close>

definition signed_listing :: "archive_tools \<Rightarrow> self_install_options \<Rightarrow> string \<Rightarrow> bool" where
  "signed_listing tools opts listing \<longleftrightarrow>
     (case so_public_key opts of None \<Rightarrow> True | Some key \<Rightarrow> (\<exists>sig. verify_signature tools listing sig key = Ok ()))"

text \<open>
  The file came out of an archive whose digest a checksum file records, which is signed when the
  application has a key, and it ran and reported the version.
\<close>

definition verified_binary :: "'v update_world \<Rightarrow> install_env \<Rightarrow> self_install_options \<Rightarrow> file_node \<Rightarrow> 'v \<Rightarrow> bool" where
  "verified_binary w env opts g v \<longleftrightarrow>
     (\<exists>listing asset name bs p. signed_listing (uw_tools w) opts listing \<and>
        expected_digest listing asset = Some (at_sha256 (uw_tools w) bs) \<and>
        archive_holds (uw_tools w) name bs (binary_file_name (ev_app env) (ev_os env)) (fn_bytes g) \<and>
        probe_version (uw_semver w) (uw_tools w) (ev_os env) p (Some (FileNode g)) = Ok v)"

lemma extract_nonempty: "extract_binary m tools sys archive binary dir d = (Ok out, d') \<Longrightarrow> archive \<noteq> []"
  by (auto simp: extract_binary_def Let_def op_Ok_iffs ends_with_def starts_with_def)

lemma probe_staged_effect:
  "probe_staged w env binary d = (Ok v, d') \<Longrightarrow>
   d' = d \<and> probe_version (uw_semver w) (uw_tools w) (ev_os env) binary (node_at binary d) = Ok v"
  by (auto simp: probe_staged_def op_Ok_iffs)

lemma staged_is_verified:
  assumes sig: "signed_listing (uw_tools w) opts listing"
    and sum: "verify_checksum m (uw_tools w) archive asset listing d = (Ok u, d1)"
    and ex: "extract_binary m (uw_tools w) (ev_os env) archive (binary_file_name (ev_app env) (ev_os env)) work d1 = (Ok binary, d2)"
    and pr: "probe_staged w env binary d2 = (Ok v, d3)"
  shows "binary = work @ [binary_file_name (ev_app env) (ev_os env)] \<and>
     (\<exists>g. node_at binary d3 = Some (FileNode g) \<and> verified_binary w env opts g v)"
proof -
  obtain f g where f: "node_at archive d1 = Some (FileNode f)" and g: "node_at binary d2 = Some (FileNode g)"
    and h: "archive_holds (uw_tools w) (last archive) (fn_bytes f) (binary_file_name (ev_app env) (ev_os env)) (fn_bytes g)"
    and b: "binary = work @ [binary_file_name (ev_app env) (ev_os env)]"
    using extract_binary_effect [OF ex extract_nonempty [OF ex]] by blast
  have "expected_digest listing asset = Some (at_sha256 (uw_tools w) (fn_bytes f))"
    using verify_checksum_effect [OF sum] f by auto
  then show ?thesis
    unfolding verified_binary_def using probe_staged_effect [OF pr] sig f g h b by fastforce
qed

lemma stage_local_effect:
  assumes "stage_local_archive w env opts arg work d = (Ok (binary, v), d')"
  shows "binary = work @ [binary_file_name (ev_app env) (ev_os env)] \<and>
     (\<exists>g. node_at binary d' = Some (FileNode g) \<and> verified_binary w env opts g v)"
proof -
  let ?archive = "resolve_arg (uw_machine w) arg"
  obtain listing asset d1 d2 d3 where sig: "signed_listing (uw_tools w) opts listing"
    and sum: "verify_checksum (uw_machine w) (uw_tools w) ?archive asset listing d1 = (Ok (), d2)"
    and ex: "extract_binary (uw_machine w) (uw_tools w) (ev_os env) ?archive (binary_file_name (ev_app env) (ev_os env)) work d2 = (Ok binary, d3)"
    and pr: "probe_staged w env binary d3 = (Ok v, d')"
  proof (cases "so_public_key opts")
    case None
    then show thesis
      using assms that by (auto simp: stage_local_archive_def Let_def op_Ok_iffs signed_listing_def)
  next
    case (Some key)
    then show thesis
      using assms that by (auto simp: stage_local_archive_def Let_def op_Ok_iffs signed_listing_def split: if_splits) blast+
  qed
  show ?thesis by (rule staged_is_verified [OF sig sum ex pr])
qed

lemma download_effect:
  assumes "download_verified w env opts token release work d = (Ok binary, d')"
  shows "binary = work @ [binary_file_name (ev_app env) (ev_os env)] \<and>
     (\<exists>g. node_at binary d' = Some (FileNode g) \<and> verified_binary w env opts g (rr_version release))"
proof -
  let ?archive = "path_join work (rr_asset release)"
  obtain listing d1 d2 d3 where sig: "signed_listing (uw_tools w) opts listing"
    and sum: "verify_checksum (uw_machine w) (uw_tools w) ?archive (rr_asset release) listing d1 = (Ok (), d2)"
    and ex: "extract_binary (uw_machine w) (uw_tools w) (ev_os env) ?archive (binary_file_name (ev_app env) (ev_os env)) work d2 = (Ok binary, d3)"
    and pr: "probe_staged w env binary d3 = (Ok (rr_version release), d')"
  proof (cases "so_public_key opts")
    case None
    then show thesis
      using assms that by (auto simp: download_verified_def Let_def op_Ok_iffs signed_listing_def split: if_splits)
  next
    case (Some key)
    then show thesis
      using assms that by (auto simp: download_verified_def Let_def op_Ok_iffs signed_listing_def split: if_splits option.splits) blast+
  qed
  show ?thesis by (rule staged_is_verified [OF sig sum ex pr])
qed

section \<open>The installed binary during an update\<close>

definition acceptable ::
  "'v::linorder update_world \<Rightarrow> install_env \<Rightarrow> self_install_options \<Rightarrow> 'v self_update_policy \<Rightarrow> file_node \<Rightarrow> node option \<Rightarrow> bool" where
  "acceptable w env opts policy f0 n \<longleftrightarrow> n = Some (FileNode f0) \<or>
     (\<exists>f g v. n = Some (FileNode f) \<and> fn_bytes f = fn_bytes g \<and> verified_binary w env opts g v \<and>
        (\<forall>low. up_minimum_version policy = Some low \<longrightarrow> low \<le> v))"

text \<open>After a failure Windows may be left without the binary, which is then parked beside it.\<close>

definition survivable ::
  "'v::linorder update_world \<Rightarrow> install_env \<Rightarrow> self_install_options \<Rightarrow> 'v self_update_policy \<Rightarrow> file_node \<Rightarrow> node option \<Rightarrow> bool" where
  "survivable w env opts policy f0 n \<longleftrightarrow> acceptable w env opts policy f0 n \<or> is_windows (ev_os env) \<and> n = None"

lemma acceptable_survivable: "acceptable w env opts policy f0 n \<Longrightarrow> survivable w env opts policy f0 n"
  by (simp add: survivable_def)

lemma untouched_ok [simp]:
  "acceptable w env opts policy f0 (Some (FileNode f0))" "survivable w env opts policy f0 (Some (FileNode f0))"
  by (simp_all add: acceptable_def survivable_def)

lemma binary_name_neq:
  "binary_file_name app sys \<noteq> ''.'' @ app @ ''.lock''"
  "binary_file_name app sys \<noteq> ''.'' @ app @ ''-update.'' @ nat_dec pid"
  "binary_file_name app sys \<noteq> ''.'' @ binary_file_name app sys @ ''.tmp-'' @ nat_dec pid"
  by (auto simp: binary_file_name_def dest: arg_cong [where f = length])

lemma dest_apart:
  assumes "dest = bin_dir @ [binary_file_name app sys]"
  shows "dest \<noteq> lock_path bin_dir app" "\<not> prefix (work_path m bin_dir app) dest" "\<not> prefix dest (work_path m bin_dir app)"
    "dest \<noteq> prev_path dest" "work_path m bin_dir app @ [b] \<noteq> prev_path dest"
    "work_path m bin_dir app @ [b] \<noteq> staging_path m dest"
  using assms binary_name_neq(1) [of app sys] binary_name_neq(2,3) [of app sys "mc_pid m"]
    binary_name_neq(2) [of app sys "mc_pid m", THEN not_sym]
  by (auto simp: lock_path_def work_path_def prev_path_def staging_path_def)

lemma place_here:
  "path_exists dest d \<and> same_path m d src dest sys \<Longrightarrow> place_binary m src dest mode sys d = (r, d') \<Longrightarrow> d' = d \<and> \<not> isl r"
  by (auto simp: place_binary_def op_defs)

lemma place_staged_triple:
  assumes dest: "dest = rc_bin_dir rc @ [binary_file_name (ev_app env) (ev_os env)]"
    and staged: "staged = work_path (uw_machine w) (rc_bin_dir rc) (ev_app env) @ [binary_file_name (ev_app env) (ev_os env)]"
    and ver: "verified_binary w env opts g v" and low: "check_minimum (uw_semver w) policy v = Ok ()"
  shows "triple (\<lambda>d. node_at dest d = Some (FileNode f0) \<and> node_at staged d = Some (FileNode g))
     (place_staged w env dest staged v)
     (\<lambda>_ d. acceptable w env opts policy f0 (node_at dest d)) (\<lambda>d. survivable w env opts policy f0 (node_at dest d))"
    (is "triple ?P _ _ ?E")
proof -
  let ?A = "\<lambda>d. acceptable w env opts policy f0 (node_at dest d)"
  note apart = dest_apart [OF dest]
  have min: "\<And>low. up_minimum_version policy = Some low \<Longrightarrow> low \<le> v"
    using low by (auto simp: check_minimum_def split: if_splits)
  have kp: "triple ?P (keep_previous (uw_machine w) dest (ev_os env)) (\<lambda>_. ?P) ?E"
    by (rule triple_conseq [OF triple_keeps_two [of dest _ staged "\<lambda>x y. x = Some (FileNode f0) \<and> y = Some (FileNode g)"]])
      (use apart staged in \<open>auto intro!: keeps_keep_previous simp: survivable_def acceptable_def\<close>)
  have "triple ?P (place_binary (uw_machine w) staged dest Move (ev_os env)) (\<lambda>_. ?A) ?E"
  proof -
    have step: "(\<forall>x. r = Ok x \<longrightarrow> ?A d') \<and> (\<forall>e. r = Err e \<longrightarrow> ?E d')"
      if P: "?P d" and run: "place_binary (uw_machine w) staged dest Move (ev_os env) d = (r, d')" for d r d'
    proof (cases "path_exists dest d \<and> same_path (uw_machine w) d staged dest (ev_os env)")
      case True
      then show ?thesis using place_here [OF True run] P by (auto simp: acceptable_def)
    next
      case False
      have nodir: "\<not> is_dir dest d" using P dest by (auto simp: is_dir_def)
      have fresh: "staged \<noteq> staging_path (uw_machine w) dest" unfolding staged by (rule apart(6))
      have src: "node_at staged d = Some (FileNode g)" using P by simp
      note eff = place_binary_effect [OF run src nodir fresh False]
      have "?A d'" if ok: "r = Ok x" for x
      proof -
        obtain t where t: "node_at dest d' = Some (placed_node (ev_os env) g t)" using eff ok by auto
        then show ?thesis using ver min by (force simp: acceptable_def placed_node_def)
      qed
      moreover have "?E d'" if "r = Err e" for e
        using eff that P by (auto simp: left_alone_def survivable_def acceptable_def)
      ultimately show ?thesis by blast
    qed
    then show ?thesis using step by (intro tripleI) blast+
  qed
  then have "triple ?P (op_bind (op_map_err (PlaceFailed dest) (place_binary (uw_machine w) staged dest Move (ev_os env)))
      (\<lambda>placed. op_ok (Inr (prev, placed, v)))) (\<lambda>_. ?A) ?E" for prev
    by (intro triple_bind [OF triple_map_err]) (auto simp: triple_def op_lift_def)
  then show ?thesis unfolding place_staged_def by (intro triple_bind [OF kp])
qed

definition kept_apart :: "path \<Rightarrow> path \<Rightarrow> bool" where
  "kept_apart bin_dir receipt_file \<longleftrightarrow> \<not> prefix bin_dir receipt_file \<and> \<not> prefix (butlast receipt_file) bin_dir"

lemma keeps_receipt_save_apart:
  assumes "kept_apart bin_dir p" "p \<noteq> []" shows "keeps (bin_dir @ [x]) (receipt_save m cd rc p)"
proof (rule keeps_receipt_save)
  obtain R l where p: "p = R @ [l]" using assms(2) by (cases p rule: rev_cases) auto
  then have R: "\<not> prefix bin_dir (R @ [l])" "\<not> prefix R bin_dir" using assms(1) by (auto simp: kept_apart_def)
  show "\<not> prefix (bin_dir @ [x]) (butlast p)" using R p by (auto simp: prefix_def)
  have "\<not> prefix (R @ [y]) (bin_dir @ [x])" for y
  proof
    assume "prefix (R @ [y]) (bin_dir @ [x])"
    then obtain zs where "R @ y # zs = bin_dir @ [x]" by (auto simp: prefix_def)
    then have "R = bin_dir \<or> prefix R bin_dir" by (auto simp: append_eq_append_conv2 append_eq_Cons_conv)
    then show False using R by auto
  qed
  then show "\<not> prefix (receipt_tmp m p) (bin_dir @ [x])" "\<not> prefix p (bin_dir @ [x])"
    using p by (auto simp: receipt_tmp_def)
qed

lemma receipt_path_nonempty: "receipt_path env = Some p \<Longrightarrow> p \<noteq> [] \<and> last p = RECEIPT_FILE"
  by (auto simp: receipt_path_def)

lemma keeps_record_update:
  assumes "kept_apart bin_dir p" "p \<noteq> []"
  shows "keeps (bin_dir @ [x]) (record_update w req p rc channel current outcome step)"
  unfolding record_update_def Let_def by (intro keep_rules keeps_receipt_save_apart assms)

lemma with_lock_triple:
  assumes body: "triple (\<lambda>d. p (node_at q d)) body (\<lambda>x d. a x (node_at q d)) (\<lambda>d. e (node_at q d))"
    and q: "q \<noteq> lock_path bin_dir app" and pe: "\<And>n. p n \<Longrightarrow> e n"
  shows "triple (\<lambda>d. p (node_at q d)) (with_lock m bin_dir app body) (\<lambda>x d. a x (node_at q d)) (\<lambda>d. e (node_at q d))"
  unfolding with_lock_def
proof (rule triple_bind)
  show "triple (\<lambda>d. p (node_at q d)) (lock_acquire m bin_dir app) (\<lambda>_ d. p (node_at q d)) (\<lambda>d. e (node_at q d))"
    by (rule triple_conseq [OF triple_keeps_node [where p = p, OF keeps_lock_acquire [OF q]]]) (auto intro: pe)
  show "triple (\<lambda>d. p (node_at q d)) (op_finally body (fs_remove_file m (lock_path bin_dir app)))
     (\<lambda>x d. a x (node_at q d)) (\<lambda>d. e (node_at q d))"
    by (rule triple_finally [OF body]) (use q in \<open>auto intro: keep_rules\<close>)
qed

lemma with_work_triple:
  assumes body: "triple (\<lambda>d. p (node_at q d)) (body (work_path m bin_dir app)) (\<lambda>x d. a x (node_at q d)) (\<lambda>d. e (node_at q d))"
    and q: "\<not> prefix (work_path m bin_dir app) q" "\<not> prefix q (work_path m bin_dir app)" and pe: "\<And>n. p n \<Longrightarrow> e n"
  shows "triple (\<lambda>d. p (node_at q d)) (with_work m bin_dir app body) (\<lambda>x d. a x (node_at q d)) (\<lambda>d. e (node_at q d))"
  unfolding with_work_def Let_def
proof (rule triple_bind)
  show "triple (\<lambda>d. p (node_at q d)) (work_create m bin_dir app) (\<lambda>_ d. p (node_at q d)) (\<lambda>d. e (node_at q d))"
    by (rule triple_conseq [OF triple_keeps_node [where p = p, OF keeps_work_create [OF q]]]) (auto intro: pe)
  show "triple (\<lambda>d. p (node_at q d)) (op_finally (body (work_path m bin_dir app)) (fs_remove_dir_all m (work_path m bin_dir app)))
     (\<lambda>x d. a x (node_at q d)) (\<lambda>d. e (node_at q d))"
    by (rule triple_finally [OF body]) (use q in \<open>auto intro: keep_rules\<close>)
qed

text \<open>Staging leaves the installed binary alone and yields a verified file in the work directory.\<close>

lemma staging_triple:
  assumes "keeps dest st" and "\<And>d x d'. st d = (Ok x, d') \<Longrightarrow> Staged x d'"
  shows "triple (\<lambda>d. node_at dest d = n) st (\<lambda>x d. node_at dest d = n \<and> Staged x d) (\<lambda>d. node_at dest d = n)"
  by (rule tripleI) (use assms in \<open>auto dest: keepsD\<close>)

lemma triple_ex: "(\<And>g. triple (\<lambda>d. P d \<and> A g d) m Q E) \<Longrightarrow> triple (\<lambda>d. P d \<and> (\<exists>g. A g d)) m Q E"
  by (rule tripleI) (metis triple_Ok, metis triple_Err)

lemma receipt_load_effect:
  assumes "receipt_load m cd p d = (Ok (Some rc), d')"
  shows "(\<exists>f. node_at p d = Some (FileNode f) \<and> cd_from_slice cd (fn_bytes f) = Ok rc) \<and> rc_schema_version rc = RECEIPT_SCHEMA_VERSION"
proof -
  obtain r d1 where rd: "fs_read m p d = (r, d1)" by fastforce
  show ?thesis
  proof (cases r)
    case (Inl e)
    then show ?thesis using assms rd by (auto simp: receipt_load_def op_defs split: if_splits)
  next
    case (Inr bs)
    then show ?thesis
      using assms rd read_effect [of m p d bs d1]
      by (cases "cd_from_slice cd bs") (auto simp: receipt_load_def op_defs split: if_splits)
  qed
qed

lemma managed_receipt_effect:
  assumes "managed_receipt w env d = (Ok (rf, rc), d')"
  shows "receipt_path env = Some rf \<and>
     (\<exists>f. node_at rf d = Some (FileNode f) \<and> cd_from_slice (uw_codec w) (fn_bytes f) = Ok rc) \<and>
     rc_schema_version rc = RECEIPT_SCHEMA_VERSION \<and> (\<forall>q. node_at q d' = node_at q d)"
proof -
  have keep: "\<forall>q. node_at q d' = node_at q d" using keepsD [OF keeps_managed_receipt assms] by blast
  obtain p d1 where p: "receipt_path env = Some p" and "receipt_load (uw_machine w) (uw_codec w) p d = (Ok (Some rc), d1)" "rf = p"
    using assms by (auto simp: managed_receipt_def Let_def op_Ok_iffs split: option.splits if_splits)
  then show ?thesis
    using keep receipt_load_effect by blast
qed

lemma place_from_stage:
  assumes dest: "dest = rc_bin_dir rc @ [binary_file_name (ev_app env) (ev_os env)]"
    and low: "check_minimum (uw_semver w) policy v = Ok ()"
  shows "triple (\<lambda>d. node_at dest d = Some (FileNode f0) \<and>
       binary = work_path (uw_machine w) (rc_bin_dir rc) (ev_app env) @ [binary_file_name (ev_app env) (ev_os env)] \<and>
       (\<exists>g. node_at binary d = Some (FileNode g) \<and> verified_binary w env opts g v))
     (place_staged w env dest binary v)
     (\<lambda>_ d. acceptable w env opts policy f0 (node_at dest d)) (\<lambda>d. survivable w env opts policy f0 (node_at dest d))"
    (is "triple ?P ?m ?Q ?E")
proof (rule tripleI)
  fix d x d'
  assume P: "?P d" and run: "?m d = (Ok x, d')"
  then show "?Q x d'" using triple_Ok [OF place_staged_triple [OF dest _ _ low] _ run] by blast
next
  fix d e d'
  assume P: "?P d" and run: "?m d = (Err e, d')"
  then show "?E d'" using triple_Err [OF place_staged_triple [OF dest _ _ low] _ run] by blast
qed

lemma locked_update_triple:
  assumes dest: "dest = rc_bin_dir rc @ [binary_file_name (ev_app env) (ev_os env)]"
    and apart: "kept_apart (rc_bin_dir rc) rf" "rf \<noteq> []"
    and body: "triple (\<lambda>d. node_at dest d = Some (FileNode f0)) (body (work_path (uw_machine w) (rc_bin_dir rc) (ev_app env)))
      (\<lambda>_ d. acceptable w env opts policy f0 (node_at dest d)) (\<lambda>d. survivable w env opts policy f0 (node_at dest d))"
  shows "triple (\<lambda>d. node_at dest d = Some (FileNode f0))
     (with_lock (uw_machine w) (rc_bin_dir rc) (ev_app env)
       (op_bind (with_work (uw_machine w) (rc_bin_dir rc) (ev_app env) body)
          (record_update w req rf rc channel current outcome)))
     (\<lambda>_ d. acceptable w env opts policy f0 (node_at dest d)) (\<lambda>d. survivable w env opts policy f0 (node_at dest d))"
proof (rule with_lock_triple [where p = "\<lambda>n. n = Some (FileNode f0)"])
  show "dest \<noteq> lock_path (rc_bin_dir rc) (ev_app env)" by (rule dest_apart [OF dest])
  show "survivable w env opts policy f0 n" if "n = Some (FileNode f0)" for n
    using that by (simp add: survivable_def acceptable_def)
  have "triple (\<lambda>d. acceptable w env opts policy f0 (node_at dest d)) (record_update w req rf rc channel current outcome x)
      (\<lambda>_ d. acceptable w env opts policy f0 (node_at dest d)) (\<lambda>d. survivable w env opts policy f0 (node_at dest d))" for x
    using keeps_record_update [OF apart] unfolding dest
    by (rule triple_conseq [OF triple_keeps_node [where p = "acceptable w env opts policy f0"]]) (auto intro: acceptable_survivable)
  then show "triple (\<lambda>d. node_at dest d = Some (FileNode f0))
      (op_bind (with_work (uw_machine w) (rc_bin_dir rc) (ev_app env) body) (record_update w req rf rc channel current outcome))
      (\<lambda>_ d. acceptable w env opts policy f0 (node_at dest d)) (\<lambda>d. survivable w env opts policy f0 (node_at dest d))"
  proof (rule triple_bind [rotated])
    show "triple (\<lambda>d. node_at dest d = Some (FileNode f0)) (with_work (uw_machine w) (rc_bin_dir rc) (ev_app env) body)
      (\<lambda>_ d. acceptable w env opts policy f0 (node_at dest d)) (\<lambda>d. survivable w env opts policy f0 (node_at dest d))"
      by (rule with_work_triple [where p = "\<lambda>n. n = Some (FileNode f0)"])
        (use body dest_apart [OF dest] in simp_all)
  qed
qed

lemma local_body_triple:
  fixes w :: "'v::linorder update_world"
  assumes dest: "dest = rc_bin_dir rc @ [binary_file_name (ev_app env) (ev_os env)]"
  shows "triple (\<lambda>d. node_at dest d = Some (FileNode f0))
     (op_bind (stage_local_archive w env opts arg (work_path (uw_machine w) (rc_bin_dir rc) (ev_app env))) (\<lambda>(binary, version).
      op_bind (op_lift (check_minimum (uw_semver w) policy version)) (\<lambda>_.
      if c1 version then op_ok (o1 version) else if c2 then op_ok (o2 version) else place_staged w env dest binary version)))
     (\<lambda>_ d. acceptable w env opts policy f0 (node_at dest d)) (\<lambda>d. survivable w env opts policy f0 (node_at dest d))"
proof -
  let ?work = "work_path (uw_machine w) (rc_bin_dir rc) (ev_app env)"
  let ?S = "\<lambda>(binary, v) d. binary = ?work @ [binary_file_name (ev_app env) (ev_os env)] \<and>
     (\<exists>g. node_at binary d = Some (FileNode g) \<and> verified_binary w env opts g v)"
  have "triple (\<lambda>d. node_at dest d = Some (FileNode f0)) (stage_local_archive w env opts arg ?work)
      (\<lambda>x d. node_at dest d = Some (FileNode f0) \<and> ?S x d) (\<lambda>d. node_at dest d = Some (FileNode f0))"
  proof (rule staging_triple)
    show "keeps dest (stage_local_archive w env opts arg ?work)" by (intro keeps_stage_local dest_apart [OF dest])
    fix d and x :: "path \<times> 'v" and d'
    assume "stage_local_archive w env opts arg ?work d = (Ok x, d')"
    then show "?S x d'" using stage_local_effect [of w env opts arg ?work d "fst x" "snd x" d'] by (cases x) auto
  qed
  then have st: "triple (\<lambda>d. node_at dest d = Some (FileNode f0)) (stage_local_archive w env opts arg ?work)
      (\<lambda>x d. node_at dest d = Some (FileNode f0) \<and> ?S x d) (\<lambda>d. survivable w env opts policy f0 (node_at dest d))"
    by (rule triple_conseq) auto
  show ?thesis
  proof (rule triple_bind [OF st])
    fix x :: "path \<times> 'v"
    obtain binary v where x: "x = (binary, v)" by (cases x)
    show "triple (\<lambda>d. node_at dest d = Some (FileNode f0) \<and> ?S x d)
       (case x of (binary, version) \<Rightarrow> op_bind (op_lift (check_minimum (uw_semver w) policy version)) (\<lambda>_.
          if c1 version then op_ok (o1 version) else if c2 then op_ok (o2 version) else place_staged w env dest binary version))
       (\<lambda>_ d. acceptable w env opts policy f0 (node_at dest d)) (\<lambda>d. survivable w env opts policy f0 (node_at dest d))"
      unfolding x prod.case
      by (intro triple_check triple_if place_from_stage [OF dest])
        (auto simp: triple_def op_lift_def)
  qed
qed

lemma download_body_triple:
  assumes dest: "dest = rc_bin_dir rc @ [binary_file_name (ev_app env) (ev_os env)]"
    and low: "check_minimum (uw_semver w) policy (rr_version release) = Ok ()"
  shows "triple (\<lambda>d. node_at dest d = Some (FileNode f0))
     (op_bind (download_verified w env opts token release (work_path (uw_machine w) (rc_bin_dir rc) (ev_app env))) (\<lambda>binary.
      place_staged w env dest binary (rr_version release)))
     (\<lambda>_ d. acceptable w env opts policy f0 (node_at dest d)) (\<lambda>d. survivable w env opts policy f0 (node_at dest d))"
proof -
  let ?work = "work_path (uw_machine w) (rc_bin_dir rc) (ev_app env)"
  let ?S = "\<lambda>binary d. binary = ?work @ [binary_file_name (ev_app env) (ev_os env)] \<and>
     (\<exists>g. node_at binary d = Some (FileNode g) \<and> verified_binary w env opts g (rr_version release))"
  have st: "triple (\<lambda>d. node_at dest d = Some (FileNode f0)) (download_verified w env opts token release ?work)
      (\<lambda>x d. node_at dest d = Some (FileNode f0) \<and> ?S x d) (\<lambda>d. node_at dest d = Some (FileNode f0))"
  proof (rule staging_triple)
    show "keeps dest (download_verified w env opts token release ?work)" by (intro keeps_download dest_apart [OF dest])
    show "?S x d'" if "download_verified w env opts token release ?work d = (Ok x, d')" for d x d'
      by (rule download_effect [OF that])
  qed
  show ?thesis
    by (rule triple_bind [OF triple_conseq [OF st] place_from_stage [OF dest low]])
      (auto simp: acceptable_def survivable_def)
qed

lemma triple_option:
  "(x = None \<Longrightarrow> triple P m Q E) \<Longrightarrow> (\<And>y. x = Some y \<Longrightarrow> triple P (f y) Q E) \<Longrightarrow>
   triple P (case x of None \<Rightarrow> m | Some y \<Rightarrow> f y) Q E"
  by (cases x) auto

lemma triple_prod: "(\<And>a b. x = (a, b) \<Longrightarrow> triple P (f a b) Q E) \<Longrightarrow> triple P (case x of (a, b) \<Rightarrow> f a b) Q E"
  by (cases x) auto

lemma update_triple:
  fixes w :: "'v::linorder update_world"
  assumes rf: "receipt_path env = Some rf"
    and shape: "rc_binary_path rc = rc_bin_dir rc @ [binary_file_name (ev_app env) (ev_os env)]"
    and apart: "kept_apart (rc_bin_dir rc) rf"
  shows "triple (\<lambda>d. node_at (rc_binary_path rc) d = Some (FileNode f0) \<and>
       (\<exists>f. node_at rf d = Some (FileNode f) \<and> cd_from_slice (uw_codec w) (fn_bytes f) = Ok rc))
     (update w env opts policy req)
     (\<lambda>_ d. acceptable w env opts policy f0 (node_at (rc_binary_path rc) d))
     (\<lambda>d. survivable w env opts policy f0 (node_at (rc_binary_path rc) d))"
proof -
  let ?dest = "rc_binary_path rc"
  let ?P = "\<lambda>d. node_at ?dest d = Some (FileNode f0)"
  let ?Q = "\<lambda>_ d. acceptable w env opts policy f0 (node_at ?dest d)" and ?E = "\<lambda>d. survivable w env opts policy f0 (node_at ?dest d)"
  have ret: "triple ?P (op_lift r) ?Q ?E" for r :: "'v self_install_error + update_outcome"
    by (auto simp: triple_def op_lift_def split: sum.splits)
  have ne: "rf \<noteq> []" using receipt_path_nonempty [OF rf] by simp
  have res: "triple ?P (resolve_release w env opts policy channel) (\<lambda>_. ?P) ?E" for channel
    by (rule triple_conseq [OF triple_keeps_node [where p = "\<lambda>n. n = Some (FileNode f0)"]]) (auto intro: keep_rules)
  have man: "triple (\<lambda>d. ?P d \<and> (\<exists>f. node_at rf d = Some (FileNode f) \<and> cd_from_slice (uw_codec w) (fn_bytes f) = Ok rc))
      (managed_receipt w env) (\<lambda>x d. x = (rf, rc) \<and> ?P d) ?E"
  proof (rule tripleI)
    fix d e d'
    assume P: "?P d \<and> (\<exists>f. node_at rf d = Some (FileNode f) \<and> cd_from_slice (uw_codec w) (fn_bytes f) = Ok rc)"
      and run: "managed_receipt w env d = (Err e, d')"
    show "?E d'" using keepsD [OF keeps_managed_receipt run, of ?dest] P by simp
  qed (use managed_receipt_effect rf in fastforce)
  show ?thesis
    unfolding update_def Let_def
    by (rule triple_bind [OF man], rule triple_split_pre, hypsubst, unfold prod.case,
      intro triple_if triple_check ret triple_option triple_bind [OF res] triple_prod
        locked_update_triple [OF shape apart ne] local_body_triple [OF shape] download_body_triple [OF shape])
      (auto)
qed

text \<open>The property: what an update may leave at the path of the binary.\<close>

lemma update_outcome:
  assumes "receipt_path env = Some rf" "node_at rf d = Some (FileNode fr)" "cd_from_slice (uw_codec w) (fn_bytes fr) = Ok rc"
    and "rc_binary_path rc = rc_bin_dir rc @ [binary_file_name (ev_app env) (ev_os env)]" "kept_apart (rc_bin_dir rc) rf"
    and "node_at (rc_binary_path rc) d = Some (FileNode f0)" and run: "update w env opts policy req d = (r, d')"
  shows "acceptable w env opts policy f0 (node_at (rc_binary_path rc) d') \<or>
     is_windows (ev_os env) \<and> isl r \<and> node_at (rc_binary_path rc) d' = None"
proof -
  note t = update_triple [OF assms(1,4,5), of f0 w opts policy req]
  have P: "node_at (rc_binary_path rc) d = Some (FileNode f0) \<and>
      (\<exists>f. node_at rf d = Some (FileNode f) \<and> cd_from_slice (uw_codec w) (fn_bytes f) = Ok rc)"
    using assms by blast
  show ?thesis
  proof (cases r)
    case (Inl e)
    then show ?thesis using triple_Err [OF t P] run by (auto simp: survivable_def)
  next
    case (Inr out)
    then show ?thesis using triple_Ok [OF t P] run by auto
  qed
qed

lemma update_disabled:
  assumes "update w env opts policy req d = (r, d')" "\<not> allows_update policy"
  shows "isl r \<and> (\<forall>q. node_at q d' = node_at q d)"
proof -
  obtain r1 d1 where man: "managed_receipt w env d = (r1, d1)" by fastforce
  then have "isl r \<and> d' = d1"
    using assms by (cases r1) (auto simp: update_def Let_def op_bind_def op_lift_def split: prod.splits)
  then show ?thesis using keepsD [OF keeps_managed_receipt man] by simp
qed

section \<open>Rolling back\<close>

definition bytes_at :: "path \<Rightarrow> disk \<Rightarrow> bytes option" where
  "bytes_at p d = (case node_at p d of Some (FileNode f) \<Rightarrow> Some (fn_bytes f) | _ \<Rightarrow> None)"

lemma bytes_at_Some: "bytes_at p d = Some bs \<longleftrightarrow> (\<exists>f. node_at p d = Some (FileNode f) \<and> fn_bytes f = bs)"
  by (auto simp: bytes_at_def split: option.splits node.splits)

lemma bytes_at_cong: "node_at p d' = node_at p d \<Longrightarrow> bytes_at p d' = bytes_at p d"
  by (simp add: bytes_at_def)

lemma park_old_keeps:
  assumes "\<not> prefix dest q" and "\<And>old. old \<in> set (parked_paths m dest) \<Longrightarrow> \<not> prefix old q"
  shows "keeps q (park_old m dest)"
  unfolding park_old_def Let_def using assms
  by (intro keep_rules keeps_rename) (auto simp: parked_paths_def split: if_splits)

lemma keeps_bind_on:
  "keeps q m \<Longrightarrow> (\<And>d x d1. m d = (Ok x, d1) \<Longrightarrow> keeps q (f x)) \<Longrightarrow> keeps q (op_bind m f)"
  by (rule keepsI, erule op_bind_cases) (metis keepsD)+

lemma park_old_parked: "park_old m dest d = (Ok old, d') \<Longrightarrow> old \<in> set (parked_paths m dest)"
  by (auto simp: park_old_def Let_def op_Ok_iffs parked_paths_def)

lemma place_binary_keeps:
  assumes "\<not> prefix dest q" "\<not> prefix src q" "\<not> prefix (staging_path m dest) q" "\<not> prefix q (butlast dest)"
    and old: "\<And>old. old \<in> set (parked_paths m dest) \<Longrightarrow> \<not> prefix old q" and zone: "q \<noteq> os_str_push dest '':Zone.Identifier''"
  shows "keeps q (place_binary m src dest mode sys)"
proof -
  have park: "keeps q (park_old m dest)" by (rule park_old_keeps [OF assms(1) old])
  have undo: "keeps q (fs_rename m old dest)" "keeps q (fs_remove_file m old)" if "old \<in> set (parked_paths m dest)" for old
    using that assms(1) old by (auto intro!: keeps_rename keep_rules)
  have tmp: "keeps q (fs_rename m (staging_path m dest) dest)" "keeps q (fs_remove_file m (staging_path m dest))"
    using assms by (auto intro!: keeps_rename keep_rules)
  have "keeps q (op_bind (park_old m dest) (\<lambda>old.
       op_bind (op_on_err (fs_rename m (staging_path m dest) dest)
                  (op_bind (op_ignore (fs_rename m old dest)) (\<lambda>_. fs_remove_file m (staging_path m dest)))) (\<lambda>_.
       op_bind (op_result (fs_remove_file m old)) (\<lambda>r. op_ok (case r of Err _ \<Rightarrow> Some old | Ok _ \<Rightarrow> None)))))"
    by (intro keeps_bind_on [OF park] keeps_bind keeps_on_err keeps_ignore keeps_result keeps_lift tmp
        undo [OF park_old_parked])
  then have swap: "keeps q (swap_in m sys (staging_path m dest) dest)"
    unfolding swap_in_def using assms by (auto intro!: keep_rules keeps_rename)
  show ?thesis
    unfolding place_binary_def stage_binary_def clear_download_marks_def make_executable_def Let_def
    using assms swap by (cases mode) (auto intro!: keep_rules keeps_rename swap)
qed

text \<open>The names an operation uses beside the binary are different from one another.\<close>

definition hold_name :: "string \<Rightarrow> nat \<Rightarrow> string" where
  "hold_name n pid = ''.'' @ n @ ''.tmp-rollback-'' @ nat_dec pid"

lemma last_nat_dec_digit: "48 \<le> (of_char (last (nat_dec n)) :: nat) \<and> (of_char (last (nat_dec n)) :: nat) \<le> 57"
  using nat_dec_digits [of "last (nat_dec n)" n] nat_dec_nonempty [of n] by simp

lemma hold_name_neq:
  "hold_name n pid \<noteq> n" "hold_name n pid \<noteq> n @ ''.prev''" "hold_name n pid \<noteq> ''.'' @ n @ ''.tmp-'' @ nat_dec pid"
  "hold_name n pid \<noteq> n @ ''.old''" "hold_name n pid \<noteq> n @ ''.old.'' @ nat_dec pid" "hold_name n pid \<noteq> n @ '':Zone.Identifier''"
proof -
  show "hold_name n pid \<noteq> n @ '':Zone.Identifier''"
  proof
    assume "hold_name n pid = n @ '':Zone.Identifier''"
    then have "last (hold_name n pid) = CHR ''r''" by simp
    moreover have "last (hold_name n pid) = last (nat_dec pid)"
      using nat_dec_nonempty [of pid] by (simp add: hold_name_def)
    ultimately show False using last_nat_dec_digit [of pid] by simp
  qed
qed (auto simp: hold_name_def dest: arg_cong [where f = length])

lemma sibling_prefix: "prefix (b @ [x]) (b @ [y]) \<longleftrightarrow> x = y" "\<not> prefix (b @ [x]) b"
  by (auto simp: prefix_def)

lemma place_keeps_hold:
  "keeps (b @ [hold_name n (mc_pid m)]) (place_binary m (b @ [n @ ''.prev'']) (b @ [n]) mode sys)"
  using hold_name_neq [of n "mc_pid m"]
  by (intro place_binary_keeps) (auto simp: staging_path_def parked_paths_def sibling_prefix)

lemma place_keeps_prev:
  assumes "\<not> prefix src (b @ [n @ ''.prev''])"
  shows "keeps (b @ [n @ ''.prev'']) (place_binary m src (b @ [n]) mode sys)"
  using assms
  by (intro place_binary_keeps) (auto simp: staging_path_def parked_paths_def sibling_prefix dest: arg_cong [where f = length])

lemma set_not_executable_effect:
  "set_not_executable m sys p d = (r, d') \<Longrightarrow> bytes_at q d' = bytes_at q d"
  by (auto simp: set_not_executable_def bytes_at_def op_defs fs_set_exec_def syscall_def Let_def
      split: if_splits option.splits fault.splits node.splits prod.splits)

lemma swap_previous_effect:
  fixes w :: "'v update_world"
  assumes run: "swap_previous w env b (b @ [n]) d = (Ok placed, d')" and n: "n = binary_file_name (ev_app env) (ev_os env)"
    and f0: "bytes_at (b @ [n]) d = Some x" and p0: "bytes_at (b @ [n @ ''.prev'']) d = Some y"
    and other: "\<And>d. \<not> same_path (uw_machine w) d (b @ [n @ ''.prev'']) (b @ [n]) (ev_os env)"
  shows "bytes_at (b @ [n]) d' = Some y \<and> bytes_at (b @ [n @ ''.prev'']) d' = Some x"
proof -
  let ?m = "uw_machine w" and ?dest = "b @ [n]" and ?prev = "b @ [n @ ''.prev'']"
  let ?hold = "b @ [hold_name n (mc_pid ?m)]"
  obtain f p where f: "node_at ?dest d = Some (FileNode f)" "fn_bytes f = x" and p: "node_at ?prev d = Some (FileNode p)" "fn_bytes p = y"
    using f0 p0 by (auto simp: bytes_at_Some)
  obtain d1 d2 d3 where cp: "fs_copy ?m ?dest ?hold d = (Ok (), d1)"
    and pl: "place_binary ?m ?prev ?dest Move (ev_os env) d1 = (Ok placed, d2)"
    and rn: "fs_rename ?m ?hold ?prev d2 = (Ok (), d3)" and ne: "(set_not_executable ?m (ev_os env) ?prev :: ('v self_install_error, unit) op) d3 = (Ok (), d')"
    using run n by (auto simp: swap_previous_def prev_path_def Let_def op_Ok_iffs hold_name_def)
  have hold: "?hold \<noteq> ?dest" "?hold \<noteq> ?prev" using hold_name_neq [of n] by auto
  obtain t where d1: "node_at ?hold d1 = Some (FileNode (f\<lparr>fn_mtime := t\<rparr>))" "\<And>q. q \<noteq> ?hold \<Longrightarrow> node_at q d1 = node_at q d"
    using copy_file_effect [OF cp f(1)] by auto
  have prev1: "node_at ?prev d1 = Some (FileNode p)" using d1(2) [of ?prev] p hold by auto
  have fresh: "?prev \<noteq> staging_path ?m ?dest" by (auto simp: staging_path_def dest: arg_cong [where f = length])
  have nodir: "\<not> is_dir ?dest d1" using d1(2) [of ?dest] f hold by (auto simp: is_dir_def)
  obtain t' where d2: "node_at ?dest d2 = Some (placed_node (ev_os env) p t')"
    using place_binary_effect [OF pl prev1 nodir fresh] other by auto
  have hold2: "node_at ?hold d2 = Some (FileNode (f\<lparr>fn_mtime := t\<rparr>))"
    using keepsD [OF place_keeps_hold pl] d1(1) by simp
  have "node_at ?prev d3 = Some (FileNode (f\<lparr>fn_mtime := t\<rparr>))" "node_at ?dest d3 = node_at ?dest d2"
    using rename_file_effect [OF rn hold2] hold by auto
  then show ?thesis
    using set_not_executable_effect [OF ne] f p d2 by (force simp: bytes_at_Some placed_node_def)
qed

definition stored_receipt :: "receipt_codec \<Rightarrow> path \<Rightarrow> install_receipt \<Rightarrow> disk \<Rightarrow> bool" where
  "stored_receipt cd rf rc d \<longleftrightarrow> (\<exists>bs. bytes_at rf d = Some bs \<and> cd_to_vec cd rc = Ok bs)"

lemma receipt_save_stores:
  "receipt_save m cd rc p d = (Ok u, d') \<Longrightarrow> p \<noteq> [] \<Longrightarrow> last p = RECEIPT_FILE \<Longrightarrow> stored_receipt cd p rc d'"
  using receipt_save_effect [of m cd rc p d "Ok u" d'] by (auto simp: stored_receipt_def bytes_at_Some)

lemma op_finally_Ok: "op_finally m h d = (Ok x, d') \<longleftrightarrow> (\<exists>d1. m d = (Ok x, d1) \<and> d' = snd (h d1))"
  by (cases "m d") (auto simp: op_finally_def)

lemma with_lock_Ok:
  "with_lock m b app body d = (Ok x, d') \<Longrightarrow>
   \<exists>d1 d2. lock_attempts m (lock_path b app) 2 d = (Ok () :: 'v self_install_error + unit, d1) \<and> body d1 = (Ok x, d2) \<and>
     d' = snd (fs_remove_file m (lock_path b app) d2)"
  for body :: "('v self_install_error, 'a) op"
  by (auto simp: with_lock_def lock_acquire_def op_Ok_iffs op_finally_Ok)

lemma remove_keeps_bytes: "q \<noteq> p \<Longrightarrow> bytes_at q (snd (fs_remove_file m p d)) = bytes_at q d"
  using keeps_calls(1) [of q p m] by (auto simp: keeps_def intro: bytes_at_cong)

lemma prev_path_snoc [simp]: "prev_path (b @ [n]) = b @ [n @ ''.prev'']"
  by (simp add: prev_path_def)

lemma prev_name_neq:
  "binary_file_name app sys @ ''.prev'' \<noteq> ''.'' @ app @ ''.lock''"
  "binary_file_name app sys @ ''.prev'' \<noteq> ''.'' @ app @ ''-update.'' @ nat_dec pid"
  using nat_dec_nonempty [of pid]
  by (auto simp: binary_file_name_def dest: arg_cong [where f = length])

lemma rollback_effect:
  fixes w :: "'v::linorder update_world"
  assumes run: "rollback w env policy d = (Ok out, d')" and rf: "receipt_path env = Some rf"
    and rec: "bytes_at rf d = Some bs" "cd_from_slice (uw_codec w) bs = Ok rc"
    and shape: "rc_binary_path rc = rc_bin_dir rc @ [n]" "n = binary_file_name (ev_app env) (ev_os env)"
    and apart: "kept_apart (rc_bin_dir rc) rf" and f0: "bytes_at (rc_binary_path rc) d = Some x"
    and other: "\<And>d. \<not> same_path (uw_machine w) d (prev_path (rc_binary_path rc)) (rc_binary_path rc) (ev_os env)"
  shows "\<exists>y rc'. bytes_at (prev_path (rc_binary_path rc)) d = Some y \<and> bytes_at (rc_binary_path rc) d' = Some y \<and>
     bytes_at (prev_path (rc_binary_path rc)) d' = Some x \<and> stored_receipt (uw_codec w) rf rc' d' \<and>
     rc_version rc' = (case rc_previous_version rc of Some v \<Rightarrow> v | None \<Rightarrow> ''unknown'') \<and>
     rc_previous_version rc' = Some (rc_version rc)"
proof -
  let ?b = "rc_bin_dir rc" and ?m = "uw_machine w" and ?lock = "lock_path (rc_bin_dir rc) (ev_app env)"
  let ?to = "case rc_previous_version rc of Some v \<Rightarrow> v | None \<Rightarrow> ''unknown''"
  obtain rf' rc' d1 where man: "managed_receipt w env d = (Ok (rf', rc'), d1)"
    using run by (auto simp: rollback_def Let_def op_Ok_iffs)
  then have same: "rf' = rf" "rc' = rc" and d1: "\<And>q. bytes_at q d1 = bytes_at q d"
    using managed_receipt_effect [OF man] rf rec by (auto simp: bytes_at_Some intro: bytes_at_cong)
  obtain now d2 d3 d4 placed where there: "is_file (?b @ [n @ ''.prev'']) d1"
    and lk: "lock_attempts ?m ?lock 2 d1 = (Ok () :: 'v self_install_error + unit, d2)"
    and sw: "swap_previous w env ?b (?b @ [n]) d2 = (Ok placed, d3)"
    and sv: "receipt_save ?m (uw_codec w) (rc\<lparr>rc_version := ?to, rc_previous_version := Some (rc_version rc), rc_installed_at := now\<rparr>) rf d3 = (Ok (), d4)"
    and fin: "d' = snd (fs_remove_file ?m ?lock d4)"
  proof -
    let ?rc = "\<lambda>now. rc\<lparr>rc_version := ?to, rc_previous_version := Some (rc_version rc), rc_installed_at := now\<rparr>"
    have there: "is_file (?b @ [n @ ''.prev'']) d1"
      and "with_lock ?m ?b (ev_app env)
         (op_bind (swap_previous w env ?b (?b @ [n])) (\<lambda>placed. op_bind (now_rfc3339 ?m) (\<lambda>now.
          op_bind (op_map_err ReceiptFailed (receipt_save ?m (uw_codec w) (?rc now) rf)) (\<lambda>_.
          op_ok \<lparr>ro_from = rc_version rc, ro_to = ?to, ro_binary_path = ?b @ [n],
            ro_notes = parked_note ''the replaced binary'' placed @ apps_features_note w (?rc now)\<rparr>)))) d1 = (Ok out, d')"
      using run man same shape(1)
      by (auto simp: rollback_def Let_def op_Ok_iffs split: if_splits sum.splits)
    from with_lock_Ok [OF this(2)] show thesis
      using that there by (auto simp: op_Ok_iffs now_rfc3339_def)
  qed
  obtain y where y: "bytes_at (?b @ [n @ ''.prev'']) d1 = Some y"
    using there by (auto simp: is_file_def bytes_at_def split: option.splits node.splits)
  have ne: "?b @ [n] \<noteq> ?lock" "?b @ [n @ ''.prev''] \<noteq> ?lock" "rf \<noteq> ?lock"
    using binary_name_neq(1) [of "ev_app env" "ev_os env"] prev_name_neq(1) [of "ev_app env" "ev_os env"] shape(2) apart
    by (auto simp: lock_path_def kept_apart_def)
  have d2: "bytes_at q d2 = bytes_at q d" if "q \<noteq> ?lock" for q
    using keepsD [OF keeps_lock_attempts lk] d1 that by (metis bytes_at_cong)
  have d3: "bytes_at (?b @ [n]) d3 = Some y \<and> bytes_at (?b @ [n @ ''.prev'']) d3 = Some x"
    using swap_previous_effect [OF sw shape(2)] d2 ne y d1 f0 other shape(1) by simp
  have p: "rf \<noteq> []" "last rf = RECEIPT_FILE" using receipt_path_nonempty [OF rf] by auto
  have d4: "bytes_at (?b @ [z]) d4 = bytes_at (?b @ [z]) d3" for z
    using keepsD [OF keeps_receipt_save_apart [OF apart p(1)] sv] by (rule bytes_at_cong)
  show ?thesis
    using receipt_save_stores [OF sv p] d4 d3 fin ne y d1 shape(1)
    by (intro exI [of _ y] exI [of _ "rc\<lparr>rc_version := ?to, rc_previous_version := Some (rc_version rc), rc_installed_at := now\<rparr>"])
      (simp add: remove_keeps_bytes stored_receipt_def)
qed

section \<open>A rollback undoes an update\<close>

lemma with_work_Ok:
  "with_work m b app body d = (Ok x, d') \<Longrightarrow>
   \<exists>d1 d2. (work_create m b app :: ('v self_install_error, unit) op) d = (Ok (), d1) \<and> body (work_path m b app) d1 = (Ok x, d2) \<and>
     d' = snd (fs_remove_dir_all m (work_path m b app) d2)"
  for body :: "path \<Rightarrow> ('v self_install_error, 'a) op"
  by (auto simp: with_work_def Let_def op_Ok_iffs op_finally_Ok)

text \<open>What the end of an update leaves: the replaced binary beside the new one.\<close>

definition step_keeps_previous :: "path \<Rightarrow> bytes \<Rightarrow> update_outcome + (path \<times> place_result \<times> 'v) \<Rightarrow> disk \<Rightarrow> bool" where
  "step_keeps_previous dest x step d \<longleftrightarrow>
     (case step of Inl out \<Rightarrow> uo_action out \<noteq> Updated | Inr _ \<Rightarrow> bytes_at (prev_path dest) d = Some x)"

lemma place_staged_previous:
  fixes w :: "'v update_world"
  assumes run: "place_staged w env (b @ [n]) (work_path m b (ev_app env) @ [n]) v d = (Ok step, d')"
    and x: "bytes_at (b @ [n]) d = Some x" and n: "n = binary_file_name (ev_app env) (ev_os env)"
  shows "step_keeps_previous (b @ [n]) x step d'"
proof -
  let ?prev = "b @ [n @ ''.prev'']" and ?staged = "work_path m b (ev_app env) @ [n]"
  obtain previous placed d1 where kp: "(keep_previous (uw_machine w) (b @ [n]) (ev_os env) :: ('v self_install_error, path) op) d = (Ok previous, d1)"
    and pl: "place_binary (uw_machine w) ?staged (b @ [n]) Move (ev_os env) d1 = (Ok placed, d')"
    and step: "step = Inr (previous, placed, v)"
    using run by (auto simp: place_staged_def op_Ok_iffs)
  obtain d0 where cp: "fs_copy (uw_machine w) (b @ [n]) ?prev d = (Ok (), d0)"
    and ne: "(set_not_executable (uw_machine w) (ev_os env) ?prev :: ('v self_install_error, unit) op) d0 = (Ok (), d1)"
    using kp by (auto simp: keep_previous_def Let_def op_Ok_iffs)
  have "bytes_at ?prev d0 = Some x"
    using copy_file_effect [OF cp] x by (fastforce simp: bytes_at_Some)
  then have prev: "bytes_at ?prev d1 = Some x" using set_not_executable_effect [OF ne] by simp
  have "keeps ?prev (place_binary (uw_machine w) ?staged (b @ [n]) Move (ev_os env))"
    by (rule place_keeps_prev) (auto simp: work_path_def prefix_def)
  then have "node_at ?prev d' = node_at ?prev d1" using pl by (rule keepsD)
  then have "bytes_at ?prev d' = Some x" using prev bytes_at_cong [of ?prev d' d1] by simp
  then show ?thesis unfolding step step_keeps_previous_def by simp
qed

lemma record_update_saves:
  assumes "record_update w req rf rc channel current outcome (Inr (previous, placed, target)) d = (Ok out, d')"
  shows "\<exists>rc'. receipt_save (uw_machine w) (uw_codec w) rc' rf d = (Ok (), d') \<and> rc_bin_dir rc' = rc_bin_dir rc \<and>
     rc_binary_path rc' = rc_binary_path rc \<and> rc_previous_version rc' = Some (sv_show (uw_semver w) current)"
  using assms unfolding record_update_def sum.case prod.case now_rfc3339_def op_Ok_iffs Let_def
  by (elim exE conjE) (rule exI, intro conjI, simp, simp_all)

lemma locked_update_Ok:
  fixes w :: "'v::linorder update_world"
  assumes run: "with_lock (uw_machine w) b app (op_bind (with_work (uw_machine w) b app body)
        (record_update w req rf rc channel current outcome)) d = (Ok out, d')"
    and upd: "uo_action out = Updated" and n: "n = binary_file_name app sys"
    and apart: "kept_apart b rf" and rf: "rf \<noteq> []" "last rf = RECEIPT_FILE"
    and x: "bytes_at (b @ [n]) d = Some x"
    and body: "\<And>dd step dd'. body (work_path (uw_machine w) b app) dd = (Ok step, dd') \<Longrightarrow>
       bytes_at (b @ [n]) dd = Some x \<Longrightarrow> step_keeps_previous (b @ [n]) x step dd'"
  shows "bytes_at (b @ [n @ ''.prev'']) d' = Some x \<and>
     (\<exists>rc'. stored_receipt (uw_codec w) rf rc' d' \<and> rc_bin_dir rc' = rc_bin_dir rc \<and> rc_binary_path rc' = rc_binary_path rc \<and>
        rc_previous_version rc' = Some (sv_show (uw_semver w) current))"
proof -
  let ?m = "uw_machine w" and ?work = "work_path (uw_machine w) b app" and ?lock = "lock_path b app" and ?prev = "b @ [n @ ''.prev'']"
  obtain step d1 d2 d3 d4 d5 where lk: "lock_attempts ?m ?lock 2 d = (Ok () :: 'v self_install_error + unit, d1)"
    and wc: "(work_create ?m b app :: ('v self_install_error, unit) op) d1 = (Ok (), d2)"
    and bd: "body ?work d2 = (Ok step, d3)" and d4: "d4 = snd (fs_remove_dir_all ?m ?work d3)"
    and ru: "record_update w req rf rc channel current outcome step d4 = (Ok out, d5)"
    and d': "d' = snd (fs_remove_file ?m ?lock d5)"
    using with_lock_Ok [OF run] by (auto simp: op_Ok_iffs dest!: with_work_Ok)
  have dest: "b @ [n] \<noteq> ?lock" "\<not> prefix ?work (b @ [n])" "\<not> prefix (b @ [n]) ?work"
    using dest_apart [of "b @ [n]" b app sys] n by auto
  have prev: "?prev \<noteq> ?lock" "\<not> prefix ?work ?prev"
    using prev_name_neq(1) [of app sys] prev_name_neq(2) [of app sys "mc_pid ?m"] n by (auto simp: lock_path_def work_path_def)
  have "bytes_at (b @ [n]) d2 = Some x"
    using keepsD [OF keeps_lock_attempts [OF dest(1)] lk] keepsD [OF keeps_work_create [OF dest(2,3)] wc] x bytes_at_cong by metis
  then have "step_keeps_previous (b @ [n]) x step d3" using body bd by blast
  moreover obtain previous placed target where step: "step = Inr (previous, placed, target)"
    using calculation ru upd by (cases step) (auto simp: record_update_def step_keeps_previous_def op_Ok_iffs)
  ultimately have "bytes_at ?prev d3 = Some x" by (simp add: step_keeps_previous_def)
  moreover have "node_at ?prev d4 = node_at ?prev d3"
    using keeps_calls(3) [OF prev(2), of ?m] by (simp add: keeps_def d4)
  moreover have "node_at ?prev d5 = node_at ?prev d4"
    using keepsD [OF keeps_record_update [OF apart rf(1)] ru] by simp
  ultimately have "bytes_at ?prev d5 = Some x" by (metis bytes_at_cong)
  then have "bytes_at ?prev d' = Some x" using prev d' by (simp add: remove_keeps_bytes)
  moreover obtain rc' where sv: "receipt_save ?m (uw_codec w) rc' rf d4 = (Ok (), d5)" and rc': "rc_bin_dir rc' = rc_bin_dir rc"
      "rc_binary_path rc' = rc_binary_path rc" "rc_previous_version rc' = Some (sv_show (uw_semver w) current)"
    using record_update_saves [OF ru [unfolded step]] by blast
  moreover have "rf \<noteq> ?lock" using apart by (auto simp: lock_path_def kept_apart_def)
  then have "stored_receipt (uw_codec w) rf rc' d'"
    using receipt_save_stores [OF sv rf] d' by (simp add: stored_receipt_def remove_keeps_bytes)
  ultimately show ?thesis by blast
qed

lemma local_stage_previous:
  fixes w :: "'v::linorder update_world"
  assumes run: "op_bind (stage_local_archive w env opts arg (work_path (uw_machine w) b (ev_app env))) (\<lambda>(binary, version).
      op_bind (op_lift (check_minimum (uw_semver w) policy version)) (\<lambda>_.
      if c1 version then op_ok (Inl (o1 version)) else if c2 then op_ok (Inl (o2 version))
      else place_staged w env (b @ [n]) binary version)) d = (Ok step, d')"
    and x: "bytes_at (b @ [n]) d = Some x" and n: "n = binary_file_name (ev_app env) (ev_os env)"
    and idle: "\<And>v. uo_action (o1 v) \<noteq> Updated" "\<And>v. uo_action (o2 v) \<noteq> Updated"
  shows "step_keeps_previous (b @ [n]) x step d'"
proof -
  let ?work = "work_path (uw_machine w) b (ev_app env)"
  obtain binary v d1 where st: "stage_local_archive w env opts arg ?work d = (Ok (binary, v), d1)"
    and rest: "(if c1 v then op_ok (Inl (o1 v)) else if c2 then op_ok (Inl (o2 v))
      else place_staged w env (b @ [n]) binary v) d1 = (Ok step, d')"
    using run by (auto simp: op_Ok_iffs)
  have binary: "binary = ?work @ [n]" using stage_local_effect [OF st] n by simp
  have "\<not> prefix ?work (b @ [n])" using dest_apart [of "b @ [n]" b "ev_app env" "ev_os env"] n by simp
  then have "node_at (b @ [n]) d1 = node_at (b @ [n]) d" by (rule keepsD [OF keeps_stage_local st])
  then have "bytes_at (b @ [n]) d1 = Some x" using x bytes_at_cong by metis
  then show ?thesis
    using rest idle place_staged_previous [of w env b n "uw_machine w" v d1 step d' x] n
    by (auto simp: binary op_Ok_iffs step_keeps_previous_def split: if_splits)
qed

lemma download_stage_previous:
  fixes w :: "'v::linorder update_world"
  assumes run: "op_bind (download_verified w env opts token release (work_path (uw_machine w) b (ev_app env))) (\<lambda>binary.
      place_staged w env (b @ [n]) binary v) d = (Ok step, d')"
    and x: "bytes_at (b @ [n]) d = Some x" and n: "n = binary_file_name (ev_app env) (ev_os env)"
  shows "step_keeps_previous (b @ [n]) x step d'"
proof -
  let ?work = "work_path (uw_machine w) b (ev_app env)"
  obtain binary d1 where st: "download_verified w env opts token release ?work d = (Ok binary, d1)"
    and rest: "place_staged w env (b @ [n]) binary v d1 = (Ok step, d')"
    using run by (auto simp: op_Ok_iffs)
  have binary: "binary = ?work @ [n]" using download_effect [OF st] n by simp
  have "\<not> prefix ?work (b @ [n])" using dest_apart [of "b @ [n]" b "ev_app env" "ev_os env"] n by simp
  then have "node_at (b @ [n]) d1 = node_at (b @ [n]) d" by (rule keepsD [OF keeps_download st])
  then have "bytes_at (b @ [n]) d1 = Some x" using x bytes_at_cong by metis
  then show ?thesis by (rule place_staged_previous [OF rest [unfolded binary] _ n])
qed

lemma update_Ok:
  fixes w :: "'v::linorder update_world"
  assumes run: "update w env opts policy req d = (Ok out, d')" and upd: "uo_action out = Updated"
    and rf: "receipt_path env = Some rf" and rec: "bytes_at rf d = Some bs" "cd_from_slice (uw_codec w) bs = Ok rc"
    and shape: "rc_binary_path rc = rc_bin_dir rc @ [n]" "n = binary_file_name (ev_app env) (ev_os env)"
    and apart: "kept_apart (rc_bin_dir rc) rf" and x: "bytes_at (rc_binary_path rc) d = Some x"
  shows "bytes_at (prev_path (rc_binary_path rc)) d' = Some x \<and>
     (\<exists>rc' current. stored_receipt (uw_codec w) rf rc' d' \<and> rc_bin_dir rc' = rc_bin_dir rc \<and> rc_binary_path rc' = rc_binary_path rc \<and>
        parse_running_version (uw_semver w) env = Ok current \<and> rc_previous_version rc' = Some (sv_show (uw_semver w) current))"
proof -
  let ?m = "uw_machine w" and ?b = "rc_bin_dir rc" and ?sv = "uw_semver w"
  obtain rf' rc' d1 where man: "managed_receipt w env d = (Ok (rf', rc'), d1)"
    using run by (auto simp: update_def Let_def op_Ok_iffs)
  then have same: "rf' = rf" "rc' = rc" and d1: "\<And>q. node_at q d1 = node_at q d"
    using managed_receipt_effect [OF man] rf rec by (auto simp: bytes_at_Some)
  have p: "rf \<noteq> []" "last rf = RECEIPT_FILE" using receipt_path_nonempty [OF rf] by auto
  have body: "bytes_at (?b @ [n @ ''.prev'']) d' = Some x \<and>
     (\<exists>rc'. stored_receipt (uw_codec w) rf rc' d' \<and> rc_bin_dir rc' = ?b \<and> rc_binary_path rc' = rc_binary_path rc \<and>
        rc_previous_version rc' = Some (sv_show ?sv current))"
    if "with_lock ?m ?b (ev_app env) (op_bind (with_work ?m ?b (ev_app env) body)
        (record_update w req rf rc channel current outcome)) d2 = (Ok out, d')" "\<And>q. node_at q d2 = node_at q d"
      "\<And>dd step dd'. body (work_path ?m ?b (ev_app env)) dd = (Ok step, dd') \<Longrightarrow>
         bytes_at (?b @ [n]) dd = Some x \<Longrightarrow> step_keeps_previous (?b @ [n]) x step dd'" for body channel current outcome d2
    by (rule locked_update_Ok [OF that(1) upd shape(2) apart p _ that(3)])
      (use x shape(1) bytes_at_cong [OF that(2)] in auto)
  show ?thesis
  proof (cases "ur_from req")
    case (Some arg)
    then obtain channel current outcome where cur: "parse_running_version ?sv env = Ok current"
      and lk: "with_lock ?m ?b (ev_app env) (op_bind (with_work ?m ?b (ev_app env) (\<lambda>work.
         op_bind (stage_local_archive w env opts arg work) (\<lambda>(binary, version).
         op_bind (op_lift (check_minimum ?sv policy version)) (\<lambda>_.
         if version = current \<and> \<not> ur_force req then op_ok (Inl (outcome UpToDate version None []))
         else if ur_check req then op_ok (Inl (outcome Available version None []))
         else place_staged w env (?b @ [n]) binary version))))
         (record_update w req rf rc channel current outcome)) d1 = (Ok out, d')"
      and act: "\<And>a t p ns. uo_action (outcome a t p ns) = a"
      using run man same shape(1) by (auto simp: update_def Let_def op_Ok_iffs split: if_splits)
    show ?thesis
      using body [OF lk d1 local_stage_previous [OF _ _ shape(2)]] cur act shape(1) by auto
  next
    case None
    then obtain channel current outcome token release d2 where cur: "parse_running_version ?sv env = Ok current"
      and res: "resolve_release w env opts policy channel d1 = (Ok (token, release), d2)"
      and lk: "with_lock ?m ?b (ev_app env) (op_bind (with_work ?m ?b (ev_app env) (\<lambda>work.
         op_bind (download_verified w env opts token release work) (\<lambda>binary.
         place_staged w env (?b @ [n]) binary (rr_version release))))
         (record_update w req rf rc channel current outcome)) d2 = (Ok out, d')"
      using run man same shape(1) upd by (auto simp: update_def Let_def op_Ok_iffs split: if_splits)
    have "\<And>q. node_at q d2 = node_at q d" using keepsD [OF keeps_resolve_release res] d1 by simp
    then show ?thesis
      using body [OF lk _ download_stage_previous [OF _ _ shape(2)]] cur shape(1) by auto
  qed
qed

end
