(* ===== verification/Update_Requests.thy ===== *)
theory Update_Requests
  imports Update_Safety
begin

text \<open>
  What \<open>self update\<close> sends over the network. \<open>asks P m\<close> says that every request the operation makes,
  on every way through it, satisfies \<open>P\<close>; it goes through the combinators like \<open>keeps\<close>.
\<close>

named_theorems ask_rules \<open>operations whose requests are under control\<close>

definition asks :: "(http_request \<Rightarrow> bool) \<Rightarrow> ('e, 'a) op \<Rightarrow> bool" where
  "asks P m \<longleftrightarrow> (\<forall>d. \<exists>rs. dk_requests (snd (m d)) = dk_requests d @ rs \<and> list_all P rs)"

lemma asksI: "(\<And>d r d'. m d = (r, d') \<Longrightarrow> \<exists>rs. dk_requests d' = dk_requests d @ rs \<and> list_all P rs) \<Longrightarrow> asks P m"
  by (metis asks_def prod.collapse)

lemma asksD: "asks P m \<Longrightarrow> m d = (r, d') \<Longrightarrow> \<exists>rs. dk_requests d' = dk_requests d @ rs \<and> list_all P rs"
  by (metis asks_def snd_conv)

lemma asks_none: "(\<And>d. dk_requests (snd (m d)) = dk_requests d) \<Longrightarrow> asks P m"
  by (simp add: asks_def)

lemma asks_trans:
  assumes "asks P m" "m d = (r, d1)" "\<exists>rs. dk_requests d2 = dk_requests d1 @ rs \<and> list_all P rs"
  shows "\<exists>rs. dk_requests d2 = dk_requests d @ rs \<and> list_all P rs"
  using asksD [OF assms(1,2)] assms(3) by (metis append.assoc list_all_append)

lemma asks_lift [ask_rules]: "asks P (op_lift r)"
  by (rule asks_none) (simp add: op_lift_def)

lemma asks_get [ask_rules]: "asks P (op_get f)"
  by (rule asks_none) (simp add: op_get_def)

lemma asks_bind [ask_rules]:
  assumes m: "asks P m" and f: "\<And>x. asks P (f x)" shows "asks P (op_bind m f)"
proof (rule asksI)
  fix d r d'
  assume "op_bind m f d = (r, d')"
  then show "\<exists>rs. dk_requests d' = dk_requests d @ rs \<and> list_all P rs"
    by (cases rule: op_bind_cases) (auto dest: asksD [OF m] intro: asks_trans [OF m] asksD [OF f])
qed

lemma asks_map_err [ask_rules]: "asks P m \<Longrightarrow> asks P (op_map_err g m)"
  by (simp add: asks_def op_map_err_def split_beta)

lemma asks_result [ask_rules]: "asks P m \<Longrightarrow> asks P (op_result m)"
  by (simp add: asks_def op_result_def split_beta)

lemma asks_ignore [ask_rules]: "asks P m \<Longrightarrow> asks P (op_ignore m)"
  by (simp add: asks_def op_ignore_def split_beta)

lemma asks_finally [ask_rules]:
  assumes m: "asks P m" and h: "asks P h" shows "asks P (op_finally m h)"
proof (rule asksI)
  fix d r d'
  assume "op_finally m h d = (r, d')"
  then obtain d1 where "m d = (r, d1)" "d' = snd (h d1)" by (auto simp: op_finally_def split: prod.splits)
  then show "\<exists>rs. dk_requests d' = dk_requests d @ rs \<and> list_all P rs"
    using asks_trans [OF m] h by (metis asks_def)
qed

lemma asks_on_err [ask_rules]:
  assumes m: "asks P m" and h: "asks P h" shows "asks P (op_on_err m h)"
proof (rule asksI)
  fix d r d'
  assume run: "op_on_err m h d = (r, d')"
  obtain r1 d1 where m1: "m d = (r1, d1)" by fastforce
  have "d' = d1 \<or> d' = snd (h d1)" using run m1 by (auto simp: op_on_err_def split: sum.splits)
  then show "\<exists>rs. dk_requests d' = dk_requests d @ rs \<and> list_all P rs"
    using asks_trans [OF m m1] asksD [OF m m1] h by (metis asks_def)
qed

lemma asks_if [ask_rules]: "(c \<Longrightarrow> asks P m) \<Longrightarrow> (\<not> c \<Longrightarrow> asks P n) \<Longrightarrow> asks P (if c then m else n)"
  by simp

lemma asks_option [ask_rules]:
  "(x = None \<Longrightarrow> asks P m) \<Longrightarrow> (\<And>y. x = Some y \<Longrightarrow> asks P (f y)) \<Longrightarrow> asks P (case x of None \<Rightarrow> m | Some y \<Rightarrow> f y)"
  by (simp split: option.splits)

lemma asks_sum [ask_rules]:
  "(\<And>e. x = Err e \<Longrightarrow> asks P (g e)) \<Longrightarrow> (\<And>y. x = Ok y \<Longrightarrow> asks P (f y)) \<Longrightarrow> asks P (case x of Inl e \<Rightarrow> g e | Inr y \<Rightarrow> f y)"
  by (simp split: sum.splits)

lemma asks_prod [ask_rules]: "(\<And>a b. x = (a, b) \<Longrightarrow> asks P (f a b)) \<Longrightarrow> asks P (case x of (a, b) \<Rightarrow> f a b)"
  by (simp split: prod.splits)

section \<open>Operations that send nothing\<close>

lemma requests_nodes [simp]:
  "dk_requests (set_node p n d) = dk_requests d" "dk_requests (del_node p d) = dk_requests d"
  "dk_requests (del_tree p d) = dk_requests d" "dk_requests (move_tree a b d) = dk_requests d"
  by (simp_all add: set_node_def del_node_def del_tree_def move_tree_def)

lemma requests_make_dirs [simp]: "dk_requests (make_dirs p d) = dk_requests d"
proof -
  have "dk_requests (fold (\<lambda>q d. if node_at q d = None then set_node q DirNode d else d) qs d) = dk_requests d" for qs
    by (induction qs arbitrary: d) auto
  then show ?thesis by (simp add: make_dirs_def)
qed

lemma requests_half_written [simp]: "dk_requests (half_written m p part d) = dk_requests d"
  by (simp add: half_written_def split: option.splits)

lemma syscall_asks:
  "(\<And>part d. dk_requests (broken part d) = dk_requests d) \<Longrightarrow> (\<And>d. dk_requests (snd (f d)) = dk_requests d) \<Longrightarrow>
   asks P (syscall m broken f)"
  by (rule asks_none) (auto simp: syscall_def Let_def split: option.splits fault.splits)

lemma asks_calls [ask_rules]:
  "asks P (fs_remove_file m p)" "asks P (fs_remove_dir m p)" "asks P (fs_remove_dir_all m p)"
  "asks P (fs_create_dir_all m p)" "asks P (fs_rename m p q)" "asks P (fs_copy m p q)" "asks P (fs_write m p bs)"
  "asks P (fs_create_new m p)" "asks P (fs_set_exec m p b)" "asks P (fs_read m p)" "asks P (fs_modified m p)"
  "asks P (fs_read_dir m p)"
  by (unfold syscall_defs; rule syscall_asks; auto split: option.splits node.splits)+

lemma asks_lock [ask_rules]: "asks P (lock_attempts m p n)"
proof (induction n)
  case 0
  show ?case by (auto intro: ask_rules)
next
  case (Suc n)
  then show ?case unfolding lock_attempts.simps lock_is_stale_def by (intro ask_rules Suc.IH)
qed

lemma asks_place [ask_rules]: "asks P (place_binary m src dest mode sys)"
  unfolding place_binary_def swap_in_def park_old_def stage_binary_def make_executable_def clear_download_marks_def Let_def
  by (cases mode) (auto intro!: ask_rules)

lemma asks_receipt [ask_rules]: "asks P (receipt_load m cd p)" "asks P (receipt_save m cd rc p)" "asks P (now_rfc3339 m)"
  unfolding receipt_load_def receipt_save_def now_rfc3339_def by (intro ask_rules)+

lemma asks_with_lock [ask_rules]: "asks P body \<Longrightarrow> asks P (with_lock m b app body)"
  unfolding with_lock_def lock_acquire_def by (intro ask_rules)

lemma asks_with_work [ask_rules]: "(\<And>p. asks P (body p)) \<Longrightarrow> asks P (with_work m b app body)"
  unfolding with_work_def work_create_def Let_def by (intro ask_rules)

lemma asks_managed [ask_rules]: "asks P (managed_receipt w env)"
  unfolding managed_receipt_def Let_def by (intro ask_rules)

lemma asks_archive [ask_rules]: "asks P (verify_checksum m tools archive asset listing)"
  "asks P (extract_binary m tools sys archive binary dir)"
  unfolding verify_checksum_def sha256_file_def extract_binary_def extract_tar_gz_def extract_zip_def write_out_def
    make_executable_def Let_def
  by (intro ask_rules)+

lemma asks_staging [ask_rules]: "asks P (stage_local_archive w env opts arg work)" "asks P (place_staged w env dest staged v)"
  "asks P (record_update w req rf rc channel current outcome step)"
  unfolding stage_local_archive_def place_staged_def keep_previous_def set_not_executable_def record_update_def
    read_text_def probe_staged_def Let_def
  by (intro ask_rules)+

section \<open>Operations that do\<close>

text \<open>A request is plain HTTP only to this machine, and carries nothing but the token, where there is one.\<close>

definition request_ok :: "string option \<Rightarrow> http_request \<Rightarrow> bool" where
  "request_ok token req \<longleftrightarrow> check_https (rq_url req) \<and> (rq_bearer req = None \<or> rq_bearer req = token)"

lemma asks_http_get [ask_rules]: "asks (request_ok token) (http_get nw token url accept auth)"
  unfolding http_get_def by (intro ask_rules) (auto simp: asks_def Let_def request_ok_def)

lemma asks_get_json [ask_rules]: "asks (request_ok token) (get_json nw token decode url auth)"
  unfolding get_json_def by (intro ask_rules)

lemma asks_download [ask_rules]: "asks (request_ok token) (fetcher_download m nw token url api dest)"
  unfolding fetcher_download_def by (auto intro!: ask_rules split: http_body.splits)

lemma asks_optional [ask_rules]: "asks (request_ok token) (fetch_optional_text nw token url api)"
  unfolding fetch_optional_text_def
  by (auto intro!: ask_rules split: http_body.splits release_error.splits sum.splits)

lemma asks_resolve [ask_rules]: "asks (request_ok token) (fetcher_resolve sv nw token source tag_prefix asset_for channel)"
  unfolding fetcher_resolve_def github_pick_def Let_def
  by (auto intro!: ask_rules split: release_source.splits channel.splits release_error.splits sum.splits option.splits)

lemma asks_download_verified [ask_rules]: "asks (request_ok token) (download_verified w env opts token release work)"
  unfolding download_verified_def read_text_def probe_staged_def Let_def by (intro ask_rules)

lemma asks_bind_on:
  assumes m: "asks P m" and f: "\<And>d x d1. m d = (Ok x, d1) \<Longrightarrow> asks P (f x)" shows "asks P (op_bind m f)"
proof (rule asksI)
  fix d r d'
  assume "op_bind m f d = (r, d')"
  then show "\<exists>rs. dk_requests d' = dk_requests d @ rs \<and> list_all P rs"
  proof (cases rule: op_bind_cases)
    case (err e)
    then show ?thesis using asksD [OF m] by blast
  next
    case (ok x d1)
    then show ?thesis using asks_trans [OF m ok(1)] asksD [OF f [OF ok(1)] ok(2)] by blast
  qed
qed

lemma asks_check: "(\<And>x. r = Ok x \<Longrightarrow> asks P (f x)) \<Longrightarrow> asks P (op_bind (op_lift r) f)"
  by (cases r) (auto simp: asks_def op_bind_def op_lift_def)

text \<open>The token of a run: none unless the source in force is GitHub.\<close>

definition update_token :: "install_env \<Rightarrow> self_install_options \<Rightarrow> 'v self_update_policy \<Rightarrow> string option" where
  "update_token env opts policy =
     (case (effective_source env opts policy :: 'v self_install_error + release_source) of
        Ok source \<Rightarrow> github_token env source | Err _ \<Rightarrow> None)"

lemma asks_resolve_release [ask_rules]:
  "asks (request_ok (update_token env opts policy)) (resolve_release w env opts policy channel)"
  unfolding resolve_release_def
  by (rule asks_check) (auto simp: Let_def update_token_def intro!: ask_rules)

lemma resolve_release_token:
  "resolve_release w env opts policy channel d = (Ok (token, release), d') \<Longrightarrow> token = update_token env opts policy"
  by (auto simp: resolve_release_def Let_def op_Ok_iffs update_token_def)

lemma asks_update: "asks (request_ok (update_token env opts policy)) (update w env opts policy req)"
proof -
  have "asks (request_ok (update_token env opts policy)) (op_bind (resolve_release w env opts policy channel) (\<lambda>(token, release).
      if c1 release then op_ok (o1 release) else if c2 release then op_err (e2 release)
      else op_bind (op_lift (check_minimum (uw_semver w) policy (rr_version release))) (\<lambda>_.
        if c3 then op_ok (o3 release)
        else with_lock (uw_machine w) b (ev_app env) (op_bind (with_work (uw_machine w) b (ev_app env) (\<lambda>work.
          op_bind (download_verified w env opts token release work) (\<lambda>binary.
          place_staged w env dest binary (rr_version release)))) fin))))"
    if "\<And>x. asks (request_ok (update_token env opts policy)) (fin x)" for channel c1 o1 c2 e2 c3 o3 b dest fin
    by (rule asks_bind_on) (auto intro!: ask_rules that dest!: resolve_release_token)
  note online = this
  show ?thesis
    unfolding update_def Let_def
    by (rule asks_bind, rule ask_rules, rule asks_prod, intro asks_if asks_lift asks_bind asks_option online ask_rules)
qed

lemma asks_update_local:
  assumes "ur_from req = Some arg" shows "asks (\<lambda>_. False) (update w env opts policy req)"
  unfolding update_def Let_def assms option.case
  by (intro ask_rules)

end
