(* ===== verification/Update_Properties.thy ===== *)
theory Update_Properties
  imports Update_Requests
begin

text \<open>
  The properties of \<open>self update\<close> and \<open>self rollback\<close>, and a small machine on which both run: a
  receipt, an installed binary, and a signed release archive in a directory beside them.
\<close>

section \<open>A machine\<close>

definition demo_machine :: machine where
  "demo_machine = \<lparr>mc_fault = (\<lambda>_. None), mc_now = (\<lambda>_. 0), mc_pid = 7, mc_real = (\<lambda>p. p), mc_cwd = None\<rparr>"

definition demo_env :: install_env where
  "demo_env = \<lparr>ev_app = ''a'', ev_version = ''1'', ev_os = Linux, ev_home = None, ev_vars = [], ev_current_exe = [''b'', ''a''],
     ev_stdout_is_terminal = False, ev_is_root = False, ev_state_root = Some [''s''], ev_config_root = None, ev_data_root = None,
     ev_user_path_key = [], ev_uninstall_key_root = [], ev_completion_command = None, ev_self_invocation = ''a self''\<rparr>"

definition demo_options :: self_install_options where
  "demo_options = (options_with_source (HttpMirror ''https://m''))\<lparr>so_public_key := Some ''K''\<rparr>"

definition demo_receipt :: install_receipt where
  "demo_receipt = \<lparr>rc_schema_version = 1, rc_app = ''a'', rc_version = ''1'', rc_target = ''t'', rc_channel = ''stable'', rc_bin_dir = [''b''],
     rc_binary_path = [''b'', ''a''], rc_method = SelfInstall, rc_modified_path = [], rc_completions = [],
     rc_source = receipt_source_of demo_options, rc_installed_at = [], rc_previous_version = None, rc_system = False, rc_apps_and_features = None\<rparr>"

definition demo_receipt2 :: install_receipt where
  "demo_receipt2 = demo_receipt\<lparr>rc_previous_version := Some ''1'', rc_version := ''2'', rc_target := ''x-unknown-linux-gnu'',
     rc_installed_at := ''1970-01-01T00:00:00Z''\<rparr>"

definition demo_receipt3 :: install_receipt where
  "demo_receipt3 = demo_receipt2\<lparr>rc_version := ''1'', rc_previous_version := Some ''2''\<rparr>"

definition demo_codec :: receipt_codec where
  "demo_codec = \<lparr>cd_from_slice = (\<lambda>bs. if bs = ''R'' then Ok demo_receipt else if bs = ''S'' then Ok demo_receipt2
       else if bs = ''T'' then Ok demo_receipt3 else Err []),
     cd_to_vec = (\<lambda>rc. if rc = demo_receipt then Ok ''R'' else if rc = demo_receipt2 then Ok ''S''
       else if rc = demo_receipt3 then Ok ''T'' else Err [])\<rparr>"

definition demo_tools :: archive_tools where
  "demo_tools = \<lparr>at_sha256 = (\<lambda>bs. if bs = ''arc'' then replicate 64 (CHR ''a'') else []), at_key_decode = Err, at_key_from_base64 = Ok,
     at_signature_decode = Ok, at_verify = (\<lambda>k bs sig. if sig = ''sig'' then Ok () else Err []),
     at_tar = (\<lambda>bs. Ok [Ok \<lparr>te_name = ''a'', te_is_file = True, te_data = Ok ''new''\<rparr>]), at_zip = (\<lambda>_. Err []),
     at_spawn = (\<lambda>n _. Exited True [] ''a 2'')\<rparr>"

definition demo_semver :: "nat semver" where
  "demo_semver = \<lparr>sv_parse = (\<lambda>s. if s = ''1'' then Ok 1 else if s = ''2'' then Ok 2 else Err []),
     sv_show = (\<lambda>n. if n = 1 then ''1'' else ''2''), sv_pre_empty = (\<lambda>_. True)\<rparr>"

definition demo_network :: network where
  "demo_network = \<lparr>nw_client = Ok (), nw_http = (\<lambda>_ _. NoAnswer []), nw_releases = (\<lambda>_. Err []), nw_release = (\<lambda>_. Err []), nw_latest = (\<lambda>_. Err [])\<rparr>"

definition demo_world :: "nat update_world" where
  "demo_world = \<lparr>uw_machine = demo_machine, uw_network = demo_network, uw_tools = demo_tools, uw_codec = demo_codec,
     uw_semver = demo_semver, uw_build = \<lparr>bd_arch = ''x'', bd_os = Linux, bd_os_name = [], bd_target_env = []\<rparr>,
     uw_set_version = (\<lambda>_ _. Ok ())\<rparr>"

abbreviation plain_file :: "bytes \<Rightarrow> node" where
  "plain_file bs \<equiv> FileNode \<lparr>fn_bytes = bs, fn_exec = False, fn_mtime = 0\<rparr>"

definition demo_disk :: disk where
  "demo_disk = \<lparr>dk_nodes = [([''s''], DirNode), ([''s'', ''a''], DirNode), ([''s'', ''a'', ''install-receipt.json''], plain_file ''R''),
      ([''b''], DirNode), ([''b'', ''a''], plain_file ''old''), ([''d''], DirNode), ([''d'', ''a.tgz''], plain_file ''arc''),
      ([''d'', ''SHA256SUMS''], plain_file (replicate 64 (CHR ''a'') @ ''  a.tgz'')), ([''d'', ''SHA256SUMS.minisig''], plain_file ''sig'')],
     dk_tick = 0, dk_requests = []\<rparr>"

definition demo_request :: update_request where
  "demo_request = \<lparr>ur_target = None, ur_check = False, ur_from = Some (AbsPath [''d'', ''a.tgz'']), ur_force = False\<rparr>"

definition demo_updated :: "(nat self_install_error + update_outcome) \<times> disk" where
  "demo_updated = update demo_world demo_env demo_options no_update_policy demo_request demo_disk"

definition demo_rolled_back :: "(nat self_install_error + rollback_outcome) \<times> disk" where
  "demo_rolled_back = rollback demo_world demo_env no_update_policy (snd demo_updated)"

definition demo_outcome :: update_outcome where
  "demo_outcome = \<lparr>uo_action = Updated, uo_current = ''1'', uo_target = ''2'', uo_channel = Some ''stable'',
     uo_binary_path = [''b'', ''a''], uo_previous = Some [''b'', ''a.prev''], uo_notes = []\<rparr>"

lemma demo_update_runs: "fst demo_updated = Ok demo_outcome \<and> bytes_at [''b'', ''a''] (snd demo_updated) = Some ''new''"
  by code_simp

lemma demo_rollback_runs: "\<not> isl (fst demo_rolled_back)"
  by code_simp

lemma demo_places:
  "receipt_path demo_env = Some [''s'', ''a'', ''install-receipt.json'']"
  "node_at [''s'', ''a'', ''install-receipt.json''] demo_disk = Some (plain_file ''R'')"
  "cd_from_slice (uw_codec demo_world) ''R'' = Ok demo_receipt"
  "rc_binary_path demo_receipt = rc_bin_dir demo_receipt @ [binary_file_name (ev_app demo_env) (ev_os demo_env)]"
  "kept_apart (rc_bin_dir demo_receipt) [''s'', ''a'', ''install-receipt.json'']"
  "node_at (rc_binary_path demo_receipt) demo_disk = Some (plain_file ''old'')"
  by code_simp+

lemma demo_codec_faithful: "cd_to_vec demo_codec rc = Ok bs \<Longrightarrow> cd_from_slice demo_codec bs = Ok rc"
  by (auto simp: demo_codec_def split: if_splits)

lemma demo_paths_differ: "\<not> same_path (uw_machine demo_world) d [''b'', ''a.prev''] [''b'', ''a''] (ev_os demo_env)"
  by (simp add: same_path_def canonical_def demo_world_def demo_machine_def demo_env_def is_windows_def)

section \<open>Properties\<close>






definition demo_online :: "(nat self_install_error + update_outcome) \<times> disk" where
  "demo_online = update demo_world demo_env demo_options no_update_policy (demo_request\<lparr>ur_from := None\<rparr>) demo_disk"


section \<open>Where the code falls short\<close>

text \<open>With the stable channel enforced, an archive given on the command line may still hold a prerelease.\<close>

definition prerelease_world :: "nat update_world" where
  "prerelease_world = demo_world\<lparr>uw_semver := demo_semver\<lparr>sv_pre_empty := (\<lambda>v. v = 1)\<rparr>\<rparr>"

lemma stable_channel_bypassed:
  "fst (update prerelease_world demo_env demo_options (no_update_policy\<lparr>up_channel := Some ''stable''\<rparr>) demo_request demo_disk) = Ok demo_outcome \<and>
   \<not> sv_pre_empty (uw_semver prerelease_world) 2"
  by code_simp

text \<open>A rollback to a version the receipt does not name skips the minimum version of the policy.\<close>

lemma rollback_skips_minimum:
  assumes "managed_receipt w env d = (Ok (rf, rc), d1)" "rc_previous_version rc = None" "isl (sv_parse (uw_semver w) ''unknown'')"
  shows "rollback w env policy d = rollback w env (policy\<lparr>up_minimum_version := None\<rparr>) d"
  using assms by (cases "sv_parse (uw_semver w) ''unknown''") (simp_all add: rollback_def Let_def op_bind_def op_get_def allows_update_def)

end
