(* ===== verification/Install_Properties.thy ===== *)
theory Install_Properties
  imports Install_Ops Update_Properties
begin

text \<open>
  What \<open>self install\<close> and \<open>self uninstall\<close> do to the disk, for every machine and every failing call,
  and a small machine on which the statements apply.
\<close>

section \<open>Uninstalling only removes\<close>

definition only_removes :: "('e, 'a) op \<Rightarrow> bool" where
  "only_removes f \<longleftrightarrow> (\<forall>q d. node_at q (snd (f d)) = node_at q d \<or> node_at q (snd (f d)) = None)"

named_theorems remove_rules \<open>operations that only remove\<close>

lemma only_removesD: "only_removes f \<Longrightarrow> f d = (r, d') \<Longrightarrow> node_at q d' = node_at q d \<or> node_at q d' = None"
  unfolding only_removes_def by (metis snd_conv)

lemma only_removesI: "(\<And>q d r d'. f d = (r, d') \<Longrightarrow> node_at q d' = node_at q d \<or> node_at q d' = None) \<Longrightarrow> only_removes f"
  unfolding only_removes_def by (metis prod.collapse)

lemma only_removes_keeps: "(\<And>q. keeps q f) \<Longrightarrow> only_removes f"
  by (simp add: only_removes_def keeps_def)

lemma removes_plain [remove_rules]: "only_removes (op_lift r)" "only_removes (op_get h)"
  by (rule only_removes_keeps, rule keep_rules)+

lemma removes_bind [remove_rules]: "only_removes f \<Longrightarrow> (\<And>x. only_removes (g x)) \<Longrightarrow> only_removes (op_bind f g)"
  by (rule only_removesI, erule op_bind_cases) (metis only_removesD)+

lemma removes_wrap [remove_rules]:
  "only_removes f \<Longrightarrow> only_removes (op_map_err g f)" "only_removes f \<Longrightarrow> only_removes (op_result f)"
  "only_removes f \<Longrightarrow> only_removes (op_ignore f)"
  by (simp_all add: only_removes_def op_map_err_def op_result_def op_ignore_def split_beta)

lemma removes_if [remove_rules]: "(c \<Longrightarrow> only_removes f) \<Longrightarrow> (\<not> c \<Longrightarrow> only_removes g) \<Longrightarrow> only_removes (if c then f else g)"
  by simp

lemma removes_sum [remove_rules]:
  "(\<And>e. only_removes (g e)) \<Longrightarrow> (\<And>y. only_removes (f y)) \<Longrightarrow> only_removes (case x of Inl e \<Rightarrow> g e | Inr y \<Rightarrow> f y)"
  by (simp split: sum.splits)

lemma removes_fold: "(\<And>x s. only_removes (f x s)) \<Longrightarrow> only_removes (op_fold f xs s)"
  by (induction xs arbitrary: s) (auto intro!: removes_bind removes_plain)

lemma removes_calls [remove_rules]:
  "only_removes (fs_remove_file m p)" "only_removes (fs_remove_dir m p)" "only_removes (fs_remove_dir_all m p)"
  by (auto simp: only_removes_def syscall_defs syscall_def Let_def split: option.splits fault.splits node.splits)

lemma removes_remove_if_exists [remove_rules]: "only_removes (remove_if_exists m p)"
  unfolding remove_if_exists_def by (intro remove_rules)

lemma removes_steps [remove_rules]:
  "only_removes (remove_listed m p out)" "only_removes (remove_stale m p out)" "only_removes (purge_root m p out)"
  unfolding remove_listed_def remove_stale_def purge_root_def by (intro remove_rules)+

lemma keeps_stale_files [keep_rules]: "keeps q (stale_files m dir app sys)"
  unfolding stale_files_def by (intro keep_rules)

lemma keeps_other_executables [keep_rules]: "keeps q (other_executables m dir ours)"
  unfolding other_executables_def by (intro keep_rules)

lemma removes_undo [remove_rules]: "only_removes (undo_modification m env c out)"
  unfolding undo_modification_def Let_def
  by (cases c; simp; intro remove_rules only_removes_keeps [OF keeps_other_executables])

lemma removes_leftovers: "only_removes (remove_leftovers m env dir out)"
  unfolding remove_leftovers_def by (intro remove_rules removes_fold only_removes_keeps [OF keeps_stale_files])

lemma removes_receipt_and_binary:
  "only_removes self_delete \<Longrightarrow> only_removes (remove_receipt_and_binary m self_delete env rf roots binary out)"
  unfolding remove_receipt_and_binary_def remove_binary_def by (intro remove_rules removes_fold)

lemma removes_recorded:
  assumes "only_removes self_delete"
  shows "only_removes (uninstall_recorded m self_delete env rf roots rc)"
  unfolding uninstall_recorded_def
  by (intro remove_rules removes_fold removes_leftovers removes_receipt_and_binary assms)

section \<open>What uninstalling leaves alone\<close>

definition uninstall_touches :: "install_env \<Rightarrow> path \<Rightarrow> path list \<Rightarrow> install_receipt \<Rightarrow> path \<Rightarrow> bool" where
  "uninstall_touches env rf roots rc q \<longleftrightarrow>
     q \<in> set (rc_completions rc) \<or> FishConf q \<in> set (rc_modified_path rc) \<or>
     q = rc_binary_path rc \<or> q = prev_path (rc_binary_path rc) \<or> q = ev_current_exe env \<or>
     q = rf \<or> q = butlast rf \<or>
     q \<noteq> [] \<and> butlast q = rc_bin_dir rc \<and> stale_name (ev_app env) (ev_os env) (last q) \<or>
     (\<exists>r\<in>set roots. prefix r q)"

lemma keeps_fold: "(\<And>x s. x \<in> set xs \<Longrightarrow> keeps q (f x s)) \<Longrightarrow> keeps q (op_fold f xs s)"
  by (induction xs arbitrary: s) (auto intro!: keep_rules)

lemma keeps_remove_if_exists [keep_rules]: "q \<noteq> p \<Longrightarrow> keeps q (remove_if_exists m p)"
  unfolding remove_if_exists_def by (auto intro!: keep_rules)

lemma keeps_steps [keep_rules]:
  "q \<noteq> p \<Longrightarrow> keeps q (remove_listed m p out)" "q \<noteq> p \<Longrightarrow> keeps q (remove_stale m p out)"
  "\<not> prefix p q \<Longrightarrow> keeps q (purge_root m p out)" "FishConf q \<noteq> c \<Longrightarrow> keeps q (undo_modification m env c out)"
  unfolding remove_listed_def remove_stale_def purge_root_def undo_modification_def
  by (auto intro!: keep_rules split: path_modification.splits)

lemma stale_files_named:
  "stale_files m dir app sys d = (Ok ps, d') \<Longrightarrow> p \<in> set ps \<Longrightarrow> p \<noteq> [] \<and> butlast p = dir \<and> stale_name app sys (last p)"
  by (auto simp: stale_files_def op_Ok_iffs op_bind_def op_result_def op_lift_def split: sum.splits prod.splits)

lemma keeps_leftovers:
  assumes "\<not> uninstall_touches env rf roots rc q"
  shows "keeps q (remove_leftovers m env (rc_bin_dir rc) out)"
proof -
  have "keeps q (op_fold (remove_stale m) ps out)" if "stale_files m (rc_bin_dir rc) (ev_app env) (ev_os env) d = (Ok ps, d1)"
    for ps d d1
    using stale_files_named [OF that] assms by (intro keeps_fold keeps_steps) (auto simp: uninstall_touches_def)
  then show ?thesis unfolding remove_leftovers_def by (rule keeps_bind_on [OF keeps_stale_files])
qed

lemma keeps_recorded:
  assumes q: "\<not> uninstall_touches env rf roots rc q" and self: "keeps q self_delete"
  shows "keeps q (uninstall_recorded m self_delete env rf roots rc)"
  unfolding uninstall_recorded_def remove_receipt_and_binary_def remove_binary_def
  by (intro keeps_bind [OF keeps_fold] keeps_bind [OF keeps_steps(1)] keeps_bind [OF keeps_leftovers [OF q]]
      keeps_bind keeps_if keeps_ignore keeps_map_err keeps_lift keeps_get keeps_steps keeps_fold keeps_remove_if_exists keeps_calls self)
     (use q in \<open>auto simp: uninstall_touches_def\<close>)

section \<open>What uninstalling removes\<close>

lemma honest_remove:
  "honest m \<Longrightarrow> remove_if_exists m p d = (Ok b, d') \<Longrightarrow> node_at p d' = None"
proof -
  assume hon: "honest m" and run: "remove_if_exists m p d = (Ok b, d')"
  obtain x d1 where rm: "fs_remove_file m p d = (x, d1)" by fastforce
  then have d': "d' = d1" and x: "x = Ok () \<or> (\<exists>e. x = Err e \<and> ie_kind e = KNotFound)"
    using run by (auto simp: remove_if_exists_def op_bind_def op_result_def op_lift_def split: sum.splits if_splits)
  show ?thesis
    using x rm hon unfolding d'
    by (auto simp: fs_remove_file_def syscall_def Let_def honest_def split: option.splits fault.splits node.splits)
qed

lemma remove_listed_gone: "honest m \<Longrightarrow> remove_listed m p out d = (Ok out', d') \<Longrightarrow> node_at p d' = None"
  by (auto simp: remove_listed_def op_Ok_iffs dest: honest_remove)

lemma fold_gone:
  assumes "op_fold f xs s d = (Ok s', d')" "x \<in> set xs" "\<And>y t. only_removes (f y t)"
    and "\<And>t t' d d'. f x t d = (Ok t', d') \<Longrightarrow> node_at p d' = None"
  shows "node_at p d' = None"
  using assms(1,2)
proof (induction xs arbitrary: s d)
  case (Cons a xs)
  obtain t d1 where step: "f a s d = (Ok t, d1)" and rest: "op_fold f xs t d1 = (Ok s', d')"
    using Cons.prems(1) by (auto simp: op_Ok_iffs)
  show ?case
  proof (cases "x = a")
    case True
    then have "node_at p d1 = None" using assms(4) step by simp
    then show ?thesis using only_removesD [OF removes_fold [OF assms(3)] rest, of p] by auto
  next
    case False
    then show ?thesis using Cons.IH [OF rest] Cons.prems(2) by simp
  qed
qed simp

lemma undo_gone: "honest m \<Longrightarrow> undo_modification m env (FishConf p) t d = (Ok t', d') \<Longrightarrow> node_at p d' = None"
  by (auto simp: undo_modification_def dest: remove_listed_gone)

lemma then_gone: "f d1 = (r, d2) \<Longrightarrow> only_removes f \<Longrightarrow> node_at p d1 = None \<Longrightarrow> node_at p d2 = None"
  using only_removesD [of f d1 r d2 p] by auto

lemma recorded_gone:
  assumes hon: "honest m" and self: "only_removes self_delete"
    and run: "uninstall_recorded m self_delete env rf roots rc d = (Ok out :: 'v self_install_error + uninstall_outcome, d')"
    and p: "p \<in> set (rc_completions rc) \<or> FishConf p \<in> set (rc_modified_path rc) \<or> p = prev_path (rc_binary_path rc) \<or> p = rf"
  shows "node_at p d' = None"
proof -
  obtain i o1 d1 o2 d2 o3 d3 o4 d4 where
    s1: "op_fold (remove_listed m) (rc_completions rc) i d = (Ok o1 :: 'v self_install_error + uninstall_outcome, d1)"
    and s2: "op_fold (undo_modification m env) (rc_modified_path rc) o1 d1 = (Ok o2 :: 'v self_install_error + uninstall_outcome, d2)"
    and s3: "remove_listed m (prev_path (rc_binary_path rc)) o2 d2 = (Ok o3 :: 'v self_install_error + uninstall_outcome, d3)"
    and s4: "remove_leftovers m env (rc_bin_dir rc) (unregister rc o3) d3 = (Ok o4 :: 'v self_install_error + uninstall_outcome, d4)"
    and s5: "remove_receipt_and_binary m self_delete env rf roots (rc_binary_path rc) o4 d4 = (Ok out :: 'v self_install_error + uninstall_outcome, d')"
    using run unfolding uninstall_recorded_def op_Ok_iffs by (elim exE conjE) (rule that, assumption+)
  note t5 = then_gone [OF s5 removes_receipt_and_binary [OF self]] and t4 = then_gone [OF s4 removes_leftovers]
    and t3 = then_gone [OF s3 removes_steps(1)] and t2 = then_gone [OF s2 removes_fold [OF removes_undo]]
  consider "p \<in> set (rc_completions rc)" | "FishConf p \<in> set (rc_modified_path rc)"
    | "p = prev_path (rc_binary_path rc)" | "p = rf" using p by blast
  then show "node_at p d' = None"
  proof cases
    case 1
    have "node_at p d1 = None" by (rule fold_gone [OF s1 1]) (rule removes_steps, rule remove_listed_gone [OF hon])
    then show ?thesis by (intro t5 t4 t3 t2)
  next
    case 2
    have "node_at p d2 = None" by (rule fold_gone [OF s2 2]) (rule removes_undo, rule undo_gone [OF hon])
    then show ?thesis by (intro t5 t4 t3)
  next
    case 3
    show ?thesis unfolding 3 by (intro t5 t4 remove_listed_gone [OF hon s3])
  next
    case 4
    obtain b d5 x d6 y d7 where r: "remove_if_exists m rf d4 = (Ok b :: 'v self_install_error + bool, d5)"
      and s6: "(if rf = [] then op_ok () else op_ignore (fs_remove_dir m (butlast rf))) d5 = (x :: 'v self_install_error + unit, d6)"
      and s7: "op_fold (purge_root m) roots (note_removed (RemovedPath rf) o4) d6 = (Ok y :: 'v self_install_error + uninstall_outcome, d7)"
      and s8: "remove_binary m self_delete env (rc_binary_path rc) y d7 = (Ok out :: 'v self_install_error + uninstall_outcome, d')"
      using s5 unfolding remove_receipt_and_binary_def op_Ok_iffs by (elim exE conjE) (rule that, assumption+)
    have "only_removes (if rf = [] then op_ok () else op_ignore (fs_remove_dir m (butlast rf)) :: ('v self_install_error, unit) op)"
      by (intro remove_rules)
    from only_removesD [OF this s6, of rf] honest_remove [OF hon r] have "node_at rf d6 = None" by simp
    then have "node_at rf d7 = None" by (intro then_gone [OF s7 removes_fold [OF removes_steps(3)]])
    moreover have last: "only_removes (remove_binary m self_delete env (rc_binary_path rc) y)"
      unfolding remove_binary_def by (intro remove_rules self)
    ultimately show ?thesis using only_removesD [OF last s8, of rf] 4 by auto
  qed
qed

lemma remove_binary_gone:
  assumes hon: "honest m" and self: "\<And>d d'. self_delete d = (Ok (), d') \<Longrightarrow> node_at (ev_current_exe env) d' = None"
    and run: "remove_binary m self_delete env (ev_current_exe env) out d = (Ok out', d')"
  shows "node_at (ev_current_exe env) d' = None"
proof (cases "path_exists (ev_current_exe env) d")
  case True
  then show ?thesis using run self by (auto simp: remove_binary_def op_bind_def op_get_def op_Ok_iffs split: prod.splits sum.splits)
next
  case False
  then show ?thesis using run by (auto simp: remove_binary_def op_bind_def op_get_def op_lift_def path_exists_def)
qed

lemma recorded_binary_gone:
  assumes hon: "honest m" and self: "\<And>d d'. self_delete d = (Ok (), d') \<Longrightarrow> node_at (ev_current_exe env) d' = None"
    and run: "uninstall_recorded m self_delete env rf roots rc d = (Ok out :: 'v self_install_error + uninstall_outcome, d')"
    and binary: "rc_binary_path rc = ev_current_exe env"
  shows "node_at (ev_current_exe env) d' = None"
proof -
  obtain o1 d1 where last: "remove_binary m self_delete env (rc_binary_path rc) o1 d1 = (Ok out :: 'v self_install_error + uninstall_outcome, d')"
    using run unfolding uninstall_recorded_def remove_receipt_and_binary_def op_Ok_iffs by (elim exE conjE) (rule that, assumption)
  show ?thesis by (rule remove_binary_gone [OF hon _ last [unfolded binary]]) (rule self)
qed

section \<open>What a purge may remove\<close>

lemma same_path_cong: "(\<And>q. node_at q d' = node_at q d) \<Longrightarrow> same_path m d' = same_path m d"
  by (intro ext) (simp add: same_path_def canonical_def path_exists_def)

lemma purge_roots_cong:
  assumes "\<And>q. node_at q d' = node_at q d"
  shows "guard_purge m d' env = guard_purge m d env" "purge_roots m d' env = purge_roots m d env"
proof -
  note same = same_path_cong [of d' d m, OF assms]
  show "guard_purge m d' env = guard_purge m d env" by (intro ext) (simp only: guard_purge_def same)
  have "guard_purge m d' env = (guard_purge m d env :: path \<Rightarrow> 'b self_install_error + unit)"
    by (intro ext) (simp only: guard_purge_def same)
  then show "purge_roots m d' env = (purge_roots m d env :: 'b self_install_error + path list)"
    unfolding purge_roots_def same by (simp only:)
qed

lemma first_error_Ok: "first_error f xs = Ok () \<Longrightarrow> x \<in> set xs \<Longrightarrow> f x = Ok ()"
  by (induction xs) (auto simp: and_then_def split: sum.splits)

definition purgeable :: "install_env \<Rightarrow> path \<Rightarrow> bool" where
  "purgeable env dir \<longleftrightarrow>
     2 \<le> length dir \<and> last dir = ev_app env \<and> (case ev_home env of Some home \<Rightarrow> \<not> prefix dir home | None \<Rightarrow> True)"

lemma guard_purge_Ok: "guard_purge m d env dir = Ok () \<Longrightarrow> purgeable env dir"
  by (cases dir rule: rev_cases; cases "butlast dir" rule: rev_cases)
     (auto simp: guard_purge_def Let_def purgeable_def split: if_splits option.splits)

lemma purge_roots_Ok: "purge_roots m d env = Ok rs \<Longrightarrow> list_all (purgeable env) rs"
  unfolding purge_roots_def Let_def and_then_def list_all_iff
  by (auto split: sum.splits dest: first_error_Ok guard_purge_Ok)

lemma uninstall_runs:
  assumes rf: "receipt_path env = Some rf" "node_at rf d = Some (FileNode fr)" "cd_from_slice cd (fn_bytes fr) = Ok rc"
    and hon: "honest m" and run: "uninstall m cd self_delete env purge d = (r :: 'v self_install_error + uninstall_outcome, d')"
  obtains (stopped) "isl r" "\<forall>q. node_at q d' = node_at q d"
  | (ran) roots d1 where "\<forall>q. node_at q d1 = node_at q d"
      "(if purge then purge_roots m d env else Ok []) = (Ok roots :: 'v self_install_error + path list)"
      "uninstall_recorded m self_delete env rf roots rc d1 = (r, d')"
proof -
  obtain x d1 where ld: "op_map_err ReceiptFailed (receipt_load m cd rf) d = (x :: 'v self_install_error + _, d1)" by fastforce
  have same: "node_at q d1 = node_at q d" for q
    using keepsD [OF keeps_map_err [OF keeps_receipt_load] ld] .
  show ?thesis
  proof (cases x)
    case (Inl e)
    then have "r = Err e" "d' = d1" using run rf(1) ld by (auto simp: uninstall_def op_bind_def)
    then show ?thesis using stopped same by simp
  next
    case (Inr found)
    then have "receipt_load m cd rf d = (Ok found, d1)" using ld by (simp add: op_Ok_iffs)
    then have found: "found = Some rc"
      using rf(2,3) hon
      by (auto simp: receipt_load_def op_bind_def op_result_def op_lift_def fs_read_def syscall_def Let_def honest_def
          split: sum.splits option.splits fault.splits if_splits)
    have roots: "purge_roots m d1 env = (purge_roots m d env :: 'v self_install_error + path list)"
      by (rule purge_roots_cong(2) [OF same])
    have *: "(case (if purge then purge_roots m d env else Ok [] :: 'v self_install_error + path list) of
        Inl e \<Rightarrow> r = Err e \<and> d' = d1
      | Inr roots \<Rightarrow> uninstall_recorded m self_delete env rf roots rc d1 = (r, d'))"
      using run rf(1) ld Inr found roots
      by (auto simp: uninstall_def op_bind_def op_get_def op_lift_def split: sum.splits)
    show ?thesis
    proof (cases "if purge then purge_roots m d env else Ok [] :: 'v self_install_error + path list")
      case (Inl e)
      then show ?thesis using * stopped same by simp
    next
      case (Inr roots)
      then show ?thesis using * ran [of d1 roots] same by simp
    qed
  qed
qed

section \<open>What installing records\<close>

lemma set_push_new: "set (push_new xs ys) = set xs \<union> set ys"
proof -
  have "set (foldl (\<lambda>acc y. if y \<in> set acc then acc else acc @ [y]) xs ys) = set xs \<union> set ys" for xs :: "'a list"
    by (induction ys arbitrary: xs) auto
  then show ?thesis by (simp add: push_new_def)
qed

text \<open>The receipt that a successful install leaves, and its report.\<close>

definition describes_install :: "install_receipt \<Rightarrow> path \<Rightarrow> path \<Rightarrow> install_outcome \<Rightarrow> bool" where
  "describes_install rc bin_dir dest out \<longleftrightarrow>
     rc_schema_version rc = RECEIPT_SCHEMA_VERSION \<and> rc_bin_dir rc = bin_dir \<and> rc_binary_path rc = dest \<and>
     rc_version rc = it_version out \<and> \<not> is_package_manager (rc_method rc) \<and>
     set (it_path_modifications out) \<subseteq> set (rc_modified_path rc) \<and> set (it_completions out) \<subseteq> set (rc_completions rc)"

lemma record_install_effect:
  assumes run: "record_install w run_binary env opts req bin_dir dest (Some rf) previous mode (placed, version) d = (Ok out, d')"
    and rf: "rf \<noteq> []" "last rf = RECEIPT_FILE"
  shows "it_binary_path out = dest \<and> it_receipt_path out = Some rf \<and> it_version out = version \<and>
     (\<exists>rc f. node_at rf d' = Some (FileNode f) \<and> cd_to_vec (uw_codec w) rc = Ok (fn_bytes f) \<and> describes_install rc bin_dir dest out)"
proof -
  obtain key kn where k: "(if is_windows (ev_os env) \<and> so_apps_and_features opts \<and> \<not> iq_system req
      then register_apps_and_features env else (None, [])) = (key, kn)" by fastforce
  obtain rc d1 where save: "receipt_save (uw_machine w) (uw_codec w) rc rf d1 = (Ok (), d')"
    and out: "it_binary_path out = dest" "it_receipt_path out = Some rf" "it_version out = version"
      "describes_install rc bin_dir dest out"
    using run
    by (auto simp: record_install_def Let_def op_Ok_iffs k describes_install_def install_receipt_of_def set_push_new
        is_package_manager_def)
  then show ?thesis using receipt_save_effect [OF save rf] by blast
qed

lemma locked_run_Ok:
  assumes "with_lock m bin_dir app body d = (Ok x, d')"
  obtains d1 d2 where "body d1 = (Ok x, d2)" "\<And>q. q \<noteq> lock_path bin_dir app \<Longrightarrow> node_at q d' = node_at q d2"
proof -
  obtain u d1 where "op_finally body (fs_remove_file m (lock_path bin_dir app)) d1 = (Ok x, d')"
    using assms unfolding with_lock_def op_Ok_iffs by blast
  then obtain d2 where b: "body d1 = (Ok x, d2)" "d' = snd (fs_remove_file m (lock_path bin_dir app) d2)"
    by (auto simp: op_finally_def split: prod.splits)
  then have "node_at q d' = node_at q d2" if "q \<noteq> lock_path bin_dir app" for q
    using keeps_calls(1) [OF that] unfolding keeps_def by simp
  then show ?thesis using that b(1) by blast
qed

lemma install_Ok:
  fixes w :: "'v update_world"
  assumes "install w run_binary env opts req d = (Ok out, d')"
  obtains bin_dir receipt_file previous d1 where
    "chosen_bin_dir (uw_machine w) env req = (Ok bin_dir :: 'v self_install_error + path)"
    "receipt_file = (if iq_unmanaged req then None else receipt_path env)" "iq_unmanaged req \<or> receipt_path env \<noteq> None"
    "install_binary w run_binary env opts req bin_dir (bin_dir @ [binary_file_name (ev_app env) (ev_os env)])
       receipt_file previous d1 = (Ok out, d')"
  using assms
  by (auto simp: install_def Let_def op_Ok_iffs split: if_splits option.splits)

theorem install_leaves_receipt:
  fixes w :: "'v update_world"
  assumes run: "install w run_binary env opts req d = (Ok out, d')" and managed: "\<not> iq_unmanaged req"
  shows "\<exists>bin_dir rf rc f. chosen_bin_dir (uw_machine w) env req = (Ok bin_dir :: 'v self_install_error + path) \<and>
     receipt_path env = Some rf \<and> it_receipt_path out = Some rf \<and>
     it_binary_path out = bin_dir @ [binary_file_name (ev_app env) (ev_os env)] \<and>
     node_at rf d' = Some (FileNode f) \<and> cd_to_vec (uw_codec w) rc = Ok (fn_bytes f) \<and>
     describes_install rc bin_dir (it_binary_path out) out"
proof -
  obtain bin_dir previous d1 where dir: "chosen_bin_dir (uw_machine w) env req = (Ok bin_dir :: 'v self_install_error + path)"
    and rp: "receipt_path env \<noteq> None" and ib: "install_binary w run_binary env opts req bin_dir
       (bin_dir @ [binary_file_name (ev_app env) (ev_os env)]) (receipt_path env) previous d1 = (Ok out, d')"
    using install_Ok [OF run] managed by metis
  let ?dest = "bin_dir @ [binary_file_name (ev_app env) (ev_os env)]"
  obtain rf where rf: "receipt_path env = Some rf" using rp by blast
  then have named: "rf \<noteq> []" "last rf = RECEIPT_FILE" using receipt_path_nonempty by blast+
  have lock: "rf \<noteq> lock_path bin_dir (ev_app env)"
    using named(2) by (auto simp: lock_path_def RECEIPT_FILE_def)
  obtain mode placed version d2 d3 where
    "record_install w run_binary env opts req bin_dir ?dest (Some rf) previous mode (placed, version) d2 = (Ok out, d3)"
    and "node_at rf d' = node_at rf d3"
  proof (cases "iq_from req")
    case None
    then show ?thesis using that ib rf by (auto simp: install_binary_def Let_def op_Ok_iffs)
  next
    case (Some archive)
    then show ?thesis
      using that ib rf lock
      by (auto simp: install_binary_def Let_def op_Ok_iffs elim!: locked_run_Ok)
  qed
  with record_install_effect [OF _ named] show ?thesis using dir rf by metis
qed

section \<open>Binaries of others\<close>

lemma previous_receipt_effect:
  assumes "previous_receipt m cd force receipt_file d = (Ok previous, d')"
  shows "(\<forall>q. node_at q d' = node_at q d) \<and>
    (\<forall>rc. previous = Some rc \<longrightarrow> (\<exists>p f. receipt_file = Some p \<and> node_at p d = Some (FileNode f) \<and> cd_from_slice cd (fn_bytes f) = Ok rc))"
proof (cases receipt_file)
  case None
  then show ?thesis using assms by (auto simp: previous_receipt_def op_lift_def)
next
  case (Some p)
  obtain x d1 where ld: "receipt_load m cd p d = (x, d1)" by fastforce
  have d': "d' = d1" and prev: "previous = None \<or> x = Ok previous"
    using assms Some ld by (auto simp: previous_receipt_def op_bind_def op_result_def op_lift_def split: sum.splits if_splits)
  have "\<exists>f. node_at p d = Some (FileNode f) \<and> cd_from_slice cd (fn_bytes f) = Ok rc" if "previous = Some rc" for rc
    using receipt_load_effect [of m cd p d rc d1] ld prev that by auto
  then show ?thesis using keepsD [OF keeps_receipt_load ld] Some unfolding d' by simp
qed

lemma keeps_previous_receipt: "keeps q (previous_receipt m cd force receipt_file)"
  unfolding previous_receipt_def by (intro keep_rules)

lemma foreign_refused:
  fixes w :: "'v update_world"
  assumes run: "install w run_binary env opts req d = (r, d')" and own: "\<not> iq_system req" "\<not> iq_force req"
    and dir: "chosen_bin_dir (uw_machine w) env req = (Ok bin_dir :: 'v self_install_error + path)"
    and dest: "dest = bin_dir @ [binary_file_name (ev_app env) (ev_os env)]" "path_exists dest d"
    and other: "\<not> same_path (uw_machine w) d (ev_current_exe env) dest (ev_os env)"
    and receipt: "\<And>rf f rc. receipt_path env = Some rf \<Longrightarrow> node_at rf d = Some (FileNode f) \<Longrightarrow>
      cd_from_slice (uw_codec w) (fn_bytes f) = Ok rc \<Longrightarrow> \<not> same_path (uw_machine w) d (rc_binary_path rc) dest (ev_os env)"
  shows "isl r \<and> (\<forall>q. node_at q d' = node_at q d)"
proof (cases "ev_is_root env \<and> env_var env (install_var_prefix (ev_app env) @ ''_INSTALL_ALLOW_SUDO'') = None \<or>
    \<not> iq_unmanaged req \<and> receipt_path env = None")
  case True
  then show ?thesis using run own dir by (auto simp: install_def Let_def op_bind_def op_lift_def split: if_splits)
next
  case False
  define receipt_file where "receipt_file = (if iq_unmanaged req then None else receipt_path env)"
  obtain x d1 where pr: "previous_receipt (uw_machine w) (uw_codec w) False receipt_file d = (x :: 'v self_install_error + _, d1)" by fastforce
  have same: "node_at q d1 = node_at q d" for q using keepsD [OF keeps_previous_receipt pr] .
  have "isl r \<and> d' = d1"
  proof (cases x)
    case (Inl e)
    then show ?thesis
      using run own dir False pr
      by (auto simp: install_def op_bind_def op_lift_def Let_def receipt_file_def split: option.splits if_splits)
  next
    case (Inr previous)
    have "foreign_binary (uw_machine w) env dest previous d1"
      using previous_receipt_effect [of "uw_machine w" "uw_codec w" False receipt_file d previous d1] pr Inr receipt dest(2)
        other same same_path_cong [of d1 d, OF same]
      by (auto simp: foreign_binary_def path_exists_def receipt_file_def split: option.splits if_splits)
    then show ?thesis
      using run own dir False pr Inr dest(1)
      by (auto simp: install_def op_bind_def op_get_def op_lift_def Let_def receipt_file_def split: option.splits if_splits)
  qed
  then show ?thesis using same by simp
qed

section \<open>After an install\<close>

text \<open>\<open>self_delete\<close> may only remove the running executable, and has removed it when it succeeds.\<close>

definition deletes_running :: "(io_error, unit) op \<Rightarrow> install_env \<Rightarrow> bool" where
  "deletes_running self_delete env \<longleftrightarrow>
     only_removes self_delete \<and> (\<forall>q. q \<noteq> ev_current_exe env \<longrightarrow> keeps q self_delete) \<and>
     (\<forall>d d'. self_delete d = (Ok (), d') \<longrightarrow> node_at (ev_current_exe env) d' = None)"

lemma uninstall_frame:
  assumes rf: "receipt_path env = Some rf" "node_at rf d = Some (FileNode fr)" "cd_from_slice cd (fn_bytes fr) = Ok rc"
    and hon: "honest m" and self: "deletes_running self_delete env"
    and run: "uninstall m cd self_delete env purge d = (r :: 'v self_install_error + uninstall_outcome, d')"
  obtains (stopped) "isl r" "\<forall>q. node_at q d' = node_at q d"
  | (ran) roots where "list_all (purgeable env) roots" "purge \<or> roots = []"
      "\<forall>q. node_at q d' = node_at q d \<or> uninstall_touches env rf roots rc q \<and> node_at q d' = None"
      "\<not> isl r \<longrightarrow> (\<forall>q. q \<in> set (rc_completions rc) \<or> FishConf q \<in> set (rc_modified_path rc) \<or>
          q = prev_path (rc_binary_path rc) \<or> q = rf \<or> q = rc_binary_path rc \<and> q = ev_current_exe env \<longrightarrow> node_at q d' = None)"
  using uninstall_runs [OF rf hon run]
proof cases
  case 1
  then show ?thesis using stopped by blast
next
  case (2 roots d1)
  have safe: "list_all (purgeable env) roots" "purge \<or> roots = []"
    using 2(2) by (auto split: if_splits dest: purge_roots_Ok)
  have frame: "node_at q d' = node_at q d \<or> uninstall_touches env rf roots rc q \<and> node_at q d' = None" for q
  proof (cases "uninstall_touches env rf roots rc q")
    case True
    have "only_removes (uninstall_recorded m self_delete env rf roots rc :: ('v self_install_error, uninstall_outcome) op)"
      using self by (intro removes_recorded) (simp add: deletes_running_def)
    from only_removesD [OF this 2(3), of q] show ?thesis using 2(1) True by auto
  next
    case False
    then have "keeps q self_delete" using self by (auto simp: deletes_running_def uninstall_touches_def)
    from keepsD [OF keeps_recorded [OF False this] 2(3)] show ?thesis using 2(1) by simp
  qed
  have gone: "\<forall>q. q \<in> set (rc_completions rc) \<or> FishConf q \<in> set (rc_modified_path rc) \<or>
      q = prev_path (rc_binary_path rc) \<or> q = rf \<or> q = rc_binary_path rc \<and> q = ev_current_exe env \<longrightarrow> node_at q d' = None"
    if "\<not> isl r"
  proof -
    obtain out where r: "r = Ok out" using \<open>\<not> isl r\<close> by (cases r) auto
    show ?thesis
      using recorded_gone [OF hon _ 2(3) [unfolded r]] recorded_binary_gone [OF hon _ 2(3) [unfolded r]] self
      by (auto simp: deletes_running_def)
  qed
  show ?thesis by (rule ran [OF safe]) (rule allI, rule frame, rule impI, rule gone)
qed

lemma managed_after_install:
  assumes rf: "receipt_path env = Some rf" "node_at rf d = Some (FileNode f)" "cd_from_slice (uw_codec w) (fn_bytes f) = Ok rc"
    and own: "rc_schema_version rc = RECEIPT_SCHEMA_VERSION" "rc_binary_path rc = ev_current_exe env" "\<not> is_package_manager (rc_method rc)"
    and calm: "calm (uw_machine w)"
    and outside: "\<And>t mt. infer_method_from_path (uw_machine w) (d\<lparr>dk_tick := t\<rparr>) (ev_current_exe env) = Some mt \<Longrightarrow> \<not> is_package_manager mt"
  shows "managed_receipt w env d = (Ok (rf, rc), d\<lparr>dk_tick := Suc (dk_tick d)\<rparr>)"
proof -
  let ?d = "d\<lparr>dk_tick := Suc (dk_tick d)\<rparr>"
  have "receipt_load (uw_machine w) (uw_codec w) rf d = (Ok (Some rc), ?d)"
    using rf(2,3) own(1) by (simp add: receipt_load_def op_bind_def op_result_def op_lift_def calm_read [OF calm])
  moreover have "Option.bind (infer_method_from_path (uw_machine w) ?d (ev_current_exe env))
      (\<lambda>mt. if is_package_manager mt then Some mt else None) = None"
    using outside by (cases "infer_method_from_path (uw_machine w) ?d (ev_current_exe env)") auto
  ultimately show ?thesis
    using rf(1) own(2,3) by (simp add: managed_receipt_def Let_def op_bind_def op_map_err_def op_get_def op_lift_def map_err_def)
qed

section \<open>A machine\<close>

definition setup_env :: install_env where
  "setup_env = demo_env\<lparr>ev_home := Some [''h''], ev_current_exe := [''t'', ''a''], ev_stdout_is_terminal := True\<rparr>"

definition setup_disk :: disk where
  "setup_disk = \<lparr>dk_nodes = [([''s''], DirNode), ([''h''], DirNode), ([''h'', ''.profile''], plain_file ''x''),
      ([''t''], DirNode), ([''t'', ''a''], plain_file ''bin'')], dk_tick = 0, dk_requests = []\<rparr>"

definition setup_request :: install_request where
  "setup_request = \<lparr>iq_bin_dir = Some (AbsPath [''h'', ''b'']), iq_no_modify_path = True, iq_unmanaged = False, iq_force = False,
     iq_from_bootstrap = False, iq_system = False, iq_from = None\<rparr>"

definition setup_receipt :: install_receipt where
  "setup_receipt = demo_receipt\<lparr>rc_target := ''x-unknown-linux-gnu'', rc_bin_dir := [''h'', ''b''], rc_binary_path := [''h'', ''b'', ''a''],
     rc_installed_at := ''1970-01-01T00:00:00Z''\<rparr>"

definition setup_world :: "nat update_world" where
  "setup_world = demo_world\<lparr>uw_codec := \<lparr>cd_from_slice = (\<lambda>bs. if bs = ''I'' then Ok setup_receipt else Err []),
     cd_to_vec = (\<lambda>rc. if rc = setup_receipt then Ok ''I'' else Err [])\<rparr>\<rparr>"

definition no_completions :: "node option \<Rightarrow> string list \<Rightarrow> process_result" where
  "no_completions n args = ProcessFailed []"

definition set_up :: "(nat self_install_error + install_outcome) \<times> disk" where
  "set_up = install setup_world no_completions setup_env demo_options setup_request setup_disk"

definition installed_env :: install_env where
  "installed_env = setup_env\<lparr>ev_current_exe := [''h'', ''b'', ''a'']\<rparr>"

definition installed_disk :: disk where
  "installed_disk = \<lparr>dk_nodes = [([''s''], DirNode), ([''h''], DirNode), ([''h'', ''.profile''], plain_file ''x''), ([''t''], DirNode),
      ([''t'', ''a''], plain_file ''bin''), ([''h'', ''b''], DirNode),
      ([''h'', ''b'', ''a''], FileNode \<lparr>fn_bytes = ''bin'', fn_exec = True, fn_mtime = 0\<rparr>), ([''s'', ''a''], DirNode),
      ([''s'', ''a'', ''install-receipt.json''], plain_file ''I'')], dk_tick = 9, dk_requests = []\<rparr>"

lemma set_up_evaluates:
  "case set_up of (r, d) \<Rightarrow> \<not> isl r \<and> it_binary_path (projr r) = [''h'', ''b'', ''a''] \<and> d = installed_disk"
  by code_simp

lemma set_up_runs:
  "set_up = (Ok (projr (fst set_up)), installed_disk)" "it_binary_path (projr (fst set_up)) = [''h'', ''b'', ''a'']"
  using set_up_evaluates by (simp_all add: case_prod_beta prod_eq_iff)

lemma setup_calm: "calm (uw_machine setup_world)" "honest (uw_machine setup_world)"
  by (simp_all add: calm_def honest_def setup_world_def demo_world_def demo_machine_def)

lemma setup_codec_faithful: "cd_to_vec (uw_codec setup_world) rc = Ok bs \<Longrightarrow> cd_from_slice (uw_codec setup_world) bs = Ok rc"
  by (auto simp: setup_world_def split: if_splits)

section \<open>What the code does besides\<close>

text \<open>The receipt is written last: when that fails the binary stays, and the next \<open>self install\<close> takes
  it for somebody else's.\<close>

definition full_disk_world :: "nat update_world" where
  "full_disk_world = setup_world\<lparr>uw_machine := demo_machine\<lparr>mc_fault := (\<lambda>n. if n = 7 then Some (Fault (IoError KOther ''full'') None) else None)\<rparr>\<rparr>"

definition failed_install :: "(nat self_install_error + install_outcome) \<times> disk" where
  "failed_install = install full_disk_world no_completions setup_env demo_options setup_request setup_disk"

definition left_disk :: disk where
  "left_disk = \<lparr>dk_nodes = [([''s''], DirNode), ([''h''], DirNode), ([''h'', ''.profile''], plain_file ''x''), ([''t''], DirNode),
      ([''t'', ''a''], plain_file ''bin''), ([''h'', ''b''], DirNode),
      ([''h'', ''b'', ''a''], FileNode \<lparr>fn_bytes = ''bin'', fn_exec = True, fn_mtime = 0\<rparr>), ([''s'', ''a''], DirNode)],
      dk_tick = 8, dk_requests = []\<rparr>"

lemma own_install_taken_for_foreign:
  "case failed_install of (r, d) \<Rightarrow> isl r \<and> d = left_disk"
  "fst (install setup_world no_completions setup_env demo_options setup_request left_disk) = Err (ForeignBinary [''h'', ''b'', ''a''] ''a self'')"
  by code_simp+

text \<open>The place overrules the receipt: what was installed into a directory a package manager uses
  cannot update itself.\<close>

lemma place_overrules_receipt:
  assumes "receipt_path env = Some rf" "receipt_load (uw_machine w) (uw_codec w) rf d = (Ok (Some rc), d1)"
    and "infer_method_from_path (uw_machine w) d1 (ev_current_exe env) = Some mt" "is_package_manager mt" "\<not> is_package_manager (rc_method rc)"
  shows "isl (fst (managed_receipt w env d))"
  using assms by (simp add: managed_receipt_def Let_def op_bind_def op_map_err_def op_get_def op_lift_def map_err_def)

lemma cargo_dir_is_cargo: "classify_method (path_display [''h'', ''.cargo'', ''bin'', ''a'']) = Some Cargo"
  by code_simp

section \<open>Properties\<close>

text \<open>Editing \<open>PATH\<close> on a machine where a file that exists is never reported missing: whichever call
  fails, a file or directory that existed is unchanged, or it is a start-up file of the shell to
  which (a first part of) the one line that sources the \<open>env\<close> file was appended once; nothing is
  created but the two \<open>env\<close> files, the fish file of the application and the directory it lies in. When
  the edit has succeeded, doing it again succeeds, changes nothing and records nothing.\<close>

theorem path_edit_appends_once:
  assumes "honest m" "apply_unix_path m env bin_dir d = (r, d')"
  shows "(\<forall>q n. node_at q d = Some n \<longrightarrow> node_at q d' = Some n \<or>
      (\<exists>home e. ev_home env = Some home \<and> shell_dir_expr (Some home) bin_dir = Some e \<and>
         q \<in> set (rc_candidates home (zdotdir_of env) d) \<and> grown (source_line e) n (node_at q d'))) \<and>
    (\<forall>q. node_at q d = None \<longrightarrow> node_at q d' \<noteq> None \<longrightarrow>
      q \<in> {bin_dir @ [''env''], bin_dir @ [''env.fish'']} \<or>
      (\<exists>home. ev_home env = Some home \<and> (q = fish_conf_path env home \<or> prefix q (fish_dir_of env home @ [''conf.d''])))) \<and>
    (\<not> isl r \<longrightarrow> (\<forall>m'. calm m' \<longrightarrow>
      (\<exists>r' t. apply_unix_path m' env bin_dir d' = (Ok r', d'\<lparr>dk_tick := t\<rparr>) \<and> pr_modifications r' = [])))"
proof (intro conjI allI impI)
  show "node_at q d' = Some n \<or> (\<exists>home e. ev_home env = Some home \<and> shell_dir_expr (Some home) bin_dir = Some e \<and>
         q \<in> set (rc_candidates home (zdotdir_of env) d) \<and> grown (source_line e) n (node_at q d'))"
    if "node_at q d = Some n" for q n
    by (rule apply_existing [OF assms that])
  show "q \<in> {bin_dir @ [''env''], bin_dir @ [''env.fish'']} \<or>
      (\<exists>home. ev_home env = Some home \<and> (q = fish_conf_path env home \<or> prefix q (fish_dir_of env home @ [''conf.d''])))"
    if "node_at q d = None" "node_at q d' \<noteq> None" for q
    by (rule apply_created [OF assms(2) that])
  show "\<exists>r' t. apply_unix_path m' env bin_dir d' = (Ok r', d'\<lparr>dk_tick := t\<rparr>) \<and> pr_modifications r' = []"
    if "\<not> isl r" "calm m'" for m'
    using path_edit_idempotent [OF that(2) apply_sets_path_up [OF assms(1), of env bin_dir d "projr r" d']] assms(2) that(1)
    by (cases r) (auto simp: idle_def)
qed

theorem path_edit_appends_once_witness:
  "\<exists>r' t. apply_unix_path demo_machine setup_env [''h'', ''b'']
     (snd (apply_unix_path demo_machine setup_env [''h'', ''b''] (make_dirs [''h'', ''b''] setup_disk))) =
     (Ok r', snd (apply_unix_path demo_machine setup_env [''h'', ''b''] (make_dirs [''h'', ''b''] setup_disk))\<lparr>dk_tick := t\<rparr>) \<and>
   pr_modifications r' = []"
proof -
  let ?d = "make_dirs [''h'', ''b''] setup_disk"
  let ?run = "apply_unix_path demo_machine setup_env [''h'', ''b''] ?d"
  have m: "honest demo_machine" "calm demo_machine" by (simp_all add: honest_def calm_def demo_machine_def)
  have "\<not> isl (fst ?run)" by code_simp
  then show ?thesis
    using path_edit_appends_once [OF m(1), of setup_env "[''h'', ''b'']" ?d "fst ?run" "snd ?run"] m(2) by simp
qed

text \<open>A per-user \<open>self install\<close> without \<open>--force\<close> never touches a file of somebody else at its
  destination: when the destination exists and is neither the running binary nor the binary of the
  receipt, the command fails and no file or directory changes.\<close>

theorem install_spares_foreign:
  fixes w :: "'v update_world"
  assumes "install w run_binary env opts req d = (r, d')" and "\<not> iq_system req" "\<not> iq_force req"
    and "chosen_bin_dir (uw_machine w) env req = (Ok bin_dir :: 'v self_install_error + path)"
    and "dest = bin_dir @ [binary_file_name (ev_app env) (ev_os env)]" "path_exists dest d"
    and "\<not> same_path (uw_machine w) d (ev_current_exe env) dest (ev_os env)"
    and "\<And>rf f rc. receipt_path env = Some rf \<Longrightarrow> node_at rf d = Some (FileNode f) \<Longrightarrow>
      cd_from_slice (uw_codec w) (fn_bytes f) = Ok rc \<Longrightarrow> \<not> same_path (uw_machine w) d (rc_binary_path rc) dest (ev_os env)"
  shows "isl r \<and> (\<forall>q. node_at q d' = node_at q d)"
  using foreign_refused [OF assms] .

definition occupied_disk :: disk where
  "occupied_disk = set_node [''h'', ''b'', ''a''] (plain_file ''theirs'') (make_dirs [''h'', ''b''] setup_disk)"

theorem install_spares_foreign_witness:
  "isl (fst (install setup_world no_completions setup_env demo_options setup_request occupied_disk)) \<and>
   node_at [''h'', ''b'', ''a''] (snd (install setup_world no_completions setup_env demo_options setup_request occupied_disk)) =
     Some (plain_file ''theirs'')"
proof -
  let ?run = "install setup_world no_completions setup_env demo_options setup_request occupied_disk"
  have dir: "chosen_bin_dir (uw_machine setup_world) setup_env setup_request = (Ok [''h'', ''b''] :: nat self_install_error + path)"
    and req: "\<not> iq_system setup_request" "\<not> iq_force setup_request"
    by (simp_all add: chosen_bin_dir_def setup_request_def resolve_arg_def)
  have there: "node_at [''h'', ''b'', ''a''] occupied_disk = Some (plain_file ''theirs'')" by (simp add: occupied_disk_def)
  have name: "[''h'', ''b'', ''a''] = [''h'', ''b''] @ [binary_file_name (ev_app setup_env) (ev_os setup_env)]"
    and differ: "\<not> same_path (uw_machine setup_world) occupied_disk (ev_current_exe setup_env) [''h'', ''b'', ''a''] (ev_os setup_env)"
    by code_simp+
  have none: "receipt_path setup_env = Some [''s'', ''a'', ''install-receipt.json'']" "node_at [''s'', ''a'', ''install-receipt.json''] occupied_disk = None"
    by code_simp+
  have "isl (fst ?run) \<and> (\<forall>q. node_at q (snd ?run) = node_at q occupied_disk)"
    by (rule install_spares_foreign [OF _ req dir name _ differ]) (use none there in \<open>auto simp: path_exists_def\<close>)
  then show ?thesis using there by simp
qed


definition set_up_removed :: "(nat self_install_error + uninstall_outcome) \<times> disk" where
  "set_up_removed = uninstall demo_machine (uw_codec setup_world) (fs_remove_file demo_machine [''h'', ''b'', ''a'']) installed_env False installed_disk"

lemma set_up_removed_runs: "\<not> isl (fst set_up_removed)"
  by code_simp

lemma remove_file_deletes_running: "deletes_running (fs_remove_file m (ev_current_exe env)) env"
  by (auto simp: deletes_running_def removes_calls keeps_calls dest: remove_file_effect)


text \<open>C35. \<open>self uninstall\<close> removes nothing that is not its own, whatever fails: every file and directory
  is as it was, or it is gone and is one the receipt names (completions, fish file, binary, previous
  binary), the receipt or its directory, the running executable, a leftover of installs and updates in
  the bin dir, or lies in a purged directory; start-up files and the shared \<open>env\<close> file are never among
  what it removes on their account. A purged directory is named after the application, is not directly
  under the root and does not contain the home directory; when one would not be so, the command fails
  before it removes anything.\<close>

theorem uninstall_removes_only_its_own:
  assumes rf: "receipt_path env = Some rf" "node_at rf d = Some (FileNode fr)" "cd_from_slice cd (fn_bytes fr) = Ok rc"
    and hon: "honest m" and self: "deletes_running self_delete env"
    and run: "uninstall m cd self_delete env purge d = (r :: 'v self_install_error + uninstall_outcome, d')"
  shows "(\<exists>roots. list_all (purgeable env) roots \<and> (purge \<or> roots = []) \<and>
      (\<forall>q. node_at q d' = node_at q d \<or> uninstall_touches env rf roots rc q \<and> node_at q d' = None)) \<and>
    (purge \<and> isl (purge_roots m d env :: 'v self_install_error + path list) \<longrightarrow> isl r \<and> (\<forall>q. node_at q d' = node_at q d))"
proof
  show "\<exists>roots. list_all (purgeable env) roots \<and> (purge \<or> roots = []) \<and>
      (\<forall>q. node_at q d' = node_at q d \<or> uninstall_touches env rf roots rc q \<and> node_at q d' = None)"
    using uninstall_frame [OF rf hon self run]
  proof cases
    case 1
    then show ?thesis by (intro exI [of _ "[]"]) simp
  next
    case (2 roots)
    then show ?thesis by (intro exI [of _ roots]) blast
  qed
  show "purge \<and> isl (purge_roots m d env :: 'v self_install_error + path list) \<longrightarrow> isl r \<and> (\<forall>q. node_at q d' = node_at q d)"
    using uninstall_runs [OF rf hon run] by cases auto
qed

theorem uninstall_removes_only_its_own_witness:
  "node_at [''h'', ''.profile''] (snd set_up_removed) = Some (plain_file ''x'') \<and> \<not> isl (fst set_up_removed)"
proof -
  let ?rf = "[''s'', ''a'', ''install-receipt.json'']"
  have rf: "receipt_path installed_env = Some ?rf" "node_at ?rf installed_disk = Some (plain_file ''I'')"
    "cd_from_slice (uw_codec setup_world) (fn_bytes \<lparr>fn_bytes = ''I'', fn_exec = False, fn_mtime = 0\<rparr>) = Ok setup_receipt"
    by code_simp+
  have hon: "honest demo_machine" by (simp add: honest_def demo_machine_def)
  have self: "deletes_running (fs_remove_file demo_machine [''h'', ''b'', ''a'']) installed_env"
    using remove_file_deletes_running [of demo_machine installed_env] by (simp add: installed_env_def)
  have run: "uninstall demo_machine (uw_codec setup_world) (fs_remove_file demo_machine [''h'', ''b'', ''a'']) installed_env False installed_disk =
      (fst set_up_removed, snd set_up_removed)" by (simp add: set_up_removed_def)
  have "\<not> uninstall_touches installed_env ?rf [] setup_receipt [''h'', ''.profile'']"
    by (simp add: uninstall_touches_def setup_receipt_def demo_receipt2_def demo_receipt_def installed_env_def prev_path_def os_str_push_def)
  moreover have "node_at [''h'', ''.profile''] installed_disk = Some (plain_file ''x'')" by code_simp
  ultimately show ?thesis
    using uninstall_removes_only_its_own [OF rf hon self run] set_up_removed_runs
    by (auto dest!: spec [where x = "[''h'', ''.profile'']"])
qed

end
