(* ===== verification/Secret_Store.thy ===== *)
theory Secret_Store
  imports Rust_Maps
begin

text \<open>
  Secrets (\<open>src/secrets\<close>): the keys they are stored under (\<open>key.rs\<close>), the errors of a store
  (\<open>error.rs\<close>), the interface every backend implements (\<open>mod.rs\<close>), the in-memory backend
  (\<open>in_memory.rs\<close>) and the names under which \<open>env_file.rs\<close> looks for a key.

  A backend is a record of functions on its state. What the trait promises of it is the locale
  \<open>secret_backend\<close>: it says what each call may do to the contents, whether it succeeds or fails,
  so it also holds of a backend that is down half of the time.
\<close>

section \<open>Keys\<close>

datatype secret_key = SecretKey (key_str: string)

datatype secret_key_error = NoSegments | SegmentEmpty | SegmentInvalid string

definition is_ascii_alphanumeric :: "char \<Rightarrow> bool" where
  "is_ascii_alphanumeric c =
     (let n = (of_char c :: nat) in (48 \<le> n \<and> n \<le> 57) \<or> (65 \<le> n \<and> n \<le> 90) \<or> (97 \<le> n \<and> n \<le> 122))"

definition is_key_char :: "char \<Rightarrow> bool" where
  "is_key_char c \<longleftrightarrow> is_ascii_alphanumeric c \<or> c = CHR ''_'' \<or> c = CHR ''-'' \<or> c = CHR ''.''"

definition validate_segment :: "string \<Rightarrow> secret_key_error + unit" where
  "validate_segment seg =
     (if seg = [] then Err SegmentEmpty
      else if seg = ''.'' \<or> seg = ''..'' then Err (SegmentInvalid seg)
      else if \<not> list_all is_key_char seg then Err (SegmentInvalid seg)
      else Ok ())"

text \<open>The loop of \<open>SecretKey::new\<close> carries the joined text and whether a segment was seen.\<close>

definition push_segment :: "string \<Rightarrow> string \<times> bool \<Rightarrow> secret_key_error + string \<times> bool" where
  "push_segment seg st =
     and_then (validate_segment seg) (\<lambda>_.
       Ok (fst st @ (if snd st then ''/'' else []) @ seg, True))"

definition secret_key_new :: "string list \<Rightarrow> secret_key_error + secret_key" where
  "secret_key_new segs =
     and_then (fold_results push_segment segs ([], False)) (\<lambda>(joined, any).
       if any then Ok (SecretKey joined) else Err NoSegments)"

definition secret_key_parse :: "string \<Rightarrow> secret_key_error + secret_key" where
  "secret_key_parse path = secret_key_new (str_split (CHR ''/'') path)"

definition key_segments :: "secret_key \<Rightarrow> string list" where
  "key_segments k = str_split (CHR ''/'') (key_str k)"

definition valid_segment :: "string \<Rightarrow> bool" where
  "valid_segment seg \<longleftrightarrow> validate_segment seg = Ok ()"

lemma valid_segment_iff:
  "valid_segment seg \<longleftrightarrow> seg \<noteq> [] \<and> seg \<noteq> ''.'' \<and> seg \<noteq> ''..'' \<and> list_all is_key_char seg"
  by (simp add: valid_segment_def validate_segment_def)

lemma valid_segment_no_slash: "valid_segment seg \<Longrightarrow> CHR ''/'' \<notin> set seg"
proof
  assume "valid_segment seg" "CHR ''/'' \<in> set seg"
  then have "is_key_char (CHR ''/'')" by (simp add: valid_segment_iff list_all_iff)
  then show False by (simp add: is_key_char_def is_ascii_alphanumeric_def)
qed

lemma push_segments:
  "fold_results push_segment segs (j, True) = Ok (r, b) \<longleftrightarrow>
   (\<forall>s \<in> set segs. valid_segment s) \<and> b \<and> r = j @ concat (map (\<lambda>s. ''/'' @ s) segs)"
proof (induction segs arbitrary: j)
  case Nil
  show ?case by auto
next
  case (Cons s segs)
  then show ?case
    by (cases "validate_segment s") (auto simp: push_segment_def valid_segment_def)
qed

lemma join_concat: "str_join ''/'' (s # segs) = s @ concat (map (\<lambda>s. ''/'' @ s) segs)"
proof (induction segs arbitrary: s)
  case Nil
  show ?case by simp
next
  case (Cons t segs)
  then show ?case by (simp add: str_join_Cons)
qed

text \<open>A key is its valid segments joined by slashes, and nothing else is a key.\<close>

lemma secret_key_new_iff:
  "secret_key_new segs = Ok k \<longleftrightarrow>
   segs \<noteq> [] \<and> (\<forall>s \<in> set segs. valid_segment s) \<and> k = SecretKey (str_join ''/'' segs)"
proof (cases segs)
  case Nil
  then show ?thesis by (simp add: secret_key_new_def)
next
  case (Cons s rest)
  show ?thesis
  proof (cases "validate_segment s")
    case (Inl e)
    then show ?thesis by (simp add: Cons secret_key_new_def push_segment_def valid_segment_def)
  next
    case (Inr u)
    then have v: "valid_segment s" by (simp add: valid_segment_def)
    have "secret_key_new segs = Ok k \<longleftrightarrow>
        (\<exists>j. fold_results push_segment rest (s, True) = Ok (j, True) \<and> k = SecretKey j)"
      using push_segments [of rest s]
      by (auto simp: Cons secret_key_new_def push_segment_def Inr and_then_Ok_iff split: if_splits)
    then show ?thesis using v by (auto simp: push_segments Cons join_concat simp del: str_join.simps)
  qed
qed

lemma key_segments_new: "secret_key_new segs = Ok k \<Longrightarrow> key_segments k = segs"
  by (auto simp: secret_key_new_iff key_segments_def valid_segment_no_slash intro!: split_join)

lemma secret_key_parse_str: "secret_key_parse s = Ok k \<Longrightarrow> key_str k = s"
  using join_split [of "CHR ''/''" s] by (auto simp: secret_key_parse_def secret_key_new_iff)

section \<open>The interface\<close>

datatype secret_error =
    SecretNotFound
  | SecretUnavailable string
  | SecretPermissionDenied
  | SecretNotSupported string
  | SecretBackend string

fun secret_error_to_string :: "secret_error \<Rightarrow> string" where
  "secret_error_to_string SecretNotFound = ''secret not found''"
| "secret_error_to_string (SecretUnavailable m) = ''secret backend unavailable: '' @ m"
| "secret_error_to_string SecretPermissionDenied = ''permission denied''"
| "secret_error_to_string (SecretNotSupported m) = ''operation not supported: '' @ m"
| "secret_error_to_string (SecretBackend m) = ''secret backend error: '' @ m"

type_synonym secret_value = string

record 's secret_store =
  ss_get :: "secret_key \<Rightarrow> 's \<Rightarrow> (secret_error + secret_value) \<times> 's"
  ss_put :: "secret_key \<Rightarrow> secret_value \<Rightarrow> 's \<Rightarrow> (secret_error + unit) \<times> 's"
  ss_delete :: "secret_key \<Rightarrow> 's \<Rightarrow> (secret_error + unit) \<times> 's"
  ss_rotate :: "secret_key \<Rightarrow> 's \<Rightarrow> (secret_error + secret_value) \<times> 's"

text \<open>
  \<open>view\<close> is what the backend holds. A failed write may or may not have reached it.
\<close>

locale secret_backend =
  fixes store :: "'s secret_store" and view :: "'s \<Rightarrow> secret_key \<Rightarrow> secret_value option"
  assumes get_view: "ss_get store k s = (r, s') \<Longrightarrow> view s' = view s"
    and get_Ok: "ss_get store k s = (Ok v, s') \<Longrightarrow> view s k = Some v"
    and get_NotFound: "ss_get store k s = (Err SecretNotFound, s') \<Longrightarrow> view s k = None"
    and put_Ok: "ss_put store k v s = (Ok (), s') \<Longrightarrow> view s' = (view s)(k \<mapsto> v)"
    and put_Err: "ss_put store k v s = (Err e, s') \<Longrightarrow> view s' = view s \<or> view s' = (view s)(k \<mapsto> v)"
    and delete_Ok: "ss_delete store k s = (Ok (), s') \<Longrightarrow> view s' = (view s)(k := None)"
    and delete_Err: "ss_delete store k s = (Err e, s') \<Longrightarrow> view s' = view s \<or> view s' = (view s)(k := None)"
begin

lemma get_cases:
  assumes "ss_get store k s = (r, s')"
  obtains v where "r = Ok v" "view s k = Some v" | "r = Err SecretNotFound" "view s k = None"
    | e where "r = Err e" "e \<noteq> SecretNotFound"
proof (cases r)
  case (Inl e)
  then show thesis using assms get_NotFound that(2,3) by (cases "e = SecretNotFound") simp_all
next
  case (Inr v)
  then show thesis using assms get_Ok that(1) by simp
qed

lemma put_view:
  "ss_put store k v s = (r, s') \<Longrightarrow> view s' = view s \<or> view s' = (view s)(k \<mapsto> v)"
  by (cases r) (simp add: put_Err, simp add: put_Ok)

lemma put_frame: "ss_put store k v s = (r, s') \<Longrightarrow> q \<noteq> k \<Longrightarrow> view s' q = view s q"
  by (drule put_view) auto

lemma delete_view:
  "ss_delete store k s = (r, s') \<Longrightarrow> view s' = view s \<or> view s' = (view s)(k := None)"
  by (cases r) (simp add: delete_Err, simp add: delete_Ok)

lemma delete_frame: "ss_delete store k s = (r, s') \<Longrightarrow> q \<noteq> k \<Longrightarrow> view s' q = view s q"
  by (drule delete_view) auto

end

section \<open>The in-memory backend\<close>

text \<open>The lock is never poisoned: nothing panics while it is held.\<close>

type_synonym memory_secrets = "(string, secret_value) hash_map"

definition in_memory_get :: "secret_key \<Rightarrow> memory_secrets \<Rightarrow> (secret_error + secret_value) \<times> memory_secrets" where
  "in_memory_get k s =
     ((case map_of s (key_str k) of Some v \<Rightarrow> Ok v | None \<Rightarrow> Err SecretNotFound), s)"

definition in_memory_put :: "secret_key \<Rightarrow> secret_value \<Rightarrow> memory_secrets \<Rightarrow> (secret_error + unit) \<times> memory_secrets" where
  "in_memory_put k v s = (Ok (), hm_insert (key_str k) v s)"

definition in_memory_delete :: "secret_key \<Rightarrow> memory_secrets \<Rightarrow> (secret_error + unit) \<times> memory_secrets" where
  "in_memory_delete k s = (Ok (), filter (\<lambda>(q, _). q \<noteq> key_str k) s)"

definition in_memory_rotate :: "secret_key \<Rightarrow> memory_secrets \<Rightarrow> (secret_error + secret_value) \<times> memory_secrets" where
  "in_memory_rotate k s = (Err (SecretNotSupported ''rotate is not supported by InMemorySecretStore''), s)"

definition in_memory_store :: "memory_secrets secret_store" where
  "in_memory_store =
     \<lparr>ss_get = in_memory_get, ss_put = in_memory_put, ss_delete = in_memory_delete, ss_rotate = in_memory_rotate\<rparr>"

definition memory_view :: "memory_secrets \<Rightarrow> secret_key \<Rightarrow> secret_value option" where
  "memory_view s k = map_of s (key_str k)"

lemma key_str_neq: "k \<noteq> q \<Longrightarrow> key_str k \<noteq> key_str q"
  by (cases k; cases q) simp

lemma map_of_drop_key: "map_of (filter (\<lambda>(q, _). q \<noteq> k) s) p = (if p = k then None else map_of s p)"
  by (induction s) auto

lemma memory_view_put: "memory_view (hm_insert (key_str k) v s) = (memory_view s)(k \<mapsto> v)"
  using key_str_neq by (fastforce simp: memory_view_def)

lemma memory_view_delete:
  "memory_view (filter (\<lambda>(q, _). q \<noteq> key_str k) s) = (memory_view s)(k := None)"
  using key_str_neq by (fastforce simp: memory_view_def map_of_drop_key)

lemmas in_memory_defs = in_memory_store_def in_memory_get_def in_memory_put_def in_memory_delete_def in_memory_rotate_def

lemma in_memory_get_view: "(case memory_view s k of Some v \<Rightarrow> Ok v | None \<Rightarrow> Err SecretNotFound, s) = ss_get in_memory_store k s"
  by (simp add: in_memory_defs memory_view_def)

interpretation mem: secret_backend in_memory_store memory_view
proof
  fix k v r e and s s' :: memory_secrets
  show "ss_get in_memory_store k s = (r, s') \<Longrightarrow> memory_view s' = memory_view s"
    "ss_get in_memory_store k s = (Ok v, s') \<Longrightarrow> memory_view s k = Some v"
    "ss_get in_memory_store k s = (Err SecretNotFound, s') \<Longrightarrow> memory_view s k = None"
    unfolding in_memory_get_view [symmetric] by (simp_all split: option.splits)
  show "ss_put in_memory_store k v s = (Ok (), s') \<Longrightarrow> memory_view s' = (memory_view s)(k \<mapsto> v)"
    "ss_put in_memory_store k v s = (Err e, s') \<Longrightarrow> memory_view s' = memory_view s \<or> memory_view s' = (memory_view s)(k \<mapsto> v)"
    using memory_view_put [of k v s] by (simp_all add: in_memory_defs)
  show "ss_delete in_memory_store k s = (Ok (), s') \<Longrightarrow> memory_view s' = (memory_view s)(k := None)"
    "ss_delete in_memory_store k s = (Err e, s') \<Longrightarrow> memory_view s' = memory_view s \<or> memory_view s' = (memory_view s)(k := None)"
    using memory_view_delete [of k s] by (simp_all add: in_memory_defs)
qed

section \<open>Names of the environment and file backend\<close>

text \<open>
  \<open>EnvFileSecretStore\<close> looks at a variable first and at a file below its base directory second.
  The reads and writes of the file go through the private-file module and are not modelled.
\<close>

record env_file_store =
  ef_base_dir :: "string list"
  ef_env_prefix :: "string option"

definition secret_env_var_name :: "env_file_store \<Rightarrow> secret_key \<Rightarrow> string" where
  "secret_env_var_name st k =
     (let core = map (\<lambda>c. if is_ascii_alphanumeric c then ascii_upper c else CHR ''_'') (key_str k)
      in case ef_env_prefix st of Some p \<Rightarrow> p @ ''_'' @ core | None \<Rightarrow> core)"

definition secret_file_path :: "env_file_store \<Rightarrow> secret_key \<Rightarrow> string list" where
  "secret_file_path st k = ef_base_dir st @ key_segments k"

text \<open>
  Keys that went through the constructor stay below the base directory: no segment is a parent
  directory, and two keys never share a file. They may share a variable.
\<close>

lemma secret_files_confined:
  assumes "secret_key_new segs = Ok k" "secret_key_new segs' = Ok k'"
  shows "secret_file_path st k = ef_base_dir st @ segs" "''..'' \<notin> set segs"
    and "secret_file_path st k = secret_file_path st k' \<longleftrightarrow> k = k'"
proof -
  note segs = key_segments_new [OF assms(1)] key_segments_new [OF assms(2)]
  show "secret_file_path st k = ef_base_dir st @ segs" by (simp add: secret_file_path_def segs)
  show "''..'' \<notin> set segs" using assms(1) by (auto simp: secret_key_new_iff valid_segment_iff)
  have "segs = segs' \<Longrightarrow> k = k'" using assms by simp
  then show "secret_file_path st k = secret_file_path st k' \<longleftrightarrow> k = k'"
    using segs by (auto simp: secret_file_path_def)
qed

lemma env_names_collide:
  "secret_key_parse ''app/oidc-token'' = Ok k \<Longrightarrow> secret_key_parse ''app/oidc_token'' = Ok k' \<Longrightarrow>
   k \<noteq> k' \<and> secret_env_var_name st k = secret_env_var_name st k'"
  by (auto dest!: secret_key_parse_str simp: secret_env_var_name_def is_ascii_alphanumeric_def split: option.splits)

end
