(* ===== verification/Claim_Path.thy ===== *)
theory Claim_Path
  imports Json
begin

text \<open>
  \<open>claim_path.rs\<close> of the OIDC crate: where in the claims of a verified token the roles and
  groups are read. A path is parsed from a dotted notation with \<open>\.\<close> for a dot and
  \<open>\\\<close> for a backslash inside a key.
\<close>

datatype claim_path_error = PathEmpty | EmptyKey | UnsupportedEscape char | TrailingBackslash

abbreviation backslash :: char where "backslash \<equiv> CHR 0x5C"
abbreviation dot :: char where "dot \<equiv> CHR ''.''"

text \<open>The loop of \<open>ClaimPath::parse\<close>, with the keys so far and the current key.\<close>

fun parse_loop :: "string list \<Rightarrow> string \<Rightarrow> string \<Rightarrow> claim_path_error + string list" where
  "parse_loop keys current [] = (if current = [] then Err EmptyKey else Ok (keys @ [current]))"
| "parse_loop keys current (c # cs) =
     (if c = backslash then
        (case cs of
           [] \<Rightarrow> Err TrailingBackslash
         | d # ds \<Rightarrow>
             if d = dot then parse_loop keys (current @ [dot]) ds
             else if d = backslash then parse_loop keys (current @ [backslash]) ds
             else Err (UnsupportedEscape d))
      else if c = dot then
        (if current = [] then Err EmptyKey else parse_loop (keys @ [current]) [] cs)
      else parse_loop keys (current @ [c]) cs)"

definition claim_path_parse :: "string \<Rightarrow> claim_path_error + string list" where
  "claim_path_parse raw = (if raw = [] then Err PathEmpty else parse_loop [] [] raw)"

definition default_roles :: "string list" where
  "default_roles = [''realm_access'', ''roles'']"

fun descend :: "string list \<Rightarrow> json \<Rightarrow> json option" where
  "descend [] node = Some node"
| "descend (key # keys) node =
     (case Option.bind (as_object node) (\<lambda>o'. map_of o' key) of
        Some next' \<Rightarrow> descend keys next'
      | None \<Rightarrow> None)"

definition claim_strings :: "string list \<Rightarrow> json \<Rightarrow> string list" where
  "claim_strings path claims =
     (case descend path claims of
        Some (JArr items) \<Rightarrow> List.map_filter as_str items
      | Some (JStr s) \<Rightarrow> [s]
      | _ \<Rightarrow> [])"

section \<open>The notation\<close>

definition escape_key :: "string \<Rightarrow> string" where
  "escape_key k = concat (map (\<lambda>c. if c = dot \<or> c = backslash then [backslash, c] else [c]) k)"

definition print_path :: "string list \<Rightarrow> string" where
  "print_path keys = str_join [dot] (map escape_key keys)"

lemma escape_key_simps [simp]:
  "escape_key [] = []"
  "escape_key (c # k) = (if c = dot \<or> c = backslash then [backslash, c] else [c]) @ escape_key k"
  "escape_key (k @ k') = escape_key k @ escape_key k'"
  by (simp_all add: escape_key_def)

lemma escape_key_Nil_iff [simp]: "escape_key k = [] \<longleftrightarrow> k = []"
  by (cases k) auto

lemma parse_escaped: "parse_loop keys current (escape_key k @ rest) = parse_loop keys (current @ k) rest"
  by (induction k arbitrary: current) auto

lemma parse_printed:
  "ks \<noteq> [] \<Longrightarrow> [] \<notin> set ks \<Longrightarrow> parse_loop keys [] (print_path ks) = Ok (keys @ ks)"
proof (induction ks arbitrary: keys)
  case (Cons k ks)
  show ?case
  proof (cases "ks = []")
    case True
    then show ?thesis using Cons.prems parse_escaped [of keys "[]" k "[]"] by (simp add: print_path_def)
  next
    case False
    then have "print_path (k # ks) = escape_key k @ dot # print_path ks"
      by (simp add: print_path_def str_join_Cons)
    then show ?thesis using Cons False by (auto simp: parse_escaped)
  qed
qed simp

text \<open>
  The keys a run of the loop ends with, when what is left to read is the notation of the rest of
  the current key and of the keys after it.
\<close>

definition completes :: "string list \<Rightarrow> string \<Rightarrow> string \<Rightarrow> string list \<Rightarrow> bool" where
  "completes keys current rest ks \<longleftrightarrow>
     (\<exists>t ks'. ks = keys @ (current @ t) # ks' \<and> current @ t \<noteq> [] \<and> [] \<notin> set ks' \<and> rest = print_path (t # ks'))"

lemma print_path_simps:
  "print_path [k] = escape_key k"
  "print_path (k # k' # ks) = escape_key k @ dot # print_path (k' # ks)"
  by (simp_all add: print_path_def)

lemma print_path_char: "print_path ((c # t) # ks) = escape_key [c] @ print_path (t # ks)"
  by (cases ks) (simp_all add: print_path_simps)

lemma completes_char: "completes keys (current @ [c]) rest ks \<Longrightarrow> completes keys current (escape_key [c] @ rest) ks"
proof -
  assume "completes keys (current @ [c]) rest ks"
  then obtain t ks' where "ks = keys @ (current @ c # t) # ks'" "[] \<notin> set ks'" "rest = print_path (t # ks')"
    by (auto simp: completes_def)
  then show ?thesis unfolding completes_def
    by (intro exI [of _ "c # t"] exI [of _ ks']) (simp add: print_path_char del: escape_key_simps(2))
qed

lemma completes_dot: "current \<noteq> [] \<Longrightarrow> completes (keys @ [current]) [] rest ks \<Longrightarrow> completes keys current (dot # rest) ks"
proof -
  assume "current \<noteq> []" "completes (keys @ [current]) [] rest ks"
  then obtain t ks' where "ks = keys @ current # t # ks'" "t \<noteq> []" "[] \<notin> set ks'" "rest = print_path (t # ks')"
    by (auto simp: completes_def)
  then show ?thesis using \<open>current \<noteq> []\<close> unfolding completes_def
    by (intro exI [of _ "[]"] exI [of _ "t # ks'"]) (simp add: print_path_simps)
qed

lemma parse_loop_completes: "parse_loop keys current rest = Ok ks \<Longrightarrow> completes keys current rest ks"
proof (induction keys current rest rule: parse_loop.induct)
  case (1 keys current)
  then show ?case
    by (auto simp: completes_def print_path_simps split: if_splits intro!: exI [of _ "[]"])
next
  case (2 keys current c cs)
  consider d ds where "c = backslash" "cs = d # ds" "d = dot \<or> d = backslash"
      "parse_loop keys (current @ [d]) ds = Ok ks"
    | "c = dot" "current \<noteq> []" "parse_loop (keys @ [current]) [] cs = Ok ks"
    | "c \<noteq> dot" "c \<noteq> backslash" "parse_loop keys (current @ [c]) cs = Ok ks"
    using "2.prems" by (auto split: if_splits list.splits)
  then show ?case
  proof cases
    case 1
    then have "completes keys (current @ [d]) ds ks" using "2.IH"(1,2) by auto
    then show ?thesis using completes_char [of keys current d ds ks] 1 by auto
  next
    case 2
    then show ?thesis using "2.IH"(3) completes_dot by auto
  next
    case 3
    then have "completes keys (current @ [c]) cs ks" using "2.IH"(4) by auto
    then show ?thesis using completes_char [of keys current c cs ks] 3 by auto
  qed
qed

lemma print_path_nonempty: "ks \<noteq> [] \<Longrightarrow> [] \<notin> set ks \<Longrightarrow> print_path ks \<noteq> []"
  by (cases ks; cases "tl ks") (auto simp: print_path_simps)

text \<open>
  The notation of claim paths is exact: a string parses as a path iff it is the notation of
  that path, a non-empty list of non-empty keys with dots and backslashes escaped. So every such
  path can be written, in exactly one way, and nothing else parses.
\<close>

theorem claim_path_parse_iff:
  "claim_path_parse raw = Ok ks \<longleftrightarrow> ks \<noteq> [] \<and> [] \<notin> set ks \<and> raw = print_path ks"
proof
  assume ok: "claim_path_parse raw = Ok ks"
  then have "parse_loop [] [] raw = Ok ks" by (simp add: claim_path_parse_def split: if_splits)
  from parse_loop_completes [OF this] show "ks \<noteq> [] \<and> [] \<notin> set ks \<and> raw = print_path ks"
    by (auto simp: completes_def)
next
  assume ks: "ks \<noteq> [] \<and> [] \<notin> set ks \<and> raw = print_path ks"
  then show "claim_path_parse raw = Ok ks"
    using print_path_nonempty [of ks] parse_printed [of ks "[]"] by (simp add: claim_path_parse_def)
qed

end
