(* ===== verification/Oidc_Server.thy ===== *)
theory Oidc_Server
  imports Claim_Path
begin

text \<open>
  Verification of bearer tokens in front of a server: \<open>server/mod.rs\<close>, \<open>jwks.rs\<close>, \<open>types.rs\<close>
  and \<open>lib.rs\<close> of the OIDC crate.

  What lies outside the crate is the record \<open>oidc_env\<close>: reading a URL, a GET that returns JSON,
  making a key of its components, \<open>jsonwebtoken\<close>'s \<open>decode_header\<close> and \<open>decode\<close>, decoding the
  payload part of a token, the clock before and after a fetch, and what other tasks do to the
  issuer's cache while this one waits for the refetch gate. A decoding key is the type
  parameter \<open>'k\<close>; times are in nanoseconds.
\<close>

section \<open>Configuration\<close>

datatype audience_policy = Require string | RequireAny "string list" | Unchecked

datatype oidc_config_error =
    InsecureIssuer string
  | MissingField string
  | EmptyAlgorithms
  | InvalidJwksUri string
  | InvalidFlow string
  | CookieTooLarge nat
  | DuplicateIssuer string
  | InvalidClaimPath claim_path_error
  | InvalidJwks string
  | ShortSessionSecret nat

record url =
  url_scheme :: string
  url_host :: "string option"
  url_port :: "nat option"
  url_path :: string

record 'k jwk =
  jwk_is_octet :: bool
  jwk_key_id :: "string option"
  jwk_decoding :: "string + 'k"

type_synonym algorithm = string

record 'k oidc_validation_config =
  cfg_issuer_url :: string
  cfg_audience :: audience_policy
  cfg_jwks_uri :: "string option"
  cfg_algorithms :: "algorithm list"
  cfg_jwks_ttl :: nat
  cfg_clock_skew :: nat
  cfg_min_refetch_interval :: nat
  cfg_static_jwks :: "'k jwk list option"
  cfg_roles_claim_path :: string
  cfg_groups_claim_path :: "string option"

definition seconds :: "nat \<Rightarrow> nat" where "seconds s = s * 10 ^ 9"

definition oidc_validation_config_new :: "string \<Rightarrow> audience_policy \<Rightarrow> 'k oidc_validation_config" where
  "oidc_validation_config_new issuer_url audience =
     \<lparr> cfg_issuer_url = issuer_url, cfg_audience = audience, cfg_jwks_uri = None,
       cfg_algorithms = [''RS256''], cfg_jwks_ttl = seconds 300, cfg_clock_skew = seconds 60,
       cfg_min_refetch_interval = seconds 60, cfg_static_jwks = None,
       cfg_roles_claim_path = ''realm_access.roles'', cfg_groups_claim_path = None \<rparr>"

definition is_loopback :: "string \<Rightarrow> bool" where
  "is_loopback host \<longleftrightarrow> host = ''127.0.0.1'' \<or> host = ''localhost'' \<or> host = ''[::1]''"

definition secure_scheme :: "url \<Rightarrow> bool" where
  "secure_scheme u \<longleftrightarrow>
     url_scheme u = ''https'' \<or>
     (url_scheme u = ''http'' \<and> is_loopback (case url_host u of Some h \<Rightarrow> h | None \<Rightarrow> []))"

definition lower :: "string \<Rightarrow> string" where
  "lower s = map (\<lambda>c. let n = (of_char c :: nat) in if 65 \<le> n \<and> n \<le> 90 then char_of (n + 32) else c) s"

definition trim_end_slash :: "string \<Rightarrow> string" where
  "trim_end_slash s = rev (dropWhile (\<lambda>c. c = CHR ''/'') (rev s))"

definition normalize_issuer :: "(string \<Rightarrow> string + url) \<Rightarrow> string \<Rightarrow> oidc_config_error + string" where
  "normalize_issuer url_parse raw =
     (case url_parse raw of
        Err e \<Rightarrow> Err (InsecureIssuer (raw @ '': '' @ e))
      | Ok u \<Rightarrow>
          if \<not> secure_scheme u then Err (InsecureIssuer raw)
          else
            (let scheme = lower (url_scheme u);
                 host = lower (case url_host u of Some h \<Rightarrow> h | None \<Rightarrow> []);
                 authority =
                   (case url_port u of
                      None \<Rightarrow> host
                    | Some p \<Rightarrow>
                        if (p = 443 \<and> scheme = ''https'') \<or> (p = 80 \<and> scheme = ''http'') then host
                        else host @ '':'' @ nat_dec p);
                 path = trim_end_slash (url_path u)
             in Ok (scheme @ ''://'' @ authority @ path)))"

definition validate_jwks_uri :: "(string \<Rightarrow> string + url) \<Rightarrow> string \<Rightarrow> oidc_config_error + unit" where
  "validate_jwks_uri url_parse uri =
     (case url_parse uri of
        Err e \<Rightarrow> Err (InvalidJwksUri (uri @ '': '' @ e))
      | Ok u \<Rightarrow>
          if url_scheme u = ''http'' \<and> \<not> is_loopback (case url_host u of Some h \<Rightarrow> h | None \<Rightarrow> [])
          then Err (InvalidJwksUri (''insecure JWKS URI (non-loopback http): '' @ uri))
          else if \<not> secure_scheme u then Err (InvalidJwksUri (''unsupported scheme in JWKS URI: '' @ uri))
          else Ok ())"

section \<open>Tokens and keys\<close>

datatype jwt_error =
    MissingRequiredClaim string
  | ExpiredSignature
  | ImmatureSignature
  | JwtInvalidSignature
  | JwtInvalidIssuer
  | JwtInvalidAudience
  | JwtInvalidAlgorithm
  | OtherJwtError

record jwt_header =
  hdr_alg :: algorithm
  hdr_kid :: "string option"

text \<open>The settings of \<open>jsonwebtoken::Validation\<close> the code makes.\<close>

record validation =
  val_algorithm :: algorithm
  val_issuers :: "string list"
  val_required_claims :: "string list"
  val_audience :: "string list option"
  val_leeway :: nat

record 'k jwks_cache =
  cache_keys :: "(string option \<times> 'k) list"
  fetched_at :: "nat option"

record oidc_discovery =
  disc_jwks_uri :: string
  disc_token_endpoint :: string
  disc_end_session_endpoint :: "string option"

record 'k issuer_state =
  is_issuer_url :: string
  is_cfg :: "'k oidc_validation_config"
  is_roles_path :: "string list"
  is_groups_path :: "string list option"
  is_static_keys :: "(string option \<times> 'k) list option"
  is_jwks_cache :: "'k jwks_cache"
  is_discovery :: "oidc_discovery option"
  is_last_forced_refetch :: "nat option"

record 'k oidc_env =
  env_url_parse :: "string \<Rightarrow> string + url"
  env_get_json :: "string \<Rightarrow> string + json"
  env_rsa_key :: "string \<Rightarrow> string \<Rightarrow> string + 'k"
  env_ec_key :: "string \<Rightarrow> string \<Rightarrow> string + 'k"
  env_decode_header :: "string \<Rightarrow> jwt_header option"
  env_decode :: "string \<Rightarrow> 'k \<Rightarrow> validation \<Rightarrow> jwt_error + json"
  env_decode_payload :: "string \<Rightarrow> json option"
  env_now :: nat
  env_now_fetched :: nat
  env_gate_wait :: "'k issuer_state \<Rightarrow> 'k issuer_state"

datatype 'k key_result = Keys "'k list" | Unavailable | UnknownKid

definition jwks_cache_empty :: "'k jwks_cache" where
  "jwks_cache_empty = \<lparr> cache_keys = [], fetched_at = None \<rparr>"

definition is_fresh :: "nat \<Rightarrow> 'k jwks_cache \<Rightarrow> nat \<Rightarrow> bool" where
  "is_fresh now c ttl = (case fetched_at c of None \<Rightarrow> False | Some t \<Rightarrow> now - t < ttl)"

definition filter_keys :: "(string option \<times> 'k) list \<Rightarrow> string option \<Rightarrow> 'k key_result" where
  "filter_keys all kid =
     (if all = [] then Unavailable
      else case kid of
        Some k \<Rightarrow>
          (let matching = map snd (filter (\<lambda>(i, _). i = Some k) all)
           in if matching = [] then UnknownKid else Keys matching)
      | None \<Rightarrow> if length all = 1 then Keys (map snd all) else UnknownKid)"

definition fetch_discovery :: "'k oidc_env \<Rightarrow> string \<Rightarrow> string + oidc_discovery" where
  "fetch_discovery env issuer_url =
     and_then (env_get_json env (issuer_url @ ''/.well-known/openid-configuration'')) (\<lambda>doc.
     case as_str (json_index doc ''issuer'') of
       None \<Rightarrow> Err ''missing issuer in discovery doc''
     | Some discovered \<Rightarrow>
     (case (normalize_issuer (env_url_parse env) issuer_url, normalize_issuer (env_url_parse env) discovered) of
        (Ok configured, Ok found) \<Rightarrow>
          if configured \<noteq> found then Err ''discovery issuer mismatch''
          else
            (case as_str (json_index doc ''jwks_uri'') of
               None \<Rightarrow> Err ''missing jwks_uri in discovery doc''
             | Some uri \<Rightarrow>
                 (case validate_jwks_uri (env_url_parse env) uri of
                    Err _ \<Rightarrow> Err ''invalid jwks_uri''
                  | Ok _ \<Rightarrow>
                      (case as_str (json_index doc ''token_endpoint'') of
                         None \<Rightarrow> Err ''missing token_endpoint in discovery doc''
                       | Some token_endpoint \<Rightarrow>
                           Ok \<lparr> disc_jwks_uri = uri, disc_token_endpoint = token_endpoint,
                                disc_end_session_endpoint = as_str (json_index doc ''end_session_endpoint'') \<rparr>)))
      | _ \<Rightarrow> Err ''invalid issuer''))"

definition or_empty :: "string option \<Rightarrow> string" where
  "or_empty s = (case s of Some x \<Rightarrow> x | None \<Rightarrow> [])"

definition jwk_entry :: "'k oidc_env \<Rightarrow> json \<Rightarrow> string + (string option \<times> 'k) option" where
  "jwk_entry env jwk =
     (let kid = as_str (json_index jwk ''kid''); kty = or_empty (as_str (json_index jwk ''kty''));
          part = (\<lambda>n. or_empty (as_str (json_index jwk n)))
      in if kty = ''RSA'' then and_then (env_rsa_key env (part ''n'') (part ''e'')) (\<lambda>key. Ok (Some (kid, key)))
         else if kty = ''EC'' then and_then (env_ec_key env (part ''x'') (part ''y'')) (\<lambda>key. Ok (Some (kid, key)))
         else Ok None)"

definition fetch_jwks :: "'k oidc_env \<Rightarrow> string \<Rightarrow> string + (string option \<times> 'k) list" where
  "fetch_jwks env jwks_uri =
     and_then (env_get_json env jwks_uri) (\<lambda>doc.
       case as_array (json_index doc ''keys'') of
         None \<Rightarrow> Err ''missing keys array''
       | Some keys_arr \<Rightarrow>
           and_then (collect_results (jwk_entry env) keys_arr) (\<lambda>entries. Ok (List.map_filter id entries)))"

section \<open>One issuer\<close>

definition static_decoding_keys ::
  "string \<Rightarrow> 'k jwk list \<Rightarrow> oidc_config_error + (string option \<times> 'k) list" where
  "static_decoding_keys issuer set' =
     (if set' = [] then Err (InvalidJwks (issuer @ '': static_jwks has no keys''))
      else collect_results (\<lambda>jwk.
        if jwk_is_octet jwk then Err (InvalidJwks (issuer @ '': symmetric (oct) keys are not accepted''))
        else and_then (map_err (\<lambda>e. InvalidJwks (issuer @ '': '' @ e)) (jwk_decoding jwk))
               (\<lambda>key. Ok (jwk_key_id jwk, key))) set')"

definition issuer_build :: "'k oidc_env \<Rightarrow> 'k oidc_validation_config \<Rightarrow> oidc_config_error + 'k issuer_state" where
  "issuer_build env cfg =
     and_then (normalize_issuer (env_url_parse env) (cfg_issuer_url cfg)) (\<lambda>normalized.
     if cfg_algorithms cfg = [] then Err EmptyAlgorithms
     else
     and_then (case cfg_jwks_uri cfg of
                 None \<Rightarrow> Ok ()
               | Some uri \<Rightarrow>
                   (case env_url_parse env uri of
                      Err e \<Rightarrow> Err (InvalidJwksUri (uri @ '': '' @ e))
                    | Ok parsed \<Rightarrow>
                        if secure_scheme parsed then Ok () else Err (InvalidJwksUri (''insecure URI: '' @ uri)))) (\<lambda>_.
     and_then (case cfg_static_jwks cfg of
                 None \<Rightarrow> Ok None
               | Some set' \<Rightarrow>
                   if cfg_jwks_uri cfg \<noteq> None
                   then Err (InvalidJwks (normalized @ '': static_jwks and jwks_uri are mutually exclusive''))
                   else and_then (static_decoding_keys normalized set') (\<lambda>ks. Ok (Some ks))) (\<lambda>static_keys.
     and_then (map_err InvalidClaimPath (claim_path_parse (cfg_roles_claim_path cfg))) (\<lambda>roles_path.
     and_then (case cfg_groups_claim_path cfg of
                 None \<Rightarrow> Ok None
               | Some p \<Rightarrow> and_then (map_err InvalidClaimPath (claim_path_parse p)) (\<lambda>g. Ok (Some g))) (\<lambda>groups_path.
       Ok \<lparr> is_issuer_url = normalized, is_cfg = cfg, is_roles_path = roles_path, is_groups_path = groups_path,
            is_static_keys = static_keys, is_jwks_cache = jwks_cache_empty, is_discovery = None,
            is_last_forced_refetch = None \<rparr>)))))"

definition get_jwks_uri :: "'k oidc_env \<Rightarrow> 'k issuer_state \<Rightarrow> (string + string) \<times> 'k issuer_state" where
  "get_jwks_uri env i =
     (case cfg_jwks_uri (is_cfg i) of
        Some uri \<Rightarrow> (Ok uri, i)
      | None \<Rightarrow>
          (case is_discovery i of
             Some d \<Rightarrow> (Ok (disc_jwks_uri d), i)
           | None \<Rightarrow>
               (case fetch_discovery env (is_issuer_url i) of
                  Err e \<Rightarrow> (Err e, i)
                | Ok d \<Rightarrow> (Ok (disc_jwks_uri d), i \<lparr> is_discovery := Some d \<rparr>))))"

text \<open>The keys of a fresh cache that can serve the key identifier.\<close>

definition fresh_result :: "'k oidc_env \<Rightarrow> 'k issuer_state \<Rightarrow> string option \<Rightarrow> 'k key_result option" where
  "fresh_result env i kid =
     (if is_fresh (env_now env) (is_jwks_cache i) (cfg_jwks_ttl (is_cfg i)) then
        (case filter_keys (cache_keys (is_jwks_cache i)) kid of UnknownKid \<Rightarrow> None | r \<Rightarrow> Some r)
      else None)"

definition cached_result :: "'k issuer_state \<Rightarrow> string option \<Rightarrow> 'k key_result" where
  "cached_result i kid =
     (if cache_keys (is_jwks_cache i) = [] then Unavailable else filter_keys (cache_keys (is_jwks_cache i)) kid)"

definition rate_limited :: "'k oidc_env \<Rightarrow> 'k issuer_state \<Rightarrow> bool" where
  "rate_limited env i =
     (case is_last_forced_refetch i of
        None \<Rightarrow> False
      | Some t \<Rightarrow> env_now env - t < cfg_min_refetch_interval (is_cfg i))"

definition get_decoding_keys ::
  "'k oidc_env \<Rightarrow> 'k issuer_state \<Rightarrow> string option \<Rightarrow> 'k key_result \<times> 'k issuer_state" where
  "get_decoding_keys env i kid =
     (case is_static_keys i of
        Some keys \<Rightarrow> (filter_keys keys kid, i)
      | None \<Rightarrow>
     (case fresh_result env i kid of
        Some r \<Rightarrow> (r, i)
      | None \<Rightarrow>
     (let i1 = env_gate_wait env i
      in case fresh_result env i1 kid of
        Some r \<Rightarrow> (r, i1)
      | None \<Rightarrow>
     (case get_jwks_uri env i1 of
        (Err _, i2) \<Rightarrow> (cached_result i2 kid, i2)
      | (Ok uri, i2) \<Rightarrow>
          if rate_limited env i2 then (cached_result i2 kid, i2)
          else
            (case fetch_jwks env uri of
               Ok keys \<Rightarrow>
                 (filter_keys keys kid,
                  i2 \<lparr> is_jwks_cache := \<lparr> cache_keys = keys, fetched_at = Some (env_now_fetched env) \<rparr>,
                       is_last_forced_refetch := Some (env_now_fetched env) \<rparr>)
             | Err _ \<Rightarrow> (cached_result i2 kid, i2))))))"

section \<open>Claims\<close>

datatype token_rejection =
    Undecodable
  | UnsupportedAlgorithm
  | UnknownKey
  | Malformed
  | Expired
  | NotYetValid
  | InvalidSignature
  | InvalidIssuer
  | InvalidAudience
  | UnknownIssuer

record oidc_claims =
  oc_sub :: string
  oc_iss :: string
  oc_aud :: "string list"
  oc_exp :: i64
  oc_iat :: "i64 option"
  oc_nbf :: "i64 option"
  oc_preferred_username :: "string option"
  oc_email :: "string option"
  oc_scopes :: "string list"
  oc_roles :: "string list"
  oc_groups :: "string list"
  oc_raw :: json

fun jwt_err_to_rejection :: "jwt_error \<Rightarrow> token_rejection" where
  "jwt_err_to_rejection (MissingRequiredClaim c) =
     (if c = ''iss'' then InvalidIssuer else if c = ''aud'' then InvalidAudience else Malformed)"
| "jwt_err_to_rejection ExpiredSignature = Expired"
| "jwt_err_to_rejection ImmatureSignature = NotYetValid"
| "jwt_err_to_rejection JwtInvalidSignature = InvalidSignature"
| "jwt_err_to_rejection JwtInvalidIssuer = InvalidIssuer"
| "jwt_err_to_rejection JwtInvalidAudience = InvalidAudience"
| "jwt_err_to_rejection JwtInvalidAlgorithm = UnsupportedAlgorithm"
| "jwt_err_to_rejection OtherJwtError = Malformed"

definition REQUIRED_SPEC_CLAIMS :: "string list" where
  "REQUIRED_SPEC_CLAIMS = [''exp'', ''iss'']"

fun apply_audience_policy :: "audience_policy \<Rightarrow> validation \<Rightarrow> validation" where
  "apply_audience_policy (Require aud) v =
     v \<lparr> val_audience := Some [aud], val_required_claims := val_required_claims v @ [''aud''] \<rparr>"
| "apply_audience_policy (RequireAny auds) v =
     v \<lparr> val_audience := Some auds, val_required_claims := val_required_claims v @ [''aud''] \<rparr>"
| "apply_audience_policy Unchecked v = v \<lparr> val_audience := None \<rparr>"

definition validation_for :: "'k issuer_state \<Rightarrow> algorithm \<Rightarrow> validation" where
  "validation_for i alg =
     (apply_audience_policy (cfg_audience (is_cfg i))
        \<lparr> val_algorithm = alg, val_issuers = [is_issuer_url i],
          val_required_claims = REQUIRED_SPEC_CLAIMS, val_audience = Some [], val_leeway = 60 \<rparr>)
      \<lparr> val_leeway := cfg_clock_skew (is_cfg i) div 10 ^ 9 \<rparr>"

definition strings_of :: "json \<Rightarrow> string list" where
  "strings_of v = (case v of JStr s \<Rightarrow> [s] | JArr arr \<Rightarrow> List.map_filter as_str arr | _ \<Rightarrow> [])"

definition claims_scopes :: "json \<Rightarrow> string list" where
  "claims_scopes claims =
     (case as_str (json_index claims ''scope'') of
        Some s \<Rightarrow> split_whitespace s
      | None \<Rightarrow>
          (case as_array (json_index claims ''scp'') of
             Some arr \<Rightarrow> List.map_filter as_str arr
           | None \<Rightarrow> []))"

definition claims_of :: "'k issuer_state \<Rightarrow> json \<Rightarrow> token_rejection + oidc_claims" where
  "claims_of i claims =
     (case as_str (json_index claims ''sub'') of
        None \<Rightarrow> Err Malformed
      | Some sub \<Rightarrow>
     (case as_str (json_index claims ''iss'') of
        None \<Rightarrow> Err InvalidIssuer
      | Some iss \<Rightarrow>
          Ok \<lparr> oc_sub = sub, oc_iss = iss, oc_aud = strings_of (json_index claims ''aud''),
               oc_exp = (case as_i64 (json_index claims ''exp'') of Some e \<Rightarrow> e | None \<Rightarrow> 0),
               oc_iat = as_i64 (json_index claims ''iat''), oc_nbf = as_i64 (json_index claims ''nbf''),
               oc_preferred_username = as_str (json_index claims ''preferred_username''),
               oc_email = as_str (json_index claims ''email''),
               oc_scopes = claims_scopes claims, oc_roles = claim_strings (is_roles_path i) claims,
               oc_groups = (case is_groups_path i of Some p \<Rightarrow> claim_strings p claims | None \<Rightarrow> []),
               oc_raw = claims \<rparr>))"

definition try_validate_jwt ::
  "'k oidc_env \<Rightarrow> string \<Rightarrow> 'k \<Rightarrow> algorithm \<Rightarrow> 'k issuer_state \<Rightarrow> token_rejection + oidc_claims" where
  "try_validate_jwt env token key alg i =
     and_then (map_err jwt_err_to_rejection (env_decode env token key (validation_for i alg))) (claims_of i)"

section \<open>The validator\<close>

datatype oidc_validation_error =
    MissingToken
  | MalformedAuthorization
  | InvalidToken token_rejection
  | JwksUnavailable

text \<open>The loop over the keys; \<open>None\<close> is the \<open>unreachable!\<close> of an empty list.\<close>

fun try_keys ::
  "'k oidc_env \<Rightarrow> string \<Rightarrow> algorithm \<Rightarrow> 'k issuer_state \<Rightarrow> 'k list \<Rightarrow> token_rejection option \<Rightarrow>
   (token_rejection + oidc_claims) option" where
  "try_keys env token alg i [] last_rejection = map_option Err last_rejection"
| "try_keys env token alg i (key # keys) last_rejection =
     (case try_validate_jwt env token key alg i of
        Ok claims \<Rightarrow> Some (Ok claims)
      | Err r \<Rightarrow> try_keys env token alg i keys (Some r))"

definition issuer_validate ::
  "'k oidc_env \<Rightarrow> 'k issuer_state \<Rightarrow> string \<Rightarrow> jwt_header \<Rightarrow>
   (oidc_validation_error + oidc_claims) option \<times> 'k issuer_state" where
  "issuer_validate env i token header =
     (if hdr_alg header \<notin> set (cfg_algorithms (is_cfg i)) then (Some (Err (InvalidToken UnsupportedAlgorithm)), i)
      else case get_decoding_keys env i (hdr_kid header) of
        (Unavailable, i') \<Rightarrow> (Some (Err JwksUnavailable), i')
      | (UnknownKid, i') \<Rightarrow> (Some (Err (InvalidToken UnknownKey)), i')
      | (Keys keys, i') \<Rightarrow>
          (map_option (map_err InvalidToken) (try_keys env token (hdr_alg header) i' keys None), i'))"

record 'k oidc_validator =
  issuers :: "'k issuer_state list"
  select_by_iss :: bool

definition validator_new :: "'k oidc_env \<Rightarrow> 'k oidc_validation_config \<Rightarrow> oidc_config_error + 'k oidc_validator" where
  "validator_new env cfg =
     and_then (issuer_build env cfg) (\<lambda>i. Ok \<lparr> issuers = [i], select_by_iss = False \<rparr>)"

definition push_issuer ::
  "'k oidc_env \<Rightarrow> 'k oidc_validation_config \<Rightarrow> 'k issuer_state list \<Rightarrow> oidc_config_error + 'k issuer_state list" where
  "push_issuer env cfg is =
     and_then (issuer_build env cfg) (\<lambda>i.
       if list_ex (\<lambda>j. is_issuer_url j = is_issuer_url i) is then Err (DuplicateIssuer (is_issuer_url i))
       else Ok (is @ [i]))"

definition validator_new_multi ::
  "'k oidc_env \<Rightarrow> 'k oidc_validation_config list \<Rightarrow> oidc_config_error + 'k oidc_validator" where
  "validator_new_multi env cfgs =
     and_then (fold_results (push_issuer env) cfgs []) (\<lambda>is.
       if is = [] then Err (MissingField ''issuers'') else Ok \<lparr> issuers = is, select_by_iss = True \<rparr>)"

definition unverified_issuer :: "'k oidc_env \<Rightarrow> string \<Rightarrow> unit + string option" where
  "unverified_issuer env token =
     (let parts = str_split CHR ''.'' token
      in if length parts \<le> 1 then Err ()
         else case env_decode_payload env (parts ! 1) of
           None \<Rightarrow> Err ()
         | Some claims \<Rightarrow> Ok (Option.bind (json_get claims ''iss'') as_str))"

text \<open>The issuer that verifies the token, by its position.\<close>

definition choose_issuer :: "'k oidc_env \<Rightarrow> 'k oidc_validator \<Rightarrow> string \<Rightarrow> token_rejection + nat" where
  "choose_issuer env v token =
     (if select_by_iss v then
        (case unverified_issuer env token of
           Err _ \<Rightarrow> Err Malformed
         | Ok None \<Rightarrow> Err UnknownIssuer
         | Ok (Some iss) \<Rightarrow>
             (case find (\<lambda>n. is_issuer_url (issuers v ! n) = iss) [0..<length (issuers v)] of
                None \<Rightarrow> Err UnknownIssuer
              | Some n \<Rightarrow> Ok n))
      else Ok 0)"

type_synonym 'k verdict = "((oidc_validation_error \<times> nat) + oidc_claims) option \<times> 'k oidc_validator"

definition fallback_interval :: "'k oidc_validator \<Rightarrow> nat" where
  "fallback_interval v = cfg_min_refetch_interval (is_cfg (issuers v ! 0))"

definition validate_inner :: "'k oidc_env \<Rightarrow> 'k oidc_validator \<Rightarrow> string \<Rightarrow> 'k verdict" where
  "validate_inner env v token =
     (let reject = (\<lambda>r. (Some (Err (InvalidToken r, fallback_interval v)), v))
      in case env_decode_header env token of
           None \<Rightarrow> reject Undecodable
         | Some header \<Rightarrow>
             (case choose_issuer env v token of
                Err r \<Rightarrow> reject r
              | Ok n \<Rightarrow>
                  (case issuer_validate env (issuers v ! n) token header of
                     (res, i') \<Rightarrow>
                       (map_option (map_err (\<lambda>e. (e, cfg_min_refetch_interval (is_cfg (issuers v ! n))))) res,
                        v \<lparr> issuers := (issuers v)[n := i'] \<rparr>))))"

text \<open>
  Slicing at byte 7 panics inside a multi-byte character: the byte there continues one.
\<close>

definition char_boundary :: "string \<Rightarrow> nat \<Rightarrow> bool" where
  "char_boundary s n \<longleftrightarrow>
     n = length s \<or> (n < length s \<and> \<not> (128 \<le> (of_char (s ! n) :: nat) \<and> (of_char (s ! n) :: nat) < 192))"

definition authorize_inner :: "'k oidc_env \<Rightarrow> 'k oidc_validator \<Rightarrow> string option \<Rightarrow> 'k verdict" where
  "authorize_inner env v authorization =
     (case authorization of
        None \<Rightarrow> (Some (Err (MissingToken, fallback_interval v)), v)
      | Some s \<Rightarrow>
          if length s \<le> 7 then (Some (Err (MalformedAuthorization, fallback_interval v)), v)
          else if \<not> char_boundary s 7 then (None, v)
          else if lower (take 7 s) \<noteq> ''bearer '' then (Some (Err (MalformedAuthorization, fallback_interval v)), v)
          else validate_inner env v (drop 7 s))"

section \<open>The layer\<close>

record http_response =
  http_status :: nat
  http_headers :: "(string \<times> string) list"
  http_body :: string

fun rejection_wire_string :: "token_rejection \<Rightarrow> string option" where
  "rejection_wire_string Undecodable = None"
| "rejection_wire_string UnsupportedAlgorithm = Some ''unsupported_algorithm''"
| "rejection_wire_string UnknownKey = Some ''unknown_key''"
| "rejection_wire_string Malformed = Some ''malformed_token''"
| "rejection_wire_string Expired = Some ''expired''"
| "rejection_wire_string NotYetValid = Some ''not_yet_valid''"
| "rejection_wire_string InvalidSignature = Some ''invalid_signature''"
| "rejection_wire_string InvalidIssuer = Some ''invalid_issuer''"
| "rejection_wire_string InvalidAudience = Some ''invalid_audience''"
| "rejection_wire_string UnknownIssuer = Some ''unknown_issuer''"

abbreviation quote :: string where "quote \<equiv> [CHR 0x22]"

definition unauthorized :: "string \<Rightarrow> http_response" where
  "unauthorized challenge =
     \<lparr> http_status = 401, http_headers = [(''www-authenticate'', challenge)], http_body = [] \<rparr>"

fun error_to_response :: "oidc_validation_error \<Rightarrow> nat \<Rightarrow> http_response option" where
  "error_to_response MissingToken retry_after = Some (unauthorized ''Bearer'')"
| "error_to_response MalformedAuthorization retry_after =
     Some (unauthorized (''Bearer error='' @ quote @ ''invalid_request'' @ quote))"
| "error_to_response (InvalidToken rejection) retry_after =
     (if rejection = Undecodable
      then Some (unauthorized (''Bearer error='' @ quote @ ''invalid_token'' @ quote))
      else map_option (\<lambda>desc. unauthorized
             (''Bearer error='' @ quote @ ''invalid_token'' @ quote @
              '', error_description='' @ quote @ desc @ quote)) (rejection_wire_string rejection))"
| "error_to_response JwksUnavailable retry_after =
     Some \<lparr> http_status = 503, http_headers = [(''retry-after'', nat_dec (retry_after div 10 ^ 9))],
            http_body = ''JWKS unavailable'' \<rparr>"

text \<open>
  \<open>OidcValidationService::call\<close>: a header that is not text is an empty one.
\<close>

definition oidc_call ::
  "'k oidc_env \<Rightarrow> (oidc_claims \<Rightarrow> http_response) \<Rightarrow> 'k oidc_validator \<Rightarrow> string option option \<Rightarrow>
   http_response option \<times> 'k oidc_validator" where
  "oidc_call env inner v header =
     (let auth = map_option or_empty header
      in case authorize_inner env v auth of
           (None, v') \<Rightarrow> (None, v')
         | (Some (Ok claims), v') \<Rightarrow> (Some (inner claims), v')
         | (Some (Err (e, retry_after)), v') \<Rightarrow> (error_to_response e retry_after, v'))"

section \<open>Keys stay with their issuer\<close>

text \<open>
  \<open>P u k\<close> says that \<open>k\<close> is a key of the issuer \<open>u\<close>. An issuer holds only its own keys, inline or
  cached; other tasks keep it so and do not change what was configured; and what its key set
  endpoint returns are its keys.
\<close>

definition holds_own_keys :: "(string \<Rightarrow> 'k \<Rightarrow> bool) \<Rightarrow> 'k issuer_state \<Rightarrow> bool" where
  "holds_own_keys P i \<longleftrightarrow>
     (\<forall>e \<in> set (cache_keys (is_jwks_cache i)). P (is_issuer_url i) (snd e)) \<and>
     (\<forall>ks. is_static_keys i = Some ks \<longrightarrow> (\<forall>e \<in> set ks. P (is_issuer_url i) (snd e)))"

definition same_config :: "'k issuer_state \<Rightarrow> 'k issuer_state \<Rightarrow> bool" where
  "same_config i j \<longleftrightarrow>
     is_issuer_url j = is_issuer_url i \<and> is_cfg j = is_cfg i \<and> is_static_keys j = is_static_keys i \<and>
     is_roles_path j = is_roles_path i \<and> is_groups_path j = is_groups_path i"

definition env_trusted :: "(string \<Rightarrow> 'k \<Rightarrow> bool) \<Rightarrow> 'k oidc_env \<Rightarrow> bool" where
  "env_trusted P env \<longleftrightarrow>
     (\<forall>i. same_config i (env_gate_wait env i) \<and>
        (holds_own_keys P i \<longrightarrow> holds_own_keys P (env_gate_wait env i))) \<and>
     (\<forall>i uri i' keys. get_jwks_uri env i = (Ok uri, i') \<and> fetch_jwks env uri = Ok keys \<longrightarrow>
        (\<forall>e \<in> set keys. P (is_issuer_url i) (snd e)))"

lemma same_config_refl [simp]: "same_config i i"
  by (simp add: same_config_def)

lemma same_config_trans: "same_config i j \<Longrightarrow> same_config j k \<Longrightarrow> same_config i k"
  by (simp add: same_config_def)

lemma filter_keys_Keys: "filter_keys all kid = Keys ks \<Longrightarrow> ks \<noteq> [] \<and> set ks \<subseteq> snd ` set all"
  by (auto simp: filter_keys_def Let_def split: if_splits option.splits)

lemma get_jwks_uri_keeps:
  assumes "get_jwks_uri env i = (r, i')"
  shows "same_config i i'" "holds_own_keys P i' = holds_own_keys P i"
    "is_jwks_cache i' = is_jwks_cache i" "is_last_forced_refetch i' = is_last_forced_refetch i"
proof -
  have "i' = i \<or> (\<exists>d. i' = i \<lparr> is_discovery := Some d \<rparr>)"
    using assms by (auto simp: get_jwks_uri_def split: option.splits sum.splits)
  then show "same_config i i'" "holds_own_keys P i' = holds_own_keys P i"
    "is_jwks_cache i' = is_jwks_cache i" "is_last_forced_refetch i' = is_last_forced_refetch i"
    by (elim disjE exE; simp add: same_config_def holds_own_keys_def)+
qed

lemma fresh_result_keys:
  "fresh_result env i kid = Some (Keys ks) \<Longrightarrow> ks \<noteq> [] \<and> set ks \<subseteq> snd ` set (cache_keys (is_jwks_cache i))"
  by (auto simp: fresh_result_def dest!: filter_keys_Keys split: if_splits key_result.splits)

lemma cached_result_keys:
  "cached_result i kid = Keys ks \<Longrightarrow> ks \<noteq> [] \<and> set ks \<subseteq> snd ` set (cache_keys (is_jwks_cache i))"
  by (auto simp: cached_result_def dest!: filter_keys_Keys split: if_splits)

lemma own_cached: "holds_own_keys P i \<Longrightarrow> set ks \<subseteq> snd ` set (cache_keys (is_jwks_cache i)) \<Longrightarrow> k \<in> set ks \<Longrightarrow> P (is_issuer_url i) k"
  by (auto simp: holds_own_keys_def)

lemma own_fresh:
  "holds_own_keys P i \<Longrightarrow> fresh_result env i kid = Some (Keys ks) \<Longrightarrow> ks \<noteq> [] \<and> (\<forall>k \<in> set ks. P (is_issuer_url i) k)"
  using fresh_result_keys own_cached by metis

lemma get_decoding_keys_own:
  assumes env: "env_trusted P env" and own: "holds_own_keys P i" and res: "get_decoding_keys env i kid = (r, i')"
  shows "same_config i i' \<and> holds_own_keys P i' \<and> (\<forall>ks. r = Keys ks \<longrightarrow> ks \<noteq> [] \<and> (\<forall>k \<in> set ks. P (is_issuer_url i) k))"
proof (cases "is_static_keys i")
  case (Some keys)
  then show ?thesis
    using res own by (auto simp: get_decoding_keys_def holds_own_keys_def dest!: filter_keys_Keys)
next
  case static: None
  show ?thesis
  proof (cases "fresh_result env i kid")
    case (Some r')
    then show ?thesis
      using static res own own_fresh [OF own] by (auto simp: get_decoding_keys_def)
  next
    case None
    define i1 where "i1 = env_gate_wait env i"
    have i1: "same_config i i1" "holds_own_keys P i1"
      using env own by (auto simp: env_trusted_def i1_def)
    then have url: "is_issuer_url i1 = is_issuer_url i" by (simp add: same_config_def)
    show ?thesis
    proof (cases "fresh_result env i1 kid")
      case (Some r')
      then show ?thesis
        using static None res i1 url own_fresh [OF i1(2)]
        by (auto simp: get_decoding_keys_def Let_def i1_def [symmetric])
    next
      case None2: None
      obtain u i2 where u: "get_jwks_uri env i1 = (u, i2)" by (cases "get_jwks_uri env i1")
      note keeps = get_jwks_uri_keeps [OF u]
      have i2: "same_config i i2" "holds_own_keys P i2" "is_issuer_url i2 = is_issuer_url i"
        using i1 url keeps(1) keeps(2) [of P] same_config_trans by (auto simp: same_config_def)
      have cached: "ks \<noteq> [] \<and> (\<forall>k \<in> set ks. P (is_issuer_url i) k)" if "cached_result i2 kid = Keys ks" for ks
        using cached_result_keys [OF that] own_cached [OF i2(2)] i2(3) by auto
      have fetched: "\<forall>e \<in> set keys. P (is_issuer_url i) (snd e)" if "u = Ok uri" "fetch_jwks env uri = Ok keys" for uri keys
        using env u that url unfolding env_trusted_def by metis
      have "(r, i') = (cached_result i2 kid, i2) \<or>
          (\<exists>uri keys. u = Ok uri \<and> fetch_jwks env uri = Ok keys \<and> r = filter_keys keys kid \<and>
             i' = i2 \<lparr> is_jwks_cache := \<lparr> cache_keys = keys, fetched_at = Some (env_now_fetched env) \<rparr>,
                       is_last_forced_refetch := Some (env_now_fetched env) \<rparr>)"
        using static None None2 res u
        by (auto simp: get_decoding_keys_def Let_def i1_def [symmetric] split: sum.splits if_splits)
      then show ?thesis
      proof (elim disjE exE conjE)
        assume "(r, i') = (cached_result i2 kid, i2)"
        then show ?thesis using i2 cached by auto
      next
        fix uri keys
        assume "u = Ok uri" "fetch_jwks env uri = Ok keys" and r: "r = filter_keys keys kid"
          and i': "i' = i2 \<lparr> is_jwks_cache := \<lparr> cache_keys = keys, fetched_at = Some (env_now_fetched env) \<rparr>,
                             is_last_forced_refetch := Some (env_now_fetched env) \<rparr>"
        then have keys: "\<forall>e \<in> set keys. P (is_issuer_url i) (snd e)" using fetched by blast
        have "ks \<noteq> [] \<and> (\<forall>k \<in> set ks. P (is_issuer_url i) k)" if "r = Keys ks" for ks
          using filter_keys_Keys [of keys kid ks] r that keys by auto
        moreover have "holds_own_keys P i'" using i2 keys i' by (auto simp: holds_own_keys_def)
        moreover have "same_config i i'" using i2(1) i' by (simp add: same_config_def)
        ultimately show ?thesis by blast
      qed
    qed
  qed
qed

lemma try_keys_Ok:
  "try_keys env token alg i keys l = Some (Ok claims) \<Longrightarrow>
     \<exists>key \<in> set keys. \<exists>raw. env_decode env token key (validation_for i alg) = Ok raw \<and> claims_of i raw = Ok claims"
  by (induction keys arbitrary: l)
    (auto simp: try_validate_jwt_def and_then_Ok_iff split: sum.splits)

lemma val_issuers_for: "val_issuers (validation_for i alg) = [is_issuer_url i]"
  by (cases "cfg_audience (is_cfg i)") (simp_all add: validation_for_def)

lemma same_config_validation:
  "same_config i j \<Longrightarrow> validation_for j alg = validation_for i alg \<and> claims_of j raw = claims_of i raw"
  by (auto simp: same_config_def validation_for_def claims_of_def split: option.split)

text \<open>What it takes to accept a token.\<close>

definition token_verified ::
  "(string \<Rightarrow> 'k \<Rightarrow> bool) \<Rightarrow> 'k oidc_env \<Rightarrow> 'k issuer_state \<Rightarrow> string \<Rightarrow> oidc_claims \<Rightarrow> bool" where
  "token_verified P env i token claims \<longleftrightarrow>
     (\<exists>header key raw. env_decode_header env token = Some header \<and>
        hdr_alg header \<in> set (cfg_algorithms (is_cfg i)) \<and> P (is_issuer_url i) key \<and>
        env_decode env token key (validation_for i (hdr_alg header)) = Ok raw \<and> claims_of i raw = Ok claims)"

text \<open>
  The documented check of the issuer by \<open>jsonwebtoken\<close>: a verified token whose \<open>iss\<close> is a
  string names one of the issuers asked for.
\<close>

definition iss_checked :: "'k oidc_env \<Rightarrow> bool" where
  "iss_checked env \<longleftrightarrow>
     (\<forall>token key val raw iss. env_decode env token key val = Ok raw \<and>
        as_str (json_index raw ''iss'') = Some iss \<longrightarrow> iss \<in> set (val_issuers val))"

lemma issuer_validate_verified:
  assumes "env_trusted P env" "holds_own_keys P i" "env_decode_header env token = Some header"
    and "issuer_validate env i token header = (res, i')"
  shows "same_config i i' \<and> holds_own_keys P i' \<and> (\<forall>claims. res = Some (Ok claims) \<longrightarrow> token_verified P env i token claims)"
proof (cases "hdr_alg header \<in> set (cfg_algorithms (is_cfg i))")
  case False
  then show ?thesis using assms by (auto simp: issuer_validate_def)
next
  case True
  obtain r i1 where r: "get_decoding_keys env i (hdr_kid header) = (r, i1)"
    by (cases "get_decoding_keys env i (hdr_kid header)")
  note own = get_decoding_keys_own [OF assms(1,2) r]
  have i': "i' = i1" using assms(4) True r by (cases r) (auto simp: issuer_validate_def)
  have "token_verified P env i token claims" if ok: "res = Some (Ok claims)" for claims
  proof -
    obtain keys where keys: "r = Keys keys" "try_keys env token (hdr_alg header) i1 keys None = Some (Ok claims)"
      using assms(4) True r ok by (cases r) (auto simp: issuer_validate_def)
    from try_keys_Ok [OF keys(2)] obtain key raw where "key \<in> set keys"
      "env_decode env token key (validation_for i1 (hdr_alg header)) = Ok raw" "claims_of i1 raw = Ok claims" by blast
    then show ?thesis
      using own keys(1) assms(3) True same_config_validation [of i i1] unfolding token_verified_def by auto
  qed
  then show ?thesis using own i' by blast
qed

lemma choose_issuer_Ok:
  assumes "issuers v \<noteq> []" "choose_issuer env v token = Ok n"
  shows "n < length (issuers v) \<and>
    (select_by_iss v \<longrightarrow> unverified_issuer env token = Ok (Some (is_issuer_url (issuers v ! n))))"
proof (cases "select_by_iss v")
  case False
  then show ?thesis using assms by (simp add: choose_issuer_def)
next
  case True
  then obtain iss where iss: "unverified_issuer env token = Ok (Some iss)"
    and n: "find (\<lambda>n. is_issuer_url (issuers v ! n) = iss) [0..<length (issuers v)] = Some n"
    using assms(2) by (auto simp: choose_issuer_def split: sum.splits option.splits)
  from find_SomeD [OF n] obtain ys zs where "[0..<length (issuers v)] = ys @ n # zs" "is_issuer_url (issuers v ! n) = iss"
    by auto
  then have "n < length (issuers v)" "is_issuer_url (issuers v ! n) = iss"
    by (metis atLeastLessThan_iff in_set_conv_decomp set_upt)+
  then show ?thesis using iss by simp
qed

lemma validate_inner_cases:
  assumes "issuers v \<noteq> []" "validate_inner env v token = (res, v')"
  obtains r where "res = Some (Err (InvalidToken r, fallback_interval v))" "v' = v"
  | n header res1 i' where "n < length (issuers v)" "env_decode_header env token = Some header"
      "select_by_iss v \<longrightarrow> unverified_issuer env token = Ok (Some (is_issuer_url (issuers v ! n)))"
      "issuer_validate env (issuers v ! n) token header = (res1, i')"
      "res = map_option (map_err (\<lambda>e. (e, cfg_min_refetch_interval (is_cfg (issuers v ! n))))) res1"
      "v' = v \<lparr> issuers := (issuers v)[n := i'] \<rparr>"
proof (cases "env_decode_header env token")
  case None
  show thesis
    by (rule that(1) [of Undecodable]) (use assms(2) None in \<open>auto simp: validate_inner_def\<close>)
next
  case (Some header)
  show thesis
  proof (cases "choose_issuer env v token")
    case (Inl r)
    show thesis
      by (rule that(1) [of r]) (use assms(2) Some Inl in \<open>auto simp: validate_inner_def\<close>)
  next
    case (Inr n)
    obtain res1 i' where r: "issuer_validate env (issuers v ! n) token header = (res1, i')"
      by (cases "issuer_validate env (issuers v ! n) token header")
    show thesis
      by (rule that(2) [OF _ Some _ r]) (use choose_issuer_Ok [OF assms(1) Inr] assms(2) Some Inr r in
          \<open>auto simp: validate_inner_def\<close>)
  qed
qed


text \<open>An issuer with one inline key, and a token it signed.\<close>

definition sample_env :: "nat oidc_env" where
  "sample_env =
     \<lparr> env_url_parse = (\<lambda>_. Err ''url''), env_get_json = (\<lambda>_. Err ''offline''),
       env_rsa_key = (\<lambda>_ _. Err ''rsa''), env_ec_key = (\<lambda>_ _. Err ''ec''),
       env_decode_header = (\<lambda>_. Some \<lparr> hdr_alg = ''RS256'', hdr_kid = Some ''a'' \<rparr>),
       env_decode = (\<lambda>token key val.
         if token = ''h.p.s'' \<and> key = 7 \<and> val_issuers val = [''https://id'']
         then Ok (JObj [(''iss'', JStr ''https://id''), (''sub'', JStr ''ann'')]) else Err JwtInvalidSignature),
       env_decode_payload = (\<lambda>_. Some (JObj [(''iss'', JStr ''https://id'')])), env_now = 0, env_now_fetched = 0,
       env_gate_wait = (\<lambda>i. i) \<rparr>"

definition sample_validator :: "nat oidc_validator" where
  "sample_validator =
     \<lparr> issuers =
         [\<lparr> is_issuer_url = ''https://id'', is_cfg = oidc_validation_config_new ''https://id'' Unchecked,
            is_roles_path = default_roles, is_groups_path = None,
            is_static_keys = Some [(Some ''b'', 9), (Some ''a'', 7)], is_jwks_cache = jwks_cache_empty,
            is_discovery = None, is_last_forced_refetch = None \<rparr>],
       select_by_iss = True \<rparr>"

lemma sample_env_trusted: "env_trusted (\<lambda>u k. u = ''https://id'' \<and> (k = 7 \<or> k = 9)) sample_env"
  by (simp add: env_trusted_def sample_env_def fetch_jwks_def)

lemma sample_authorize:
  "\<exists>claims v'. authorize_inner sample_env sample_validator (Some ''bearer h.p.s'') = (Some (Ok claims), v') \<and> oc_sub claims = ''ann''"
  unfolding sample_env_def sample_validator_def oidc_validation_config_new_def jwks_cache_empty_def default_roles_def
  by (simp add: authorize_inner_def char_boundary_def lower_def validate_inner_def choose_issuer_def unverified_issuer_def
      json_get_def issuer_validate_def get_decoding_keys_def filter_keys_def try_validate_jwt_def validation_for_def
      claims_of_def json_index_def claims_scopes_def strings_of_def Let_def upt_rec)


section \<open>Every request is answered\<close>

lemma try_keys_total: "keys \<noteq> [] \<or> l \<noteq> None \<Longrightarrow> try_keys env token alg i keys l \<noteq> None"
  by (induction keys arbitrary: l) (auto split: sum.splits)

lemma get_decoding_keys_nonempty: "get_decoding_keys env i kid = (Keys ks, i') \<Longrightarrow> ks \<noteq> []"
  by (auto simp: get_decoding_keys_def Let_def dest: filter_keys_Keys fresh_result_keys cached_result_keys
      split: option.splits sum.splits prod.splits if_splits)

lemma issuer_validate_total: "fst (issuer_validate env i token header) \<noteq> None"
  using try_keys_total [of _ None env token "hdr_alg header"]
  by (auto simp: issuer_validate_def dest: get_decoding_keys_nonempty split: prod.splits key_result.splits)

lemma error_to_response_total:
  "\<exists>resp. error_to_response e retry_after = Some resp \<and>
     http_status resp = (if e = JwksUnavailable then 503 else 401)"
proof (cases e)
  case (InvalidToken r)
  then show ?thesis by (cases r) (simp_all add: unauthorized_def)
qed (simp_all add: unauthorized_def)

lemma ascii_char_boundary: "n \<le> length s \<Longrightarrow> \<forall>c \<in> set s. (of_char c :: nat) < 128 \<Longrightarrow> char_boundary s n"
proof (cases "n = length s")
  case False
  assume "n \<le> length s" and ascii: "\<forall>c \<in> set s. (of_char c :: nat) < 128"
  then have n: "n < length s" using False by simp
  then have "(of_char (s ! n) :: nat) < 128" using ascii nth_mem [OF n] by blast
  then show ?thesis using n by (simp add: char_boundary_def)
qed (simp add: char_boundary_def)

lemma authorize_inner_total:
  assumes "\<forall>s. authorization = Some s \<longrightarrow> (\<forall>c \<in> set s. (of_char c :: nat) < 128)"
  shows "fst (authorize_inner env v authorization) \<noteq> None"
proof (cases authorization)
  case None
  then show ?thesis by (simp add: authorize_inner_def)
next
  case (Some s)
  have issuer: "x \<noteq> None" if "issuer_validate env i token header = (x, i')" for i token header x i'
    using issuer_validate_total [of env i token header] that by simp
  have "fst (validate_inner env v token) \<noteq> None" for token
    using issuer by (auto simp: validate_inner_def Let_def split: option.splits sum.splits prod.splits)
  then show ?thesis
    using ascii_char_boundary [of 7 s] assms Some by (auto simp: authorize_inner_def)
qed

text \<open>
  The layer answers every request and never panics: for a header value that is text, which in
  HTTP is ASCII, the response is that of the inner service, called with the accepted claims, or a
  401 for a rejected credential, or a 503 when the keys cannot be had; and the inner service is
  reached only with claims the validator accepted.
\<close>

theorem oidc_call_answers:
  assumes "\<And>s. header = Some (Some s) \<Longrightarrow> \<forall>c \<in> set s. (of_char c :: nat) < 128"
  shows "\<exists>resp v'. oidc_call env inner v header = (Some resp, v') \<and>
           (case authorize_inner env v (map_option or_empty header) of
              (Some (Ok claims), _) \<Rightarrow> resp = inner claims
            | (Some (Err (JwksUnavailable, _)), _) \<Rightarrow> http_status resp = 503
            | (Some (Err _), _) \<Rightarrow> http_status resp = 401
            | (None, _) \<Rightarrow> False)"
proof -
  have "\<forall>s. map_option or_empty header = Some s \<longrightarrow> (\<forall>c \<in> set s. (of_char c :: nat) < 128)"
    using assms by (auto simp: or_empty_def split: option.splits)
  from authorize_inner_total [OF this, of env v] obtain r v' where
    r: "authorize_inner env v (map_option or_empty header) = (Some r, v')"
    by (cases "authorize_inner env v (map_option or_empty header)") auto
  show ?thesis
  proof (cases r)
    case (Inr claims)
    then show ?thesis using r by (simp add: oidc_call_def)
  next
    case (Inl er)
    obtain e t where er: "er = (e, t)" by (cases er)
    from error_to_response_total [of e t] show ?thesis
      using r Inl er by (cases e) (auto simp: oidc_call_def)
  qed
qed

theorem oidc_call_answers_witness:
  "\<exists>resp v'. oidc_call sample_env (\<lambda>_. unauthorized ''inner'') sample_validator (Some (Some ''basic x'')) = (Some resp, v') \<and>
     http_status resp = 401"
proof -
  have "authorize_inner sample_env sample_validator (map_option or_empty (Some (Some ''basic x''))) =
      (Some (Err (MalformedAuthorization, fallback_interval sample_validator)), sample_validator)"
    by (simp add: authorize_inner_def or_empty_def char_boundary_def lower_def)
  then show ?thesis
    using oidc_call_answers [of "Some (Some ''basic x'')" sample_env "\<lambda>_. unauthorized ''inner''" sample_validator]
    by auto
qed

end
