(* ===== verification/Oidc_Client.thy ===== *)
theory Oidc_Client
  imports Secret_Store Oidc_Server "HOL-Library.Sublist"
begin

text \<open>
  The native OIDC client, \<open>cli-framework-oidc/src/client\<close>: its configuration and builder
  (\<open>mod.rs\<close>), the token cache (\<open>cache.rs\<close>), the endpoints it may talk to
  (\<open>endpoint_security.rs\<close>), and how it obtains, refreshes, invalidates and forgets tokens.

  A method is a program: a function from the state of the client to a result and a state. The state
  holds the secret store, the discovery cell, the clock (which is not set back while the program
  runs), the requests sent, what was shown to the user and what the
  loopback listener answered. The outside world is the record
  \<open>outside\<close>: the replies to requests, the time each call takes, the failures of the lock file, and
  the crates the client uses (URLs, JSON, RFC 3339, hashing, randomness). A panic is a failure
  that no \<open>Err(e) =>\<close> arm catches. Times are in nanoseconds. The advisory lock only makes other
  processes wait, so releasing it changes nothing here.
\<close>

named_theorems prog_defs \<open>the combinators of programs\<close>

section \<open>Endpoints\<close>

record endpoint_url = url +
  url_username :: string
  url_password :: "string option"
  url_query :: "string option"
  url_fragment :: "string option"

definition loopback_host :: "string option \<Rightarrow> bool" where
  "loopback_host h = (case h of Some s \<Rightarrow> is_loopback s | None \<Rightarrow> False)"

definition secure_endpoint :: "(string \<Rightarrow> string + endpoint_url) \<Rightarrow> string \<Rightarrow> endpoint_url option" where
  "secure_endpoint parse raw =
     (case parse raw of
        Err _ \<Rightarrow> None
      | Ok u \<Rightarrow>
          if url_host u = None \<or>
             \<not> (url_scheme u = ''https'' \<or> (url_scheme u = ''http'' \<and> loopback_host (url_host u))) \<or>
             url_username u \<noteq> [] \<or> url_password u \<noteq> None \<or> url_fragment u \<noteq> None
          then None else Some u)"

definition secure_transport_endpoint :: "(string \<Rightarrow> string + endpoint_url) \<Rightarrow> string \<Rightarrow> endpoint_url option" where
  "secure_transport_endpoint parse raw =
     (case parse raw of
        Err _ \<Rightarrow> None
      | Ok u \<Rightarrow>
          (case url_host u of
             None \<Rightarrow> None
           | Some host \<Rightarrow>
               (let cluster_service = suffix ''.svc'' host \<or> suffix ''.svc.cluster.local'' host
                in if \<not> (url_scheme u = ''https'' \<or> (url_scheme u = ''http'' \<and> (is_loopback host \<or> cluster_service))) \<or>
                      url_username u \<noteq> [] \<or> url_password u \<noteq> None \<or> url_fragment u \<noteq> None
                   then None else Some u)))"

definition secure_issuer :: "(string \<Rightarrow> string + endpoint_url) \<Rightarrow> string \<Rightarrow> endpoint_url option" where
  "secure_issuer parse raw =
     Option.bind (secure_endpoint parse raw) (\<lambda>u. if url_query u \<noteq> None then None else Some u)"

definition plain_url :: "(string \<Rightarrow> string + endpoint_url) \<Rightarrow> string \<Rightarrow> string + url" where
  "plain_url parse raw = and_then (parse raw) (\<lambda>u. Ok (url.truncate u))"

section \<open>Configuration\<close>

datatype redirect_port = FixedPort "16 word" | EphemeralPort

record redirect_config =
  rc_port :: redirect_port

definition redirect_default :: redirect_config where
  "redirect_default = \<lparr>rc_port = FixedPort 8765\<rparr>"

datatype token_auth_method = PostAuth | BasicAuth

datatype oidc_flow =
    DeviceCode
  | AuthCodePkce redirect_config
  | ClientCredentials string token_auth_method

definition pick_interactive_flow :: "bool \<Rightarrow> bool \<Rightarrow> oidc_flow" where
  "pick_interactive_flow remote_session gui_available =
     (if \<not> remote_session \<and> gui_available then AuthCodePkce redirect_default else DeviceCode)"

record oidc_client =
  oc_issuer_url :: string
  oc_discovery_url :: "string option"
  oc_token_endpoint_url :: "string option"
  oc_client_id :: string
  oc_flow :: oidc_flow
  oc_scopes :: "string list option"
  oc_cache_dir :: "string list"
  oc_open_browser :: bool
  oc_refresh_skew :: nat
  oc_cache_secret_key :: secret_key

section \<open>What lies outside\<close>

record cache_entry =
  ce_access_token :: "string option"
  ce_refresh_token :: "string option"
  ce_expires_at :: "string option"
  ce_obtained_at :: string
  ce_scopes :: "string list"

record cache_file =
  cf_version :: u32
  cf_entries :: "(string, cache_entry) hash_map"

definition empty_cache :: cache_file where
  "empty_cache = \<lparr>cf_version = 1, cf_entries = []\<rparr>"

record client_discovery =
  cd_token_endpoint :: string
  cd_device_authorization_endpoint :: "string option"
  cd_authorization_endpoint :: "string option"

datatype outgoing =
    DiscoveryGet string
  | FormPost string "(string \<times> string) list" "(string \<times> string) option"

datatype callback_event =
    AcceptFailed
  | ReadFailed
  | TimedOut
  | Received string bool

datatype report = UserCode string string | Message string

record outside =
  ou_parse_url :: "string \<Rightarrow> string + endpoint_url"
  ou_query_pairs :: "endpoint_url \<Rightarrow> (string \<times> string) list"
  ou_with_pairs :: "endpoint_url \<Rightarrow> (string \<times> string) list \<Rightarrow> string"
  ou_form :: "string \<Rightarrow> (string \<times> string) list"
  ou_post :: "nat \<Rightarrow> outgoing \<Rightarrow> string + json"
  ou_get :: "nat \<Rightarrow> string \<Rightarrow> string + nat \<times> json option"
  ou_latency :: "nat \<Rightarrow> nat"
  ou_lock :: "nat \<Rightarrow> string option"
  ou_bind :: "nat \<Rightarrow> 16 word \<Rightarrow> string + 16 word"
  ou_callback :: "nat \<Rightarrow> callback_event"
  ou_random :: "nat \<Rightarrow> nat \<Rightarrow> string"
  ou_sha256 :: "string \<Rightarrow> string"
  ou_base64url :: "string \<Rightarrow> string"
  ou_format_time :: "nat \<Rightarrow> string option"
  ou_parse_time :: "string \<Rightarrow> nat option"
  ou_cache_text :: "cache_file \<Rightarrow> string + string"
  ou_cache_parse :: "string \<Rightarrow> cache_file option"

record 's client_state =
  cl_secrets :: 's
  cl_discovery :: "client_discovery option"
  cl_now :: nat
  cl_tick :: nat
  cl_sent :: "outgoing list"
  cl_told :: "report list"
  cl_answered :: "string list"

datatype auth_error = NotAuthenticated | NotSupported string | Provider string

datatype failure = Failed auth_error | Panicked

section \<open>Programs\<close>

type_synonym ('s, 'a) prog = "'s client_state \<Rightarrow> (failure + 'a) \<times> 's client_state"

definition pr_lift :: "failure + 'a \<Rightarrow> ('s, 'a) prog" where
  [prog_defs]: "pr_lift r st = (r, st)"

abbreviation pr_ok :: "'a \<Rightarrow> ('s, 'a) prog" where
  "pr_ok x \<equiv> pr_lift (Ok x)"

abbreviation pr_fail :: "auth_error \<Rightarrow> ('s, 'a) prog" where
  "pr_fail e \<equiv> pr_lift (Err (Failed e))"

definition pr_bind :: "('s, 'a) prog \<Rightarrow> ('a \<Rightarrow> ('s, 'b) prog) \<Rightarrow> ('s, 'b) prog" where
  [prog_defs]: "pr_bind m f st = (case m st of (Ok x, st') \<Rightarrow> f x st' | (Err e, st') \<Rightarrow> (Err e, st'))"

text \<open>A \<open>match\<close> on the result: an error is a value, a panic is not.\<close>

definition pr_try :: "('s, 'a) prog \<Rightarrow> ('s, auth_error + 'a) prog" where
  [prog_defs]: "pr_try m st =
     (case m st of
        (Ok x, st') \<Rightarrow> (Ok (Ok x), st')
      | (Err (Failed e), st') \<Rightarrow> (Ok (Err e), st')
      | (Err Panicked, st') \<Rightarrow> (Err Panicked, st'))"

definition pr_get :: "('s client_state \<Rightarrow> 'a) \<Rightarrow> ('s, 'a) prog" where
  [prog_defs]: "pr_get f st = (Ok (f st), st)"

text \<open>A call of the outside world takes its time.\<close>

definition elapse :: "outside \<Rightarrow> 's client_state \<Rightarrow> 's client_state" where
  "elapse env st = st\<lparr>cl_tick := Suc (cl_tick st), cl_now := cl_now st + ou_latency env (cl_tick st)\<rparr>"

definition pr_outside :: "outside \<Rightarrow> (nat \<Rightarrow> 'a) \<Rightarrow> ('s, 'a) prog" where
  [prog_defs]: "pr_outside env f st = (Ok (f (cl_tick st)), elapse env st)"

definition pr_store :: "outside \<Rightarrow> ('s \<Rightarrow> (secret_error + 'a) \<times> 's) \<Rightarrow> ('s, secret_error + 'a) prog" where
  [prog_defs]: "pr_store env f st =
     (case f (cl_secrets st) of (r, s) \<Rightarrow> (Ok r, elapse env (st\<lparr>cl_secrets := s\<rparr>)))"

definition pr_tell :: "report \<Rightarrow> ('s, unit) prog" where
  [prog_defs]: "pr_tell r st = (Ok (), st\<lparr>cl_told := cl_told st @ [r]\<rparr>)"

definition pr_sleep :: "nat \<Rightarrow> ('s, unit) prog" where
  [prog_defs]: "pr_sleep d st = (Ok (), st\<lparr>cl_now := cl_now st + d\<rparr>)"

text \<open>
  \<open>.post(url).form(..).send().await?.json().await?\<close>: both failures become a provider error with
  their text.
\<close>

definition post_form ::
  "outside \<Rightarrow> string \<Rightarrow> (string \<times> string) list \<Rightarrow> (string \<times> string) option \<Rightarrow> ('s, json) prog" where
  "post_form env endpoint params basic =
     (let rq = FormPost endpoint params basic
      in pr_bind (\<lambda>st. (Ok (), st\<lparr>cl_sent := cl_sent st @ [rq]\<rparr>)) (\<lambda>_.
         pr_bind (pr_outside env (\<lambda>t. ou_post env t rq)) (\<lambda>r.
           pr_lift (map_err (\<lambda>e. Failed (Provider e)) r))))"

text \<open>The time a \<open>SystemTime\<close> can hold; adding past it panics.\<close>

definition system_time_max :: nat where
  "system_time_max = (2 ^ 63 - 1) * 10 ^ 9 + 999999999"

definition add_time :: "nat \<Rightarrow> nat \<Rightarrow> nat option" where
  "add_time t d = (if t + d \<le> system_time_max then Some (t + d) else None)"

definition or_panic :: "'a option \<Rightarrow> ('s, 'a) prog" where
  "or_panic x = pr_lift (case x of Some y \<Rightarrow> Ok y | None \<Rightarrow> Err Panicked)"

section \<open>The token cache\<close>

definition legacy_cache_secret_key :: secret_key where
  "legacy_cache_secret_key = SecretKey ''oidc-token.json''"

text \<open>A character outside ASCII is one dash: the bytes that continue it add nothing.\<close>

definition sanitize_app_segment :: "string \<Rightarrow> string" where
  "sanitize_app_segment name =
     (let s = List.map_filter
                (\<lambda>c. if is_key_char c then Some c
                     else let n = (of_char c :: nat) in if 128 \<le> n \<and> n < 192 then None else Some (CHR ''-'')) name
      in if s = [] \<or> s = ''.'' \<or> s = ''..'' then ''default'' else s)"

definition default_cache_secret_key :: "string option \<Rightarrow> secret_key" where
  "default_cache_secret_key app_name =
     (let app = sanitize_app_segment (case app_name of Some a \<Rightarrow> a | None \<Rightarrow> ''default'')
      in SecretKey (str_join ''/'' [app, ''oidc'', ''token.json'']))"

text \<open>Neither \<open>expect\<close> panics.\<close>

lemma legacy_key_valid: "secret_key_new [''oidc-token.json''] = Ok legacy_cache_secret_key"
  by code_simp

lemma sanitized_valid: "valid_segment (sanitize_app_segment name)"
proof -
  have dash: "is_key_char (CHR ''-'')" by code_simp
  have "list_all is_key_char (List.map_filter
      (\<lambda>c. if is_key_char c then Some c
           else let n = (of_char c :: nat) in if 128 \<le> n \<and> n < 192 then None else Some (CHR ''-'')) name)"
    using dash by (induction name) (auto simp: Let_def)
  moreover have "valid_segment ''default''" by (simp add: valid_segment_iff) code_simp
  ultimately show ?thesis by (auto simp: sanitize_app_segment_def Let_def valid_segment_iff)
qed

lemma default_key_valid:
  "secret_key_new [sanitize_app_segment (case app_name of Some a \<Rightarrow> a | None \<Rightarrow> ''default''), ''oidc'', ''token.json'']
   = Ok (default_cache_secret_key app_name)"
proof -
  have "valid_segment ''oidc''" "valid_segment ''token.json''" by (simp_all add: valid_segment_iff) (code_simp)+
  then show ?thesis
    using sanitized_valid by (simp add: secret_key_new_iff default_cache_secret_key_def Let_def)
qed

definition cache_lock_relpath :: "secret_key \<Rightarrow> string list" where
  "cache_lock_relpath k =
     (let segs = key_segments k; seg = last segs
      in butlast segs @
         [(if suffix ''.json'' seg then take (length seg - 5) seg else seg) @ ''.lock''])"

definition load_at :: "outside \<Rightarrow> 's secret_store \<Rightarrow> secret_key \<Rightarrow> ('s, secret_error + cache_file) prog" where
  "load_at env store key =
     pr_bind (pr_store env (ss_get store key)) (\<lambda>r.
       pr_ok (and_then r (\<lambda>value.
         Ok (case ou_cache_parse env value of Some cache \<Rightarrow> cache | None \<Rightarrow> empty_cache))))"

definition read_cache :: "outside \<Rightarrow> 's secret_store \<Rightarrow> secret_key \<Rightarrow> ('s, cache_file) prog" where
  "read_cache env store key =
     pr_bind (load_at env store key) (\<lambda>r.
       case r of
         Ok cache \<Rightarrow> pr_ok cache
       | Err e \<Rightarrow>
           if e \<noteq> SecretNotFound \<or> key = legacy_cache_secret_key then pr_ok empty_cache
           else pr_bind (load_at env store legacy_cache_secret_key) (\<lambda>r'.
                  pr_ok (case r' of Ok cache \<Rightarrow> cache | Err _ \<Rightarrow> empty_cache)))"

definition write_cache :: "outside \<Rightarrow> 's secret_store \<Rightarrow> secret_key \<Rightarrow> cache_file \<Rightarrow> ('s, string + unit) prog" where
  "write_cache env store key cache =
     (case ou_cache_text env cache of
        Err e \<Rightarrow> pr_ok (Err e)
      | Ok data \<Rightarrow>
          pr_bind (pr_store env (ss_put store key data)) (\<lambda>r.
            case r of
              Err e \<Rightarrow> pr_ok (Err (secret_error_to_string e))
            | Ok _ \<Rightarrow>
                if key = legacy_cache_secret_key then pr_ok (Ok ())
                else pr_bind (pr_store env (ss_delete store legacy_cache_secret_key)) (\<lambda>_. pr_ok (Ok ()))))"

section \<open>Discovery\<close>

definition discovery_failure :: "string \<Rightarrow> failure" where
  "discovery_failure message = Failed (Provider message)"

definition required_discovered_endpoint ::
  "(string \<Rightarrow> string + endpoint_url) \<Rightarrow> json \<Rightarrow> string \<Rightarrow> failure + string" where
  "required_discovered_endpoint parse document field =
     (case as_str (json_index document field) of
        None \<Rightarrow> Err (discovery_failure ''OIDC discovery omitted a required endpoint'')
      | Some raw \<Rightarrow>
          if raw = [] then Err (discovery_failure ''OIDC discovery omitted a required endpoint'')
          else if secure_endpoint parse raw = None
          then Err (discovery_failure ''OIDC discovery advertised an unsafe endpoint'')
          else Ok raw)"

definition optional_discovered_endpoint ::
  "(string \<Rightarrow> string + endpoint_url) \<Rightarrow> json \<Rightarrow> string \<Rightarrow> failure + string option" where
  "optional_discovered_endpoint parse document field =
     (case json_index document field of
        JNull \<Rightarrow> Ok None
      | JStr _ \<Rightarrow> and_then (required_discovered_endpoint parse document field) (\<lambda>s. Ok (Some s))
      | _ \<Rightarrow> Err (discovery_failure ''OIDC discovery advertised a malformed endpoint''))"

text \<open>What \<open>fetch_discovery\<close> makes of the document.\<close>

definition read_discovery ::
  "(string \<Rightarrow> string + endpoint_url) \<Rightarrow> string \<Rightarrow> string option \<Rightarrow> json \<Rightarrow> failure + client_discovery" where
  "read_discovery parse issuer_url token_endpoint_url doc =
     (let doc_issuer = (case as_str (json_index doc ''issuer'') of Some s \<Rightarrow> s | None \<Rightarrow> [])
      in if secure_issuer parse doc_issuer = None \<or> normalize_issuer (plain_url parse) doc_issuer \<noteq> Ok issuer_url
         then Err (discovery_failure ''OIDC discovery issuer mismatch'')
         else
           and_then (required_discovered_endpoint parse doc ''token_endpoint'') (\<lambda>discovered.
           and_then (optional_discovered_endpoint parse doc ''device_authorization_endpoint'') (\<lambda>device.
           and_then (optional_discovered_endpoint parse doc ''authorization_endpoint'') (\<lambda>authorization.
             Ok \<lparr>cd_token_endpoint = (case token_endpoint_url of Some u \<Rightarrow> u | None \<Rightarrow> discovered),
                 cd_device_authorization_endpoint = device, cd_authorization_endpoint = authorization\<rparr>))))"

definition fetch_discovery_doc ::
  "outside \<Rightarrow> string \<Rightarrow> string option \<Rightarrow> string option \<Rightarrow> ('s, client_discovery) prog" where
  "fetch_discovery_doc env issuer_url discovery_url token_endpoint_url =
     (let u = (case discovery_url of Some d \<Rightarrow> d | None \<Rightarrow> issuer_url @ ''/.well-known/openid-configuration'')
      in pr_bind (\<lambda>st. (Ok (), st\<lparr>cl_sent := cl_sent st @ [DiscoveryGet u]\<rparr>)) (\<lambda>_.
         pr_bind (pr_outside env (\<lambda>t. ou_get env t u)) (\<lambda>r.
           pr_lift (case r of
                      Err e \<Rightarrow> Err (Failed (Provider e))
                    | Ok (status, body) \<Rightarrow>
                        if \<not> (200 \<le> status \<and> status < 300)
                        then Err (discovery_failure ''OIDC discovery returned a non-success status'')
                        else (case body of
                                None \<Rightarrow> Err (discovery_failure ''OIDC discovery returned invalid JSON'')
                              | Some doc \<Rightarrow> read_discovery (ou_parse_url env) issuer_url token_endpoint_url doc)))))"

text \<open>\<open>OnceCell::get_or_try_init\<close>: only a success is kept.\<close>

definition get_discovery :: "outside \<Rightarrow> oidc_client \<Rightarrow> ('s, client_discovery) prog" where
  "get_discovery env c =
     pr_bind (pr_get cl_discovery) (\<lambda>cell.
       case cell of
         Some d \<Rightarrow> pr_ok d
       | None \<Rightarrow>
           pr_bind (fetch_discovery_doc env (oc_issuer_url c) (oc_discovery_url c) (oc_token_endpoint_url c)) (\<lambda>d.
             \<lambda>st. (Ok d, st\<lparr>cl_discovery := Some d\<rparr>)))"

section \<open>Tokens\<close>

record access_token =
  at_raw :: string
  at_expires_at :: "nat option"

record token_status =
  ts_logged_in :: bool
  ts_expires_at :: "nat option"

definition effective_scopes :: "oidc_client \<Rightarrow> string list" where
  "effective_scopes c =
     (case oc_scopes c of
        Some s \<Rightarrow> s
      | None \<Rightarrow> (case oc_flow c of ClientCredentials _ _ \<Rightarrow> [] | _ \<Rightarrow> [''openid'']))"

fun flow_kind :: "oidc_flow \<Rightarrow> string" where
  "flow_kind DeviceCode = ''device_code''"
| "flow_kind (AuthCodePkce _) = ''auth_code_pkce''"
| "flow_kind (ClientCredentials _ _) = ''client_credentials''"

definition hex_digit :: "nat \<Rightarrow> char" where
  "hex_digit n = (if n < 10 then char_of (48 + n) else char_of (87 + n))"

definition hex_text :: "string \<Rightarrow> string" where
  "hex_text bs = concat (map (\<lambda>b. let n = (of_char b :: nat) in [hex_digit (n div 16), hex_digit (n mod 16)]) bs)"

definition cache_canonical :: "oidc_client \<Rightarrow> string" where
  "cache_canonical c =
     oc_issuer_url c @ [CHR 0x0A] @ oc_client_id c @ [CHR 0x0A] @ flow_kind (oc_flow c) @ [CHR 0x0A] @
     str_join '' '' (remdups_adj (sort (effective_scopes c)))"

definition cache_key :: "outside \<Rightarrow> oidc_client \<Rightarrow> string" where
  "cache_key env c = hex_text (ou_sha256 env (cache_canonical c))"

definition entry_fields :: "outside \<Rightarrow> cache_entry option \<Rightarrow> string option \<times> string option \<times> nat option" where
  "entry_fields env e =
     (case e of
        None \<Rightarrow> (None, None, None)
      | Some entry \<Rightarrow>
          (ce_access_token entry, ce_refresh_token entry, Option.bind (ce_expires_at entry) (ou_parse_time env)))"

definition read_entry ::
  "outside \<Rightarrow> 's secret_store \<Rightarrow> oidc_client \<Rightarrow> string \<Rightarrow> ('s, string option \<times> string option \<times> nat option) prog" where
  "read_entry env store c key =
     pr_bind (read_cache env store (oc_cache_secret_key c)) (\<lambda>cache.
       pr_ok (entry_fields env (map_of (cf_entries cache) key)))"

definition lock_cache_dir :: "outside \<Rightarrow> oidc_client \<Rightarrow> ('s, unit) prog" where
  "lock_cache_dir env c =
     pr_bind (pr_outside env (ou_lock env)) (\<lambda>r.
       case r of
         Some e \<Rightarrow> pr_fail (Provider (''oidc token cache: lock failed: '' @ e))
       | None \<Rightarrow> pr_ok ())"

text \<open>What \<open>store_token_response\<close> takes from a response: the access token, its lifetime, the refresh token.\<close>

definition token_grant :: "json \<Rightarrow> auth_error + string \<times> u64 option \<times> string option" where
  "token_grant resp =
     (case as_str (json_index resp ''error'') of
        Some e \<Rightarrow>
          Err (Provider (e @ '': '' @ (case as_str (json_index resp ''error_description'') of Some d \<Rightarrow> d | None \<Rightarrow> [])))
      | None \<Rightarrow>
          (case as_str (json_index resp ''access_token'') of
             None \<Rightarrow> Err (Provider ''missing access_token'')
           | Some access_token \<Rightarrow>
               (let token_type = (case as_str (json_index resp ''token_type'') of Some t \<Rightarrow> t | None \<Rightarrow> [])
                in if map ascii_lower token_type \<noteq> ''bearer''
                   then Err (Provider (''expected token_type=Bearer, got '' @ token_type))
                   else Ok (access_token, as_u64 (json_index resp ''expires_in''), as_str (json_index resp ''refresh_token'')))))"

definition store_token_response :: "outside \<Rightarrow> 's secret_store \<Rightarrow> oidc_client \<Rightarrow> json \<Rightarrow> ('s, unit) prog" where
  "store_token_response env store c resp =
     pr_bind (pr_lift (map_err Failed (token_grant resp))) (\<lambda>(access_token, expires_in, refresh_token).
     pr_bind (pr_get cl_now) (\<lambda>now.
     pr_bind (case expires_in of
                None \<Rightarrow> pr_ok None
              | Some secs \<Rightarrow> pr_bind (or_panic (add_time now (seconds (unat secs)))) (\<lambda>t. pr_ok (Some t))) (\<lambda>expires_at.
     let key = cache_key env c
     in pr_bind (lock_cache_dir env c) (\<lambda>_.
        pr_bind (read_cache env store (oc_cache_secret_key c)) (\<lambda>cache.
        let existing_refresh = Option.bind (map_of (cf_entries cache) key) ce_refresh_token
        in pr_bind (case expires_at of
                      None \<Rightarrow> pr_ok None
                    | Some t \<Rightarrow> pr_bind (or_panic (ou_format_time env t)) (\<lambda>s. pr_ok (Some s))) (\<lambda>expires_text.
           pr_bind (pr_get cl_now) (\<lambda>obtained.
           pr_bind (or_panic (ou_format_time env obtained)) (\<lambda>obtained_text.
           let entry = \<lparr>ce_access_token = Some access_token,
                        ce_refresh_token = (case refresh_token of Some r \<Rightarrow> Some r | None \<Rightarrow> existing_refresh),
                        ce_expires_at = expires_text, ce_obtained_at = obtained_text,
                        ce_scopes = effective_scopes c\<rparr>
           in pr_bind (write_cache env store (oc_cache_secret_key c)
                         (cache\<lparr>cf_entries := hm_insert key entry (cf_entries cache)\<rparr>)) (\<lambda>w.
                case w of
                  Err e \<Rightarrow> pr_fail (Provider (''token cache write failed: '' @ e))
                | Ok _ \<Rightarrow> pr_ok ()))))))))) "

text \<open>The token of the entry just written.\<close>

definition cached_token :: "outside \<Rightarrow> 's secret_store \<Rightarrow> oidc_client \<Rightarrow> ('s, access_token) prog" where
  "cached_token env store c =
     pr_bind (read_entry env store c (cache_key env c)) (\<lambda>(access, _, expiry).
       case access of
         Some s \<Rightarrow> pr_ok \<lparr>at_raw = s, at_expires_at = expiry\<rparr>
       | None \<Rightarrow> pr_fail NotAuthenticated)"

definition do_refresh ::
  "outside \<Rightarrow> 's secret_store \<Rightarrow> oidc_client \<Rightarrow> client_discovery \<Rightarrow> string \<Rightarrow> ('s, access_token) prog" where
  "do_refresh env store c d refresh_token =
     pr_bind (post_form env (cd_token_endpoint d)
                [(''grant_type'', ''refresh_token''), (''client_id'', oc_client_id c),
                 (''refresh_token'', refresh_token)] None) (\<lambda>resp.
     pr_bind (store_token_response env store c resp) (\<lambda>_. cached_token env store c))"

definition scope_param :: "string list \<Rightarrow> (string \<times> string) list" where
  "scope_param scopes = (let s = str_join '' '' scopes in if s = [] then [] else [(''scope'', s)])"

definition do_client_credentials_acquire ::
  "outside \<Rightarrow> 's secret_store \<Rightarrow> oidc_client \<Rightarrow> client_discovery \<Rightarrow> string \<Rightarrow> token_auth_method \<Rightarrow> ('s, unit) prog" where
  "do_client_credentials_acquire env store c d client_secret token_auth =
     pr_bind (case token_auth of
                PostAuth \<Rightarrow>
                  post_form env (cd_token_endpoint d)
                    ([(''grant_type'', ''client_credentials''), (''client_id'', oc_client_id c),
                      (''client_secret'', client_secret)] @ scope_param (effective_scopes c)) None
              | BasicAuth \<Rightarrow>
                  post_form env (cd_token_endpoint d)
                    ((''grant_type'', ''client_credentials'') # scope_param (effective_scopes c))
                    (Some (oc_client_id c, client_secret))) (\<lambda>resp.
       store_token_response env store c resp)"

text \<open>Still fresh: the expiry is further away than the skew; still alive: it has not passed.\<close>

definition still_fresh :: "nat \<Rightarrow> nat \<Rightarrow> nat option \<Rightarrow> bool" where
  "still_fresh skew now expiry =
     (case expiry of
        None \<Rightarrow> True
      | Some e \<Rightarrow> (case add_time now skew of Some t \<Rightarrow> t < e | None \<Rightarrow> False))"

definition not_expired :: "nat \<Rightarrow> nat option \<Rightarrow> bool" where
  "not_expired now expiry = (case expiry of None \<Rightarrow> True | Some e \<Rightarrow> now < e)"

definition acquire_token ::
  "outside \<Rightarrow> 's secret_store \<Rightarrow> oidc_client \<Rightarrow> string option \<Rightarrow> nat option \<Rightarrow> ('s, access_token) prog" where
  "acquire_token env store c access expiry =
     (case oc_flow c of
        ClientCredentials client_secret token_auth \<Rightarrow>
          pr_bind (get_discovery env c) (\<lambda>d.
          pr_bind (do_client_credentials_acquire env store c d client_secret token_auth) (\<lambda>_.
            cached_token env store c))
      | _ \<Rightarrow>
          pr_bind (pr_get cl_now) (\<lambda>now.
            case access of
              Some s \<Rightarrow> if not_expired now expiry then pr_ok \<lparr>at_raw = s, at_expires_at = expiry\<rparr> else pr_fail NotAuthenticated
            | None \<Rightarrow> pr_fail NotAuthenticated))"

definition get_or_refresh_token :: "outside \<Rightarrow> 's secret_store \<Rightarrow> oidc_client \<Rightarrow> ('s, access_token) prog" where
  "get_or_refresh_token env store c =
     pr_bind (read_entry env store c (cache_key env c)) (\<lambda>(access, refresh, expiry).
     pr_bind (pr_get cl_now) (\<lambda>now.
       if access \<noteq> None \<and> still_fresh (oc_refresh_skew c) now expiry
       then pr_ok \<lparr>at_raw = the access, at_expires_at = expiry\<rparr>
       else
         (case refresh of
            None \<Rightarrow> acquire_token env store c access expiry
          | Some rt \<Rightarrow>
              pr_bind (get_discovery env c) (\<lambda>d.
              pr_bind (pr_try (do_refresh env store c d rt)) (\<lambda>r.
                case r of
                  Ok token \<Rightarrow> pr_ok token
                | Err e \<Rightarrow> acquire_token env store c access expiry)))))"

section \<open>The token provider\<close>

definition drop_access :: "string \<Rightarrow> cache_file \<Rightarrow> cache_file" where
  "drop_access key cache =
     (case map_of (cf_entries cache) key of
        Some entry \<Rightarrow>
          cache\<lparr>cf_entries := hm_insert key (entry\<lparr>ce_access_token := None, ce_expires_at := None\<rparr>) (cf_entries cache)\<rparr>
      | None \<Rightarrow> cache)"

definition oidc_invalidate :: "outside \<Rightarrow> 's secret_store \<Rightarrow> oidc_client \<Rightarrow> ('s, unit) prog" where
  "oidc_invalidate env store c =
     (let key = cache_key env c
      in pr_bind (pr_try (lock_cache_dir env c)) (\<lambda>lock.
           case lock of
             Err e \<Rightarrow> pr_ok ()
           | Ok _ \<Rightarrow>
               pr_bind (read_cache env store (oc_cache_secret_key c)) (\<lambda>cache.
               pr_bind (write_cache env store (oc_cache_secret_key c) (drop_access key cache)) (\<lambda>_. pr_ok ()))))"

definition oidc_peek :: "outside \<Rightarrow> 's secret_store \<Rightarrow> oidc_client \<Rightarrow> ('s, token_status option) prog" where
  "oidc_peek env store c =
     pr_bind (read_cache env store (oc_cache_secret_key c)) (\<lambda>cache.
       pr_ok (map_option (\<lambda>entry.
         \<lparr>ts_logged_in = (ce_access_token entry \<noteq> None \<or> ce_refresh_token entry \<noteq> None),
          ts_expires_at = (if ce_access_token entry \<noteq> None
                           then Option.bind (ce_expires_at entry) (ou_parse_time env) else None)\<rparr>)
         (map_of (cf_entries cache) (cache_key env c))))"

definition oidc_logout :: "outside \<Rightarrow> 's secret_store \<Rightarrow> oidc_client \<Rightarrow> ('s, unit) prog" where
  "oidc_logout env store c =
     (let key = cache_key env c
      in pr_bind (lock_cache_dir env c) (\<lambda>_.
         pr_bind (read_cache env store (oc_cache_secret_key c)) (\<lambda>cache.
         pr_bind (write_cache env store (oc_cache_secret_key c)
                    (cache\<lparr>cf_entries := filter (\<lambda>(k, _). k \<noteq> key) (cf_entries cache)\<rparr>)) (\<lambda>_. pr_ok ()))))"

end
