(* ===== verification/Oidc_Login.thy ===== *)
theory Oidc_Login
  imports Oidc_Client
begin

text \<open>
  Logging in with the native client: PKCE values (\<open>pkce.rs\<close>), the loopback callback
  (\<open>client/callback.rs\<close>), the three grants and the builder (\<open>client/mod.rs\<close>).

  The polling loop of the device grant ends when the provider answers or the device code expires;
  it takes fuel, and a result \<open>None\<close> says that the fuel was not enough. The monotonic clock and
  the system clock advance together.
\<close>

section \<open>PKCE\<close>

definition generate_verifier :: "outside \<Rightarrow> ('s, string) prog" where
  "generate_verifier env = pr_outside env (\<lambda>t. ou_base64url env (ou_random env t 32))"

definition derive_challenge :: "outside \<Rightarrow> string \<Rightarrow> string" where
  "derive_challenge env verifier = ou_base64url env (ou_sha256 env verifier)"

definition generate_state :: "outside \<Rightarrow> ('s, string) prog" where
  "generate_state env = pr_outside env (\<lambda>t. hex_text (ou_random env t 16))"

section \<open>The callback\<close>

definition reserved_parameters :: "string list" where
  "reserved_parameters =
     [''response_type'', ''client_id'', ''redirect_uri'', ''scope'', ''state'', ''code_challenge'', ''code_challenge_method'']"

definition authorization_url ::
  "outside \<Rightarrow> string \<Rightarrow> string \<Rightarrow> string \<Rightarrow> string \<Rightarrow> string \<Rightarrow> string \<Rightarrow> string + string" where
  "authorization_url env endpoint client_id redirect_uri scopes state challenge =
     (case ou_parse_url env endpoint of
        Err _ \<Rightarrow> Err ''invalid authorization endpoint''
      | Ok u \<Rightarrow>
          if list_ex (\<lambda>(k, _). k \<in> set reserved_parameters) (ou_query_pairs env u)
          then Err ''authorization endpoint pre-binds reserved OAuth parameters''
          else Ok (ou_with_pairs env u
                 [(''response_type'', ''code''), (''client_id'', client_id), (''redirect_uri'', redirect_uri),
                  (''scope'', scopes), (''state'', state), (''code_challenge'', challenge),
                  (''code_challenge_method'', ''S256'')]))"

definition split_once :: "char \<Rightarrow> string \<Rightarrow> (string \<times> string) option" where
  "split_once c s =
     (if c \<in> set s then Some (takeWhile (\<lambda>x. x \<noteq> c) s, tl (dropWhile (\<lambda>x. x \<noteq> c) s)) else None)"

definition form_values :: "string \<Rightarrow> (string \<times> string) list \<Rightarrow> string list" where
  "form_values k pairs = map snd (filter (\<lambda>(q, _). q = k) pairs)"

definition parse_request :: "(string \<Rightarrow> (string \<times> string) list) \<Rightarrow> string \<Rightarrow> string \<Rightarrow> string + string" where
  "parse_request form line expected_state =
     (let parts = split_whitespace line
      in if length parts \<noteq> 3 \<or> parts ! 0 \<noteq> ''GET'' \<or> \<not> (parts ! 2 = ''HTTP/1.0'' \<or> parts ! 2 = ''HTTP/1.1'')
         then Err ''invalid callback request line''
         else (case split_once (CHR ''?'') (parts ! 1) of
                 None \<Rightarrow> Err ''missing callback query''
               | Some (path, query) \<Rightarrow>
                   if path \<noteq> ''/callback'' \<or> CHR ''#'' \<in> set query then Err ''invalid callback path''
                   else
                     (let pairs = form query;
                          codes = form_values ''code'' pairs;
                          states = form_values ''state'' pairs;
                          provider_error = list_ex (\<lambda>(k, _). k = ''error'') pairs
                      in if expected_state = [] \<or> length states \<noteq> 1 \<or> hd states \<noteq> expected_state
                         then Err ''state mismatch''
                         else if provider_error then Err ''authorization provider rejected login''
                         else if length codes \<noteq> 1 \<or> hd codes = [] then Err ''missing or duplicate authorization code''
                         else Ok (hd codes))))"

text \<open>\<open>read_line\<close> on the first 8193 bytes of the stream.\<close>

definition first_line :: "string \<Rightarrow> string" where
  "first_line bs =
     (case split_once (CHR 0x0A) (take 8193 bs) of
        Some (l, _) \<Rightarrow> l @ [CHR 0x0A]
      | None \<Rightarrow> take 8193 bs)"

definition callback_result :: "outside \<Rightarrow> string \<Rightarrow> string \<Rightarrow> string + string" where
  "callback_result env bs expected_state =
     (let line = first_line bs
      in if 8192 < length line \<or> line = [] \<or> last line \<noteq> CHR 0x0A
         then Err ''invalid or oversized callback request''
         else parse_request (ou_form env) line expected_state)"

definition callback_response :: "string + string \<Rightarrow> string" where
  "callback_response result =
     (case result of
        Ok _ \<Rightarrow> ''200 OK''
      | Err _ \<Rightarrow> ''400 Bad Request'')"

definition wait_for_callback :: "outside \<Rightarrow> string \<Rightarrow> ('s, string + string) prog" where
  "wait_for_callback env expected_state =
     pr_bind (pr_outside env (ou_callback env)) (\<lambda>ev.
       case ev of
         AcceptFailed \<Rightarrow> pr_ok (Err ''callback accept failed'')
       | ReadFailed \<Rightarrow> pr_ok (Err ''callback request read failed'')
       | TimedOut \<Rightarrow> pr_ok (Err ''callback timeout'')
       | Received bs written \<Rightarrow>
           (let result = callback_result env bs expected_state
            in if \<not> written then pr_ok (Err ''callback response failed'')
               else (\<lambda>st. (Ok result, st\<lparr>cl_answered := cl_answered st @ [callback_response result]\<rparr>))))"

section \<open>The grants\<close>

definition loopback_uri :: "16 word \<Rightarrow> string" where
  "loopback_uri port = ''http://127.0.0.1:'' @ nat_dec (unat port) @ ''/callback''"

definition do_auth_code_pkce_login ::
  "outside \<Rightarrow> 's secret_store \<Rightarrow> oidc_client \<Rightarrow> client_discovery \<Rightarrow> redirect_config \<Rightarrow> ('s, unit) prog" where
  "do_auth_code_pkce_login env store c d redirect =
     pr_bind (generate_verifier env) (\<lambda>code_verifier.
     let code_challenge = derive_challenge env code_verifier
     in pr_bind (generate_state env) (\<lambda>state.
        let port = (case rc_port redirect of FixedPort p \<Rightarrow> p | EphemeralPort \<Rightarrow> 0)
        in pr_bind (pr_outside env (\<lambda>t. ou_bind env t port)) (\<lambda>bound.
           case bound of
             Err e \<Rightarrow> pr_fail (Provider (''bind loopback: '' @ e))
           | Ok actual_port \<Rightarrow>
               (let redirect_uri = loopback_uri actual_port
                in case cd_authorization_endpoint d of
                     None \<Rightarrow> pr_fail (Provider ''provider does not advertise authorization_endpoint required for auth_code_pkce'')
                   | Some auth_endpoint \<Rightarrow>
                       (case authorization_url env auth_endpoint (oc_client_id c) redirect_uri
                               (str_join '' '' (effective_scopes c)) state code_challenge of
                          Err e \<Rightarrow> pr_fail (Provider e)
                        | Ok auth_url \<Rightarrow>
                            pr_bind (pr_tell (Message (''Open this URL to log in: '' @ auth_url))) (\<lambda>_.
                            pr_bind (wait_for_callback env state) (\<lambda>answer.
                              case answer of
                                Err e \<Rightarrow> pr_fail (Provider e)
                              | Ok code \<Rightarrow>
                                  pr_bind (post_form env (cd_token_endpoint d)
                                    [(''grant_type'', ''authorization_code''), (''client_id'', oc_client_id c),
                                     (''code'', code), (''redirect_uri'', redirect_uri),
                                     (''code_verifier'', code_verifier)] None)
                                  (store_token_response env store c))))))))"

record device_grant =
  dg_verification_uri :: string
  dg_user_code :: string
  dg_device_code :: string
  dg_interval :: u64
  dg_expires_in :: u64

definition or_else :: "'a \<Rightarrow> 'a option \<Rightarrow> 'a" where
  "or_else x o1 = (case o1 of Some y \<Rightarrow> y | None \<Rightarrow> x)"

definition missing_field :: "string \<Rightarrow> auth_error" where
  "missing_field f = Provider (''device authorization response missing `'' @ f @ ''`'')"

definition need_str :: "json \<Rightarrow> string \<Rightarrow> auth_error + string" where
  "need_str resp f = (case as_str (json_index resp f) of Some s \<Rightarrow> Ok s | None \<Rightarrow> Err (missing_field f))"

definition read_device_grant :: "json \<Rightarrow> auth_error + device_grant" where
  "read_device_grant resp =
     (case as_str (json_index resp ''error'') of
        Some e \<Rightarrow>
          (let desc = or_else [] (as_str (json_index resp ''error_description''))
           in Err (Provider (''device authorization request rejected: '' @ e @ (if desc = [] then [] else '': '' @ desc))))
      | None \<Rightarrow>
          and_then (need_str resp ''verification_uri'') (\<lambda>uri.
          and_then (need_str resp ''user_code'') (\<lambda>user_code.
          and_then (need_str resp ''device_code'') (\<lambda>device_code.
            Ok \<lparr>dg_verification_uri = uri, dg_user_code = user_code, dg_device_code = device_code,
                dg_interval = or_else 5 (as_u64 (json_index resp ''interval'')),
                dg_expires_in = or_else 600 (as_u64 (json_index resp ''expires_in''))\<rparr>))))"

definition longest_duration :: nat where
  "longest_duration = (2 ^ 64 - 1) * 10 ^ 9 + 999999999"

definition slower :: "nat \<Rightarrow> nat option" where
  "slower interval = (if interval + seconds 5 \<le> longest_duration then Some (interval + seconds 5) else None)"

definition poll_params :: "oidc_client \<Rightarrow> string \<Rightarrow> string \<Rightarrow> (string \<times> string) list" where
  "poll_params c device_code code_verifier =
     [(''client_id'', oc_client_id c), (''device_code'', device_code),
      (''grant_type'', ''urn:ietf:params:oauth:grant-type:device_code''), (''code_verifier'', code_verifier)]"

fun device_poll ::
  "nat \<Rightarrow> outside \<Rightarrow> 's secret_store \<Rightarrow> oidc_client \<Rightarrow> string \<Rightarrow> (string \<times> string) list \<Rightarrow> nat \<Rightarrow> nat \<Rightarrow> ('s, unit option) prog" where
  "device_poll 0 env store c endpoint params deadline interval = pr_ok None"
| "device_poll (Suc fuel) env store c endpoint params deadline interval =
     pr_bind (pr_get cl_now) (\<lambda>now.
       if deadline < now then pr_fail (Provider ''device code expired'')
       else
         pr_bind (pr_sleep interval) (\<lambda>_.
         pr_bind (post_form env endpoint params None) (\<lambda>resp.
           case as_str (json_index resp ''error'') of
             None \<Rightarrow> pr_bind (store_token_response env store c resp) (\<lambda>_. pr_ok (Some ()))
           | Some e \<Rightarrow>
               if e = ''authorization_pending'' then device_poll fuel env store c endpoint params deadline interval
               else if e = ''slow_down''
               then pr_bind (or_panic (slower interval)) (device_poll fuel env store c endpoint params deadline)
               else pr_fail (Provider (e @ '': '' @ or_else [] (as_str (json_index resp ''error_description'')))))))"

definition do_device_code_login ::
  "nat \<Rightarrow> outside \<Rightarrow> 's secret_store \<Rightarrow> oidc_client \<Rightarrow> client_discovery \<Rightarrow> ('s, unit option) prog" where
  "do_device_code_login fuel env store c d =
     (case cd_device_authorization_endpoint d of
        None \<Rightarrow> pr_fail (Provider ''provider does not advertise device_authorization_endpoint required for device_code'')
      | Some endpoint \<Rightarrow>
          pr_bind (generate_verifier env) (\<lambda>code_verifier.
          pr_bind (post_form env endpoint
                     [(''client_id'', oc_client_id c), (''scope'', str_join '' '' (effective_scopes c)),
                      (''code_challenge'', derive_challenge env code_verifier), (''code_challenge_method'', ''S256'')] None) (\<lambda>resp.
          pr_bind (pr_lift (map_err Failed (read_device_grant resp))) (\<lambda>g.
          pr_bind (pr_tell (UserCode (dg_verification_uri g) (dg_user_code g))) (\<lambda>_.
          pr_bind (pr_get cl_now) (\<lambda>now.
          pr_bind (or_panic (add_time now (seconds (unat (dg_expires_in g))))) (\<lambda>deadline.
            device_poll fuel env store c (cd_token_endpoint d)
              (poll_params c (dg_device_code g) code_verifier) deadline (seconds (unat (dg_interval g))))))))))"

definition do_interactive_login :: "nat \<Rightarrow> outside \<Rightarrow> 's secret_store \<Rightarrow> oidc_client \<Rightarrow> ('s, unit option) prog" where
  "do_interactive_login fuel env store c =
     pr_bind (get_discovery env c) (\<lambda>d.
       case oc_flow c of
         DeviceCode \<Rightarrow> do_device_code_login fuel env store c d
       | AuthCodePkce redirect \<Rightarrow> pr_bind (do_auth_code_pkce_login env store c d redirect) (\<lambda>u. pr_ok (Some u))
       | ClientCredentials client_secret token_auth \<Rightarrow>
           pr_bind (do_client_credentials_acquire env store c d client_secret token_auth) (\<lambda>u. pr_ok (Some u)))"

text \<open>The methods of the \<open>TokenProvider\<close>, and a sequence of calls whose results are dropped.\<close>

datatype provider_method = CallToken | CallInvalidate | CallPeek | CallLogin | CallLogout

definition pr_void :: "('s, 'a) prog \<Rightarrow> ('s, unit) prog" where
  [prog_defs]: "pr_void m = pr_bind (pr_try m) (\<lambda>_. pr_ok ())"

fun run_call :: "nat \<Rightarrow> outside \<Rightarrow> 's secret_store \<Rightarrow> oidc_client \<Rightarrow> provider_method \<Rightarrow> ('s, unit) prog" where
  "run_call fuel env store c CallToken = pr_void (get_or_refresh_token env store c)"
| "run_call fuel env store c CallInvalidate = pr_void (oidc_invalidate env store c)"
| "run_call fuel env store c CallPeek = pr_void (oidc_peek env store c)"
| "run_call fuel env store c CallLogin = pr_void (do_interactive_login fuel env store c)"
| "run_call fuel env store c CallLogout = pr_void (oidc_logout env store c)"

fun run_calls :: "nat \<Rightarrow> outside \<Rightarrow> 's secret_store \<Rightarrow> oidc_client \<Rightarrow> provider_method list \<Rightarrow> ('s, unit) prog" where
  "run_calls fuel env store c [] = pr_ok ()"
| "run_calls fuel env store c (m # ms) = pr_bind (run_call fuel env store c m) (\<lambda>_. run_calls fuel env store c ms)"

section \<open>The builder\<close>

record oidc_client_builder =
  ob_issuer_url :: "string option"
  ob_discovery_url :: "string option"
  ob_token_endpoint_url :: "string option"
  ob_client_id :: "string option"
  ob_flow :: "oidc_flow option"
  ob_scopes :: "string list option"
  ob_cache_dir :: "string list option"
  ob_app_name :: "string option"
  ob_open_browser :: bool
  ob_refresh_skew :: nat
  ob_cache_secret_key :: "secret_key option"

definition builder_new :: oidc_client_builder where
  "builder_new =
     \<lparr>ob_issuer_url = None, ob_discovery_url = None, ob_token_endpoint_url = None, ob_client_id = None,
      ob_flow = None, ob_scopes = None, ob_cache_dir = None, ob_app_name = None, ob_open_browser = True,
      ob_refresh_skew = seconds 60, ob_cache_secret_key = None\<rparr>"

definition auto_interactive :: "(string \<Rightarrow> string option) \<Rightarrow> bool \<Rightarrow> oidc_flow" where
  "auto_interactive var desktop_os =
     pick_interactive_flow (var ''SSH_CONNECTION'' \<noteq> None \<or> var ''SSH_TTY'' \<noteq> None)
       (desktop_os \<or> var ''DISPLAY'' \<noteq> None \<or> var ''WAYLAND_DISPLAY'' \<noteq> None)"

definition env_flow ::
  "string \<Rightarrow> string option \<Rightarrow> string option \<Rightarrow> oidc_flow \<Rightarrow> oidc_config_error + oidc_flow" where
  "env_flow pre kind secret interactive =
     (case kind of
        None \<Rightarrow> Ok (case secret of Some s \<Rightarrow> ClientCredentials s PostAuth | None \<Rightarrow> interactive)
      | Some k \<Rightarrow>
          if k = ''device'' then Ok DeviceCode
          else if k = ''pkce'' then Ok (AuthCodePkce redirect_default)
          else if k = ''client-credentials'' \<or> k = ''cc'' then
            (case secret of
               Some s \<Rightarrow> Ok (ClientCredentials s PostAuth)
             | None \<Rightarrow> Err (InvalidFlow ''client-credentials flow requires CLIENT_SECRET''))
          else if k = ''auto'' then Ok (case secret of Some s \<Rightarrow> ClientCredentials s PostAuth | None \<Rightarrow> interactive)
          else Err (InvalidFlow (''unknown '' @ pre @ ''_FLOW value: '' @ k)))"

definition env_scopes :: "string \<Rightarrow> string list" where
  "env_scopes raw =
     filter (\<lambda>s. s \<noteq> []) (map str_trim (concat (map (str_split (CHR '' '')) (str_split (CHR '','') raw))))"

definition from_env :: "(string \<Rightarrow> string option) \<Rightarrow> bool \<Rightarrow> string \<Rightarrow> oidc_config_error + oidc_client_builder" where
  "from_env os_var desktop_os pre =
     (let var = (\<lambda>k. case os_var (pre @ ''_'' @ k) of Some v \<Rightarrow> if v = [] then None else Some v | None \<Rightarrow> None)
      in (case var ''ISSUER_URL'' of
            None \<Rightarrow> Err (MissingField ''ISSUER_URL (env)'')
          | Some issuer_url \<Rightarrow>
              (case var ''CLIENT_ID'' of
                 None \<Rightarrow> Err (MissingField ''CLIENT_ID (env)'')
               | Some client_id \<Rightarrow>
                   and_then (env_flow pre (var ''FLOW'') (var ''CLIENT_SECRET'') (auto_interactive os_var desktop_os)) (\<lambda>flow.
                     Ok (builder_new\<lparr>ob_issuer_url := Some issuer_url, ob_client_id := Some client_id,
                           ob_flow := Some flow, ob_discovery_url := var ''DISCOVERY_URL'',
                           ob_token_endpoint_url := var ''TOKEN_ENDPOINT_URL'',
                           ob_scopes := (case var ''SCOPES'' of
                                           None \<Rightarrow> None
                                         | Some raw \<Rightarrow> if env_scopes raw = [] then None else Some (env_scopes raw))\<rparr>)))))"

definition validate_transport_override ::
  "(string \<Rightarrow> string + endpoint_url) \<Rightarrow> string \<Rightarrow> string option \<Rightarrow> oidc_config_error + string option" where
  "validate_transport_override parse field raw =
     (case raw of
        None \<Rightarrow> Ok None
      | Some u \<Rightarrow>
          if secure_transport_endpoint parse u = None
          then Err (InvalidFlow (field @ '' must be absolute HTTPS, or HTTP to loopback or a Kubernetes .svc host''))
          else Ok (Some u))"

definition required :: "string \<Rightarrow> 'a option \<Rightarrow> oidc_config_error + 'a" where
  "required field v = (case v of Some x \<Rightarrow> Ok x | None \<Rightarrow> Err (MissingField field))"

definition default_cache_dir :: "string list option \<Rightarrow> string option \<Rightarrow> oidc_config_error + string list" where
  "default_cache_dir os_cache_dir app_name =
     and_then (required ''cache_dir'' os_cache_dir) (\<lambda>base.
       Ok (base @ [''cli-framework-oidc'', or_else ''default'' app_name]))"

definition build_client ::
  "(string \<Rightarrow> string + endpoint_url) \<Rightarrow> string list option \<Rightarrow> bool \<Rightarrow> oidc_client_builder \<Rightarrow> oidc_config_error + oidc_client" where
  "build_client parse os_cache_dir http_builds b =
     and_then (required ''issuer_url'' (ob_issuer_url b)) (\<lambda>raw_issuer.
     if secure_issuer parse raw_issuer = None then Err (InsecureIssuer ''unsafe issuer URL'')
     else
       and_then (normalize_issuer (plain_url parse) raw_issuer) (\<lambda>issuer_url.
       and_then (validate_transport_override parse ''discovery_url'' (ob_discovery_url b)) (\<lambda>discovery_url.
       and_then (validate_transport_override parse ''token_endpoint_url'' (ob_token_endpoint_url b)) (\<lambda>token_endpoint_url.
       and_then (required ''client_id'' (ob_client_id b)) (\<lambda>client_id.
       and_then (required ''flow'' (ob_flow b)) (\<lambda>flow.
       and_then (case ob_cache_dir b of Some dir \<Rightarrow> Ok dir | None \<Rightarrow> default_cache_dir os_cache_dir (ob_app_name b)) (\<lambda>cache_dir.
       if \<not> http_builds then Err (InvalidFlow ''could not initialize bounded OIDC HTTP transport'')
       else Ok \<lparr>oc_issuer_url = issuer_url, oc_discovery_url = discovery_url, oc_token_endpoint_url = token_endpoint_url,
                oc_client_id = client_id, oc_flow = flow, oc_scopes = ob_scopes b, oc_cache_dir = cache_dir,
                oc_open_browser = ob_open_browser b, oc_refresh_skew = ob_refresh_skew b,
                oc_cache_secret_key = or_else (default_cache_secret_key (ob_app_name b)) (ob_cache_secret_key b)\<rparr>)))))))"

end
