(* ===== verification/Oidc_Client_Rules.thy ===== *)
theory Oidc_Client_Rules
  imports Oidc_Login
begin

text \<open>
  Reasoning about programs of the OIDC client. \<open>holds I m Q\<close> says that \<open>m\<close> keeps the invariant
  \<open>I\<close> of the state, whatever its result, and that a result satisfies \<open>Q\<close>; its rules follow the
  combinators. On the in-memory store the cache is a function of the contents
  (\<open>memory_cache\<close>), and the two cache operations are equations about it.
\<close>

named_theorems holds_rules \<open>programs that keep an invariant\<close>

section \<open>The judgement\<close>

definition holds :: "('s client_state \<Rightarrow> bool) \<Rightarrow> ('s, 'a) prog \<Rightarrow> ('a \<Rightarrow> bool) \<Rightarrow> bool" where
  "holds I m Q \<longleftrightarrow> (\<forall>st r st'. I st \<longrightarrow> m st = (r, st') \<longrightarrow> I st' \<and> (\<forall>x. r = Ok x \<longrightarrow> Q x))"

abbreviation always :: "'a \<Rightarrow> bool" where "always \<equiv> \<lambda>_. True"

lemma holdsI: "(\<And>st r st'. I st \<Longrightarrow> m st = (r, st') \<Longrightarrow> I st' \<and> (\<forall>x. r = Ok x \<longrightarrow> Q x)) \<Longrightarrow> holds I m Q"
  by (simp add: holds_def)

lemma holdsD: "holds I m Q \<Longrightarrow> I st \<Longrightarrow> m st = (r, st') \<Longrightarrow> I st'"
  by (simp add: holds_def)

lemma holds_resultD: "holds I m Q \<Longrightarrow> I st \<Longrightarrow> m st = (Ok x, st') \<Longrightarrow> Q x"
  by (simp add: holds_def)

lemma holds_bind: "holds I m Q \<Longrightarrow> (\<And>x. Q x \<Longrightarrow> holds I (f x) R) \<Longrightarrow> holds I (pr_bind m f) R"
proof (rule holdsI)
  fix st r st'
  assume m: "holds I m Q" and f: "\<And>x. Q x \<Longrightarrow> holds I (f x) R" and I: "I st" and run: "pr_bind m f st = (r, st')"
  obtain q st1 where q: "m st = (q, st1)" by fastforce
  from holdsD [OF m I this] have st1: "I st1" .
  show "I st' \<and> (\<forall>x. r = Ok x \<longrightarrow> R x)"
  proof (cases q)
    case (Inl e)
    then show ?thesis using run q st1 by (auto simp: pr_bind_def)
  next
    case (Inr x)
    then have "Q x" using m I q by (auto dest: holds_resultD)
    moreover have "f x st1 = (r, st')" using run q Inr by (simp add: pr_bind_def)
    ultimately show ?thesis using f st1 by (simp add: holds_def)
  qed
qed

lemma holds_then: "holds I m always \<Longrightarrow> (\<And>x. holds I (f x) R) \<Longrightarrow> holds I (pr_bind m f) R"
  by (rule holds_bind)

lemma holds_weaken: "holds I m Q \<Longrightarrow> (\<And>x. Q x \<Longrightarrow> R x) \<Longrightarrow> holds I m R"
  by (auto simp: holds_def)

lemma holds_lift [holds_rules]: "(\<And>x. r = Ok x \<Longrightarrow> Q x) \<Longrightarrow> holds I (pr_lift r) Q"
  by (auto simp: holds_def pr_lift_def)

lemma holds_panic [holds_rules]: "holds I (or_panic x) always"
  by (simp add: or_panic_def holds_lift)

lemma holds_get [holds_rules]: "(\<And>st. I st \<Longrightarrow> Q (f st)) \<Longrightarrow> holds I (pr_get f) Q"
  by (auto simp: holds_def pr_get_def)

lemma holds_try: "holds I m always \<Longrightarrow> holds I (pr_try m) always"
  by (auto simp: holds_def pr_try_def split: prod.splits sum.splits failure.splits)

lemma holds_void: "holds I m always \<Longrightarrow> holds I (pr_void m) always"
  unfolding pr_void_def by (intro holds_then holds_try holds_lift TrueI) 

lemma holds_if: "(b \<Longrightarrow> holds I m Q) \<Longrightarrow> (\<not> b \<Longrightarrow> holds I n Q) \<Longrightarrow> holds I (if b then m else n) Q"
  by simp

lemma holds_option:
  "(x = None \<Longrightarrow> holds I m Q) \<Longrightarrow> (\<And>y. x = Some y \<Longrightarrow> holds I (f y) Q) \<Longrightarrow>
   holds I (case x of None \<Rightarrow> m | Some y \<Rightarrow> f y) Q"
  by (cases x) simp_all

lemma holds_sum:
  "(\<And>e. x = Err e \<Longrightarrow> holds I (g e) Q) \<Longrightarrow> (\<And>y. x = Ok y \<Longrightarrow> holds I (f y) Q) \<Longrightarrow>
   holds I (case x of Inl e \<Rightarrow> g e | Inr y \<Rightarrow> f y) Q"
  by (cases x) simp_all

lemma holds_prod: "(\<And>a b. x = (a, b) \<Longrightarrow> holds I (f a b) Q) \<Longrightarrow> holds I (case x of (a, b) \<Rightarrow> f a b) Q"
  by (cases x) simp

lemma holds_let: "holds I (f t) Q \<Longrightarrow> holds I (let x = t in f x) Q"
  by (simp add: Let_def)

lemmas holds_intros = holds_then holds_try holds_void holds_if holds_option holds_sum holds_prod holds_let holds_rules

text \<open>An invariant that the clock, the log of requests and the messages do not matter to.\<close>

definition about_store :: "('s client_state \<Rightarrow> bool) \<Rightarrow> bool" where
  "about_store I \<longleftrightarrow> (\<forall>st st'. cl_secrets st' = cl_secrets st \<longrightarrow> I st = I st')"

lemma about_storeD: "about_store I \<Longrightarrow> cl_secrets st' = cl_secrets st \<Longrightarrow> I st \<Longrightarrow> I st'"
  unfolding about_store_def by blast

lemma elapse_fields [simp]:
  "cl_secrets (elapse env st) = cl_secrets st" "cl_discovery (elapse env st) = cl_discovery st"
  "cl_sent (elapse env st) = cl_sent st" "cl_told (elapse env st) = cl_told st"
  "cl_answered (elapse env st) = cl_answered st" "cl_now st \<le> cl_now (elapse env st)"
  by (simp_all add: elapse_def)

lemma quiet_program:
  assumes "about_store I" "\<And>st. cl_secrets (snd (m st)) = cl_secrets st"
  shows "holds I m always"
proof (rule holdsI)
  fix st r st'
  assume "I st" "m st = (r, st')"
  moreover from this assms(2) [of st] have "cl_secrets st' = cl_secrets st" by simp
  ultimately show "I st' \<and> (\<forall>x. r = Ok x \<longrightarrow> True)" using about_storeD [OF assms(1)] by blast
qed

lemma store_quiet:
  assumes "about_store I"
  shows "holds I (pr_outside env f) always" "holds I (pr_tell r) always" "holds I (pr_sleep d) always"
    and "holds I (post_form env endpoint params basic) always"
    and "holds I (get_discovery env c) always" "holds I (lock_cache_dir env c) always"
    and "holds I (wait_for_callback env state) always"
proof -
  note quiet = quiet_program [OF assms]
  show "holds I (pr_outside env f) always" by (rule quiet) (simp add: pr_outside_def)
  show "holds I (pr_tell r) always" by (rule quiet) (simp add: pr_tell_def)
  show "holds I (pr_sleep d) always" by (rule quiet) (simp add: pr_sleep_def)
  show "holds I (post_form env endpoint params basic) always"
    by (rule quiet) (simp add: post_form_def Let_def prog_defs)
  show "holds I (get_discovery env c) always"
    by (rule quiet) (simp add: get_discovery_def fetch_discovery_doc_def Let_def prog_defs split: option.split sum.split)
  show "holds I (lock_cache_dir env c) always"
    by (rule quiet) (simp add: lock_cache_dir_def prog_defs split: option.split)
  show "holds I (wait_for_callback env state) always"
    by (rule quiet) (simp add: wait_for_callback_def prog_defs Let_def split: callback_event.split)
qed

section \<open>The cache on the in-memory store\<close>

definition memory_cache :: "outside \<Rightarrow> secret_key \<Rightarrow> memory_secrets \<Rightarrow> cache_file" where
  "memory_cache env key s =
     (let parse = (\<lambda>v. case ou_cache_parse env v of Some cache \<Rightarrow> cache | None \<Rightarrow> empty_cache)
      in case memory_view s key of
           Some v \<Rightarrow> parse v
         | None \<Rightarrow>
             if key = legacy_cache_secret_key then empty_cache
             else (case memory_view s legacy_cache_secret_key of Some v \<Rightarrow> parse v | None \<Rightarrow> empty_cache))"

text \<open>What a cache file reads back as, when the JSON of a cache file is read as it was written.\<close>

definition cache_json_laws :: "outside \<Rightarrow> bool" where
  "cache_json_laws env \<longleftrightarrow> (\<forall>cache data. ou_cache_text env cache = Ok data \<longrightarrow> ou_cache_parse env data = Some cache)"

lemma memory_get: "ss_get in_memory_store k s = ((case memory_view s k of Some v \<Rightarrow> Ok v | None \<Rightarrow> Err SecretNotFound), s)"
  by (simp add: in_memory_defs memory_view_def)

lemma memory_put: "ss_put in_memory_store k v s = (Ok (), hm_insert (key_str k) v s)"
  by (simp add: in_memory_defs)

lemma memory_delete: "ss_delete in_memory_store k s = (Ok (), filter (\<lambda>(q, _). q \<noteq> key_str k) s)"
  by (simp add: in_memory_defs)

lemma read_cache_memory:
  "fst (read_cache env in_memory_store key st) = Ok (memory_cache env key (cl_secrets st))"
  "cl_secrets (snd (read_cache env in_memory_store key st)) = cl_secrets st"
  "cl_sent (snd (read_cache env in_memory_store key st)) = cl_sent st"
  "cl_discovery (snd (read_cache env in_memory_store key st)) = cl_discovery st"
  by (simp_all add: read_cache_def load_at_def prog_defs memory_get memory_cache_def split: option.splits)

lemma read_cache_memoryE:
  assumes "read_cache env in_memory_store key st = (r, st')"
  shows "r = Ok (memory_cache env key (cl_secrets st))" "cl_secrets st' = cl_secrets st"
    "cl_sent st' = cl_sent st" "cl_discovery st' = cl_discovery st"
  using read_cache_memory [of env key st] assms by simp_all

lemma write_cache_memory:
  assumes laws: "cache_json_laws env" and run: "write_cache env in_memory_store key cache st = (r, st')"
  shows "(\<exists>e. r = Ok (Err e) \<and> ou_cache_text env cache = Err e \<and> cl_secrets st' = cl_secrets st) \<or>
         (r = Ok (Ok ()) \<and> memory_cache env key (cl_secrets st') = cache)"
proof (cases "ou_cache_text env cache")
  case (Inl e)
  then show ?thesis using run by (simp add: write_cache_def prog_defs)
next
  case (Inr data)
  then have data: "ou_cache_parse env data = Some cache" using laws by (simp add: cache_json_laws_def)
  let ?s = "hm_insert (key_str key) data (cl_secrets st)"
  show ?thesis
  proof (cases "key = legacy_cache_secret_key")
    case True
    then have "r = Ok (Ok ())" "cl_secrets st' = ?s"
      using run Inr by (auto simp: write_cache_def prog_defs memory_put)
    then show ?thesis using data by (simp add: memory_cache_def memory_view_put)
  next
    case False
    then have "r = Ok (Ok ())" "cl_secrets st' = filter (\<lambda>(q, _). q \<noteq> key_str legacy_cache_secret_key) ?s"
      using run Inr by (auto simp: write_cache_def prog_defs memory_put memory_delete)
    then show ?thesis
      using data False by (simp add: memory_cache_def memory_view_put memory_view_delete)
  qed
qed

text \<open>The grants of everybody else: the entries of the cache under other keys.\<close>

definition other_grants :: "outside \<Rightarrow> secret_key \<Rightarrow> string \<Rightarrow> (string \<Rightarrow> cache_entry option) \<Rightarrow> memory_secrets client_state \<Rightarrow> bool" where
  "other_grants env key mine grants st \<longleftrightarrow>
     (\<forall>k. k \<noteq> mine \<longrightarrow> map_of (cf_entries (memory_cache env key (cl_secrets st))) k = grants k)"

lemma other_grants_about_store: "about_store (other_grants env key mine grants)"
  by (simp add: about_store_def other_grants_def)

lemmas grants_quiet = store_quiet [OF other_grants_about_store]

lemma grants_read:
  "holds (other_grants env key mine grants) (read_cache env in_memory_store key)
     (\<lambda>cache. \<forall>k. k \<noteq> mine \<longrightarrow> map_of (cf_entries cache) k = grants k)"
  by (rule holdsI) (auto simp: other_grants_def dest: read_cache_memoryE)

lemma grants_write:
  assumes "cache_json_laws env" "\<And>k. k \<noteq> mine \<Longrightarrow> map_of (cf_entries cache) k = grants k"
  shows "holds (other_grants env key mine grants) (write_cache env in_memory_store key cache) always"
proof (rule holdsI)
  fix st r st'
  assume "other_grants env key mine grants st" "write_cache env in_memory_store key cache st = (r, st')"
  then show "other_grants env key mine grants st' \<and> (\<forall>x. r = Ok x \<longrightarrow> True)"
    using write_cache_memory [OF assms(1), of key cache st r st'] assms(2) by (auto simp: other_grants_def)
qed

lemma grants_read_bind:
  "(\<And>cache. (\<And>k. k \<noteq> mine \<Longrightarrow> map_of (cf_entries cache) k = grants k) \<Longrightarrow>
      holds (other_grants env key mine grants) (f cache) R) \<Longrightarrow>
   holds (other_grants env key mine grants) (pr_bind (read_cache env in_memory_store key) f) R"
  by (rule holds_bind [OF grants_read]) simp

abbreviation others :: "outside \<Rightarrow> oidc_client \<Rightarrow> (string \<Rightarrow> cache_entry option) \<Rightarrow> memory_secrets client_state \<Rightarrow> bool" where
  "others env c grants \<equiv> other_grants env (oc_cache_secret_key c) (cache_key env c) grants"

lemmas grants_steps = TrueI grants_read_bind holds_intros grants_quiet

lemma others_read_entry: "holds (others env c grants) (read_entry env in_memory_store c key) always"
  unfolding read_entry_def by (rule grants_steps)+

lemma others_store:
  assumes "cache_json_laws env"
  shows "holds (others env c grants) (store_token_response env in_memory_store c resp) always"
  unfolding store_token_response_def Let_def by (rule grants_steps grants_write [OF assms] | simp)+

lemma others_cached_token: "holds (others env c grants) (cached_token env in_memory_store c) always"
  unfolding cached_token_def by (rule grants_steps others_read_entry)+

lemma others_refresh:
  "cache_json_laws env \<Longrightarrow> holds (others env c grants) (do_refresh env in_memory_store c d rt) always"
  unfolding do_refresh_def by (rule grants_steps others_store others_cached_token | assumption)+

lemma others_device_poll:
  assumes "cache_json_laws env"
  shows "holds (others env c grants) (device_poll fuel env in_memory_store c endpoint params deadline interval) always"
proof (induction fuel arbitrary: interval)
  case 0
  show ?case unfolding device_poll.simps by (rule grants_steps)+
next
  case (Suc fuel)
  show ?case unfolding device_poll.simps by (rule grants_steps others_store [OF assms] Suc.IH)+
qed

lemma others_acquire:
  assumes "cache_json_laws env"
  shows "holds (others env c grants) (acquire_token env in_memory_store c access expiry) always"
proof -
  have "holds (others env c grants) (do_client_credentials_acquire env in_memory_store c d s a) always" for d s a
    unfolding do_client_credentials_acquire_def
    by (cases a) (simp, (rule grants_steps others_store [OF assms])+)+
  then show ?thesis
    unfolding acquire_token_def
    by (cases "oc_flow c") (simp, (rule grants_steps others_cached_token | assumption | blast)+)+
qed

text \<open>Every method leaves the grants of others alone.\<close>

lemma others_run_call:
  assumes laws: "cache_json_laws env"
  shows "holds (others env c grants) (run_call fuel env in_memory_store c m) always"
proof (cases m)
  case CallToken
  show ?thesis
    unfolding CallToken run_call.simps get_or_refresh_token_def
    by (rule grants_steps others_read_entry others_acquire [OF laws] others_refresh [OF laws])+
next
  case CallInvalidate
  show ?thesis
    unfolding CallInvalidate run_call.simps oidc_invalidate_def Let_def
    by (rule grants_steps grants_write [OF laws] | simp add: drop_access_def split: option.split)+
next
  case CallPeek
  show ?thesis unfolding CallPeek run_call.simps oidc_peek_def by (rule grants_steps)+
next
  case CallLogin
  have poll: "holds (others env c grants) (do_device_code_login fuel env in_memory_store c d) always" for d
    unfolding do_device_code_login_def generate_verifier_def
    by (rule grants_steps others_device_poll [OF laws])+
  have pkce: "holds (others env c grants) (do_auth_code_pkce_login env in_memory_store c d r) always" for d r
    unfolding do_auth_code_pkce_login_def generate_verifier_def generate_state_def Let_def
    by (rule grants_steps others_store [OF laws])+
  have cc: "holds (others env c grants) (do_client_credentials_acquire env in_memory_store c d s a) always" for d s a
    unfolding do_client_credentials_acquire_def
    by (cases a) (simp, (rule grants_steps others_store [OF laws])+)+
  show ?thesis
    unfolding CallLogin run_call.simps do_interactive_login_def
    by (cases "oc_flow c") (simp, (rule grants_steps poll pkce cc)+)+
next
  case CallLogout
  show ?thesis
    unfolding CallLogout run_call.simps oidc_logout_def Let_def
    by (rule grants_steps grants_write [OF laws] | simp add: map_of_drop_key)+
qed

lemma others_run_calls:
  "cache_json_laws env \<Longrightarrow> holds (others env c grants) (run_calls fuel env in_memory_store c ms) always"
  by (induction ms) (simp_all add: holds_lift holds_then others_run_call)

end
