(* ===== verification/Oidc_Client_Safety.thy ===== *)
theory Oidc_Client_Safety
  imports Oidc_Client_Rules
begin

text \<open>
  Where the credentials of the OIDC client go, what a token it hands out is, and why logging in
  ends: the lemmas behind the properties of \<open>Oidc_Client_Properties\<close>.
\<close>

section \<open>Requests go to secure endpoints\<close>

definition endpoint_ok :: "(string \<Rightarrow> string + endpoint_url) \<Rightarrow> string \<Rightarrow> bool" where
  "endpoint_ok parse raw \<longleftrightarrow>
     (\<exists>u host. parse raw = Ok u \<and> url_host u = Some host \<and> url_username u = [] \<and> url_password u = None \<and>
        url_fragment u = None \<and>
        (url_scheme u = ''https'' \<or>
         (url_scheme u = ''http'' \<and> (is_loopback host \<or> suffix ''.svc'' host \<or> suffix ''.svc.cluster.local'' host))))"

lemma secure_endpoint_ok: "secure_endpoint parse raw \<noteq> None \<Longrightarrow> endpoint_ok parse raw"
  by (auto simp: secure_endpoint_def endpoint_ok_def loopback_host_def split: sum.splits if_splits option.splits)

lemma secure_transport_ok: "secure_transport_endpoint parse raw \<noteq> None \<Longrightarrow> endpoint_ok parse raw"
  by (auto simp: secure_transport_endpoint_def endpoint_ok_def Let_def split: sum.splits if_splits option.splits)

definition discovery_ok :: "(string \<Rightarrow> string + endpoint_url) \<Rightarrow> client_discovery \<Rightarrow> bool" where
  "discovery_ok parse d \<longleftrightarrow>
     endpoint_ok parse (cd_token_endpoint d) \<and>
     (\<forall>u. cd_device_authorization_endpoint d = Some u \<longrightarrow> endpoint_ok parse u) \<and>
     (\<forall>u. cd_authorization_endpoint d = Some u \<longrightarrow> endpoint_ok parse u)"

lemma required_endpoint_ok: "required_discovered_endpoint parse doc f = Ok u \<Longrightarrow> endpoint_ok parse u"
  by (auto simp: required_discovered_endpoint_def split: option.splits if_splits intro: secure_endpoint_ok)

lemma optional_endpoint_ok: "optional_discovered_endpoint parse doc f = Ok (Some u) \<Longrightarrow> endpoint_ok parse u"
  by (auto simp: optional_discovered_endpoint_def and_then_Ok_iff split: json.splits intro: required_endpoint_ok)

lemma read_discovery_ok:
  assumes "read_discovery parse issuer override doc = Ok d" "\<And>u. override = Some u \<Longrightarrow> endpoint_ok parse u"
  shows "discovery_ok parse d"
  using assms
  by (auto simp: read_discovery_def discovery_ok_def Let_def and_then_Ok_iff split: if_splits option.splits
      dest: required_endpoint_ok optional_endpoint_ok)

lemma built_override_ok:
  assumes "build_client parse dirs http b = Ok c" "oc_token_endpoint_url c = Some u"
  shows "endpoint_ok parse u"
  using assms
  by (auto simp: build_client_def and_then_Ok_iff validate_transport_override_def
      split: if_splits option.splits intro: secure_transport_ok)

definition posts_ok :: "outside \<Rightarrow> 's client_state \<Rightarrow> bool" where
  "posts_ok env st \<longleftrightarrow>
     (\<forall>u ps b. FormPost u ps b \<in> set (cl_sent st) \<longrightarrow> endpoint_ok (ou_parse_url env) u) \<and>
     (\<forall>d. cl_discovery st = Some d \<longrightarrow> discovery_ok (ou_parse_url env) d)"

lemma posts_quiet_program:
  assumes "\<And>st. cl_sent (snd (m st)) = cl_sent st" "\<And>st. cl_discovery (snd (m st)) = cl_discovery st"
  shows "holds (posts_ok env) m always"
proof (rule holdsI)
  fix st r st'
  assume "posts_ok env st" "m st = (r, st')"
  then show "posts_ok env st' \<and> (\<forall>x. r = Ok x \<longrightarrow> True)"
    using assms [of st] by (simp add: posts_ok_def)
qed

lemma posts_quiet:
  "holds (posts_ok env) (pr_outside env f) always" "holds (posts_ok env) (pr_tell r) always"
  "holds (posts_ok env) (pr_sleep d) always" "holds (posts_ok env) (pr_store env g) always"
  "holds (posts_ok env) (lock_cache_dir env c) always" "holds (posts_ok env) (wait_for_callback env state) always"
proof -
  note quiet = posts_quiet_program
  show "holds (posts_ok env) (pr_outside env f) always" by (rule quiet) (simp_all add: pr_outside_def)
  show "holds (posts_ok env) (pr_tell r) always" by (rule quiet) (simp_all add: pr_tell_def)
  show "holds (posts_ok env) (pr_sleep d) always" by (rule quiet) (simp_all add: pr_sleep_def)
  show "holds (posts_ok env) (pr_store env g) always" by (rule quiet) (simp_all add: pr_store_def split: prod.split)
  show "holds (posts_ok env) (lock_cache_dir env c) always"
    by (rule quiet) (simp_all add: lock_cache_dir_def prog_defs split: option.split)
  show "holds (posts_ok env) (wait_for_callback env state) always"
    by (rule quiet) (simp_all add: wait_for_callback_def prog_defs Let_def split: callback_event.split)
qed

lemma posts_sent:
  assumes "\<And>u ps b. rq = FormPost u ps b \<Longrightarrow> endpoint_ok (ou_parse_url env) u"
  shows "holds (posts_ok env) (\<lambda>st. (Ok (), st\<lparr>cl_sent := cl_sent st @ [rq]\<rparr>)) always"
proof (rule holdsI, intro conjI)
  fix st r st'
  assume "posts_ok env st" "(Ok (), st\<lparr>cl_sent := cl_sent st @ [rq]\<rparr>) = (r, st')"
  then show "posts_ok env st'" using assms unfolding posts_ok_def by fastforce
qed simp

lemma posts_form: "endpoint_ok (ou_parse_url env) u \<Longrightarrow> holds (posts_ok env) (post_form env u ps b) always"
  unfolding post_form_def Let_def by (rule holds_intros posts_sent posts_quiet TrueI | simp)+

lemma posts_fetch:
  assumes "\<And>u. override = Some u \<Longrightarrow> endpoint_ok (ou_parse_url env) u"
  shows "holds (posts_ok env) (fetch_discovery_doc env issuer transport override) (discovery_ok (ou_parse_url env))"
  unfolding fetch_discovery_doc_def Let_def
proof (intro holds_then posts_sent posts_quiet holds_lift)
  fix r x
  assume "(case r of
        Inl e \<Rightarrow> Err (Failed (Provider e))
      | Ok (status, body) \<Rightarrow>
          if \<not> (200 \<le> status \<and> status < 300)
          then Err (discovery_failure ''OIDC discovery returned a non-success status'')
          else case body of
                 None \<Rightarrow> Err (discovery_failure ''OIDC discovery returned invalid JSON'')
               | Some doc \<Rightarrow> read_discovery (ou_parse_url env) issuer override doc) = Ok x"
  then obtain doc where "read_discovery (ou_parse_url env) issuer override doc = Ok x"
    by (auto split: sum.splits prod.splits if_splits option.splits)
  then show "discovery_ok (ou_parse_url env) x" using assms by (rule read_discovery_ok)
qed simp

lemma posts_set_discovery:
  "discovery_ok (ou_parse_url env) d \<Longrightarrow>
   holds (posts_ok env) (\<lambda>st. (Ok d, st\<lparr>cl_discovery := Some d\<rparr>)) (discovery_ok (ou_parse_url env))"
  by (rule holdsI) (auto simp: posts_ok_def)

lemma posts_discovery:
  assumes "\<And>u. oc_token_endpoint_url c = Some u \<Longrightarrow> endpoint_ok (ou_parse_url env) u"
  shows "holds (posts_ok env) (get_discovery env c) (discovery_ok (ou_parse_url env))"
  unfolding get_discovery_def
proof (rule holds_bind)
  show "holds (posts_ok env) (pr_get cl_discovery) (\<lambda>cell. \<forall>d. cell = Some d \<longrightarrow> discovery_ok (ou_parse_url env) d)"
    by (rule holds_get) (simp add: posts_ok_def)
next
  fix cell
  assume "\<forall>d. cell = Some d \<longrightarrow> discovery_ok (ou_parse_url env) d"
  then show "holds (posts_ok env) (case cell of
        None \<Rightarrow> pr_bind (fetch_discovery_doc env (oc_issuer_url c) (oc_discovery_url c) (oc_token_endpoint_url c))
                  (\<lambda>d st. (Ok d, st\<lparr>cl_discovery := Some d\<rparr>))
      | Some d \<Rightarrow> pr_ok d) (discovery_ok (ou_parse_url env))"
    by (intro holds_option holds_lift holds_bind [OF posts_fetch [OF assms]] posts_set_discovery) auto
qed

lemma discovery_bind:
  "(\<And>u. oc_token_endpoint_url c = Some u \<Longrightarrow> endpoint_ok (ou_parse_url env) u) \<Longrightarrow>
   (\<And>d. discovery_ok (ou_parse_url env) d \<Longrightarrow> holds (posts_ok env) (f d) R) \<Longrightarrow>
   holds (posts_ok env) (pr_bind (get_discovery env c) f) R"
  by (rule holds_bind [OF posts_discovery]) simp_all

lemmas posts_steps = TrueI posts_form holds_intros posts_quiet

lemma posts_read: "holds (posts_ok env) (read_cache env store key) always"
  unfolding read_cache_def load_at_def by (rule posts_steps)+

lemma posts_write: "holds (posts_ok env) (write_cache env store key cache) always"
  unfolding write_cache_def by (rule posts_steps)+

lemma posts_store: "holds (posts_ok env) (store_token_response env store c resp) always"
  unfolding store_token_response_def Let_def by (rule posts_steps posts_read posts_write)+

lemma posts_cached: "holds (posts_ok env) (cached_token env store c) always"
  unfolding cached_token_def read_entry_def by (rule posts_steps posts_read)+

lemma posts_acquire_credentials:
  "discovery_ok (ou_parse_url env) d \<Longrightarrow> holds (posts_ok env) (do_client_credentials_acquire env store c d s a) always"
  unfolding do_client_credentials_acquire_def discovery_ok_def
  by (cases a) (simp, (rule posts_steps posts_store | simp)+)+

lemma posts_refresh:
  "discovery_ok (ou_parse_url env) d \<Longrightarrow> holds (posts_ok env) (do_refresh env store c d rt) always"
  unfolding do_refresh_def discovery_ok_def by (rule posts_steps posts_store posts_cached | simp)+

lemma posts_poll:
  assumes "endpoint_ok (ou_parse_url env) endpoint"
  shows "holds (posts_ok env) (device_poll fuel env store c endpoint params deadline interval) always"
proof (induction fuel arbitrary: interval)
  case 0
  show ?case unfolding device_poll.simps by (rule posts_steps)+
next
  case (Suc fuel)
  show ?case unfolding device_poll.simps by (rule posts_steps posts_store assms Suc.IH)+
qed

lemma posts_device:
  "discovery_ok (ou_parse_url env) d \<Longrightarrow> holds (posts_ok env) (do_device_code_login fuel env store c d) always"
  unfolding do_device_code_login_def generate_verifier_def discovery_ok_def
  by (rule posts_steps posts_poll | simp)+

lemma posts_pkce:
  "discovery_ok (ou_parse_url env) d \<Longrightarrow> holds (posts_ok env) (do_auth_code_pkce_login env store c d r) always"
  unfolding do_auth_code_pkce_login_def generate_verifier_def generate_state_def discovery_ok_def Let_def
  by (rule posts_steps posts_store | simp)+

lemma posts_run_call:
  assumes override: "\<And>u. oc_token_endpoint_url c = Some u \<Longrightarrow> endpoint_ok (ou_parse_url env) u"
  shows "holds (posts_ok env) (run_call fuel env store c m) always"
proof (cases m)
  case CallToken
  have "holds (posts_ok env) (acquire_token env store c access expiry) always" for access expiry
    unfolding acquire_token_def
    by (cases "oc_flow c")
      (simp, (rule discovery_bind [OF override] posts_steps posts_acquire_credentials posts_cached | assumption)+)+
  note acquire = this
  show ?thesis
    unfolding CallToken run_call.simps get_or_refresh_token_def read_entry_def
    by (rule discovery_bind [OF override] posts_steps posts_read posts_refresh acquire | assumption)+
next
  case CallInvalidate
  show ?thesis
    unfolding CallInvalidate run_call.simps oidc_invalidate_def Let_def by (rule posts_steps posts_read posts_write)+
next
  case CallPeek
  show ?thesis unfolding CallPeek run_call.simps oidc_peek_def by (rule posts_steps posts_read)+
next
  case CallLogin
  show ?thesis
    unfolding CallLogin run_call.simps do_interactive_login_def
    by (cases "oc_flow c")
      (simp, (rule discovery_bind [OF override] posts_steps posts_device posts_pkce posts_acquire_credentials | assumption)+)+
next
  case CallLogout
  show ?thesis
    unfolding CallLogout run_call.simps oidc_logout_def Let_def by (rule posts_steps posts_read posts_write)+
qed

lemma posts_run_calls:
  assumes "\<And>u. oc_token_endpoint_url c = Some u \<Longrightarrow> endpoint_ok (ou_parse_url env) u"
  shows "holds (posts_ok env) (run_calls fuel env store c ms) always"
  by (induction ms) (simp_all add: holds_lift holds_then posts_run_call [OF assms])

section \<open>Programs only go forward\<close>

definition later :: "'s client_state \<Rightarrow> 's client_state \<Rightarrow> bool" where
  "later st st' \<longleftrightarrow>
     cl_tick st \<le> cl_tick st' \<and> set (cl_sent st) \<subseteq> set (cl_sent st') \<and> cl_now st \<le> cl_now st'"

lemma later_refl [simp]: "later st st"
  by (simp add: later_def)

lemma later_trans: "later a b \<Longrightarrow> later b c \<Longrightarrow> later a c"
  by (auto simp: later_def)

lemma later_program:
  assumes "\<And>st. later st (snd (m st))"
  shows "holds (later st0) m always"
proof (rule holdsI)
  fix st r st'
  assume "later st0 st" "m st = (r, st')"
  then show "later st0 st' \<and> (\<forall>x. r = Ok x \<longrightarrow> True)"
    using assms [of st] by (auto intro: later_trans)
qed

lemma later_steps:
  "holds (later st0) (pr_outside env f) always" "holds (later st0) (pr_tell r) always"
  "holds (later st0) (pr_sleep d) always" "holds (later st0) (pr_store env g) always"
  "holds (later st0) (\<lambda>st. (Ok (), st\<lparr>cl_sent := cl_sent st @ [rq]\<rparr>)) always"
  "holds (later st0) (\<lambda>st. (Ok d', st\<lparr>cl_discovery := Some d'\<rparr>)) always"
  by (rule later_program, auto simp: prog_defs later_def elapse_def split: prod.split)+

lemma later_read: "holds (later st0) (read_cache env store key) always"
  unfolding read_cache_def load_at_def by (rule TrueI holds_intros later_steps)+

lemma later_token_ops:
  "holds (later st0) (read_entry env store c key) always"
  "holds (later st0) (cached_token env store c) always"
  "holds (later st0) (store_token_response env store c resp) always"
  "holds (later st0) (get_discovery env c) always"
  "holds (later st0) (post_form env u ps b) always"
  unfolding cached_token_def read_entry_def store_token_response_def lock_cache_dir_def write_cache_def
    get_discovery_def fetch_discovery_doc_def post_form_def Let_def
  by (rule TrueI holds_intros later_steps later_read)+

lemma later_run: "holds (later st) m always \<Longrightarrow> m st = (r, st') \<Longrightarrow> later st st'"
  by (drule holdsD [where st = st]) simp_all

section \<open>Tokens handed out\<close>

lemma pr_Ok_iffs:
  "pr_bind m f st = (Ok y, st') \<longleftrightarrow> (\<exists>x st1. m st = (Ok x, st1) \<and> f x st1 = (Ok y, st'))"
  "pr_lift r st = (r', st') \<longleftrightarrow> r = r' \<and> st' = st"
  "pr_get h st = (q, st') \<longleftrightarrow> q = Ok (h st) \<and> st' = st"
  by (auto simp: prog_defs split: prod.splits sum.splits)

lemma result_or_fail:
  "(case q of Inl e \<Rightarrow> pr_fail (f e) | Inr _ \<Rightarrow> pr_ok ()) st = (Ok (), st') \<longleftrightarrow> q = Ok () \<and> st' = st"
  by (cases q) (auto simp: prog_defs)

text \<open>A token that some reply since then granted.\<close>

definition granted_since :: "outside \<Rightarrow> nat \<Rightarrow> 's client_state \<Rightarrow> access_token \<Rightarrow> bool" where
  "granted_since env n0 st t \<longleftrightarrow>
     (\<exists>n rq resp lifetime refresh. n0 \<le> n \<and> rq \<in> set (cl_sent st) \<and> ou_post env n rq = Ok resp \<and>
        token_grant resp = Ok (at_raw t, lifetime, refresh))"

lemma granted_since_mono: "granted_since env n st t \<Longrightarrow> n' \<le> n \<Longrightarrow> later st st' \<Longrightarrow> granted_since env n' st' t"
  unfolding granted_since_def later_def by (meson order_trans subsetD)

lemma post_form_Ok:
  "post_form env u ps b st = (Ok resp, st') \<longleftrightarrow>
   ou_post env (cl_tick st) (FormPost u ps b) = Ok resp \<and>
   st' = elapse env (st\<lparr>cl_sent := cl_sent st @ [FormPost u ps b]\<rparr>)"
  by (auto simp: post_form_def Let_def prog_defs map_err_def split: sum.splits)

context secret_backend
begin

lemma written_then_read:
  assumes laws: "cache_json_laws env"
    and "write_cache env store key cache st = (Ok (Ok ()), st1)" "read_cache env store key st1 = (Ok cache', st2)"
  shows "cache' = cache \<or> cache' = empty_cache"
proof -
  obtain data where data: "ou_cache_text env cache = Ok data"
    using assms(2) by (cases "ou_cache_text env cache") (auto simp: write_cache_def pr_lift_def)
  then have parse: "ou_cache_parse env data = Some cache" using laws by (simp add: cache_json_laws_def)
  obtain s1 where put: "ss_put store key data (cl_secrets st) = (Ok (), s1)"
    using assms(2) data by (auto simp: write_cache_def prog_defs split: prod.splits sum.splits)
  have "cl_secrets st1 = (if key = legacy_cache_secret_key then s1 else snd (ss_delete store legacy_cache_secret_key s1))"
    using assms(2) data put by (auto simp: write_cache_def prog_defs split: prod.splits sum.splits if_splits)
  then have view1: "view (cl_secrets st1) key = Some data"
    using put_Ok [OF put] delete_frame [of legacy_cache_secret_key s1 _ _ key]
    by (cases "ss_delete store legacy_cache_secret_key s1") (simp split: if_splits)
  obtain r s2 where get: "ss_get store key (cl_secrets st1) = (r, s2)" by fastforce
  then show ?thesis
  proof (cases rule: get_cases)
    case (1 v)
    then have "cache' = cache"
      using assms(3) get view1 parse by (simp add: read_cache_def load_at_def prog_defs)
    then show ?thesis ..
  next
    case 2
    then show ?thesis using view1 by simp
  next
    case (3 e)
    then have "cache' = empty_cache"
      using assms(3) get by (simp add: read_cache_def load_at_def prog_defs)
    then show ?thesis ..
  qed
qed

lemma stored_then_cached:
  assumes laws: "cache_json_laws env"
    and store: "store_token_response env store c resp st = (Ok (), st1)"
    and cached: "cached_token env store c st1 = (Ok t, st2)"
  shows "\<exists>lifetime refresh. token_grant resp = Ok (at_raw t, lifetime, refresh)"
proof -
  obtain a l r where grant: "token_grant resp = Ok (a, l, r)"
    using store by (cases "token_grant resp") (auto simp: store_token_response_def prog_defs)
  obtain cache entry sta where w: "write_cache env store (oc_cache_secret_key c)
        (cache\<lparr>cf_entries := hm_insert (cache_key env c) entry (cf_entries cache)\<rparr>) sta = (Ok (Ok ()), st1)"
    and entry: "ce_access_token entry = Some a"
    using store unfolding store_token_response_def Let_def
    by (clarsimp simp: pr_Ok_iffs grant result_or_fail)
  obtain cache' st' where read: "read_cache env store (oc_cache_secret_key c) st1 = (Ok cache', st')"
    and t: "ce_access_token (the (map_of (cf_entries cache') (cache_key env c))) = Some (at_raw t)"
    and some: "map_of (cf_entries cache') (cache_key env c) \<noteq> None"
    using cached unfolding cached_token_def read_entry_def
    by (fastforce simp: pr_Ok_iffs entry_fields_def split: option.splits)
  have "cache' = cache\<lparr>cf_entries := hm_insert (cache_key env c) entry (cf_entries cache)\<rparr>"
    using written_then_read [OF laws w read] some by (auto simp: empty_cache_def)
  then show ?thesis using t entry grant by simp
qed

lemma posted_then_cached:
  assumes "cache_json_laws env" "post_form env u ps b st = (Ok resp, st1)"
    and "store_token_response env store c resp st1 = (Ok (), st2)" "cached_token env store c st2 = (Ok t, st3)"
  shows "granted_since env (cl_tick st) st3 t"
proof -
  have post: "ou_post env (cl_tick st) (FormPost u ps b) = Ok resp" "FormPost u ps b \<in> set (cl_sent st1)"
    using assms(2) by (auto simp: post_form_Ok)
  have "later st1 st3"
    by (rule later_trans [OF later_run [OF later_token_ops(3) assms(3)] later_run [OF later_token_ops(2) assms(4)]])
  then have "FormPost u ps b \<in> set (cl_sent st3)" using post(2) by (auto simp: later_def)
  then show ?thesis
    using post(1) stored_then_cached [OF assms(1,3,4)] unfolding granted_since_def by blast
qed

lemma refreshed_token:
  "cache_json_laws env \<Longrightarrow> do_refresh env store c d rt st = (Ok t, st') \<Longrightarrow> granted_since env (cl_tick st) st' t"
  unfolding do_refresh_def by (auto simp: pr_Ok_iffs intro: posted_then_cached)

lemma credentials_token:
  assumes "cache_json_laws env" "do_client_credentials_acquire env store c d s a st = (Ok (), st1)"
    and "cached_token env store c st1 = (Ok t, st2)"
  shows "granted_since env (cl_tick st) st2 t"
  using assms(2) posted_then_cached [OF assms(1) _ _ assms(3)]
  unfolding do_client_credentials_acquire_def by (cases a) (auto simp: pr_Ok_iffs)

lemma acquired_token:
  assumes "cache_json_laws env" "acquire_token env store c access expiry st = (Ok t, st')"
  shows "(access = Some (at_raw t) \<and> expiry = at_expires_at t \<and> not_expired (cl_now st') expiry) \<or>
         granted_since env (cl_tick st) st' t"
proof (cases "oc_flow c")
  case (ClientCredentials s a)
  then obtain d st1 st2 where d: "get_discovery env c st = (Ok d, st1)"
    and got: "do_client_credentials_acquire env store c d s a st1 = (Ok (), st2)" "cached_token env store c st2 = (Ok t, st')"
    using assms(2) by (auto simp: acquire_token_def pr_Ok_iffs)
  have "later st st1" by (rule later_run [OF later_token_ops(4) d])
  then have "cl_tick st \<le> cl_tick st1" by (simp add: later_def)
  then show ?thesis
    using granted_since_mono [OF credentials_token [OF assms(1) got] _ later_refl] by blast
qed (use assms(2) in \<open>auto simp: acquire_token_def pr_Ok_iffs split: option.splits if_splits\<close>)

lemma token_provenance:
  assumes laws: "cache_json_laws env" and run: "get_or_refresh_token env store c st = (Ok t, st')"
  shows "(\<exists>refresh. fst (read_entry env store c (cache_key env c) st) = Ok (Some (at_raw t), refresh, at_expires_at t)) \<and>
           not_expired (cl_now st') (at_expires_at t) \<or>
         granted_since env (cl_tick st) st' t"
proof -
  obtain access refresh expiry st1
    where entry: "read_entry env store c (cache_key env c) st = (Ok (access, refresh, expiry), st1)"
    using run by (auto simp: get_or_refresh_token_def pr_Ok_iffs)
  have st1: "later st st1" by (rule later_run [OF later_token_ops(1) entry])
  have acquired: ?thesis if "acquire_token env store c access expiry st2 = (Ok t, st')" "later st1 st2" for st2
    using acquired_token [OF laws that(1)] later_trans [OF st1 that(2)] entry
      granted_since_mono [OF _ _ later_refl, of env "cl_tick st2" st' t "cl_tick st"]
    by (auto simp: later_def)
  show ?thesis
  proof (cases "access \<noteq> None \<and> still_fresh (oc_refresh_skew c) (cl_now st1) expiry")
    case True
    then have "access = Some (at_raw t)" "expiry = at_expires_at t" "st' = st1"
      using run entry by (auto simp: get_or_refresh_token_def pr_Ok_iffs)
    moreover have "not_expired (cl_now st1) expiry"
      using True by (auto simp: still_fresh_def not_expired_def add_time_def split: option.splits if_splits)
    ultimately show ?thesis using entry by simp
  next
    case stale: False
    show ?thesis
    proof (cases refresh)
      case None
      then show ?thesis using run entry stale acquired by (auto simp: get_or_refresh_token_def pr_Ok_iffs split: if_splits)
    next
      case (Some rt)
      obtain d st2 r st3 where d: "get_discovery env c st1 = (Ok d, st2)"
        and r: "pr_try (do_refresh env store c d rt) st2 = (Ok r, st3)"
        and rest: "(case r of Ok token \<Rightarrow> pr_ok token | Err e \<Rightarrow> acquire_token env store c access expiry) st3 = (Ok t, st')"
        using run entry stale Some by (auto simp: get_or_refresh_token_def pr_Ok_iffs split: if_splits)
      have st2: "later st1 st2" by (rule later_run [OF later_token_ops(4) d])
      have refresh_later: "holds (later s0) (do_refresh env store c d rt) always" for s0
        unfolding do_refresh_def by (rule TrueI holds_intros later_token_ops)+
      have st3: "later st2 st3" by (rule later_run [OF holds_try [OF refresh_later] r])
      show ?thesis
      proof (cases r)
        case (Inl e)
        then show ?thesis using rest acquired later_trans [OF st2 st3] by simp
      next
        case (Inr token)
        then have "do_refresh env store c d rt st2 = (Ok t, st')"
          using r rest by (auto simp: prog_defs split: prod.splits sum.splits failure.splits)
        from refreshed_token [OF laws this] have "granted_since env (cl_tick st2) st' t" .
        moreover have "cl_tick st \<le> cl_tick st2" using later_trans [OF st1 st2] by (simp add: later_def)
        ultimately have "granted_since env (cl_tick st) st' t" using granted_since_mono later_refl by blast
        then show ?thesis ..
      qed
    qed
  qed
qed

end

section \<open>Invalidation\<close>

lemma memory_entry:
  "fst (read_entry env in_memory_store c key st) =
   Ok (entry_fields env (map_of (cf_entries (memory_cache env (oc_cache_secret_key c) (cl_secrets st))) key))"
  using read_cache_memory(1) [of env "oc_cache_secret_key c" st]
  by (auto simp: read_entry_def prog_defs split: prod.splits)

lemma drop_access_entry: "fst (entry_fields env (map_of (cf_entries (drop_access key cache)) key)) = None"
  by (auto simp: drop_access_def entry_fields_def split: option.splits)

lemma invalidated_cache:
  assumes laws: "cache_json_laws env" and lock: "ou_lock env (cl_tick st) = None"
    and written: "ou_cache_text env (drop_access (cache_key env c)
                 (memory_cache env (oc_cache_secret_key c) (cl_secrets st))) = Ok data"
    and run: "oidc_invalidate env in_memory_store c st = (r, st')"
  shows "memory_cache env (oc_cache_secret_key c) (cl_secrets st') =
         drop_access (cache_key env c) (memory_cache env (oc_cache_secret_key c) (cl_secrets st))"
proof -
  have locked: "pr_try (lock_cache_dir env c) st = (Ok (Ok ()), elapse env st)"
    using lock by (simp add: lock_cache_dir_def prog_defs)
  obtain cache st1 where read: "read_cache env in_memory_store (oc_cache_secret_key c) (elapse env st) = (Ok cache, st1)"
    and cache: "cache = memory_cache env (oc_cache_secret_key c) (cl_secrets st)"
    using read_cache_memory(1) [of env "oc_cache_secret_key c" "elapse env st"]
    by (cases "read_cache env in_memory_store (oc_cache_secret_key c) (elapse env st)") auto
  obtain w st2 where w: "write_cache env in_memory_store (oc_cache_secret_key c) (drop_access (cache_key env c) cache) st1 = (w, st2)"
    by fastforce
  then have st2: "memory_cache env (oc_cache_secret_key c) (cl_secrets st2) = drop_access (cache_key env c) cache" "\<exists>x. w = Ok x"
    using write_cache_memory [OF laws w] written cache by auto
  have "st' = st2"
    using run locked read w st2(2) by (auto simp: oidc_invalidate_def Let_def prog_defs)
  then show ?thesis using st2(1) cache by simp
qed

section \<open>The device grant ends\<close>

lemma device_poll_ends:
  assumes progress: "\<And>n. 0 < ou_latency env n"
  shows "deadline + 1 - cl_now st < fuel \<Longrightarrow>
    fst (device_poll fuel env store c endpoint params deadline interval st) \<noteq> Ok None"
proof (induction fuel arbitrary: interval st)
  case 0
  then show ?case by simp
next
  case (Suc fuel)
  show ?case
  proof (cases "deadline < cl_now st")
    case True
    then show ?thesis by (simp add: prog_defs)
  next
    case False
    let ?st1 = "st\<lparr>cl_now := cl_now st + interval\<rparr>"
    obtain q st2 where post: "post_form env endpoint params None ?st1 = (q, st2)" by fastforce
    then have "cl_now st2 = cl_now st + interval + ou_latency env (cl_tick st)"
      by (auto simp: post_form_def Let_def prog_defs elapse_def)
    then have fuel: "deadline + 1 - cl_now st2 < fuel"
      using Suc.prems False progress [of "cl_tick st"] by linarith
    note IH = Suc.IH [OF fuel]
    show ?thesis
    proof (cases q)
      case (Inl e)
      then show ?thesis using False post by (simp add: prog_defs)
    next
      case (Inr resp)
      show ?thesis
        using False post Inr IH
        by (auto simp: pr_get_def pr_lift_def pr_bind_def pr_sleep_def or_panic_def
            split: option.split prod.splits sum.splits)
    qed
  qed
qed

lemma device_login_terminates:
  assumes progress: "\<And>n. 0 < ou_latency env n" and fuel: "system_time_max + 1 < fuel"
  shows "fst (do_device_code_login fuel env store c d st) \<noteq> Ok None"
proof (rule notI)
  assume none: "fst (do_device_code_login fuel env store c d st) = Ok None"
  then obtain st' where run: "do_device_code_login fuel env store c d st = (Ok None, st')"
    by (cases "do_device_code_login fuel env store c d st") simp
  then obtain endpoint params deadline interval st1 where
      poll: "device_poll fuel env store c endpoint params deadline interval st1 = (Ok None, st')"
    and deadline: "deadline \<le> system_time_max"
    by (auto simp: do_device_code_login_def or_panic_def add_time_def pr_Ok_iffs split: option.splits if_splits)
  have "deadline + 1 - cl_now st1 < fuel" using deadline fuel by linarith
  then show False using device_poll_ends [OF progress] poll by (metis fst_conv)
qed

end
