(* ===== verification/Oidc_Client_Properties.thy ===== *)
theory Oidc_Client_Properties
  imports Oidc_Client_Safety
begin

text \<open>
  The properties of the native OIDC client and the situations they are applied to: a client of a
  provider on the loopback interface with two users' grants in its cache file. Three lemmas at the
  end record what modelling showed: an unreadable store costs every grant, a logout that changed
  nothing succeeds, and a long token lifetime panics.
\<close>

section \<open>A client of a provider\<close>

definition demo_parse :: "string \<Rightarrow> string + endpoint_url" where
  "demo_parse raw =
     (if starts_with ''https://'' raw
      then Ok \<lparr>url_scheme = ''https'', url_host = Some (takeWhile (\<lambda>c. c \<noteq> CHR ''/'') (drop 8 raw)), url_port = None,
              url_path = dropWhile (\<lambda>c. c \<noteq> CHR ''/'') (drop 8 raw), url_username = [], url_password = None,
              url_query = None, url_fragment = None\<rparr>
      else Err ''relative URL without a base'')"

definition demo_pair :: "string \<Rightarrow> string \<times> string" where
  "demo_pair p = (case split_once (CHR ''='') p of Some kv \<Rightarrow> kv | None \<Rightarrow> (p, []))"

definition demo_cache :: "string option \<Rightarrow> string \<Rightarrow> cache_file" where
  "demo_cache access obtained =
     \<lparr>cf_version = 1,
      cf_entries =
        [(''4b'', \<lparr>ce_access_token = access, ce_refresh_token = Some ''rt'', ce_expires_at = None,
                  ce_obtained_at = obtained, ce_scopes = [''openid'']\<rparr>),
         (''other'', \<lparr>ce_access_token = Some ''at2'', ce_refresh_token = None, ce_expires_at = None,
                     ce_obtained_at = ''then'', ce_scopes = []\<rparr>)]\<rparr>"

definition demo_texts :: "(string \<times> cache_file) list" where
  "demo_texts =
     [(''c0'', demo_cache (Some ''old'') ''then''), (''c1'', demo_cache None ''then''), (''c2'', demo_cache (Some ''new'') ''now''),
      (''c3'', empty_cache)]"

definition demo_reply :: json where
  "demo_reply = JObj [(''access_token'', JStr ''new''), (''token_type'', JStr ''Bearer'')]"

definition demo_document :: json where
  "demo_document =
     JObj [(''issuer'', JStr ''https://id.example''), (''token_endpoint'', JStr ''https://id.example/token''),
           (''authorization_endpoint'', JStr ''https://id.example/auth'')]"

definition demo_outside :: outside where
  "demo_outside =
     \<lparr>ou_parse_url = demo_parse, ou_query_pairs = (\<lambda>_. []),
      ou_with_pairs = (\<lambda>u ps. url_path u @ ''?'' @ str_join ''&'' (map (\<lambda>(k, v). k @ ''='' @ v) ps)),
      ou_form = (\<lambda>q. map demo_pair (str_split (CHR ''&'') q)),
      ou_post = (\<lambda>_ _. Ok demo_reply), ou_get = (\<lambda>_ _. Ok (200, Some demo_document)),
      ou_latency = (\<lambda>_. 1), ou_lock = (\<lambda>_. None), ou_bind = (\<lambda>_ p. Ok p),
      ou_callback = (\<lambda>_. Received (''GET /callback?code=abc&state=5353 HTTP/1.1'' @ [CHR 0x0D, CHR 0x0A]) True),
      ou_random = (\<lambda>_ _. ''SS''), ou_sha256 = (\<lambda>_. ''K''), ou_base64url = (\<lambda>s. ''b'' @ s),
      ou_format_time = (\<lambda>_. Some ''now''), ou_parse_time = (\<lambda>_. None),
      ou_cache_text = (\<lambda>c. case find (\<lambda>(_, x). x = c) demo_texts of Some (t, _) \<Rightarrow> Ok t | None \<Rightarrow> Err ''unsupported''),
      ou_cache_parse = map_of demo_texts\<rparr>"

definition demo_builder :: oidc_client_builder where
  "demo_builder =
     \<lparr>ob_issuer_url = Some ''https://id.example/'', ob_discovery_url = None, ob_token_endpoint_url = None,
      ob_client_id = Some ''cli'', ob_flow = Some (AuthCodePkce redirect_default), ob_scopes = None, ob_cache_dir = None,
      ob_app_name = Some ''demo'', ob_open_browser = True, ob_refresh_skew = 0, ob_cache_secret_key = None\<rparr>"

definition demo_client :: oidc_client where
  "demo_client =
     \<lparr>oc_issuer_url = ''https://id.example'', oc_discovery_url = None, oc_token_endpoint_url = None,
      oc_client_id = ''cli'', oc_flow = AuthCodePkce redirect_default, oc_scopes = None,
      oc_cache_dir = [''home'', ''cli-framework-oidc'', ''demo''], oc_open_browser = True, oc_refresh_skew = 0,
      oc_cache_secret_key = SecretKey ''demo/oidc/token.json''\<rparr>"

definition demo_state :: "string \<Rightarrow> memory_secrets client_state" where
  "demo_state cache =
     \<lparr>cl_secrets = [(''demo/oidc/token.json'', cache)], cl_discovery = None, cl_now = 0, cl_tick = 0,
      cl_sent = [], cl_told = [], cl_answered = []\<rparr>"

definition demo_discovery :: client_discovery where
  "demo_discovery =
     \<lparr>cd_token_endpoint = ''https://id.example/token'', cd_device_authorization_endpoint = None,
      cd_authorization_endpoint = Some ''https://id.example/auth''\<rparr>"

lemma demo_built: "build_client demo_parse (Some [''home'']) True demo_builder = Ok demo_client"
  by code_simp

lemma demo_laws: "cache_json_laws demo_outside"
proof -
  have "map_of demo_texts t = Some c" if "find (\<lambda>(_, x). x = c) demo_texts = Some (t, y)" for t c y
    using that by (auto simp: demo_texts_def split: if_splits)
  then show ?thesis
    by (auto simp: cache_json_laws_def demo_outside_def split: option.splits)
qed

lemma run_of_fst: "fst p = r \<Longrightarrow> p = (r, snd p)"
  by auto

lemma demo_token_run:
  "fst (run_calls 5 demo_outside in_memory_store demo_client [CallToken] (demo_state ''c1'')) = Ok ()"
  "cl_sent (snd (run_calls 5 demo_outside in_memory_store demo_client [CallToken] (demo_state ''c1''))) =
     [DiscoveryGet ''https://id.example/.well-known/openid-configuration'',
      FormPost ''https://id.example/token''
        [(''grant_type'', ''refresh_token''), (''client_id'', ''cli''), (''refresh_token'', ''rt'')] None]"
  by code_simp+

lemma demo_invalidate_run:
  "fst (run_calls 5 demo_outside in_memory_store demo_client [CallInvalidate, CallToken] (demo_state ''c0'')) = Ok ()"
  by code_simp

section \<open>The loopback login\<close>

lemma split_once_Some: "split_once ch s = Some (a, b) \<Longrightarrow> s = a @ ch # b \<and> ch \<notin> set a"
proof -
  assume split: "split_once ch s = Some (a, b)"
  then have "ch \<in> set s" and a: "a = takeWhile (\<lambda>x. x \<noteq> ch) s" and b: "b = tl (dropWhile (\<lambda>x. x \<noteq> ch) s)"
    by (auto simp: split_once_def split: if_splits)
  then obtain rest where "dropWhile (\<lambda>x. x \<noteq> ch) s = ch # rest"
    by (metis (mono_tags, lifting) dropWhile_eq_Nil_conv hd_dropWhile list.collapse)
  then show ?thesis
    using a b takeWhile_dropWhile_id [of "\<lambda>x. x \<noteq> ch" s] set_takeWhileD [of ch "\<lambda>x. x \<noteq> ch" s] by auto
qed

lemma split_once_iff: "split_once ch s = Some (a, b) \<longleftrightarrow> s = a @ ch # b \<and> ch \<notin> set a"
proof
  assume s: "s = a @ ch # b \<and> ch \<notin> set a"
  then have "\<And>x. x \<in> set a \<Longrightarrow> x \<noteq> ch" by auto
  then show "split_once ch s = Some (a, b)" using s by (simp add: split_once_def takeWhile_append2 dropWhile_append2)
qed (rule split_once_Some)

text \<open>The request line that delivers a code for a state, and nothing else.\<close>

definition delivers :: "outside \<Rightarrow> string \<Rightarrow> string \<Rightarrow> string \<Rightarrow> bool" where
  "delivers env line state code \<longleftrightarrow>
     (\<exists>query version.
        split_whitespace line = [''GET'', ''/callback?'' @ query, version] \<and> version \<in> {''HTTP/1.0'', ''HTTP/1.1''} \<and>
        CHR ''#'' \<notin> set query \<and> state \<noteq> [] \<and> code \<noteq> [] \<and>
        form_values ''state'' (ou_form env query) = [state] \<and> form_values ''code'' (ou_form env query) = [code] \<and>
        form_values ''error'' (ou_form env query) = [])"

lemma length_one: "length xs = Suc 0 \<Longrightarrow> xs = [hd xs]"
  by (cases xs) auto

lemma length_three: "length xs = 3 \<Longrightarrow> xs = [xs ! 0, xs ! 1, xs ! 2]"
  by (auto simp: numeral_3_eq_3 numeral_2_eq_2 length_Suc_conv)

lemma no_error_values: "form_values k pairs = [] \<longleftrightarrow> \<not> list_ex (\<lambda>(q, _). q = k) pairs"
  by (auto simp: form_values_def list_ex_iff filter_empty_conv)

lemma parse_request_delivers: "parse_request (ou_form env) line state = Ok code \<Longrightarrow> delivers env line state code"
proof -
  assume ok: "parse_request (ou_form env) line state = Ok code"
  let ?parts = "split_whitespace line"
  from ok have three: "?parts = [?parts ! 0, ?parts ! 1, ?parts ! 2]"
    by (intro length_three) (auto simp: parse_request_def Let_def split: if_splits)
  from ok obtain path query where q: "split_once (CHR ''?'') (?parts ! 1) = Some (path, query)"
    by (auto simp: parse_request_def Let_def split: if_splits option.splits)
  with ok have facts: "?parts ! 0 = ''GET''" "?parts ! 2 \<in> {''HTTP/1.0'', ''HTTP/1.1''}" "path = ''/callback''"
      "CHR ''#'' \<notin> set query" "state \<noteq> []" "code \<noteq> []" "form_values ''error'' (ou_form env query) = []"
      "length (form_values ''state'' (ou_form env query)) = 1" "hd (form_values ''state'' (ou_form env query)) = state"
      "length (form_values ''code'' (ou_form env query)) = 1" "hd (form_values ''code'' (ou_form env query)) = code"
    unfolding no_error_values by (auto simp: parse_request_def Let_def split: if_splits)
  have "?parts ! 1 = ''/callback?'' @ query" using split_once_Some [OF q] facts(3) by simp
  then have "?parts = [''GET'', ''/callback?'' @ query, ?parts ! 2]" using three facts(1) by simp
  then show ?thesis
    unfolding delivers_def using facts length_one [of "form_values ''state'' (ou_form env query)"]
      length_one [of "form_values ''code'' (ou_form env query)"]
    by (intro exI [where x = query] exI [where x = "?parts ! 2"]) simp
qed

lemma callback_delivers: "callback_result env bs state = Ok code \<Longrightarrow> delivers env (first_line bs) state code"
  by (auto simp: callback_result_def Let_def split: if_splits intro: parse_request_delivers)

lemma store_keeps_log:
  "holds (\<lambda>st. cl_sent st = sent \<and> cl_told st = told) (store_token_response env store c resp) always"
proof -
  let ?I = "\<lambda>st. cl_sent st = sent \<and> cl_told st = told"
  have store: "holds ?I (pr_store env g) always" for g
    by (rule holdsI) (auto simp: pr_store_def split: prod.splits)
  have lock: "holds ?I (lock_cache_dir env c) always"
    by (rule holdsI) (auto simp: lock_cache_dir_def prog_defs split: option.splits)
  show ?thesis
    unfolding store_token_response_def read_cache_def load_at_def write_cache_def Let_def
    by (rule TrueI holds_intros store lock)+
qed

lemma callback_answer:
  "wait_for_callback env state st = (q, st') \<Longrightarrow>
   \<exists>ans. q = Ok ans \<and> cl_sent st' = cl_sent st \<and> cl_told st' = cl_told st \<and>
     (\<forall>code. ans = Ok code \<longrightarrow> (\<exists>bs. delivers env (first_line bs) state code))"
  by (cases "ou_callback env (cl_tick st)")
    (auto simp: wait_for_callback_def prog_defs Let_def split: if_splits, blast intro: callback_delivers)

lemma exchange_log:
  assumes "pr_bind (post_form env u ps b) (store_token_response env store c) st = (r, st')"
  shows "cl_sent st' = cl_sent st @ [FormPost u ps b]" "cl_told st' = cl_told st"
proof -
  obtain q st1 where post: "post_form env u ps b st = (q, st1)" by fastforce
  then have st1: "cl_sent st1 = cl_sent st @ [FormPost u ps b]" "cl_told st1 = cl_told st"
    by (auto simp: post_form_def Let_def prog_defs)
  have "cl_sent st' = cl_sent st1 \<and> cl_told st' = cl_told st1"
  proof (cases q)
    case (Inl e)
    then show ?thesis using assms post by (auto simp: pr_bind_def)
  next
    case (Inr resp)
    then have "store_token_response env store c resp st1 = (r, st')" using assms post by (simp add: pr_bind_def)
    then show ?thesis using holdsD [OF store_keeps_log] by blast
  qed
  then show "cl_sent st' = cl_sent st @ [FormPost u ps b]" "cl_told st' = cl_told st" using st1 by simp_all
qed


lemma bind_steps:
  "pr_bind (pr_outside env g) f st = f (g (cl_tick st)) (elapse env st)"
  "pr_bind (pr_tell rep) h st = h () (st\<lparr>cl_told := cl_told st @ [rep]\<rparr>)"
  by (simp_all add: prog_defs)

lemma demo_callback:
  "callback_result demo_outside (''GET /callback?code=abc&state=5353 HTTP/1.1'' @ [CHR 0x0D, CHR 0x0A]) ''5353'' = Ok ''abc''"
  by (simp add: callback_result_def first_line_def split_once_def parse_request_def split_whitespace_def is_ws_def
      form_values_def demo_outside_def demo_pair_def Let_def)

lemma demo_wait:
  "pr_bind (wait_for_callback demo_outside ''5353'') f st =
   f (Ok ''abc'') ((elapse demo_outside st)\<lparr>cl_answered := cl_answered st @ [''200 OK'']\<rparr>)"
proof -
  have ev: "ou_callback demo_outside t = Received (''GET /callback?code=abc&state=5353 HTTP/1.1'' @ [CHR 0x0D, CHR 0x0A]) True" for t
    by (simp add: demo_outside_def)
  show ?thesis
    unfolding wait_for_callback_def pr_bind_def pr_outside_def ev
    by (simp add: demo_callback [simplified] callback_response_def)
qed


section \<open>Where credentials go\<close>

text \<open>
  C12. Whatever a client that the builder accepted does, and in whatever order its methods are called, a request that
  carries a code, a refresh token, a device code or a client secret goes to an HTTPS endpoint, or
  over HTTP to this machine or to a service of the cluster, without user info or fragment.
\<close>

theorem credentials_only_to_secure_endpoints:
  assumes "build_client (ou_parse_url env) dirs http b = Ok c"
    and "cl_sent st = []" "cl_discovery st = None"
    and "run_calls fuel env store c ms st = (r, st')" "FormPost u ps basic \<in> set (cl_sent st')"
  shows "endpoint_ok (ou_parse_url env) u"
proof -
  have "posts_ok env st" using assms(2,3) by (simp add: posts_ok_def)
  then have "posts_ok env st'"
    using holdsD [OF posts_run_calls [OF built_override_ok [OF assms(1)]] _ assms(4)] by simp
  then show ?thesis using assms(5) by (auto simp: posts_ok_def)
qed

theorem credentials_only_to_secure_endpoints_witness:
  "\<exists>st'. run_calls 5 demo_outside in_memory_store demo_client [CallToken] (demo_state ''c1'') = (Ok (), st') \<and>
     length (cl_sent st') = 2 \<and> endpoint_ok (ou_parse_url demo_outside) ''https://id.example/token''"
proof -
  let ?run = "run_calls 5 demo_outside in_memory_store demo_client [CallToken] (demo_state ''c1'')"
  note ok = demo_token_run(1) and sent = demo_token_run(2)
  have run: "?run = (Ok (), snd ?run)" by (rule run_of_fst [OF ok])
  have built: "build_client (ou_parse_url demo_outside) (Some [''home'']) True demo_builder = Ok demo_client"
    using demo_built by (simp add: demo_outside_def)
  have start: "cl_sent (demo_state ''c1'') = []" "cl_discovery (demo_state ''c1'') = None" by (simp_all add: demo_state_def)
  have posted: "FormPost ''https://id.example/token''
        [(''grant_type'', ''refresh_token''), (''client_id'', ''cli''), (''refresh_token'', ''rt'')] None \<in> set (cl_sent (snd ?run))"
    unfolding sent by simp
  have two: "length (cl_sent (snd ?run)) = 2" unfolding sent by simp
  show ?thesis
    by (intro exI conjI) (rule run, rule two, rule credentials_only_to_secure_endpoints [OF built start run posted])
qed

section \<open>The tokens of others\<close>



section \<open>What a token is\<close>





section \<open>Logging in ends\<close>

text \<open>
  C16. A login ends, whatever the provider answers to the polls and however often it asks to slow
  down: the device code expires, so with fuel for every instant a clock can show the fuel is never
  the reason to stop.
\<close>

theorem device_login_ends:
  assumes "\<And>n. 0 < ou_latency env n" "system_time_max + 1 < fuel"
  shows "fst (do_interactive_login fuel env store c st) \<noteq> Ok None"
proof (rule notI)
  assume "fst (do_interactive_login fuel env store c st) = Ok None"
  then obtain st' where "do_interactive_login fuel env store c st = (Ok None, st')"
    by (cases "do_interactive_login fuel env store c st") simp
  then obtain d st1 where "do_device_code_login fuel env store c d st1 = (Ok None, st')"
    by (cases "oc_flow c") (auto simp: do_interactive_login_def pr_Ok_iffs)
  then show False using device_login_terminates [OF assms, of store c d st1] by simp
qed

theorem device_login_ends_witness:
  "fst (do_interactive_login (system_time_max + 2) demo_outside in_memory_store
      (demo_client\<lparr>oc_flow := DeviceCode\<rparr>) (demo_state ''c0'')) \<noteq> Ok None"
  by (rule device_login_ends) (simp_all add: demo_outside_def)

section \<open>What modelling showed\<close>

text \<open>
  A read that fails for a moment is taken for an empty cache, which is then written back: while the
  store cannot be read but can be written, invalidating one token replaces the whole file, with the
  refresh tokens of every client in it, by an empty one.
\<close>

definition unreadable :: "memory_secrets secret_store" where
  "unreadable = in_memory_store\<lparr>ss_get := (\<lambda>k s. (Err (SecretUnavailable ''timeout''), s))\<rparr>"

lemma unreadable_cache_is_erased:
  assumes "ou_lock env (cl_tick st) = None" "ou_cache_text env empty_cache = Ok data"
    and "oc_cache_secret_key c \<noteq> legacy_cache_secret_key" "oidc_invalidate env unreadable c st = (r, st')"
  shows "r = Ok ()" "memory_view (cl_secrets st') (oc_cache_secret_key c) = Some data"
proof -
  have empty: "drop_access key empty_cache = empty_cache" for key by (simp add: drop_access_def empty_cache_def)
  have get: "ss_get unreadable k s = (Err (SecretUnavailable ''timeout''), s)"
    and put: "ss_put unreadable k v s = (Ok (), hm_insert (key_str k) v s)"
    and del: "ss_delete unreadable k s = (Ok (), filter (\<lambda>(q, _). q \<noteq> key_str k) s)" for k v s
    by (simp_all add: unreadable_def memory_put memory_delete)
  have "r = Ok () \<and> cl_secrets st' =
      filter (\<lambda>(q, _). q \<noteq> key_str legacy_cache_secret_key) (hm_insert (key_str (oc_cache_secret_key c)) data (cl_secrets st))"
    using assms by (auto simp: oidc_invalidate_def lock_cache_dir_def read_cache_def load_at_def write_cache_def Let_def
        prog_defs get put del empty)
  then show "r = Ok ()" "memory_view (cl_secrets st') (oc_cache_secret_key c) = Some data"
    using assms(3) by (simp_all add: memory_view_put memory_view_delete)
qed

text \<open>A logout whose write is refused leaves every token where it was, and reports success.\<close>

definition unwritable :: "memory_secrets secret_store" where
  "unwritable = in_memory_store\<lparr>ss_put := (\<lambda>k v s. (Err SecretPermissionDenied, s))\<rparr>"

lemma failed_logout_succeeds:
  assumes "ou_lock env (cl_tick st) = None" "oidc_logout env unwritable c st = (r, st')"
  shows "r = Ok ()" "cl_secrets st' = cl_secrets st"
proof -
  have ops: "ss_get unwritable k s = ss_get in_memory_store k s"
    "ss_put unwritable k v s = (Err SecretPermissionDenied, s)" for k v s
    by (simp_all add: unwritable_def)
  have "r = Ok () \<and> cl_secrets st' = cl_secrets st"
    using assms by (auto simp: oidc_logout_def lock_cache_dir_def read_cache_def load_at_def write_cache_def Let_def
        prog_defs ops memory_get split: option.splits sum.splits if_splits)
  then show "r = Ok ()" "cl_secrets st' = cl_secrets st" by simp_all
qed

text \<open>The lifetime in a reply of the provider is added to the clock unchecked.\<close>

lemma long_lifetime_panics:
  "token_grant resp = Ok (a, Some secs, refresh) \<Longrightarrow> system_time_max < cl_now st + seconds (unat secs) \<Longrightarrow>
   store_token_response env store c resp st = (Err Panicked, st)"
  by (simp add: store_token_response_def prog_defs or_panic_def add_time_def)

end
