(* ===== verification/Telemetry_Policy.thy ===== *)
theory Telemetry_Policy
  imports Resolver
begin

text \<open>
  The telemetry decision (\<open>src/telemetry\<close>): the axes (\<open>axes.rs\<close>), the probe catalog
  (\<open>probe.rs\<close>), the one resolution of the policy (\<open>policy.rs\<close>) and the notice shown to a
  person (\<open>notice.rs\<close>).

  The environment of the process is the function \<open>env\<close> the source itself takes as an
  argument. A value formatted with \<open>{:?}\<close>, the name of an organisation policy, is kept
  between quotes, without escapes.
\<close>

section \<open>Axes\<close>

datatype deployment = EndUser "string option" | Service

definition deployment_default :: deployment where
  "deployment_default = EndUser None"

definition is_end_user :: "deployment \<Rightarrow> bool" where
  "is_end_user d = (case d of EndUser _ \<Rightarrow> True | Service \<Rightarrow> False)"

definition privacy_url :: "deployment \<Rightarrow> string option" where
  "privacy_url d = (case d of EndUser url \<Rightarrow> url | Service \<Rightarrow> None)"

definition deployment_as_str :: "deployment \<Rightarrow> string" where
  "deployment_as_str d = (case d of EndUser _ \<Rightarrow> ''end_user'' | Service \<Rightarrow> ''service'')"

datatype telemetry_level = TL_Off | TL_Usage | TL_Diagnostic | TL_Debug

fun level_rank :: "telemetry_level \<Rightarrow> nat" where
  "level_rank TL_Off = 0"
| "level_rank TL_Usage = 1"
| "level_rank TL_Diagnostic = 2"
| "level_rank TL_Debug = 3"

text \<open>The derived \<open>Ord\<close>: the order of the variants.\<close>

instantiation telemetry_level :: linorder
begin

definition less_eq_telemetry_level :: "telemetry_level \<Rightarrow> telemetry_level \<Rightarrow> bool" where
  "a \<le> b \<longleftrightarrow> level_rank a \<le> level_rank b"

definition less_telemetry_level :: "telemetry_level \<Rightarrow> telemetry_level \<Rightarrow> bool" where
  "a < b \<longleftrightarrow> level_rank a < level_rank b"

instance
proof
  fix a b :: telemetry_level
  assume "a \<le> b" "b \<le> a"
  then show "a = b" by (cases a; cases b) (auto simp: less_eq_telemetry_level_def)
qed (auto simp: less_eq_telemetry_level_def less_telemetry_level_def)

end

lemmas level_order = less_eq_telemetry_level_def less_telemetry_level_def

lemma level_off_least [simp]: "TL_Off \<le> l" "\<not> l < TL_Off" "TL_Off < l \<longleftrightarrow> l \<noteq> TL_Off"
  by (cases l; simp add: level_order)+

definition TELEMETRY_LEVELS :: "telemetry_level list" where
  "TELEMETRY_LEVELS = [TL_Off, TL_Usage, TL_Diagnostic, TL_Debug]"

fun level_as_str :: "telemetry_level \<Rightarrow> string" where
  "level_as_str TL_Off = ''off''"
| "level_as_str TL_Usage = ''usage''"
| "level_as_str TL_Diagnostic = ''diagnostic''"
| "level_as_str TL_Debug = ''debug''"

record parse_axis_error =
  axis_kind :: string
  axis_value :: string
  axis_expected :: string

definition level_from_str :: "string \<Rightarrow> parse_axis_error + telemetry_level" where
  "level_from_str s =
     (if s = ''off'' then Ok TL_Off
      else if s = ''usage'' then Ok TL_Usage
      else if s = ''diagnostic'' then Ok TL_Diagnostic
      else if s = ''debug'' then Ok TL_Debug
      else Err \<lparr> axis_kind = ''telemetry level'', axis_value = s,
                 axis_expected = ''off, usage, diagnostic, debug'' \<rparr>)"

datatype attribution = Anonymous | Pseudonymous | Identified

definition ATTRIBUTIONS :: "attribution list" where
  "ATTRIBUTIONS = [Anonymous, Pseudonymous, Identified]"

fun attribution_as_str :: "attribution \<Rightarrow> string" where
  "attribution_as_str Anonymous = ''anonymous''"
| "attribution_as_str Pseudonymous = ''pseudonymous''"
| "attribution_as_str Identified = ''identified''"

definition attribution_from_str :: "string \<Rightarrow> parse_axis_error + attribution" where
  "attribution_from_str s =
     (if s = ''anonymous'' then Ok Anonymous
      else if s = ''pseudonymous'' then Ok Pseudonymous
      else if s = ''identified'' then Ok Identified
      else Err \<lparr> axis_kind = ''attribution'', axis_value = s,
                 axis_expected = ''anonymous, pseudonymous, identified'' \<rparr>)"

lemma level_str_roundtrip: "level_from_str s = Ok l \<longleftrightarrow> s = level_as_str l"
  by (cases l) (auto simp: level_from_str_def)

lemma attribution_str_roundtrip: "attribution_from_str s = Ok a \<longleftrightarrow> s = attribution_as_str a"
  by (cases a) (auto simp: attribution_from_str_def)

section \<open>Probes\<close>

definition RESERVED_FIRST_SEGMENTS :: "string list" where
  "RESERVED_FIRST_SEGMENTS =
     [''level'', ''attribution'', ''install_id'', ''notice_shown'', ''endpoint'', ''traces'', ''metrics'', ''logs'']"

record probe_spec =
  ps_id :: string
  ps_min_level :: telemetry_level
  ps_summary :: string
  ps_sends :: string

definition probe_spec_of :: "string \<Rightarrow> telemetry_level \<Rightarrow> string \<Rightarrow> string \<Rightarrow> probe_spec" where
  "probe_spec_of i l sm sd = \<lparr> ps_id = i, ps_min_level = l, ps_summary = sm, ps_sends = sd \<rparr>"

datatype probe_id_error =
    Malformed string
  | Reserved string string
  | DuplicateProbe string
  | ShadowsEnabledSwitch string

definition OWNED_PROBE_LEAF :: string where
  "OWNED_PROBE_LEAF = ''enabled''"

definition is_ascii_lowercase :: "char \<Rightarrow> bool" where
  "is_ascii_lowercase c \<longleftrightarrow> (let n = (of_char c :: nat) in 97 \<le> n \<and> n \<le> 122)"

definition is_ascii_digit :: "char \<Rightarrow> bool" where
  "is_ascii_digit c \<longleftrightarrow> (let n = (of_char c :: nat) in 48 \<le> n \<and> n \<le> 57)"

definition first_segment_ok :: "string \<Rightarrow> bool" where
  "first_segment_ok s \<longleftrightarrow> s \<noteq> [] \<and> list_all (\<lambda>c. is_ascii_lowercase c \<or> is_ascii_digit c) s"

definition segment_ok :: "string \<Rightarrow> bool" where
  "segment_ok s \<longleftrightarrow> s \<noteq> [] \<and> list_all (\<lambda>c. is_ascii_lowercase c \<or> is_ascii_digit c \<or> c = CHR ''_'') s"

text \<open>The loop of \<open>validate_probe_id\<close> over the segments after the first.\<close>

fun check_segments :: "string \<Rightarrow> string list \<Rightarrow> probe_id_error + unit" where
  "check_segments probe [] = Ok ()"
| "check_segments probe (s # ss) =
     (if \<not> segment_ok s then Err (Malformed probe)
      else if s = OWNED_PROBE_LEAF then Err (ShadowsEnabledSwitch probe)
      else check_segments probe ss)"

definition validate_probe_id :: "string \<Rightarrow> probe_id_error + unit" where
  "validate_probe_id probe =
     (let segments = str_split (CHR ''.'') probe; first = hd segments
      in case find (\<lambda>r. r = first) RESERVED_FIRST_SEGMENTS of
           Some reserved \<Rightarrow> Err (Reserved probe reserved)
         | None \<Rightarrow> if \<not> first_segment_ok first then Err (Malformed probe) else check_segments probe (tl segments))"

type_synonym probe_registry = "probe_spec list"

definition probe_get :: "probe_registry \<Rightarrow> string \<Rightarrow> probe_spec option" where
  "probe_get r probe = find (\<lambda>p. ps_id p = probe) r"

definition probe_contains :: "probe_registry \<Rightarrow> string \<Rightarrow> bool" where
  "probe_contains r probe \<longleftrightarrow> probe_get r probe \<noteq> None"

definition probe_register :: "probe_spec \<Rightarrow> probe_registry \<Rightarrow> probe_id_error + probe_registry" where
  "probe_register spec r =
     and_then (validate_probe_id (ps_id spec)) (\<lambda>_.
       if list_ex (\<lambda>p. ps_id p = ps_id spec) r then Err (DuplicateProbe (ps_id spec))
       else Ok (sort_key ps_id (r @ [spec])))"

definition register_feature :: "string \<Rightarrow> probe_registry \<Rightarrow> probe_id_error + probe_registry" where
  "register_feature name r =
     (if name = [] \<or> CHR ''.'' \<in> set name then Err (Malformed name)
      else
        (let probe = ''cli.feature.'' @ name
         in and_then (validate_probe_id probe) (\<lambda>_.
              probe_register
                (probe_spec_of probe TL_Usage (''The '' @ [CHR 0x27] @ name @ [CHR 0x27] @ '' feature'')
                   ''The feature name, and nothing else'') r)))"

text \<open>The walk of \<open>effective\<close> along the prefixes of the id.\<close>

fun prefixes_enabled :: "probe_registry \<Rightarrow> (string \<Rightarrow> bool) \<Rightarrow> string \<Rightarrow> string list \<Rightarrow> bool" where
  "prefixes_enabled r enabled prefix [] = True"
| "prefixes_enabled r enabled prefix (s # ss) =
     (let prefix' = (if prefix \<noteq> [] then prefix @ ''.'' else prefix) @ s
      in if probe_contains r prefix' \<and> \<not> enabled prefix' then False
         else prefixes_enabled r enabled prefix' ss)"

definition effective :: "probe_registry \<Rightarrow> telemetry_level \<Rightarrow> string \<Rightarrow> (string \<Rightarrow> bool) \<Rightarrow> bool" where
  "effective r level probe enabled =
     (case probe_get r probe of
        None \<Rightarrow> False
      | Some spec \<Rightarrow>
          if level = TL_Off \<or> level < ps_min_level spec then False
          else prefixes_enabled r enabled [] (str_split (CHR ''.'') probe))"

datatype feature_outcome_kind = Recorded | Unregistered

definition feature_outcome :: "string list \<Rightarrow> string \<Rightarrow> feature_outcome_kind" where
  "feature_outcome registered name = (if name \<in> set registered then Recorded else Unregistered)"

definition BUILTIN_PROBES :: "probe_spec list" where
  "BUILTIN_PROBES =
     [probe_spec_of ''cli.process'' TL_Usage
         ''Process start and exit''
         ''That the app ran, its version, and the exit status class'',
      probe_spec_of ''cli.command'' TL_Usage
         ''Which command ran''
         ''The registered command path, the invocation surface, duration and status'',
      probe_spec_of ''cli.command.args'' TL_Diagnostic
         ''Which arguments were supplied''
         ''Argument names and how many there were, never their values'',
      probe_spec_of ''cli.command.arg_values'' TL_Debug
         ''Argument values''
         ''Values of arguments the author explicitly allowlisted, and no others'',
      probe_spec_of ''cli.usage_error'' TL_Usage
         ''Commands that were typed wrongly''
         ''The kind of mistake: unknown command, unknown flag, missing argument, invalid value or failed validation'',
      probe_spec_of ''cli.usage_error.token'' TL_Debug
         ''The text that was not understood''
         ''The offending token itself'',
      probe_spec_of ''cli.panic'' TL_Usage
         ''Crashes''
         ''That the app panicked and the source location, never the message'',
      probe_spec_of ''cli.panic.message'' TL_Debug
         ''Crash messages''
         ''The panic message text'',
      probe_spec_of ''cli.help'' TL_Usage
         ''Help lookups''
         ''Which command's help was asked for'',
      probe_spec_of ''cli.feature'' TL_Usage
         ''Named features the app marks''
         ''The name of a feature the author registered, and nothing else'',
      probe_spec_of ''cli.auth'' TL_Usage
         ''Sign-in activity''
         ''That a login, logout, refresh or failure happened, never a credential'',
      probe_spec_of ''cli.config'' TL_Diagnostic
         ''Configuration reads and writes''
         ''Which setting was touched and whether it succeeded, never the value'',
      probe_spec_of ''cli.secrets'' TL_Diagnostic
         ''Secret-store activity''
         ''Which backend was used and whether it succeeded, never a secret'',
      probe_spec_of ''cli.doctor'' TL_Usage
         ''Diagnostic runs''
         ''Which checks ran and how severe their findings were'',
      probe_spec_of ''cli.plugin'' TL_Diagnostic
         ''Plugin activity''
         ''Which plugin loaded or failed to load'',
      probe_spec_of ''cli.chat'' TL_Usage
         ''Chat sessions''
         ''That a chat session ran and how long it lasted, never prompt text'',
      probe_spec_of ''http.client'' TL_Diagnostic
         ''Outbound requests''
         ''Method, status and duration, never the URL path or query'',
      probe_spec_of ''http.client.server_address'' TL_Diagnostic
         ''Which host was called''
         ''The destination host name, on the span only'',
      probe_spec_of ''http.server'' TL_Usage
         ''Requests served''
         ''The matched route template, method, status and duration'',
      probe_spec_of ''mcp.session'' TL_Usage
         ''Agent sessions''
         ''That an MCP session ran, which tools it called and how long it lasted'']"

text \<open>\<open>ProbeRegistry::with_builtins\<close>; the \<open>expect\<close> is an error here.\<close>

definition with_builtins :: "probe_id_error + probe_registry" where
  "with_builtins = fold_results probe_register BUILTIN_PROBES []"

section \<open>Kill switches\<close>

datatype kill_switch = AppDisabled | OtelSdkDisabled | DoNotTrack

fun kill_switch_as_str :: "kill_switch \<Rightarrow> string" where
  "kill_switch_as_str AppDisabled = ''<APP>_TELEMETRY_DISABLED''"
| "kill_switch_as_str OtelSdkDisabled = ''OTEL_SDK_DISABLED''"
| "kill_switch_as_str DoNotTrack = ''DO_NOT_TRACK''"

definition env_var_prefix :: "string \<Rightarrow> string" where
  "env_var_prefix app =
     map (\<lambda>c. if c = CHR ''-'' \<or> c = CHR ''.'' then CHR ''_'' else c) (map ascii_upper app)"

definition kill_switch_env_var :: "kill_switch \<Rightarrow> string \<Rightarrow> string" where
  "kill_switch_env_var k app =
     (if k = AppDisabled then env_var_prefix app @ ''_TELEMETRY_DISABLED'' else kill_switch_as_str k)"

definition detect_kill_switch :: "string \<Rightarrow> (string \<Rightarrow> string option) \<Rightarrow> kill_switch option" where
  "detect_kill_switch app env =
     (if env (env_var_prefix app @ ''_TELEMETRY_DISABLED'') = Some ''1'' then Some AppDisabled
      else if env ''OTEL_SDK_DISABLED'' = Some ''true'' then Some OtelSdkDisabled
      else if env ''DO_NOT_TRACK'' = Some ''1'' then Some DoNotTrack
      else None)"

section \<open>The policy\<close>

record layered_level =
  ll_recommended :: "telemetry_level option"
  ll_config_file :: "telemetry_level option"
  ll_environment :: "telemetry_level option"
  ll_builder_override :: "telemetry_level option"

record telemetry_inputs =
  ti_app :: string
  ti_deployment :: deployment
  ti_level :: layered_level
  ti_policy_name :: "string option"
  ti_endpoint :: "string option"
  ti_endpoint_source :: "layer option"
  ti_attribution :: attribution
  ti_install_id :: "string option"
  ti_session_id :: string
  ti_kill_switch :: "kill_switch option"
  ti_registry :: probe_registry
  ti_disabled_probes :: "string set"
  ti_store_available :: bool
  ti_store_error :: "string option"
  ti_app_attr_allowlist :: "string list"
  ti_extra_never :: "string list"
  ti_sample_ratio :: f64
  ti_headers :: "string option"

record telemetry_policy =
  tp_app :: string
  tp_deployment :: deployment
  tp_level :: telemetry_level
  tp_level_source :: layer
  tp_policy_name :: "string option"
  tp_attribution :: attribution
  tp_endpoint :: "string option"
  tp_endpoint_source :: "layer option"
  tp_install_id :: "string option"
  tp_session_id :: string
  tp_kill_switch :: "kill_switch option"
  tp_registry :: probe_registry
  tp_disabled_probes :: "string set"
  tp_store_available :: bool
  tp_store_error :: "string option"
  tp_app_attr_allowlist :: "string list"
  tp_extra_never :: "string list"
  tp_sample_ratio :: f64
  tp_headers :: "string option"

definition fold_layer ::
  "telemetry_level option \<Rightarrow> layer \<Rightarrow> telemetry_level \<times> layer \<Rightarrow> telemetry_level \<times> layer" where
  "fold_layer v l current = (case v of Some x \<Rightarrow> (x, l) | None \<Rightarrow> current)"

definition fold_layers :: "telemetry_level \<Rightarrow> layered_level \<Rightarrow> bool \<Rightarrow> telemetry_level \<times> layer" where
  "fold_layers dflt layers clamped =
     (let current = fold_layer (ll_config_file layers) LConfigFile
                      (fold_layer (ll_recommended layers) LRecommended (dflt, LDefault))
      in if clamped then current
         else fold_layer (ll_builder_override layers) LBuilderOverride
                (fold_layer (ll_environment layers) LEnvironment current))"

definition level_for :: "telemetry_inputs \<Rightarrow> telemetry_level \<times> layer" where
  "level_for i =
     (let default_level =
            (if is_end_user (ti_deployment i) \<or> ti_endpoint i = None then TL_Off else TL_Diagnostic)
      in if ti_kill_switch i \<noteq> None then (TL_Off, LEnforced)
         else
           (let full = fold_layers default_level (ti_level i) False
            in if is_end_user (ti_deployment i) then
                 (let restricted = fold_layers default_level (ti_level i) True
                  in if fst restricted < fst full then restricted else full)
               else full))"

definition sample_ratio_for :: "f64 \<Rightarrow> f64" where
  "sample_ratio_for x = (if f64_lt (F_fin 0) x \<and> (f64_lt x (F_fin 1) \<or> x = F_fin 1) then x else F_fin 1)"

definition resolve_policy :: "telemetry_inputs \<Rightarrow> telemetry_policy" where
  "resolve_policy i =
     (let (level, level_source) = level_for i;
          attribution = (if ti_store_available i then ti_attribution i else Anonymous)
      in \<lparr> tp_app = ti_app i, tp_deployment = ti_deployment i, tp_level = level,
           tp_level_source = level_source, tp_policy_name = ti_policy_name i,
           tp_attribution = attribution, tp_endpoint = ti_endpoint i,
           tp_endpoint_source = ti_endpoint_source i,
           tp_install_id = (if attribution = Anonymous then None else ti_install_id i),
           tp_session_id = ti_session_id i, tp_kill_switch = ti_kill_switch i,
           tp_registry = ti_registry i, tp_disabled_probes = ti_disabled_probes i,
           tp_store_available = ti_store_available i, tp_store_error = ti_store_error i,
           tp_app_attr_allowlist = ti_app_attr_allowlist i, tp_extra_never = ti_extra_never i,
           tp_sample_ratio = sample_ratio_for (ti_sample_ratio i), tp_headers = ti_headers i \<rparr>)"

definition policy_exports :: "telemetry_policy \<Rightarrow> bool" where
  "policy_exports p \<longleftrightarrow> tp_kill_switch p = None \<and> TL_Off < tp_level p \<and> tp_endpoint p \<noteq> None"

definition policy_effective :: "telemetry_policy \<Rightarrow> string \<Rightarrow> bool" where
  "policy_effective p probe =
     effective (tp_registry p) (tp_level p) probe (\<lambda>i. i \<notin> tp_disabled_probes p)"

definition sampler_is_always_on :: "telemetry_policy \<Rightarrow> bool" where
  "sampler_is_always_on p \<longleftrightarrow> is_end_user (tp_deployment p) \<or> tp_level p = TL_Debug"

section \<open>The notice\<close>

datatype surface = Cli | Chat | Mcp | Api

datatype skip_reason =
    AlreadyShown
  | NotInteractive
  | NotAHumanSurface
  | ServiceDeployment
  | KillSwitchSet
  | ConfiguredLocally

datatype notice_decision = ShowNotice string telemetry_level | SkipNotice skip_reason

definition notice_text :: "telemetry_policy \<Rightarrow> string" where
  "notice_text p =
     (let app = tp_app p; nl = [char_of (10 :: nat)];
          tagged = (if tp_install_id p \<noteq> None then '', tagged with a random install id'' else []);
          who = (case tp_policy_name p of
                   Some name \<Rightarrow> ''policy '' @ [CHR 0x22] @ name @ [CHR 0x22]
                 | None \<Rightarrow> ''an organisation policy'');
          (first, second) =
            (if tp_level p = TL_Off then
               (app @ '': usage statistics are off.'',
                ''Turn them on with `'' @ app @ '' telemetry set usage`; see what would be sent with `'' @
                app @ '' telemetry info`.'')
             else
               (app @ '': '' @ who @ '' turned on '' @ level_as_str (tp_level p) @ '' telemetry'' @ tagged @ ''.'',
                ''Review with `'' @ app @ '' telemetry status`; opt out with `'' @ app @ '' telemetry set off`.''))
      in first @ nl @ second @
         (case privacy_url (tp_deployment p) of Some url \<Rightarrow> '' Details: '' @ url | None \<Rightarrow> []))"

definition decide_notice ::
  "telemetry_policy \<Rightarrow> telemetry_level option \<Rightarrow> surface \<Rightarrow> bool \<Rightarrow> notice_decision" where
  "decide_notice p notice_shown surface stderr_is_tty =
     (if tp_deployment p = Service then SkipNotice ServiceDeployment
      else if tp_kill_switch p \<noteq> None then SkipNotice KillSwitchSet
      else if \<not> (surface = Cli \<or> surface = Chat) then SkipNotice NotAHumanSurface
      else if \<not> stderr_is_tty then SkipNotice NotInteractive
      else if tp_level p = TL_Off then
        (case notice_shown of None \<Rightarrow> ShowNotice (notice_text p) TL_Off | Some _ \<Rightarrow> SkipNotice AlreadyShown)
      else if tp_level_source p = LConfigFile then SkipNotice ConfiguredLocally
      else if (case notice_shown of Some shown \<Rightarrow> tp_level p \<le> shown | None \<Rightarrow> False)
      then SkipNotice AlreadyShown
      else ShowNotice (notice_text p) (tp_level p))"

section \<open>The catalog\<close>

text \<open>A registry lists valid ids, each once, in order; registering keeps this.\<close>

definition probes_ok :: "probe_registry \<Rightarrow> bool" where
  "probes_ok r \<longleftrightarrow>
     sorted (map ps_id r) \<and> distinct (map ps_id r) \<and> (\<forall>p \<in> set r. validate_probe_id (ps_id p) = Ok ())"

lemma probe_register_ok: "probes_ok r \<Longrightarrow> probe_register spec r = Ok r' \<Longrightarrow> probes_ok r' \<and> set r' = insert spec (set r)"
proof -
  assume r: "probes_ok r" and reg: "probe_register spec r = Ok r'"
  have v: "validate_probe_id (ps_id spec) = Ok ()" and new: "ps_id spec \<notin> ps_id ` set r"
    and r': "r' = sort_key ps_id (r @ [spec])"
    using reg by (auto simp: probe_register_def and_then_Ok_iff list_ex_iff split: if_splits)
  have "distinct (r @ [spec])" "inj_on ps_id (set (r @ [spec]))"
    using r new by (auto simp: probes_ok_def distinct_map)
  then have "distinct (map ps_id r')" unfolding r' by (simp add: distinct_map)
  then show ?thesis using r v by (auto simp: probes_ok_def r')
qed

lemma probe_get_iff: "probes_ok r \<Longrightarrow> probe_get r i = Some p \<longleftrightarrow> p \<in> set r \<and> ps_id p = i"
proof -
  assume r: "probes_ok r"
  have "p = q" if "p \<in> set r" "q \<in> set r" "ps_id p = ps_id q" for p q
    using r that by (auto simp: probes_ok_def distinct_map inj_on_def)
  moreover have "q \<in> set r \<and> ps_id q = i" if "probe_get r i = Some q" for q
    using that by (auto simp: probe_get_def dest!: find_SomeD)
  moreover have "probe_get r i \<noteq> None" if "p \<in> set r" "ps_id p = i"
    using that by (auto simp: probe_get_def find_None_iff)
  ultimately show ?thesis by (metis not_None_eq)
qed

theorem builtin_catalog_valid: "case with_builtins of Ok r \<Rightarrow> length r = 20 | Err _ \<Rightarrow> False"
  by code_simp

section \<open>A disabled probe silences its subtree\<close>

lemma all_prefixes_Cons:
  "(\<forall>xs ys. xs \<noteq> [] \<and> s # ss = xs @ ys \<longrightarrow> Q xs) \<longleftrightarrow>
     Q [s] \<and> (\<forall>xs ys. xs \<noteq> [] \<and> ss = xs @ ys \<longrightarrow> Q (s # xs))"  (is "?L \<longleftrightarrow> ?R")
proof
  assume L: ?L
  have "Q (s # xs)" if "ss = xs @ ys" for xs ys using L [rule_format, of "s # xs" ys] that by simp
  then show ?R by blast
next
  assume R: ?R
  have "Q xs" if "xs \<noteq> []" "s # ss = xs @ ys" for xs ys
    using R that by (cases xs; cases "tl xs") auto
  then show ?L by blast
qed

lemma prefixes_enabled_iff:
  "prefix \<noteq> [] \<Longrightarrow> prefixes_enabled r en prefix segs \<longleftrightarrow>
     (\<forall>xs ys. xs \<noteq> [] \<and> segs = xs @ ys \<longrightarrow>
        probe_contains r (prefix @ ''.'' @ str_join ''.'' xs) \<longrightarrow> en (prefix @ ''.'' @ str_join ''.'' xs))"
proof (induction segs arbitrary: prefix)
  case Nil
  then show ?case by simp
next
  case (Cons s ss)
  show ?case
    using Cons.IH [of "prefix @ ''.'' @ s"] Cons.prems
    unfolding all_prefixes_Cons by (simp add: str_join_Cons Let_def cong: conj_cong)
qed

lemma prefixes_enabled_root:
  assumes "hd segs \<noteq> []" "segs \<noteq> []"
  shows "prefixes_enabled r en [] segs \<longleftrightarrow>
     (\<forall>xs ys. xs \<noteq> [] \<and> segs = xs @ ys \<longrightarrow>
        probe_contains r (str_join ''.'' xs) \<longrightarrow> en (str_join ''.'' xs))"
proof -
  obtain s ss where segs: "segs = s # ss" using assms by (cases segs) auto
  show ?thesis
    using prefixes_enabled_iff [of s r en ss] assms
    unfolding segs all_prefixes_Cons by (simp add: str_join_Cons Let_def cong: conj_cong)
qed

text \<open>The ids above a probe, itself included.\<close>

definition probe_lineage :: "string \<Rightarrow> string set" where
  "probe_lineage i = {q. q = i \<or> (\<exists>t. i = q @ ''.'' @ t)}"

lemma split_append_dot:
  "str_split (CHR ''.'') (q @ CHR ''.'' # t) = str_split (CHR ''.'') q @ str_split (CHR ''.'') t"
  by (induction q) (auto split: list.splits)

lemma lineage_prefixes:
  "q \<in> probe_lineage i \<longleftrightarrow> (\<exists>xs ys. xs \<noteq> [] \<and> str_split (CHR ''.'') i = xs @ ys \<and> q = str_join ''.'' xs)"
proof
  assume "q \<in> probe_lineage i"
  then consider "i = q" | t where "i = q @ CHR ''.'' # t" by (auto simp: probe_lineage_def)
  then obtain ys where "str_split (CHR ''.'') i = str_split (CHR ''.'') q @ ys"
    by cases (auto simp: split_append_dot)
  then show "\<exists>xs ys. xs \<noteq> [] \<and> str_split (CHR ''.'') i = xs @ ys \<and> q = str_join ''.'' xs"
    by (intro exI conjI) (auto simp: join_split)
next
  assume "\<exists>xs ys. xs \<noteq> [] \<and> str_split (CHR ''.'') i = xs @ ys \<and> q = str_join ''.'' xs"
  then obtain xs ys where x: "xs \<noteq> []" "str_split (CHR ''.'') i = xs @ ys" "q = str_join ''.'' xs" by blast
  then have "i = str_join ''.'' (xs @ ys)" using join_split [of "CHR ''.''" i] by simp
  then show "q \<in> probe_lineage i"
    using x by (cases "ys = []") (auto simp: probe_lineage_def join_append)
qed

lemma valid_id_hd: "validate_probe_id i = Ok () \<Longrightarrow> hd (str_split (CHR ''.'') i) \<noteq> []"
  by (auto simp: validate_probe_id_def Let_def first_segment_ok_def split: option.splits if_splits)

lemma prefixes_enabled_lineage:
  assumes "hd (str_split (CHR ''.'') i) \<noteq> []"
  shows "prefixes_enabled r en [] (str_split (CHR ''.'') i) \<longleftrightarrow>
      (\<forall>q \<in> probe_lineage i. probe_contains r q \<longrightarrow> en q)"
  unfolding prefixes_enabled_root [OF assms str_split_nonempty] Ball_def lineage_prefixes
  by metis

lemma effective_iff:
  assumes "probes_ok r"
  shows "effective r level i en \<longleftrightarrow>
     (\<exists>p \<in> set r. ps_id p = i \<and> level \<noteq> TL_Off \<and> ps_min_level p \<le> level) \<and>
     (\<forall>q \<in> probe_lineage i. probe_contains r q \<longrightarrow> en q)"
proof (cases "probe_get r i")
  case None
  then have "\<not> (\<exists>p \<in> set r. ps_id p = i)" using probe_get_iff [OF assms] by (metis option.distinct(1))
  then show ?thesis using None by (auto simp: effective_def)
next
  case (Some p)
  then have p: "p \<in> set r" "ps_id p = i" using probe_get_iff [OF assms] by auto
  have "hd (str_split (CHR ''.'') i) \<noteq> []" using p assms valid_id_hd by (auto simp: probes_ok_def)
  then have "prefixes_enabled r en [] (str_split (CHR ''.'') i) \<longleftrightarrow>
      (\<forall>q \<in> probe_lineage i. probe_contains r q \<longrightarrow> en q)"
    by (rule prefixes_enabled_lineage)
  moreover have "(\<exists>p \<in> set r. ps_id p = i \<and> P p) \<longleftrightarrow> P p" for P
    using p probe_get_iff [OF assms, of i] Some by (metis option.inject)
  ultimately show ?thesis
    using Some by (auto simp: effective_def not_less)
qed

section \<open>Consent on an end-user install\<close>

text \<open>
  What the person or their organisation agreed to: the stored level, else the recommended
  one, else nothing.
\<close>

definition consented_level :: "layered_level \<Rightarrow> telemetry_level" where
  "consented_level l =
     (case ll_config_file l of
        Some x \<Rightarrow> x
      | None \<Rightarrow> (case ll_recommended l of Some x \<Rightarrow> x | None \<Rightarrow> TL_Off))"

lemma fold_layers_clamped: "fst (fold_layers TL_Off l True) = consented_level l"
  by (simp add: fold_layers_def fold_layer_def consented_level_def split: option.splits)

lemma fold_layers_full:
  "fst (fold_layers dflt l False) =
     (case ll_builder_override l of
        Some x \<Rightarrow> x
      | None \<Rightarrow> (case ll_environment l of Some x \<Rightarrow> x | None \<Rightarrow> fst (fold_layers dflt l True)))"
  by (simp add: fold_layers_def fold_layer_def Let_def split: option.splits)

lemma resolve_level:
  "tp_level (resolve_policy i) = fst (level_for i)" "tp_level_source (resolve_policy i) = snd (level_for i)"
  "tp_kill_switch (resolve_policy i) = ti_kill_switch i" "tp_registry (resolve_policy i) = ti_registry i"
  "tp_disabled_probes (resolve_policy i) = ti_disabled_probes i"
  "tp_deployment (resolve_policy i) = ti_deployment i" "tp_endpoint (resolve_policy i) = ti_endpoint i"
  by (simp_all add: resolve_policy_def Let_def split_def)

lemma end_user_level:
  assumes "is_end_user (ti_deployment i)"
  shows "fst (level_for i) =
     (if ti_kill_switch i \<noteq> None then TL_Off
      else min (consented_level (ti_level i)) (fst (fold_layers TL_Off (ti_level i) False)))"
  using assms by (auto simp: level_for_def Let_def fold_layers_clamped min_def)

text \<open>The level in force never exceeds the consent.\<close>

lemma level_within_consent:
  assumes "is_end_user (ti_deployment i)"
  shows "tp_level (resolve_policy i) \<le> consented_level (ti_level i)"
  by (simp add: resolve_level end_user_level [OF assms])

text \<open>
  On an end-user install the level that takes effect is the one the person (or, failing
  that, the organisation) agreed to, lowered by the environment or the author's override and
  never raised by them, and off under a kill switch. A probe emits only when its
  own least level is within that consent, no kill switch is set and no probe above it in the
  catalog is disabled.
\<close>

theorem telemetry_needs_consent:
  fixes i :: telemetry_inputs
  defines "p \<equiv> resolve_policy i" and "consent \<equiv> consented_level (ti_level i)"
  assumes user: "is_end_user (ti_deployment i)" and catalog: "probes_ok (ti_registry i)"
  shows "tp_level p =
     (if ti_kill_switch i \<noteq> None then TL_Off
      else case ll_builder_override (ti_level i) of
             Some l \<Rightarrow> min consent l
           | None \<Rightarrow> (case ll_environment (ti_level i) of Some l \<Rightarrow> min consent l | None \<Rightarrow> consent)) \<and>
     (policy_effective p probe \<longleftrightarrow>
        tp_level p \<noteq> TL_Off \<and>
        (\<exists>spec \<in> set (ti_registry i). ps_id spec = probe \<and> ps_min_level spec \<le> tp_level p) \<and>
        (\<forall>q \<in> probe_lineage probe. probe_contains (ti_registry i) q \<longrightarrow> q \<notin> ti_disabled_probes i)) \<and>
     (policy_effective p probe \<longrightarrow>
        ti_kill_switch i = None \<and>
        (\<exists>spec \<in> set (ti_registry i). ps_id spec = probe \<and> ps_min_level spec \<le> consent))"
proof -
  have l: "tp_level p =
     (if ti_kill_switch i \<noteq> None then TL_Off
      else case ll_builder_override (ti_level i) of
             Some l \<Rightarrow> min consent l
           | None \<Rightarrow> (case ll_environment (ti_level i) of Some l \<Rightarrow> min consent l | None \<Rightarrow> consent))"
    unfolding p_def consent_def resolve_level end_user_level [OF user] fold_layers_full fold_layers_clamped
    by (simp split: option.splits)
  then have le: "tp_level p \<le> consent" "ti_kill_switch i \<noteq> None \<Longrightarrow> tp_level p = TL_Off"
    by (auto split: option.splits)
  have e: "policy_effective p probe \<longleftrightarrow>
        tp_level p \<noteq> TL_Off \<and>
        (\<exists>spec \<in> set (ti_registry i). ps_id spec = probe \<and> ps_min_level spec \<le> tp_level p) \<and>
        (\<forall>q \<in> probe_lineage probe. probe_contains (ti_registry i) q \<longrightarrow> q \<notin> ti_disabled_probes i)"
    using effective_iff [OF catalog, of "tp_level p" probe "\<lambda>i'. i' \<notin> ti_disabled_probes i"]
    by (auto simp: policy_effective_def p_def resolve_level)
  show ?thesis using l e le by (meson order.trans)
qed

definition sample_telemetry :: telemetry_inputs where
  "sample_telemetry =
     \<lparr> ti_app = ''demo'', ti_deployment = EndUser None,
       ti_level = \<lparr> ll_recommended = None, ll_config_file = Some TL_Usage,
                    ll_environment = Some TL_Debug, ll_builder_override = None \<rparr>,
       ti_policy_name = None, ti_endpoint = Some ''https://otel.example'', ti_endpoint_source = None,
       ti_attribution = Pseudonymous, ti_install_id = Some ''7f'', ti_session_id = ''s1'',
       ti_kill_switch = None,
       ti_registry =
         [probe_spec_of ''cli.command'' TL_Usage [] [], probe_spec_of ''cli.command.args'' TL_Diagnostic [] []],
       ti_disabled_probes = {}, ti_store_available = True, ti_store_error = None,
       ti_app_attr_allowlist = [], ti_extra_never = [], ti_sample_ratio = F_fin 0, ti_headers = None \<rparr>"

lemma sample_telemetry_catalog: "probes_ok (ti_registry sample_telemetry)"
  unfolding probes_ok_def by code_simp

theorem telemetry_needs_consent_witness:
  "tp_level (resolve_policy sample_telemetry) = TL_Usage \<and>
   \<not> policy_effective (resolve_policy sample_telemetry) ''cli.command.args''"
proof -
  have user: "is_end_user (ti_deployment sample_telemetry)"
    by (simp add: sample_telemetry_def is_end_user_def)
  note t = telemetry_needs_consent [OF user sample_telemetry_catalog, of "''cli.command.args''"]
  have l: "tp_level (resolve_policy sample_telemetry) = TL_Usage"
    using t [THEN conjunct1] by (simp add: sample_telemetry_def consented_level_def min_def level_order)
  have "\<not> (\<exists>spec \<in> set (ti_registry sample_telemetry).
      ps_id spec = ''cli.command.args'' \<and> ps_min_level spec \<le> TL_Usage)"
    by (simp add: sample_telemetry_def probe_spec_of_def level_order)
  then show ?thesis using t l by auto
qed

section \<open>The sampling ratio\<close>

text \<open>
  \<open>OTEL_TRACES_SAMPLER_ARG\<close> is documented as \<open>0.0 to 1.0\<close>, and a service that asks for
  \<open>0.0\<close> samples every trace: the ratio in force is never zero.
\<close>

theorem sample_ratio_zero_is_full:
  "tp_sample_ratio (resolve_policy (i\<lparr>ti_sample_ratio := F_fin 0\<rparr>)) = F_fin 1"
  by (simp add: resolve_policy_def sample_ratio_for_def Let_def split_def)

end
