(* ===== verification/Telemetry_Export.thy ===== *)
theory Telemetry_Export
  imports Telemetry_Policy
begin

text \<open>
  The export boundary of telemetry (\<open>src/telemetry\<close>): the redaction rules
  (\<open>redact.rs\<close>), the exporter that applies them (\<open>exporter.rs\<close>), the attributes the probes
  build (\<open>probes.rs\<close>) and the two resources (\<open>resource.rs\<close>).

  The values, spans and events are those of OpenTelemetry: a value is a string or one of the
  other kinds, the type variable \<open>'v\<close>; what the boundary does not look at in a span or an
  event is \<open>'r\<close>. The exporter behind the boundary is the function \<open>inner\<close>.
\<close>

section \<open>Redaction rules\<close>

datatype 'v otel_value = StringValue string | OtherValue 'v

type_synonym 'v key_value = "string \<times> 'v otel_value"

definition NEVER_LIST :: "string list" where
  "NEVER_LIST = [''password'', ''secret'', ''token'', ''authorization'', ''cookie'', ''api_key'']"

definition NEVER_KEYS :: "string list" where
  "NEVER_KEYS = [''url.full'', ''url.path'', ''url.query'', ''host.name'', ''process.command_line'']"

definition NEVER_LIST_EXEMPT :: "string list" where
  "NEVER_LIST_EXEMPT = [''cli.usage_error.token'', ''secrets.backend'', ''secrets.op'']"

definition METRIC_LABEL_ALLOWLIST :: "string list" where
  "METRIC_LABEL_ALLOWLIST =
     [''command'', ''surface'', ''status'', ''kind'', ''feature'', ''check'', ''severity'', ''tool'',
      ''plugin'', ''http.route'', ''http.request.method'', ''http.response.status_code'']"

definition PROBE_ATTR_KEY :: string where
  "PROBE_ATTR_KEY = ''cli.probe''"

definition FRAMEWORK_PREFIXES :: "string list" where
  "FRAMEWORK_PREFIXES =
     [''cli.'', ''http.'', ''mcp.'', ''otel.'', ''exception.'', ''panic.'', ''error.'', ''session.'',
      ''service.'', ''telemetry.'', ''url.'', ''rpc.'', ''server.'', ''process.'', ''config.'', ''secrets.'']"

definition FRAMEWORK_BARE_KEYS :: "string list" where
  "FRAMEWORK_BARE_KEYS =
     [''command'', ''surface'', ''status'', ''kind'', ''feature'', ''check'', ''severity'', ''tool'',
      ''plugin'', ''duration_ms'']"

definition ELEVATED :: "(string \<times> telemetry_level) list" where
  "ELEVATED =
     [(''exception.message'', TL_Debug),
      (''exception.stacktrace'', TL_Debug),
      (''panic.message'', TL_Debug),
      (''cli.command.arg_values'', TL_Debug),
      (''cli.usage_error.token'', TL_Debug),
      (''error.type'', TL_Diagnostic),
      (''cli.command.arg_names'', TL_Diagnostic),
      (''cli.command.arg_count'', TL_Diagnostic),
      (''cli.command.args'', TL_Diagnostic),
      (''server.address'', TL_Diagnostic),
      (''http.client.server_address'', TL_Diagnostic)]"

definition is_never_listed :: "string \<Rightarrow> string list \<Rightarrow> bool" where
  "is_never_listed key extra =
     (let lowered = map ascii_lower key
      in if lowered \<in> set NEVER_KEYS then True
         else if list_ex (\<lambda>f. str_contains lowered (map ascii_lower f)) (filter (\<lambda>f. str_trim f \<noteq> []) extra)
         then True
         else if key \<in> set NEVER_LIST_EXEMPT then False
         else list_ex (str_contains lowered) NEVER_LIST)"

definition attribute_min_level :: "string \<Rightarrow> telemetry_level" where
  "attribute_min_level key =
     (if starts_with ''cli.command.arg_values.'' key then TL_Debug
      else (case find (\<lambda>(k, _). k = key) ELEVATED of Some (_, l) \<Rightarrow> l | None \<Rightarrow> TL_Usage))"

definition metric_label_is_allowed :: "string \<Rightarrow> bool" where
  "metric_label_is_allowed key \<longleftrightarrow> key \<in> set METRIC_LABEL_ALLOWLIST"

definition probe_of :: "'v key_value list \<Rightarrow> string option" where
  "probe_of attrs =
     Option.bind (find (\<lambda>kv. fst kv = PROBE_ATTR_KEY) attrs)
       (\<lambda>kv. case snd kv of StringValue s \<Rightarrow> Some s | OtherValue _ \<Rightarrow> None)"

record redaction_rules =
  rr_level :: telemetry_level
  rr_app_attr_allowlist :: "string list"
  rr_extra_never :: "string list"

definition rules_from_policy :: "telemetry_policy \<Rightarrow> redaction_rules" where
  "rules_from_policy p =
     \<lparr> rr_level = tp_level p, rr_app_attr_allowlist = tp_app_attr_allowlist p, rr_extra_never = tp_extra_never p \<rparr>"

definition is_framework_key :: "string \<Rightarrow> bool" where
  "is_framework_key key \<longleftrightarrow>
     list_ex (\<lambda>p. starts_with p key) FRAMEWORK_PREFIXES \<or> key \<in> set FRAMEWORK_BARE_KEYS"

definition keeps_attribute :: "redaction_rules \<Rightarrow> string \<Rightarrow> bool" where
  "keeps_attribute r key =
     (if is_never_listed key (rr_extra_never r) then False
      else if rr_level r = TL_Off then False
      else if \<not> is_framework_key key \<and> key \<notin> set (rr_app_attr_allowlist r) then False
      else attribute_min_level key \<le> rr_level r)"

definition retain_attributes :: "redaction_rules \<Rightarrow> 'v key_value list \<Rightarrow> 'v key_value list" where
  "retain_attributes r attrs = filter (\<lambda>kv. keeps_attribute r (fst kv)) attrs"

section \<open>The exporter\<close>

datatype span_verdict_kind = Keep | Drop

record ('v, 'r) span_event =
  ev_attributes :: "'v key_value list"
  ev_rest :: 'r

record ('v, 'r) span_data =
  sd_attributes :: "'v key_value list"
  sd_events :: "('v, 'r) span_event list"
  sd_rest :: 'r

definition span_verdict :: "telemetry_policy \<Rightarrow> string option \<Rightarrow> span_verdict_kind" where
  "span_verdict p probe =
     (case probe of Some i \<Rightarrow> if policy_effective p i then Keep else Drop | None \<Rightarrow> Drop)"

definition strip_probe_attr :: "'v key_value list \<Rightarrow> 'v key_value list" where
  "strip_probe_attr attrs = filter (\<lambda>kv. fst kv \<noteq> PROBE_ATTR_KEY) attrs"

definition redact_span ::
  "telemetry_policy \<Rightarrow> ('v, 'r) span_data \<Rightarrow> span_verdict_kind \<times> ('v, 'r) span_data" where
  "redact_span p s =
     (if span_verdict p (probe_of (sd_attributes s)) = Drop then (Drop, s)
      else
        (let rules = rules_from_policy p;
             events = filter (\<lambda>e. span_verdict p (probe_of (ev_attributes e)) = Keep) (sd_events s);
             events = map (\<lambda>e. e\<lparr>ev_attributes := strip_probe_attr (retain_attributes rules (ev_attributes e))\<rparr>) events
         in (Keep, s\<lparr>sd_events := events,
                     sd_attributes := strip_probe_attr (retain_attributes rules (sd_attributes s))\<rparr>)))"

definition exporter_filter :: "telemetry_policy \<Rightarrow> ('v, 'r) span_data list \<Rightarrow> ('v, 'r) span_data list" where
  "exporter_filter p batch =
     List.map_filter
       (\<lambda>s. case redact_span p s of (Keep, s') \<Rightarrow> Some s' | (Drop, _) \<Rightarrow> None) batch"

definition export_batch ::
  "(('v, 'r) span_data list \<Rightarrow> 'e + unit) \<Rightarrow> telemetry_policy \<Rightarrow> ('v, 'r) span_data list \<Rightarrow> 'e + unit" where
  "export_batch inner p batch =
     (let filtered = exporter_filter p batch
      in if filtered = [] then Ok () else inner filtered)"

section \<open>Probe attributes\<close>

fun surface_str :: "surface \<Rightarrow> string" where
  "surface_str Cli = ''cli''"
| "surface_str Chat = ''chat''"
| "surface_str Mcp = ''mcp''"
| "surface_str Api = ''api''"

datatype command_status = StatusOk | StatusUsageError | StatusError

fun status_str :: "command_status \<Rightarrow> string" where
  "status_str StatusOk = ''ok''"
| "status_str StatusUsageError = ''usage_error''"
| "status_str StatusError = ''error''"

record command_outcome =
  co_command :: "string option"
  co_surface :: surface
  co_status :: command_status
  co_duration_ms :: f64

definition str_attr :: "string \<Rightarrow> string \<Rightarrow> 'v key_value" where
  "str_attr k v = (k, StringValue v)"

definition opt_attr :: "string \<Rightarrow> string option \<Rightarrow> 'v key_value list" where
  "opt_attr k v = (case v of Some x \<Rightarrow> [str_attr k x] | None \<Rightarrow> [])"

definition command_metric_labels :: "command_outcome \<Rightarrow> 'v key_value list" where
  "command_metric_labels out =
     opt_attr ''command'' (co_command out) @
     [str_attr ''surface'' (surface_str (co_surface out)), str_attr ''status'' (status_str (co_status out))]"

definition command_span_attrs :: "telemetry_policy \<Rightarrow> command_outcome \<Rightarrow> 'v key_value list" where
  "command_span_attrs p out =
     [str_attr PROBE_ATTR_KEY ''cli.command''] @
     opt_attr ''cli.install.id'' (tp_install_id p) @
     [str_attr ''session.id'' (tp_session_id p),
      str_attr ''cli.telemetry.level'' (level_as_str (tp_level p))] @
     command_metric_labels out"

definition arg_names :: "string list \<Rightarrow> string list" where
  "arg_names names = names"

definition arg_value_attrs :: "string list \<Rightarrow> (string \<times> string) list \<Rightarrow> 'v key_value list" where
  "arg_value_attrs allowlist pairs =
     map (\<lambda>(k, v). str_attr k v)
       (filter (\<lambda>(k, _). \<not> is_never_listed k [])
         (map (\<lambda>(name, v). (''cli.command.arg_values.'' @ name, v))
           (filter (\<lambda>(name, _). name \<in> set allowlist) pairs)))"

definition usage_error_attrs :: "string \<Rightarrow> string option \<Rightarrow> 'v key_value list" where
  "usage_error_attrs kind token =
     [str_attr PROBE_ATTR_KEY ''cli.usage_error'', str_attr ''cli.usage_error.kind'' kind] @
     opt_attr ''cli.usage_error.token'' token"

definition registered_feature_names :: "probe_registry \<Rightarrow> string list" where
  "registered_feature_names r =
     List.map_filter
       (\<lambda>spec. if starts_with ''cli.feature.'' (ps_id spec)
               then Some (drop (length ''cli.feature.'') (ps_id spec)) else None) r"

definition feature_attrs :: "string \<Rightarrow> feature_outcome_kind \<Rightarrow> 'v key_value list" where
  "feature_attrs name out =
     [str_attr PROBE_ATTR_KEY ''cli.feature'', str_attr ''cli.feature.name'' name] @
     (if out = Recorded then [str_attr ''feature'' name] else [])"

definition http_client_attrs ::
  "string \<Rightarrow> nat option \<Rightarrow> string option \<Rightarrow> nat option \<Rightarrow> 'v key_value list" where
  "http_client_attrs http_method status server_address server_port =
     [str_attr PROBE_ATTR_KEY ''http.client'', str_attr ''http.request.method'' http_method] @
     opt_attr ''http.response.status_code'' (map_option nat_dec status) @
     opt_attr ''server.address'' server_address @
     opt_attr ''server.port'' (map_option nat_dec server_port)"

definition http_server_attrs :: "string \<Rightarrow> string \<Rightarrow> nat \<Rightarrow> 'v key_value list" where
  "http_server_attrs route http_method status =
     [str_attr PROBE_ATTR_KEY ''http.server'', str_attr ''http.route'' route,
      str_attr ''http.request.method'' http_method, str_attr ''http.response.status_code'' (nat_dec status)]"

definition mcp_session_attrs :: "string option \<Rightarrow> string option \<Rightarrow> 'v key_value list" where
  "mcp_session_attrs tool status =
     [str_attr PROBE_ATTR_KEY ''mcp.session''] @ opt_attr ''mcp.tool'' tool @ opt_attr ''status'' status"

text \<open>The printer of floating point numbers is the parameter \<open>show_f64\<close>.\<close>

definition chat_attrs :: "(f64 \<Rightarrow> string) \<Rightarrow> nat \<Rightarrow> f64 \<Rightarrow> 'v key_value list" where
  "chat_attrs show_f64 turn_count duration_ms =
     [str_attr PROBE_ATTR_KEY ''cli.chat'', str_attr ''cli.chat.turn_count'' (nat_dec turn_count),
      str_attr ''cli.chat.duration_ms'' (show_f64 duration_ms)]"

definition doctor_attrs :: "string \<Rightarrow> string \<Rightarrow> nat \<Rightarrow> 'v key_value list" where
  "doctor_attrs check severity findings_count =
     [str_attr PROBE_ATTR_KEY ''cli.doctor'', str_attr ''check'' check, str_attr ''severity'' severity,
      str_attr ''cli.doctor.findings_count'' (nat_dec findings_count)]"

definition plugin_attrs :: "string \<Rightarrow> string \<Rightarrow> 'v key_value list" where
  "plugin_attrs plugin kind =
     [str_attr PROBE_ATTR_KEY ''cli.plugin'', str_attr ''plugin'' plugin, str_attr ''kind'' kind]"

definition auth_attrs :: "string \<Rightarrow> string \<Rightarrow> 'v key_value list" where
  "auth_attrs kind status =
     [str_attr PROBE_ATTR_KEY ''cli.auth'', str_attr ''kind'' kind, str_attr ''status'' status]"

definition config_attrs :: "u32 \<Rightarrow> string \<Rightarrow> string \<Rightarrow> 'v key_value list" where
  "config_attrs schema_version backend policy_state =
     [str_attr PROBE_ATTR_KEY ''cli.config'', str_attr ''config.schema_version'' (nat_dec (unat schema_version)),
      str_attr ''config.backend'' backend, str_attr ''config.policy.state'' policy_state]"

definition secrets_attrs :: "string \<Rightarrow> string \<Rightarrow> string \<Rightarrow> 'v key_value list" where
  "secrets_attrs backend operation status =
     [str_attr PROBE_ATTR_KEY ''cli.secrets'', str_attr ''secrets.backend'' backend,
      str_attr ''secrets.op'' operation, str_attr ''status'' status]"

definition help_attrs :: "string option \<Rightarrow> 'v key_value list" where
  "help_attrs command = [str_attr PROBE_ATTR_KEY ''cli.help''] @ opt_attr ''command'' command"

definition i32_dec :: "int \<Rightarrow> string" where
  "i32_dec n = (if n < 0 then ''-'' @ nat_dec (nat (- n)) else nat_dec (nat n))"

definition process_attrs :: "int \<Rightarrow> 'v key_value list" where
  "process_attrs exit_code =
     [str_attr PROBE_ATTR_KEY ''cli.process'', str_attr ''process.exit.code'' (i32_dec exit_code)]"

section \<open>Resources\<close>

record service_identity =
  si_name :: string
  si_version :: string

text \<open>
  The process facts are arguments: \<open>OTEL_SERVICE_NAME\<close>, the operating system, the
  architecture, what the SDK's detector answers and the kernel release file.
\<close>

definition metric_resource_attrs ::
  "string option \<Rightarrow> string \<Rightarrow> string \<Rightarrow> (string \<times> string) list \<Rightarrow> telemetry_policy \<Rightarrow> service_identity \<Rightarrow>
   (string \<times> string) list" where
  "metric_resource_attrs service_name os arch sdk p service =
     [(''service.name'',
       case service_name of
         Some v \<Rightarrow> if str_trim v \<noteq> [] then v else si_name service
       | None \<Rightarrow> si_name service),
      (''service.version'', si_version service),
      (''cli.deployment'', deployment_as_str (tp_deployment p)),
      (''cli.telemetry.level'', level_as_str (tp_level p)),
      (''os.type'', os), (''host.arch'', arch)] @ sdk"

definition coarse_version :: "string \<Rightarrow> string" where
  "coarse_version raw =
     (let parts =
            takeWhile (list_all is_ascii_digit)
              (filter (\<lambda>p. p \<noteq> [])
                (str_split (CHR ''.'')
                  (map (\<lambda>c. if c = CHR ''-'' \<or> c = CHR ''_'' then CHR ''.'' else c) (str_trim raw))))
      in case parts of
           major # minor # _ \<Rightarrow> major @ ''.'' @ minor
         | [major] \<Rightarrow> major
         | [] \<Rightarrow> [])"

definition os_version :: "string option \<Rightarrow> string option" where
  "os_version release =
     Option.bind release (\<lambda>r. let coarse = coarse_version r in if coarse \<noteq> [] then Some coarse else None)"

definition trace_resource_attrs ::
  "string option \<Rightarrow> string \<Rightarrow> string \<Rightarrow> (string \<times> string) list \<Rightarrow> string option \<Rightarrow> telemetry_policy \<Rightarrow>
   service_identity \<Rightarrow> (string \<times> string) list" where
  "trace_resource_attrs service_name os arch sdk release p service =
     metric_resource_attrs service_name os arch sdk p service @
     (case tp_install_id p of Some i \<Rightarrow> [(''cli.install.id'', i)] | None \<Rightarrow> []) @
     [(''session.id'', tp_session_id p)] @
     (case os_version release of Some v \<Rightarrow> [(''os.version'', v)] | None \<Rightarrow> [])"

text \<open>\<open>attrs.iter_mut().find\<close>: the first pair with the key is overwritten.\<close>

fun set_or_push :: "string \<Rightarrow> string \<Rightarrow> (string \<times> string) list \<Rightarrow> (string \<times> string) list" where
  "set_or_push k v [] = [(k, v)]"
| "set_or_push k v ((k', v') # r) = (if k' = k then (k', v) # r else (k', v') # set_or_push k v r)"

definition resource_entry :: "string \<Rightarrow> (string \<times> string) list \<Rightarrow> (string \<times> string) list" where
  "resource_entry entry attrs =
     (if CHR ''='' \<in> set entry
      then
        (let key = str_trim (takeWhile (\<lambda>c. c \<noteq> CHR ''='') entry);
             v = str_trim (tl (dropWhile (\<lambda>c. c \<noteq> CHR ''='') entry))
         in if key = [] then attrs else set_or_push key v attrs)
      else attrs)"

definition apply_env_resource_attributes ::
  "string option \<Rightarrow> (string \<times> string) list \<Rightarrow> (string \<times> string) list" where
  "apply_env_resource_attributes raw attrs =
     (case raw of None \<Rightarrow> attrs | Some r \<Rightarrow> fold resource_entry (str_split (CHR '','') r) attrs)"

section \<open>What crosses the boundary\<close>

text \<open>
  The published rules for one attribute key, without the order in which the code tests
  them: \<open>l\<close> is the level in force, \<open>allowed\<close> the application's own keys, \<open>never\<close> its
  additions to the never-list.
\<close>

definition contains_word :: "string \<Rightarrow> string \<Rightarrow> bool" where
  "contains_word key w \<longleftrightarrow> (\<exists>a b. map ascii_lower key = a @ map ascii_lower w @ b)"

definition key_permitted :: "telemetry_level \<Rightarrow> string list \<Rightarrow> string list \<Rightarrow> string \<Rightarrow> bool" where
  "key_permitted l allowed never key \<longleftrightarrow>
     l \<noteq> TL_Off \<and> attribute_min_level key \<le> l \<and>
     map ascii_lower key \<notin> set NEVER_KEYS \<and>
     (\<forall>w \<in> set never. str_trim w \<noteq> [] \<longrightarrow> \<not> contains_word key w) \<and>
     (key \<in> set NEVER_LIST_EXEMPT \<or> (\<forall>w \<in> set NEVER_LIST. \<not> contains_word key w)) \<and>
     (is_framework_key key \<or> key \<in> set allowed)"

lemma NEVER_LIST_lower: "w \<in> set NEVER_LIST \<Longrightarrow> map ascii_lower w = w"
proof -
  have "list_all (\<lambda>w. map ascii_lower w = w) NEVER_LIST" by code_simp
  then show "w \<in> set NEVER_LIST \<Longrightarrow> map ascii_lower w = w" by (simp add: list_all_iff)
qed

lemma is_never_listed_iff:
  "is_never_listed key extra \<longleftrightarrow>
     map ascii_lower key \<in> set NEVER_KEYS \<or>
     (\<exists>w \<in> set extra. str_trim w \<noteq> [] \<and> contains_word key w) \<or>
     key \<notin> set NEVER_LIST_EXEMPT \<and> (\<exists>w \<in> set NEVER_LIST. contains_word key w)"
proof -
  have "list_ex (str_contains (map ascii_lower key)) NEVER_LIST \<longleftrightarrow> (\<exists>w \<in> set NEVER_LIST. contains_word key w)"
    by (simp add: list_ex_iff str_contains_iff contains_word_def NEVER_LIST_lower cong: bex_cong)
  moreover have "list_ex (\<lambda>f. str_contains (map ascii_lower key) (map ascii_lower f)) (filter (\<lambda>f. str_trim f \<noteq> []) extra)
      \<longleftrightarrow> (\<exists>w \<in> set extra. str_trim w \<noteq> [] \<and> contains_word key w)"
    by (auto simp: list_ex_iff str_contains_iff contains_word_def)
  ultimately show ?thesis unfolding is_never_listed_def Let_def by presburger
qed

lemma keeps_attribute_iff:
  "keeps_attribute (rules_from_policy p) key \<longleftrightarrow>
     key_permitted (tp_level p) (tp_app_attr_allowlist p) (tp_extra_never p) key"
  by (auto simp: keeps_attribute_def rules_from_policy_def key_permitted_def is_never_listed_iff)

abbreviation crosses :: "telemetry_policy \<Rightarrow> 'v key_value \<Rightarrow> bool" where
  "crosses p kv \<equiv> fst kv \<noteq> PROBE_ATTR_KEY \<and>
     key_permitted (tp_level p) (tp_app_attr_allowlist p) (tp_extra_never p) (fst kv)"

lemma retained_attributes:
  "strip_probe_attr (retain_attributes (rules_from_policy p) attrs) = filter (crosses p) attrs"
  by (simp add: strip_probe_attr_def retain_attributes_def keeps_attribute_iff conj_commute)

lemma span_verdict_iff: "span_verdict p probe = Keep \<longleftrightarrow> (\<exists>i. probe = Some i \<and> policy_effective p i)"
  by (auto simp: span_verdict_def split: option.splits)

lemma verdict_not_Drop: "v \<noteq> Drop \<longleftrightarrow> v = Keep"
  by (cases v) auto

text \<open>The whole boundary in one equation.\<close>

lemma exporter_filter_eq:
  "exporter_filter p batch =
     map (\<lambda>s. s\<lparr>sd_attributes := filter (crosses p) (sd_attributes s),
               sd_events :=
                 map (\<lambda>e. e\<lparr>ev_attributes := filter (crosses p) (ev_attributes e)\<rparr>)
                   (filter (\<lambda>e. span_verdict p (probe_of (ev_attributes e)) = Keep) (sd_events s))\<rparr>)
       (filter (\<lambda>s. span_verdict p (probe_of (sd_attributes s)) = Keep) batch)"
proof (induction batch)
  case Nil
  then show ?case by (simp add: exporter_filter_def List.map_filter_def)
next
  case (Cons s batch)
  then show ?case
    by (cases "span_verdict p (probe_of (sd_attributes s))")
      (simp_all add: exporter_filter_def List.map_filter_def redact_span_def retained_attributes Let_def)
qed

lemma key_permitted_mono: "key_permitted l a n k \<Longrightarrow> l \<le> l' \<Longrightarrow> key_permitted l' a n k"
  unfolding key_permitted_def by (metis antisym level_off_least(1) order.trans)

lemma resolve_app_lists:
  "tp_app_attr_allowlist (resolve_policy i) = ti_app_attr_allowlist i" "tp_extra_never (resolve_policy i) = ti_extra_never i"
  by (simp_all add: resolve_policy_def Let_def split_def)

lemma effective_within_consent:
  assumes "is_end_user (ti_deployment i)" "probes_ok (ti_registry i)" "policy_effective (resolve_policy i) probe"
  shows "\<exists>spec \<in> set (ti_registry i). ps_id spec = probe \<and> ps_min_level spec \<le> consented_level (ti_level i)"
  using assms effective_iff [OF assms(2)] level_within_consent [OF assms(1)]
  unfolding policy_effective_def resolve_level(4,5) by (meson order.trans)

text \<open>The keys a span carries, its events included.\<close>

definition span_keys :: "('v, 'r) span_data \<Rightarrow> string set" where
  "span_keys s = fst ` set (sd_attributes s) \<union> (\<Union>e \<in> set (sd_events s). fst ` set (ev_attributes e))"

lemma exported_keys_cross:
  assumes "s \<in> set (exporter_filter p batch)" "key \<in> span_keys s"
  shows "key \<noteq> PROBE_ATTR_KEY \<and> key_permitted (tp_level p) (tp_app_attr_allowlist p) (tp_extra_never p) key"
  using assms unfolding exporter_filter_eq by (auto simp: span_keys_def)

text \<open>
  C28. On an end-user install, whatever spans are recorded, a span leaves the process only when
  the probe it declares is in the catalog at a level within what the person consented to, and
  every attribute key it or its events still carry then is one the published rules permit
  at that consent: never a key holding a word of the never-list (the three reviewed keys
  apart) or an addition of the author's, never a raw URL, host name or command line, never an
  application key the author did not declare, and never the internal probe marker.
  Under a kill switch or without consent nothing is handed to the exporter.
\<close>

theorem export_within_consent:
  fixes i :: telemetry_inputs and batch :: "('v, 'r) span_data list"
  defines "out \<equiv> exporter_filter (resolve_policy i) batch" and "consent \<equiv> consented_level (ti_level i)"
  assumes user: "is_end_user (ti_deployment i)" and catalog: "probes_ok (ti_registry i)"
  shows "(\<forall>s' \<in> set out.
      (\<exists>s \<in> set batch. \<exists>spec \<in> set (ti_registry i).
         probe_of (sd_attributes s) = Some (ps_id spec) \<and> ps_min_level spec \<le> consent \<and>
         sd_rest s' = sd_rest s \<and> set (sd_attributes s') \<subseteq> set (sd_attributes s)) \<and>
      (\<forall>key \<in> span_keys s'. key \<noteq> PROBE_ATTR_KEY \<and>
         key_permitted consent (ti_app_attr_allowlist i) (ti_extra_never i) key)) \<and>
     (ti_kill_switch i \<noteq> None \<or> consent = TL_Off \<longrightarrow> export_batch inner (resolve_policy i) batch = Ok ())"
proof (intro conjI ballI impI)
  fix s' assume s': "s' \<in> set out"
  then obtain s probe where s: "s \<in> set batch" "probe_of (sd_attributes s) = Some probe"
    "policy_effective (resolve_policy i) probe" "sd_rest s' = sd_rest s" "set (sd_attributes s') \<subseteq> set (sd_attributes s)"
    unfolding out_def exporter_filter_eq by (auto simp: span_verdict_iff)
  then show "\<exists>s \<in> set batch. \<exists>spec \<in> set (ti_registry i).
      probe_of (sd_attributes s) = Some (ps_id spec) \<and> ps_min_level spec \<le> consent \<and>
      sd_rest s' = sd_rest s \<and> set (sd_attributes s') \<subseteq> set (sd_attributes s)"
    using effective_within_consent [OF user catalog s(3)] unfolding consent_def by blast
  fix key assume "key \<in> span_keys s'"
  then have k: "key \<noteq> PROBE_ATTR_KEY"
    "key_permitted (tp_level (resolve_policy i)) (ti_app_attr_allowlist i) (ti_extra_never i) key"
    using exported_keys_cross [of s' "resolve_policy i" batch key] s' unfolding out_def resolve_app_lists by auto
  then show "key \<noteq> PROBE_ATTR_KEY" by blast
  show "key_permitted consent (ti_app_attr_allowlist i) (ti_extra_never i) key"
    using key_permitted_mono [OF k(2) level_within_consent [OF user]] unfolding consent_def .
next
  assume "ti_kill_switch i \<noteq> None \<or> consent = TL_Off"
  then have "tp_level (resolve_policy i) = TL_Off"
    using end_user_level [OF user] level_within_consent [OF user]
    by (auto simp: resolve_level consent_def antisym)
  then have "\<not> policy_effective (resolve_policy i) probe" for probe
    using effective_iff [OF catalog] by (simp add: policy_effective_def resolve_level(4))
  then have "out = []" unfolding out_def exporter_filter_eq by (simp add: span_verdict_iff)
  then show "export_batch inner (resolve_policy i) batch = Ok ()"
    unfolding out_def export_batch_def by simp
qed

text \<open>
  A run of the sample application: the command span carries an argument list, a token and
  an undeclared application key; one event belongs to a probe above the consent.
\<close>

definition sample_span :: "(unit, unit) span_data" where
  "sample_span =
     \<lparr> sd_attributes =
         [str_attr ''cli.probe'' ''cli.command'', str_attr ''command'' ''deploy'',
          str_attr ''cli.command.arg_names'' ''force'', str_attr ''cli.auth_token'' ''s3cr3t'',
          str_attr ''tier'' ''gold''],
       sd_events = [\<lparr> ev_attributes = [str_attr ''cli.probe'' ''cli.command.args''], ev_rest = () \<rparr>],
       sd_rest = () \<rparr>"

lemma sample_span_exported:
  "exporter_filter (resolve_policy sample_telemetry) [sample_span] =
     [\<lparr> sd_attributes = [str_attr ''command'' ''deploy''], sd_events = [], sd_rest = () \<rparr>]"
  by code_simp

theorem export_within_consent_witness:
  "key_permitted TL_Usage [] [] ''command'' \<and>
   export_batch (\<lambda>_ :: (unit, unit) span_data list. Err ''sent'')
     (resolve_policy (sample_telemetry\<lparr>ti_kill_switch := Some DoNotTrack\<rparr>)) [sample_span] = Ok ()"
proof
  have user: "is_end_user (ti_deployment sample_telemetry)"
    by (simp add: sample_telemetry_def is_end_user_def)
  have c: "consented_level (ti_level sample_telemetry) = TL_Usage"
    by (simp add: sample_telemetry_def consented_level_def)
  have a: "ti_app_attr_allowlist sample_telemetry = []" "ti_extra_never sample_telemetry = []"
    by (simp_all add: sample_telemetry_def)
  show "key_permitted TL_Usage [] [] ''command''"
    using export_within_consent [OF user sample_telemetry_catalog, where batch = "[sample_span]" and inner = "\<lambda>_. Err ()"]
    unfolding sample_span_exported c a by (simp add: span_keys_def str_attr_def)
  let ?k = "sample_telemetry\<lparr>ti_kill_switch := Some DoNotTrack\<rparr>"
  show "export_batch (\<lambda>_ :: (unit, unit) span_data list. Err ''sent'') (resolve_policy ?k) [sample_span] = Ok ()"
    using export_within_consent [of ?k, where batch = "[sample_span]" and inner = "\<lambda>_. Err ''sent''"]
      user sample_telemetry_catalog by simp
qed

section \<open>The attributes of the built-in probes\<close>

text \<open>
  With every level open and nothing added to the never-list, the boundary keeps every key the
  builders produce apart from the probe marker: none of them is caught by the word list
  by accident, and none needs the author's allowlist.
\<close>

definition builder_keys :: "string list" where
  "builder_keys =
     map fst
       (usage_error_attrs [] (Some []) @ feature_attrs [] Recorded @ http_client_attrs [] (Some 0) (Some []) (Some 0) @
        http_server_attrs [] [] 0 @ mcp_session_attrs (Some []) (Some []) @ chat_attrs (\<lambda>_. []) 0 F_nan @
        doctor_attrs [] [] 0 @ plugin_attrs [] [] @ auth_attrs [] [] @ config_attrs 0 [] [] @
        secrets_attrs [] [] [] @ help_attrs (Some []) @ process_attrs 0 :: unit key_value list)"

definition open_rules :: redaction_rules where
  "open_rules = \<lparr> rr_level = TL_Debug, rr_app_attr_allowlist = [], rr_extra_never = [] \<rparr>"

theorem builder_keys_reach_debug: "list_all (keeps_attribute open_rules) builder_keys"
  by code_simp

theorem metric_labels_allowed:
  "kv \<in> set (command_metric_labels out) \<Longrightarrow> metric_label_is_allowed (fst kv)"
  by (auto simp: command_metric_labels_def opt_attr_def str_attr_def metric_label_is_allowed_def
      METRIC_LABEL_ALLOWLIST_def split: option.splits)

text \<open>Argument values are debug-only, whatever the argument is called.\<close>

theorem arg_values_need_debug:
  "kv \<in> set (arg_value_attrs allowlist pairs) \<Longrightarrow>
     attribute_min_level (fst kv) = TL_Debug \<and> \<not> is_never_listed (fst kv) []"
  by (auto simp: arg_value_attrs_def str_attr_def attribute_min_level_def starts_with_iff)

text \<open>The operating system version has at most two numeric components.\<close>

lemma coarse_version_shape:
  "coarse_version raw = [] \<or>
   (\<exists>major. list_all is_ascii_digit major \<and>
      (coarse_version raw = major \<or> (\<exists>minor. list_all is_ascii_digit minor \<and> coarse_version raw = major @ ''.'' @ minor)))"
proof -
  define parts where "parts = takeWhile (list_all is_ascii_digit)
      (filter (\<lambda>p. p \<noteq> [])
        (str_split (CHR ''.'')
          (map (\<lambda>c. if c = CHR ''-'' \<or> c = CHR ''_'' then CHR ''.'' else c) (str_trim raw))))"
  have d: "\<And>q. q \<in> set parts \<Longrightarrow> list_all is_ascii_digit q"
    unfolding parts_def by (blast dest: set_takeWhileD)
  have "coarse_version raw = (case parts of major # minor # _ \<Rightarrow> major @ ''.'' @ minor | [major] \<Rightarrow> major | [] \<Rightarrow> [])"
    by (simp add: coarse_version_def parts_def)
  then show ?thesis using d by (auto split: list.splits)
qed

section \<open>Divergences\<close>

text \<open>
  \<open>Attribution::Anonymous\<close> is documented as carrying no session id; the command span of an
  anonymous install is exported with it.
\<close>

theorem anonymous_session_id_exported:
  "tp_attribution (resolve_policy (sample_telemetry\<lparr>ti_attribution := Anonymous\<rparr>)) = Anonymous \<and>
   (\<forall>out. (''session.id'', StringValue ''s1'') \<in>
      set (retain_attributes (rules_from_policy (resolve_policy (sample_telemetry\<lparr>ti_attribution := Anonymous\<rparr>)))
             (command_span_attrs (resolve_policy (sample_telemetry\<lparr>ti_attribution := Anonymous\<rparr>)) out)))"
proof -
  let ?p = "resolve_policy (sample_telemetry\<lparr>ti_attribution := Anonymous\<rparr>)"
  have k: "keeps_attribute (rules_from_policy ?p) ''session.id''" by code_simp
  have "tp_attribution ?p = Anonymous" "tp_session_id ?p = ''s1''"
    by (simp_all add: resolve_policy_def sample_telemetry_def Let_def split_def)
  then show ?thesis using k
    by (simp add: retain_attributes_def command_span_attrs_def str_attr_def)
qed

text \<open>
  The switch of the probe \<open>cli.command.args\<close> does not reach the attributes it stands for:
  they travel on the span of \<open>cli.command\<close>, and the boundary decides them by level alone.
\<close>

theorem args_switch_ignored:
  "let p = resolve_policy (sample_telemetry\<lparr>ti_level := \<lparr> ll_recommended = None, ll_config_file = Some TL_Diagnostic,
               ll_environment = None, ll_builder_override = None \<rparr>, ti_disabled_probes := {''cli.command.args''}\<rparr>)
   in \<not> policy_effective p ''cli.command.args'' \<and>
      map sd_attributes (exporter_filter p [sample_span]) =
        [[str_attr ''command'' ''deploy'', str_attr ''cli.command.arg_names'' ''force'']]"
  by code_simp

end
