(* ===== verification/Telemetry_Store.thy ===== *)
theory Telemetry_Store
  imports Telemetry_Policy Config_Store
begin

text \<open>
  The settings file of telemetry (\<open>src/telemetry/store.rs\<close>): what an install has chosen about
  its own telemetry, as the derived serialisation writes and reads it, in a file of the
  \<open>ConfigStore\<close>. The texts of deserialisation errors are not modelled.
\<close>

section \<open>Settings\<close>

definition TELEMETRY_SCHEMA_VERSION :: u32 where
  "TELEMETRY_SCHEMA_VERSION = 1"

record telemetry_settings =
  ts_schema_version :: u32
  ts_level :: "telemetry_level option"
  ts_attribution :: "attribution option"
  ts_endpoint :: "string option"
  ts_install_id :: "string option"
  ts_notice_shown :: "telemetry_level option"
  ts_probes :: "(string, bool) btree_map"

definition telemetry_settings_default :: telemetry_settings where
  "telemetry_settings_default =
     \<lparr> ts_schema_version = 0, ts_level = None, ts_attribution = None, ts_endpoint = None,
       ts_install_id = None, ts_notice_shown = None, ts_probes = [] \<rparr>"

definition opt_member :: "string \<Rightarrow> string option \<Rightarrow> (string \<times> json) list" where
  "opt_member k v = (case v of Some s \<Rightarrow> [(k, JStr s)] | None \<Rightarrow> [])"

text \<open>The derived \<open>Serialize\<close>, with its \<open>skip_serializing_if\<close> attributes.\<close>

definition settings_to_value :: "telemetry_settings \<Rightarrow> json" where
  "settings_to_value s =
     JObj (bm_of_list
       ([(''schema_version'', JNum (PosInt (ucast (ts_schema_version s))))] @
        opt_member ''level'' (map_option level_as_str (ts_level s)) @
        opt_member ''attribution'' (map_option attribution_as_str (ts_attribution s)) @
        opt_member ''endpoint'' (ts_endpoint s) @
        opt_member ''install_id'' (ts_install_id s) @
        opt_member ''notice_shown'' (map_option level_as_str (ts_notice_shown s)) @
        (if ts_probes s = [] then [] else [(''probes'', JObj (map (\<lambda>(k, b). (k, JBool b)) (ts_probes s)))])))"

text \<open>The derived \<open>Deserialize\<close>: a missing member is its default, an unknown one is ignored.\<close>

definition de_u32 :: "json option \<Rightarrow> string + u32" where
  "de_u32 j =
     (case j of
        None \<Rightarrow> Ok 0
      | Some (JNum (PosInt n)) \<Rightarrow> if unat n < 2 ^ 32 then Ok (ucast n) else Err ''u32''
      | Some _ \<Rightarrow> Err ''u32'')"

definition de_option :: "(json \<Rightarrow> string + 'a) \<Rightarrow> json option \<Rightarrow> string + 'a option" where
  "de_option f j =
     (case j of
        None \<Rightarrow> Ok None
      | Some JNull \<Rightarrow> Ok None
      | Some v \<Rightarrow> and_then (f v) (\<lambda>x. Ok (Some x)))"

definition de_string :: "json \<Rightarrow> string + string" where
  "de_string j = (case j of JStr s \<Rightarrow> Ok s | _ \<Rightarrow> Err ''string'')"

definition de_variant :: "(string \<Rightarrow> 'e + 'a) \<Rightarrow> json \<Rightarrow> string + 'a" where
  "de_variant parse j =
     (case j of
        JStr s \<Rightarrow> map_err (\<lambda>_. ''variant'') (parse s)
      | JObj [(s, JNull)] \<Rightarrow> map_err (\<lambda>_. ''variant'') (parse s)
      | _ \<Rightarrow> Err ''variant'')"

definition de_bool_entry :: "string \<times> json \<Rightarrow> string + string \<times> bool" where
  "de_bool_entry = (\<lambda>(k, j). case j of JBool b \<Rightarrow> Ok (k, b) | _ \<Rightarrow> Err ''bool'')"

definition de_probes :: "json option \<Rightarrow> string + (string, bool) btree_map" where
  "de_probes j =
     (case j of
        None \<Rightarrow> Ok []
      | Some (JObj m) \<Rightarrow> collect_results de_bool_entry m
      | Some _ \<Rightarrow> Err ''map'')"

definition settings_from_value :: "json \<Rightarrow> string + telemetry_settings" where
  "settings_from_value j =
     (case j of
        JObj m \<Rightarrow>
          and_then (de_u32 (map_of m ''schema_version'')) (\<lambda>version.
          and_then (de_option (de_variant level_from_str) (map_of m ''level'')) (\<lambda>level.
          and_then (de_option (de_variant attribution_from_str) (map_of m ''attribution'')) (\<lambda>attribution.
          and_then (de_option de_string (map_of m ''endpoint'')) (\<lambda>endpoint.
          and_then (de_option de_string (map_of m ''install_id'')) (\<lambda>install_id.
          and_then (de_option (de_variant level_from_str) (map_of m ''notice_shown'')) (\<lambda>notice_shown.
          and_then (de_probes (map_of m ''probes'')) (\<lambda>probes.
          Ok \<lparr> ts_schema_version = version, ts_level = level, ts_attribution = attribution,
               ts_endpoint = endpoint, ts_install_id = install_id, ts_notice_shown = notice_shown,
               ts_probes = probes \<rparr>)))))))
      | _ \<Rightarrow> Err ''struct'')"

definition settings_vc :: "telemetry_settings versioned_config" where
  "settings_vc =
     \<lparr> vc_default = telemetry_settings_default, vc_schema_version = ts_schema_version,
       vc_set_schema_version = (\<lambda>v s. s\<lparr>ts_schema_version := v\<rparr>),
       vc_to_value = (\<lambda>s. Ok (settings_to_value s)), vc_from_value = settings_from_value \<rparr>"

section \<open>The store\<close>

datatype store_state = Ready path | Unavailable string

definition store_state_default :: store_state where
  "store_state_default = Unavailable ''not opened''"

definition is_ready :: "store_state \<Rightarrow> bool" where
  "is_ready s = (case s of Ready _ \<Rightarrow> True | Unavailable _ \<Rightarrow> False)"

definition store_reason :: "store_state \<Rightarrow> string option" where
  "store_reason s = (case s of Ready _ \<Rightarrow> None | Unavailable reason \<Rightarrow> Some reason)"

definition store_describe :: "store_state \<Rightarrow> string" where
  "store_describe s =
     (case s of Ready p \<Rightarrow> str_join ''/'' p | Unavailable reason \<Rightarrow> ''unavailable: '' @ reason)"

definition settings_file_name :: "config_format \<Rightarrow> string" where
  "settings_file_name fmt = (case fmt of Json \<Rightarrow> ''telemetry.json'' | Toml \<Rightarrow> ''telemetry.toml'')"

record telemetry_store =
  tst_state :: store_state
  tst_store :: "(telemetry_settings, file_backend_state) config_store option"

text \<open>
  The operating system is the record \<open>io_faults\<close>, the process id and the files; the
  directory is created by the same call as in \<open>FileBackend::write\<close>.
\<close>

definition open_at_with_format ::
  "io_faults \<Rightarrow> u64 \<Rightarrow> path \<Rightarrow> string \<Rightarrow> config_format \<Rightarrow> file_backend_state \<Rightarrow> telemetry_store" where
  "open_at_with_format io pid dir app fmt files =
     (case io_mkdir io of
        Some e \<Rightarrow>
          \<lparr> tst_state = Unavailable (''cannot create '' @ str_join ''/'' (dir @ [app]) @ '': '' @ e), tst_store = None \<rparr>
      | None \<Rightarrow>
          (let p = dir @ [app, settings_file_name fmt]
           in \<lparr> tst_state = Ready p,
                tst_store = Some (config_store_new settings_vc (file_vtable io pid p) files fmt TELEMETRY_SCHEMA_VERSION) \<rparr>))"

definition open_with_format ::
  "io_faults \<Rightarrow> u64 \<Rightarrow> path option \<Rightarrow> string \<Rightarrow> config_format \<Rightarrow> file_backend_state \<Rightarrow> telemetry_store" where
  "open_with_format io pid config_dir app fmt files =
     (case config_dir of
        Some dir \<Rightarrow> open_at_with_format io pid dir app fmt files
      | None \<Rightarrow>
          \<lparr> tst_state = Unavailable ''this platform has no resolvable configuration directory'', tst_store = None \<rparr>)"

definition store_settings :: "'t codec \<Rightarrow> telemetry_store \<Rightarrow> telemetry_settings" where
  "store_settings cd st =
     (case tst_store st of
        None \<Rightarrow> telemetry_settings_default
      | Some cs \<Rightarrow> (case load settings_vc cd cs of Ok s \<Rightarrow> s | Err _ \<Rightarrow> telemetry_settings_default))"

definition mutate ::
  "'t codec \<Rightarrow> (telemetry_settings \<Rightarrow> telemetry_settings) \<Rightarrow> telemetry_store \<Rightarrow>
   (config_error + telemetry_settings) \<times> telemetry_store" where
  "mutate cd f st =
     (case tst_store st of
        None \<Rightarrow> (Err (ReadOnly (store_describe (tst_state st))), st)
      | Some cs \<Rightarrow>
          (let s = f (case load settings_vc cd cs of Ok s \<Rightarrow> s | Err _ \<Rightarrow> telemetry_settings_default)
           in case save settings_vc cd s cs of
                (Err e, cs') \<Rightarrow> (Err e, st\<lparr>tst_store := Some cs'\<rparr>)
              | (Ok _, cs') \<Rightarrow> (Ok s, st\<lparr>tst_store := Some cs'\<rparr>)))"

text \<open>The identifier the random generator would mint is the argument \<open>minted\<close>.\<close>

definition ensure_install_id :: "'t codec \<Rightarrow> string \<Rightarrow> telemetry_store \<Rightarrow> string option \<times> telemetry_store" where
  "ensure_install_id cd minted st =
     (case ts_install_id (store_settings cd st) of
        Some existing \<Rightarrow> (Some existing, st)
      | None \<Rightarrow>
          (case mutate cd (\<lambda>s. if ts_install_id s = None then s\<lparr>ts_install_id := Some minted\<rparr> else s) st of
             (Ok s, st') \<Rightarrow> (ts_install_id s, st')
           | (Err _, st') \<Rightarrow> (None, st')))"

text \<open>\<open>reset\<close>: \<open>rm\<close> is the error \<open>remove_file\<close> would answer with on an existing file.\<close>

definition store_reset :: "string option \<Rightarrow> telemetry_store \<Rightarrow> (config_error + unit) \<times> telemetry_store" where
  "store_reset rm st =
     (case (tst_state st, tst_store st) of
        (Ready p, Some cs) \<Rightarrow>
          (let files = cs_backend cs
           in if fb_fs files p = None then (Ok (), st)
              else (case rm of
                      Some e \<Rightarrow> (Err (BackendWrite (str_join ''/'' p) e), st)
                    | None \<Rightarrow> (Ok (), st\<lparr>tst_store := Some (cs\<lparr>cs_backend := files\<lparr>fb_fs := (fb_fs files)(p := None)\<rparr>\<rparr>)\<rparr>)))
      | (s, _) \<Rightarrow> (Err (ReadOnly (store_describe s)), st))"

record telemetry_store_location =
  tl_dir :: "path option"
  tl_format :: config_format

definition location_open ::
  "io_faults \<Rightarrow> u64 \<Rightarrow> path option \<Rightarrow> telemetry_store_location \<Rightarrow> string \<Rightarrow> file_backend_state \<Rightarrow> telemetry_store" where
  "location_open io pid config_dir loc app files =
     (case tl_dir loc of
        Some dir \<Rightarrow> open_at_with_format io pid dir app (tl_format loc) files
      | None \<Rightarrow> open_with_format io pid config_dir app (tl_format loc) files)"

section \<open>Round trip\<close>

lemma de_probes_map: "collect_results de_bool_entry (map (\<lambda>(k, b). (k, JBool b)) m) = Ok m"
  by (induction m) (auto simp: de_bool_entry_def)

lemma de_u32_ucast: "de_u32 (Some (JNum (PosInt (ucast v)))) = Ok v"
proof -
  have v: "unat v < 2 ^ 32" using unsigned_less [of v] by simp
  then have u: "unat (ucast v :: u64) = unat v" by (simp add: unsigned_ucast_eq take_bit_nat_eq_self)
  then have "(ucast (ucast v :: u64) :: u32) = v"
    using v by (simp only: word_unat_eq_iff unsigned_ucast_eq) (simp add: take_bit_nat_eq_self take_bit_word_eq_self)
  then show ?thesis using v u by (simp add: de_u32_def)
qed

theorem settings_value_roundtrip: "settings_from_value (settings_to_value s) = Ok s"
proof -
  have "level_from_str (level_as_str l) = Ok l" "attribution_from_str (attribution_as_str a) = Ok a" for l a
    by (simp_all add: level_str_roundtrip attribution_str_roundtrip)
  note parse = this
  have lvl: "de_option (de_variant level_from_str) (map_option (\<lambda>l. JStr (level_as_str l)) l) = Ok l" for l
    by (cases l) (auto simp: de_option_def de_variant_def parse)
  have att: "de_option (de_variant attribution_from_str) (map_option (\<lambda>l. JStr (attribution_as_str l)) l) = Ok l" for l
    by (cases l) (auto simp: de_option_def de_variant_def parse)
  have str: "de_option de_string (map_option JStr l) = Ok l" for l
    by (cases l) (auto simp: de_option_def de_string_def)
  obtain m where m: "settings_to_value s = JObj m" by (simp add: settings_to_value_def)
  have "map_of (rev (opt_member k v)) x = (if x = k then map_option JStr v else None)" for k v x
    by (auto simp: opt_member_def split: option.splits)
  then have "map_of m ''schema_version'' = Some (JNum (PosInt (ucast (ts_schema_version s))))"
    "map_of m ''level'' = map_option (\<lambda>l. JStr (level_as_str l)) (ts_level s)"
    "map_of m ''attribution'' = map_option (\<lambda>l. JStr (attribution_as_str l)) (ts_attribution s)"
    "map_of m ''endpoint'' = map_option JStr (ts_endpoint s)"
    "map_of m ''install_id'' = map_option JStr (ts_install_id s)"
    "map_of m ''notice_shown'' = map_option (\<lambda>l. JStr (level_as_str l)) (ts_notice_shown s)"
    "map_of m ''probes'' = (if ts_probes s = [] then None else Some (JObj (map (\<lambda>(k, b). (k, JBool b)) (ts_probes s))))"
    using m by (auto simp: settings_to_value_def bm_of_list_lookup map_add_def option.map_comp comp_def split: option.splits)
  then show ?thesis
    using de_u32_ucast [of "ts_schema_version s"] lvl att str
    unfolding m by (simp add: settings_from_value_def de_probes_def de_probes_map)
qed

lemma read_version_settings: "read_version (settings_to_value s) = ts_schema_version s"
proof -
  have "map_of (rev (opt_member k v)) ''schema_version'' = None" if "k \<noteq> ''schema_version''" for k v
    using that by (auto simp: opt_member_def split: option.splits)
  then have "json_get (settings_to_value s) SCHEMA_VERSION_FIELD = Some (JNum (PosInt (ucast (ts_schema_version s))))"
    by (simp add: settings_to_value_def SCHEMA_VERSION_FIELD_def json_get_def bm_of_list_lookup map_add_def)
  moreover have "de_u32 (Some (JNum (PosInt (ucast (ts_schema_version s))))) = Ok (ts_schema_version s)"
    by (rule de_u32_ucast)
  ultimately show ?thesis by (simp add: read_version_def de_u32_def split: if_splits)
qed

section \<open>What a store remembers\<close>

text \<open>
  What the store relies on of the text formats: the bytes written for a document are not empty
  and read back as that document.
\<close>

definition codec_faithful :: "'t codec \<Rightarrow> config_format \<Rightarrow> bool" where
  "codec_faithful cd fmt \<longleftrightarrow>
     (\<forall>label j bs. value_to_bytes cd fmt label j = Ok bs \<longrightarrow> bs \<noteq> [] \<and> bytes_to_value cd fmt label bs = Ok j)"

definition store_ok :: "io_faults \<Rightarrow> u64 \<Rightarrow> telemetry_store \<Rightarrow> bool" where
  "store_ok io pid st \<longleftrightarrow>
     (case tst_store st of
        None \<Rightarrow> \<not> is_ready (tst_state st)
      | Some cs \<Rightarrow> (\<exists>p. tst_state st = Ready p \<and> cs_vtable cs = file_vtable io pid p) \<and>
          cs_current_version cs = TELEMETRY_SCHEMA_VERSION)"

lemma open_ok:
  "store_ok io pid (open_at_with_format io pid dir app fmt files)"
  "store_ok io pid (open_with_format io pid cfg app fmt files)"
  "store_ok io pid (location_open io pid cfg loc app files)"
  by (auto simp: store_ok_def open_at_with_format_def open_with_format_def location_open_def is_ready_def
      config_store_new_def Let_def split: option.splits)

abbreviation stamped :: "telemetry_settings \<Rightarrow> telemetry_settings" where
  "stamped s \<equiv> s\<lparr>ts_schema_version := TELEMETRY_SCHEMA_VERSION\<rparr>"

lemma file_reads: "io_read io = None \<Longrightarrow> cb_read (file_vtable io pid p) b \<noteq> Err e"
  by (auto simp: file_vtable_def file_read_def split: option.splits)

lemma save_settings:
  assumes "cs_vtable cs = file_vtable io pid p" "cs_current_version cs = TELEMETRY_SCHEMA_VERSION"
    and "codec_faithful cd (cs_format cs)" "io_read io = None" "save settings_vc cd s cs = (Ok (), cs')"
  shows "load settings_vc cd cs' = Ok (stamped s)"
proof -
  have "byte_store (cs_vtable cs)" using assms(1) on_file.byte_store_axioms by simp
  moreover have "bs \<noteq> [] \<and> bytes_to_value cd (cs_format cs) (backend_label cs) bs = Ok j"
    if "value_to_bytes cd (cs_format cs) (backend_label cs) j = Ok bs" for j bs
    using assms(3) that by (auto simp: codec_faithful_def)
  moreover have "vc_from_value settings_vc j = Ok c \<and> read_version j = vc_schema_version settings_vc c"
    if "vc_to_value settings_vc c = Ok j" for c j
    using that settings_value_roundtrip read_version_settings by (auto simp: settings_vc_def)
  ultimately have "load settings_vc cd cs' = Ok (stamped s) \<or> (\<exists>e. cb_read (cs_vtable cs) (cs_backend cs') = Err e)"
    using save_then_load [of cs cd settings_vc s cs'] assms(2,5) by (auto simp: settings_vc_def)
  then show ?thesis using file_reads [OF assms(4)] assms(1) by auto
qed

lemma failed_save:
  assumes "cs_vtable cs = file_vtable io pid p" "save vc cd s cs = (Err e, cs')"
  shows "cs_vtable cs' = cs_vtable cs" "cs_current_version cs' = cs_current_version cs" "cs_format cs' = cs_format cs"
    and "load vc cd cs' = load vc cd cs"
proof -
  obtain b where cs': "cs' = cs\<lparr>cs_backend := b\<rparr>" and b: "cb_read (cs_vtable cs) b = cb_read (cs_vtable cs) (cs_backend cs)"
    "cb_label (cs_vtable cs) b = cb_label (cs_vtable cs) (cs_backend cs)"
  proof (cases "cs' = cs")
    case True
    then show ?thesis using that [of "cs_backend cs"] by simp
  next
    case False
    then obtain bs b where "cb_write (cs_vtable cs) bs (cs_backend cs) = (Err e, b)" "cs' = cs\<lparr>cs_backend := b\<rparr>"
      using assms(2) by (auto simp: save_def Let_def split: if_splits sum.splits prod.splits)
    then show ?thesis
      using that on_file.write_failed [of io pid p bs "cs_backend cs"] on_file.label_stable [of io pid p bs "cs_backend cs"] assms(1)
      by auto
  qed
  show "cs_vtable cs' = cs_vtable cs" "cs_current_version cs' = cs_current_version cs" "cs_format cs' = cs_format cs"
    by (simp_all add: cs')
  moreover have "cs_migrations cs' = cs_migrations cs" "cs_backend cs' = b" by (simp_all add: cs')
  ultimately show "load vc cd cs' = load vc cd cs" unfolding load_def Let_def by (simp only: b)
qed

lemma saved_store:
  "save vc cd s cs = (Ok (), cs') \<Longrightarrow>
     cs_vtable cs' = cs_vtable cs \<and> cs_current_version cs' = cs_current_version cs \<and> cs_format cs' = cs_format cs"
  by (auto simp: save_def Let_def split: if_splits sum.splits prod.splits)

text \<open>The format a store writes, and whether its texts are faithful.\<close>

definition store_faithful :: "'t codec \<Rightarrow> telemetry_store \<Rightarrow> bool" where
  "store_faithful cd st \<longleftrightarrow> (case tst_store st of None \<Rightarrow> True | Some cs \<Rightarrow> codec_faithful cd (cs_format cs))"

lemma mutate_spec:
  assumes ok: "store_ok io pid st" and cd: "store_faithful cd st" and io: "io_read io = None"
    and m: "mutate cd f st = (r, st')"
  shows "store_ok io pid st' \<and> store_faithful cd st' \<and> tst_state st' = tst_state st \<and>
     (case r of
        Ok s \<Rightarrow> s = f (store_settings cd st) \<and> store_settings cd st' = stamped s
      | Err _ \<Rightarrow> store_settings cd st' = store_settings cd st)"
proof (cases "tst_store st")
  case None
  then show ?thesis using ok cd m by (auto simp: mutate_def)
next
  case (Some cs)
  obtain p where p: "tst_state st = Ready p" "cs_vtable cs = file_vtable io pid p"
      "cs_current_version cs = TELEMETRY_SCHEMA_VERSION"
    using ok Some by (auto simp: store_ok_def)
  let ?s = "f (store_settings cd st)"
  have s: "store_settings cd st = (case load settings_vc cd cs of Ok s \<Rightarrow> s | Err _ \<Rightarrow> telemetry_settings_default)"
    by (simp add: store_settings_def Some)
  obtain r' cs' where save: "save settings_vc cd ?s cs = (r', cs')" by fastforce
  then have st': "st' = st\<lparr>tst_store := Some cs'\<rparr>" and r: "r = (case r' of Ok _ \<Rightarrow> Ok ?s | Err e \<Rightarrow> Err e)"
    using m Some s by (auto simp: mutate_def Let_def split: sum.splits)
  show ?thesis
  proof (cases r')
    case (Inl e)
    then show ?thesis
      using failed_save [OF p(2), of settings_vc cd ?s e cs'] save ok cd Some p
      by (simp add: st' r store_ok_def store_faithful_def store_settings_def)
  next
    case (Inr u)
    then have u: "save settings_vc cd ?s cs = (Ok (), cs')" using save by simp
    have "load settings_vc cd cs' = Ok (stamped ?s)"
      using save_settings [OF p(2,3) _ io u] cd Some by (simp add: store_faithful_def)
    then have "store_settings cd st' = stamped ?s" by (simp add: st' store_settings_def)
    then show ?thesis
      using saved_store [OF u] cd Some p Inr by (simp add: st' r store_ok_def store_faithful_def)
  qed
qed

text \<open>What a person chose, as opposed to what the framework notes for itself.\<close>

definition choices ::
  "telemetry_settings \<Rightarrow> telemetry_level option \<times> attribution option \<times> string option \<times> (string \<times> bool) list" where
  "choices s = (ts_level s, ts_attribution s, ts_endpoint s, ts_probes s)"

lemma ensure_install_id_spec:
  assumes ok: "store_ok io pid st" and cd: "store_faithful cd st" and io: "io_read io = None"
    and e: "ensure_install_id cd minted st = (r, st')"
  shows "store_ok io pid st' \<and> store_faithful cd st' \<and> tst_state st' = tst_state st \<and>
     choices (store_settings cd st') = choices (store_settings cd st) \<and>
     ts_notice_shown (store_settings cd st') = ts_notice_shown (store_settings cd st) \<and>
     (case ts_install_id (store_settings cd st) of
        Some i \<Rightarrow> r = Some i \<and> ts_install_id (store_settings cd st') = Some i
      | None \<Rightarrow> ts_install_id (store_settings cd st') = r \<and> r \<in> {None, Some minted})"
proof (cases "ts_install_id (store_settings cd st)")
  case (Some i)
  then have "r = Some i" "st' = st" using e by (simp_all add: ensure_install_id_def)
  then show ?thesis using Some ok cd by simp
next
  case None
  let ?f = "\<lambda>s. if ts_install_id s = None then s\<lparr>ts_install_id := Some minted\<rparr> else s"
  obtain m where m: "mutate cd ?f st = (m, st')" and r: "r = (case m of Ok s \<Rightarrow> ts_install_id s | Err _ \<Rightarrow> None)"
    using e None by (auto simp: ensure_install_id_def split: prod.splits sum.splits)
  show ?thesis
    using mutate_spec [OF ok cd io m] None r by (cases m) (auto simp: choices_def)
qed

text \<open>
  \<open>reset\<close> is a fresh install: no consent, no identifier, no note of a notice; and a store that
  is not available refuses it.
\<close>

theorem reset_forgets:
  assumes "store_ok io pid st"
  shows "case store_reset None st of
      (Ok _, st') \<Rightarrow> is_ready (tst_state st) \<and> store_settings cd st' = stamped telemetry_settings_default
    | (Err _, st') \<Rightarrow> \<not> is_ready (tst_state st) \<and> st' = st"
proof (cases "tst_store st")
  case None
  then show ?thesis
    using assms by (auto simp: store_ok_def store_reset_def split: store_state.splits)
next
  case (Some cs)
  then obtain p where p: "tst_state st = Ready p" "cs_vtable cs = file_vtable io pid p"
      "cs_current_version cs = TELEMETRY_SCHEMA_VERSION"
    using assms by (auto simp: store_ok_def)
  have "load settings_vc cd cs' = Ok (stamped telemetry_settings_default)"
    if "cs_vtable cs' = file_vtable io pid p" "cs_current_version cs' = TELEMETRY_SCHEMA_VERSION"
      "fb_fs (cs_backend cs') p = None" for cs'
    using that by (simp add: load_def Let_def file_vtable_def file_read_def settings_vc_def)
  then show ?thesis
    using p Some by (auto simp: store_reset_def store_settings_def Let_def is_ready_def)
qed

text \<open>
  A settings file that cannot be read, be it damaged or written by a newer release, counts as no
  settings; the next note the framework makes for itself replaces it, and the choice it held, an
  opt-out included, is gone.
\<close>

theorem unreadable_settings_overwritten:
  assumes "tst_store st = Some cs" "load settings_vc cd cs = Err e" "mutate cd (\<lambda>s. s\<lparr>ts_notice_shown := Some l\<rparr>) st = (Ok s, st')"
    and "store_ok io pid st" "store_faithful cd st" "io_read io = None"
  shows "store_settings cd st' =
     stamped (telemetry_settings_default\<lparr>ts_notice_shown := Some l\<rparr>)"
proof -
  have "store_settings cd st = telemetry_settings_default" using assms(1,2) by (simp add: store_settings_def)
  then show ?thesis using mutate_spec [OF assms(4,5,6,3)] by simp
qed

end
