(* ===== verification/Command_Spec.thy ===== *)
theory Command_Spec
  imports Json
begin

text \<open>
  Commands and their arguments as the program declares them (\<open>src/spec\<close>), the diagnostics
  every layer reports (\<open>src/parser/diagnostic.rs\<close>, \<open>error_codes.rs\<close>), the JSON schema
  published for a command, and the check of a typed argument map against the declaration.

  A text built by \<open>format!\<close> is kept as its format string with the arguments it is given, so
  that what a message says is data; the same holds for \<open>Display\<close>. The \<open>regex\<close> crate is the
  parameter \<open>regex_new\<close>: the compiled matcher of a pattern, or the compile error.
\<close>

section \<open>Declarations\<close>

text \<open>\<open>ArgValue\<close>, \<open>ArgKind\<close>, \<open>ArgValueType\<close>, \<open>Cardinality\<close> and \<open>ArgSpec\<close>.\<close>

datatype arg_value =
    AV_Bool bool
  | AV_Str string
  | AV_Int i64
  | AV_Float f64
  | AV_Enum string
  | AV_List "arg_value list"
  | AV_Count u32

datatype arg_kind = AK_Flag | AK_Option | AK_Positional

datatype arg_value_type = VT_String | VT_Bool | VT_Int | VT_Float | VT_Enum "string list"

datatype cardinality = Required | Optional | Repeated

record arg_spec =
  arg_name :: string
  arg_kind :: arg_kind
  arg_short :: "char option"
  arg_long :: "string option"
  arg_value_type :: arg_value_type
  arg_cardinality :: cardinality
  arg_default :: "arg_value option"
  arg_conflicts_with :: "string list"
  arg_requires :: "string list"
  arg_help :: string
  arg_min :: "i64 option"
  arg_max :: "i64 option"
  arg_min_f :: "f64 option"
  arg_max_f :: "f64 option"
  arg_pattern :: "string option"
  arg_min_occurs :: "u64 option"

definition arg_spec_default :: arg_spec where
  "arg_spec_default =
     \<lparr> arg_name = [], arg_kind = AK_Flag, arg_short = None, arg_long = None,
       arg_value_type = VT_String, arg_cardinality = Optional, arg_default = None,
       arg_conflicts_with = [], arg_requires = [], arg_help = [], arg_min = None, arg_max = None,
       arg_min_f = None, arg_max_f = None, arg_pattern = None, arg_min_occurs = None \<rparr>"

record env_var_entry =
  env_name :: string
  env_description :: string

record exit_code_entry =
  exit_code :: int
  exit_description :: string

text \<open>\<open>CommandSpec\<close> and \<open>GroupMetadata\<close>.\<close>

record command_spec =
  spec_summary :: string
  spec_long_about :: "string option"
  spec_examples :: "string list"
  spec_aliases :: "string list"
  spec_hidden_aliases :: "string list"
  spec_hidden :: bool
  spec_deprecated :: "string option"
  spec_env_vars :: "env_var_entry list"
  spec_exit_codes :: "exit_code_entry list"
  spec_args :: "arg_spec list"
  spec_notes :: "string option"
  spec_category :: "string option"
  spec_help_order :: "u32 option"
  spec_syntax :: "string option"

definition command_spec_default :: command_spec where
  "command_spec_default =
     \<lparr> spec_summary = [], spec_long_about = None, spec_examples = [], spec_aliases = [],
       spec_hidden_aliases = [], spec_hidden = False, spec_deprecated = None, spec_env_vars = [],
       spec_exit_codes = [], spec_args = [], spec_notes = None, spec_category = None,
       spec_help_order = None, spec_syntax = None \<rparr>"

record group_metadata =
  group_summary :: string
  group_hidden :: bool
  group_category :: "string option"
  group_help_order :: "u32 option"

section \<open>Diagnostics\<close>

datatype fmt_arg = FStr string | FInt int | FFloat f64 | FType arg_value_type

datatype fmt_text = Text string "fmt_arg list"

text \<open>\<open>Display\<close> of an \<open>ArgValue\<close>; a list reaches \<open>unimplemented!\<close>, which is \<open>None\<close>.\<close>

fun arg_value_display :: "arg_value \<Rightarrow> fmt_text option" where
  "arg_value_display (AV_Bool b) = Some (Text (if b then ''true'' else ''false'') [])"
| "arg_value_display (AV_Str s) = Some (Text ''{}'' [FStr s])"
| "arg_value_display (AV_Int i) = Some (Text ''{}'' [FInt i])"
| "arg_value_display (AV_Float f) = Some (Text ''{}'' [FFloat f])"
| "arg_value_display (AV_Enum e) = Some (Text ''{}'' [FStr e])"
| "arg_value_display (AV_Count c) = Some (Text ''{}'' [FInt (uint c)])"
| "arg_value_display (AV_List _) = None"

datatype diagnostic_category = DC_Parse | DC_Spec | DC_Validation | DC_Completion

record diagnostic =
  diag_code :: string
  diag_category :: diagnostic_category
  diag_message :: fmt_text
  diag_suggestion :: "fmt_text option"
  diag_span :: "string option"

definition E_MISSING_REQUIRED :: string where "E_MISSING_REQUIRED = ''E003''"
definition E_INVALID_VALUE :: string where "E_INVALID_VALUE = ''E004''"
definition E_CONFLICT :: string where "E_CONFLICT = ''E005''"
definition E_UNSATISFIED_REQUIRES :: string where "E_UNSATISFIED_REQUIRES = ''E006''"

lemmas error_code_defs =
  E_MISSING_REQUIRED_def E_INVALID_VALUE_def E_CONFLICT_def E_UNSATISFIED_REQUIRES_def

definition spec_diag :: "string \<Rightarrow> fmt_text \<Rightarrow> fmt_text \<Rightarrow> diagnostic" where
  "spec_diag code message suggestion =
     \<lparr> diag_code = code, diag_category = DC_Spec, diag_message = message,
       diag_suggestion = Some suggestion, diag_span = None \<rparr>"

lemma diag_code_spec_diag [simp]: "diag_code (spec_diag c m s) = c"
  by (simp add: spec_diag_def)

section \<open>The published schema\<close>

text \<open>\<open>ArgSpec::is_schema_required\<close> and \<open>positive_min_occurs\<close>.\<close>

definition positive_min_occurs :: "arg_spec \<Rightarrow> u64 option" where
  "positive_min_occurs a =
     (case arg_min_occurs a of None \<Rightarrow> None | Some n \<Rightarrow> if 1 \<le> n then Some n else None)"

definition is_schema_required :: "arg_spec \<Rightarrow> bool" where
  "is_schema_required a =
     (case arg_cardinality a of
        Required \<Rightarrow> True
      | Repeated \<Rightarrow> (case arg_min_occurs a of None \<Rightarrow> False | Some n \<Rightarrow> 1 \<le> n)
      | Optional \<Rightarrow> False)"

text \<open>\<open>json!\<close> of an \<open>i64\<close> and of an \<open>f64\<close> (a non-finite float is \<open>null\<close>).\<close>

definition json_i64 :: "i64 \<Rightarrow> json" where
  "json_i64 i = JNum (if i < 0 then NegInt i else PosInt (of_int i))"

fun json_f64 :: "f64 \<Rightarrow> json" where
  "json_f64 (F_fin r) = JNum (FloatNum r)"
| "json_f64 _ = JNull"

definition insert_some :: "string \<Rightarrow> ('a \<Rightarrow> json) \<Rightarrow> 'a option \<Rightarrow> json_map \<Rightarrow> json_map" where
  "insert_some k f v m = (case v of None \<Rightarrow> m | Some x \<Rightarrow> bm_insert k (f x) m)"

definition scalar_schema :: "arg_spec \<Rightarrow> json_map" where
  "scalar_schema a =
     (case arg_value_type a of
        VT_Bool \<Rightarrow> [(''type'', JStr ''boolean'')]
      | VT_String \<Rightarrow> insert_some ''pattern'' JStr (arg_pattern a) [(''type'', JStr ''string'')]
      | VT_Int \<Rightarrow>
          insert_some ''maximum'' json_i64 (arg_max a)
            (insert_some ''minimum'' json_i64 (arg_min a) [(''type'', JStr ''integer'')])
      | VT_Float \<Rightarrow>
          insert_some ''maximum'' json_f64 (arg_max_f a)
            (insert_some ''minimum'' json_f64 (arg_min_f a) [(''type'', JStr ''number'')])
      | VT_Enum variants \<Rightarrow>
          bm_of_list [(''type'', JStr ''string''), (''enum'', JArr (map JStr variants))])"

definition schema_prop_name :: "arg_spec \<Rightarrow> string" where
  "schema_prop_name a = (case arg_long a of Some l \<Rightarrow> l | None \<Rightarrow> arg_name a)"

definition to_json_schema_property :: "arg_spec \<Rightarrow> string \<times> json" where
  "to_json_schema_property a =
     (let obj =
        (if arg_cardinality a = Repeated then
           (if arg_kind a = AK_Flag
            then insert_some ''minimum'' (\<lambda>n. JNum (PosInt n)) (positive_min_occurs a)
                   [(''type'', JStr ''integer'')]
            else insert_some ''minItems'' (\<lambda>n. JNum (PosInt n)) (positive_min_occurs a)
                   (bm_of_list [(''type'', JStr ''array''),
                                (''items'', JObj [(''type'', JStr ''string'')])]))
         else scalar_schema a)
      in (schema_prop_name a,
          JObj (if arg_help a \<noteq> [] then bm_insert ''description'' (JStr (arg_help a)) obj else obj)))"

definition schema_required :: "command_spec \<Rightarrow> string list" where
  "schema_required spec = map schema_prop_name (filter is_schema_required (spec_args spec))"

definition to_json_schema :: "command_spec \<Rightarrow> json" where
  "to_json_schema spec =
     (let properties = bm_of_list (map to_json_schema_property (spec_args spec));
          required = schema_required spec;
          schema = bm_of_list [(''type'', JStr ''object''), (''properties'', JObj properties)]
      in JObj (if required \<noteq> [] then bm_insert ''required'' (JArr (map JStr required)) schema
               else schema))"

section \<open>Checking typed arguments\<close>

type_synonym typed_args = "(string, arg_value) hash_map"
type_synonym regex_new = "string \<Rightarrow> string + (string \<Rightarrow> bool)"

fun value_matches_type :: "arg_value \<Rightarrow> arg_value_type \<Rightarrow> bool" where
  "value_matches_type (AV_Count _) t = True"
| "value_matches_type (AV_List vs) t = list_all (\<lambda>v. value_matches_type v t) vs"
| "value_matches_type (AV_Bool _) t = (t = VT_Bool)"
| "value_matches_type (AV_Str _) t = (t = VT_String)"
| "value_matches_type (AV_Int _) t = (t = VT_Int)"
| "value_matches_type (AV_Float _) t = (t = VT_Float)"
| "value_matches_type (AV_Enum _) t = (case t of VT_Enum _ \<Rightarrow> True | _ \<Rightarrow> False)"

text \<open>The five passes of \<open>CommandSpec::validate_typed_args\<close>, in its order.\<close>

definition check_required :: "typed_args \<Rightarrow> arg_spec \<Rightarrow> diagnostic list" where
  "check_required args a =
     (if arg_cardinality a = Required \<and> \<not> hm_contains args (arg_name a)
      then [spec_diag E_MISSING_REQUIRED
              (Text (''missing required argument '--{}'' @ [CHR 0x27]) [FStr (arg_name a)])
              (Text ''Provide --{} <value>'' [FStr (arg_name a)])]
      else [])"

definition check_type :: "typed_args \<Rightarrow> arg_spec \<Rightarrow> diagnostic list" where
  "check_type args a =
     (case map_of args (arg_name a) of
        None \<Rightarrow> []
      | Some v \<Rightarrow>
          if value_matches_type v (arg_value_type a) then []
          else [spec_diag E_INVALID_VALUE
                  (Text ''invalid value type for '--{}': expected {:?}''
                     [FStr (arg_name a), FType (arg_value_type a)])
                  (Text ''Provide a valid value for --{}'' [FStr (arg_name a)])])"

definition below_min :: "arg_spec \<Rightarrow> fmt_arg \<Rightarrow> fmt_arg \<Rightarrow> diagnostic" where
  "below_min a v b =
     spec_diag E_INVALID_VALUE
       (Text ''value {} for '--{}' is below minimum {}'' [v, FStr (arg_name a), b])
       (Text ''Provide a value >= {} for --{}'' [b, FStr (arg_name a)])"

definition above_max :: "arg_spec \<Rightarrow> fmt_arg \<Rightarrow> fmt_arg \<Rightarrow> diagnostic" where
  "above_max a v b =
     spec_diag E_INVALID_VALUE
       (Text ''value {} for '--{}' is above maximum {}'' [v, FStr (arg_name a), b])
       (Text ''Provide a value <= {} for --{}'' [b, FStr (arg_name a)])"

definition check_int_range :: "arg_spec \<Rightarrow> i64 \<Rightarrow> diagnostic list" where
  "check_int_range a i =
     (case arg_min a of None \<Rightarrow> []
      | Some lo \<Rightarrow> if i < lo then [below_min a (FInt i) (FInt lo)] else []) @
     (case arg_max a of None \<Rightarrow> []
      | Some hi \<Rightarrow> if hi < i then [above_max a (FInt i) (FInt hi)] else [])"

definition check_float_range :: "arg_spec \<Rightarrow> f64 \<Rightarrow> diagnostic list" where
  "check_float_range a f =
     (case arg_min_f a of None \<Rightarrow> []
      | Some lo \<Rightarrow> if f64_lt f lo then [below_min a (FFloat f) (FFloat lo)] else []) @
     (case arg_max_f a of None \<Rightarrow> []
      | Some hi \<Rightarrow> if f64_lt hi f then [above_max a (FFloat f) (FFloat hi)] else [])"

definition check_pattern :: "regex_new \<Rightarrow> arg_spec \<Rightarrow> string \<Rightarrow> diagnostic list" where
  "check_pattern regex_new a s =
     (case arg_pattern a of
        None \<Rightarrow> []
      | Some pattern \<Rightarrow>
          (case regex_new pattern of
             Ok is_match \<Rightarrow>
               if is_match s then []
               else [spec_diag E_INVALID_VALUE
                       (Text (''value '{}' for '--{}' does not match pattern '{}'' @ [CHR 0x27])
                          [FStr s, FStr (arg_name a), FStr pattern])
                       (Text ''Provide a value matching '{}' for --{}''
                          [FStr pattern, FStr (arg_name a)])]
           | Err e \<Rightarrow>
               [spec_diag E_INVALID_VALUE
                  (Text ''invalid pattern '{}' for '--{}': {}''
                     [FStr pattern, FStr (arg_name a), FStr e])
                  (Text ''Fix the pattern spec for --{}'' [FStr (arg_name a)])]))"

definition check_constraints :: "regex_new \<Rightarrow> typed_args \<Rightarrow> arg_spec \<Rightarrow> diagnostic list" where
  "check_constraints regex_new args a =
     (case map_of args (arg_name a) of
        Some (AV_Int i) \<Rightarrow> check_int_range a i
      | Some (AV_Float f) \<Rightarrow> check_float_range a f
      | Some (AV_Str s) \<Rightarrow> check_pattern regex_new a s
      | _ \<Rightarrow> [])"

definition check_conflicts :: "typed_args \<Rightarrow> arg_spec \<Rightarrow> diagnostic list" where
  "check_conflicts args a =
     (if hm_contains args (arg_name a) then
        map (\<lambda>c. spec_diag E_CONFLICT
                   (Text ''--{} conflicts with --{}'' [FStr (arg_name a), FStr c])
                   (Text ''Remove --{} or --{}'' [FStr (arg_name a), FStr c]))
          (filter (hm_contains args) (arg_conflicts_with a))
      else [])"

definition check_requires :: "typed_args \<Rightarrow> arg_spec \<Rightarrow> diagnostic list" where
  "check_requires args a =
     (if hm_contains args (arg_name a) then
        map (\<lambda>d. spec_diag E_UNSATISFIED_REQUIRES
                   (Text ''--{} requires --{}'' [FStr (arg_name a), FStr d])
                   (Text ''Also provide --{}'' [FStr d]))
          (filter (\<lambda>d. \<not> hm_contains args d) (arg_requires a))
      else [])"

definition validate_typed_args :: "regex_new \<Rightarrow> command_spec \<Rightarrow> typed_args \<Rightarrow> diagnostic list" where
  "validate_typed_args regex_new spec args =
     concat (map (check_required args) (spec_args spec)) @
     concat (map (check_type args) (spec_args spec)) @
     concat (map (check_constraints regex_new args) (spec_args spec)) @
     concat (map (check_conflicts args) (spec_args spec)) @
     concat (map (check_requires args) (spec_args spec))"

section \<open>What the check decides\<close>

text \<open>
  The declaration read as a contract on the argument map: the conditions of the four error
  codes, each stated on its own.
\<close>

definition missing_required :: "command_spec \<Rightarrow> (string \<rightharpoonup> arg_value) \<Rightarrow> bool" where
  "missing_required spec m \<longleftrightarrow>
     (\<exists>a \<in> set (spec_args spec). arg_cardinality a = Required \<and> m (arg_name a) = None)"

fun value_admitted :: "regex_new \<Rightarrow> arg_spec \<Rightarrow> arg_value \<Rightarrow> bool" where
  "value_admitted rx a (AV_Int i) =
     ((\<forall>lo. arg_min a = Some lo \<longrightarrow> lo \<le> i) \<and> (\<forall>hi. arg_max a = Some hi \<longrightarrow> i \<le> hi))"
| "value_admitted rx a (AV_Float f) =
     ((\<forall>lo. arg_min_f a = Some lo \<longrightarrow> \<not> f64_lt f lo) \<and> (\<forall>hi. arg_max_f a = Some hi \<longrightarrow> \<not> f64_lt hi f))"
| "value_admitted rx a (AV_Str s) =
     (\<forall>p. arg_pattern a = Some p \<longrightarrow> (\<exists>is_match. rx p = Ok is_match \<and> is_match s))"
| "value_admitted rx a _ = True"

definition invalid_value :: "regex_new \<Rightarrow> command_spec \<Rightarrow> (string \<rightharpoonup> arg_value) \<Rightarrow> bool" where
  "invalid_value rx spec m \<longleftrightarrow>
     (\<exists>a \<in> set (spec_args spec). \<exists>v. m (arg_name a) = Some v \<and>
        \<not> (value_matches_type v (arg_value_type a) \<and> value_admitted rx a v))"

definition conflicting :: "command_spec \<Rightarrow> (string \<rightharpoonup> arg_value) \<Rightarrow> bool" where
  "conflicting spec m \<longleftrightarrow>
     (\<exists>a \<in> set (spec_args spec). arg_name a \<in> dom m \<and> (\<exists>c \<in> set (arg_conflicts_with a). c \<in> dom m))"

definition unsatisfied_requires :: "command_spec \<Rightarrow> (string \<rightharpoonup> arg_value) \<Rightarrow> bool" where
  "unsatisfied_requires spec m \<longleftrightarrow>
     (\<exists>a \<in> set (spec_args spec). arg_name a \<in> dom m \<and> (\<exists>d \<in> set (arg_requires a). d \<notin> dom m))"

definition codes :: "diagnostic list \<Rightarrow> string set" where
  "codes ds = diag_code ` set ds"

lemma codes_append [simp]: "codes (xs @ ys) = codes xs \<union> codes ys"
  by (auto simp: codes_def)

lemma codes_Nil [simp]: "codes [] = {}"
  by (simp add: codes_def)

lemma codes_empty_iff: "codes ds = {} \<longleftrightarrow> ds = []"
  by (simp add: codes_def)

lemma codes_pass:
  assumes "\<And>a. a \<in> set as \<Longrightarrow> codes (f a) = (if P a then {c} else {})"
  shows "codes (concat (map f as)) = (if \<exists>a \<in> set as. P a then {c} else {})"
  using assms by (induction as) auto

lemma codes_check_required:
  "codes (check_required args a) =
     (if arg_cardinality a = Required \<and> map_of args (arg_name a) = None then {E_MISSING_REQUIRED} else {})"
  by (simp add: check_required_def codes_def)

lemma codes_check_type:
  "codes (check_type args a) =
     (if \<exists>v. map_of args (arg_name a) = Some v \<and> \<not> value_matches_type v (arg_value_type a)
      then {E_INVALID_VALUE} else {})"
  by (cases "map_of args (arg_name a)") (simp_all add: check_type_def codes_def)

lemma codes_one: "codes [d] = {diag_code d}"
  by (simp add: codes_def)

lemma diag_code_range [simp]:
  "diag_code (below_min a v b) = E_INVALID_VALUE" "diag_code (above_max a v b) = E_INVALID_VALUE"
  by (simp_all add: below_min_def above_max_def)

lemma codes_check_int_range:
  "codes (check_int_range a i) = (if value_admitted rx a (AV_Int i) then {} else {E_INVALID_VALUE})"
  by (cases "arg_min a"; cases "arg_max a") (auto simp: check_int_range_def codes_one)

lemma codes_check_float_range:
  "codes (check_float_range a f) = (if value_admitted rx a (AV_Float f) then {} else {E_INVALID_VALUE})"
  by (cases "arg_min_f a"; cases "arg_max_f a") (auto simp: check_float_range_def codes_one)

lemma codes_check_pattern:
  "codes (check_pattern rx a s) = (if value_admitted rx a (AV_Str s) then {} else {E_INVALID_VALUE})"
proof (cases "arg_pattern a")
  case None
  then show ?thesis by (simp add: check_pattern_def)
next
  case (Some p)
  then show ?thesis by (cases "rx p") (simp_all add: check_pattern_def codes_one)
qed

lemma codes_check_constraints:
  "codes (check_constraints rx args a) =
     (if \<exists>v. map_of args (arg_name a) = Some v \<and> \<not> value_admitted rx a v
      then {E_INVALID_VALUE} else {})"
proof (cases "map_of args (arg_name a)")
  case None
  then show ?thesis by (simp add: check_constraints_def)
next
  case (Some v)
  then show ?thesis
    by (cases v) (simp_all add: check_constraints_def codes_check_int_range [of a _ rx]
        codes_check_float_range [of a _ rx] codes_check_pattern del: value_admitted.simps(1-3))
qed

lemma codes_check_conflicts:
  "codes (check_conflicts args a) =
     (if arg_name a \<in> dom (map_of args) \<and> (\<exists>c \<in> set (arg_conflicts_with a). c \<in> dom (map_of args))
      then {E_CONFLICT} else {})"
  by (auto simp: check_conflicts_def codes_def dom_def image_image)

lemma codes_check_requires:
  "codes (check_requires args a) =
     (if arg_name a \<in> dom (map_of args) \<and> (\<exists>d \<in> set (arg_requires a). d \<notin> dom (map_of args))
      then {E_UNSATISFIED_REQUIRES} else {})"
  by (auto simp: check_requires_def codes_def dom_def image_image)

lemmas codes_passes =
  codes_pass [OF codes_check_required] codes_pass [OF codes_check_type]
  codes_pass [OF codes_check_constraints] codes_pass [OF codes_check_conflicts]
  codes_pass [OF codes_check_requires]

lemma invalid_value_split:
  "invalid_value rx spec m \<longleftrightarrow>
     (\<exists>a \<in> set (spec_args spec). \<exists>v. m (arg_name a) = Some v \<and> \<not> value_matches_type v (arg_value_type a)) \<or>
     (\<exists>a \<in> set (spec_args spec). \<exists>v. m (arg_name a) = Some v \<and> \<not> value_admitted rx a v)"
  by (auto simp: invalid_value_def)

lemma if_union: "(if P \<or> Q then A else {}) \<union> B = (if P then A else {}) \<union> ((if Q then A else {}) \<union> B)"
  by auto

lemma codes_validate:
  "codes (validate_typed_args rx spec args) =
     (if missing_required spec (map_of args) then {''E003''} else {}) \<union>
     (if invalid_value rx spec (map_of args) then {''E004''} else {}) \<union>
     (if conflicting spec (map_of args) then {''E005''} else {}) \<union>
     (if unsatisfied_requires spec (map_of args) then {''E006''} else {})"
  unfolding validate_typed_args_def codes_append codes_passes error_code_defs invalid_value_split
  unfolding missing_required_def conflicting_def unsatisfied_requires_def
  by (simp only: Un_assoc if_union)

text \<open>
  \<open>CommandSpec::validate_typed_args\<close> reports exactly the violations the declaration
  defines, each under its own code: E003 iff a required argument is absent, E004 iff a present
  value has the wrong type or breaks its range or pattern (a pattern that does not compile rejects
  every string), E005 iff two conflicting arguments are present, E006 iff a present argument lacks
  one it requires; and it reports nothing iff the map meets the declaration.
\<close>

theorem validate_typed_args_decides:
  "codes (validate_typed_args rx spec args) =
     {c. (c = ''E003'' \<and> missing_required spec (map_of args)) \<or>
         (c = ''E004'' \<and> invalid_value rx spec (map_of args)) \<or>
         (c = ''E005'' \<and> conflicting spec (map_of args)) \<or>
         (c = ''E006'' \<and> unsatisfied_requires spec (map_of args))} \<and>
   (validate_typed_args rx spec args = [] \<longleftrightarrow>
      (missing_required spec (map_of args), invalid_value rx spec (map_of args),
       conflicting spec (map_of args), unsatisfied_requires spec (map_of args)) =
      (False, False, False, False))"
  using codes_validate [of rx spec args] by (auto simp: codes_empty_iff [symmetric])

end
