(* ===== verification/Clap_Mapper.thy ===== *)
theory Clap_Mapper
  imports Command_Spec
begin

text \<open>
  \<open>src/parser/clap_mapper.rs\<close>: building the \<open>clap\<close> argument of a declaration, and turning
  what \<open>clap\<close> matched back into typed values.

  \<open>clap\<close> is not part of the program. A \<open>clap::Arg\<close> is the list of builder calls made on
  it; \<open>clap::ArgMatches\<close> is the record \<open>arg_matches\<close> of the five queries the code makes,
  about which nothing is assumed.
\<close>

section \<open>Parsing floats\<close>

text \<open>
  \<open>str::parse::<f64>\<close>: an optional sign, then \<open>inf\<close>, \<open>infinity\<close> or \<open>nan\<close> in any
  case, or decimal digits with an optional point and exponent; the result is the nearest
  double, ties to even, overflowing to infinity.
\<close>

definition pow2 :: "int \<Rightarrow> rat" where
  "pow2 e = (if 0 \<le> e then 2 ^ nat e else 1 / 2 ^ nat (- e))"

definition round_half_even :: "rat \<Rightarrow> int" where
  "round_half_even q =
     (let f = \<lfloor>q\<rfloor>; r = q - of_int f
      in if r < 1 / 2 \<or> (r = 1 / 2 \<and> even f) then f else f + 1)"

definition f64_of_nonneg_rat :: "rat \<Rightarrow> f64" where
  "f64_of_nonneg_rat q =
     (if q = 0 then F_fin 0
      else
        (let (a, b) = quotient_of q;
             k = int (bit_len (nat a)) - int (bit_len (nat b));
             e = max (if q < pow2 k then k - 53 else k - 52) (- 1074);
             v = of_int (round_half_even (q / pow2 e)) * pow2 e
         in if pow2 1024 \<le> v then F_pos_inf else F_fin v))"

fun f64_neg :: "f64 \<Rightarrow> f64" where
  "f64_neg F_nan = F_nan"
| "f64_neg F_pos_inf = F_neg_inf"
| "f64_neg F_neg_inf = F_pos_inf"
| "f64_neg (F_fin r) = F_fin (- r)"

definition split_sign :: "string \<Rightarrow> bool \<times> string" where
  "split_sign s =
     (case s of
        c # cs \<Rightarrow> if c = CHR ''-'' then (True, cs) else if c = CHR ''+'' then (False, cs) else (False, s)
      | [] \<Rightarrow> (False, s))"

definition parse_exponent :: "string \<Rightarrow> int option" where
  "parse_exponent s =
     (let (neg, ds) = split_sign s
      in if ds = [] then None
         else map_option (\<lambda>n. if neg then - int n else int n) (digits_val 0 ds))"

definition parse_decimal :: "string \<Rightarrow> rat option" where
  "parse_decimal s =
     (let is_e = (\<lambda>c. c = CHR ''e'' \<or> c = CHR ''E'');
          mant = takeWhile (\<lambda>c. \<not> is_e c) s;
          rest = dropWhile (\<lambda>c. \<not> is_e c) s;
          ip = takeWhile (\<lambda>c. c \<noteq> CHR ''.'') mant;
          fp = drop 1 (dropWhile (\<lambda>c. c \<noteq> CHR ''.'') mant)
      in if ip = [] \<and> fp = [] then None
         else (case (digits_val 0 (ip @ fp), if rest = [] then Some 0 else parse_exponent (tl rest)) of
                 (Some n, Some e) \<Rightarrow>
                   (let x = e - int (length fp)
                    in Some (if 0 \<le> x then of_nat n * 10 ^ nat x else of_nat n / 10 ^ nat (- x)))
               | _ \<Rightarrow> None))"

definition parse_f64 :: "string \<Rightarrow> f64 option" where
  "parse_f64 s =
     (let (neg, t) = split_sign s; l = map ascii_lower t;
          v = (if l = ''inf'' \<or> l = ''infinity'' then Some F_pos_inf
               else if l = ''nan'' then Some F_nan
               else map_option f64_of_nonneg_rat (parse_decimal t))
      in map_option (\<lambda>x. if neg then f64_neg x else x) v)"

section \<open>Values from tokens\<close>

definition type_error :: "string \<Rightarrow> string \<Rightarrow> string \<Rightarrow> diagnostic" where
  "type_error name value expected =
     \<lparr> diag_code = E_INVALID_VALUE, diag_category = DC_Spec,
       diag_message = Text ''invalid value '{}' for '{}'; expected {}''
                        [FStr value, FStr name, FStr expected],
       diag_suggestion = Some (Text ''Provide a valid {} value for --{}'' [FStr expected, FStr name]),
       diag_span = Some value \<rparr>"

definition enum_error :: "string \<Rightarrow> string list \<Rightarrow> string \<Rightarrow> diagnostic" where
  "enum_error s allowed name =
     \<lparr> diag_code = E_INVALID_VALUE, diag_category = DC_Spec,
       diag_message = Text ''invalid value '{}' for '{}'; expected one of: {}''
                        [FStr s, FStr name, FStr (str_join '', '' allowed)],
       diag_suggestion = Some (Text ''Allowed values: {}'' [FStr (str_join '', '' allowed)]),
       diag_span = Some s \<rparr>"

fun coerce_value :: "string \<Rightarrow> arg_value_type \<Rightarrow> string \<Rightarrow> diagnostic + arg_value" where
  "coerce_value s VT_Bool name =
     (if s = ''true'' \<or> s = ''1'' then Ok (AV_Bool True)
      else if s = ''false'' \<or> s = ''0'' then Ok (AV_Bool False)
      else Err (type_error name s ''bool''))"
| "coerce_value s VT_String name = Ok (AV_Str s)"
| "coerce_value s VT_Int name =
     (case parse_i64 s of Some i \<Rightarrow> Ok (AV_Int i) | None \<Rightarrow> Err (type_error name s ''integer''))"
| "coerce_value s VT_Float name =
     (case parse_f64 s of Some f \<Rightarrow> Ok (AV_Float f) | None \<Rightarrow> Err (type_error name s ''float''))"
| "coerce_value s (VT_Enum allowed) name =
     (if s \<in> set allowed then Ok (AV_Enum s) else Err (enum_error s allowed name))"

datatype value_source = DefaultValue | EnvVariable | CommandLine

record arg_matches =
  value_source :: "string \<Rightarrow> value_source option"
  get_count :: "string \<Rightarrow> 8 word"
  get_flag :: "string \<Rightarrow> bool"
  get_many :: "string \<Rightarrow> string list option"
  get_one :: "string \<Rightarrow> string option"

definition is_user_provided :: "arg_matches \<Rightarrow> string \<Rightarrow> bool" where
  "is_user_provided matches name \<longleftrightarrow> value_source matches name = Some CommandLine"

text \<open>
  The body of the first loop of \<open>map_matches_to_typed_args\<close>: the value the user gave for
  one argument, if any.
\<close>

definition user_value :: "arg_matches \<Rightarrow> arg_spec \<Rightarrow> diagnostic + arg_value option" where
  "user_value matches a =
     (if \<not> is_user_provided matches (arg_name a) then Ok None
      else case arg_kind a of
        AK_Flag \<Rightarrow>
          (case arg_cardinality a of
             Repeated \<Rightarrow>
               (let count = get_count matches (arg_name a)
                in Ok (if 0 < count then Some (AV_Count (ucast count)) else None))
           | _ \<Rightarrow> Ok (if get_flag matches (arg_name a) then Some (AV_Bool True) else None))
      | _ \<Rightarrow>
          (case arg_cardinality a of
             Repeated \<Rightarrow>
               (case get_many matches (arg_name a) of
                  None \<Rightarrow> Ok None
                | Some vals \<Rightarrow>
                    and_then (collect_results (\<lambda>v. coerce_value v (arg_value_type a) (arg_name a)) vals)
                      (\<lambda>l. Ok (Some (AV_List l))))
           | _ \<Rightarrow>
               (case get_one matches (arg_name a) of
                  None \<Rightarrow> Ok None
                | Some val \<Rightarrow>
                    and_then (coerce_value val (arg_value_type a) (arg_name a)) (\<lambda>v. Ok (Some v)))))"

definition insert_user_value :: "arg_matches \<Rightarrow> arg_spec \<Rightarrow> typed_args \<Rightarrow> diagnostic + typed_args" where
  "insert_user_value matches a result =
     and_then (user_value matches a)
       (\<lambda>v. Ok (case v of None \<Rightarrow> result | Some x \<Rightarrow> hm_insert (arg_name a) x result))"

definition inject_default :: "arg_spec \<Rightarrow> typed_args \<Rightarrow> typed_args" where
  "inject_default a result =
     (if hm_contains result (arg_name a) then result
      else case arg_default a of None \<Rightarrow> result | Some d \<Rightarrow> hm_insert (arg_name a) d result)"

definition map_matches_to_typed_args ::
  "command_spec \<Rightarrow> arg_matches \<Rightarrow> diagnostic + typed_args" where
  "map_matches_to_typed_args spec matches =
     and_then (fold_results (insert_user_value matches) (spec_args spec) [])
       (\<lambda>result. Ok (fold inject_default (spec_args spec) result))"

section \<open>Building the clap argument\<close>

datatype clap_action = ActionCount | ActionSetTrue | ActionAppend

datatype clap_call =
    C_Help fmt_text
  | C_Short char
  | C_DefaultValue fmt_text
  | C_Long string
  | C_Action clap_action
  | C_Required bool
  | C_NumArgsFrom nat

definition text_is_empty :: "fmt_text \<Rightarrow> bool" where
  "text_is_empty t \<longleftrightarrow> t = Text ''{}'' [FStr []]"

definition default_call :: "arg_spec \<Rightarrow> clap_call list" where
  "default_call a =
     (if arg_cardinality a = Required then []
      else case Option.bind (arg_default a) arg_value_display of
        None \<Rightarrow> []
      | Some default_str \<Rightarrow> if text_is_empty default_str then [] else [C_DefaultValue default_str])"

definition long_or_name :: "arg_spec \<Rightarrow> string" where
  "long_or_name a = (case arg_long a of Some l \<Rightarrow> l | None \<Rightarrow> arg_name a)"

definition enum_help :: "arg_spec \<Rightarrow> clap_call list" where
  "enum_help a =
     (case arg_value_type a of
        VT_Enum allowed \<Rightarrow>
          [C_Help (if arg_help a = [] then Text ''[possible: {}]'' [FStr (str_join ''|'' allowed)]
                   else Text ''{} [possible: {}]'' [FStr (arg_help a), FStr (str_join ''|'' allowed)])]
      | _ \<Rightarrow> [])"

definition kind_calls :: "arg_spec \<Rightarrow> clap_call list" where
  "kind_calls a =
     (case arg_kind a of
        AK_Flag \<Rightarrow>
          (case arg_cardinality a of
             Repeated \<Rightarrow> [C_Long (long_or_name a), C_Action ActionCount]
           | Required \<Rightarrow> [C_Long (long_or_name a), C_Action ActionSetTrue, C_Required True]
           | Optional \<Rightarrow> [C_Long (long_or_name a), C_Action ActionSetTrue])
      | AK_Option \<Rightarrow>
          C_Long (long_or_name a) # enum_help a @
          (case arg_cardinality a of
             Required \<Rightarrow> [C_Required True] | Repeated \<Rightarrow> [C_Action ActionAppend] | Optional \<Rightarrow> [])
      | AK_Positional \<Rightarrow>
          (case arg_cardinality a of
             Required \<Rightarrow> [C_Required True] | Repeated \<Rightarrow> [C_NumArgsFrom 0] | Optional \<Rightarrow> []))"

definition build_clap_arg :: "arg_spec \<Rightarrow> string \<times> clap_call list" where
  "build_clap_arg a =
     (arg_name a,
      C_Help (Text ''{}'' [FStr (arg_help a)]) #
      (case arg_short a of None \<Rightarrow> [] | Some c \<Rightarrow> [C_Short c]) @ default_call a @ kind_calls a)"

definition build_epilogue :: "command_spec \<Rightarrow> string option" where
  "build_epilogue spec =
     (let nl = char_of (10 :: nat);
          sections =
            (case spec_syntax spec of None \<Rightarrow> [] | Some syntax \<Rightarrow> [''Syntax: '' @ syntax]) @
            (if spec_examples spec = [] then []
             else [''Examples:'' @ concat (map (\<lambda>example. nl # ''  '' @ example) (spec_examples spec))])
      in if sections = [] then None else Some (str_join [nl, nl] sections))"

datatype clap_command_call =
    CC_About string
  | CC_LongAbout string
  | CC_AfterHelp string
  | CC_Arg "string \<times> clap_call list"

definition build_typed_clap_command :: "string \<Rightarrow> command_spec \<Rightarrow> string \<times> clap_command_call list" where
  "build_typed_clap_command cmd_id spec =
     (cmd_id,
      CC_About (spec_summary spec) #
      (case spec_long_about spec of None \<Rightarrow> [] | Some t \<Rightarrow> [CC_LongAbout t]) @
      (case build_epilogue spec of None \<Rightarrow> [] | Some t \<Rightarrow> [CC_AfterHelp t]) @
      map (\<lambda>a. CC_Arg (build_clap_arg a)) (spec_args spec))"

section \<open>Typing\<close>

text \<open>
  The type discipline of the argument map: the values a declaration admits, by kind and
  cardinality. A default is taken as declared.
\<close>

fun scalar_typed :: "arg_value_type \<Rightarrow> arg_value \<Rightarrow> bool" where
  "scalar_typed VT_Bool (AV_Bool _) = True"
| "scalar_typed VT_String (AV_Str _) = True"
| "scalar_typed VT_Int (AV_Int i) = (- (2 ^ 63) \<le> i \<and> i < 2 ^ 63)"
| "scalar_typed VT_Float (AV_Float _) = True"
| "scalar_typed (VT_Enum allowed) (AV_Enum s) = (s \<in> set allowed)"
| "scalar_typed _ _ = False"

definition user_typed :: "arg_spec \<Rightarrow> arg_value \<Rightarrow> bool" where
  "user_typed a v \<longleftrightarrow>
     (case (arg_kind a, arg_cardinality a) of
        (AK_Flag, Repeated) \<Rightarrow> (case v of AV_Count n \<Rightarrow> 0 < n \<and> n \<le> 255 | _ \<Rightarrow> False)
      | (AK_Flag, _) \<Rightarrow> v = AV_Bool True
      | (_, Repeated) \<Rightarrow> (case v of AV_List vs \<Rightarrow> list_all (scalar_typed (arg_value_type a)) vs | _ \<Rightarrow> False)
      | _ \<Rightarrow> scalar_typed (arg_value_type a) v)"

definition arg_typed :: "arg_spec \<Rightarrow> arg_value \<Rightarrow> bool" where
  "arg_typed a v \<longleftrightarrow> user_typed a v \<or> arg_default a = Some v"

text \<open>A flag carries a boolean, and a default has the type of its argument.\<close>

definition spec_well_typed :: "command_spec \<Rightarrow> bool" where
  "spec_well_typed spec \<longleftrightarrow>
     distinct (map arg_name (spec_args spec)) \<and>
     (\<forall>a \<in> set (spec_args spec).
        (arg_kind a = AK_Flag \<longrightarrow> arg_value_type a = VT_Bool) \<and>
        (\<forall>d. arg_default a = Some d \<longrightarrow> value_matches_type d (arg_value_type a)))"

lemma parse_i64_range: "parse_i64 s = Some i \<Longrightarrow> - (2 ^ 63) \<le> i \<and> i < 2 ^ 63"
  unfolding parse_i64_def Let_def by (auto split: if_splits option.splits)

lemma coerce_value_typed: "coerce_value s t name = Ok v \<Longrightarrow> scalar_typed t v"
  by (cases t) (auto dest: parse_i64_range split: if_splits option.splits)

lemma scalar_typed_matches: "scalar_typed t v \<Longrightarrow> value_matches_type v t"
  by (cases t; cases v) auto

lemma unat_ucast_u8: "unat (ucast (n :: 8 word) :: u32) = unat n"
proof -
  have "unat n < 2 ^ LENGTH(8)" by (rule unsigned_less)
  then show ?thesis by (simp add: unsigned_ucast_eq take_bit_nat_eq_self)
qed

lemma ucast_u8_le: "(ucast (n :: 8 word) :: u32) \<le> 255"
proof -
  have "unat n < 2 ^ LENGTH(8)" by (rule unsigned_less)
  then show ?thesis by (simp add: word_le_nat_alt unat_ucast_u8)
qed

lemma ucast_u8_pos: "0 < n \<Longrightarrow> 0 < (ucast (n :: 8 word) :: u32)"
  by (simp add: word_less_nat_alt unat_ucast_u8)

lemma coerce_values_typed:
  "collect_results (\<lambda>v. coerce_value v t name) vals = Ok vs \<Longrightarrow> list_all (scalar_typed t) vs"
  by (auto simp: list_all_iff dest!: collect_results_member intro: coerce_value_typed)

lemma user_value_typed: "user_value matches a = Ok (Some v) \<Longrightarrow> user_typed a v"
  unfolding user_value_def user_typed_def Let_def
  by (auto simp: and_then_Ok_iff ucast_u8_le ucast_u8_pos coerce_value_typed coerce_values_typed
      split: if_splits arg_kind.splits cardinality.splits option.splits)

text \<open>Every entry of the map belongs to a declared argument and is typed by it.\<close>

definition args_typed :: "arg_spec list \<Rightarrow> typed_args \<Rightarrow> bool" where
  "args_typed as args \<longleftrightarrow> hm_wf args \<and>
     (\<forall>k v. map_of args k = Some v \<longrightarrow> (\<exists>a \<in> set as. arg_name a = k \<and> arg_typed a v))"

lemma args_typed_insert:
  "args_typed as args \<Longrightarrow> a \<in> set as \<Longrightarrow> arg_typed a v \<Longrightarrow> args_typed as (hm_insert (arg_name a) v args)"
  by (auto simp: args_typed_def hm_insert_wf)

lemma insert_user_value_typed:
  "args_typed as args \<Longrightarrow> a \<in> set as \<Longrightarrow> insert_user_value matches a args = Ok args' \<Longrightarrow> args_typed as args'"
  by (auto simp: insert_user_value_def and_then_Ok_iff arg_typed_def user_value_typed
      intro!: args_typed_insert split: option.splits)

lemma inject_default_typed: "args_typed as args \<Longrightarrow> a \<in> set as \<Longrightarrow> args_typed as (inject_default a args)"
  by (auto simp: inject_default_def arg_typed_def args_typed_insert split: option.splits)

lemma inject_defaults_typed:
  "args_typed as args \<Longrightarrow> set bs \<subseteq> set as \<Longrightarrow> args_typed as (fold inject_default bs args)"
  by (induction bs arbitrary: args) (auto simp: inject_default_typed)

lemma map_matches_typed:
  assumes "map_matches_to_typed_args spec matches = Ok args"
  shows "args_typed (spec_args spec) args"
proof -
  obtain r where r: "fold_results (insert_user_value matches) (spec_args spec) [] = Ok r"
    and args: "args = fold inject_default (spec_args spec) r"
    using assms by (auto simp: map_matches_to_typed_args_def and_then_Ok_iff)
  have "args_typed (spec_args spec) r"
    by (rule fold_results_invariant [OF r, where P = "args_typed (spec_args spec)"])
      (auto intro: insert_user_value_typed simp: args_typed_def [of _ "[]"] hm_wf_def)
  then show ?thesis using args by (simp add: inject_defaults_typed)
qed

lemma arg_typed_matches:
  assumes "spec_well_typed spec" "a \<in> set (spec_args spec)" "arg_typed a v"
  shows "value_matches_type v (arg_value_type a)"
  using assms unfolding arg_typed_def
  by (auto simp: spec_well_typed_def user_typed_def list_all_iff scalar_typed_matches
      split: arg_kind.splits cardinality.splits arg_value.splits)

lemma inject_default_keeps: "map_of args k = Some v \<Longrightarrow> map_of (inject_default a args) k = Some v"
  by (auto simp: inject_default_def split: option.splits)

lemma inject_defaults_present:
  "a \<in> set as \<Longrightarrow> arg_default a \<noteq> None \<Longrightarrow> map_of (fold inject_default as args) (arg_name a) \<noteq> None"
proof (induction as arbitrary: args)
  case Nil
  then show ?case by simp
next
  case (Cons b as)
  have keeps: "map_of r k = Some v \<Longrightarrow> map_of (fold inject_default as r) k = Some v" for r k v
    by (induction as arbitrary: r) (auto simp: inject_default_keeps)
  show ?case
  proof (cases "a = b")
    case True
    then obtain v where "map_of (inject_default b args) (arg_name a) = Some v"
      using Cons.prems by (cases "map_of args (arg_name b)") (auto simp: inject_default_def)
    then show ?thesis using keeps by simp
  next
    case False
    then show ?thesis using Cons by simp
  qed
qed

text \<open>
  C38. Type soundness of argument parsing. For a command whose flags are boolean and whose
  defaults have their declared type, whatever \<open>clap\<close> matched, the map
  \<open>map_matches_to_typed_args\<close> hands to the command holds only declared arguments; each value
  is typed by its declaration (an enum token is one of the allowed ones, an integer fits
  \<open>i64\<close>, a repeated option is a list of such values, a count is between 1 and 255) or is the
  declared default; every argument with a default is present; and the type pass of
  \<open>validate_typed_args\<close> reports nothing.
\<close>

theorem typed_args_type_sound:
  assumes "map_matches_to_typed_args spec matches = Ok args" and "spec_well_typed spec"
  shows "(\<forall>k v. map_of args k = Some v \<longrightarrow> (\<exists>a \<in> set (spec_args spec). arg_name a = k \<and> arg_typed a v)) \<and>
         (\<forall>a \<in> set (spec_args spec).
            (arg_default a \<noteq> None \<longrightarrow> hm_contains args (arg_name a)) \<and> check_type args a = [])"
proof -
  have typed: "args_typed (spec_args spec) args" using assms(1) by (rule map_matches_typed)
  have "check_type args a = []" if a: "a \<in> set (spec_args spec)" for a
  proof (cases "map_of args (arg_name a)")
    case None
    then show ?thesis by (simp add: check_type_def)
  next
    case (Some v)
    then obtain b where b: "b \<in> set (spec_args spec)" "arg_name b = arg_name a" "arg_typed b v"
      using typed by (auto simp: args_typed_def)
    then have "b = a"
      using a assms(2) by (auto simp: spec_well_typed_def distinct_map inj_on_def)
    then show ?thesis using Some arg_typed_matches [OF assms(2) a] b(3) by (simp add: check_type_def)
  qed
  moreover have "hm_contains args (arg_name a)" if "a \<in> set (spec_args spec)" "arg_default a \<noteq> None" for a
    using assms(1) inject_defaults_present [OF that]
    by (auto simp: map_matches_to_typed_args_def and_then_Ok_iff)
  ultimately show ?thesis using typed by (simp add: args_typed_def)
qed

definition sample_spec :: command_spec where
  "sample_spec = command_spec_default
     \<lparr> spec_args :=
         [arg_spec_default \<lparr> arg_name := ''format'', arg_kind := AK_Option,
            arg_value_type := VT_Enum [''json'', ''yaml''], arg_default := Some (AV_Enum ''json'') \<rparr>,
          arg_spec_default \<lparr> arg_name := ''port'', arg_kind := AK_Option, arg_value_type := VT_Int,
            arg_cardinality := Repeated \<rparr>] \<rparr>"

definition sample_matches :: arg_matches where
  "sample_matches =
     \<lparr> value_source = (\<lambda>n. if n = ''port'' then Some CommandLine else None),
       get_count = (\<lambda>_. 0), get_flag = (\<lambda>_. False),
       get_many = (\<lambda>n. if n = ''port'' then Some [''80'', ''-1''] else None), get_one = (\<lambda>_. None) \<rparr>"

lemma sample_map_matches:
  "map_matches_to_typed_args sample_spec sample_matches =
     Ok [(''port'', AV_List [AV_Int 80, AV_Int (-1)]), (''format'', AV_Enum ''json'')]"
  by code_simp

theorem typed_args_type_sound_witness:
  "arg_typed (spec_args sample_spec ! 1) (AV_List [AV_Int 80, AV_Int (-1)]) \<and>
   hm_contains [(''port'', AV_List [AV_Int 80, AV_Int (-1)]), (''format'', AV_Enum ''json'')] ''format''"
proof -
  have "spec_well_typed sample_spec"
    by (simp add: spec_well_typed_def sample_spec_def command_spec_default_def arg_spec_default_def)
  from typed_args_type_sound [OF sample_map_matches this]
  have "\<exists>a \<in> set (spec_args sample_spec). arg_name a = ''port'' \<and>
          arg_typed a (AV_List [AV_Int 80, AV_Int (-1)])"
    by simp
  then show ?thesis by (simp add: sample_spec_def command_spec_default_def arg_spec_default_def)
qed

end
