(* ===== verification/Telemetry_Manifest.thy ===== *)
theory Telemetry_Manifest
  imports Telemetry_Policy Clap_Mapper
begin

text \<open>
  The \<open>telemetry\<close> section of an application's configuration manifest
  (\<open>src/telemetry/manifest.rs\<close>) and the environment layer read against it
  (\<open>src/telemetry/env.rs\<close>). A walk of \<open>probe_switches\<close> that meets a field that is not
  a section is the source's \<open>unreachable!\<close>, the value \<open>None\<close> here.
\<close>

section \<open>The section\<close>

definition TELEMETRY_SECTION_KEY :: string where
  "TELEMETRY_SECTION_KEY = ''telemetry''"

datatype manifest_merge_error = AppOwnsTelemetryKey

definition manifest_field :: "string \<Rightarrow> field_kind \<Rightarrow> field_manifest" where
  "manifest_field key kind =
     FieldManifest key kind None None None None Machine [] False False False True True False None"

definition level_field :: field_manifest where
  "level_field =
     FieldManifest ''level'' (KEnum (map level_as_str TELEMETRY_LEVELS)) (Some (JStr (level_as_str TL_Off)))
       (Some ''Telemetry level'')
       (Some ''How much this application reports about its own operation. 'off' sends nothing.'')
       None Machine [] False False False True False True None"

definition attribution_field :: field_manifest where
  "attribution_field =
     FieldManifest ''attribution'' (KEnum (map attribution_as_str ATTRIBUTIONS))
       (Some (JStr (attribution_as_str Pseudonymous))) (Some ''Attribution'')
       (Some ''Whether reports carry no identifier, a per-install identifier, or an account.'')
       None Machine [] False False False True False True None"

definition endpoint_field :: "string option \<Rightarrow> field_manifest" where
  "endpoint_field default_endpoint =
     FieldManifest ''endpoint'' KUrl
       (Some (JStr (case default_endpoint of Some e \<Rightarrow> e | None \<Rightarrow> [])))
       (Some ''Telemetry endpoint'')
       (Some ''The OTLP collector reports are sent to. Empty means nothing is sent.'')
       None Machine [] False False False True True True None"

definition install_id_field :: field_manifest where
  "install_id_field =
     FieldManifest ''install_id'' KStr None (Some ''Install identifier'')
       (Some (''A random identifier for this installation. Never leaves this machine except '' @
              ''inside this application's own reports.''))
       None Machine [] False True True False False False None"

definition notice_shown_field :: field_manifest where
  "notice_shown_field =
     FieldManifest ''notice_shown'' KStr None (Some ''Notice shown'')
       (Some ''The telemetry level this installation was last told about.'')
       None Machine [] False True True False False False None"

definition enabled_field :: "probe_spec \<Rightarrow> field_manifest" where
  "enabled_field spec =
     FieldManifest ''enabled'' KBool (Some (JBool True)) (Some (ps_id spec @ '' probe''))
       (Some (ps_summary spec @ '' Sends: '' @ ps_sends spec))
       None Machine [] False False False True True True None"

text \<open>The assignment through the cursor: the section with new children.\<close>

fun set_fields :: "field_manifest list \<Rightarrow> field_manifest \<Rightarrow> field_manifest" where
  "set_fields sub (FieldManifest k _ d l ds g sc pl se lo pr ma en re co) =
     FieldManifest k (KSection sub) d l ds g sc pl se lo pr ma en re co"

fun insert_switch :: "probe_spec \<Rightarrow> string list \<Rightarrow> field_manifest list \<Rightarrow> field_manifest list option" where
  "insert_switch spec [] fs = Some (fs @ [enabled_field spec])"
| "insert_switch spec (seg # segs) fs =
     (case List.extract (\<lambda>f. fm_key f = seg) fs of
        Some (pre, f, post) \<Rightarrow>
          (case fm_kind f of
             KSection sub \<Rightarrow> map_option (\<lambda>sub'. pre @ set_fields sub' f # post) (insert_switch spec segs sub)
           | _ \<Rightarrow> None)
      | None \<Rightarrow>
          map_option (\<lambda>sub'. fs @ [manifest_field seg (KSection sub')]) (insert_switch spec segs []))"

definition probe_switches :: "probe_registry \<Rightarrow> field_manifest list option" where
  "probe_switches r =
     fold (\<lambda>spec acc. Option.bind acc (insert_switch spec (str_split (CHR ''.'') (ps_id spec)))) r (Some [])"

definition telemetry_section :: "probe_registry \<Rightarrow> string option \<Rightarrow> field_manifest option" where
  "telemetry_section r default_endpoint =
     map_option
       (\<lambda>switches. manifest_field TELEMETRY_SECTION_KEY
          (KSection ([level_field, attribution_field, endpoint_field default_endpoint, install_id_field,
                      notice_shown_field] @ switches)))
       (probe_switches r)"

definition merge_telemetry_section ::
  "config_manifest \<Rightarrow> probe_registry \<Rightarrow> string option \<Rightarrow> (manifest_merge_error + config_manifest) option" where
  "merge_telemetry_section app r default_endpoint =
     (if list_ex (\<lambda>f. fm_key f = TELEMETRY_SECTION_KEY) (cm_fields app) then Some (Err AppOwnsTelemetryKey)
      else map_option (\<lambda>s. Ok (config_manifest_new (cm_app app) (cm_fields app @ [s])))
             (telemetry_section r default_endpoint))"

definition telemetry_only_manifest :: "string \<Rightarrow> probe_registry \<Rightarrow> string option \<Rightarrow> config_manifest option" where
  "telemetry_only_manifest app r default_endpoint =
     map_option (\<lambda>s. config_manifest_new app [s]) (telemetry_section r default_endpoint)"

section \<open>The environment layer\<close>

definition env_var_name :: "string \<Rightarrow> string \<Rightarrow> string" where
  "env_var_name app path = env_var_prefix app @ ''_'' @ env_var_prefix path"

record env_scan =
  es_values :: json_map
  es_unmatched :: "string list"

definition typed :: "field_kind \<Rightarrow> string \<Rightarrow> json" where
  "typed kind raw =
     (case kind of
        KBool \<Rightarrow>
          (let l = map ascii_lower raw
           in if l \<in> {''1'', ''true'', ''yes'', ''on''} then JBool True
              else if l \<in> {''0'', ''false'', ''no'', ''off''} then JBool False
              else JStr raw)
      | KInt \<Rightarrow> (case parse_i64 raw of Some n \<Rightarrow> json_i64 n | None \<Rightarrow> JStr raw)
      | KDuration \<Rightarrow> (case parse_i64 raw of Some n \<Rightarrow> json_i64 n | None \<Rightarrow> JStr raw)
      | KFloat \<Rightarrow> (case parse_f64 raw of Some (F_fin x) \<Rightarrow> JNum (FloatNum x) | _ \<Rightarrow> JStr raw)
      | _ \<Rightarrow> JStr raw)"

definition is_telemetry_path :: "string \<Rightarrow> bool" where
  "is_telemetry_path p \<longleftrightarrow> p = ''telemetry'' \<or> starts_with ''telemetry.'' p"

definition known_vars :: "string \<Rightarrow> config_manifest \<Rightarrow> (string \<times> string \<times> field_kind) list" where
  "known_vars app m =
     map (\<lambda>leaf. (env_var_name app (lf_path leaf), lf_path leaf, fm_kind (lf_field leaf)))
       (filter (\<lambda>leaf. is_telemetry_path (lf_path leaf)) (iter_leaves m))"

definition scan_var ::
  "string \<Rightarrow> (string \<times> string \<times> field_kind) list \<Rightarrow> string \<times> string \<Rightarrow> env_scan \<Rightarrow> env_scan" where
  "scan_var app known = (\<lambda>(name, raw) scan.
     (case find (\<lambda>(var, _, _). var = name) known of
        Some (_, path, kind) \<Rightarrow> scan\<lparr>es_values := bm_insert path (typed kind raw) (es_values scan)\<rparr>
      | None \<Rightarrow>
          if starts_with (env_var_prefix app @ ''_TELEMETRY_'') name \<and>
             name \<noteq> env_var_prefix app @ ''_TELEMETRY_DISABLED''
          then scan\<lparr>es_unmatched := es_unmatched scan @ [name]\<rparr>
          else scan))"

definition scan_environment :: "string \<Rightarrow> config_manifest \<Rightarrow> (string \<times> string) list \<Rightarrow> env_scan" where
  "scan_environment app m vars =
     (let scan = fold (scan_var app (known_vars app m)) vars \<lparr> es_values = [], es_unmatched = [] \<rparr>
      in scan\<lparr>es_unmatched := sort (es_unmatched scan)\<rparr>)"

definition telemetry_help_rows :: "string \<Rightarrow> (string \<times> string) list" where
  "telemetry_help_rows p =
     [(p @ ''_TELEMETRY_DISABLED'', ''Set to 1 to turn telemetry off entirely.''),
      (''DO_NOT_TRACK'', ''Set to 1 to turn telemetry off entirely.''),
      (''OTEL_SDK_DISABLED'', ''Set to true to turn telemetry off entirely.''),
      (''OTEL_EXPORTER_OTLP_ENDPOINT'', ''OTLP collector URL; overrides the telemetry endpoint setting.''),
      (''OTEL_EXPORTER_OTLP_HEADERS'', ''Headers sent with every export, as comma-separated key=value pairs.''),
      (''OTEL_TRACES_SAMPLER_ARG'', ''Fraction of traces exported, 0.0 to 1.0.''),
      (''OTEL_SERVICE_NAME'', ''Service name reported to the collector; defaults to the application name.''),
      (''OTEL_RESOURCE_ATTRIBUTES'', ''Extra resource attributes, as comma-separated key=value pairs.'')]"

text \<open>The leaves \<open>telemetry.x\<close> that are settings, not state; the second list holds the probe switches.\<close>

definition settable_leaves :: "config_manifest \<Rightarrow> leaf_field list" where
  "settable_leaves m =
     filter (\<lambda>l. starts_with ''telemetry.'' (lf_path l) \<and> \<not> fm_local_only (lf_field l)) (iter_leaves m)"

definition nested_leaf :: "leaf_field \<Rightarrow> bool" where
  "nested_leaf l \<longleftrightarrow> CHR ''.'' \<in> set (drop (length ''telemetry.'') (lf_path l))"

definition telemetry_help_entries :: "string \<Rightarrow> config_manifest \<Rightarrow> (string \<times> string) list" where
  "telemetry_help_entries app m =
     telemetry_help_rows (env_var_prefix app) @
     map (\<lambda>l. (env_var_name app (lf_path l),
               case fm_description (lf_field l) of
                 Some d \<Rightarrow> d
               | None \<Rightarrow> (case fm_label (lf_field l) of Some s \<Rightarrow> s | None \<Rightarrow> lf_path l)))
       (filter (\<lambda>l. \<not> nested_leaf l) (settable_leaves m)) @
     (if list_ex nested_leaf (settable_leaves m)
      then [(env_var_prefix app @ ''_TELEMETRY_<PROBE>_ENABLED'',
             ''Set to 0 to disable one telemetry probe; <PROBE> is its id upper-cased with dots '' @
             ''as underscores.'')]
      else [])"

section \<open>The tree of switches\<close>

abbreviation leaves_of :: "field_manifest list \<Rightarrow> (string list \<times> field_manifest) set" where
  "leaves_of fs \<equiv> (\<Union>f \<in> set fs. set (leaf_segs f))"

lemma leaf_segs_section:
  "is_section f \<Longrightarrow> set (leaf_segs f) = (\<lambda>(ss, l). (fm_key f # ss, l)) ` leaves_of (section_fields f)"
  by (simp add: leaf_segs.simps [of f])

lemma leaf_segs_fst:
  "is_section f \<Longrightarrow> fst ` set (leaf_segs f) = (#) (fm_key f) ` fst ` leaves_of (section_fields f)"
  unfolding leaf_segs_section image_image by (rule image_cong) auto

lemma leaf_segs_single: "\<not> is_section f \<Longrightarrow> leaf_segs f = [([fm_key f], f)]"
  by (simp add: leaf_segs.simps [of f])

lemma set_fields_simps [simp]:
  "fm_key (set_fields sub f) = fm_key f" "is_section (set_fields sub f)" "section_fields (set_fields sub f) = sub"
  by (cases f; simp add: is_section_def section_fields_def)+

lemma manifest_field_simps [simp]:
  "fm_key (manifest_field k kind) = k" "is_section (manifest_field k (KSection sub))"
  "section_fields (manifest_field k (KSection sub)) = sub"
  by (simp_all add: manifest_field_def is_section_def section_fields_def)

lemma enabled_field_simps [simp]:
  "fm_key (enabled_field spec) = ''enabled''" "\<not> is_section (enabled_field spec)"
  "section_fields (enabled_field spec) = []"
  by (simp_all add: enabled_field_def is_section_def section_fields_def)

text \<open>Below the first segment a field is a switch or a section of another name.\<close>

function inner_ok :: "field_manifest \<Rightarrow> bool" where
  "inner_ok f \<longleftrightarrow>
     (if is_section f then fm_key f \<noteq> ''enabled'' \<and> (\<forall>c \<in> set (section_fields f). inner_ok c)
      else fm_key f = ''enabled'')"
  by pat_completeness auto
termination
  by (relation "measure size") (auto simp: section_fields_size)

declare inner_ok.simps [simp del]

definition section_ok :: "field_manifest \<Rightarrow> bool" where
  "section_ok f \<longleftrightarrow> is_section f \<and> (\<forall>c \<in> set (section_fields f). inner_ok c)"

text \<open>
  What one insertion does to a list of siblings: it succeeds, keeps them well formed, adds one
  leaf and touches no field but a section named by the first segment.
\<close>

definition inserts :: "probe_spec \<Rightarrow> string list \<Rightarrow> field_manifest list \<Rightarrow> field_manifest list \<Rightarrow> bool" where
  "inserts spec segs fs fs' \<longleftrightarrow>
     insert_switch spec segs fs = Some fs' \<and> wf_fields fs' \<and>
     leaves_of fs' = insert (segs @ [''enabled''], enabled_field spec) (leaves_of fs)"

lemma insert_step:
  assumes wf: "wf_fields fs" and seg: "ok_key seg"
    and secs: "\<And>f. f \<in> set fs \<Longrightarrow> fm_key f = seg \<Longrightarrow> section_ok f"
    and new: "(seg # segs) @ [''enabled''] \<notin> fst ` leaves_of fs"
    and IH: "\<And>sub. wf_fields sub \<Longrightarrow> (\<And>c. c \<in> set sub \<Longrightarrow> inner_ok c) \<Longrightarrow>
               segs @ [''enabled''] \<notin> fst ` leaves_of sub \<Longrightarrow>
               \<exists>sub'. inserts spec segs sub sub' \<and> (\<forall>c \<in> set sub'. inner_ok c)"
  shows "\<exists>fs'. inserts spec (seg # segs) fs fs' \<and>
           (\<forall>f \<in> set fs'. f \<in> set fs \<or> fm_key f = seg \<and> section_ok f)"
proof (cases "List.extract (\<lambda>f. fm_key f = seg) fs")
  case None
  then have no: "seg \<notin> fm_key ` set fs" by (auto simp: extract_None_iff)
  obtain sub' where sub': "inserts spec segs [] sub'" "\<forall>c \<in> set sub'. inner_ok c"
    using IH [of "[]"] by (auto simp: wf_fields_def)
  let ?f = "manifest_field seg (KSection sub')"
  have "wf_field ?f" using sub' seg by (simp add: inserts_def wf_field.simps [of ?f] wf_fields_def)
  then have "inserts spec (seg # segs) fs (fs @ [?f])"
    using None no wf sub' by (auto simp: inserts_def wf_fields_def leaf_segs_section)
  then show ?thesis using sub' by (intro exI conjI) (auto simp: section_ok_def)
next
  case (Some e)
  then obtain pre f post where e: "e = (pre, f, post)" "fs = pre @ f # post" "fm_key f = seg"
    by (cases e) (auto simp: extract_Some_iff)
  have f: "is_section f" "\<And>c. c \<in> set (section_fields f) \<Longrightarrow> inner_ok c"
    using secs [of f] e by (auto simp: section_ok_def)
  have "wf_fields (section_fields f)" using wf e by (auto simp: wf_fields_def wf_field.simps [of f])
  moreover have "segs @ [''enabled''] \<notin> fst ` leaves_of (section_fields f)"
    using new leaf_segs_fst [OF f(1)] by (simp add: e(2,3) image_Un inj_image_mem_iff)
  ultimately obtain sub' where sub': "inserts spec segs (section_fields f) sub'" "\<forall>c \<in> set sub'. inner_ok c"
    using IH f(2) by blast
  let ?f = "set_fields sub' f"
  have "wf_field ?f" using sub' wf e by (auto simp: inserts_def wf_field.simps [of ?f] wf_fields_def wf_field.simps [of f])
  then have "wf_fields (pre @ ?f # post)" using wf e by (simp add: wf_fields_def)
  moreover have "fm_kind f = KSection (section_fields f)" using f(1) by (simp add: is_section_iff)
  then have "insert_switch spec (seg # segs) fs = Some (pre @ ?f # post)"
    using Some e(1) sub' by (simp add: inserts_def)
  moreover have "set (leaf_segs ?f) = insert ((seg # segs) @ [''enabled''], enabled_field spec) (set (leaf_segs f))"
    using sub' e(3) by (simp add: inserts_def leaf_segs_section f(1))
  then have "leaves_of (pre @ ?f # post) = insert ((seg # segs) @ [''enabled''], enabled_field spec) (leaves_of fs)"
    unfolding e(2) by (simp add: insert_commute)
  ultimately have "inserts spec (seg # segs) fs (pre @ ?f # post)"
    unfolding inserts_def by blast
  then show ?thesis using sub' e by (intro exI conjI) (auto simp: section_ok_def)
qed

lemma insert_inner:
  assumes "wf_fields fs" "\<And>f. f \<in> set fs \<Longrightarrow> inner_ok f"
    and "\<And>s. s \<in> set segs \<Longrightarrow> ok_key s \<and> s \<noteq> ''enabled''" "segs @ [''enabled''] \<notin> fst ` leaves_of fs"
  shows "\<exists>fs'. inserts spec segs fs fs' \<and> (\<forall>f \<in> set fs'. inner_ok f)"
  using assms
proof (induction segs arbitrary: fs)
  case Nil
  have "fm_key f \<noteq> ''enabled''" if "f \<in> set fs" for f
    using Nil.prems(2) [OF that] Nil.prems(4) that
    by (cases "is_section f") (force simp: inner_ok.simps [of f] leaf_segs_single image_iff)+
  then have "''enabled'' \<notin> fm_key ` set fs" unfolding image_iff by metis
  then have "inserts spec [] fs (fs @ [enabled_field spec])"
    using Nil.prems(1)
    by (auto simp: inserts_def wf_fields_def wf_field.simps [of "enabled_field spec"] ok_key_def leaf_segs_single)
  then show ?case using Nil.prems(2) by (intro exI conjI) (auto simp: inner_ok.simps [of "enabled_field spec"])
next
  case (Cons seg segs)
  have seg: "ok_key seg" "seg \<noteq> ''enabled''" using Cons.prems(3) by auto
  have "section_ok f" if "f \<in> set fs" "fm_key f = seg" for f
    using Cons.prems(2) [OF that(1)] that(2) seg by (auto simp: section_ok_def inner_ok.simps [of f] split: if_splits)
  moreover have "\<exists>sub'. inserts spec segs sub sub' \<and> (\<forall>c \<in> set sub'. inner_ok c)"
    if "wf_fields sub" "\<And>c. c \<in> set sub \<Longrightarrow> inner_ok c" "segs @ [''enabled''] \<notin> fst ` leaves_of sub" for sub
    using Cons.IH [OF that(1)] that(2,3) Cons.prems(3) by auto
  ultimately obtain fs' where fs': "inserts spec (seg # segs) fs fs'"
      "\<forall>f \<in> set fs'. f \<in> set fs \<or> fm_key f = seg \<and> section_ok f"
    using insert_step [of fs seg segs spec] Cons.prems(1,4) seg(1) by metis
  have "inner_ok f" if "f \<in> set fs'" for f
    using bspec [OF fs'(2) that]
  proof
    assume "f \<in> set fs"
    then show ?thesis by (rule Cons.prems(2))
  next
    assume "fm_key f = seg \<and> section_ok f"
    then show ?thesis using seg(2) by (simp add: section_ok_def inner_ok.simps [of f])
  qed
  then show ?case using fs'(1) by blast
qed

lemma check_segments_Ok:
  "check_segments probe ss = Ok () \<longleftrightarrow> (\<forall>s \<in> set ss. segment_ok s \<and> s \<noteq> ''enabled'')"
  by (induction ss) (auto simp: OWNED_PROBE_LEAF_def)

lemma valid_id_segments:
  assumes "validate_probe_id i = Ok ()"
  obtains seg segs where "str_split (CHR ''.'') i = seg # segs" "ok_key seg" "seg \<notin> set RESERVED_FIRST_SEGMENTS"
    "\<And>s. s \<in> set segs \<Longrightarrow> ok_key s \<and> s \<noteq> ''enabled''"
proof -
  obtain seg segs where split: "str_split (CHR ''.'') i = seg # segs"
    by (cases "str_split (CHR ''.'') i") auto
  have "find (\<lambda>r. r = seg) RESERVED_FIRST_SEGMENTS = None" "first_segment_ok seg" "check_segments i segs = Ok ()"
    using assms split by (auto simp: validate_probe_id_def Let_def split: option.splits if_splits)
  then show ?thesis
    using split str_split_no_sep [of _ "CHR ''.''" i]
    by (intro that [OF split])
      (auto simp: ok_key_def first_segment_ok_def segment_ok_def check_segments_Ok find_None_iff)
qed

definition switch_leaf :: "probe_spec \<Rightarrow> string list \<times> field_manifest" where
  "switch_leaf spec = (str_split (CHR ''.'') (ps_id spec) @ [''enabled''], enabled_field spec)"

text \<open>The tree of switches between two insertions.\<close>

definition switch_tree :: "field_manifest list \<Rightarrow> probe_spec set \<Rightarrow> bool" where
  "switch_tree fs specs \<longleftrightarrow>
     wf_fields fs \<and> (\<forall>f \<in> set fs. section_ok f \<and> fm_key f \<notin> set RESERVED_FIRST_SEGMENTS) \<and>
     leaves_of fs = switch_leaf ` specs"

lemma insert_root:
  assumes t: "switch_tree fs specs" and v: "validate_probe_id (ps_id spec) = Ok ()" and n: "ps_id spec \<notin> ps_id ` specs"
  shows "\<exists>fs'. insert_switch spec (str_split (CHR ''.'') (ps_id spec)) fs = Some fs' \<and>
           switch_tree fs' (insert spec specs)"
proof -
  obtain seg segs where split: "str_split (CHR ''.'') (ps_id spec) = seg # segs" and seg: "ok_key seg"
    "seg \<notin> set RESERVED_FIRST_SEGMENTS" and segs: "\<And>s. s \<in> set segs \<Longrightarrow> ok_key s \<and> s \<noteq> ''enabled''"
    using valid_id_segments [OF v] by blast
  have "str_split (CHR ''.'') a = str_split (CHR ''.'') b \<longleftrightarrow> a = b" for a b by (metis join_split)
  then have "(seg # segs) @ [''enabled''] \<notin> fst ` leaves_of fs"
    using t n by (auto simp: switch_tree_def switch_leaf_def split [symmetric])
  moreover have "\<exists>sub'. inserts spec segs sub sub' \<and> (\<forall>c \<in> set sub'. inner_ok c)"
    if "wf_fields sub" "\<And>c. c \<in> set sub \<Longrightarrow> inner_ok c" "segs @ [''enabled''] \<notin> fst ` leaves_of sub" for sub
    using insert_inner [OF that(1,2) segs that(3)] by blast
  ultimately obtain fs' where fs': "inserts spec (seg # segs) fs fs'"
      "\<forall>f \<in> set fs'. f \<in> set fs \<or> fm_key f = seg \<and> section_ok f"
    using insert_step [of fs seg segs spec] t seg(1) unfolding switch_tree_def by metis
  have "section_ok f \<and> fm_key f \<notin> set RESERVED_FIRST_SEGMENTS" if "f \<in> set fs'" for f
    using bspec [OF fs'(2) that] t seg(2) unfolding switch_tree_def by blast
  moreover have "leaves_of fs' = switch_leaf ` insert spec specs"
    using fs'(1) t by (simp add: inserts_def switch_tree_def switch_leaf_def split)
  ultimately show ?thesis
    using fs'(1) unfolding split inserts_def switch_tree_def by blast
qed

lemma insert_roots:
  assumes "switch_tree fs specs" "distinct (map ps_id r)" "\<forall>p \<in> set r. validate_probe_id (ps_id p) = Ok ()"
    and "ps_id ` specs \<inter> ps_id ` set r = {}"
  shows "\<exists>fs'. fold (\<lambda>spec acc. Option.bind acc (insert_switch spec (str_split (CHR ''.'') (ps_id spec)))) r (Some fs)
           = Some fs' \<and> switch_tree fs' (specs \<union> set r)"
  using assms
proof (induction r arbitrary: fs specs)
  case Nil
  then show ?case by simp
next
  case (Cons spec r)
  obtain fs1 where "insert_switch spec (str_split (CHR ''.'') (ps_id spec)) fs = Some fs1"
      "switch_tree fs1 (insert spec specs)"
    using insert_root [OF Cons.prems(1), of spec] Cons.prems by auto
  then show ?case using Cons.IH [of fs1 "insert spec specs"] Cons.prems by auto
qed

lemma probe_switches_ok: "probes_ok r \<Longrightarrow> \<exists>fs. probe_switches r = Some fs \<and> switch_tree fs (set r)"
  using insert_roots [of "[]" "{}" r]
  by (auto simp: probes_ok_def probe_switches_def switch_tree_def wf_fields_def)

section \<open>The merged manifest\<close>

definition fixed_fields :: "string option \<Rightarrow> field_manifest list" where
  "fixed_fields ep = [level_field, attribution_field, endpoint_field ep, install_id_field, notice_shown_field]"

lemma fixed_fields_facts:
  "wf_fields (fixed_fields ep)" "f \<in> set (fixed_fields ep) \<Longrightarrow> \<not> is_section f \<and> fm_key f \<in> set RESERVED_FIRST_SEGMENTS"
proof -
  show k: "f \<in> set (fixed_fields ep) \<Longrightarrow> \<not> is_section f \<and> fm_key f \<in> set RESERVED_FIRST_SEGMENTS" for f
    by (auto simp: fixed_fields_def level_field_def attribution_field_def endpoint_field_def install_id_field_def
        notice_shown_field_def is_section_def RESERVED_FIRST_SEGMENTS_def)
  have "wf_field f" if "f \<in> set (fixed_fields ep)" for f
  proof -
    have "list_all ok_key RESERVED_FIRST_SEGMENTS" by code_simp
    then have "ok_key (fm_key f)" using k [OF that] by (auto simp: list_all_iff)
    moreover have "section_fields f = []"
      using k [OF that] by (auto simp: is_section_def section_fields_def split: field_kind.splits)
    ultimately show ?thesis by (simp add: wf_field.simps [of f])
  qed
  moreover have "distinct (map fm_key (fixed_fields ep))"
    by (simp add: fixed_fields_def level_field_def attribution_field_def endpoint_field_def install_id_field_def
        notice_shown_field_def)
  ultimately show "wf_fields (fixed_fields ep)" by (simp add: wf_fields_def)
qed

lemma telemetry_section_ok:
  assumes "probes_ok r"
  obtains s where "telemetry_section r ep = Some s" "fm_key s = ''telemetry''" "wf_field s"
    "set (leaf_segs s) = (\<lambda>f. ([''telemetry'', fm_key f], f)) ` set (fixed_fields ep) \<union>
       (\<lambda>spec. (''telemetry'' # fst (switch_leaf spec), enabled_field spec)) ` set r"
proof -
  obtain fs where fs: "probe_switches r = Some fs" "switch_tree fs (set r)" using probe_switches_ok [OF assms] by blast
  define s where "s = manifest_field TELEMETRY_SECTION_KEY (KSection (fixed_fields ep @ fs))"
  have s: "telemetry_section r ep = Some s" by (simp add: telemetry_section_def fs s_def fixed_fields_def)
  have sec: "is_section s" "section_fields s = fixed_fields ep @ fs" "fm_key s = ''telemetry''"
    by (simp_all add: s_def TELEMETRY_SECTION_KEY_def)
  have "set (map fm_key (fixed_fields ep)) \<inter> set (map fm_key fs) = {}"
    using fs(2) fixed_fields_facts(2) [of _ ep] unfolding switch_tree_def by (auto simp: disjoint_iff) metis
  then have wf: "wf_field s"
    using fs(2) fixed_fields_facts(1) [of ep] sec
    by (simp add: wf_field.simps [of s] switch_tree_def wf_fields_def ball_Un ok_key_def)
  have "leaves_of (fixed_fields ep) = (\<lambda>f. ([fm_key f], f)) ` set (fixed_fields ep)"
    using fixed_fields_facts(2) [of _ ep] by (auto simp: leaf_segs_single)
  then have l: "leaves_of (fixed_fields ep @ fs) =
      (\<lambda>f. ([fm_key f], f)) ` set (fixed_fields ep) \<union> switch_leaf ` set r"
    using fs(2) by (simp add: switch_tree_def)
  have "set (leaf_segs s) = (\<lambda>f. ([''telemetry'', fm_key f], f)) ` set (fixed_fields ep) \<union>
       (\<lambda>spec. (''telemetry'' # fst (switch_leaf spec), enabled_field spec)) ` set r"
    unfolding leaf_segs_section [OF sec(1)] sec(2,3) l by (simp add: image_Un image_image switch_leaf_def)
  then show ?thesis by (rule that [OF s sec(3) wf])
qed

definition telemetry_leaves :: "probe_registry \<Rightarrow> string option \<Rightarrow> leaf_field set" where
  "telemetry_leaves r ep =
     (\<lambda>f. \<lparr>lf_path = ''telemetry.'' @ fm_key f, lf_field = f\<rparr>) ` set (fixed_fields ep) \<union>
     (\<lambda>spec. \<lparr>lf_path = ''telemetry.'' @ ps_id spec @ ''.enabled'', lf_field = enabled_field spec\<rparr>) ` set r"

lemma switch_path: "dot_join (''telemetry'' # fst (switch_leaf spec)) = ''telemetry.'' @ ps_id spec @ ''.enabled''"
proof -
  have "dot_join (str_split (CHR ''.'') (ps_id spec) @ [''enabled'']) = ps_id spec @ ''.'' @ ''enabled''"
    using join_split [of "CHR ''.''" "ps_id spec"] by (simp add: join_append)
  then show ?thesis by (simp add: switch_leaf_def str_join_Cons)
qed

lemma merged_manifest:
  assumes r: "probes_ok r" and app: "wf_manifest app" and m: "merge_telemetry_section app r ep = Some (Ok m)"
  shows "wf_manifest m \<and> set (iter_leaves m) = set (iter_leaves app) \<union> telemetry_leaves r ep"
proof -
  obtain s where s: "telemetry_section r ep = Some s" "fm_key s = ''telemetry''" "wf_field s"
    and segs: "set (leaf_segs s) = (\<lambda>f. ([''telemetry'', fm_key f], f)) ` set (fixed_fields ep) \<union>
       (\<lambda>spec. (''telemetry'' # fst (switch_leaf spec), enabled_field spec)) ` set r"
    by (rule telemetry_section_ok [OF r])
  have new: "''telemetry'' \<notin> fm_key ` set (cm_fields app)" and ms: "cm_fields m = cm_fields app @ [s]"
    using m s(1) by (auto simp: merge_telemetry_section_def list_ex_iff TELEMETRY_SECTION_KEY_def
        config_manifest_new_def split: if_splits)
  have wf: "wf_manifest m" using app new s by (simp add: ms wf_fields_def)
  have "set (iter_leaves m) = set (iter_leaves app) \<union>
      (\<lambda>(ss, l). \<lparr>lf_path = dot_join ss, lf_field = l\<rparr>) ` set (leaf_segs s)"
    using iter_leaves_segs [OF wf] iter_leaves_segs [OF app] by (simp add: manifest_segs_def ms)
  also have "(\<lambda>(ss, l). \<lparr>lf_path = dot_join ss, lf_field = l\<rparr>) ` set (leaf_segs s) = telemetry_leaves r ep"
    unfolding segs telemetry_leaves_def image_Un image_image by (simp add: switch_path)
  finally show ?thesis using wf by blast
qed

text \<open>A leaf that refuses an enforced value is never resolved from the enforced layer.\<close>

lemma unenforceable_not_locked:
  assumes "distinct (map lf_path (iter_leaves m))" "l \<in> set (iter_leaves m)" "\<not> fm_enforceable (lf_field l)"
  shows "\<exists>p. resolved_provenance (resolve m i) (lf_path l) = Some p \<and> pv_layer p \<noteq> LEnforced \<and> \<not> pv_locked p"
proof -
  have "layer_value i l LEnforced = None"
    using assms(3) by (auto simp: bind_eq_None_conv server_tree_drop_reason_enforced_def split: if_splits)
  then have "effective_layer i l \<noteq> LEnforced" using effective_layer_spec(1) [of i l] by metis
  then show ?thesis using resolve_lookup(2) [OF assms(1,2)] by (simp add: provenance_new_def)
qed

lemma unmanaged_not_server:
  assumes "distinct (map lf_path (iter_leaves m))" "l \<in> set (iter_leaves m)" "fm_local_only (lf_field l)"
  shows "\<exists>p. resolved_provenance (resolve m i) (lf_path l) = Some p \<and> pv_layer p \<notin> {LRecommended, LEnforced}"
proof -
  have "layer_value i l LEnforced = None" "layer_value i l LRecommended = None"
    using assms(3) by (auto simp: bind_eq_None_conv server_tree_drop_reason_enforced_def
        server_tree_drop_reason_recommended_def split: if_splits)
  then have "effective_layer i l \<notin> {LRecommended, LEnforced}" using effective_layer_spec(1) [of i l] by auto
  then show ?thesis using resolve_lookup(2) [OF assms(1,2)] by (simp add: provenance_new_def)
qed

text \<open>What the resolver does at the framework's leaves, for any server trees.\<close>

lemma merged_resolution:
  assumes r: "probes_ok r" and app: "wf_manifest app" and m: "merge_telemetry_section app r ep = Some (Ok m)"
  shows "path \<in> {''telemetry.level'', ''telemetry.attribution''} \<Longrightarrow>
      \<exists>p. resolved_provenance (resolve m i) path = Some p \<and> pv_layer p \<noteq> LEnforced \<and> \<not> pv_locked p"
    and "path \<in> {''telemetry.install_id'', ''telemetry.notice_shown''} \<Longrightarrow>
      \<exists>p. resolved_provenance (resolve m i) path = Some p \<and> pv_layer p \<notin> {LRecommended, LEnforced}"
    and "spec \<in> set r \<Longrightarrow> resolved_value (resolve m i) (''telemetry.'' @ ps_id spec @ ''.enabled'') \<noteq> None"
proof -
  have wf: "wf_manifest m" and ls: "set (iter_leaves m) = set (iter_leaves app) \<union> telemetry_leaves r ep"
    using merged_manifest [OF assms] by auto
  note d = leaf_paths_distinct [OF wf]
  have fixed: "\<lparr>lf_path = ''telemetry.'' @ fm_key f, lf_field = f\<rparr> \<in> set (iter_leaves m)"
    if "f \<in> set (fixed_fields ep)" for f using that ls by (auto simp: telemetry_leaves_def)
  show "\<exists>p. resolved_provenance (resolve m i) path = Some p \<and> pv_layer p \<noteq> LEnforced \<and> \<not> pv_locked p"
    if "path \<in> {''telemetry.level'', ''telemetry.attribution''}"
    using unenforceable_not_locked [OF d fixed [of level_field], of i]
      unenforceable_not_locked [OF d fixed [of attribution_field], of i] that
    by (auto simp: fixed_fields_def level_field_def attribution_field_def)
  show "\<exists>p. resolved_provenance (resolve m i) path = Some p \<and> pv_layer p \<notin> {LRecommended, LEnforced}"
    if "path \<in> {''telemetry.install_id'', ''telemetry.notice_shown''}"
    using unmanaged_not_server [OF d fixed [of install_id_field], of i]
      unmanaged_not_server [OF d fixed [of notice_shown_field], of i] that
    by (auto simp: fixed_fields_def install_id_field_def notice_shown_field_def)
  show "resolved_value (resolve m i) (''telemetry.'' @ ps_id spec @ ''.enabled'') \<noteq> None" if "spec \<in> set r"
    using resolve_lookup(1) [OF d, of "\<lparr>lf_path = ''telemetry.'' @ ps_id spec @ ''.enabled'', lf_field = enabled_field spec\<rparr>" i]
      that ls by (simp add: telemetry_leaves_def)
qed

text \<open>
  Adding the telemetry section to an application's manifest never panics, for any catalog of
  valid probes, and is refused exactly when the application has a \<open>telemetry\<close> key of its own.
  The manifest it gives is well formed: the application's leaves, the five settings, and one
  switch per probe at its own path. Whatever trees a server sends, resolving against it never
  takes the level or the attribution from the enforced tree, never takes the install id or the
  notice marker from any server tree, and gives every probe a switch.
\<close>

theorem telemetry_section_protects_consent:
  assumes "probes_ok r" "wf_manifest app"
  shows "merge_telemetry_section app r ep \<noteq> None \<and>
     (merge_telemetry_section app r ep = Some (Err AppOwnsTelemetryKey) \<longleftrightarrow>
        ''telemetry'' \<in> fm_key ` set (cm_fields app)) \<and>
     (\<forall>m i. merge_telemetry_section app r ep = Some (Ok m) \<longrightarrow>
        wf_manifest m \<and> set (iter_leaves m) = set (iter_leaves app) \<union> telemetry_leaves r ep \<and>
        (\<forall>path \<in> {''telemetry.level'', ''telemetry.attribution''}.
           \<exists>p. resolved_provenance (resolve m i) path = Some p \<and> pv_layer p \<noteq> LEnforced \<and> \<not> pv_locked p) \<and>
        (\<forall>path \<in> {''telemetry.install_id'', ''telemetry.notice_shown''}.
           \<exists>p. resolved_provenance (resolve m i) path = Some p \<and> pv_layer p \<notin> {LRecommended, LEnforced}) \<and>
        (\<forall>spec \<in> set r. resolved_value (resolve m i) (''telemetry.'' @ ps_id spec @ ''.enabled'') \<noteq> None))"
proof -
  have total: "telemetry_section r ep \<noteq> None" by (rule telemetry_section_ok [OF assms(1), of ep]) simp
  have "list_ex (\<lambda>f. fm_key f = TELEMETRY_SECTION_KEY) fs \<longleftrightarrow> ''telemetry'' \<in> fm_key ` set fs" for fs
    by (auto simp: list_ex_iff TELEMETRY_SECTION_KEY_def intro: rev_image_eqI)
  then have "merge_telemetry_section app r ep \<noteq> None \<and>
     (merge_telemetry_section app r ep = Some (Err AppOwnsTelemetryKey) \<longleftrightarrow>
        ''telemetry'' \<in> fm_key ` set (cm_fields app))"
    using total by (auto simp: merge_telemetry_section_def)
  then show ?thesis
    using merged_manifest [OF assms] merged_resolution [OF assms] by (intro conjI allI impI ballI) simp_all
qed

text \<open>A catalog of one probe in an application with one setting of its own.\<close>

definition sample_catalog :: probe_registry where
  "sample_catalog = [probe_spec_of ''cli.command'' TL_Usage [] []]"

definition sample_merged :: config_manifest where
  "sample_merged =
     config_manifest_new ''app''
       (cm_fields sample_manifest @
        [manifest_field ''telemetry''
           (KSection (fixed_fields None @
              [manifest_field ''cli'' (KSection [manifest_field ''command'' (KSection [enabled_field (hd sample_catalog)])])]))])"

theorem telemetry_section_protects_consent_witness:
  "merge_telemetry_section sample_manifest sample_catalog None = Some (Ok sample_merged) \<and>
   (\<exists>p. resolved_provenance (resolve sample_merged
          (sample_input\<lparr>ri_enforced := [(''telemetry.level'', JStr ''debug'')]\<rparr>)) ''telemetry.level'' = Some p \<and>
        pv_layer p \<noteq> LEnforced)"
proof -
  have r: "probes_ok sample_catalog" unfolding probes_ok_def by code_simp
  have m: "merge_telemetry_section sample_manifest sample_catalog None = Some (Ok sample_merged)" by code_simp
  show ?thesis
    using telemetry_section_protects_consent [OF r sample_manifest_wf, of None] m by blast
qed

section \<open>What the scan accounts for\<close>

lemma scan_unmatched:
  "es_unmatched (fold (scan_var app known) vars scan) =
     es_unmatched scan @ filter (\<lambda>name. name \<notin> fst ` set known \<and> starts_with (env_var_prefix app @ ''_TELEMETRY_'') name \<and>
       name \<noteq> env_var_prefix app @ ''_TELEMETRY_DISABLED'') (map fst vars)"
proof (induction vars arbitrary: scan)
  case Nil
  then show ?case by simp
next
  case (Cons v vars)
  obtain name raw where v: "v = (name, raw)" by (cases v)
  have "find (\<lambda>(var, _, _). var = name) known = None \<longleftrightarrow> name \<notin> fst ` set known"
    by (auto simp: find_None_iff image_iff)
  then show ?case
    using Cons.IH by (auto simp: v scan_var_def split: option.splits)
qed

lemma scan_values:
  "(path, v) \<in> set (es_values (fold (scan_var app known) vars scan)) \<Longrightarrow>
     (path, v) \<in> set (es_values scan) \<or>
     (\<exists>name raw kind. (name, raw) \<in> set vars \<and> (name, path, kind) \<in> set known \<and> v = typed kind raw)"
proof (induction vars arbitrary: scan)
  case Nil
  then show ?case by simp
next
  case (Cons var vars)
  obtain name raw where var: "var = (name, raw)" by (cases var)
  have ins: "e \<in> set (bm_insert k x m) \<Longrightarrow> e = (k, x) \<or> e \<in> set m" for e k x and m :: json_map
    by (induction k x m rule: bm_insert.induct) (auto split: if_splits)
  have "(path, v) \<in> set (es_values (scan_var app known (name, raw) scan)) \<Longrightarrow>
      (path, v) \<in> set (es_values scan) \<or> (\<exists>kind. (name, path, kind) \<in> set known \<and> v = typed kind raw)"
    by (auto simp: scan_var_def split: option.splits if_splits dest!: ins find_SomeD)
  then show ?case using Cons.IH [of "scan_var app known var scan"] Cons.prems var by auto
qed

text \<open>
  Every variable of the telemetry family is the kill switch, names a leaf of the manifest or is
  reported as unmatched; and a value is only ever set at a telemetry leaf of the manifest, from the
  variable computed for it.
\<close>

theorem scan_accounts_for_all:
  "set (es_unmatched (scan_environment app m vars)) =
     {name \<in> fst ` set vars. starts_with (env_var_prefix app @ ''_TELEMETRY_'') name \<and>
        name \<noteq> env_var_prefix app @ ''_TELEMETRY_DISABLED'' \<and>
        (\<forall>l \<in> set (iter_leaves m). is_telemetry_path (lf_path l) \<longrightarrow> env_var_name app (lf_path l) \<noteq> name)} \<and>
   (\<forall>(path, v) \<in> set (es_values (scan_environment app m vars)).
      \<exists>l \<in> set (iter_leaves m). \<exists>raw. lf_path l = path \<and> is_telemetry_path path \<and>
        (env_var_name app path, raw) \<in> set vars \<and> v = typed (fm_kind (lf_field l)) raw)"
proof
  show "set (es_unmatched (scan_environment app m vars)) =
     {name \<in> fst ` set vars. starts_with (env_var_prefix app @ ''_TELEMETRY_'') name \<and>
        name \<noteq> env_var_prefix app @ ''_TELEMETRY_DISABLED'' \<and>
        (\<forall>l \<in> set (iter_leaves m). is_telemetry_path (lf_path l) \<longrightarrow> env_var_name app (lf_path l) \<noteq> name)}"
    unfolding scan_environment_def Let_def by (auto simp: scan_unmatched known_vars_def image_iff)
  show "\<forall>(path, v) \<in> set (es_values (scan_environment app m vars)).
      \<exists>l \<in> set (iter_leaves m). \<exists>raw. lf_path l = path \<and> is_telemetry_path path \<and>
        (env_var_name app path, raw) \<in> set vars \<and> v = typed (fm_kind (lf_field l)) raw"
    unfolding scan_environment_def Let_def by (auto simp: known_vars_def dest!: scan_values) blast
qed

text \<open>
  Two probes whose ids differ in a dot and an underscore share a variable; the scan gives it to
  the first leaf, so the second switch cannot be set from the environment.
\<close>

theorem env_switch_shadowed:
  "validate_probe_id ''cli.a_b'' = Ok () \<and> validate_probe_id ''cli.a.b'' = Ok () \<and>
   env_var_name app ''telemetry.cli.a_b.enabled'' = env_var_name app ''telemetry.cli.a.b.enabled''"
proof -
  have "validate_probe_id ''cli.a_b'' = Ok ()" "validate_probe_id ''cli.a.b'' = Ok ()" by code_simp+
  moreover have "env_var_prefix ''telemetry.cli.a_b.enabled'' = env_var_prefix ''telemetry.cli.a.b.enabled''" by code_simp
  ultimately show ?thesis by (simp add: env_var_name_def)
qed

end
