(* ===== verification/Telemetry_Startup.thy ===== *)
theory Telemetry_Startup
  imports Telemetry_Store Telemetry_Manifest
begin

text \<open>
  The start of telemetry (\<open>src/telemetry/startup.rs\<close>): the fixed order of the steps, the
  folding of the stored and environment layers into the inputs, the identifier minted after the
  decision, the notice, and the report. \<open>run_startup_recording\<close> returns the result, the steps
  performed and the files as startup leaves them.

  The record \<open>startup_world\<close> holds what startup meets outside this crate: the platform
  directory, the file system's faults, the identifier the generator would mint, whether the
  OpenTelemetry providers can be built and what the subscriber installation answers.
\<close>

section \<open>Steps and results\<close>

datatype startup_step =
    KillSwitches
  | OpenStore
  | MergeManifest
  | Resolve
  | FreezePolicy
  | BuildProviders
  | InstallSubscriber
  | StepShowNotice
  | InstallPanicHook
  | Dispatch

definition startup_order :: "startup_step list" where
  "startup_order =
     [KillSwitches, OpenStore, MergeManifest, Resolve, FreezePolicy, BuildProviders, InstallSubscriber,
      StepShowNotice, InstallPanicHook, Dispatch]"

datatype subscriber_outcome = Installed | ForeignSubscriber

datatype check_severity = SevOk | SevWarning | SevError | SevSkipped

record doctor_finding =
  df_check_id :: string
  df_title :: string
  df_severity :: check_severity
  df_message :: string
  df_detail :: "string option"
  df_remediation :: "string option"

definition foreign_subscriber_finding :: doctor_finding where
  "foreign_subscriber_finding =
     \<lparr> df_check_id = ''telemetry.subscriber'', df_title = ''Tracing subscriber'', df_severity = SevWarning,
       df_message = ''Another tracing subscriber is installed; traces and logs are not exported.'',
       df_detail = Some (''A tracing subscriber can only be installed once per process, and one was '' @
         ''already in place when telemetry started. Metric export is unaffected '' @
         ''because it does not go through tracing.''),
       df_remediation = Some (''Remove the application's own subscriber installation, or call '' @
         ''cli_framework::init_default_logging() before building the application so '' @
         ''the framework composes both.'') \<rparr>"

record startup_report =
  sr_subscriber :: subscriber_outcome
  sr_store :: store_state
  sr_kill_switch :: "kill_switch option"
  sr_unmatched_env :: "string list"
  sr_findings :: "doctor_finding list"

definition startup_report_default :: startup_report where
  "startup_report_default =
     \<lparr> sr_subscriber = Installed, sr_store = store_state_default, sr_kill_switch = None,
       sr_unmatched_env = [], sr_findings = [] \<rparr>"

record startup_inputs =
  su_base :: telemetry_inputs
  su_store :: telemetry_store_location
  su_manifest :: config_manifest
  su_surface :: surface
  su_stderr_is_tty :: bool
  su_env :: "(string \<times> string) list"

record startup_world =
  w_config_dir :: "path option"
  w_io :: io_faults
  w_pid :: u64
  w_minted :: string
  w_providers :: "telemetry_policy \<Rightarrow> bool"
  w_subscriber :: subscriber_outcome
  w_attach :: bool

text \<open>The handle and the guard are present or not; the guard carries its flush budget in milliseconds.\<close>

record startup_result =
  su_policy :: telemetry_policy
  su_report :: startup_report
  su_handle :: bool
  su_guard :: "nat option option"
  su_notice :: "string option"
  su_panic_hook :: bool

section \<open>Folding the layers\<close>

definition detect_kill_switch_in :: "string \<Rightarrow> (string \<times> string) list \<Rightarrow> kill_switch option" where
  "detect_kill_switch_in app env =
     detect_kill_switch app (\<lambda>key. map_option snd (find (\<lambda>(name, _). name = key) env))"

definition switch_probe :: "string \<Rightarrow> bool \<Rightarrow> telemetry_inputs \<Rightarrow> telemetry_inputs" where
  "switch_probe probe enabled i =
     i\<lparr>ti_disabled_probes :=
        (if enabled then ti_disabled_probes i - {probe} else insert probe (ti_disabled_probes i))\<rparr>"

definition fold_settings :: "telemetry_settings \<Rightarrow> telemetry_inputs \<Rightarrow> telemetry_inputs" where
  "fold_settings s i =
     (let i = (case ts_level s of Some l \<Rightarrow> i\<lparr>ti_level := (ti_level i)\<lparr>ll_config_file := Some l\<rparr>\<rparr> | None \<Rightarrow> i);
          i = (case ts_attribution s of Some a \<Rightarrow> i\<lparr>ti_attribution := a\<rparr> | None \<Rightarrow> i);
          i = (case ts_endpoint s of
                 Some e \<Rightarrow>
                   if str_trim e \<noteq> [] then i\<lparr>ti_endpoint := Some e, ti_endpoint_source := Some LConfigFile\<rparr> else i
               | None \<Rightarrow> i);
          i = (case ts_install_id s of Some x \<Rightarrow> i\<lparr>ti_install_id := Some x\<rparr> | None \<Rightarrow> i)
      in fold (\<lambda>(probe, enabled). switch_probe probe enabled) (ts_probes s) i)"

definition fold_store :: "'t codec \<Rightarrow> telemetry_store \<Rightarrow> telemetry_inputs \<Rightarrow> telemetry_inputs" where
  "fold_store cd store i =
     fold_settings (store_settings cd store)
       (i\<lparr>ti_store_available := is_ready (tst_state store), ti_store_error := store_reason (tst_state store)\<rparr>)"

fun json_as_bool :: "json \<Rightarrow> bool option" where
  "json_as_bool (JBool b) = Some b"
| "json_as_bool _ = None"

definition strip_suffix :: "string \<Rightarrow> string \<Rightarrow> string option" where
  "strip_suffix suf s =
     (if starts_with (rev suf) (rev s) then Some (take (length s - length suf) s) else None)"

definition fold_env_entry :: "string \<times> json \<Rightarrow> telemetry_inputs \<Rightarrow> telemetry_inputs" where
  "fold_env_entry = (\<lambda>(path, v) i.
     (if \<not> starts_with ''telemetry.'' path then i
      else
        (let key = drop (length ''telemetry.'') path
         in if key = ''level'' then
              (case Option.bind (as_str v) (\<lambda>s. case level_from_str s of Ok l \<Rightarrow> Some l | Err _ \<Rightarrow> None) of
                 Some l \<Rightarrow> i\<lparr>ti_level := (ti_level i)\<lparr>ll_environment := Some l\<rparr>\<rparr>
               | None \<Rightarrow> i)
            else if key = ''attribution'' then
              (case Option.bind (as_str v) (\<lambda>s. case attribution_from_str s of Ok a \<Rightarrow> Some a | Err _ \<Rightarrow> None) of
                 Some a \<Rightarrow> i\<lparr>ti_attribution := a\<rparr>
               | None \<Rightarrow> i)
            else if key = ''endpoint'' then
              (case as_str v of
                 Some e \<Rightarrow>
                   if str_trim e \<noteq> [] then i\<lparr>ti_endpoint := Some e, ti_endpoint_source := Some LEnvironment\<rparr> else i
               | None \<Rightarrow> i)
            else if key = ''install_id'' \<or> key = ''notice_shown'' then i
            else
              (case (strip_suffix ''.enabled'' key, json_as_bool v) of
                 (Some probe, Some enabled) \<Rightarrow> switch_probe probe enabled i
               | _ \<Rightarrow> i))))"

definition fold_environment :: "json_map \<Rightarrow> telemetry_inputs \<Rightarrow> telemetry_inputs" where
  "fold_environment values i = fold fold_env_entry values i"

section \<open>The walk\<close>

definition END_USER_FLUSH_BUDGET :: nat where
  "END_USER_FLUSH_BUDGET = 500"

definition flush_budget_for :: "telemetry_policy \<Rightarrow> nat option" where
  "flush_budget_for p = (case tp_deployment p of EndUser _ \<Rightarrow> Some END_USER_FLUSH_BUDGET | Service \<Rightarrow> None)"

definition install_subscriber :: "startup_world \<Rightarrow> startup_report \<Rightarrow> startup_report" where
  "install_subscriber w r =
     (if w_subscriber w \<noteq> ForeignSubscriber then r\<lparr>sr_subscriber := w_subscriber w\<rparr>
      else if w_attach w then r\<lparr>sr_subscriber := Installed\<rparr>
      else r\<lparr>sr_subscriber := ForeignSubscriber, sr_findings := sr_findings r @ [foreign_subscriber_finding]\<rparr>)"

definition show_notice ::
  "'t codec \<Rightarrow> telemetry_policy \<Rightarrow> telemetry_level option \<Rightarrow> surface \<Rightarrow> bool \<Rightarrow> telemetry_store \<Rightarrow>
   string option \<times> telemetry_store" where
  "show_notice cd p notice_shown sf tty store =
     (case decide_notice p notice_shown sf tty of
        ShowNotice text announced \<Rightarrow>
          (Some text, snd (mutate cd (\<lambda>s. s\<lparr>ts_notice_shown := Some announced\<rparr>) store))
      | SkipNotice _ \<Rightarrow> (None, store))"

text \<open>Steps 2 and 3, skipped under a kill switch; the inputs, the report and the store they leave.\<close>

definition gather ::
  "startup_world \<Rightarrow> 't codec \<Rightarrow> startup_inputs \<Rightarrow> file_backend_state \<Rightarrow> telemetry_inputs \<Rightarrow> startup_report \<Rightarrow>
   telemetry_inputs \<times> startup_report \<times> telemetry_store" where
  "gather w cd inp files base report =
     (let store = location_open (w_io w) (w_pid w) (w_config_dir w) (su_store inp) (ti_app base) files;
          scan = scan_environment (ti_app base) (su_manifest inp) (su_env inp)
      in (fold_environment (es_values scan) (fold_store cd store base),
          report\<lparr>sr_store := tst_state store, sr_unmatched_env := es_unmatched scan\<rparr>, store))"

definition mint_id ::
  "startup_world \<Rightarrow> 't codec \<Rightarrow> telemetry_policy \<Rightarrow> telemetry_store option \<Rightarrow> telemetry_policy \<times> telemetry_store option" where
  "mint_id w cd p store =
     (if TL_Off < tp_level p \<and> tp_attribution p \<noteq> Anonymous \<and> tp_install_id p = None
      then (case store of
              Some st \<Rightarrow> (case ensure_install_id cd (w_minted w) st of (i, st') \<Rightarrow> (p\<lparr>tp_install_id := i\<rparr>, Some st'))
            | None \<Rightarrow> (p, None))
      else (p, store))"

text \<open>The files a store holds; they are not touched where there is none.\<close>

definition store_files :: "file_backend_state \<Rightarrow> telemetry_store option \<Rightarrow> file_backend_state" where
  "store_files files store =
     (case Option.bind store tst_store of Some cs \<Rightarrow> cs_backend cs | None \<Rightarrow> files)"

definition startup_kill :: "startup_inputs \<Rightarrow> kill_switch option" where
  "startup_kill inp =
     (case detect_kill_switch_in (ti_app (su_base inp)) (su_env inp) of
        Some k \<Rightarrow> Some k
      | None \<Rightarrow> ti_kill_switch (su_base inp))"

definition run_startup_recording ::
  "startup_world \<Rightarrow> 't codec \<Rightarrow> startup_inputs \<Rightarrow> file_backend_state \<Rightarrow>
   startup_result \<times> startup_step list \<times> file_backend_state" where
  "run_startup_recording w cd inp files =
     (let kill = startup_kill inp;
          base1 = (su_base inp)\<lparr>ti_kill_switch := kill\<rparr>;
          report1 = startup_report_default\<lparr>sr_kill_switch := kill\<rparr>;
          (base2, report2, store2, steps2) =
            (if kill = None
             then (case gather w cd inp files base1 report1 of (b, r, st) \<Rightarrow> (b, r, Some st, [OpenStore, MergeManifest]))
             else (base1, report1, None, []));
          notice_shown = (case store2 of Some st \<Rightarrow> ts_notice_shown (store_settings cd st) | None \<Rightarrow> None);
          (policy, store3) = mint_id w cd (resolve_policy base2) store2;
          built = (policy_exports policy \<and> w_providers w policy);
          report3 = (if built then install_subscriber w report2 else report2);
          (notice, store4) =
            (case store3 of
               Some st \<Rightarrow> (case show_notice cd policy notice_shown (su_surface inp) (su_stderr_is_tty inp) st of
                             (n, st') \<Rightarrow> (n, Some st'))
             | None \<Rightarrow> (None, None))
      in (\<lparr> su_policy = policy, su_report = report3, su_handle = built,
            su_guard = (if built then Some (flush_budget_for policy) else None),
            su_notice = notice, su_panic_hook = built \<rparr>,
          [KillSwitches] @ steps2 @ [Resolve, FreezePolicy] @
          (if policy_exports policy then [BuildProviders] else []) @
          (if built then [InstallSubscriber] else []) @ [StepShowNotice] @
          (if built then [InstallPanicHook] else []) @ [Dispatch],
          store_files files store4))"

definition run_startup :: "startup_world \<Rightarrow> 't codec \<Rightarrow> startup_inputs \<Rightarrow> file_backend_state \<Rightarrow> startup_result" where
  "run_startup w cd inp files = fst (run_startup_recording w cd inp files)"

section \<open>The store across a startup\<close>

text \<open>Two states of one store: only the files and the cached value may differ.\<close>

definition same_store :: "telemetry_store \<Rightarrow> telemetry_store \<Rightarrow> bool" where
  "same_store st st' \<longleftrightarrow> tst_state st = tst_state st' \<and>
     rel_option (\<lambda>a b. cs_vtable a = cs_vtable b \<and> cs_format a = cs_format b \<and>
       cs_current_version a = cs_current_version b \<and> cs_migrations a = cs_migrations b) (tst_store st) (tst_store st')"

lemma same_store_refl [simp]: "same_store st st"
  by (simp add: same_store_def option.rel_refl)

lemma same_store_trans: "same_store a b \<Longrightarrow> same_store b c \<Longrightarrow> same_store a c"
  by (auto simp: same_store_def option_rel_Some1 option_rel_Some2 split: option.splits elim!: option.rel_cases)

lemma save_same:
  "save vc cd s cs = (r, cs') \<Longrightarrow> cs_vtable cs' = cs_vtable cs \<and> cs_format cs' = cs_format cs \<and>
     cs_current_version cs' = cs_current_version cs \<and> cs_migrations cs' = cs_migrations cs"
  by (auto simp: save_def Let_def split: if_splits sum.splits prod.splits)

lemma mutate_same: "mutate cd f st = (r, st') \<Longrightarrow> same_store st st'"
  by (auto simp: mutate_def same_store_def Let_def split: option.splits prod.splits sum.splits dest!: save_same)

lemma ensure_same: "ensure_install_id cd minted st = (r, st') \<Longrightarrow> same_store st st'"
  by (auto simp: ensure_install_id_def split: option.splits prod.splits sum.splits dest: mutate_same)

lemma load_same:
  assumes "cs_vtable a = cs_vtable b" "cs_format a = cs_format b" "cs_current_version a = cs_current_version b"
    "cs_migrations a = cs_migrations b" "cs_backend a = cs_backend b"
  shows "load vc cd a = load vc cd b"
  unfolding load_def Let_def by (simp only: assms)

lemma reopened:
  assumes "same_store (location_open io pid cfg loc app files) st"
  shows "store_settings cd (location_open io pid cfg loc app (store_files files (Some st))) = store_settings cd st"
proof -
  let ?open = "location_open io pid cfg loc app"
  have "tst_store (?open files') = map_option (\<lambda>cs. cs\<lparr>cs_backend := files'\<rparr>) (tst_store (?open files))" for files'
    by (auto simp: location_open_def open_with_format_def open_at_with_format_def config_store_new_def Let_def
        split: option.splits)
  note reopen = this
  show ?thesis
  proof (cases "tst_store st")
    case None
    then show ?thesis using assms reopen [of "store_files files (Some st)"] by (simp add: same_store_def store_settings_def)
  next
    case (Some cs)
    then obtain cs0 where "tst_store (?open files) = Some cs0" "cs_vtable cs0 = cs_vtable cs" "cs_format cs0 = cs_format cs"
        "cs_current_version cs0 = cs_current_version cs" "cs_migrations cs0 = cs_migrations cs"
      using assms by (auto simp: same_store_def option_rel_Some2)
    then show ?thesis
      using reopen [of "store_files files (Some st)"] Some load_same [of "cs0\<lparr>cs_backend := cs_backend cs\<rparr>" cs settings_vc cd]
      by (simp add: store_settings_def store_files_def)
  qed
qed

section \<open>The order\<close>

definition startup_steps :: "bool \<Rightarrow> bool \<Rightarrow> bool \<Rightarrow> startup_step list" where
  "startup_steps gathered exports built =
     [KillSwitches] @ (if gathered then [OpenStore, MergeManifest] else []) @ [Resolve, FreezePolicy] @
     (if exports then [BuildProviders] else []) @ (if built then [InstallSubscriber] else []) @ [StepShowNotice] @
     (if built then [InstallPanicHook] else []) @ [Dispatch]"

lemma startup_steps_ordered: "startup_steps g e b = filter (\<lambda>x. x \<in> set (startup_steps g e b)) startup_order"
  by (cases g; cases e; cases b) (simp_all add: startup_steps_def startup_order_def)

lemma startup_killed:
  assumes "startup_kill inp = Some k"
  shows "run_startup_recording w cd inp files =
     (\<lparr> su_policy = resolve_policy ((su_base inp)\<lparr>ti_kill_switch := Some k\<rparr>),
        su_report = startup_report_default\<lparr>sr_kill_switch := Some k\<rparr>,
        su_handle = False, su_guard = None, su_notice = None, su_panic_hook = False \<rparr>,
      startup_steps False False False, files)"
proof -
  let ?p = "resolve_policy ((su_base inp)\<lparr>ti_kill_switch := Some k\<rparr>)"
  have "tp_level ?p = TL_Off" by (simp add: resolve_level level_for_def Let_def)
  then have "mint_id w cd ?p None = (?p, None)" "\<not> policy_exports ?p"
    by (simp_all add: mint_id_def policy_exports_def)
  then show ?thesis
    by (simp add: run_startup_recording_def assms Let_def startup_steps_def store_files_def)
qed

text \<open>The store startup opens and the inputs it resolves, when no kill switch is set.\<close>

definition startup_store :: "startup_world \<Rightarrow> startup_inputs \<Rightarrow> file_backend_state \<Rightarrow> telemetry_store" where
  "startup_store w inp files =
     location_open (w_io w) (w_pid w) (w_config_dir w) (su_store inp) (ti_app (su_base inp)) files"

definition startup_base :: "startup_world \<Rightarrow> 't codec \<Rightarrow> startup_inputs \<Rightarrow> file_backend_state \<Rightarrow> telemetry_inputs" where
  "startup_base w cd inp files =
     fold_environment (es_values (scan_environment (ti_app (su_base inp)) (su_manifest inp) (su_env inp)))
       (fold_store cd (startup_store w inp files) ((su_base inp)\<lparr>ti_kill_switch := None\<rparr>))"

lemma gather_eq:
  "gather w cd inp files ((su_base inp)\<lparr>ti_kill_switch := None\<rparr>) r =
     (startup_base w cd inp files,
      r\<lparr>sr_store := tst_state (startup_store w inp files),
        sr_unmatched_env := es_unmatched (scan_environment (ti_app (su_base inp)) (su_manifest inp) (su_env inp))\<rparr>,
      startup_store w inp files)"
  by (simp add: gather_def startup_base_def startup_store_def Let_def)

lemma mint_id_Some: "\<exists>p' st'. mint_id w cd p (Some st) = (p', Some st')"
proof (cases "ensure_install_id cd (w_minted w) st")
  case (Pair i st')
  then show ?thesis by (simp add: mint_id_def)
qed

lemma startup_run:
  assumes "startup_kill inp = None" "run_startup_recording w cd inp files = (res, steps, files')"
  obtains st3 st4 where
    "mint_id w cd (resolve_policy (startup_base w cd inp files)) (Some (startup_store w inp files)) = (su_policy res, Some st3)"
    "show_notice cd (su_policy res) (ts_notice_shown (store_settings cd (startup_store w inp files)))
       (su_surface inp) (su_stderr_is_tty inp) st3 = (su_notice res, st4)"
    "files' = store_files files (Some st4)"
    "steps = startup_steps True (policy_exports (su_policy res)) (su_handle res)"
    "su_handle res \<longleftrightarrow> policy_exports (su_policy res) \<and> w_providers w (su_policy res)"
    "su_panic_hook res = su_handle res"
proof -
  let ?b = "startup_base w cd inp files" and ?st = "startup_store w inp files"
  obtain p st3 where m: "mint_id w cd (resolve_policy ?b) (Some ?st) = (p, Some st3)"
    using mint_id_Some by blast
  obtain n st4 where n: "show_notice cd p (ts_notice_shown (store_settings cd ?st)) (su_surface inp) (su_stderr_is_tty inp) st3 = (n, st4)"
    by fastforce
  show ?thesis
    using assms(2) m n
    by (intro that [of st3 st4]) (auto simp: run_startup_recording_def assms(1) Let_def gather_eq startup_steps_def)
qed

section \<open>The stored choice is the ceiling\<close>

lemma fold_env_entry_keeps:
  "ll_config_file (ti_level (fold_env_entry e i)) = ll_config_file (ti_level i) \<and>
   ti_deployment (fold_env_entry e i) = ti_deployment i \<and> ti_kill_switch (fold_env_entry e i) = ti_kill_switch i \<and>
   ti_install_id (fold_env_entry e i) = ti_install_id i \<and> ti_registry (fold_env_entry e i) = ti_registry i"
  by (auto simp: fold_env_entry_def switch_probe_def Let_def split: prod.splits option.splits)

lemma fold_environment_keeps:
  "ll_config_file (ti_level (fold_environment vs i)) = ll_config_file (ti_level i) \<and>
   ti_deployment (fold_environment vs i) = ti_deployment i \<and> ti_kill_switch (fold_environment vs i) = ti_kill_switch i \<and>
   ti_install_id (fold_environment vs i) = ti_install_id i \<and> ti_registry (fold_environment vs i) = ti_registry i"
  unfolding fold_environment_def
  by (induction vs arbitrary: i) (auto simp: fold_env_entry_keeps)

lemma fold_switches_keeps:
  "ti_level (fold (\<lambda>(probe, enabled). switch_probe probe enabled) ps i) = ti_level i \<and>
   ti_deployment (fold (\<lambda>(probe, enabled). switch_probe probe enabled) ps i) = ti_deployment i"
  by (induction ps arbitrary: i) (auto simp: switch_probe_def)

lemma startup_base_level:
  assumes "ts_level (store_settings cd (startup_store w inp files)) = Some l"
  shows "ll_config_file (ti_level (startup_base w cd inp files)) = Some l"
  using assms unfolding startup_base_def
  by (simp add: fold_environment_keeps fold_store_def fold_settings_def Let_def fold_switches_keeps split: option.splits)

lemma startup_base_deployment: "ti_deployment (startup_base w cd inp files) = ti_deployment (su_base inp)"
  unfolding startup_base_def
  by (simp add: fold_environment_keeps fold_store_def fold_settings_def Let_def fold_switches_keeps split: option.splits)

lemma mint_id_policy:
  "mint_id w cd p st = (p', st') \<Longrightarrow> tp_level p' = tp_level p \<and> tp_attribution p' = tp_attribution p \<and>
     tp_endpoint p' = tp_endpoint p \<and> tp_kill_switch p' = tp_kill_switch p \<and> tp_deployment p' = tp_deployment p"
  by (auto simp: mint_id_def split: if_splits option.splits prod.splits)

lemma startup_store_faithful:
  "codec_faithful cd (tl_format (su_store inp)) \<Longrightarrow> store_faithful cd (startup_store w inp files)"
  by (auto simp: startup_store_def store_faithful_def location_open_def open_with_format_def open_at_with_format_def
      config_store_new_def Let_def split: option.splits)

lemma mint_id_store:
  assumes ok: "store_ok io pid st" and cd: "store_faithful cd st" and io: "io_read io = None"
    and m: "mint_id w cd p (Some st) = (p', Some st')"
  shows "same_store st st' \<and> store_ok io pid st' \<and> store_faithful cd st' \<and>
     choices (store_settings cd st') = choices (store_settings cd st) \<and>
     ts_notice_shown (store_settings cd st') = ts_notice_shown (store_settings cd st) \<and>
     (ts_install_id (store_settings cd st') = ts_install_id (store_settings cd st) \<or>
      ts_install_id (store_settings cd st) = None \<and> ts_install_id (store_settings cd st') = Some (w_minted w) \<and>
      tp_level p \<noteq> TL_Off \<and> tp_attribution p \<noteq> Anonymous)"
proof (cases "TL_Off < tp_level p \<and> tp_attribution p \<noteq> Anonymous \<and> tp_install_id p = None")
  case False
  then have "st' = st" using m unfolding mint_id_def by (simp split: if_splits)
  then show ?thesis using ok cd by simp
next
  case True
  then obtain i where e: "ensure_install_id cd (w_minted w) st = (i, st')"
    using m by (auto simp: mint_id_def split: prod.splits)
  show ?thesis
    using ensure_install_id_spec [OF ok cd io e] ensure_same [OF e] True by (auto split: option.splits)
qed

lemma show_notice_store:
  assumes ok: "store_ok io pid st" and cd: "store_faithful cd st" and io: "io_read io = None"
    and n: "show_notice cd p shown sf tty st = (notice, st')"
  shows "same_store st st' \<and> choices (store_settings cd st') = choices (store_settings cd st) \<and>
     ts_install_id (store_settings cd st') = ts_install_id (store_settings cd st) \<and>
     (notice = None \<longrightarrow> st' = st)"
proof (cases "decide_notice p shown sf tty")
  case (SkipNotice r)
  then show ?thesis using n by (simp add: show_notice_def)
next
  case (ShowNotice msg announced)
  obtain r where m: "mutate cd (\<lambda>s. s\<lparr>ts_notice_shown := Some announced\<rparr>) st = (r, st')"
    using n ShowNotice by (cases "mutate cd (\<lambda>s. s\<lparr>ts_notice_shown := Some announced\<rparr>) st") (simp add: show_notice_def)
  have "notice \<noteq> None" using n ShowNotice by (auto simp: show_notice_def)
  then show ?thesis
    using mutate_spec [OF ok cd io m] mutate_same [OF m] by (cases r) (auto simp: choices_def)
qed


text \<open>
  Startup performs its steps in the documented order, each at most once, and starts to
  build exporters exactly when the frozen policy exports. With a kill switch, from the environment
  or set by the application, it opens no store and changes no file, resolves to off, builds
  nothing, shows nothing and hooks no panic handler.
\<close>

theorem startup_follows_order:
  assumes "run_startup_recording w cd inp files = (res, steps, files')"
  shows "steps = filter (\<lambda>x. x \<in> set steps) startup_order \<and>
     (BuildProviders \<in> set steps \<longleftrightarrow> policy_exports (su_policy res)) \<and>
     (su_handle res \<longrightarrow> policy_exports (su_policy res)) \<and> (su_panic_hook res \<longleftrightarrow> su_handle res) \<and>
     (startup_kill inp \<noteq> None \<longrightarrow>
        files' = files \<and> OpenStore \<notin> set steps \<and> \<not> su_handle res \<and> su_guard res = None \<and> su_notice res = None \<and>
        tp_level (su_policy res) = TL_Off)"
proof (cases "startup_kill inp")
  case None
  obtain e b where "steps = startup_steps True e b" "e = policy_exports (su_policy res)" "b = su_handle res"
      "su_handle res \<longrightarrow> policy_exports (su_policy res)" "su_panic_hook res = su_handle res"
    using startup_run [OF None assms] by metis
  note run = this
  have "steps = filter (\<lambda>x. x \<in> set steps) startup_order" unfolding run(1) by (rule startup_steps_ordered)
  moreover have "BuildProviders \<in> set steps \<longleftrightarrow> policy_exports (su_policy res)"
    unfolding run(1) run(2) [symmetric] by (simp add: startup_steps_def)
  ultimately show ?thesis using None run by simp
next
  case (Some k)
  then have res: "res = \<lparr> su_policy = resolve_policy ((su_base inp)\<lparr>ti_kill_switch := Some k\<rparr>),
        su_report = startup_report_default\<lparr>sr_kill_switch := Some k\<rparr>,
        su_handle = False, su_guard = None, su_notice = None, su_panic_hook = False \<rparr>"
    and steps: "steps = startup_steps False False False" and f: "files' = files"
    using startup_killed [OF Some, of w cd files] assms by auto
  have "tp_level (su_policy res) = TL_Off" "\<not> policy_exports (su_policy res)"
    by (simp_all add: res resolve_level level_for_def policy_exports_def Let_def)
  then show ?thesis
    using startup_steps_ordered [of False False False] by (simp add: steps f) (simp add: res startup_steps_def)
qed

section \<open>Samples\<close>

text \<open>A file that holds an opt-out, in a text format that knows two documents.\<close>

definition opted_out :: telemetry_settings where
  "opted_out = telemetry_settings_default\<lparr>ts_schema_version := 1, ts_level := Some TL_Off\<rparr>"

definition opted_out_told :: telemetry_settings where
  "opted_out_told = opted_out\<lparr>ts_notice_shown := Some TL_Off\<rparr>"

definition opt_out_codec :: "unit codec" where
  "opt_out_codec =
     \<lparr> json_from_slice = (\<lambda>bs. if bs = ''out'' then Ok (settings_to_value opted_out)
          else if bs = ''told'' then Ok (settings_to_value opted_out_told) else Err ''text''),
       json_to_vec_pretty = (\<lambda>j. if j = settings_to_value opted_out then Ok ''out''
          else if j = settings_to_value opted_out_told then Ok ''told'' else Err ''document''),
       str_from_utf8 = Ok, toml_from_str = (\<lambda>_. Err ''toml''), toml_to_json = (\<lambda>_. Err ''toml''),
       toml_from_json = (\<lambda>_. Err ''toml''), toml_to_string_pretty = (\<lambda>_. Err ''toml'') \<rparr>"

definition sample_world :: startup_world where
  "sample_world =
     \<lparr> w_config_dir = Some [''etc''], w_io = no_faults, w_pid = 7, w_minted = ''9c'', w_providers = (\<lambda>_. True),
       w_subscriber = Installed, w_attach = False \<rparr>"

definition sample_startup :: startup_inputs where
  "sample_startup =
     \<lparr> su_base = sample_telemetry, su_store = \<lparr> tl_dir = None, tl_format = Json \<rparr>, su_manifest = sample_merged,
       su_surface = Cli, su_stderr_is_tty = True, su_env = [(''DEMO_TELEMETRY_LEVEL'', ''debug'')] \<rparr>"

definition sample_files :: file_backend_state where
  "sample_files = \<lparr> fb_fs = [[''etc'', ''demo'', ''telemetry.json''] \<mapsto> ''out''], fb_write_counter = 0 \<rparr>"

lemma opt_out_codec_faithful: "codec_faithful opt_out_codec fmt"
proof (cases fmt)
  case Json
  have "settings_to_value opted_out \<noteq> settings_to_value opted_out_told" by code_simp
  then show ?thesis
    by (auto simp: codec_faithful_def value_to_bytes_def bytes_to_value_def opt_out_codec_def Json split: if_splits)
next
  case Toml
  then show ?thesis by (auto simp: codec_faithful_def value_to_bytes_def opt_out_codec_def)
qed

lemma sample_stored: "store_settings opt_out_codec (startup_store sample_world sample_startup sample_files) = opted_out"
proof -
  have v: "read_version (settings_to_value opted_out) = 1"
    by (simp add: read_version_settings opted_out_def)
  show ?thesis
    by (simp add: store_settings_def startup_store_def location_open_def open_with_format_def open_at_with_format_def
        sample_world_def sample_startup_def sample_telemetry_def no_faults_def config_store_new_def load_def Let_def
        file_vtable_def file_read_def sample_files_def settings_file_name_def bytes_to_value_def opt_out_codec_def v
        TELEMETRY_SCHEMA_VERSION_def migrate.simps settings_vc_def settings_value_roundtrip opted_out_def [symmetric])
      (simp add: opted_out_def)
qed


theorem startup_follows_order_witness:
  "su_notice (run_startup sample_world opt_out_codec
     (sample_startup\<lparr>su_env := [(''DO_NOT_TRACK'', ''1'')]\<rparr>) sample_files) = None"
proof -
  let ?i = "sample_startup\<lparr>su_env := [(''DO_NOT_TRACK'', ''1'')]\<rparr>"
  obtain res steps files' where run: "run_startup_recording sample_world opt_out_codec ?i sample_files = (res, steps, files')"
    using prod_cases3 by blast
  have "startup_kill ?i = Some DoNotTrack" by code_simp
  then show ?thesis using startup_follows_order [OF run] by (simp add: run_startup_def run)
qed

section \<open>Divergence\<close>

text \<open>
  The identifier is meant to be minted only once something is being sent; the condition looks at
  the level and not at the endpoint, so an install that sends nothing acquires one.
\<close>

theorem id_minted_without_endpoint:
  assumes "tp_level p = TL_Usage" "tp_attribution p = Pseudonymous" "tp_install_id p = None" "tp_endpoint p = None"
    and "store_ok io pid st" "store_faithful cd st" "io_read io = None" "ts_install_id (store_settings cd st) = None"
    and "mint_id w cd p (Some st) = (p', Some st')" "tp_install_id p' \<noteq> None"
  shows "\<not> policy_exports p' \<and> ts_install_id (store_settings cd st') = Some (w_minted w)"
proof
  show "\<not> policy_exports p'" using mint_id_policy [OF assms(9)] assms(4) by (simp add: policy_exports_def)
  obtain i where e: "ensure_install_id cd (w_minted w) st = (i, st')" "p' = p\<lparr>tp_install_id := i\<rparr>"
    using assms(1,2,3,9) by (auto simp: mint_id_def split: prod.splits)
  then show "ts_install_id (store_settings cd st') = Some (w_minted w)"
    using ensure_install_id_spec [OF assms(5-7) e(1)] assms(8,10) by auto
qed

end
