(* ===== verification/Command_Registry.thy ===== *)
theory Command_Registry
  imports Command_Spec
begin

text \<open>
  Command paths (\<open>src/spec/command_tree.rs\<close>), commands (\<open>src/command/mod.rs\<close>) and the
  registry that stores them by path (\<open>src/command/registry.rs\<close>).

  The body of a command is the function \<open>cmd_execute\<close> from the context it is given and its
  arguments to the new context and its result; the context is the type parameter \<open>'c\<close>. An
  operation that returns an error leaves the registry as it was, so an error carries no state.
\<close>

section \<open>Paths\<close>

type_synonym command_path = "string list"

datatype command_path_error = InvalidSegment string

definition path_new :: "string list \<Rightarrow> command_path_error + command_path" where
  "path_new segments =
     (case find (\<lambda>s. CHR ''/'' \<in> set s) segments of
        Some s \<Rightarrow> Err (InvalidSegment s)
      | None \<Rightarrow> Ok segments)"

definition root_for :: "string \<Rightarrow> command_path" where
  "root_for cid = [cid]"

definition to_path_string :: "command_path \<Rightarrow> string" where
  "to_path_string p = str_join ''/'' p"

definition path_parent :: "command_path \<Rightarrow> command_path option" where
  "path_parent p = (if length p \<le> 1 then None else Some (take (length p - 1) p))"

definition path_push :: "command_path \<Rightarrow> string \<Rightarrow> command_path_error + command_path" where
  "path_push p segment =
     (if CHR ''/'' \<in> set segment then Err (InvalidSegment segment) else Ok (p @ [segment]))"

definition path_leaf :: "command_path \<Rightarrow> string option" where
  "path_leaf p = (if p = [] then None else Some (last p))"

section \<open>Commands\<close>

record 'c command =
  cmd_id :: string
  cmd_spec :: command_spec
  cmd_validator :: "(typed_args \<Rightarrow> diagnostic list) option"
  cmd_execute :: "'c \<Rightarrow> typed_args \<Rightarrow> 'c \<times> (string + unit)"
  cmd_expose_mcp :: bool
  cmd_expose_chat :: bool
  cmd_meta :: "json option"
  cmd_visibility :: "string list option"

definition cmd_summary :: "'c command \<Rightarrow> string" where
  "cmd_summary c = spec_summary (cmd_spec c)"

definition cmd_syntax :: "'c command \<Rightarrow> string option" where
  "cmd_syntax c = spec_syntax (cmd_spec c)"

definition cmd_category :: "'c command \<Rightarrow> string option" where
  "cmd_category c = spec_category (cmd_spec c)"

definition cmd_help_order :: "'c command \<Rightarrow> u32 option" where
  "cmd_help_order c = spec_help_order (cmd_spec c)"

text \<open>\<open>dispatch::validate_typed_args\<close>: the declaration first, then the command's own hook.\<close>

definition dispatch_validate :: "regex_new \<Rightarrow> 'c command \<Rightarrow> typed_args \<Rightarrow> diagnostic list" where
  "dispatch_validate rx c args =
     validate_typed_args rx (cmd_spec c) args @
     (case cmd_validator c of None \<Rightarrow> [] | Some validator \<Rightarrow> validator args)"

section \<open>The registry\<close>

datatype registration_error = Collision string | AliasConflict string string

record 'c command_registry =
  tree_commands :: "(string, 'c command) hash_map"
  groups :: "(string, group_metadata) hash_map"
  help_section_order :: "string list"
  framework_completion_path :: "string option"

definition registry_new :: "'c command_registry" where
  "registry_new =
     \<lparr> tree_commands = [], groups = [], help_section_order = [], framework_completion_path = None \<rparr>"

definition qualified_alias_path :: "command_path \<Rightarrow> string \<Rightarrow> string" where
  "qualified_alias_path p alias =
     (if CHR ''/'' \<in> set alias then alias
      else str_join ''/'' (take (length p - 1) p @ [alias]))"

definition all_aliases :: "command_spec \<Rightarrow> string list" where
  "all_aliases spec = spec_aliases spec @ spec_hidden_aliases spec"

text \<open>The private lookups; \<open>HashMap\<close> iteration follows the order of the list.\<close>

definition ancestors :: "command_path \<Rightarrow> string list" where
  "ancestors p = map (\<lambda>n. str_join ''/'' (take n p)) [1..<length p]"

definition command_ancestor :: "'c command_registry \<Rightarrow> command_path \<Rightarrow> string option" where
  "command_ancestor r p = find (hm_contains (tree_commands r)) (ancestors p)"

definition path_has_descendants :: "'c command_registry \<Rightarrow> string \<Rightarrow> bool" where
  "path_has_descendants r path \<longleftrightarrow>
     list_ex (\<lambda>(k, _). starts_with (path @ ''/'') k) (tree_commands r) \<or>
     list_ex (\<lambda>(k, _). starts_with (path @ ''/'') k) (groups r)"

definition existing_alias_for_path :: "'c command_registry \<Rightarrow> string \<Rightarrow> (string \<times> string) option" where
  "existing_alias_for_path r candidate =
     find_map (\<lambda>(existing_path, c).
       map_option (\<lambda>alias. (alias, existing_path))
         (find (\<lambda>alias. qualified_alias_path (str_split CHR ''/'' existing_path) alias = candidate)
            (all_aliases (cmd_spec c))))
       (tree_commands r)"

definition existing_alias_ancestor :: "'c command_registry \<Rightarrow> command_path \<Rightarrow> (string \<times> string) option" where
  "existing_alias_ancestor r p = find_map (existing_alias_for_path r) (ancestors p)"

text \<open>Registration.\<close>

definition register_group ::
  "command_path \<Rightarrow> group_metadata \<Rightarrow> 'c command_registry \<Rightarrow> registration_error + 'c command_registry" where
  "register_group p metadata r =
     (let path_str = to_path_string p
      in if hm_contains (tree_commands r) path_str \<or> hm_contains (groups r) path_str \<or>
            command_ancestor r p \<noteq> None
         then Err (Collision path_str)
         else (case (case existing_alias_for_path r path_str of
                       None \<Rightarrow> existing_alias_ancestor r p | Some x \<Rightarrow> Some x) of
                 Some (alias, existing_path) \<Rightarrow> Err (AliasConflict alias existing_path)
               | None \<Rightarrow> Ok (r \<lparr> groups := hm_insert path_str metadata (groups r) \<rparr>)))"

text \<open>The loop of \<open>register_at\<close> over the aliases of the new command.\<close>

definition alias_conflict :: "'c command_registry \<Rightarrow> command_path \<Rightarrow> string \<Rightarrow> registration_error option" where
  "alias_conflict r p alias =
     (let alias_path = qualified_alias_path p alias
      in if hm_contains (tree_commands r) alias_path then Some (AliasConflict alias alias_path)
         else if hm_contains (groups r) alias_path then Some (AliasConflict alias alias_path)
         else if path_has_descendants r alias_path then Some (AliasConflict alias alias_path)
         else map_option (\<lambda>(_, existing_path). AliasConflict alias existing_path)
                (existing_alias_for_path r alias_path))"

definition register_at ::
  "command_path \<Rightarrow> 'c command \<Rightarrow> 'c command_registry \<Rightarrow> registration_error + 'c command_registry" where
  "register_at p c r =
     (let path_str = to_path_string p
      in if hm_contains (tree_commands r) path_str \<or> hm_contains (groups r) path_str \<or>
            command_ancestor r p \<noteq> None \<or> path_has_descendants r path_str
         then Err (Collision path_str)
         else (case existing_alias_for_path r path_str of
                 Some (alias, existing_path) \<Rightarrow> Err (AliasConflict alias existing_path)
               | None \<Rightarrow>
           (case existing_alias_ancestor r p of
              Some (alias, existing_path) \<Rightarrow> Err (AliasConflict alias existing_path)
            | None \<Rightarrow>
           (case find_map (alias_conflict r p) (all_aliases (cmd_spec c)) of
              Some e \<Rightarrow> Err e
            | None \<Rightarrow> Ok (r \<lparr> tree_commands := hm_insert path_str c (tree_commands r) \<rparr>)))))"

text \<open>\<open>CommandRegistry::register\<close> panics on a collision: \<open>None\<close>.\<close>

definition register_flat :: "'c command \<Rightarrow> 'c command_registry \<Rightarrow> 'c command_registry option" where
  "register_flat c r =
     (case register_at (root_for (cmd_id c)) c r of Ok r' \<Rightarrow> Some r' | Err _ \<Rightarrow> None)"

definition register_framework_completion_at ::
  "command_path \<Rightarrow> 'c command \<Rightarrow> 'c command_registry \<Rightarrow> registration_error + 'c command_registry" where
  "register_framework_completion_at p c r =
     and_then (register_at p c r)
       (\<lambda>r'. Ok (r' \<lparr> framework_completion_path := Some (to_path_string p) \<rparr>))"

definition set_help_section_order :: "string list \<Rightarrow> 'c command_registry \<Rightarrow> 'c command_registry" where
  "set_help_section_order sections r =
     r \<lparr> help_section_order :=
           fold (\<lambda>section known. if section \<in> set known then known else known @ [section]) sections [] \<rparr>"

text \<open>Queries.\<close>

definition reg_get :: "'c command_registry \<Rightarrow> string \<Rightarrow> 'c command option" where
  "reg_get r cid = map_of (tree_commands r) cid"

definition reg_resolve :: "'c command_registry \<Rightarrow> command_path \<Rightarrow> 'c command option" where
  "reg_resolve r p = map_of (tree_commands r) (to_path_string p)"

definition root_commands :: "'c command_registry \<Rightarrow> 'c command list" where
  "root_commands r = map snd (filter (\<lambda>(k, _). CHR ''/'' \<notin> set k) (tree_commands r))"

definition group_metadata_for :: "'c command_registry \<Rightarrow> string \<Rightarrow> group_metadata option" where
  "group_metadata_for r path_str = map_of (groups r) path_str"

definition help_section_rank :: "'c command_registry \<Rightarrow> string \<Rightarrow> nat option" where
  "help_section_rank r section =
     find (\<lambda>i. help_section_order r ! i = section) [0..<length (help_section_order r)]"

definition is_framework_completion :: "'c command_registry \<Rightarrow> string \<Rightarrow> bool" where
  "is_framework_completion r path \<longleftrightarrow> framework_completion_path r = Some path"

definition list_children :: "'c command_registry \<Rightarrow> command_path \<Rightarrow> command_path list" where
  "list_children r p =
     (let prefix = (if p = [] then [] else to_path_string p @ ''/'')
      in List.map_filter (\<lambda>(key, _).
           if starts_with prefix key then
             (let rest = drop (length prefix) key
              in if CHR ''/'' \<notin> set rest \<and> rest \<noteq> [] then Some (p @ [rest]) else None)
           else None) (tree_commands r))"

definition registered_command_label :: "'c command_registry \<Rightarrow> string list \<Rightarrow> string option" where
  "registered_command_label r path =
     (case reg_resolve r path of None \<Rightarrow> None | Some _ \<Rightarrow> Some (str_join '' '' path))"

section \<open>Paths as strings\<close>

abbreviation path_ok :: "command_path \<Rightarrow> bool" where
  "path_ok p \<equiv> (\<forall>s \<in> set p. CHR ''/'' \<notin> set s)"

lemma path_new_Ok_iff: "path_new segs = Ok p \<longleftrightarrow> p = segs \<and> path_ok segs"
  by (auto simp: path_new_def find_None_iff split: option.splits dest: find_SomeD)

text \<open>\<open>k\<close> is strictly above \<open>k'\<close> in the tree of paths.\<close>

definition above :: "string \<Rightarrow> string \<Rightarrow> bool" where
  "above k k' \<longleftrightarrow> starts_with (k @ ''/'') k'"

lemma above_iff: "above k k' \<longleftrightarrow> (\<exists>t. k' = k @ CHR ''/'' # t)"
  by (auto simp: above_def starts_with_iff)

lemma above_irrefl: "\<not> above k k"
  by (simp add: above_iff)

lemma above_join:
  "path_ok p \<Longrightarrow> above k (str_join ''/'' p) \<Longrightarrow> k \<in> set (ancestors p)"
proof (induction p arbitrary: k)
  case Nil
  then show ?case by (simp add: above_iff)
next
  case (Cons s p)
  show ?case
  proof (cases "p = []")
    case True
    then show ?thesis using Cons.prems by (auto simp: above_iff)
  next
    case False
    obtain t where t: "s @ CHR ''/'' # str_join ''/'' p = k @ CHR ''/'' # t"
      using Cons.prems(2) False by (auto simp: above_iff str_join_Cons)
    have s: "CHR ''/'' \<notin> set s" using Cons.prems(1) by simp
    have in_anc: "str_join ''/'' (take (Suc n) (s # p)) \<in> set (ancestors (s # p))" if "n < length p" for n
      unfolding ancestors_def set_map using that by (intro imageI) auto
    consider "k = s" | u where "k = s @ CHR ''/'' # u" "str_join ''/'' p = u @ CHR ''/'' # t"
      using t s by (auto simp: append_eq_append_conv2 Cons_eq_append_conv append_eq_Cons_conv)
    then show ?thesis
    proof cases
      case 1
      then show ?thesis using in_anc [of 0] False by simp
    next
      case 2
      then have "above u (str_join ''/'' p)" by (simp add: above_iff)
      then have "u \<in> set (ancestors p)" using Cons by simp
      then obtain n where n: "1 \<le> n" "n < length p" "u = str_join ''/'' (take n p)"
        by (auto simp: ancestors_def)
      moreover have "take n p \<noteq> []" using n False by auto
      ultimately have "k = str_join ''/'' (take (Suc n) (s # p))"
        using 2(1) by (simp add: str_join_Cons)
      then show ?thesis using in_anc n(2) by simp
    qed
  qed
qed

lemma qualified_alias_split:
  "path_ok p \<Longrightarrow> qualified_alias_path (str_split CHR ''/'' (to_path_string p)) alias = qualified_alias_path p alias"
  by (cases "p = []") (simp_all add: qualified_alias_path_def to_path_string_def split_join)

section \<open>Names are unambiguous\<close>

text \<open>The strings that reach the command stored under \<open>k\<close> by one of its aliases.\<close>

definition alias_paths :: "string \<Rightarrow> 'c command \<Rightarrow> string set" where
  "alias_paths k c = qualified_alias_path (str_split CHR ''/'' k) ` set (all_aliases (cmd_spec c))"

definition nodes :: "'c command_registry \<Rightarrow> string set" where
  "nodes r = fst ` set (tree_commands r) \<union> fst ` set (groups r)"

lemma existing_alias_None_iff:
  "existing_alias_for_path r s = None \<longleftrightarrow>
     (\<forall>k c. (k, c) \<in> set (tree_commands r) \<longrightarrow> s \<notin> alias_paths k c)"
  unfolding existing_alias_for_path_def find_map_None_iff alias_paths_def
  by (fastforce simp: find_None_iff)

lemma alias_ancestor_None_iff:
  "existing_alias_ancestor r p = None \<longleftrightarrow> (\<forall>s \<in> set (ancestors p). existing_alias_for_path r s = None)"
  by (simp add: existing_alias_ancestor_def find_map_None_iff)

lemma command_ancestor_None_iff:
  "command_ancestor r p = None \<longleftrightarrow> (\<forall>s \<in> set (ancestors p). s \<notin> fst ` set (tree_commands r))"
  by (auto simp: command_ancestor_def find_None_iff map_of_eq_None_iff)

lemma path_has_descendants_iff: "path_has_descendants r s \<longleftrightarrow> (\<exists>k \<in> nodes r. above s k)"
  unfolding path_has_descendants_def nodes_def above_def list_ex_iff by force

lemma fresh_node_iff: "s \<notin> nodes r \<longleftrightarrow> map_of (tree_commands r) s = None \<and> map_of (groups r) s = None"
  by (simp add: nodes_def map_of_eq_None_iff)

lemma alias_conflict_None_iff:
  "alias_conflict r p a = None \<longleftrightarrow>
     qualified_alias_path p a \<notin> nodes r \<and> \<not> (\<exists>k \<in> nodes r. above (qualified_alias_path p a) k) \<and>
     existing_alias_for_path r (qualified_alias_path p a) = None"
  unfolding path_has_descendants_iff [symmetric] fresh_node_iff by (auto simp: alias_conflict_def Let_def)

text \<open>
  The invariant: a string is not both a command and a group; nothing lies below a command; an
  alias of a command is neither the name nor an alias of another one, nor a group, and
  nothing but the command itself lies below its aliases.
\<close>

definition names_ok :: "(string \<times> 'c command) set \<Rightarrow> string set \<Rightarrow> bool" where
  "names_ok C N \<longleftrightarrow>
     (\<forall>k c k'. (k, c) \<in> C \<and> k' \<in> N \<longrightarrow> \<not> above k k') \<and>
     (\<forall>k c s. (k, c) \<in> C \<and> s \<in> alias_paths k c \<longrightarrow>
        (\<forall>k' \<in> N. k' \<noteq> k \<longrightarrow> s \<noteq> k' \<and> \<not> above s k') \<and>
        (\<forall>k' c'. (k', c') \<in> C \<and> k' \<noteq> k \<longrightarrow> s \<notin> alias_paths k' c'))"

definition registry_ok :: "'c command_registry \<Rightarrow> bool" where
  "registry_ok r \<longleftrightarrow>
     hm_wf (tree_commands r) \<and> hm_wf (groups r) \<and>
     fst ` set (tree_commands r) \<inter> fst ` set (groups r) = {} \<and>
     names_ok (set (tree_commands r)) (nodes r)"

lemma names_okI:
  assumes "\<And>k c k'. (k, c) \<in> C \<Longrightarrow> k' \<in> N \<Longrightarrow> \<not> above k k'"
    and "\<And>k c s k'. (k, c) \<in> C \<Longrightarrow> s \<in> alias_paths k c \<Longrightarrow> k' \<in> N \<Longrightarrow> k' \<noteq> k \<Longrightarrow> s \<noteq> k' \<and> \<not> above s k'"
    and "\<And>k c s k' c'. (k, c) \<in> C \<Longrightarrow> s \<in> alias_paths k c \<Longrightarrow> (k', c') \<in> C \<Longrightarrow> k' \<noteq> k \<Longrightarrow>
           s \<notin> alias_paths k' c'"
  shows "names_ok C N"
  unfolding names_ok_def using assms by (intro conjI allI impI ballI) (elim conjE; assumption | metis)+

lemma names_okD:
  assumes "names_ok C N"
  shows "(k, c) \<in> C \<Longrightarrow> k' \<in> N \<Longrightarrow> \<not> above k k'"
    and "(k, c) \<in> C \<Longrightarrow> s \<in> alias_paths k c \<Longrightarrow> k' \<in> N \<Longrightarrow> k' \<noteq> k \<Longrightarrow> s \<noteq> k' \<and> \<not> above s k'"
    and "(k, c) \<in> C \<Longrightarrow> s \<in> alias_paths k c \<Longrightarrow> (k', c') \<in> C \<Longrightarrow> k' \<noteq> k \<Longrightarrow> s \<notin> alias_paths k' c'"
  using assms unfolding names_ok_def by metis+

lemma names_ok_insert_node:
  assumes N: "names_ok C N" and cmd: "\<And>k' c'. (k', c') \<in> C \<Longrightarrow> \<not> above k' k"
    and old: "\<And>k' c' s. (k', c') \<in> C \<Longrightarrow> s \<in> alias_paths k' c' \<Longrightarrow> s \<noteq> k \<and> \<not> above s k"
  shows "names_ok C (insert k N)"
proof (rule names_okI)
  show "\<not> above k1 k'" if "(k1, c) \<in> C" "k' \<in> insert k N" for k1 c k'
    using that cmd names_okD(1) [OF N] by blast
  show "s \<noteq> k' \<and> \<not> above s k'" if "(k1, c) \<in> C" "s \<in> alias_paths k1 c" "k' \<in> insert k N" "k' \<noteq> k1" for k1 c s k'
    using that old names_okD(2) [OF N] by blast
  show "s \<notin> alias_paths k' c'"
    if "(k1, c) \<in> C" "s \<in> alias_paths k1 c" "(k', c') \<in> C" "k' \<noteq> k1" for k1 c s k' c'
    using that names_okD(3) [OF N] by blast
qed

lemma names_ok_insert_command:
  assumes N: "names_ok C (insert k N)" and cmd: "\<And>k'. k' \<in> N \<Longrightarrow> \<not> above k k'"
    and new: "\<And>s. s \<in> alias_paths k c \<Longrightarrow> s \<notin> N \<and> (\<forall>k' \<in> N. \<not> above s k') \<and>
          (\<forall>k' c'. (k', c') \<in> C \<longrightarrow> s \<notin> alias_paths k' c')"
  shows "names_ok (insert (k, c) C) (insert k N)"
proof (rule names_okI)
  show "\<not> above k1 k'" if "(k1, c1) \<in> insert (k, c) C" "k' \<in> insert k N" for k1 c1 k'
    using that cmd names_okD(1) [OF N] above_irrefl by blast
  show "s \<noteq> k' \<and> \<not> above s k'"
    if "(k1, c1) \<in> insert (k, c) C" "s \<in> alias_paths k1 c1" "k' \<in> insert k N" "k' \<noteq> k1" for k1 c1 s k'
    using that new names_okD(2) [OF N] by blast
  show "s \<notin> alias_paths k' c'"
    if "(k1, c1) \<in> insert (k, c) C" "s \<in> alias_paths k1 c1" "(k', c') \<in> insert (k, c) C" "k' \<noteq> k1"
    for k1 c1 s k' c'
    using that new names_okD(3) [OF N] by blast
qed

lemma registry_ok_new: "registry_ok registry_new"
  by (simp add: registry_ok_def registry_new_def hm_wf_def names_ok_def)

lemma hm_insert_fresh: "k \<notin> fst ` set m \<Longrightarrow> set (hm_insert k v m) = insert (k, v) (set m)"
  by (induction k v m rule: hm_insert.induct) auto

text \<open>What a successful registration has checked.\<close>

lemma register_at_Ok_iff:
  "register_at p c r = Ok r' \<longleftrightarrow>
     to_path_string p \<notin> nodes r \<and> (\<forall>s \<in> set (ancestors p). s \<notin> fst ` set (tree_commands r)) \<and>
     \<not> (\<exists>k \<in> nodes r. above (to_path_string p) k) \<and>
     existing_alias_for_path r (to_path_string p) = None \<and>
     (\<forall>s \<in> set (ancestors p). existing_alias_for_path r s = None) \<and>
     (\<forall>a \<in> set (all_aliases (cmd_spec c)). alias_conflict r p a = None) \<and>
     r' = r \<lparr> tree_commands := hm_insert (to_path_string p) c (tree_commands r) \<rparr>"
  unfolding register_at_def Let_def existing_alias_ancestor_def command_ancestor_None_iff [symmetric]
    find_map_None_iff [symmetric] path_has_descendants_iff [symmetric] fresh_node_iff
  by (auto split: if_splits option.splits)

lemma register_group_Ok_iff:
  "register_group p g r = Ok r' \<longleftrightarrow>
     to_path_string p \<notin> nodes r \<and> (\<forall>s \<in> set (ancestors p). s \<notin> fst ` set (tree_commands r)) \<and>
     existing_alias_for_path r (to_path_string p) = None \<and>
     (\<forall>s \<in> set (ancestors p). existing_alias_for_path r s = None) \<and>
     r' = r \<lparr> groups := hm_insert (to_path_string p) g (groups r) \<rparr>"
  unfolding register_group_def Let_def alias_ancestor_None_iff [symmetric] command_ancestor_None_iff [symmetric]
    fresh_node_iff
  by (auto split: if_splits option.splits)

lemma nodes_insert_command: "nodes (r \<lparr> tree_commands := hm_insert k c (tree_commands r) \<rparr>) = insert k (nodes r)"
  by (simp add: nodes_def hm_insert_keys)

lemma nodes_insert_group: "nodes (r \<lparr> groups := hm_insert k g (groups r) \<rparr>) = insert k (nodes r)"
  by (simp add: nodes_def hm_insert_keys)

lemma alias_paths_new:
  "path_ok p \<Longrightarrow> alias_paths (to_path_string p) c = qualified_alias_path p ` set (all_aliases (cmd_spec c))"
  by (simp add: alias_paths_def qualified_alias_split)

lemma register_at_ok:
  assumes r: "registry_ok r" and p: "path_ok p" and reg: "register_at p c r = Ok r'"
  shows "registry_ok r'"
proof -
  define k where "k = to_path_string p"
  note reg = reg [unfolded register_at_Ok_iff k_def [symmetric]]
  have anc: "s \<in> set (ancestors p)" if "above s k" for s
    using above_join [OF p] that by (simp add: k_def to_path_string_def)
  have fresh: "k \<notin> fst ` set (tree_commands r)" "k \<notin> fst ` set (groups r)"
    using reg by (auto simp: nodes_def)
  have old: "s \<noteq> k \<and> \<not> above s k" if "(k', c') \<in> set (tree_commands r)" "s \<in> alias_paths k' c'" for k' c' s
    using reg anc that unfolding existing_alias_None_iff by blast
  have new: "s \<notin> nodes r \<and> (\<forall>k' \<in> nodes r. \<not> above s k') \<and>
      (\<forall>k' c'. (k', c') \<in> set (tree_commands r) \<longrightarrow> s \<notin> alias_paths k' c')" if "s \<in> alias_paths k c" for s
    using reg that unfolding k_def alias_paths_new [OF p] alias_conflict_None_iff existing_alias_None_iff
    by blast
  have cmd: "\<not> above k' k" if "(k', c') \<in> set (tree_commands r)" for k' c'
    using reg anc that by force
  have "set (hm_insert k c (tree_commands r)) = insert (k, c) (set (tree_commands r))"
    by (rule hm_insert_fresh) (rule fresh(1))
  moreover have "names_ok (insert (k, c) (set (tree_commands r))) (insert k (nodes r))"
    using r reg by (intro names_ok_insert_command names_ok_insert_node old cmd new) (auto simp: registry_ok_def)
  ultimately show ?thesis
    using reg r fresh by (auto simp: registry_ok_def nodes_insert_command hm_insert_wf)
qed

lemma register_group_ok:
  assumes r: "registry_ok r" and p: "path_ok p" and reg: "register_group p g r = Ok r'"
  shows "registry_ok r'"
proof -
  define k where "k = to_path_string p"
  note reg = reg [unfolded register_group_Ok_iff k_def [symmetric]]
  have anc: "s \<in> set (ancestors p)" if "above s k" for s
    using above_join [OF p] that by (simp add: k_def to_path_string_def)
  have fresh: "k \<notin> fst ` set (tree_commands r)" using reg by (auto simp: nodes_def)
  have old: "s \<noteq> k \<and> \<not> above s k" if "(k', c') \<in> set (tree_commands r)" "s \<in> alias_paths k' c'" for k' c' s
    using reg anc that unfolding existing_alias_None_iff by blast
  have cmd: "\<not> above k' k" if "(k', c') \<in> set (tree_commands r)" for k' c'
    using reg anc that by force
  have "names_ok (set (tree_commands r)) (insert k (nodes r))"
    using r by (intro names_ok_insert_node old cmd) (auto simp: registry_ok_def)
  then show ?thesis
    using reg r fresh by (auto simp: registry_ok_def nodes_insert_group hm_insert_wf hm_insert_keys)
qed

text \<open>
  The registries a program can build, with paths made by \<open>CommandPath::new\<close> or
  \<open>push\<close>; a failed call changes nothing.
\<close>

inductive registry_reachable :: "'c command_registry \<Rightarrow> bool" where
  reach_new: "registry_reachable registry_new"
| reach_at: "registry_reachable r \<Longrightarrow> path_ok p \<Longrightarrow> register_at p c r = Ok r' \<Longrightarrow> registry_reachable r'"
| reach_completion:
    "registry_reachable r \<Longrightarrow> path_ok p \<Longrightarrow> register_framework_completion_at p c r = Ok r' \<Longrightarrow>
     registry_reachable r'"
| reach_group: "registry_reachable r \<Longrightarrow> path_ok p \<Longrightarrow> register_group p g r = Ok r' \<Longrightarrow> registry_reachable r'"
| reach_order: "registry_reachable r \<Longrightarrow> registry_reachable (set_help_section_order ss r)"

lemma registry_ok_irrelevant [simp]:
  "registry_ok (r \<lparr> framework_completion_path := f \<rparr>) = registry_ok r"
  "registry_ok (r \<lparr> help_section_order := h \<rparr>) = registry_ok r"
  by (simp_all add: registry_ok_def nodes_def)

lemma registry_reachable_ok: "registry_reachable r \<Longrightarrow> registry_ok r"
proof (induction rule: registry_reachable.induct)
  case (reach_completion r p c r')
  then obtain r1 where "register_at p c r = Ok r1" "r' = r1 \<lparr> framework_completion_path := Some (to_path_string p) \<rparr>"
    by (auto simp: register_framework_completion_at_def and_then_Ok_iff)
  then show ?case using reach_completion register_at_ok by simp
qed (auto simp: registry_ok_new set_help_section_order_def intro: register_at_ok register_group_ok)

text \<open>
  C37. Names are unambiguous in every registry a program can build: two different commands share
  no name, neither path nor visible or hidden alias; no command and no alias of one is a group;
  and no command or group lies below a command, so a path never has two readings.
\<close>

theorem registry_unambiguous:
  assumes "registry_reachable r"
  shows "(\<forall>k c k' c'. (k, c) \<in> set (tree_commands r) \<and> (k', c') \<in> set (tree_commands r) \<and> k \<noteq> k' \<longrightarrow>
            insert k (alias_paths k c) \<inter> insert k' (alias_paths k' c') = {}) \<and>
         (\<forall>k c. (k, c) \<in> set (tree_commands r) \<longrightarrow>
            insert k (alias_paths k c) \<inter> fst ` set (groups r) = {} \<and> \<not> path_has_descendants r k)"
proof -
  have ok: "registry_ok r" using assms by (rule registry_reachable_ok)
  then have names: "names_ok (set (tree_commands r)) (nodes r)"
    and disj: "fst ` set (tree_commands r) \<inter> fst ` set (groups r) = {}"
    by (auto simp: registry_ok_def)
  have node: "k \<in> nodes r" if "(k, c) \<in> set (tree_commands r)" for k c
    using that by (force simp: nodes_def)
  have "insert k (alias_paths k c) \<inter> insert k' (alias_paths k' c') = {}"
    if "(k, c) \<in> set (tree_commands r)" "(k', c') \<in> set (tree_commands r)" "k \<noteq> k'" for k c k' c'
    using names_okD(2) [OF names that(1)] names_okD(2) [OF names that(2)] names_okD(3) [OF names that(1)]
      node [OF that(1)] node [OF that(2)] that by blast
  moreover have "insert k (alias_paths k c) \<inter> fst ` set (groups r) = {} \<and> \<not> path_has_descendants r k"
    if kc: "(k, c) \<in> set (tree_commands r)" for k c
  proof -
    have k: "k \<in> fst ` set (tree_commands r)" using kc by force
    have "g \<notin> insert k (alias_paths k c)" if "g \<in> fst ` set (groups r)" for g
      using names_okD(2) [OF names kc, of g g] that k disj by (auto simp: nodes_def)
    moreover have "\<not> path_has_descendants r k"
      using names_okD(1) [OF names kc] by (auto simp: path_has_descendants_iff)
    ultimately show ?thesis by blast
  qed
  ultimately show ?thesis by blast
qed

definition sample_command :: "string \<Rightarrow> string list \<Rightarrow> unit command" where
  "sample_command cid aliases =
     \<lparr> cmd_id = cid, cmd_spec = command_spec_default \<lparr> spec_aliases := aliases \<rparr>, cmd_validator = None,
       cmd_execute = (\<lambda>c _. (c, Ok ())), cmd_expose_mcp = False, cmd_expose_chat = True,
       cmd_meta = None, cmd_visibility = None \<rparr>"

definition sample_registry :: "unit command_registry" where
  "sample_registry =
     registry_new \<lparr> tree_commands :=
       [(''config/show'', sample_command ''show'' [''cat'']), (''config/set'', sample_command ''set'' [])] \<rparr>"

lemmas register_at_eval =
  register_at_def Let_def to_path_string_def command_ancestor_def ancestors_def path_has_descendants_def
  existing_alias_for_path_def existing_alias_ancestor_def alias_conflict_def qualified_alias_path_def
  all_aliases_def registry_new_def starts_with_def sample_command_def command_spec_default_def

lemma sample_registry_reachable: "registry_reachable sample_registry"
proof -
  define r1 where "r1 = registry_new \<lparr> tree_commands := [(''config/show'', sample_command ''show'' [''cat''])] \<rparr>"
  have "register_at [''config'', ''show''] (sample_command ''show'' [''cat'']) registry_new = Ok r1"
    by (simp add: r1_def register_at_eval)
  then have r1: "registry_reachable r1" by (rule reach_at [OF reach_new, rotated]) simp
  have "register_at [''config'', ''set''] (sample_command ''set'' []) r1 = Ok sample_registry"
    by (simp add: r1_def sample_registry_def register_at_eval)
  then show ?thesis by (rule reach_at [OF r1, rotated]) simp
qed

lemma disjoint_memD: "A \<inter> B = {} \<Longrightarrow> x \<in> A \<Longrightarrow> x \<notin> B"
  by blast

theorem registry_unambiguous_witness:
  "''config/cat'' \<in> alias_paths ''config/show'' (sample_command ''show'' [''cat'']) \<and>
   ''config/cat'' \<notin> insert ''config/set'' (alias_paths ''config/set'' (sample_command ''set'' [])) \<and>
   \<not> path_has_descendants sample_registry ''config/show''"
proof -
  have a: "''config/cat'' \<in> alias_paths ''config/show'' (sample_command ''show'' [''cat''])"
    by (simp add: alias_paths_def qualified_alias_path_def all_aliases_def sample_command_def
        command_spec_default_def)
  have in1: "(''config/show'', sample_command ''show'' [''cat'']) \<in> set (tree_commands sample_registry)"
    and in2: "(''config/set'', sample_command ''set'' []) \<in> set (tree_commands sample_registry)"
    by (simp_all add: sample_registry_def)
  note u = registry_unambiguous [OF sample_registry_reachable]
  have "''config/cat'' \<notin> insert ''config/set'' (alias_paths ''config/set'' (sample_command ''set'' []))"
    by (rule disjoint_memD [OF u [THEN conjunct1, rule_format, OF conjI, OF in1 conjI, OF in2]])
      (simp_all add: a)
  moreover have "\<not> path_has_descendants sample_registry ''config/show''"
    by (rule u [THEN conjunct2, rule_format, OF in1, THEN conjunct2])
  ultimately show ?thesis using a by (intro conjI)
qed

section \<open>Lookup after registration\<close>

lemma list_children_iff:
  "path_ok p \<Longrightarrow> q \<in> set (list_children r p) \<longleftrightarrow>
     (\<exists>seg. q = p @ [seg] \<and> seg \<noteq> [] \<and> CHR ''/'' \<notin> set seg \<and> reg_resolve r q \<noteq> None)"
proof -
  define prefix where "prefix = (if p = [] then [] else to_path_string p @ ''/'')"
  have join: "to_path_string (p @ [seg]) = prefix @ seg" for seg
    by (cases "p = []") (simp_all add: prefix_def to_path_string_def join_append)
  have "q \<in> set (list_children r p) \<longleftrightarrow>
      (\<exists>e \<in> set (tree_commands r). starts_with prefix (fst e) \<and>
         CHR ''/'' \<notin> set (drop (length prefix) (fst e)) \<and> drop (length prefix) (fst e) \<noteq> [] \<and>
         q = p @ [drop (length prefix) (fst e)])"
    unfolding list_children_def prefix_def [symmetric] Let_def in_map_filter_iff case_prod_beta
    by (auto split: if_splits)
  also have "\<dots> \<longleftrightarrow> (\<exists>seg c. (prefix @ seg, c) \<in> set (tree_commands r) \<and> CHR ''/'' \<notin> set seg \<and> seg \<noteq> [] \<and> q = p @ [seg])"
  proof safe
    fix key c assume e: "(key, c) \<in> set (tree_commands r)" "starts_with prefix (fst (key, c))"
    then obtain t where "key = prefix @ t" by (auto simp: starts_with_iff)
    moreover assume "CHR ''/'' \<notin> set (drop (length prefix) (fst (key, c)))"
      "drop (length prefix) (fst (key, c)) \<noteq> []"
    ultimately show "\<exists>seg c'. (prefix @ seg, c') \<in> set (tree_commands r) \<and> CHR ''/'' \<notin> set seg \<and>
        seg \<noteq> [] \<and> p @ [drop (length prefix) (fst (key, c))] = p @ [seg]"
      using e by auto
  next
    fix seg c assume "(prefix @ seg, c) \<in> set (tree_commands r)" "CHR ''/'' \<notin> set seg" "seg \<noteq> []"
    then show "\<exists>e \<in> set (tree_commands r). starts_with prefix (fst e) \<and>
        CHR ''/'' \<notin> set (drop (length prefix) (fst e)) \<and> drop (length prefix) (fst e) \<noteq> [] \<and>
        p @ [seg] = p @ [drop (length prefix) (fst e)]"
      by (intro bexI [of _ "(prefix @ seg, c)"]) (auto simp: starts_with_iff)
  qed
  also have "\<dots> \<longleftrightarrow> (\<exists>seg. q = p @ [seg] \<and> seg \<noteq> [] \<and> CHR ''/'' \<notin> set seg \<and> reg_resolve r q \<noteq> None)"
    unfolding reg_resolve_def hm_contains_iff by (force simp: join)
  finally show ?thesis .
qed

lemma reg_resolve_after:
  "register_at p c r = Ok r' \<Longrightarrow>
     reg_resolve r' q = (if to_path_string q = to_path_string p then Some c else reg_resolve r q)"
  by (auto simp: register_at_Ok_iff reg_resolve_def)

lemma path_string_inj: "path_ok p \<Longrightarrow> path_ok q \<Longrightarrow> p \<noteq> [] \<Longrightarrow> q \<noteq> [] \<Longrightarrow> to_path_string p = to_path_string q \<Longrightarrow> p = q"
  unfolding to_path_string_def by (metis split_join)

text \<open>
  Registration is an insertion into a map keyed by paths: after \<open>register_at\<close> succeeds,
  \<open>resolve\<close> finds the command at its path and at every other path what it found before; the
  label of the path is known; and \<open>list_children\<close> lists a new child of the parent of
  the path and of no other path.
\<close>

theorem register_at_inserts:
  assumes "register_at (p @ [seg]) c r = Ok r'" "path_ok (p @ [seg])" "seg \<noteq> []"
  shows "reg_resolve r' (p @ [seg]) = Some c \<and>
         registered_command_label r' (p @ [seg]) = Some (str_join '' '' (p @ [seg])) \<and>
         (\<forall>q. path_ok q \<and> q \<noteq> [] \<and> q \<noteq> p @ [seg] \<longrightarrow> reg_resolve r' q = reg_resolve r q) \<and>
         set (list_children r' p) = insert (p @ [seg]) (set (list_children r p)) \<and>
         (\<forall>q. path_ok q \<and> q \<noteq> p \<longrightarrow> set (list_children r' q) = set (list_children r q))"
proof -
  have here: "reg_resolve r' (p @ [seg]) = Some c"
    using reg_resolve_after [OF assms(1)] by simp
  have other: "reg_resolve r' q = reg_resolve r q" if "path_ok q" "q \<noteq> []" "q \<noteq> p @ [seg]" for q
    using reg_resolve_after [OF assms(1), of q] path_string_inj [OF that(1) assms(2) that(2)] that(3) by auto
  have children: "set (list_children r' q) = (if q = p then insert (p @ [seg]) else id) (set (list_children r q))"
    if q: "path_ok q" for q
  proof (rule set_eqI)
    fix x
    show "x \<in> set (list_children r' q) \<longleftrightarrow>
        x \<in> (if q = p then insert (p @ [seg]) else id) (set (list_children r q))"
    proof (cases "x = p @ [seg]")
      case True
      then show ?thesis using here assms(2,3) q by (auto simp: list_children_iff)
    next
      case False
      have "reg_resolve r' (q @ [s]) = reg_resolve r (q @ [s])" if "x = q @ [s]" "CHR ''/'' \<notin> set s" for s
        using other [of "q @ [s]"] q that False by auto
      then show ?thesis using False q by (auto simp: list_children_iff)
    qed
  qed
  have "path_ok p" using assms(2) by simp
  then show ?thesis
    using here other children [of p] by (simp add: registered_command_label_def children)
qed

theorem register_at_inserts_witness:
  "\<exists>r'. register_at ([''config''] @ [''get'']) (sample_command ''get'' []) sample_registry = Ok r' \<and>
     map_option cmd_id (reg_resolve r' [''config'', ''get'']) = Some ''get'' \<and>
     [''config'', ''get''] \<in> set (list_children r' [''config''])"
proof -
  obtain r' where r: "register_at ([''config''] @ [''get'']) (sample_command ''get'' []) sample_registry = Ok r'"
    by (simp add: sample_registry_def register_at_eval)
  from register_at_inserts [OF this] have
    "reg_resolve r' [''config'', ''get''] = Some (sample_command ''get'' [])"
    "[''config'', ''get''] \<in> set (list_children r' [''config''])"
    by simp_all
  then show ?thesis using r by (simp add: sample_command_def)
qed

end
