(* ===== verification/Telemetry_Commands.thy ===== *)
theory Telemetry_Commands
  imports Telemetry_Startup Command_Registry
begin

text \<open>
  The built-in \<open>telemetry\<close> commands of an end-user application
  (\<open>src/telemetry/commands.rs\<close>): \<open>status\<close>, \<open>set\<close>, \<open>info\<close>, \<open>disable\<close>, \<open>enable\<close> and
  \<open>reset\<close>, from the functions on the store to the commands a registry gets.

  A command runs in a context of the process's files, the lines printed and the diagnostics
  reported. The process environment, the operating system and the JSON printer of a report
  are the record \<open>command_world\<close>. A value printed with \<open>{:?}\<close> is kept between quotes, without
  escapes.
\<close>

section \<open>Reports and errors\<close>

record probe_status =
  pst_id :: string
  pst_min_level :: string
  pst_enabled :: bool
  pst_effective :: bool
  pst_summary :: string

record status_report =
  rep_level :: string
  rep_level_source :: string
  rep_attribution :: string
  rep_install_id :: "string option"
  rep_endpoint :: "string option"
  rep_endpoint_source :: "string option"
  rep_policy :: string
  rep_kill_switch :: "string option"
  rep_probes :: "probe_status list"
  rep_store :: string

datatype set_outcome = Applied | AppliedButClamped telemetry_level string

datatype telemetry_command_error =
    StoreUnavailable string
  | UnknownProbe string
  | WriteError config_error

definition map_store_error :: "config_error \<Rightarrow> telemetry_command_error" where
  "map_store_error e = (case e of ReadOnly backend \<Rightarrow> StoreUnavailable backend | _ \<Rightarrow> WriteError e)"

fun layer_label :: "layer \<Rightarrow> string" where
  "layer_label LDefault = ''default''"
| "layer_label LRecommended = ''recommended''"
| "layer_label LConfigFile = ''config_file''"
| "layer_label LEnvironment = ''environment''"
| "layer_label LFlags = ''flags''"
| "layer_label LBuilderOverride = ''builder_override''"
| "layer_label LEnforced = ''enforced''"

definition policy_line :: "telemetry_policy \<Rightarrow> string" where
  "policy_line p =
     (if tp_level_source p = LEnforced then ''organisation policy: enforced''
      else ''organisation policy: not managed'')"

section \<open>The store functions\<close>

text \<open>The catalog the commands read; \<open>with_builtins\<close> does not fail (\<open>builtin_catalog_valid\<close>).\<close>

definition builtin_registry :: probe_registry where
  "builtin_registry = (case with_builtins of Ok r \<Rightarrow> r | Err _ \<Rightarrow> [])"

definition build_policy :: "(string \<Rightarrow> string option) \<Rightarrow> 't codec \<Rightarrow> string \<Rightarrow> telemetry_store \<Rightarrow> telemetry_policy" where
  "build_policy env cd app store =
     (let s = store_settings cd store
      in resolve_policy
           \<lparr> ti_app = app, ti_deployment = EndUser None,
             ti_level = \<lparr> ll_recommended = None, ll_config_file = ts_level s, ll_environment = None,
                          ll_builder_override = None \<rparr>,
             ti_policy_name = None, ti_endpoint = ts_endpoint s,
             ti_endpoint_source = map_option (\<lambda>_. LConfigFile) (ts_endpoint s),
             ti_attribution = (case ts_attribution s of Some a \<Rightarrow> a | None \<Rightarrow> Pseudonymous),
             ti_install_id = ts_install_id s, ti_session_id = [], ti_kill_switch = detect_kill_switch app env,
             ti_registry = builtin_registry,
             ti_disabled_probes = {i. (i, False) \<in> set (ts_probes s)},
             ti_store_available = is_ready (tst_state store), ti_store_error = store_reason (tst_state store),
             ti_app_attr_allowlist = [], ti_extra_never = [], ti_sample_ratio = F_fin 0, ti_headers = None \<rparr>)"

definition probe_status_of :: "telemetry_policy \<Rightarrow> probe_spec \<Rightarrow> probe_status" where
  "probe_status_of p spec =
     \<lparr> pst_id = ps_id spec, pst_min_level = level_as_str (ps_min_level spec),
       pst_enabled = (ps_id spec \<notin> tp_disabled_probes p), pst_effective = policy_effective p (ps_id spec),
       pst_summary = ps_summary spec \<rparr>"

definition make_status_report :: "telemetry_policy \<Rightarrow> store_state \<Rightarrow> status_report" where
  "make_status_report p store =
     \<lparr> rep_level = level_as_str (tp_level p), rep_level_source = layer_label (tp_level_source p),
       rep_attribution = attribution_as_str (tp_attribution p), rep_install_id = tp_install_id p,
       rep_endpoint = tp_endpoint p, rep_endpoint_source = map_option layer_label (tp_endpoint_source p),
       rep_policy = policy_line p,
       rep_kill_switch = map_option (\<lambda>k. kill_switch_env_var k (tp_app p)) (tp_kill_switch p),
       rep_probes = map (probe_status_of p) (tp_registry p), rep_store = store_describe store \<rparr>"

definition set_level ::
  "(string \<Rightarrow> string option) \<Rightarrow> 't codec \<Rightarrow> telemetry_store \<Rightarrow> string \<Rightarrow> telemetry_level \<Rightarrow>
   (telemetry_command_error + set_outcome) \<times> telemetry_store" where
  "set_level env cd store app level =
     (case mutate cd (\<lambda>s. s\<lparr>ts_level := Some level\<rparr>) store of
        (Err e, store') \<Rightarrow> (Err (map_store_error e), store')
      | (Ok _, store') \<Rightarrow>
          (case detect_kill_switch app env of
             Some switch \<Rightarrow>
               (Ok (AppliedButClamped TL_Off
                  (''the '' @ kill_switch_env_var switch app @
                   '' environment variable is set; telemetry stays off regardless of the '' @
                   ''configured level'')), store')
           | None \<Rightarrow> (Ok Applied, store')))"

definition switch_stored ::
  "'t codec \<Rightarrow> (telemetry_settings \<Rightarrow> telemetry_settings) \<Rightarrow> telemetry_store \<Rightarrow> probe_registry \<Rightarrow> string \<Rightarrow>
   (telemetry_command_error + unit) \<times> telemetry_store" where
  "switch_stored cd f store r probe =
     (if \<not> probe_contains r probe then (Err (UnknownProbe probe), store)
      else (case mutate cd f store of
              (Err e, store') \<Rightarrow> (Err (map_store_error e), store')
            | (Ok _, store') \<Rightarrow> (Ok (), store')))"

definition disable_probe ::
  "'t codec \<Rightarrow> telemetry_store \<Rightarrow> probe_registry \<Rightarrow> string \<Rightarrow> (telemetry_command_error + unit) \<times> telemetry_store" where
  "disable_probe cd store r probe =
     switch_stored cd (\<lambda>s. s\<lparr>ts_probes := bm_insert probe False (ts_probes s)\<rparr>) store r probe"

definition enable_probe ::
  "'t codec \<Rightarrow> telemetry_store \<Rightarrow> probe_registry \<Rightarrow> string \<Rightarrow> (telemetry_command_error + unit) \<times> telemetry_store" where
  "enable_probe cd store r probe =
     switch_stored cd (\<lambda>s. s\<lparr>ts_probes := bm_remove probe (ts_probes s)\<rparr>) store r probe"

definition reset_store :: "string option \<Rightarrow> telemetry_store \<Rightarrow> (telemetry_command_error + unit) \<times> telemetry_store" where
  "reset_store rm store = (case store_reset rm store of (r, store') \<Rightarrow> (map_err map_store_error r, store'))"

section \<open>Texts\<close>

definition probe_state :: "bool \<Rightarrow> bool \<Rightarrow> string" where
  "probe_state enabled active =
     (if \<not> enabled then ''disabled''
      else if active then ''effective'' else ''enabled, not currently effective'')"

definition newline :: string where
  "newline = [char_of (10 :: nat)]"

definition render_status_text :: "status_report \<Rightarrow> string" where
  "render_status_text r =
     str_join newline
       ([''telemetry level: '' @ rep_level r @ '' (source: '' @ rep_level_source r @ '')''] @
        (case rep_kill_switch r of
           Some s \<Rightarrow> [''kill switch: '' @ s @ '' (forces the effective level to off)''] | None \<Rightarrow> []) @
        [case rep_endpoint r of
           Some e \<Rightarrow> ''endpoint: '' @ e @ '' (source: '' @
             (case rep_endpoint_source r of Some s \<Rightarrow> s | None \<Rightarrow> ''unknown'') @ '')''
         | None \<Rightarrow> ''endpoint: none configured; nothing exports'',
         ''attribution: '' @ rep_attribution r,
         case rep_install_id r of Some i \<Rightarrow> ''install id: '' @ i | None \<Rightarrow> ''install id: none (anonymous)'',
         rep_policy r, ''settings file: '' @ rep_store r, ''probes:''] @
        map (\<lambda>p. ''  '' @ pst_id p @ '' (min level '' @ pst_min_level p @ ''): '' @
               probe_state (pst_enabled p) (pst_effective p) @ '' -- '' @ pst_summary p) (rep_probes r))"

record probe_info =
  pin_status :: probe_status
  pin_sends :: string

definition info_catalog :: "telemetry_policy \<Rightarrow> probe_info list" where
  "info_catalog p = map (\<lambda>spec. \<lparr> pin_status = probe_status_of p spec, pin_sends = ps_sends spec \<rparr>) (tp_registry p)"

definition render_info_text :: "probe_info list \<Rightarrow> string" where
  "render_info_text catalog =
     str_join newline
       ([''telemetry probe catalog:''] @
        map (\<lambda>i. let p = pin_status i in
               ''  '' @ pst_id p @ '' (min level '' @ pst_min_level p @ ''): '' @
               probe_state (pst_enabled p) (pst_effective p) @ '' -- '' @ pst_summary p @ newline @
               ''    sends: '' @ pin_sends i) catalog)"

section \<open>The commands\<close>

definition TEL001 :: string where "TEL001 = ''TEL001''"
definition TEL002 :: string where "TEL002 = ''TEL002''"
definition TEL003 :: string where "TEL003 = ''TEL003''"

record telemetry_ctx =
  tc_files :: file_backend_state
  tc_output :: "string list"
  tc_diagnostics :: "diagnostic list"

record command_world =
  cw_env :: "string \<Rightarrow> string option"
  cw_config_dir :: "path option"
  cw_io :: io_faults
  cw_pid :: u64
  cw_remove :: "string option"
  cw_status_json :: "status_report \<Rightarrow> string"
  cw_info_json :: "probe_info list \<Rightarrow> string"
  cw_config_error :: "config_error \<Rightarrow> string"

definition command_error_text :: "command_world \<Rightarrow> telemetry_command_error \<Rightarrow> string" where
  "command_error_text w e =
     (case e of
        StoreUnavailable reason \<Rightarrow> ''telemetry store unavailable: '' @ reason
      | UnknownProbe i \<Rightarrow>
          ''unknown probe '' @ [CHR 0x22] @ i @ [CHR 0x22] @ ''; run `telemetry info` to see the full catalog''
      | WriteError c \<Rightarrow> cw_config_error w c)"

definition command_error_code :: "telemetry_command_error \<Rightarrow> string" where
  "command_error_code e = (case e of UnknownProbe _ \<Rightarrow> TEL002 | _ \<Rightarrow> TEL003)"

definition ctx_say :: "string \<Rightarrow> telemetry_ctx \<Rightarrow> telemetry_ctx" where
  "ctx_say line ctx = ctx\<lparr>tc_output := tc_output ctx @ [line]\<rparr>"

definition fail :: "string \<Rightarrow> string \<Rightarrow> telemetry_ctx \<Rightarrow> telemetry_ctx \<times> (string + unit)" where
  "fail code message ctx =
     (ctx\<lparr>tc_diagnostics := tc_diagnostics ctx @
        [\<lparr> diag_code = code, diag_category = DC_Validation, diag_message = Text ''{}'' [FStr message],
           diag_suggestion = None, diag_span = None \<rparr>]\<rparr>, Err code)"

definition json_flag_arg :: "string \<Rightarrow> arg_spec" where
  "json_flag_arg text =
     arg_spec_default\<lparr>arg_name := ''json'', arg_kind := AK_Flag, arg_long := Some ''json'',
       arg_value_type := VT_Bool, arg_cardinality := Optional, arg_default := Some (AV_Bool False), arg_help := text\<rparr>"

definition wants_json :: "typed_args \<Rightarrow> bool" where
  "wants_json args \<longleftrightarrow> map_of args ''json'' = Some (AV_Bool True)"

definition open_store :: "command_world \<Rightarrow> telemetry_store_location \<Rightarrow> string \<Rightarrow> telemetry_ctx \<Rightarrow> telemetry_store" where
  "open_store w loc app ctx = location_open (cw_io w) (cw_pid w) (cw_config_dir w) loc app (tc_files ctx)"

text \<open>The files after a command worked on the store it opened.\<close>

definition keep_files :: "telemetry_store \<Rightarrow> telemetry_ctx \<Rightarrow> telemetry_ctx" where
  "keep_files store ctx = ctx\<lparr>tc_files := store_files (tc_files ctx) (Some store)\<rparr>"

definition exec_status ::
  "command_world \<Rightarrow> 't codec \<Rightarrow> string \<Rightarrow> telemetry_store_location \<Rightarrow> telemetry_ctx \<Rightarrow> typed_args \<Rightarrow>
   telemetry_ctx \<times> (string + unit)" where
  "exec_status w cd app loc ctx args =
     (let store = open_store w loc app ctx;
          report = make_status_report (build_policy (cw_env w) cd app store) (tst_state store)
      in (ctx_say (if wants_json args then cw_status_json w report else render_status_text report) ctx, Ok ()))"

definition exec_info ::
  "command_world \<Rightarrow> 't codec \<Rightarrow> string \<Rightarrow> telemetry_store_location \<Rightarrow> telemetry_ctx \<Rightarrow> typed_args \<Rightarrow>
   telemetry_ctx \<times> (string + unit)" where
  "exec_info w cd app loc ctx args =
     (let catalog = info_catalog (build_policy (cw_env w) cd app (open_store w loc app ctx))
      in (ctx_say (if wants_json args then cw_info_json w catalog else render_info_text catalog) ctx, Ok ()))"

definition exec_set ::
  "command_world \<Rightarrow> 't codec \<Rightarrow> string \<Rightarrow> telemetry_store_location \<Rightarrow> telemetry_ctx \<Rightarrow> typed_args \<Rightarrow>
   telemetry_ctx \<times> (string + unit)" where
  "exec_set w cd app loc ctx args =
     (case (case map_of args ''level'' of Some (AV_Enum s) \<Rightarrow> Some s | Some (AV_Str s) \<Rightarrow> Some s | _ \<Rightarrow> None) of
        None \<Rightarrow> fail TEL001 ''a level is required: one of off, usage, diagnostic, debug'' ctx
      | Some s \<Rightarrow>
          (case level_from_str s of
             Err _ \<Rightarrow>
               fail TEL001 ([CHR 0x22] @ s @ [CHR 0x22] @ '' is not a valid telemetry level; valid levels are: '' @
                 ''off, usage, diagnostic, debug'') ctx
           | Ok level \<Rightarrow>
               (case set_level (cw_env w) cd (open_store w loc app ctx) app level of
                  (Ok Applied, store) \<Rightarrow>
                    (ctx_say (''telemetry level set to '' @ level_as_str level) (keep_files store ctx), Ok ())
                | (Ok (AppliedButClamped eff reason), store) \<Rightarrow>
                    (ctx_say (''telemetry level saved as '' @ level_as_str level @ '', but the effective level is '' @
                       level_as_str eff @ '': '' @ reason) (keep_files store ctx), Ok ())
                | (Err e, store) \<Rightarrow> fail TEL003 (command_error_text w e) (keep_files store ctx))))"

definition exec_switch ::
  "('t codec \<Rightarrow> telemetry_store \<Rightarrow> probe_registry \<Rightarrow> string \<Rightarrow> (telemetry_command_error + unit) \<times> telemetry_store) \<Rightarrow>
   string \<Rightarrow> command_world \<Rightarrow> 't codec \<Rightarrow> string \<Rightarrow> telemetry_store_location \<Rightarrow> telemetry_ctx \<Rightarrow> typed_args \<Rightarrow>
   telemetry_ctx \<times> (string + unit)" where
  "exec_switch act done_text w cd app loc ctx args =
     (case map_of args ''probe_id'' of
        Some (AV_Str i) \<Rightarrow>
          (case act cd (open_store w loc app ctx) builtin_registry i of
             (Ok _, store) \<Rightarrow> (ctx_say (''probe '' @ i @ done_text) (keep_files store ctx), Ok ())
           | (Err e, store) \<Rightarrow> fail (command_error_code e) (command_error_text w e) (keep_files store ctx))
      | _ \<Rightarrow> fail TEL001 ''a probe id is required'' ctx)"

definition exec_disable ::
  "command_world \<Rightarrow> 't codec \<Rightarrow> string \<Rightarrow> telemetry_store_location \<Rightarrow> telemetry_ctx \<Rightarrow> typed_args \<Rightarrow>
   telemetry_ctx \<times> (string + unit)" where
  "exec_disable = exec_switch disable_probe '' disabled''"

definition exec_enable ::
  "command_world \<Rightarrow> 't codec \<Rightarrow> string \<Rightarrow> telemetry_store_location \<Rightarrow> telemetry_ctx \<Rightarrow> typed_args \<Rightarrow>
   telemetry_ctx \<times> (string + unit)" where
  "exec_enable = exec_switch enable_probe '' enabled''"

definition exec_reset ::
  "command_world \<Rightarrow> 't codec \<Rightarrow> string \<Rightarrow> telemetry_store_location \<Rightarrow> telemetry_ctx \<Rightarrow> typed_args \<Rightarrow>
   telemetry_ctx \<times> (string + unit)" where
  "exec_reset w cd app loc ctx args =
     (case reset_store (cw_remove w) (open_store w loc app ctx) of
        (Ok _, store) \<Rightarrow>
          (ctx_say (''telemetry settings deleted; the next run starts over as a new '' @
             ''install, with a new id'') (keep_files store ctx), Ok ())
      | (Err e, store) \<Rightarrow> fail TEL003 (command_error_text w e) (keep_files store ctx))"

definition exit_entry :: "int \<Rightarrow> string \<Rightarrow> exit_code_entry" where
  "exit_entry code d = \<lparr> exit_code = code, exit_description = d \<rparr>"

definition telemetry_command ::
  "string \<Rightarrow> string \<Rightarrow> arg_spec list \<Rightarrow> exit_code_entry list \<Rightarrow>
   (telemetry_ctx \<Rightarrow> typed_args \<Rightarrow> telemetry_ctx \<times> (string + unit)) \<Rightarrow> telemetry_ctx command" where
  "telemetry_command name summary args exits exec =
     \<lparr> cmd_id = name,
       cmd_spec = command_spec_default\<lparr>spec_summary := summary, spec_category := Some ''Telemetry'',
                    spec_args := args, spec_exit_codes := exits\<rparr>,
       cmd_validator = None, cmd_execute = exec, cmd_expose_mcp = False, cmd_expose_chat = False,
       cmd_meta = None, cmd_visibility = Some [''app''] \<rparr>"

definition build_status_command :: "command_world \<Rightarrow> 't codec \<Rightarrow> string \<Rightarrow> telemetry_store_location \<Rightarrow> telemetry_ctx command" where
  "build_status_command w cd app loc =
     telemetry_command ''status'' ''Show the resolved telemetry level, attribution, and probe states''
       [json_flag_arg ''Print the status as JSON instead of a human-readable summary'']
       [exit_entry 0 ''Status printed''] (exec_status w cd app loc)"

definition build_set_command :: "command_world \<Rightarrow> 't codec \<Rightarrow> string \<Rightarrow> telemetry_store_location \<Rightarrow> telemetry_ctx command" where
  "build_set_command w cd app loc =
     telemetry_command ''set'' ''Set the telemetry level (off, usage, diagnostic, or debug)''
       [arg_spec_default\<lparr>arg_name := ''level'', arg_kind := AK_Positional,
          arg_value_type := VT_Enum [''off'', ''usage'', ''diagnostic'', ''debug''], arg_cardinality := Required,
          arg_help := ''The telemetry level to apply: off, usage, diagnostic, or debug''\<rparr>]
       [exit_entry 0 ''Level applied (possibly clamped by a kill switch)'',
        exit_entry 1 ''The level was invalid, or the settings file could not be written'']
       (exec_set w cd app loc)"

definition build_info_command :: "command_world \<Rightarrow> 't codec \<Rightarrow> string \<Rightarrow> telemetry_store_location \<Rightarrow> telemetry_ctx command" where
  "build_info_command w cd app loc =
     telemetry_command ''info'' ''List every telemetry probe this build can emit, and what it sends''
       [json_flag_arg ''Print the catalog as JSON instead of a human-readable list'']
       [exit_entry 0 ''Catalog printed''] (exec_info w cd app loc)"

definition probe_id_arg :: "string \<Rightarrow> arg_spec" where
  "probe_id_arg text =
     arg_spec_default\<lparr>arg_name := ''probe_id'', arg_kind := AK_Positional, arg_value_type := VT_String,
       arg_cardinality := Required, arg_help := text\<rparr>"

definition build_disable_command :: "command_world \<Rightarrow> 't codec \<Rightarrow> string \<Rightarrow> telemetry_store_location \<Rightarrow> telemetry_ctx command" where
  "build_disable_command w cd app loc =
     telemetry_command ''disable'' ''Disable one probe id (and, implicitly, everything under it)''
       [probe_id_arg ''The probe id to disable, e.g. cli.command.arg_values'']
       [exit_entry 0 ''Probe disabled'', exit_entry 1 ''Unknown probe id, or the settings file could not be written'']
       (exec_disable w cd app loc)"

definition build_enable_command :: "command_world \<Rightarrow> 't codec \<Rightarrow> string \<Rightarrow> telemetry_store_location \<Rightarrow> telemetry_ctx command" where
  "build_enable_command w cd app loc =
     telemetry_command ''enable'' ''Re-enable one probe id''
       [probe_id_arg ''The probe id to re-enable, e.g. cli.command.arg_values'']
       [exit_entry 0 ''Probe enabled'', exit_entry 1 ''Unknown probe id, or the settings file could not be written'']
       (exec_enable w cd app loc)"

definition build_reset_command :: "command_world \<Rightarrow> 't codec \<Rightarrow> string \<Rightarrow> telemetry_store_location \<Rightarrow> telemetry_ctx command" where
  "build_reset_command w cd app loc =
     telemetry_command ''reset'' ''Delete the stored telemetry settings and start over as a new install'' []
       [exit_entry 0 ''Settings reset'', exit_entry 1 ''The settings file could not be deleted'']
       (exec_reset w cd app loc)"

definition register_telemetry_commands ::
  "command_world \<Rightarrow> 't codec \<Rightarrow> string \<Rightarrow> telemetry_store_location \<Rightarrow> telemetry_ctx command_registry \<Rightarrow>
   registration_error + telemetry_ctx command_registry" where
  "register_telemetry_commands w cd app loc r =
     and_then (register_group [''telemetry'']
       \<lparr> group_summary = ''Inspect and control this application's telemetry'', group_hidden = False,
         group_category = None, group_help_order = None \<rparr> r)
     (fold_results (\<lambda>(name, c). register_at [''telemetry'', name] c)
       [(''status'', build_status_command w cd app loc), (''set'', build_set_command w cd app loc),
        (''info'', build_info_command w cd app loc), (''disable'', build_disable_command w cd app loc),
        (''enable'', build_enable_command w cd app loc), (''reset'', build_reset_command w cd app loc)])"

section \<open>What the commands store\<close>

abbreviation stored_by :: "command_world \<Rightarrow> 't codec \<Rightarrow> telemetry_store_location \<Rightarrow> string \<Rightarrow> telemetry_ctx \<Rightarrow> telemetry_settings" where
  "stored_by w cd loc app ctx \<equiv> store_settings cd (open_store w loc app ctx)"

lemma open_store_same [simp]:
  "open_store w loc app (ctx_say l ctx) = open_store w loc app ctx"
  by (simp add: open_store_def ctx_say_def)

lemma open_store_facts:
  "store_ok (cw_io w) (cw_pid w) (open_store w loc app ctx)"
  "codec_faithful cd (tl_format loc) \<Longrightarrow> store_faithful cd (open_store w loc app ctx)"
  unfolding open_store_def
  by (simp add: open_ok) (auto simp: store_faithful_def location_open_def open_with_format_def open_at_with_format_def
      config_store_new_def Let_def split: option.splits)

lemma kept_files:
  "same_store (open_store w loc app ctx) st \<Longrightarrow> stored_by w cd loc app (keep_files st ctx) = store_settings cd st"
  unfolding open_store_def keep_files_def by (simp add: reopened)

lemma mutate_kept:
  assumes "codec_faithful cd (tl_format loc)" "io_read (cw_io w) = None"
    and m: "mutate cd f (open_store w loc app ctx) = (r, st)"
  shows "stored_by w cd loc app (keep_files st ctx) =
     (case r of Ok _ \<Rightarrow> stamped (f (stored_by w cd loc app ctx)) | Err _ \<Rightarrow> stored_by w cd loc app ctx)"
  using mutate_spec [OF open_store_facts(1) open_store_facts(2) [OF assms(1)] assms(2) m]
  unfolding kept_files [OF mutate_same [OF m]] by (cases r) auto

lemma failD: "(ctx', r) = fail c m ctx \<Longrightarrow> r = Err c \<and> open_store w loc app ctx' = open_store w loc app ctx"
  by (auto simp: fail_def open_store_def)

text \<open>The two probe switches share their shape.\<close>

lemma exec_switch_stores:
  assumes "codec_faithful cd (tl_format loc)" "io_read (cw_io w) = None"
    and act: "\<And>st i. act cd st builtin_registry i = switch_stored cd (f i) st builtin_registry i"
    and e: "exec_switch act txt' w cd app loc ctx args = (ctx', r)"
  shows "case r of
      Ok _ \<Rightarrow> (\<exists>i. map_of args ''probe_id'' = Some (AV_Str i) \<and> probe_contains builtin_registry i \<and>
                 stored_by w cd loc app ctx' = stamped (f i (stored_by w cd loc app ctx)))
    | Err _ \<Rightarrow> stored_by w cd loc app ctx' = stored_by w cd loc app ctx"
proof (cases "\<exists>i. map_of args ''probe_id'' = Some (AV_Str i)")
  case False
  then have "(ctx', r) = fail TEL001 ''a probe id is required'' ctx"
    using e by (auto simp: exec_switch_def split: option.splits arg_value.splits)
  from failD [OF this] show ?thesis by simp
next
  case True
  then obtain i where i: "map_of args ''probe_id'' = Some (AV_Str i)" by blast
  let ?st = "open_store w loc app ctx"
  obtain r1 st where a: "switch_stored cd (f i) ?st builtin_registry i = (r1, st)" by fastforce
  have stored: "stored_by w cd loc app (keep_files st ctx) =
      (case r1 of Ok _ \<Rightarrow> stamped (f i (stored_by w cd loc app ctx)) | Err _ \<Rightarrow> stored_by w cd loc app ctx)"
    and known: "\<And>u. r1 = Ok u \<Longrightarrow> probe_contains builtin_registry i"
  proof -
    show "stored_by w cd loc app (keep_files st ctx) =
        (case r1 of Ok _ \<Rightarrow> stamped (f i (stored_by w cd loc app ctx)) | Err _ \<Rightarrow> stored_by w cd loc app ctx)"
      using a mutate_kept [OF assms(1,2), of "f i" app ctx] kept_files [of w loc app ctx ?st cd]
      by (auto simp: switch_stored_def split: if_splits prod.splits sum.splits)
    show "\<And>u. r1 = Ok u \<Longrightarrow> probe_contains builtin_registry i"
      using a by (auto simp: switch_stored_def split: if_splits)
  qed
  show ?thesis
  proof (cases r1)
    case (Inl err)
    then have "(ctx', r) = fail (command_error_code err) (command_error_text w err) (keep_files st ctx)"
      using e i a by (simp add: exec_switch_def act)
    from failD [OF this] show ?thesis using stored Inl by simp
  next
    case (Inr u)
    then have "ctx' = ctx_say (''probe '' @ i @ txt') (keep_files st ctx)" "r = Ok ()"
      using e i a by (simp_all add: exec_switch_def act)
    then show ?thesis using stored Inr known i by simp
  qed
qed

lemma exec_set_stores:
  assumes "codec_faithful cd (tl_format loc)" "io_read (cw_io w) = None"
    and e: "exec_set w cd app loc ctx args = (ctx', r)"
  shows "case r of
      Ok _ \<Rightarrow> (\<exists>l. map_of args ''level'' \<in> {Some (AV_Enum (level_as_str l)), Some (AV_Str (level_as_str l))} \<and>
                 stored_by w cd loc app ctx' = stamped ((stored_by w cd loc app ctx)\<lparr>ts_level := Some l\<rparr>))
    | Err _ \<Rightarrow> stored_by w cd loc app ctx' = stored_by w cd loc app ctx"
proof -
  define given where "given = (case map_of args ''level'' of Some (AV_Enum s) \<Rightarrow> Some s | Some (AV_Str s) \<Rightarrow> Some s | _ \<Rightarrow> None)"
  consider m where "(ctx', r) = fail TEL001 m ctx" | s l where "given = Some s" "level_from_str s = Ok l"
  proof (cases given)
    case None
    then show ?thesis
      using e that(1) unfolding exec_set_def given_def [symmetric] by (simp only: option.case) metis
  next
    case (Some s)
    then show ?thesis
      using e that unfolding exec_set_def given_def [symmetric]
      by (cases "level_from_str s") (simp only: option.case sum.case, metis)+
  qed
  then show ?thesis
  proof cases
    case 1
    from failD [OF this] show ?thesis by simp
  next
    case (2 s l)
    obtain r1 st where m: "mutate cd (\<lambda>s. s\<lparr>ts_level := Some l\<rparr>) (open_store w loc app ctx) = (r1, st)" by fastforce
    note kept = mutate_kept [OF assms(1,2) m]
    have arg: "map_of args ''level'' \<in> {Some (AV_Enum (level_as_str l)), Some (AV_Str (level_as_str l))}"
      using 2 by (auto simp: given_def level_str_roundtrip split: option.splits arg_value.splits)
    show ?thesis
    proof (cases r1)
      case (Inl err)
      then have "(ctx', r) = fail TEL003 (command_error_text w (map_store_error err)) (keep_files st ctx)"
        using e 2 m unfolding exec_set_def given_def [symmetric] by (simp add: set_level_def)
      from failD [OF this] show ?thesis using kept Inl by simp
    next
      case (Inr s1)
      then have "\<exists>t. ctx' = ctx_say t (keep_files st ctx)" "r = Ok ()"
        using e 2 m unfolding exec_set_def given_def [symmetric]
        by (auto simp: set_level_def split: option.splits)
      then show ?thesis using kept Inr arg by auto
    qed
  qed
qed

lemma exec_reset_stores:
  assumes e: "exec_reset w cd app loc ctx args = (ctx', r)"
  shows "case r of
      Ok _ \<Rightarrow> stored_by w cd loc app ctx' = stamped telemetry_settings_default
    | Err _ \<Rightarrow> stored_by w cd loc app ctx' = stored_by w cd loc app ctx"
proof -
  let ?st = "open_store w loc app ctx"
  obtain r1 st where rs: "store_reset (cw_remove w) ?st = (r1, st)" by fastforce
  then have same: "same_store ?st st"
    by (auto simp: store_reset_def same_store_def Let_def option.rel_refl
        split: option.splits store_state.splits prod.splits if_splits)
  have "case r1 of Ok _ \<Rightarrow> store_reset None ?st = (Ok (), st) | Err _ \<Rightarrow> st = ?st"
    using rs by (auto simp: store_reset_def Let_def split: option.splits store_state.splits prod.splits if_splits)
  then have stored: "stored_by w cd loc app (keep_files st ctx) =
      (case r1 of Ok _ \<Rightarrow> stamped telemetry_settings_default | Err _ \<Rightarrow> stored_by w cd loc app ctx)"
    using reset_forgets [OF open_store_facts(1) [of w loc app ctx], of cd] kept_files [OF same, of cd]
    by (cases r1) auto
  show ?thesis
  proof (cases r1)
    case (Inl err)
    then have "(ctx', r) = fail TEL003 (command_error_text w (map_store_error err)) (keep_files st ctx)"
      using e rs by (simp add: exec_reset_def reset_store_def)
    from failD [OF this] show ?thesis using stored Inl by simp
  next
    case (Inr u)
    then have "\<exists>t. ctx' = ctx_say t (keep_files st ctx)" "r = Ok ()"
      using e rs by (auto simp: exec_reset_def reset_store_def)
    then show ?thesis using stored Inr by auto
  qed
qed

text \<open>A result that keeps what is stored on failure and meets a condition on success.\<close>

definition effect_on :: "('c \<Rightarrow> 's) \<Rightarrow> 'c \<Rightarrow> 'c \<times> (string + unit) \<Rightarrow> ('s \<Rightarrow> bool) \<Rightarrow> bool" where
  "effect_on stored ctx res P \<longleftrightarrow>
     (if isl (snd res) then stored (fst res) = stored ctx else P (stored (fst res)))"

lemma effect_onI:
  "(case snd res of Ok _ \<Rightarrow> P (stored (fst res)) | Err _ \<Rightarrow> stored (fst res) = stored ctx) \<Longrightarrow>
     effect_on stored ctx res P"
  by (simp add: effect_on_def split: sum.splits)

text \<open>
  What the six commands do to the stored settings. A successful \<open>set\<close> stores the level it was
  given and changes nothing else; \<open>disable\<close> and \<open>enable\<close> write the one switch they name, which is
  a probe of the catalog; \<open>reset\<close> leaves the settings of a fresh install; a command that fails, and
  \<open>status\<close> and \<open>info\<close> always, leave the settings as they were.
\<close>

theorem telemetry_commands_store:
  fixes cd :: "'t codec" and w :: command_world and loc :: telemetry_store_location and app :: string
  assumes "codec_faithful cd (tl_format loc)" "io_read (cw_io w) = None"
  defines "stored \<equiv> \<lambda>ctx. store_settings cd (open_store w loc app ctx)"
  shows "effect_on stored ctx (exec_set w cd app loc ctx args) (\<lambda>s'.
        \<exists>l. map_of args ''level'' \<in> {Some (AV_Enum (level_as_str l)), Some (AV_Str (level_as_str l))} \<and>
            s' = stamped ((stored ctx)\<lparr>ts_level := Some l\<rparr>)) \<and>
     effect_on stored ctx (exec_disable w cd app loc ctx args) (\<lambda>s'.
        \<exists>i. map_of args ''probe_id'' = Some (AV_Str i) \<and> probe_contains builtin_registry i \<and>
            s' = stamped ((stored ctx)\<lparr>ts_probes := bm_insert i False (ts_probes (stored ctx))\<rparr>)) \<and>
     effect_on stored ctx (exec_enable w cd app loc ctx args) (\<lambda>s'.
        \<exists>i. map_of args ''probe_id'' = Some (AV_Str i) \<and> probe_contains builtin_registry i \<and>
            s' = stamped ((stored ctx)\<lparr>ts_probes := bm_remove i (ts_probes (stored ctx))\<rparr>)) \<and>
     effect_on stored ctx (exec_reset w cd app loc ctx args) (\<lambda>s'. s' = stamped telemetry_settings_default) \<and>
     stored (fst (exec_status w cd app loc ctx args)) = stored ctx \<and>
     stored (fst (exec_info w cd app loc ctx args)) = stored ctx"
proof (intro conjI)
  show "effect_on stored ctx (exec_set w cd app loc ctx args) (\<lambda>s'.
        \<exists>l. map_of args ''level'' \<in> {Some (AV_Enum (level_as_str l)), Some (AV_Str (level_as_str l))} \<and>
            s' = stamped ((stored ctx)\<lparr>ts_level := Some l\<rparr>))"
    using exec_set_stores [OF assms(1,2) prod.collapse [symmetric], of app ctx args]
    unfolding stored_def by (rule effect_onI)
  show "effect_on stored ctx (exec_disable w cd app loc ctx args) (\<lambda>s'.
        \<exists>i. map_of args ''probe_id'' = Some (AV_Str i) \<and> probe_contains builtin_registry i \<and>
            s' = stamped ((stored ctx)\<lparr>ts_probes := bm_insert i False (ts_probes (stored ctx))\<rparr>))"
    unfolding stored_def exec_disable_def
    by (rule effect_onI exec_switch_stores [OF assms(1,2), of disable_probe "\<lambda>i s. s\<lparr>ts_probes := bm_insert i False (ts_probes s)\<rparr>"]
        disable_probe_def prod.collapse [symmetric])+
  show "effect_on stored ctx (exec_enable w cd app loc ctx args) (\<lambda>s'.
        \<exists>i. map_of args ''probe_id'' = Some (AV_Str i) \<and> probe_contains builtin_registry i \<and>
            s' = stamped ((stored ctx)\<lparr>ts_probes := bm_remove i (ts_probes (stored ctx))\<rparr>))"
    unfolding stored_def exec_enable_def
    by (rule effect_onI exec_switch_stores [OF assms(1,2), of enable_probe "\<lambda>i s. s\<lparr>ts_probes := bm_remove i (ts_probes s)\<rparr>"]
        enable_probe_def prod.collapse [symmetric])+
  show "effect_on stored ctx (exec_reset w cd app loc ctx args) (\<lambda>s'. s' = stamped telemetry_settings_default)"
    using exec_reset_stores [of w cd app loc ctx args, OF prod.collapse [symmetric]]
    unfolding stored_def by (rule effect_onI)
qed (simp_all add: stored_def exec_status_def exec_info_def Let_def)

section \<open>The next run\<close>

lemma fold_switches_disabled:
  "distinct (map fst ps) \<Longrightarrow>
   i \<in> ti_disabled_probes (fold (\<lambda>(probe, enabled). switch_probe probe enabled) ps b) \<longleftrightarrow>
     (case map_of ps i of Some e \<Rightarrow> \<not> e | None \<Rightarrow> i \<in> ti_disabled_probes b)"
proof (induction ps arbitrary: b)
  case Nil
  then show ?case by simp
next
  case (Cons p ps)
  obtain k e where p: "p = (k, e)" by (cases p)
  have "map_of ps i = None" if "i = k" using Cons.prems p that by (simp add: map_of_eq_None_iff)
  then show ?case
    using Cons.IH [of "switch_probe k e b"] Cons.prems
    by (auto simp: p switch_probe_def split: option.splits)
qed

lemma fold_settings_keeps:
  "ti_registry (fold_settings s b) = ti_registry b \<and> ti_kill_switch (fold_settings s b) = ti_kill_switch b"
proof -
  have "ti_registry (fold (\<lambda>(probe, enabled). switch_probe probe enabled) ps b) = ti_registry b \<and>
      ti_kill_switch (fold (\<lambda>(probe, enabled). switch_probe probe enabled) ps b) = ti_kill_switch b" for ps b
    by (induction ps arbitrary: b) (auto simp: switch_probe_def)
  then show ?thesis by (simp add: fold_settings_def Let_def split: option.splits)
qed

lemma startup_base_registry: "ti_registry (startup_base w cd inp files) = ti_registry (su_base inp)"
  by (simp add: startup_base_def fold_environment_keeps fold_store_def fold_settings_keeps)

lemma startup_base_disabled:
  assumes "su_env inp = []" "map_of (ts_probes (store_settings cd (startup_store w inp files))) i = Some False"
    and "bm_wf (ts_probes (store_settings cd (startup_store w inp files)))"
  shows "i \<in> ti_disabled_probes (startup_base w cd inp files)"
  using assms bm_wf_distinct [OF assms(3)]
  by (simp add: startup_base_def scan_environment_def fold_environment_def fold_store_def fold_settings_def Let_def
      fold_switches_disabled)

lemma mint_id_effective: "mint_id w cd p st = (p', st') \<Longrightarrow> policy_effective p' = policy_effective p"
  by (auto simp: mint_id_def policy_effective_def split: if_splits option.splits prod.splits)

lemma startup_policy:
  assumes "run_startup_recording w cd inp files = (res, steps, files')"
  shows "tp_level (su_policy res) = TL_Off \<and> \<not> policy_effective (su_policy res) q \<or>
     tp_level (su_policy res) = tp_level (resolve_policy (startup_base w cd inp files)) \<and>
     policy_effective (su_policy res) q = policy_effective (resolve_policy (startup_base w cd inp files)) q"
proof (cases "startup_kill inp")
  case (Some k)
  have p: "su_policy res = resolve_policy ((su_base inp)\<lparr>ti_kill_switch := Some k\<rparr>)"
    using startup_killed [OF Some, of w cd files] assms by simp
  then have "tp_level (su_policy res) = TL_Off" by (simp add: resolve_level level_for_def Let_def)
  moreover from this have "\<not> policy_effective (su_policy res) q"
    by (auto simp: policy_effective_def effective_def split: option.splits)
  ultimately show ?thesis by blast
next
  case None
  then show ?thesis using startup_run [OF None assms] mint_id_policy mint_id_effective by metis
qed


section \<open>Samples\<close>

definition sample_cw :: command_world where
  "sample_cw =
     \<lparr> cw_env = (\<lambda>_. None), cw_config_dir = Some [''etc''], cw_io = no_faults, cw_pid = 7, cw_remove = None,
       cw_status_json = (\<lambda>_. []), cw_info_json = (\<lambda>_. []), cw_config_error = (\<lambda>_. []) \<rparr>"

definition sample_ctx :: telemetry_ctx where
  "sample_ctx = \<lparr> tc_files = sample_files, tc_output = [], tc_diagnostics = [] \<rparr>"

lemma sample_open:
  "open_store sample_cw (su_store sample_startup) ''demo'' sample_ctx = startup_store sample_world sample_startup sample_files"
  by (simp add: open_store_def startup_store_def sample_cw_def sample_ctx_def sample_world_def sample_startup_def
      sample_telemetry_def)

lemma sample_store_parts:
  "startup_store sample_world sample_startup sample_files =
     \<lparr> tst_state = Ready [''etc'', ''demo'', ''telemetry.json''],
       tst_store = Some (config_store_new settings_vc (file_vtable no_faults 7 [''etc'', ''demo'', ''telemetry.json''])
         sample_files Json TELEMETRY_SCHEMA_VERSION) \<rparr>"
  by (simp add: startup_store_def location_open_def open_with_format_def open_at_with_format_def sample_world_def
      sample_startup_def sample_telemetry_def no_faults_def settings_file_name_def Let_def)

lemma sample_set_ok:
  "snd (exec_set sample_cw opt_out_codec ''demo'' (su_store sample_startup) sample_ctx [(''level'', AV_Enum ''off'')]) = Ok ()"
proof -
  let ?st = "startup_store sample_world sample_startup sample_files"
  have "(case load settings_vc opt_out_codec (the (tst_store ?st)) of Ok s \<Rightarrow> s | Err _ \<Rightarrow> telemetry_settings_default) = opted_out"
    using sample_stored by (simp add: store_settings_def sample_store_parts)
  moreover have "opted_out\<lparr>ts_level := Some TL_Off\<rparr> = opted_out" "stamped opted_out = opted_out"
    by (simp_all add: opted_out_def TELEMETRY_SCHEMA_VERSION_def)
  moreover have "fst (file_write no_faults 7 [''etc'', ''demo'', ''telemetry.json''] ''out'' sample_files) = Ok ()"
    by (simp add: file_write_def file_write_trace_def write_and_rename_def no_faults_def Let_def)
  ultimately have "\<exists>s st'. mutate opt_out_codec (\<lambda>s. s\<lparr>ts_level := Some TL_Off\<rparr>) ?st = (Ok s, st')"
    by (auto simp: mutate_def sample_store_parts Let_def save_def config_store_new_def file_vtable_def settings_vc_def
        value_to_bytes_def opt_out_codec_def split: prod.splits sum.splits)
  then show ?thesis
    by (auto simp: exec_set_def level_from_str_def set_level_def sample_open split: option.splits)
qed

theorem telemetry_commands_store_witness:
  "effect_on (\<lambda>ctx. store_settings opt_out_codec (open_store sample_cw (su_store sample_startup) ''demo'' ctx)) sample_ctx
     (exec_set sample_cw opt_out_codec ''demo'' (su_store sample_startup) sample_ctx [(''level'', AV_Enum ''off'')])
     (\<lambda>s'. ts_level s' = Some TL_Off)"
proof -
  have io: "io_read (cw_io sample_cw) = None" by (simp add: sample_cw_def no_faults_def)
  have off: "''off'' = level_as_str l \<longleftrightarrow> l = TL_Off" for l by (cases l) simp_all
  show ?thesis
    using telemetry_commands_store [OF opt_out_codec_faithful io, of "su_store sample_startup" "''demo''" sample_ctx
        "[(''level'', AV_Enum ''off'')]", THEN conjunct1]
    by (auto simp: effect_on_def off)
qed


section \<open>Divergences\<close>

text \<open>Under a kill switch \<open>telemetry status\<close> reports an organisation policy, which there is none of.\<close>

theorem kill_switch_reported_as_policy:
  "detect_kill_switch app env \<noteq> None \<Longrightarrow>
     rep_policy (make_status_report (build_policy env cd app store) (tst_state store)) = ''organisation policy: enforced''"
  by (auto simp: make_status_report_def policy_line_def build_policy_def resolve_level level_for_def Let_def)

text \<open>
  \<open>telemetry status\<close> rebuilds the decision from the settings file alone: it never names the
  environment as the source of the level.
\<close>

theorem status_never_environment:
  "rep_level_source (make_status_report (build_policy env cd app store) (tst_state store)) \<noteq> ''environment''"
  by (auto simp: make_status_report_def build_policy_def resolve_level level_for_def fold_layers_def fold_layer_def
      is_end_user_def Let_def split: option.splits)

text \<open>A probe the application registered itself cannot be disabled by the command.\<close>

theorem author_probe_not_disableable:
  "disable_probe cd store builtin_registry ''app.sync'' = (Err (UnknownProbe ''app.sync''), store)"
proof -
  have "\<not> probe_contains builtin_registry ''app.sync''" by code_simp
  then show ?thesis by (simp add: disable_probe_def switch_stored_def)
qed

end
