(* ===== verification/Service_Types.thy ===== *)
theory Service_Types
  imports Managed
begin

text \<open>
  What the configuration service stores (\<open>config/service/types.rs\<close>) and the errors it
  distinguishes (\<open>config/service/error.rs\<close>). Error messages that name a bound or a document are
  kept as data.

  Enumerations with a canonical wire string share one interface, the locale \<open>wire_enum\<close>: printing
  followed by parsing is the identity and parsing accepts nothing else. It is interpreted for the
  assignment-rule operators, the mutation kinds and the stale actions.
\<close>

section \<open>Wire enumerations\<close>

locale wire_enum =
  fixes to_wire :: "'a \<Rightarrow> string" and of_wire :: "string \<Rightarrow> 'a option"
  assumes of_to_wire: "of_wire (to_wire x) = Some x"
    and of_wire_sound: "of_wire s = Some x \<Longrightarrow> s = to_wire x"
begin

lemma of_wire_iff: "of_wire s = Some x \<longleftrightarrow> s = to_wire x"
  using of_to_wire of_wire_sound by blast

lemma to_wire_inj: "to_wire x = to_wire y \<longleftrightarrow> x = y"
  by (metis of_to_wire option.inject)

lemma of_wire_None_iff: "of_wire s = None \<longleftrightarrow> s \<notin> range to_wire"
  using of_wire_iff by (metis not_Some_eq rangeE rangeI)

end

section \<open>Stored documents\<close>

record stored_manifest =
  sm_app :: string
  sm_doc :: config_manifest
  sm_version :: u64

record stored_policy =
  sp_app :: string
  sp_profile :: string
  sp_enforced :: json_map
  sp_recommended :: json_map
  sp_parent_profile :: "string option"
  sp_max_cache_age_secs :: u64
  sp_stale_action :: stale_action
  sp_version :: u64

datatype rule_operator = Equals | Contains | Exists | Default

record assignment_rule =
  ar_app :: string
  ar_ord :: i64
  ar_claim_path :: string
  ar_operator :: rule_operator
  ar_value :: "json option"
  ar_profile :: string

datatype mutation_kind = ManifestPut | PolicyPut | PolicyPatch | PolicyRestore | AssignmentsPut | Import

record stored_user_config =
  su_app :: string
  su_subject :: string
  su_doc :: json_map
  su_version :: u64

fun rule_operator_wire_str :: "rule_operator \<Rightarrow> string" where
  "rule_operator_wire_str Equals = ''equals''"
| "rule_operator_wire_str Contains = ''contains''"
| "rule_operator_wire_str Exists = ''exists''"
| "rule_operator_wire_str Default = ''default''"

definition rule_operator_parse_wire_str :: "string \<Rightarrow> rule_operator option" where
  "rule_operator_parse_wire_str s =
     (if s = ''equals'' then Some Equals
      else if s = ''contains'' then Some Contains
      else if s = ''exists'' then Some Exists
      else if s = ''default'' then Some Default
      else None)"

fun mutation_kind_wire_str :: "mutation_kind \<Rightarrow> string" where
  "mutation_kind_wire_str ManifestPut = ''manifest_put''"
| "mutation_kind_wire_str PolicyPut = ''policy_put''"
| "mutation_kind_wire_str PolicyPatch = ''policy_patch''"
| "mutation_kind_wire_str PolicyRestore = ''policy_restore''"
| "mutation_kind_wire_str AssignmentsPut = ''assignments_put''"
| "mutation_kind_wire_str Import = ''import''"

definition mutation_kind_parse_wire_str :: "string \<Rightarrow> mutation_kind option" where
  "mutation_kind_parse_wire_str s =
     (if s = ''manifest_put'' then Some ManifestPut
      else if s = ''policy_put'' then Some PolicyPut
      else if s = ''policy_patch'' then Some PolicyPatch
      else if s = ''policy_restore'' then Some PolicyRestore
      else if s = ''assignments_put'' then Some AssignmentsPut
      else if s = ''import'' then Some Import
      else None)"

interpretation rule_op: wire_enum rule_operator_wire_str rule_operator_parse_wire_str
proof
  show "rule_operator_parse_wire_str (rule_operator_wire_str x) = Some x" for x
    by (cases x) (simp_all add: rule_operator_parse_wire_str_def)
qed (auto simp: rule_operator_parse_wire_str_def split: if_splits)

interpretation mut_kind: wire_enum mutation_kind_wire_str mutation_kind_parse_wire_str
proof
  show "mutation_kind_parse_wire_str (mutation_kind_wire_str x) = Some x" for x
    by (cases x) (simp_all add: mutation_kind_parse_wire_str_def)
qed (auto simp: mutation_kind_parse_wire_str_def split: if_splits)

section \<open>Errors\<close>

datatype store_error =
    Backend string
  | Corrupt string string

text \<open>\<open>Display\<close> of a store error.\<close>

fun store_error_to_string :: "store_error \<Rightarrow> string" where
  "store_error_to_string (Backend m) = ''config service storage backend error: '' @ m"
| "store_error_to_string (Corrupt app m) =
     ''stored document for app '' @ [CHR 0x27] @ app @ [CHR 0x27] @ '' failed to parse: '' @ m"

datatype config_service_error = MissingCredential | InvalidCredential string

datatype user_config_write_error = UserConflict u64 u64 | UserStore store_error

datatype constraint_detail =
    BelowMinimum f64 f64
  | AboveMaximum f64 f64
  | NotAllowed json "json list"

datatype policy_validation_error =
    PV_UnknownField string string string
  | PV_TypeMismatch string string string
  | PV_LocalOnly string string string
  | PV_NotManageable string string string
  | PV_Secret string string string
  | PV_OrgScopeInRecommended string string string
  | PV_NotEnforceable string string string
  | PV_ConstraintViolation string string string constraint_detail
  | PV_MissingManifest string string
  | PV_MissingParent string string string
  | PV_InheritanceCycle string string
  | PV_AssignmentRuleMissingProfile string i64 string
  | PV_DefaultRuleNotLast string i64 i64

datatype inheritance_error =
    ProfileNotFound string
  | MissingParent string string
  | Cycle string

datatype admin_write_error =
    Conflict u64 u64
  | Validation "policy_validation_error list"
  | AdminStore store_error

end
