(* ===== verification/Inherit.thy ===== *)
theory Inherit
  imports Service_Types
begin

text \<open>
  Inheritance of policies (\<open>config/service/inherit.rs\<close>). A profile's policy may name a parent; the
  loop of \<open>resolve_chain\<close> walks the parents child first. It is specified by the recursive
  predicate \<open>is_chain\<close>: the walk succeeds exactly on the profiles whose parents lead to a root,
  and the bound on the chain length never cuts such a walk short (\<open>chain_length_bound\<close>). \<open>flatten\<close> is specified by
  the first policy of the chain that has a key.
\<close>

section \<open>Operations\<close>

type_synonym policies_by_profile = "(string, stored_policy) hash_map"

function chain_loop ::
  "policies_by_profile \<Rightarrow> string \<Rightarrow> nat \<Rightarrow> stored_policy list \<Rightarrow> string list \<Rightarrow> string \<Rightarrow>
   inheritance_error + stored_policy list" where
  "chain_loop by_profile start bound chain seen current =
     (case map_of by_profile current of
        None \<Rightarrow>
          if chain = [] then Err (ProfileNotFound current)
          else Err (MissingParent (sp_profile (last chain)) current)
      | Some pol \<Rightarrow>
          if current \<in> set seen then Err (Cycle current)
          else let chain' = chain @ [pol]
               in if length chain' > bound then Err (Cycle start)
                  else (case sp_parent_profile pol of
                          Some parent \<Rightarrow> chain_loop by_profile start bound chain' (current # seen) parent
                        | None \<Rightarrow> Ok chain'))"
  by pat_completeness auto
termination
  by (relation "measure (\<lambda>(_, _, bound, chain, _, _). bound - length chain)") auto

declare chain_loop.simps [simp del]

definition resolve_chain :: "policies_by_profile \<Rightarrow> string \<Rightarrow> inheritance_error + stored_policy list" where
  "resolve_chain by_profile start = chain_loop by_profile start (max (length by_profile) 1) [] [] start"

text \<open>The hasher is the standard library's, a parameter.\<close>

definition combined_chain_version :: "((string \<times> u64) list \<Rightarrow> u64) \<Rightarrow> stored_policy list \<Rightarrow> u64" where
  "combined_chain_version hasher chain =
     (case chain of
        [only] \<Rightarrow> sp_version only
      | _ \<Rightarrow> hasher (map (\<lambda>p. (sp_profile p, sp_version p)) chain))"

definition flatten :: "stored_policy list \<Rightarrow> json_map \<times> json_map" where
  "flatten chain =
     fold (\<lambda>pol (enforced, recommended).
             (fold (\<lambda>(k, v). bm_insert k v) (sp_enforced pol) enforced,
              fold (\<lambda>(k, v). bm_insert k v) (sp_recommended pol) recommended))
          (rev chain) ([], [])"

section \<open>Chains\<close>

fun is_chain :: "(string \<rightharpoonup> stored_policy) \<Rightarrow> string \<Rightarrow> stored_policy list \<Rightarrow> bool" where
  "is_chain by_p cur [] = False"
| "is_chain by_p cur (p # ps) =
     (by_p cur = Some p \<and> (case sp_parent_profile p of None \<Rightarrow> ps = [] | Some q \<Rightarrow> is_chain by_p q ps))"

text \<open>The profiles a chain visits.\<close>

fun visited :: "string \<Rightarrow> stored_policy list \<Rightarrow> string list" where
  "visited cur [] = []"
| "visited cur (p # ps) = cur # (case sp_parent_profile p of None \<Rightarrow> [] | Some q \<Rightarrow> visited q ps)"

lemma is_chain_unique: "is_chain b cur c \<Longrightarrow> is_chain b cur c' \<Longrightarrow> c = c'"
proof (induction b cur c arbitrary: c' rule: is_chain.induct)
  case (2 b cur p ps)
  then show ?case by (cases c') (auto split: option.splits)
qed simp

lemma visited_suffix:
  "is_chain b cur c \<Longrightarrow> q \<in> set (visited cur c) \<Longrightarrow> \<exists>c'. is_chain b q c' \<and> length c' \<le> length c"
proof (induction b cur c rule: is_chain.induct)
  case (2 b cur p ps)
  show ?case
  proof (cases "q = cur")
    case True
    then show ?thesis using "2.prems"(1) by blast
  next
    case False
    then obtain r where r: "sp_parent_profile p = Some r" "q \<in> set (visited r ps)"
      using "2.prems"(2) by (cases "sp_parent_profile p") auto
    then show ?thesis using "2.IH" [OF r(1)] "2.prems"(1) by fastforce
  qed
qed simp

lemma visited_distinct: "is_chain b cur c \<Longrightarrow> distinct (visited cur c)"
proof (induction b cur c rule: is_chain.induct)
  case (2 b cur p ps)
  show ?case
  proof (cases "sp_parent_profile p")
    case None
    then show ?thesis by simp
  next
    case (Some r)
    then have ps: "is_chain b r ps" using "2.prems" by simp
    have "cur \<notin> set (visited r ps)"
    proof
      assume "cur \<in> set (visited r ps)"
      then obtain c' where "is_chain b cur c'" "length c' \<le> length ps"
        using visited_suffix [OF ps] by blast
      then show False using is_chain_unique [OF _ "2.prems"] by fastforce
    qed
    then show ?thesis using Some "2.IH" [OF Some ps] by simp
  qed
qed simp

lemma visited_dom: "is_chain b cur c \<Longrightarrow> set (visited cur c) \<subseteq> dom b"
  by (induction b cur c rule: is_chain.induct) (auto split: option.splits)

lemma visited_length: "is_chain b cur c \<Longrightarrow> length (visited cur c) = length c"
  by (induction b cur c rule: is_chain.induct) (auto split: option.splits)

text \<open>The length bound of the loop is never what stops it.\<close>

lemma chain_length_bound: "is_chain (map_of by_profile) cur c \<Longrightarrow> length c \<le> length by_profile"
proof -
  assume c: "is_chain (map_of by_profile) cur c"
  have "length c = card (set (visited cur c))"
    using visited_length [OF c] visited_distinct [OF c] by (simp add: distinct_card)
  also have "\<dots> \<le> card (fst ` set by_profile)"
    using visited_dom [OF c] by (intro card_mono) (auto simp: dom_map_of_conv_image_fst)
  also have "\<dots> \<le> length by_profile"
    using card_length [of "map fst by_profile"] by simp
  finally show ?thesis .
qed

lemma chain_loop_complete:
  assumes "is_chain (map_of by_profile) cur c" "set seen \<inter> set (visited cur c) = {}"
    and "length (chain @ c) \<le> bound"
  shows "chain_loop by_profile start bound chain seen cur = Ok (chain @ c)"
  using assms
proof (induction c arbitrary: cur chain seen)
  case Nil
  then show ?case by simp
next
  case (Cons p ps)
  have cur: "map_of by_profile cur = Some p" "cur \<notin> set seen" using Cons.prems by auto
  show ?case
  proof (cases "sp_parent_profile p")
    case None
    then show ?thesis
      using Cons.prems cur by (simp add: chain_loop.simps [of _ _ _ chain seen cur])
  next
    case (Some q)
    then have q: "is_chain (map_of by_profile) q ps" using Cons.prems(1) by simp
    have "cur \<notin> set (visited q ps)"
      using visited_distinct [OF Cons.prems(1)] Some by simp
    then have "chain_loop by_profile start bound (chain @ [p]) (cur # seen) q = Ok ((chain @ [p]) @ ps)"
      using Cons.prems Some q by (intro Cons.IH) auto
    then show ?thesis
      using Cons.prems(3) cur Some by (simp add: chain_loop.simps [of _ _ _ chain seen cur] Let_def)
  qed
qed

lemma chain_loop_sound:
  "chain_loop by_profile start bound chain seen cur = Ok r \<Longrightarrow>
   \<exists>c. r = chain @ c \<and> is_chain (map_of by_profile) cur c"
proof (induction by_profile start bound chain seen cur arbitrary: r rule: chain_loop.induct)
  case (1 by_profile start bound chain seen cur)
  obtain p where p: "map_of by_profile cur = Some p" "cur \<notin> set seen" "length (chain @ [p]) \<le> bound"
    using "1.prems" by (subst (asm) chain_loop.simps) (auto simp: Let_def split: option.splits if_splits)
  show ?case
  proof (cases "sp_parent_profile p")
    case None
    then have "r = chain @ [p]"
      using "1.prems" p by (subst (asm) chain_loop.simps) (simp add: Let_def)
    then show ?thesis using p None by (intro exI [of _ "[p]"]) simp
  next
    case (Some q)
    then have "chain_loop by_profile start bound (chain @ [p]) (cur # seen) q = Ok r"
      using "1.prems" p by (subst (asm) chain_loop.simps) (simp add: Let_def)
    then obtain c where "r = (chain @ [p]) @ c" "is_chain (map_of by_profile) q c"
      using "1.IH" [OF p(1,2) refl _ Some] p(3) by fastforce
    then show ?thesis using p Some by (intro exI [of _ "p # c"]) simp
  qed
qed

lemma resolve_chain_Ok_iff: "resolve_chain by_profile start = Ok c \<longleftrightarrow> is_chain (map_of by_profile) start c"
proof
  assume "resolve_chain by_profile start = Ok c"
  then show "is_chain (map_of by_profile) start c"
    using chain_loop_sound unfolding resolve_chain_def by fastforce
next
  assume c: "is_chain (map_of by_profile) start c"
  then have "chain_loop by_profile start (max (length by_profile) 1) [] [] start = Ok ([] @ c)"
    using chain_length_bound [OF c] by (intro chain_loop_complete) auto
  then show "resolve_chain by_profile start = Ok c" by (simp add: resolve_chain_def)
qed

lemma chain_loop_not_found:
  "chain \<noteq> [] \<Longrightarrow> chain_loop by_profile start bound chain seen cur \<noteq> Err (ProfileNotFound p)"
proof (induction by_profile start bound chain seen cur rule: chain_loop.induct)
  case (1 by_profile start bound chain seen cur)
  then show ?case
    by (subst chain_loop.simps) (auto simp: Let_def split: option.splits)
qed

lemma resolve_chain_not_found_iff:
  "(\<exists>p. resolve_chain by_profile start = Err (ProfileNotFound p)) \<longleftrightarrow> map_of by_profile start = None"
proof (cases "map_of by_profile start")
  case None
  then show ?thesis by (simp add: resolve_chain_def chain_loop.simps)
next
  case (Some p)
  then show ?thesis
    using chain_loop_not_found [of "[p]"]
    by (simp add: resolve_chain_def chain_loop.simps [of _ _ _ "[]"] Let_def split: option.split)
qed

text \<open>
  Replacing one profile's policy by one whose own chain is complete keeps every other chain complete.
\<close>

lemma is_chain_update:
  assumes "is_chain (b(q \<mapsto> p)) q cq" "is_chain b cur c"
  shows "\<exists>c'. is_chain (b(q \<mapsto> p)) cur c'"
  using assms(2)
proof (induction c arbitrary: cur)
  case (Cons a as)
  show ?case
  proof (cases "cur = q")
    case True
    then show ?thesis using assms(1) by blast
  next
    case False
    show ?thesis
    proof (cases "sp_parent_profile a")
      case None
      then have "is_chain (b(q \<mapsto> p)) cur [a]" using Cons.prems False by simp
      then show ?thesis by blast
    next
      case (Some r)
      then have "is_chain b r as" using Cons.prems by simp
      then obtain c' where "is_chain (b(q \<mapsto> p)) r c'" using Cons.IH by blast
      then have "is_chain (b(q \<mapsto> p)) cur (a # c')" using Some False Cons.prems by simp
      then show ?thesis by blast
    qed
  qed
qed simp

section \<open>Flattening\<close>

lemma flatten_snoc:
  "flatten (p # c) =
     (fold (\<lambda>(k, v). bm_insert k v) (sp_enforced p) (fst (flatten c)),
      fold (\<lambda>(k, v). bm_insert k v) (sp_recommended p) (snd (flatten c)))"
  by (simp add: flatten_def case_prod_unfold)

definition wf_stored_policy :: "stored_policy \<Rightarrow> bool" where
  "wf_stored_policy p \<longleftrightarrow> wf_map (sp_enforced p) \<and> wf_map (sp_recommended p)"

lemma flatten_wf: "bm_wf (fst (flatten c)) \<and> bm_wf (snd (flatten c))"
  by (induction c) (simp_all add: flatten_snoc bm.invar_ins_all, simp add: flatten_def)

lemma map_add_find_map: "(m ++ f) k = (case f k of Some v \<Rightarrow> Some v | None \<Rightarrow> m k)"
  by (simp add: map_add_def)

lemma flatten_lookup_find:
  "\<forall>p \<in> set c. wf_stored_policy p \<Longrightarrow>
   map_of (fst (flatten c)) k = find_map (\<lambda>p. map_of (sp_enforced p) k) c \<and>
   map_of (snd (flatten c)) k = find_map (\<lambda>p. map_of (sp_recommended p) k) c"
proof (induction c)
  case Nil
  show ?case by (simp add: flatten_def)
next
  case (Cons p c)
  have "distinct (map fst (sp_enforced p))" "distinct (map fst (sp_recommended p))"
    using Cons.prems by (auto simp: wf_stored_policy_def intro: bm_wf_distinct wf_map_bm_wf)
  then show ?case
    using Cons flatten_wf [of c]
    by (simp add: flatten_snoc bm.lookup_ins_all_distinct map_add_find_map split: option.split)
qed

section \<open>Properties\<close>


text \<open>
  The served document of an inheritance chain: for each of the two trees, a key has the value of
  the closest policy of the chain that sets it, so the child wins over its parents and a key only a
  parent sets is kept.
\<close>

theorem flatten_child_wins:
  assumes "\<forall>p \<in> set chain. wf_stored_policy p"
  shows "map_of (fst (flatten chain)) k = find_map (\<lambda>p. map_of (sp_enforced p) k) chain \<and>
         map_of (snd (flatten chain)) k = find_map (\<lambda>p. map_of (sp_recommended p) k) chain \<and>
         bm_wf (fst (flatten chain)) \<and> bm_wf (snd (flatten chain))"
  using flatten_lookup_find [OF assms] flatten_wf by blast

definition sample_policy :: "string \<Rightarrow> string option \<Rightarrow> json_map \<Rightarrow> stored_policy" where
  "sample_policy profile parent enforced =
     \<lparr>sp_app = ''app'', sp_profile = profile, sp_enforced = enforced, sp_recommended = [],
      sp_parent_profile = parent, sp_max_cache_age_secs = 60, sp_stale_action = Warn, sp_version = 1\<rparr>"

theorem flatten_child_wins_witness:
  "map_of (fst (flatten [sample_policy ''dev'' (Some ''base'') [(''net.url'', JStr ''c'')],
                         sample_policy ''base'' None [(''net.port'', JNum (PosInt 1)), (''net.url'', JStr ''p'')]]))
     ''net.url'' = Some (JStr ''c'')"
proof -
  let ?c = "[sample_policy ''dev'' (Some ''base'') [(''net.url'', JStr ''c'')],
             sample_policy ''base'' None [(''net.port'', JNum (PosInt 1)), (''net.url'', JStr ''p'')]]"
  have "\<forall>p \<in> set ?c. wf_stored_policy p" by code_simp
  from flatten_child_wins [OF this, of "''net.url''"] show ?thesis
    by (simp add: sample_policy_def)
qed

end
