(* ===== verification/Assignment.thy ===== *)
theory Assignment
  imports Service_Types
begin

text \<open>
  Assignment rules (\<open>config/service/assignment.rs\<close>): the caller's claims select a profile. The
  stable sort by \<open>ord\<close> and the first match are specified by minimality: the chosen rule matches, no
  matching rule has a smaller \<open>ord\<close>, and it is the first of its \<open>ord\<close> in the stored order.
\<close>

section \<open>Operations\<close>

record resolved_assignment =
  ra_rule :: assignment_rule

definition assignment_profile :: "resolved_assignment \<Rightarrow> string" where
  "assignment_profile a = ar_profile (ra_rule a)"

text \<open>The loop over the segments of a claim path.\<close>

fun claim_at_segments :: "json \<Rightarrow> string list \<Rightarrow> json option" where
  "claim_at_segments current [] = Some current"
| "claim_at_segments current (segment # rest) =
     (case as_object current of
        None \<Rightarrow> None
      | Some m \<Rightarrow> (case map_of m segment of None \<Rightarrow> None | Some v \<Rightarrow> claim_at_segments v rest))"

definition claim_at_path :: "json \<Rightarrow> string \<Rightarrow> json option" where
  "claim_at_path claims path = claim_at_segments claims (str_split CHR ''.'' path)"

definition rule_matches :: "assignment_rule \<Rightarrow> json \<Rightarrow> bool" where
  "rule_matches rule claims =
     (case ar_operator rule of
        Default \<Rightarrow> True
      | Exists \<Rightarrow> claim_at_path claims (ar_claim_path rule) \<noteq> None
      | Equals \<Rightarrow>
          (case claim_at_path claims (ar_claim_path rule) of
             Some actual \<Rightarrow> (case ar_value rule of Some expected \<Rightarrow> actual = expected | None \<Rightarrow> False)
           | None \<Rightarrow> False)
      | Contains \<Rightarrow>
          (case claim_at_path claims (ar_claim_path rule) of
             Some (JArr items) \<Rightarrow> (case ar_value rule of Some expected \<Rightarrow> expected \<in> set items | None \<Rightarrow> False)
           | _ \<Rightarrow> False))"

definition resolve_profile :: "assignment_rule list \<Rightarrow> json \<Rightarrow> resolved_assignment option" where
  "resolve_profile rules claims =
     map_option (\<lambda>rule. \<lparr>ra_rule = rule\<rparr>)
       (find (\<lambda>rule. rule_matches rule claims) (sort_key ar_ord rules))"

section \<open>First match in a stable sort\<close>

lemma find_filter: "find P xs = (case filter P xs of [] \<Rightarrow> None | x # _ \<Rightarrow> Some x)"
  by (induction xs) auto

lemma find_sort_key:
  assumes "find P (sort_key f xs) = Some x"
  shows "x \<in> set xs \<and> P x \<and> (\<forall>y \<in> set xs. P y \<longrightarrow> f x \<le> f y) \<and>
         find (\<lambda>y. P y \<and> f y = f x) xs = Some x"
proof -
  obtain ys zs where s: "sort_key f xs = ys @ x # zs" "P x" "\<forall>y \<in> set ys. \<not> P y"
    using find_SomeD [OF assms] by blast
  have srt: "sorted (map f (ys @ x # zs))" using sorted_sort_key [of f xs] by (simp add: s(1))
  have set_eq: "set xs = set (ys @ x # zs)" using set_sort [of f xs] by (simp add: s(1))
  have "f x \<le> f y" if "y \<in> set xs" "P y" for y
    using that s(3) srt unfolding set_eq by (auto simp: sorted_append)
  moreover have "filter (\<lambda>y. P y \<and> f y = f x) xs = filter P (filter (\<lambda>y. f y = f x) xs)"
    by (simp add: conj_commute)
  then have "filter (\<lambda>y. P y \<and> f y = f x) xs = filter P (filter (\<lambda>y. f y = f x) (ys @ x # zs))"
    using sort_key_stable [of f "f x" xs] by (simp only: s(1))
  then have "find (\<lambda>y. P y \<and> f y = f x) xs = Some x"
    using s(2,3) by (simp add: find_filter filter_False)
  ultimately show ?thesis using s(2) set_eq by auto
qed

lemma resolve_profile_None_iff:
  "resolve_profile rules claims = None \<longleftrightarrow> (\<forall>r \<in> set rules. \<not> rule_matches r claims)"
  by (auto simp: resolve_profile_def find_None_iff)

lemma resolve_profile_SomeD:
  "resolve_profile rules claims = Some a \<Longrightarrow> ra_rule a \<in> set rules \<and> rule_matches (ra_rule a) claims"
  by (auto simp: resolve_profile_def dest!: find_sort_key)

section \<open>Properties\<close>

text \<open>
  Profile resolution picks the matching rule of least order, the earliest stored one among equal
  orders, whatever the order the rules are passed in; it finds none exactly when no rule matches.
\<close>

theorem resolve_profile_first_match:
  "(resolve_profile rules claims = None \<longleftrightarrow> find (\<lambda>r. rule_matches r claims) rules = None) \<and>
   (case resolve_profile rules claims of
      None \<Rightarrow> True
    | Some a \<Rightarrow>
        find (\<lambda>r. rule_matches r claims \<and> ar_ord r = Min (ar_ord ` {r \<in> set rules. rule_matches r claims})) rules
          = Some (ra_rule a))"
proof (cases "find (\<lambda>rule. rule_matches rule claims) (sort_key ar_ord rules)")
  case None
  then have none: "resolve_profile rules claims = None" by (simp add: resolve_profile_def)
  then have "find (\<lambda>r. rule_matches r claims) rules = None"
    by (simp add: resolve_profile_None_iff find_None_iff)
  then show ?thesis using none by simp
next
  case (Some r)
  note facts = find_sort_key [OF Some]
  have "Min (ar_ord ` {r \<in> set rules. rule_matches r claims}) = ar_ord r"
    using facts by (intro Min_eqI) auto
  moreover have "find (\<lambda>r. rule_matches r claims) rules \<noteq> None"
    using facts by (auto simp: find_None_iff)
  ultimately show ?thesis using Some facts by (simp add: resolve_profile_def)
qed

end
