(* ===== verification/Validate.thy ===== *)
theory Validate
  imports Inherit Assignment
begin

text \<open>
  Validation of stored policies against their manifest and of the whole deployment at startup
  (\<open>config/service/validate.rs\<close>), over the storage interface of \<open>config/service/store.rs\<close>.

  A \<open>PolicyStore\<close> is the record of its five reads (a snapshot of what they answer). The lemmas
  turn the error lists into conditions: \<open>validate_stored_policy_Nil_iff\<close> (every entry of both
  trees is accepted by the client's rules and within the declared constraints) and
  \<open>validate_all_Ok_iff\<close> (what a deployment that starts is known to satisfy).
\<close>

section \<open>The storage interface\<close>

record policy_store =
  st_manifest :: "string \<Rightarrow> store_error + stored_manifest option"
  st_policy :: "string \<Rightarrow> string \<Rightarrow> store_error + stored_policy option"
  st_policies_for_app :: "string \<Rightarrow> store_error + stored_policy list"
  st_assignment_rules :: "string \<Rightarrow> store_error + assignment_rule list"
  st_apps :: "store_error + string list"

section \<open>Operations\<close>

definition constraint_violation_detail :: "field_manifest \<Rightarrow> json \<Rightarrow> constraint_detail option" where
  "constraint_violation_detail field v =
     (case fm_constraints field of
        None \<Rightarrow> None
      | Some c \<Rightarrow>
          let below = (case as_f64 v of
                Some num \<Rightarrow> (case fc_min c of
                    Some mn \<Rightarrow> if f64_lt num mn then Some (BelowMinimum num mn) else None
                  | None \<Rightarrow> None)
              | None \<Rightarrow> None);
              above = (case as_f64 v of
                Some num \<Rightarrow> (case fc_max c of
                    Some mx \<Rightarrow> if f64_lt mx num then Some (AboveMaximum num mx) else None
                  | None \<Rightarrow> None)
              | None \<Rightarrow> None);
              disallowed = (case fc_allowed_values c of
                Some allowed \<Rightarrow> if v \<notin> set allowed then Some (NotAllowed v allowed) else None
              | None \<Rightarrow> None)
          in (case below of Some d \<Rightarrow> Some d
              | None \<Rightarrow> (case above of Some d \<Rightarrow> Some d | None \<Rightarrow> disallowed)))"

fun map_reason :: "string \<Rightarrow> string \<Rightarrow> string \<Rightarrow> warning_reason \<Rightarrow> policy_validation_error" where
  "map_reason app profile path LocalOnlyInServerTree = PV_LocalOnly app profile path"
| "map_reason app profile path NotManageableInServerTree = PV_NotManageable app profile path"
| "map_reason app profile path SecretInServerTree = PV_Secret app profile path"
| "map_reason app profile path OrgScopeInRecommended = PV_OrgScopeInRecommended app profile path"
| "map_reason app profile path NotEnforceableInEnforced = PV_NotEnforceable app profile path"
| "map_reason app profile path UnknownKey = PV_UnknownField app profile path"
| "map_reason app profile path TypeMismatch = PV_TypeMismatch app profile path"

text \<open>The body of the two loops of \<open>validate_stored_policy\<close>.\<close>

definition tree_entry_errors ::
  "(field_manifest \<Rightarrow> json \<Rightarrow> warning_reason option) \<Rightarrow> config_manifest \<Rightarrow> stored_policy \<Rightarrow> string \<times> json \<Rightarrow>
   policy_validation_error list" where
  "tree_entry_errors drop_reason manifest pol e =
     (case leaf_by_path manifest (fst e) of
        None \<Rightarrow> [PV_UnknownField (sp_app pol) (sp_profile pol) (fst e)]
      | Some field \<Rightarrow>
          (case drop_reason field (snd e) of
             Some reason \<Rightarrow> [map_reason (sp_app pol) (sp_profile pol) (fst e) reason]
           | None \<Rightarrow>
               (case constraint_violation_detail field (snd e) of
                  Some detail \<Rightarrow> [PV_ConstraintViolation (sp_app pol) (sp_profile pol) (fst e) detail]
                | None \<Rightarrow> [])))"

definition validate_stored_policy :: "config_manifest \<Rightarrow> stored_policy \<Rightarrow> policy_validation_error list" where
  "validate_stored_policy manifest pol =
     concat (map (tree_entry_errors server_tree_drop_reason_recommended manifest pol) (sp_recommended pol)) @
     concat (map (tree_entry_errors server_tree_drop_reason_enforced manifest pol) (sp_enforced pol))"

definition assignment_rule_missing_profile_errors ::
  "string \<Rightarrow> assignment_rule list \<Rightarrow> policies_by_profile \<Rightarrow> policy_validation_error list" where
  "assignment_rule_missing_profile_errors app rules by_profile =
     map (\<lambda>rule. PV_AssignmentRuleMissingProfile app (ar_ord rule) (ar_profile rule))
       (filter (\<lambda>rule. \<not> hm_contains by_profile (ar_profile rule)) rules)"

definition default_rule_not_last_errors :: "string \<Rightarrow> assignment_rule list \<Rightarrow> policy_validation_error list" where
  "default_rule_not_last_errors app rules =
     (if rules = [] then []
      else let max_ord = Max (set (map ar_ord rules))
           in map (\<lambda>rule. PV_DefaultRuleNotLast app (ar_ord rule) max_ord)
                (filter (\<lambda>rule. ar_operator rule = Default \<and> ar_ord rule \<noteq> max_ord) rules))"

definition by_profile_of :: "stored_policy list \<Rightarrow> policies_by_profile" where
  "by_profile_of policies = hm_of_list (map (\<lambda>p. (sp_profile p, p)) policies)"

definition chain_errors :: "string \<Rightarrow> policies_by_profile \<Rightarrow> string \<Rightarrow> policy_validation_error list" where
  "chain_errors app by_profile profile =
     (case resolve_chain by_profile profile of
        Ok _ \<Rightarrow> []
      | Err (ProfileNotFound _) \<Rightarrow> []
      | Err (MissingParent child parent) \<Rightarrow> [PV_MissingParent app child parent]
      | Err (Cycle p) \<Rightarrow> [PV_InheritanceCycle app p])"

definition storage_error :: "string \<Rightarrow> string \<Rightarrow> string \<Rightarrow> store_error \<Rightarrow> policy_validation_error" where
  "storage_error app profile what e =
     PV_UnknownField app profile (''<storage error '' @ what @ '': '' @ store_error_to_string e @ ''>'')"

text \<open>The body of the loop of \<open>validate_all\<close> over the applications.\<close>

definition validate_app :: "policy_store \<Rightarrow> string \<Rightarrow> policy_validation_error list" where
  "validate_app store app =
     (let (manifest, e1) =
            (case st_manifest store app of
               Ok (Some m) \<Rightarrow> (Some (sm_doc m), [])
             | Ok None \<Rightarrow> (None, [])
             | Err e \<Rightarrow> (None, [storage_error app ''*'' ''loading manifest'' e]))
      in case st_policies_for_app store app of
           Err e \<Rightarrow> e1 @ [storage_error app ''*'' ''loading policies'' e]
         | Ok policies \<Rightarrow>
             let by_profile = by_profile_of policies;
                 e2 = (case st_assignment_rules store app of
                         Ok rules \<Rightarrow>
                           assignment_rule_missing_profile_errors app rules by_profile @
                           default_rule_not_last_errors app rules
                       | Err e \<Rightarrow> [storage_error app ''*'' ''loading assignment rules'' e])
             in (case manifest of
                   None \<Rightarrow> e1 @ e2 @ map (\<lambda>p. PV_MissingManifest app (sp_profile p)) policies
                 | Some doc \<Rightarrow>
                     e1 @ e2 @ concat (map (validate_stored_policy doc) policies) @
                     concat (map (\<lambda>p. chain_errors app by_profile (sp_profile p)) policies)))"

definition validate_all :: "policy_store \<Rightarrow> policy_validation_error list + unit" where
  "validate_all store =
     (case st_apps store of
        Err e \<Rightarrow> Err [storage_error ''*'' ''*'' ''listing apps'' e]
      | Ok apps \<Rightarrow>
          let errors = concat (map (validate_app store) apps)
          in if errors = [] then Ok () else Err errors)"

definition candidate_map :: "stored_policy list \<Rightarrow> stored_policy \<Rightarrow> policies_by_profile" where
  "candidate_map existing candidate =
     hm_insert (sp_profile candidate) candidate
       (hm_of_list (map (\<lambda>p. (sp_profile p, p)) (filter (\<lambda>p. sp_profile p \<noteq> sp_profile candidate) existing)))"

definition validate_policy_for_write :: "policy_store \<Rightarrow> stored_policy \<Rightarrow> policy_validation_error list" where
  "validate_policy_for_write store candidate =
     (let app = sp_app candidate; profile = sp_profile candidate
      in case st_manifest store app of
           Ok None \<Rightarrow> [PV_MissingManifest app profile]
         | Err e \<Rightarrow> [storage_error app profile ''loading manifest'' e]
         | Ok (Some m) \<Rightarrow>
             let errors = validate_stored_policy (sm_doc m) candidate
             in (case st_policies_for_app store app of
                   Err e \<Rightarrow> errors @ [storage_error app profile ''loading policies'' e]
                 | Ok existing \<Rightarrow> errors @ chain_errors app (candidate_map existing candidate) profile))"

section \<open>From error lists to conditions\<close>

lemma tree_entry_errors_Nil_iff:
  "tree_entry_errors dr m p e = [] \<longleftrightarrow>
     (\<exists>f. leaf_by_path m (fst e) = Some f \<and> dr f (snd e) = None \<and> constraint_violation_detail f (snd e) = None)"
  by (auto simp: tree_entry_errors_def split: option.splits)

definition tree_conforms ::
  "(field_manifest \<Rightarrow> json \<Rightarrow> warning_reason option) \<Rightarrow> config_manifest \<Rightarrow> json_map \<Rightarrow> bool" where
  "tree_conforms dr m t \<longleftrightarrow>
     (\<forall>(p, v) \<in> set t. \<exists>f. leaf_by_path m p = Some f \<and> dr f v = None \<and> constraint_violation_detail f v = None)"

definition policy_conforms :: "config_manifest \<Rightarrow> stored_policy \<Rightarrow> bool" where
  "policy_conforms m p \<longleftrightarrow>
     tree_conforms server_tree_drop_reason_recommended m (sp_recommended p) \<and>
     tree_conforms server_tree_drop_reason_enforced m (sp_enforced p)"

lemma validate_stored_policy_Nil_iff: "validate_stored_policy m p = [] \<longleftrightarrow> policy_conforms m p"
  by (fastforce simp: validate_stored_policy_def policy_conforms_def tree_conforms_def tree_entry_errors_Nil_iff)

lemma by_profile_of_contains: "map_of (by_profile_of ps) q \<noteq> None \<longleftrightarrow> q \<in> sp_profile ` set ps"
  unfolding by_profile_of_def hm_of_list_lookup map_of_eq_None_iff by (simp add: image_image)

lemma by_profile_of_SomeD: "map_of (by_profile_of ps) q = Some p \<Longrightarrow> p \<in> set ps \<and> sp_profile p = q"
  unfolding by_profile_of_def hm_of_list_lookup by (auto dest!: map_of_SomeD)

lemma by_profile_of_distinct:
  "distinct (map sp_profile ps) \<Longrightarrow> p \<in> set ps \<Longrightarrow> map_of (by_profile_of ps) (sp_profile p) = Some p"
  unfolding by_profile_of_def hm_of_list_lookup
  by (subst map_of_rev) (auto simp: comp_def map_of_eq_Some_iff)

definition chain_ok :: "policies_by_profile \<Rightarrow> string \<Rightarrow> bool" where
  "chain_ok by_profile q = (case resolve_chain by_profile q of Ok _ \<Rightarrow> True | Err _ \<Rightarrow> False)"

lemma chain_ok_iff: "chain_ok by_profile q \<longleftrightarrow> (\<exists>c. is_chain (map_of by_profile) q c)"
  unfolding chain_ok_def resolve_chain_Ok_iff [symmetric] by (auto split: sum.splits)

lemma chain_errors_Nil_iff:
  "chain_errors app by_profile q = [] \<longleftrightarrow> chain_ok by_profile q \<or> map_of by_profile q = None"
  using resolve_chain_not_found_iff [of by_profile q]
  by (auto simp: chain_errors_def chain_ok_def split: sum.splits inheritance_error.splits)

lemma missing_profile_Nil_iff:
  "assignment_rule_missing_profile_errors app rules by_profile = [] \<longleftrightarrow>
     (\<forall>r \<in> set rules. map_of by_profile (ar_profile r) \<noteq> None)"
  by (auto simp: assignment_rule_missing_profile_errors_def filter_empty_conv)

lemma default_last_Nil_iff:
  "default_rule_not_last_errors app rules = [] \<longleftrightarrow>
     (\<forall>r \<in> set rules. ar_operator r = Default \<longrightarrow> (\<forall>r' \<in> set rules. ar_ord r' \<le> ar_ord r))"
proof -
  have max: "ar_ord r = Max (ar_ord ` set rules) \<longleftrightarrow> (\<forall>r' \<in> set rules. ar_ord r' \<le> ar_ord r)" if "r \<in> set rules" for r
  proof
    assume "ar_ord r = Max (ar_ord ` set rules)"
    then show "\<forall>r' \<in> set rules. ar_ord r' \<le> ar_ord r" by simp
  next
    assume "\<forall>r' \<in> set rules. ar_ord r' \<le> ar_ord r"
    then have "Max (ar_ord ` set rules) = ar_ord r" using that by (intro Max_eqI) auto
    then show "ar_ord r = Max (ar_ord ` set rules)" ..
  qed
  show ?thesis
    by (cases "rules = []") (auto simp: default_rule_not_last_errors_def Let_def filter_empty_conv max)
qed

definition app_valid :: "policy_store \<Rightarrow> string \<Rightarrow> bool" where
  "app_valid store app \<longleftrightarrow>
     (case (st_manifest store app, st_policies_for_app store app, st_assignment_rules store app) of
        (Ok m, Ok policies, Ok rules) \<Rightarrow>
          (\<forall>r \<in> set rules. ar_profile r \<in> sp_profile ` set policies) \<and>
          (\<forall>r \<in> set rules. ar_operator r = Default \<longrightarrow> (\<forall>r' \<in> set rules. ar_ord r' \<le> ar_ord r)) \<and>
          (case m of
             None \<Rightarrow> policies = []
           | Some sm \<Rightarrow> (\<forall>p \<in> set policies. policy_conforms (sm_doc sm) p) \<and>
                        (\<forall>p \<in> set policies. chain_ok (by_profile_of policies) (sp_profile p)))
      | _ \<Rightarrow> False)"

lemma validate_app_Nil_iff: "validate_app store app = [] \<longleftrightarrow> app_valid store app"
proof (cases "\<exists>m policies rules. st_manifest store app = Ok m \<and> st_policies_for_app store app = Ok policies \<and>
    st_assignment_rules store app = Ok rules")
  case True
  then obtain m policies rules where eqs: "st_manifest store app = Ok m"
    "st_policies_for_app store app = Ok policies" "st_assignment_rules store app = Ok rules" by blast
  have chains: "chain_errors app (by_profile_of policies) (sp_profile p) = [] \<longleftrightarrow>
      chain_ok (by_profile_of policies) (sp_profile p)" if "p \<in> set policies" for p
    using that by_profile_of_contains [of policies "sp_profile p"] by (auto simp: chain_errors_Nil_iff)
  have rules: "assignment_rule_missing_profile_errors app rules (by_profile_of policies) = [] \<longleftrightarrow>
      (\<forall>r \<in> set rules. ar_profile r \<in> sp_profile ` set policies)"
    unfolding missing_profile_Nil_iff by_profile_of_contains ..
  show ?thesis
  proof (cases m)
    case None
    then show ?thesis by (auto simp: validate_app_def app_valid_def eqs rules default_last_Nil_iff Let_def)
  next
    case (Some sm)
    then show ?thesis
      using chains
      by (auto simp: validate_app_def app_valid_def eqs rules default_last_Nil_iff validate_stored_policy_Nil_iff Let_def)
  qed
next
  case False
  then show ?thesis
    by (cases "st_manifest store app"; cases "st_policies_for_app store app"; cases "st_assignment_rules store app")
      (auto simp: validate_app_def app_valid_def Let_def split: option.splits)
qed

lemma validate_all_Ok_iff:
  "validate_all store = Ok () \<longleftrightarrow> (\<exists>apps. st_apps store = Ok apps \<and> (\<forall>app \<in> set apps. app_valid store app))"
  by (auto simp: validate_all_def Let_def validate_app_Nil_iff split: sum.splits)

section \<open>What a validated policy does on the client\<close>

lemma tree_conforms_lookup:
  "tree_conforms dr m t \<Longrightarrow> map_of t p = Some v \<Longrightarrow>
   \<exists>f. leaf_by_path m p = Some f \<and> dr f v = None \<and> constraint_violation_detail f v = None"
  by (auto simp: tree_conforms_def dest!: map_of_SomeD)

lemma conforming_no_warnings:
  assumes d: "distinct (map lf_path (iter_leaves m))"
    and "tree_conforms server_tree_drop_reason_recommended m (ri_recommended i)"
    and "tree_conforms server_tree_drop_reason_enforced m (ri_enforced i)"
  shows "rs_warnings (resolve m i) = []"
proof -
  have "leaf_warnings i l = []" if l: "l \<in> set (iter_leaves m)" for l
    using leaf_by_path_complete [OF d l] tree_conforms_lookup [OF assms(2), of "lf_path l"]
      tree_conforms_lookup [OF assms(3), of "lf_path l"]
    by (auto simp: leaf_warnings_def split: Option.bind_split option.split)
  moreover have "p \<in> lf_path ` set (iter_leaves m)" if "p \<in> fst ` set (ri_recommended i) \<union> fst ` set (ri_enforced i)" for p
    using that assms(2,3) leaf_by_path_None_iff [of m p] by (fastforce simp: tree_conforms_def)
  ultimately show ?thesis by (auto simp: resolve_warnings)
qed

lemma tree_conforms_flatten:
  assumes "\<forall>p \<in> set c. wf_stored_policy p" "\<forall>p \<in> set c. policy_conforms m p"
  shows "tree_conforms server_tree_drop_reason_enforced m (fst (flatten c)) \<and>
         tree_conforms server_tree_drop_reason_recommended m (snd (flatten c))"
proof -
  have "map_of (fst (flatten c)) k = Some v" if "(k, v) \<in> set (fst (flatten c))" for k v
    using that flatten_wf [of c] by (simp add: bm_wf_distinct)
  moreover have "map_of (snd (flatten c)) k = Some v" if "(k, v) \<in> set (snd (flatten c))" for k v
    using that flatten_wf [of c] by (simp add: bm_wf_distinct)
  ultimately show ?thesis
    using flatten_lookup_find [OF assms(1)] assms(2) tree_conforms_lookup
    unfolding tree_conforms_def [of _ m "fst (flatten c)"] tree_conforms_def [of _ m "snd (flatten c)"]
    by (fastforce simp: policy_conforms_def dest!: find_map_SomeD)
qed

section \<open>Properties\<close>

text \<open>
  C9. Server and client agree on what a valid policy is: when every policy of an inheritance chain
  passes validation against the manifest, the flattened document a client receives is applied in
  full. The client's resolver drops nothing (no warning at all), and every enforced entry is the
  resolved value of its field, locked, and within the constraints the field declares, whatever the
  local layers hold.
\<close>

theorem validated_chain_applies_in_full:
  assumes "distinct (map lf_path (iter_leaves m))"
    and "\<forall>p \<in> set c. wf_stored_policy p" "\<forall>p \<in> set c. validate_stored_policy m p = []"
    and "ri_enforced i = fst (flatten c)" "ri_recommended i = snd (flatten c)"
  shows "rs_warnings (resolve m i) = [] \<and>
         (\<forall>path v. map_of (fst (flatten c)) path = Some v \<longrightarrow>
            resolved_value (resolve m i) path = Some v \<and>
            resolved_provenance (resolve m i) path = Some \<lparr>pv_layer = LEnforced, pv_locked = True\<rparr> \<and>
            (\<exists>f. leaf_by_path m path = Some f \<and> constraint_violation_detail f v = None))"
proof (intro conjI allI impI)
  have conf: "tree_conforms server_tree_drop_reason_enforced m (ri_enforced i)"
      "tree_conforms server_tree_drop_reason_recommended m (ri_recommended i)"
    using tree_conforms_flatten [OF assms(2)] assms(3-5) by (auto simp: validate_stored_policy_Nil_iff)
  show "rs_warnings (resolve m i) = []" by (rule conforming_no_warnings [OF assms(1) conf(2,1)])
  fix path v
  assume v: "map_of (fst (flatten c)) path = Some v"
  then obtain f where f: "leaf_by_path m path = Some f" "server_tree_drop_reason_enforced f v = None"
      "constraint_violation_detail f v = None"
    using tree_conforms_lookup [OF conf(1)] assms(4) by auto
  let ?l = "\<lparr>lf_path = path, lf_field = f\<rparr>"
  have l: "?l \<in> set (iter_leaves m)" by (rule leaf_by_path_SomeD [OF f(1)])
  have lv: "layer_value i ?l LEnforced = Some v" using v f assms(4) by simp
  moreover have "y \<le> LEnforced" for y by (cases y) (simp_all add: less_eq_layer_def)
  ultimately have e: "effective_layer i ?l = LEnforced" by (intro effective_layer_eqI) auto
  show "resolved_value (resolve m i) path = Some v"
      "resolved_provenance (resolve m i) path = Some \<lparr>pv_layer = LEnforced, pv_locked = True\<rparr>"
    using resolve_lookup [OF assms(1) l, of i] e lv by (simp_all add: provenance_new_def)
  show "\<exists>f. leaf_by_path m path = Some f \<and> constraint_violation_detail f v = None" using f by blast
qed

theorem validated_chain_applies_in_full_witness:
  "rs_warnings (resolve sample_manifest
     (sample_input\<lparr>ri_enforced := fst (flatten [sample_policy ''dev'' None [(''net.url'', JStr ''c'')]]),
                   ri_recommended := snd (flatten [sample_policy ''dev'' None [(''net.url'', JStr ''c'')]])\<rparr>)) = []"
proof -
  let ?c = "[sample_policy ''dev'' None [(''net.url'', JStr ''c'')]]"
  have "\<forall>p \<in> set ?c. wf_stored_policy p" "\<forall>p \<in> set ?c. validate_stored_policy sample_manifest p = []"
    by code_simp+
  moreover have "distinct (map lf_path (iter_leaves sample_manifest))" by (simp add: sample_leaves)
  ultimately show ?thesis
    using validated_chain_applies_in_full [of sample_manifest ?c] by simp
qed

text \<open>
  The startup validation accepts a store exactly when every listing succeeds and, for every
  application: each assignment rule names a stored profile, a default rule is ordered last, and
  either nothing is stored without a manifest or every policy conforms to the manifest and has a
  complete, acyclic chain of parents.
\<close>

theorem validate_all_iff_valid:
  "validate_all store = Ok () \<longleftrightarrow> (\<exists>apps. st_apps store = Ok apps \<and> list_all (app_valid store) apps)"
  by (auto simp: validate_all_Ok_iff list_all_iff)

end
