(* ===== verification/Stores.thy ===== *)
theory Stores
  imports Validate
begin

text \<open>
  The writing side of the storage interface (\<open>config/service/store.rs\<close>,
  \<open>config/service/admin_store.rs\<close>) and the in-memory user store
  (\<open>config/service/memory_store.rs\<close>).

  Every versioned resource of the service, whichever backend holds it, is written by
  compare-and-set on its version. That contract is the locale \<open>versioned_store\<close>; the guarantees a
  client relies on (no lost update, one winner among writers with the same expected version, what a
  failed write leaves behind) are proved once there, for arbitrary sequences of writes.
\<close>

section \<open>Optimistic concurrency\<close>

locale versioned_store =
  fixes ver :: "'db \<Rightarrow> 'k \<Rightarrow> u64"
    and put :: "'k \<Rightarrow> 'w \<Rightarrow> u64 \<Rightarrow> 'db \<Rightarrow> ('e + u64) \<times> 'db"
  assumes put_Ok: "put k w expected db = (Ok v, db') \<Longrightarrow>
      ver db k = expected \<and> v = expected + 1 \<and> ver db' = (ver db)(k := v)"
    and put_Err: "put k w expected db = (Err e, db') \<Longrightarrow> ver db' = ver db"
begin

text \<open>A sequence of writes: each is a key, a content and the expected version.\<close>

fun run :: "('k \<times> 'w \<times> u64) list \<Rightarrow> 'db \<Rightarrow> ('e + u64) list \<times> 'db" where
  "run [] db = ([], db)"
| "run ((k, w, expected) # ops) db =
     (case put k w expected db of
        (r, db') \<Rightarrow> (case run ops db' of (rs, db'') \<Rightarrow> (r # rs, db'')))"

text \<open>The number of successful writes to a key.\<close>

fun wins :: "'k \<Rightarrow> ('k \<times> 'w \<times> u64) list \<Rightarrow> ('e + u64) list \<Rightarrow> nat" where
  "wins k ((k', _, _) # ops) (r # rs) = (if k' = k \<and> \<not> isl r then 1 else 0) + wins k ops rs"
| "wins k _ _ = 0"

lemma put_version: "ver (snd (put k' w x db)) k =
    (if k' = k \<and> \<not> isl (fst (put k' w x db)) then ver db k + 1 else ver db k)"
proof (cases "put k' w x db")
  case (Pair r db')
  show ?thesis
  proof (cases r)
    case (Inl e)
    then show ?thesis using put_Err [of k' w x db e db'] Pair by simp
  next
    case (Inr v)
    then show ?thesis using put_Ok [of k' w x db v db'] Pair by auto
  qed
qed

lemma run_version: "run ops db = (rs, db') \<Longrightarrow> ver db' k = ver db k + of_nat (wins k ops rs)"
proof (induction ops arbitrary: db rs)
  case Nil
  then show ?case by simp
next
  case (Cons op ops)
  obtain k' w x where op: "op = (k', w, x)" by (metis prod_cases3)
  obtain r db1 where p: "put k' w x db = (r, db1)" by fastforce
  obtain rs1 where rs1: "run ops db1 = (rs1, db')" "rs = r # rs1"
    using Cons.prems by (auto simp: op p split: prod.splits)
  have "ver db' k = ver db1 k + of_nat (wins k ops rs1)" by (rule Cons.IH [OF rs1(1)])
  moreover have "ver db1 k = (if k' = k \<and> \<not> isl r then ver db k + 1 else ver db k)"
    using put_version [of k' w x db k] p by simp
  ultimately show ?case by (simp add: op rs1(2) add.assoc)
qed

text \<open>
  A write that succeeds with the version read earlier proves that nobody wrote the key in between.
\<close>

lemma no_lost_update:
  assumes "run ops db = (rs, db')" "put k w (ver db k) db' = (Ok v, db'')" "length ops < 2 ^ 64"
  shows "wins k ops rs = 0"
proof -
  have len: "wins k os qs \<le> length os" for os qs
    by (induction k os qs rule: wins.induct) auto
  have "ver db k + of_nat (wins k ops rs) = ver db k"
    using run_version [OF assms(1), of k] put_Ok [OF assms(2)] by simp
  then have "(of_nat (wins k ops rs) :: u64) = 0" by simp
  then have "unat (of_nat (wins k ops rs) :: u64) = 0" by simp
  then have "wins k ops rs mod 2 ^ 64 = 0" by (simp add: unsigned_of_nat take_bit_eq_mod)
  moreover have "wins k ops rs < 2 ^ 64" using len [of ops rs] assms(3) by simp
  ultimately show ?thesis by simp
qed

text \<open>Of two writes with the same expected version at most one succeeds.\<close>

definition after :: "('k \<times> 'w \<times> u64) list \<Rightarrow> 'db \<Rightarrow> 'db" where
  "after ops db = fold (\<lambda>(k, w, x) db. snd (put k w x db)) ops db"

lemma run_after: "snd (run ops db) = after ops db"
  unfolding after_def by (induction ops arbitrary: db) (auto split: prod.splits, metis snd_conv)

lemma one_winner:
  assumes "put k w x db = (Ok v, db')" "db'' = after ops db'" "Suc (length ops) < 2 ^ 64"
  shows "\<exists>e. put k w' x db'' = (Err e, snd (put k w' x db''))"
proof (rule ccontr)
  obtain rs where rs: "run ops db' = (rs, db'')"
    using assms(2) run_after [of ops db'] by (cases "run ops db'") auto
  assume "\<not> (\<exists>e. put k w' x db'' = (Err e, snd (put k w' x db'')))"
  then obtain v' db3 where second: "put k w' x db'' = (Ok v', db3)"
    by (cases "put k w' x db''", cases "fst (put k w' x db'')") auto
  have x: "ver db k = x" using put_Ok [OF assms(1)] by simp
  have "run ((k, w, x) # ops) db = (Ok v # rs, db'')" using assms(1) rs by simp
  then have "wins k ((k, w, x) # ops) (Ok v # rs) = 0"
    using no_lost_update [of "(k, w, x) # ops" db "Ok v # rs" db'' k w' v' db3] second x assms(3) by simp
  then show False by simp
qed

end

section \<open>Documents of the administrative interface\<close>

record policy_write =
  pw_enforced :: json_map
  pw_recommended :: json_map
  pw_parent_profile :: "string option"
  pw_max_cache_age_secs :: u64
  pw_stale_action :: stale_action

record mutation_log_entry =
  ml_id :: nat
  ml_app :: string
  ml_profile :: "string option"
  ml_kind :: mutation_kind
  ml_actor :: string
  ml_occurred_at :: u64
  ml_submitted :: json
  ml_resulting_document :: json
  ml_resulting_version :: u64

record import_summary =
  is_manifests :: nat
  is_policies :: nat
  is_assignment_rules :: nat

section \<open>The in-memory user store\<close>

text \<open>The lock is never poisoned: no operation panics while it is held.\<close>

type_synonym user_docs = "(string \<times> string, stored_user_config) hash_map"

definition memory_get :: "user_docs \<Rightarrow> string \<Rightarrow> string \<Rightarrow> store_error + stored_user_config" where
  "memory_get docs app subject =
     Ok (case map_of docs (app, subject) of
           Some d \<Rightarrow> d
         | None \<Rightarrow> \<lparr>su_app = app, su_subject = subject, su_doc = [], su_version = 0\<rparr>)"

definition memory_put ::
  "string \<Rightarrow> string \<Rightarrow> json_map \<Rightarrow> u64 \<Rightarrow> user_docs \<Rightarrow> (user_config_write_error + u64) \<times> user_docs" where
  "memory_put app subject doc expected docs =
     (let current = (case map_of docs (app, subject) of Some d \<Rightarrow> su_version d | None \<Rightarrow> 0)
      in if current \<noteq> expected then (Err (UserConflict current expected), docs)
         else let new_version = current + 1
              in (Ok new_version,
                  hm_insert (app, subject)
                    \<lparr>su_app = app, su_subject = subject, su_doc = doc, su_version = new_version\<rparr> docs))"

definition memory_version :: "user_docs \<Rightarrow> string \<times> string \<Rightarrow> u64" where
  "memory_version docs k = (case map_of docs k of Some d \<Rightarrow> su_version d | None \<Rightarrow> 0)"

interpretation memory_users: versioned_store memory_version "\<lambda>(app, subject) doc. memory_put app subject doc"
  by unfold_locales (auto simp: memory_put_def memory_version_def Let_def fun_eq_iff split: if_splits)

text \<open>Reading after a write returns what was written.\<close>

lemma memory_get_after_put:
  "memory_put app subject doc x docs = (Ok v, docs') \<Longrightarrow>
   memory_get docs' app subject = Ok \<lparr>su_app = app, su_subject = subject, su_doc = doc, su_version = v\<rparr>"
  by (auto simp: memory_put_def memory_get_def Let_def split: if_splits)

end
