(* ===== verification/Postgres.thy ===== *)
theory Postgres
  imports Stores
begin

text \<open>
  The Postgres stores (\<open>config/service/postgres/mod.rs\<close>). A database is a record of its tables, a
  table an association list by primary key (an update keeps the row's place, an insert appends), so
  a transaction is a function from the database it starts from: it commits the new database or rolls
  back to the old one. What the database may answer is a parameter (\<open>pg_env\<close>): a failure of any
  statement, and the database a concurrent first writer committed when an insert loses the race on
  its primary key. A commit that reports a failure is taken as not having happened.

  The serde conversions of a manifest are parameters. Versions are the 64-bit words of the code; the
  casts to and from the signed column type cancel out.
\<close>

section \<open>Tables\<close>

record manifest_row =
  mr_doc :: json
  mr_version :: u64

record policy_row =
  pr_enforced :: json
  pr_recommended :: json
  pr_parent_profile :: "string option"
  pr_max_cache_age_secs :: u64
  pr_stale_action :: string
  pr_version :: u64

record assignment_row =
  as_claim_path :: string
  as_operator :: string
  as_value :: "json option"
  as_profile :: string

record user_row =
  ur_doc :: json
  ur_version :: u64

record log_row =
  lg_id :: nat
  lg_app :: string
  lg_profile :: "string option"
  lg_kind :: string
  lg_actor :: string
  lg_occurred_at :: u64
  lg_submitted :: json
  lg_resulting_document :: json
  lg_resulting_version :: u64

record pg_db =
  db_manifest :: "(string \<times> manifest_row) list"
  db_policy :: "((string \<times> string) \<times> policy_row) list"
  db_assignment :: "((string \<times> i64) \<times> assignment_row) list"
  db_assignment_set :: "(string \<times> u64) list"
  db_user_config :: "((string \<times> string) \<times> user_row) list"
  db_log :: "log_row list"
  db_next_id :: nat

datatype stmt =
    Begin
  | SelectManifest string
  | SelectPolicies string
  | SelectPolicy string string
  | SelectRules string
  | SelectSet string
  | SelectApps
  | SelectUser string string
  | SelectHistory string string
  | SelectWinner
  | WriteManifest string
  | WritePolicy string string
  | DeleteRules string
  | InsertRule string nat
  | WriteSet string
  | WriteUser string string
  | InsertLog string
  | Commit

record pg_env =
  pg_fault :: "stmt \<Rightarrow> string option"
  pg_race :: "pg_db option"
  pg_now :: u64

record manifest_serde =
  ms_to_value :: "config_manifest \<Rightarrow> string + json"
  ms_from_value :: "json \<Rightarrow> string + config_manifest"

definition exec_stmt :: "pg_env \<Rightarrow> stmt \<Rightarrow> store_error + unit" where
  "exec_stmt env s = (case pg_fault env s of Some m \<Rightarrow> Err (Backend m) | None \<Rightarrow> Ok ())"

text \<open>How a transaction ends other than by a commit.\<close>

datatype 'e abort = RolledBack 'e | LostRace 'e pg_db

definition run_tx :: "pg_db \<Rightarrow> 'e abort + 'a \<times> pg_db \<Rightarrow> ('e + 'a) \<times> pg_db" where
  "run_tx db r =
     (case r of
        Ok (a, db') \<Rightarrow> (Ok a, db')
      | Err (RolledBack e) \<Rightarrow> (Err e, db)
      | Err (LostRace e db') \<Rightarrow> (Err e, db'))"

definition admin_stmt :: "pg_env \<Rightarrow> stmt \<Rightarrow> admin_write_error abort + unit" where
  "admin_stmt env s = map_err (\<lambda>e. RolledBack (AdminStore e)) (exec_stmt env s)"

text \<open>
  An insert on a key that did not exist when the transaction looked: with a concurrent winner it is
  a unique violation, the transaction is rolled back and the winner's version is read afresh.
\<close>

definition insert_race :: "pg_env \<Rightarrow> bool \<Rightarrow> (pg_db \<Rightarrow> u64 option) \<Rightarrow> u64 \<Rightarrow> u64 \<Rightarrow> admin_write_error abort + unit" where
  "insert_race env exists reread current expected =
     (case pg_race env of
        Some db' \<Rightarrow>
          if exists then Ok ()
          else (case exec_stmt env SelectWinner of
                  Err e \<Rightarrow> Err (LostRace (AdminStore e) db')
                | Ok _ \<Rightarrow> Err (LostRace (Conflict (case reread db' of Some v \<Rightarrow> v | None \<Rightarrow> current) expected) db'))
      | None \<Rightarrow> Ok ())"

section \<open>Rows\<close>

definition parse_stale_action :: "string \<Rightarrow> string \<Rightarrow> store_error + stale_action" where
  "parse_stale_action app raw =
     (if raw = ''warn'' then Ok Warn
      else if raw = ''refuse'' then Ok Refuse
      else Err (Corrupt app (''policy.stale_action has unrecognized value '' @ [CHR 0x27] @ raw @ [CHR 0x27])))"

fun stale_action_wire_str :: "stale_action \<Rightarrow> string" where
  "stale_action_wire_str Warn = ''warn''"
| "stale_action_wire_str Refuse = ''refuse''"

interpretation stale_wire: wire_enum stale_action_wire_str
  "\<lambda>s. case parse_stale_action app s of Ok a \<Rightarrow> Some a | Err _ \<Rightarrow> None"
proof
  show "(case parse_stale_action app (stale_action_wire_str x) of Ok a \<Rightarrow> Some a | Err _ \<Rightarrow> None) = Some x" for x
    by (cases x) (simp_all add: parse_stale_action_def)
qed (auto simp: parse_stale_action_def split: if_splits)

lemma parse_stale_action_wire [simp]: "parse_stale_action app (stale_action_wire_str a) = Ok a"
  by (cases a) (simp_all add: parse_stale_action_def)

definition row_to_mutation_log_entry :: "log_row \<Rightarrow> store_error + mutation_log_entry" where
  "row_to_mutation_log_entry r =
     (case mutation_kind_parse_wire_str (lg_kind r) of
        None \<Rightarrow> Err (Corrupt (lg_app r) (''mutation_log.kind has unrecognized value '' @ [CHR 0x27] @ lg_kind r @ [CHR 0x27]))
      | Some kind \<Rightarrow>
          Ok \<lparr>ml_id = lg_id r, ml_app = lg_app r, ml_profile = lg_profile r, ml_kind = kind,
              ml_actor = lg_actor r, ml_occurred_at = lg_occurred_at r, ml_submitted = lg_submitted r,
              ml_resulting_document = lg_resulting_document r, ml_resulting_version = lg_resulting_version r\<rparr>)"

text \<open>An optional string or value in a JSON document.\<close>

definition opt_json :: "json option \<Rightarrow> json" where
  "opt_json v = (case v of Some j \<Rightarrow> j | None \<Rightarrow> JNull)"

definition policy_resulting_document :: "string \<Rightarrow> string \<Rightarrow> policy_write \<Rightarrow> u64 \<Rightarrow> json" where
  "policy_resulting_document app profile pol version =
     JObj (bm_of_list
       [(''app'', JStr app),
        (''profile'', JStr profile),
        (''enforced'', JObj (pw_enforced pol)),
        (''recommended'', JObj (pw_recommended pol)),
        (''parent_profile'', opt_json (map_option JStr (pw_parent_profile pol))),
        (''max_cache_age_secs'', JNum (PosInt (pw_max_cache_age_secs pol))),
        (''stale_action'', JStr (stale_action_wire_str (pw_stale_action pol))),
        (''version'', JNum (PosInt version))])"

definition row_to_stored_manifest :: "manifest_serde \<Rightarrow> string \<Rightarrow> manifest_row \<Rightarrow> store_error + stored_manifest" where
  "row_to_stored_manifest ms app r =
     and_then (map_err (Corrupt app) (ms_from_value ms (mr_doc r))) (\<lambda>doc.
       Ok \<lparr>sm_app = app, sm_doc = doc, sm_version = mr_version r\<rparr>)"

text \<open>The document in the corruption message is rendered by serde; the model names the column.\<close>

definition row_to_stored_policy :: "(string \<times> string) \<times> policy_row \<Rightarrow> store_error + stored_policy" where
  "row_to_stored_policy row =
     (case row of ((app, profile), r) \<Rightarrow>
        (case pr_enforced r of
           JObj enforced \<Rightarrow>
             (case pr_recommended r of
                JObj recommended \<Rightarrow>
                  and_then (parse_stale_action app (pr_stale_action r)) (\<lambda>stale.
                    Ok \<lparr>sp_app = app, sp_profile = profile, sp_enforced = enforced, sp_recommended = recommended,
                        sp_parent_profile = pr_parent_profile r, sp_max_cache_age_secs = pr_max_cache_age_secs r,
                        sp_stale_action = stale, sp_version = pr_version r\<rparr>)
              | _ \<Rightarrow> Err (Corrupt app ''policy.recommended is not a JSON object''))
         | _ \<Rightarrow> Err (Corrupt app ''policy.enforced is not a JSON object'')))"

definition row_to_assignment_rule :: "(string \<times> i64) \<times> assignment_row \<Rightarrow> store_error + assignment_rule" where
  "row_to_assignment_rule row =
     (case row of ((app, ord), r) \<Rightarrow>
        (case rule_operator_parse_wire_str (as_operator r) of
           None \<Rightarrow> Err (Corrupt app (''assignment.operator has unrecognized value '' @ [CHR 0x27] @ as_operator r @ [CHR 0x27]))
         | Some op \<Rightarrow>
             Ok \<lparr>ar_app = app, ar_ord = ord, ar_claim_path = as_claim_path r, ar_operator = op,
                 ar_value = as_value r, ar_profile = as_profile r\<rparr>))"

section \<open>Reads\<close>

definition pg_manifest :: "pg_env \<Rightarrow> manifest_serde \<Rightarrow> pg_db \<Rightarrow> string \<Rightarrow> store_error + stored_manifest option" where
  "pg_manifest env ms db app =
     and_then (exec_stmt env (SelectManifest app)) (\<lambda>_.
       case map_of (db_manifest db) app of
         None \<Rightarrow> Ok None
       | Some r \<Rightarrow> and_then (row_to_stored_manifest ms app r) (\<lambda>m. Ok (Some m)))"

definition pg_policy :: "pg_env \<Rightarrow> pg_db \<Rightarrow> string \<Rightarrow> string \<Rightarrow> store_error + stored_policy option" where
  "pg_policy env db app profile =
     and_then (exec_stmt env (SelectPolicy app profile)) (\<lambda>_.
       case map_of (db_policy db) (app, profile) of
         None \<Rightarrow> Ok None
       | Some r \<Rightarrow> and_then (row_to_stored_policy ((app, profile), r)) (\<lambda>p. Ok (Some p)))"

definition policy_rows :: "pg_db \<Rightarrow> string \<Rightarrow> ((string \<times> string) \<times> policy_row) list" where
  "policy_rows db app = filter (\<lambda>row. fst (fst row) = app) (db_policy db)"

definition pg_policies_for_app :: "pg_env \<Rightarrow> pg_db \<Rightarrow> string \<Rightarrow> store_error + stored_policy list" where
  "pg_policies_for_app env db app =
     and_then (exec_stmt env (SelectPolicies app)) (\<lambda>_. collect_results row_to_stored_policy (policy_rows db app))"

definition pg_assignment_rules :: "pg_env \<Rightarrow> pg_db \<Rightarrow> string \<Rightarrow> store_error + assignment_rule list" where
  "pg_assignment_rules env db app =
     and_then (exec_stmt env (SelectRules app)) (\<lambda>_.
       collect_results row_to_assignment_rule
         (sort_key (\<lambda>row. snd (fst row)) (filter (\<lambda>row. fst (fst row) = app) (db_assignment db))))"

definition pg_apps :: "pg_env \<Rightarrow> pg_db \<Rightarrow> store_error + string list" where
  "pg_apps env db =
     and_then (exec_stmt env SelectApps) (\<lambda>_.
       Ok (sorted_list_of_set (set (map fst (db_manifest db) @ map (fst \<circ> fst) (db_policy db) @
                                    map (fst \<circ> fst) (db_assignment db)))))"

definition pg_policy_store :: "pg_env \<Rightarrow> manifest_serde \<Rightarrow> pg_db \<Rightarrow> policy_store" where
  "pg_policy_store env ms db =
     \<lparr>st_manifest = pg_manifest env ms db,
      st_policy = pg_policy env db,
      st_policies_for_app = pg_policies_for_app env db,
      st_assignment_rules = pg_assignment_rules env db,
      st_apps = pg_apps env db\<rparr>"

section \<open>Administrative writes\<close>

definition append_log ::
  "pg_env \<Rightarrow> string \<Rightarrow> string option \<Rightarrow> mutation_kind \<Rightarrow> string \<Rightarrow> json \<Rightarrow> json \<Rightarrow> u64 \<Rightarrow> pg_db \<Rightarrow> pg_db" where
  "append_log env app profile kind actor submitted document version db =
     db\<lparr>db_log := db_log db @
          [\<lparr>lg_id = db_next_id db, lg_app = app, lg_profile = profile, lg_kind = mutation_kind_wire_str kind,
            lg_actor = actor, lg_occurred_at = pg_now env, lg_submitted = submitted,
            lg_resulting_document = document, lg_resulting_version = version\<rparr>],
        db_next_id := Suc (db_next_id db)\<rparr>"

definition validate_existing_policies_against_manifest ::
  "pg_env \<Rightarrow> pg_db \<Rightarrow> string \<Rightarrow> config_manifest \<Rightarrow> admin_write_error abort + unit" where
  "validate_existing_policies_against_manifest env db app new_manifest =
     and_then (admin_stmt env (SelectPolicies app)) (\<lambda>_.
     and_then (map_err (\<lambda>e. RolledBack (AdminStore e)) (collect_results row_to_stored_policy (policy_rows db app))) (\<lambda>policies.
       let errors = concat (map (validate_stored_policy new_manifest) policies)
       in if errors = [] then Ok () else Err (RolledBack (Validation errors))))"

definition manifest_version :: "pg_db \<Rightarrow> string \<Rightarrow> u64" where
  "manifest_version db app = (case map_of (db_manifest db) app of Some r \<Rightarrow> mr_version r | None \<Rightarrow> 0)"

definition pg_put_manifest ::
  "pg_env \<Rightarrow> manifest_serde \<Rightarrow> string \<Rightarrow> config_manifest \<Rightarrow> string \<Rightarrow> u64 \<Rightarrow> pg_db \<Rightarrow>
   (admin_write_error + u64) \<times> pg_db" where
  "pg_put_manifest env ms app doc actor expected db =
     run_tx db (
       and_then (admin_stmt env Begin) (\<lambda>_.
       and_then (admin_stmt env (SelectManifest app)) (\<lambda>_.
       let current = manifest_version db app
       in if current \<noteq> expected then Err (RolledBack (Conflict current expected))
          else
            and_then (validate_existing_policies_against_manifest env db app doc) (\<lambda>_.
            let new_version = current + 1
            in and_then (map_err (\<lambda>m. RolledBack (AdminStore (Backend m))) (ms_to_value ms doc)) (\<lambda>doc_value.
               and_then (insert_race env (map_of (db_manifest db) app \<noteq> None)
                           (\<lambda>d. map_option mr_version (map_of (db_manifest d) app)) current expected) (\<lambda>_.
               and_then (admin_stmt env (WriteManifest app)) (\<lambda>_.
               and_then (admin_stmt env (InsertLog app)) (\<lambda>_.
               and_then (admin_stmt env Commit) (\<lambda>_.
                 Ok (new_version,
                     append_log env app None ManifestPut actor doc_value doc_value new_version
                       (db\<lparr>db_manifest := hm_insert app \<lparr>mr_doc = doc_value, mr_version = new_version\<rparr> (db_manifest db)\<rparr>)))))))))))"

definition policy_version :: "pg_db \<Rightarrow> string \<times> string \<Rightarrow> u64" where
  "policy_version db k = (case map_of (db_policy db) k of Some r \<Rightarrow> pr_version r | None \<Rightarrow> 0)"

definition policy_row_of :: "policy_write \<Rightarrow> u64 \<Rightarrow> policy_row" where
  "policy_row_of pol version =
     \<lparr>pr_enforced = JObj (pw_enforced pol), pr_recommended = JObj (pw_recommended pol),
      pr_parent_profile = pw_parent_profile pol, pr_max_cache_age_secs = pw_max_cache_age_secs pol,
      pr_stale_action = stale_action_wire_str (pw_stale_action pol), pr_version = version\<rparr>"

definition stored_policy_of :: "string \<Rightarrow> string \<Rightarrow> policy_write \<Rightarrow> u64 \<Rightarrow> stored_policy" where
  "stored_policy_of app profile pol version =
     \<lparr>sp_app = app, sp_profile = profile, sp_enforced = pw_enforced pol, sp_recommended = pw_recommended pol,
      sp_parent_profile = pw_parent_profile pol, sp_max_cache_age_secs = pw_max_cache_age_secs pol,
      sp_stale_action = pw_stale_action pol, sp_version = version\<rparr>"

definition pg_put_policy ::
  "pg_env \<Rightarrow> manifest_serde \<Rightarrow> string \<Rightarrow> string \<Rightarrow> policy_write \<Rightarrow> mutation_kind \<Rightarrow> json \<Rightarrow> string \<Rightarrow> u64 \<Rightarrow> pg_db \<Rightarrow>
   (admin_write_error + u64) \<times> pg_db" where
  "pg_put_policy env ms app profile pol kind submitted actor expected db =
     run_tx db (
       and_then (admin_stmt env Begin) (\<lambda>_.
       and_then (admin_stmt env (SelectManifest app)) (\<lambda>_.
       and_then (case map_of (db_manifest db) app of
                   Some r \<Rightarrow> map_err (\<lambda>m. RolledBack (AdminStore (Corrupt app m))) (ms_from_value ms (mr_doc r))
                 | None \<Rightarrow> Err (RolledBack (Validation [PV_MissingManifest app profile]))) (\<lambda>manifest_doc.
       and_then (admin_stmt env (SelectPolicy app profile)) (\<lambda>_.
       let current = policy_version db (app, profile)
       in if current \<noteq> expected then Err (RolledBack (Conflict current expected))
          else
            let validation_errors = validate_stored_policy manifest_doc (stored_policy_of app profile pol current)
            in if validation_errors \<noteq> [] then Err (RolledBack (Validation validation_errors))
               else
                 let new_version = current + 1
                 in and_then (insert_race env (map_of (db_policy db) (app, profile) \<noteq> None)
                                (\<lambda>d. map_option pr_version (map_of (db_policy d) (app, profile))) current expected) (\<lambda>_.
                    and_then (admin_stmt env (WritePolicy app profile)) (\<lambda>_.
                    and_then (admin_stmt env (InsertLog app)) (\<lambda>_.
                    and_then (admin_stmt env Commit) (\<lambda>_.
                      Ok (new_version,
                          append_log env app (Some profile) kind actor submitted
                            (policy_resulting_document app profile pol new_version) new_version
                            (db\<lparr>db_policy := hm_insert (app, profile) (policy_row_of pol new_version) (db_policy db)\<rparr>)))))))))))"

definition assignment_set_version :: "pg_db \<Rightarrow> string \<Rightarrow> u64" where
  "assignment_set_version db app = (case map_of (db_assignment_set db) app of Some v \<Rightarrow> v | None \<Rightarrow> 0)"

definition assignment_rules_version :: "pg_env \<Rightarrow> pg_db \<Rightarrow> string \<Rightarrow> store_error + u64" where
  "assignment_rules_version env db app =
     and_then (exec_stmt env (SelectSet app)) (\<lambda>_. Ok (assignment_set_version db app))"

text \<open>The inserts of the rules, each at the position it has in the list.\<close>

definition rule_rows :: "string \<Rightarrow> assignment_rule list \<Rightarrow> ((string \<times> i64) \<times> assignment_row) list" where
  "rule_rows app rules =
     map (\<lambda>(i, rule). ((app, int i),
            \<lparr>as_claim_path = ar_claim_path rule, as_operator = rule_operator_wire_str (ar_operator rule),
             as_value = ar_value rule, as_profile = ar_profile rule\<rparr>))
         (enumerate 0 rules)"

definition insert_rule_stmts :: "pg_env \<Rightarrow> string \<Rightarrow> assignment_rule list \<Rightarrow> admin_write_error abort + unit" where
  "insert_rule_stmts env app rules =
     and_then (collect_results (\<lambda>i. admin_stmt env (InsertRule app i)) [0..<length rules]) (\<lambda>_. Ok ())"

definition rule_json :: "assignment_rule \<Rightarrow> (string \<times> json) list" where
  "rule_json rule =
     [(''claim_path'', JStr (ar_claim_path rule)),
      (''operator'', JStr (rule_operator_wire_str (ar_operator rule))),
      (''value'', opt_json (ar_value rule)),
      (''profile'', JStr (ar_profile rule))]"

definition replace_rules :: "string \<Rightarrow> assignment_rule list \<Rightarrow> pg_db \<Rightarrow> pg_db" where
  "replace_rules app rules db =
     db\<lparr>db_assignment := filter (\<lambda>row. fst (fst row) \<noteq> app) (db_assignment db) @ rule_rows app rules\<rparr>"

definition pg_put_assignment_rules ::
  "pg_env \<Rightarrow> string \<Rightarrow> assignment_rule list \<Rightarrow> string \<Rightarrow> u64 \<Rightarrow> pg_db \<Rightarrow> (admin_write_error + u64) \<times> pg_db" where
  "pg_put_assignment_rules env app rules actor expected db =
     run_tx db (
       and_then (admin_stmt env Begin) (\<lambda>_.
       and_then (admin_stmt env (SelectSet app)) (\<lambda>_.
       let current = assignment_set_version db app
       in if current \<noteq> expected then Err (RolledBack (Conflict current expected))
          else
            let new_version = current + 1
            in and_then (admin_stmt env (DeleteRules app)) (\<lambda>_.
               and_then (insert_rule_stmts env app rules) (\<lambda>_.
               and_then (insert_race env (map_of (db_assignment_set db) app \<noteq> None)
                           (\<lambda>d. map_of (db_assignment_set d) app) current expected) (\<lambda>_.
               and_then (admin_stmt env (WriteSet app)) (\<lambda>_.
               and_then (admin_stmt env (InsertLog app)) (\<lambda>_.
               and_then (admin_stmt env Commit) (\<lambda>_.
                 Ok (new_version,
                     append_log env app None AssignmentsPut actor
                       (JArr (map (\<lambda>r. JObj (bm_of_list (rule_json r))) rules))
                       (JArr (map (\<lambda>(i, r). JObj (bm_of_list ((''ord'', JNum (PosInt (of_nat i))) # rule_json r)))
                               (enumerate 0 rules)))
                       new_version
                       ((replace_rules app rules db)
                          \<lparr>db_assignment_set := hm_insert app new_version (db_assignment_set db)\<rparr>)))))))))))"

definition policy_history :: "pg_env \<Rightarrow> pg_db \<Rightarrow> string \<Rightarrow> string \<Rightarrow> store_error + mutation_log_entry list" where
  "policy_history env db app profile =
     and_then (exec_stmt env (SelectHistory app profile)) (\<lambda>_.
       collect_results row_to_mutation_log_entry
         (sort_key (\<lambda>r. sint (lg_resulting_version r))
            (filter (\<lambda>r. lg_app r = app \<and> lg_profile r = Some profile) (db_log db))))"

section \<open>Importing a bundle\<close>

text \<open>
  A bundle is a policy store with the applications whose assignments it declares. The first phase
  validates every application of the bundle against the bundle itself and counts what it holds.
\<close>

record policy_bundle =
  bd_store :: policy_store
  bd_declares_assignments :: "string \<Rightarrow> bool"

record import_check =
  ic_errors :: "policy_validation_error list"
  ic_manifests :: nat
  ic_policies :: nat
  ic_rules :: nat

definition import_check_app :: "policy_bundle \<Rightarrow> string \<Rightarrow> import_check \<Rightarrow> store_error + import_check" where
  "import_check_app bundle app c =
     (let store = bd_store bundle
      in and_then (st_manifest store app) (\<lambda>m.
         and_then (st_policies_for_app store app) (\<lambda>policies.
         and_then (st_assignment_rules store app) (\<lambda>rules.
           Ok \<lparr>ic_errors = ic_errors c @ concat (map (validate_policy_for_write store) policies) @
                 assignment_rule_missing_profile_errors app rules (by_profile_of policies) @
                 default_rule_not_last_errors app rules,
               ic_manifests = ic_manifests c + (if m \<noteq> None then 1 else 0),
               ic_policies = ic_policies c + length policies,
               ic_rules = ic_rules c + length rules\<rparr>))))"

text \<open>The second phase, for one application: its manifest, its policies, its assignments, its log row.\<close>

definition import_manifest ::
  "pg_env \<Rightarrow> manifest_serde \<Rightarrow> string \<Rightarrow> stored_manifest option \<Rightarrow> pg_db \<times> u64 \<Rightarrow> admin_write_error abort + pg_db \<times> u64" where
  "import_manifest env ms app manifest st =
     (case st of (db, resulting) \<Rightarrow>
        (case manifest of
           None \<Rightarrow> Ok (db, resulting)
         | Some m \<Rightarrow>
             and_then (admin_stmt env (SelectManifest app)) (\<lambda>_.
             let new_version = manifest_version db app + 1
             in and_then (validate_existing_policies_against_manifest env db app (sm_doc m)) (\<lambda>_.
                and_then (map_err (\<lambda>x. RolledBack (AdminStore (Backend x))) (ms_to_value ms (sm_doc m))) (\<lambda>doc_value.
                and_then (admin_stmt env (WriteManifest app)) (\<lambda>_.
                  Ok (db\<lparr>db_manifest := hm_insert app \<lparr>mr_doc = doc_value, mr_version = new_version\<rparr> (db_manifest db)\<rparr>,
                      max resulting new_version)))))))"

definition import_policy ::
  "pg_env \<Rightarrow> string \<Rightarrow> stored_policy \<Rightarrow> pg_db \<times> u64 \<Rightarrow> admin_write_error abort + pg_db \<times> u64" where
  "import_policy env app pol st =
     (case st of (db, resulting) \<Rightarrow>
        and_then (admin_stmt env (SelectPolicy app (sp_profile pol))) (\<lambda>_.
        let new_version = policy_version db (app, sp_profile pol) + 1;
            write = \<lparr>pw_enforced = sp_enforced pol, pw_recommended = sp_recommended pol,
                     pw_parent_profile = sp_parent_profile pol, pw_max_cache_age_secs = sp_max_cache_age_secs pol,
                     pw_stale_action = sp_stale_action pol\<rparr>
        in and_then (admin_stmt env (WritePolicy app (sp_profile pol))) (\<lambda>_.
             Ok (db\<lparr>db_policy := hm_insert (app, sp_profile pol) (policy_row_of write new_version) (db_policy db)\<rparr>,
                 max resulting new_version))))"

definition import_assignments ::
  "pg_env \<Rightarrow> string \<Rightarrow> assignment_rule list \<Rightarrow> pg_db \<times> u64 \<Rightarrow> admin_write_error abort + pg_db \<times> u64" where
  "import_assignments env app rules st =
     (case st of (db, resulting) \<Rightarrow>
        and_then (admin_stmt env (SelectSet app)) (\<lambda>_.
        let new_version = assignment_set_version db app + 1
        in and_then (admin_stmt env (DeleteRules app)) (\<lambda>_.
           and_then (insert_rule_stmts env app rules) (\<lambda>_.
           and_then (admin_stmt env (WriteSet app)) (\<lambda>_.
             Ok ((replace_rules app rules db)\<lparr>db_assignment_set := hm_insert app new_version (db_assignment_set db)\<rparr>,
                 max resulting new_version))))))"

abbreviation bundle_read :: "store_error + 'a \<Rightarrow> admin_write_error abort + 'a" where
  "bundle_read \<equiv> map_err (\<lambda>e. RolledBack (AdminStore e))"

definition import_app ::
  "pg_env \<Rightarrow> manifest_serde \<Rightarrow> policy_bundle \<Rightarrow> string \<Rightarrow> string \<Rightarrow> pg_db \<Rightarrow> admin_write_error abort + pg_db" where
  "import_app env ms bundle actor app db =
     (let store = bd_store bundle
      in and_then (bundle_read (st_manifest store app)) (\<lambda>manifest.
         and_then (import_manifest env ms app manifest (db, 0)) (\<lambda>st1.
         and_then (bundle_read (st_policies_for_app store app)) (\<lambda>policies.
         and_then (fold_results (import_policy env app) policies st1) (\<lambda>st2.
         and_then (if bd_declares_assignments bundle app
                   then and_then (bundle_read (st_assignment_rules store app)) (\<lambda>rules.
                        and_then (import_assignments env app rules st2) (\<lambda>st3. Ok (rules, st3)))
                   else Ok ([], st2)) (\<lambda>(rules, (db3, resulting)).
         and_then (admin_stmt env (InsertLog app)) (\<lambda>_.
           Ok (append_log env app None Import actor
                 (JObj [(''source'', JStr ''bundle import'')])
                 (JObj (bm_of_list [(''manifest'', JBool (manifest \<noteq> None)),
                                    (''policies'', JNum (PosInt (of_nat (length policies)))),
                                    (''assignment_rules'', JNum (PosInt (of_nat (length rules))))]))
                 resulting db3))))))))"

definition pg_import_bundle ::
  "pg_env \<Rightarrow> manifest_serde \<Rightarrow> policy_bundle \<Rightarrow> string \<Rightarrow> pg_db \<Rightarrow> (admin_write_error + import_summary) \<times> pg_db" where
  "pg_import_bundle env ms bundle actor db =
     run_tx db (
       and_then (bundle_read (st_apps (bd_store bundle))) (\<lambda>apps.
       and_then (bundle_read (fold_results (import_check_app bundle) apps
                   \<lparr>ic_errors = [], ic_manifests = 0, ic_policies = 0, ic_rules = 0\<rparr>)) (\<lambda>c.
       if ic_errors c \<noteq> [] then Err (RolledBack (Validation (ic_errors c)))
       else
         and_then (admin_stmt env Begin) (\<lambda>_.
         and_then (fold_results (import_app env ms bundle actor) apps db) (\<lambda>db'.
         and_then (admin_stmt env Commit) (\<lambda>_.
           Ok (\<lparr>is_manifests = ic_manifests c, is_policies = ic_policies c, is_assignment_rules = ic_rules c\<rparr>, db')))))))"

section \<open>User documents\<close>

definition pg_user_get :: "pg_env \<Rightarrow> pg_db \<Rightarrow> string \<Rightarrow> string \<Rightarrow> store_error + stored_user_config" where
  "pg_user_get env db app subject =
     and_then (exec_stmt env (SelectUser app subject)) (\<lambda>_.
       case map_of (db_user_config db) (app, subject) of
         None \<Rightarrow> Ok \<lparr>su_app = app, su_subject = subject, su_doc = [], su_version = 0\<rparr>
       | Some r \<Rightarrow>
           (case ur_doc r of
              JObj m \<Rightarrow> Ok \<lparr>su_app = app, su_subject = subject, su_doc = m, su_version = ur_version r\<rparr>
            | _ \<Rightarrow> Err (Corrupt app ''user_config.doc is not a JSON object'')))"

definition user_version :: "pg_db \<Rightarrow> string \<times> string \<Rightarrow> u64" where
  "user_version db k = (case map_of (db_user_config db) k of Some r \<Rightarrow> ur_version r | None \<Rightarrow> 0)"

definition user_stmt :: "pg_env \<Rightarrow> stmt \<Rightarrow> user_config_write_error abort + unit" where
  "user_stmt env s = map_err (\<lambda>e. RolledBack (UserStore e)) (exec_stmt env s)"

definition user_insert_race ::
  "pg_env \<Rightarrow> bool \<Rightarrow> (pg_db \<Rightarrow> u64 option) \<Rightarrow> u64 \<Rightarrow> u64 \<Rightarrow> user_config_write_error abort + unit" where
  "user_insert_race env exists reread current expected =
     (case pg_race env of
        Some db' \<Rightarrow>
          if exists then Ok ()
          else (case exec_stmt env SelectWinner of
                  Err e \<Rightarrow> Err (LostRace (UserStore e) db')
                | Ok _ \<Rightarrow> Err (LostRace (UserConflict (case reread db' of Some v \<Rightarrow> v | None \<Rightarrow> current) expected) db'))
      | None \<Rightarrow> Ok ())"

definition pg_user_put ::
  "pg_env \<Rightarrow> string \<Rightarrow> string \<Rightarrow> json_map \<Rightarrow> u64 \<Rightarrow> pg_db \<Rightarrow> (user_config_write_error + u64) \<times> pg_db" where
  "pg_user_put env app subject doc expected db =
     run_tx db (
       and_then (user_stmt env Begin) (\<lambda>_.
       and_then (user_stmt env (SelectUser app subject)) (\<lambda>_.
       let current = user_version db (app, subject)
       in if current \<noteq> expected then Err (RolledBack (UserConflict current expected))
          else
            let new_version = current + 1
            in and_then (user_insert_race env (map_of (db_user_config db) (app, subject) \<noteq> None)
                           (\<lambda>d. map_option ur_version (map_of (db_user_config d) (app, subject))) current expected) (\<lambda>_.
               and_then (user_stmt env (WriteUser app subject)) (\<lambda>_.
               and_then (user_stmt env Commit) (\<lambda>_.
                 Ok (new_version,
                     db\<lparr>db_user_config :=
                          hm_insert (app, subject) \<lparr>ur_doc = JObj doc, ur_version = new_version\<rparr> (db_user_config db)\<rparr>)))))))"

section \<open>What a transaction does\<close>

lemmas stmt_defs = admin_stmt_def user_stmt_def exec_stmt_def

lemma admin_stmt_Ok_iff [simp]: "admin_stmt env s = Ok u \<longleftrightarrow> pg_fault env s = None"
  by (auto simp: stmt_defs split: option.splits)

lemma user_stmt_Ok_iff [simp]: "user_stmt env s = Ok u \<longleftrightarrow> pg_fault env s = None"
  by (auto simp: stmt_defs split: option.splits)

lemma run_tx_Ok_iff: "run_tx db r = (Ok a, db') \<longleftrightarrow> r = Ok (a, db')"
  by (auto simp: run_tx_def split: sum.splits abort.splits)

lemma run_tx_Err: "run_tx db r = (Err e, db') \<Longrightarrow> r = Err (RolledBack e) \<and> db' = db \<or> r = Err (LostRace e db')"
  by (auto simp: run_tx_def split: sum.splits abort.splits)

lemma insert_race_Ok_iff: "insert_race env ex rr c x = Ok u \<longleftrightarrow> pg_race env = None \<or> ex"
  by (auto simp: insert_race_def split: option.splits sum.splits)

lemma user_insert_race_Ok_iff: "user_insert_race env ex rr c x = Ok u \<longleftrightarrow> pg_race env = None \<or> ex"
  by (auto simp: user_insert_race_def split: option.splits sum.splits)

text \<open>Only a lost race on an insert ends a transaction in another database than it started from.\<close>

lemma not_lost:
  "admin_stmt env s \<noteq> Err (LostRace e d)" "user_stmt env s \<noteq> Err (LostRace e' d)"
  "validate_existing_policies_against_manifest env db app m \<noteq> Err (LostRace e d)"
  by (auto simp: stmt_defs validate_existing_policies_against_manifest_def Let_def and_then_def map_err_def
      split: option.splits sum.splits if_splits)

lemma insert_race_LostD: "insert_race env ex rr c x = Err (LostRace e d) \<Longrightarrow> pg_race env = Some d"
  by (auto simp: insert_race_def split: option.splits sum.splits if_splits)

lemma user_insert_race_LostD: "user_insert_race env ex rr c x = Err (LostRace e d) \<Longrightarrow> pg_race env = Some d"
  by (auto simp: user_insert_race_def split: option.splits sum.splits if_splits)

lemma insert_race_not_rolled: "insert_race env ex rr c x \<noteq> Err (RolledBack e)"
  by (auto simp: insert_race_def split: option.splits sum.splits)

lemma insert_rules_not_lost: "insert_rule_stmts env app rules \<noteq> Err (LostRace e d)"
proof -
  have "collect_results (\<lambda>i. admin_stmt env (InsertRule app i)) ns \<noteq> Err (LostRace e d)" for ns
  proof (induction ns)
    case (Cons n ns)
    then show ?case
      using not_lost(1) [of env "InsertRule app n"] by (auto split: sum.splits)
  qed simp
  then show ?thesis by (auto simp: insert_rule_stmts_def and_then_def split: sum.splits)
qed

lemma and_then_Err_iff: "and_then r k = Err e \<longleftrightarrow> r = Err e \<or> (\<exists>a. r = Ok a \<and> k a = Err e)"
  by (cases r) auto

lemmas lost_facts = not_lost insert_rules_not_lost and_then_Err_iff Let_def

lemma pg_put_manifest_Ok:
  assumes "pg_put_manifest env ms app doc actor x db = (Ok v, db')"
  shows "\<exists>dv. manifest_version db app = x \<and> v = x + 1 \<and> ms_to_value ms doc = Ok dv \<and>
           validate_existing_policies_against_manifest env db app doc = Ok () \<and>
           db' = append_log env app None ManifestPut actor dv dv v
                   (db\<lparr>db_manifest := hm_insert app \<lparr>mr_doc = dv, mr_version = v\<rparr> (db_manifest db)\<rparr>)"
  using assms by (auto simp: pg_put_manifest_def run_tx_Ok_iff and_then_Ok_iff Let_def split: if_splits)

lemma pg_put_manifest_Err:
  "pg_put_manifest env ms app doc actor x db = (Err e, db') \<Longrightarrow> db' = db \<or> pg_race env = Some db'"
  unfolding pg_put_manifest_def
  by (drule run_tx_Err) (auto simp: lost_facts map_err_def split: sum.splits if_splits dest: insert_race_LostD)

lemma pg_put_policy_Ok:
  assumes "pg_put_policy env ms app profile pol kind submitted actor x db = (Ok v, db')"
  shows "\<exists>r doc. map_of (db_manifest db) app = Some r \<and> ms_from_value ms (mr_doc r) = Ok doc \<and>
           policy_version db (app, profile) = x \<and> v = x + 1 \<and>
           validate_stored_policy doc (stored_policy_of app profile pol x) = [] \<and>
           db' = append_log env app (Some profile) kind actor submitted
                   (policy_resulting_document app profile pol v) v
                   (db\<lparr>db_policy := hm_insert (app, profile) (policy_row_of pol v) (db_policy db)\<rparr>)"
  using assms
  by (auto simp: pg_put_policy_def run_tx_Ok_iff and_then_Ok_iff Let_def split: if_splits option.splits)

lemma pg_put_policy_Err:
  "pg_put_policy env ms app profile pol kind submitted actor x db = (Err e, db') \<Longrightarrow>
   db' = db \<or> pg_race env = Some db'"
  unfolding pg_put_policy_def
  by (drule run_tx_Err)
    (auto simp: lost_facts map_err_def split: sum.splits if_splits option.splits dest: insert_race_LostD)

lemma pg_put_assignment_rules_Ok:
  assumes "pg_put_assignment_rules env app rules actor x db = (Ok v, db')"
  shows "\<exists>s d. assignment_set_version db app = x \<and> v = x + 1 \<and>
           db' = append_log env app None AssignmentsPut actor s d v
                   ((replace_rules app rules db)\<lparr>db_assignment_set := hm_insert app v (db_assignment_set db)\<rparr>)"
  using assms
  by (auto simp: pg_put_assignment_rules_def run_tx_Ok_iff and_then_Ok_iff Let_def split: if_splits)

lemma pg_put_assignment_rules_Err:
  "pg_put_assignment_rules env app rules actor x db = (Err e, db') \<Longrightarrow> db' = db \<or> pg_race env = Some db'"
  unfolding pg_put_assignment_rules_def
  by (drule run_tx_Err)
    (auto simp: lost_facts map_err_def split: sum.splits if_splits dest: insert_race_LostD)

lemma pg_user_put_Ok:
  assumes "pg_user_put env app subject doc x db = (Ok v, db')"
  shows "user_version db (app, subject) = x \<and> v = x + 1 \<and>
         db' = db\<lparr>db_user_config := hm_insert (app, subject) \<lparr>ur_doc = JObj doc, ur_version = v\<rparr> (db_user_config db)\<rparr>"
  using assms by (auto simp: pg_user_put_def run_tx_Ok_iff and_then_Ok_iff Let_def split: if_splits)

lemma pg_user_put_Err:
  "pg_user_put env app subject doc x db = (Err e, db') \<Longrightarrow> db' = db \<or> pg_race env = Some db'"
  unfolding pg_user_put_def
  by (drule run_tx_Err)
    (auto simp: lost_facts map_err_def split: sum.splits if_splits dest: user_insert_race_LostD)

section \<open>Compare-and-set\<close>

text \<open>Without a concurrent first writer each write is a compare-and-set on its resource.\<close>

abbreviation serial :: "pg_env \<Rightarrow> pg_env" where
  "serial env \<equiv> env\<lparr>pg_race := None\<rparr>"

lemma append_log_tables [simp]:
  "db_manifest (append_log env app p k a s d v db) = db_manifest db"
  "db_policy (append_log env app p k a s d v db) = db_policy db"
  "db_assignment (append_log env app p k a s d v db) = db_assignment db"
  "db_assignment_set (append_log env app p k a s d v db) = db_assignment_set db"
  "db_user_config (append_log env app p k a s d v db) = db_user_config db"
  by (simp_all add: append_log_def)

lemma replace_rules_tables [simp]:
  "db_manifest (replace_rules app rules db) = db_manifest db"
  "db_policy (replace_rules app rules db) = db_policy db"
  "db_assignment_set (replace_rules app rules db) = db_assignment_set db"
  "db_user_config (replace_rules app rules db) = db_user_config db"
  "db_log (replace_rules app rules db) = db_log db"
  "db_next_id (replace_rules app rules db) = db_next_id db"
  by (simp_all add: replace_rules_def)

interpretation pg_manifests: versioned_store manifest_version
  "\<lambda>app (env, doc, actor). pg_put_manifest (serial env) ms app doc actor"
  by unfold_locales
    (auto simp: manifest_version_def dest!: pg_put_manifest_Ok dest: pg_put_manifest_Err)

interpretation pg_policies: versioned_store policy_version
  "\<lambda>(app, profile) (env, pol, kind, submitted, actor). pg_put_policy (serial env) ms app profile pol kind submitted actor"
  by unfold_locales
    (auto simp: policy_version_def policy_row_of_def dest!: pg_put_policy_Ok dest: pg_put_policy_Err)

interpretation pg_assignment_sets: versioned_store assignment_set_version
  "\<lambda>app (env, rules, actor). pg_put_assignment_rules (serial env) app rules actor"
  by unfold_locales
    (auto simp: assignment_set_version_def dest!: pg_put_assignment_rules_Ok dest: pg_put_assignment_rules_Err)

interpretation pg_users: versioned_store user_version
  "\<lambda>(app, subject) (env, doc). pg_user_put (serial env) app subject doc"
  by unfold_locales
    (auto simp: user_version_def dest!: pg_user_put_Ok dest: pg_user_put_Err)

end
