(* ===== verification/Pg_History.thy ===== *)
theory Pg_History
  imports Postgres
begin

text \<open>
  Runs of the database: every write of the stores as a step, whatever fails in it. Over arbitrary
  runs the change record is append-only and complete (\<open>pg_steps_recorded\<close>), and writes to one
  resource are linearised by its version.
\<close>

section \<open>Steps\<close>

inductive pg_step :: "manifest_serde \<Rightarrow> pg_db \<Rightarrow> pg_db \<Rightarrow> bool" for ms :: manifest_serde where
  step_manifest: "pg_put_manifest (serial env) ms app doc actor x db = (r, db') \<Longrightarrow> pg_step ms db db'"
| step_policy: "pg_put_policy (serial env) ms app profile pol kind submitted actor x db = (r, db') \<Longrightarrow> pg_step ms db db'"
| step_assignments: "pg_put_assignment_rules (serial env) app rules actor x db = (r, db') \<Longrightarrow> pg_step ms db db'"
| step_import: "pg_import_bundle env ms bd actor db = (s, db') \<Longrightarrow> pg_step ms db db'"
| step_user: "pg_user_put (serial env) app subject doc x db = (u, db') \<Longrightarrow> pg_step ms db db'"

inductive_cases pg_stepE: "pg_step ms db db'"

text \<open>Everything stored about one application that an administrator controls.\<close>

definition app_config ::
  "pg_db \<Rightarrow> string \<Rightarrow> manifest_row option \<times> ((string \<times> string) \<times> policy_row) list \<times>
     ((string \<times> i64) \<times> assignment_row) list \<times> u64 option" where
  "app_config db app =
     (map_of (db_manifest db) app, policy_rows db app,
      filter (\<lambda>row. fst (fst row) = app) (db_assignment db), map_of (db_assignment_set db) app)"

definition recorded :: "pg_db \<Rightarrow> pg_db \<Rightarrow> bool" where
  "recorded db db' \<longleftrightarrow>
     (\<exists>new. db_log db' = db_log db @ new \<and>
        (\<forall>app. app_config db' app \<noteq> app_config db app \<longrightarrow> app \<in> lg_app ` set new))"

lemma recorded_refl: "recorded db db"
  by (simp add: recorded_def)

lemma recorded_trans: "recorded a b \<Longrightarrow> recorded b c \<Longrightarrow> recorded a c"
proof -
  assume "recorded a b" "recorded b c"
  then obtain n1 n2 where n: "db_log b = db_log a @ n1" "db_log c = db_log b @ n2"
    "\<And>app. app_config b app \<noteq> app_config a app \<Longrightarrow> app \<in> lg_app ` set n1"
    "\<And>app. app_config c app \<noteq> app_config b app \<Longrightarrow> app \<in> lg_app ` set n2"
    unfolding recorded_def by blast
  have "app \<in> lg_app ` set (n1 @ n2)" if "app_config c app \<noteq> app_config a app" for app
    using that n(3,4) [of app] by (cases "app_config b app = app_config a app") auto
  moreover have "db_log c = db_log a @ (n1 @ n2)" using n(1,2) by simp
  ultimately show ?thesis unfolding recorded_def by blast
qed

text \<open>Touching the rows of one application leaves the others alone.\<close>

lemma filter_hm_insert:
  "\<not> P k \<Longrightarrow> filter (\<lambda>row. P (fst row)) (hm_insert k v m) = filter (\<lambda>row. P (fst row)) m"
  by (induction k v m rule: hm_insert.induct) auto

definition touches :: "string \<Rightarrow> pg_db \<Rightarrow> pg_db \<Rightarrow> bool" where
  "touches app db db' \<longleftrightarrow> db_log db' = db_log db \<and> (\<forall>a. a \<noteq> app \<longrightarrow> app_config db' a = app_config db a)"

lemma touches_trans: "touches app a b \<Longrightarrow> touches app b c \<Longrightarrow> touches app a c"
  by (simp add: touches_def)

lemma touches_refl: "touches app db db"
  by (simp add: touches_def)

lemma touches_manifest: "touches app db (db\<lparr>db_manifest := hm_insert app r (db_manifest db)\<rparr>)"
  by (simp add: touches_def app_config_def policy_rows_def)

lemma touches_policy: "touches app db (db\<lparr>db_policy := hm_insert (app, q) r (db_policy db)\<rparr>)"
proof -
  have "filter (\<lambda>row. fst (fst row) = a) (hm_insert (app, q) r t) = filter (\<lambda>row. fst (fst row) = a) t"
    if "a \<noteq> app" for a t
    using filter_hm_insert [of "\<lambda>k. fst k = a" "(app, q)"] that by simp
  then show ?thesis by (simp add: touches_def app_config_def policy_rows_def)
qed

lemma rule_rows_app: "filter (\<lambda>row. fst (fst row) = a) (rule_rows app rules) = (if a = app then rule_rows app rules else [])"
  by (auto simp: rule_rows_def filter_empty_conv filter_id_conv)

lemma touches_rules:
  "touches app db ((replace_rules app rules db)\<lparr>db_assignment_set := hm_insert app v (db_assignment_set db)\<rparr>)"
proof -
  have "filter (\<lambda>row. fst (fst row) = a) (filter (\<lambda>row. fst (fst row) \<noteq> app) t) = filter (\<lambda>row. fst (fst row) = a) t"
    if "a \<noteq> app" for a and t :: "((string \<times> i64) \<times> assignment_row) list"
    using that by (auto intro!: filter_cong)
  then show ?thesis
    by (simp add: touches_def app_config_def policy_rows_def replace_rules_def rule_rows_app)
qed

lemma recorded_append_log: "touches app db db1 \<Longrightarrow> recorded db (append_log env app p k a s d v db1)"
  unfolding recorded_def touches_def
  by (intro exI [of _ "[_]"]) (auto simp: append_log_def app_config_def policy_rows_def)

lemma import_policy_touches: "import_policy env app pol (db, n) = Ok (db', n') \<Longrightarrow> touches app db db'"
  by (auto simp: import_policy_def and_then_Ok_iff Let_def touches_policy)

lemma import_manifest_touches: "import_manifest env ms app m (db, n) = Ok (db', n') \<Longrightarrow> touches app db db'"
  by (auto simp: import_manifest_def and_then_Ok_iff Let_def touches_manifest touches_refl split: option.splits)

lemma import_policies_touch:
  "fold_results (import_policy env app) policies (db, n) = Ok (db', n') \<Longrightarrow> touches app db db'"
proof -
  assume "fold_results (import_policy env app) policies (db, n) = Ok (db', n')"
  then have "touches app db (fst (db', n'))"
  proof (rule fold_results_invariant)
    fix pol st st'
    assume "touches app db (fst st)" "import_policy env app pol st = Ok st'"
    then show "touches app db (fst st')"
      using import_policy_touches touches_trans by (cases st; cases st') fastforce
  qed (simp add: touches_refl)
  then show ?thesis by simp
qed

lemma import_assignments_touches:
  "import_assignments env app rules (db, n) = Ok (db', n') \<Longrightarrow> touches app db db'"
  by (auto simp: import_assignments_def and_then_Ok_iff Let_def touches_rules touches_refl)

lemma import_app_recorded: "import_app env ms bd actor app db = Ok db' \<Longrightarrow> recorded db db'"
  by (auto simp: import_app_def and_then_Ok_iff Let_def split: if_splits
      intro!: recorded_append_log
      dest!: import_manifest_touches import_policies_touch import_assignments_touches
      intro: touches_trans)

lemma import_app_not_lost: "import_app env ms bd actor app db \<noteq> Err (LostRace e d)"
proof
  assume "import_app env ms bd actor app db = Err (LostRace e d)"
  moreover have "import_policy env app pol st \<noteq> Err (LostRace e d)" for pol st
    by (auto simp: import_policy_def lost_facts split: prod.splits)
  then have "fold_results (import_policy env app) pols st \<noteq> Err (LostRace e d)" for pols st
    using fold_results_Err by metis
  moreover have "import_manifest env ms app m st \<noteq> Err (LostRace e d)" for m st
    by (auto simp: import_manifest_def lost_facts map_err_def split: prod.splits option.splits sum.splits)
  moreover have "import_assignments env app rules st \<noteq> Err (LostRace e d)" for rules st
    by (auto simp: import_assignments_def lost_facts split: prod.splits)
  ultimately show False
    by (auto simp: import_app_def lost_facts map_err_def split: sum.splits if_splits prod.splits)
qed

lemma import_bundle_Err: "pg_import_bundle env ms bd actor db = (Err e, db') \<Longrightarrow> db' = db"
proof -
  have "fold_results (import_app env ms bd actor) apps db \<noteq> Err (LostRace e d)" for apps d
    using fold_results_Err [of "import_app env ms bd actor"] import_app_not_lost by metis
  moreover assume "pg_import_bundle env ms bd actor db = (Err e, db')"
  ultimately show "db' = db"
    unfolding pg_import_bundle_def
    by (auto dest!: run_tx_Err simp: lost_facts map_err_def split: sum.splits if_splits)
qed

lemma import_bundle_recorded: "pg_import_bundle env ms bd actor db = (r, db') \<Longrightarrow> recorded db db'"
proof (cases r)
  case (Inr s)
  assume "pg_import_bundle env ms bd actor db = (r, db')"
  then obtain apps where "fold_results (import_app env ms bd actor) apps db = Ok db'"
    by (auto simp: Inr pg_import_bundle_def run_tx_Ok_iff and_then_Ok_iff split: if_splits)
  then show ?thesis
    by (rule fold_results_invariant) (use import_app_recorded recorded_trans recorded_refl in blast)+
next
  case (Inl e)
  assume "pg_import_bundle env ms bd actor db = (r, db')"
  then have "db' = db" unfolding Inl by (rule import_bundle_Err)
  then show ?thesis by (simp add: recorded_refl)
qed

lemma pg_step_recorded: "pg_step ms db db' \<Longrightarrow> recorded db db'"
proof (erule pg_stepE)
  show "recorded db db'" if "pg_put_manifest (serial env) ms app doc actor x db = (r, db')" for env app doc actor x r
    using that
    by (cases r) (auto dest!: pg_put_manifest_Ok pg_put_manifest_Err simp: recorded_refl touches_manifest recorded_append_log)
  show "recorded db db'" if "pg_put_policy (serial env) ms app profile pol kind submitted actor x db = (r, db')"
    for env app profile pol kind submitted actor x r
    using that
    by (cases r) (auto dest!: pg_put_policy_Ok pg_put_policy_Err simp: recorded_refl touches_policy recorded_append_log)
  show "recorded db db'" if "pg_put_assignment_rules (serial env) app rules actor x db = (r, db')"
    for env app rules actor x r
    using that
    by (cases r) (auto dest!: pg_put_assignment_rules_Ok pg_put_assignment_rules_Err simp: recorded_refl touches_rules recorded_append_log)
  show "recorded db db'" if "pg_import_bundle env ms bd actor db = (s, db')" for env bd actor s
    using that by (rule import_bundle_recorded)
  show "recorded db db'" if "pg_user_put (serial env) app subject doc x db = (u, db')" for env app subject doc x u
    using that
    by (cases u)
      (auto dest!: pg_user_put_Ok pg_user_put_Err simp: recorded_refl, simp add: recorded_def app_config_def policy_rows_def)
qed

section \<open>Properties\<close>

text \<open>
  C19. Over any sequence of administrative writes, imports and user writes, successful or failing at
  any statement, the change record is append-only, and no manifest, policy or assignment of an
  application differs between two points in time unless a record naming that application was added
  in between: a stored change without a record is not representable.
\<close>

theorem pg_changes_are_recorded:
  assumes "(pg_step ms)\<^sup>*\<^sup>* db db'"
  shows "\<exists>new. db_log db' = db_log db @ new \<and>
           (\<forall>app. app_config db' app \<noteq> app_config db app \<longrightarrow> app \<in> lg_app ` set new)"
  using assms
proof (induction rule: rtranclp_induct)
  case base
  show ?case by simp
next
  case (step b c)
  then have "recorded db b" "recorded b c"
    using pg_step_recorded by (auto simp: recorded_def)
  then show ?case using recorded_trans unfolding recorded_def by blast
qed

definition empty_db :: pg_db where
  "empty_db = \<lparr>db_manifest = [], db_policy = [], db_assignment = [], db_assignment_set = [],
     db_user_config = [], db_log = [], db_next_id = 1\<rparr>"

definition quiet_env :: pg_env where
  "quiet_env = \<lparr>pg_fault = (\<lambda>_. None), pg_race = None, pg_now = 0\<rparr>"

definition sample_serde_of :: "config_manifest \<Rightarrow> manifest_serde" where
  "sample_serde_of m = \<lparr>ms_to_value = (\<lambda>x. if x = m then Ok JNull else Err ''unknown''), ms_from_value = (\<lambda>_. Ok m)\<rparr>"

theorem pg_changes_are_recorded_witness:
  "\<exists>new. db_log (snd (pg_put_manifest (serial quiet_env) (sample_serde_of sample_manifest) ''app'' sample_manifest ''me'' 0 empty_db)) =
           db_log empty_db @ new"
proof -
  let ?db = "snd (pg_put_manifest (serial quiet_env) (sample_serde_of sample_manifest) ''app'' sample_manifest ''me'' 0 empty_db)"
  have "pg_step (sample_serde_of sample_manifest) empty_db ?db"
    by (rule step_manifest [where r = "fst (pg_put_manifest (serial quiet_env) (sample_serde_of sample_manifest) ''app'' sample_manifest ''me'' 0 empty_db)"])
      simp
  from pg_changes_are_recorded [OF r_into_rtranclp [of "pg_step (sample_serde_of sample_manifest)", OF this]]
  show ?thesis by blast
qed

text \<open>
  C20. No lost update on policies: once a write with some expected version has succeeded, every later
  write of that policy with the same expected version is refused and changes nothing, however many
  other writes to any policies happen in between (fewer than the version counter can count).
\<close>

theorem pg_policy_one_winner:
  assumes "pg_put_policy (serial env) ms app profile pol kind submitted actor x db = (Ok v, db1)"
    and "Suc (length ops) < 2 ^ 64"
    and "db2 = fold (\<lambda>((a, p), (e, w, k, s, who), y) d. snd (pg_put_policy (serial e) ms a p w k s who y d)) ops db1"
  shows "\<exists>err. pg_put_policy (serial env') ms app profile pol' kind' submitted' actor' x db2 = (Err err, db2)"
proof -
  have "db2 = versioned_store.after (\<lambda>(app, profile) (env, pol, kind, submitted, actor).
      pg_put_policy (serial env) ms app profile pol kind submitted actor) ops db1"
    unfolding pg_policies.after_def assms(3) by (simp add: case_prod_unfold)
  from pg_policies.one_winner [where k = "(app, profile)" and w = "(env, pol, kind, submitted, actor)"
      and w' = "(env', pol', kind', submitted', actor')" and x = x and db = db and v = v, OF _ this assms(2)] assms(1)
  obtain err d where err: "pg_put_policy (serial env') ms app profile pol' kind' submitted' actor' x db2 = (Err err, d)"
    by (metis (no_types, lifting) case_prod_conv)
  then show ?thesis using pg_put_policy_Err [OF err] by auto
qed

definition sample_write :: policy_write where
  "sample_write = \<lparr>pw_enforced = [], pw_recommended = [], pw_parent_profile = None,
     pw_max_cache_age_secs = 60, pw_stale_action = Warn\<rparr>"

definition sample_db :: pg_db where
  "sample_db = empty_db\<lparr>db_manifest := [(''app'', \<lparr>mr_doc = JNull, mr_version = 1\<rparr>)]\<rparr>"

theorem pg_policy_one_winner_witness:
  "\<exists>err. pg_put_policy (serial quiet_env) (sample_serde_of sample_manifest) ''app'' ''p'' sample_write PolicyPut JNull ''b'' 0
       (snd (pg_put_policy (serial quiet_env) (sample_serde_of sample_manifest) ''app'' ''p'' sample_write PolicyPut JNull ''a'' 0 sample_db)) =
     (Err err, snd (pg_put_policy (serial quiet_env) (sample_serde_of sample_manifest) ''app'' ''p'' sample_write PolicyPut JNull ''a'' 0 sample_db))"
proof -
  let ?ms = "sample_serde_of sample_manifest"
  let ?db = "snd (pg_put_policy (serial quiet_env) ?ms ''app'' ''p'' sample_write PolicyPut JNull ''a'' 0 sample_db)"
  have "pg_put_policy (serial quiet_env) ?ms ''app'' ''p'' sample_write PolicyPut JNull ''a'' 0 sample_db = (Ok 1, ?db)"
    by code_simp
  from pg_policy_one_winner [OF this, of "[]" ?db quiet_env sample_write PolicyPut JNull "''b''"]
  show ?thesis by auto
qed

end
