(* ===== verification/Service_State.thy ===== *)
theory Service_State
  imports Pg_History
begin

text \<open>
  The state shared by the handlers of the configuration service (\<open>config/service/state.rs\<close>): its
  stores, its identity check and the cache of served policies.

  The stores are trait objects in the code and records of operations here, over a backing state
  \<open>'d\<close>: reading a \<open>'d\<close> gives the answers of the \<open>PolicyStore\<close>, writes return the next \<open>'d\<close>.
  \<open>pg_stores\<close> is the record of the shipped database implementation. Handlers thread the backing
  state and the cache. The standard library's hasher is a parameter.
\<close>

section \<open>Stores as objects\<close>

record 'd user_config_store =
  us_get :: "string \<Rightarrow> string \<Rightarrow> 'd \<Rightarrow> store_error + stored_user_config"
  us_put :: "string \<Rightarrow> string \<Rightarrow> json_map \<Rightarrow> u64 \<Rightarrow> 'd \<Rightarrow> (user_config_write_error + u64) \<times> 'd"

record 'd policy_admin_store =
  pa_put_manifest :: "string \<Rightarrow> config_manifest \<Rightarrow> string \<Rightarrow> u64 \<Rightarrow> 'd \<Rightarrow> (admin_write_error + u64) \<times> 'd"
  pa_put_policy :: "string \<Rightarrow> string \<Rightarrow> policy_write \<Rightarrow> mutation_kind \<Rightarrow> json \<Rightarrow> string \<Rightarrow> u64 \<Rightarrow> 'd \<Rightarrow>
                    (admin_write_error + u64) \<times> 'd"
  pa_assignment_rules_version :: "string \<Rightarrow> 'd \<Rightarrow> store_error + u64"
  pa_put_assignment_rules :: "string \<Rightarrow> assignment_rule list \<Rightarrow> string \<Rightarrow> u64 \<Rightarrow> 'd \<Rightarrow> (admin_write_error + u64) \<times> 'd"
  pa_policy_history :: "string \<Rightarrow> string \<Rightarrow> 'd \<Rightarrow> store_error + mutation_log_entry list"
  pa_import_bundle :: "policy_bundle \<Rightarrow> string \<Rightarrow> 'd \<Rightarrow> (admin_write_error + import_summary) \<times> 'd"

datatype policy_lookup_error = LookupUnmanaged | LookupInternal string

record matched_rule =
  mt_ord :: i64
  mt_claim_path :: "string option"
  mt_operator :: rule_operator
  mt_value :: "json option"

record resolve_diagnostic_body =
  rd_profile :: string
  rd_matched_rule :: matched_rule

type_synonym policy_cache_map = "(string \<times> string \<times> u64, policy) hash_map"

record 'd config_service_state =
  cs_policy_store :: "'d \<Rightarrow> policy_store"
  cs_user_config_store :: "'d user_config_store"
  cs_identity :: "string option \<Rightarrow> config_service_error + json"
  cs_max_user_config_bytes :: nat
  cs_admin_store :: "'d policy_admin_store option"
  cs_admin_rule :: assignment_rule
  cs_cache :: policy_cache_map

section \<open>Construction\<close>

definition DEFAULT_MAX_USER_CONFIG_BYTES :: nat where
  "DEFAULT_MAX_USER_CONFIG_BYTES = 64 * 1024"

definition default_admin_rule :: assignment_rule where
  "default_admin_rule =
     \<lparr>ar_app = '''', ar_ord = 0, ar_claim_path = ''realm_access.roles'', ar_operator = Contains,
      ar_value = Some (JStr ''config-admin''), ar_profile = ''''\<rparr>"

definition config_service_state_new ::
  "('d \<Rightarrow> policy_store) \<Rightarrow> 'd user_config_store \<Rightarrow> (string option \<Rightarrow> config_service_error + json) \<Rightarrow>
   'd config_service_state" where
  "config_service_state_new policy_store user_store identity =
     \<lparr>cs_policy_store = policy_store, cs_user_config_store = user_store, cs_identity = identity,
      cs_max_user_config_bytes = DEFAULT_MAX_USER_CONFIG_BYTES, cs_admin_store = None,
      cs_admin_rule = default_admin_rule, cs_cache = []\<rparr>"

definition with_max_user_config_bytes :: "'d config_service_state \<Rightarrow> nat \<Rightarrow> 'd config_service_state" where
  "with_max_user_config_bytes cs max_bytes = cs\<lparr>cs_max_user_config_bytes := max_bytes, cs_cache := []\<rparr>"

definition with_admin_store :: "'d config_service_state \<Rightarrow> 'd policy_admin_store \<Rightarrow> 'd config_service_state" where
  "with_admin_store cs admin_store = cs\<lparr>cs_admin_store := Some admin_store, cs_cache := []\<rparr>"

definition with_admin_rule :: "'d config_service_state \<Rightarrow> assignment_rule \<Rightarrow> 'd config_service_state" where
  "with_admin_rule cs admin_rule = cs\<lparr>cs_admin_rule := admin_rule, cs_cache := []\<rparr>"

definition validate_at_startup :: "'d config_service_state \<Rightarrow> 'd \<Rightarrow> policy_validation_error list + unit" where
  "validate_at_startup cs d = validate_all (cs_policy_store cs d)"

section \<open>Serving a policy\<close>

fun inheritance_error_to_string :: "inheritance_error \<Rightarrow> string" where
  "inheritance_error_to_string (ProfileNotFound p) =
     ''no stored policy for profile '' @ [CHR 0x27] @ p @ [CHR 0x27]"
| "inheritance_error_to_string (MissingParent c p) =
     ''profile '' @ [CHR 0x27] @ c @ [CHR 0x27] @ '' names parent '' @ [CHR 0x27] @ p @ [CHR 0x27] @
     '', which has no stored policy''"
| "inheritance_error_to_string (Cycle p) =
     ''profile '' @ [CHR 0x27] @ p @ [CHR 0x27] @ '' is part of an inheritance cycle''"

text \<open>The policy served for a chain.\<close>

definition served_policy :: "string \<Rightarrow> string \<Rightarrow> u64 \<Rightarrow> stored_policy list \<Rightarrow> policy" where
  "served_policy app profile version chain =
     (let leaf = hd chain; (enforced, recommended) = flatten chain
      in \<lparr>pol_contract_version = 1, pol_app = app, pol_profile = profile, pol_version = version,
          pol_max_cache_age_secs = sp_max_cache_age_secs leaf, pol_stale_action = sp_stale_action leaf,
          pol_enforced = enforced, pol_recommended = recommended\<rparr>)"

definition lookup_policy ::
  "((string \<times> u64) list \<Rightarrow> u64) \<Rightarrow> 'd config_service_state \<Rightarrow> 'd \<Rightarrow> string \<Rightarrow> json \<Rightarrow>
   (policy_lookup_error + policy) \<times> 'd config_service_state" where
  "lookup_policy hasher cs d app claims =
     (case st_assignment_rules (cs_policy_store cs d) app of
        Err e \<Rightarrow> (Err (LookupInternal (store_error_to_string e)), cs)
      | Ok rules \<Rightarrow>
          (case resolve_profile rules claims of
             None \<Rightarrow> (Err LookupUnmanaged, cs)
           | Some resolved \<Rightarrow>
               let profile = assignment_profile resolved
               in case st_policies_for_app (cs_policy_store cs d) app of
                    Err e \<Rightarrow> (Err (LookupInternal (store_error_to_string e)), cs)
                  | Ok all_policies \<Rightarrow>
                      (case resolve_chain (by_profile_of all_policies) profile of
                         Err (ProfileNotFound _) \<Rightarrow> (Err LookupUnmanaged, cs)
                       | Err e \<Rightarrow> (Err (LookupInternal (inheritance_error_to_string e)), cs)
                       | Ok chain \<Rightarrow>
                           let combined_version = combined_chain_version hasher chain;
                               cache_key = (app, profile, combined_version)
                           in case map_of (cs_cache cs) cache_key of
                                Some cached \<Rightarrow> (Ok cached, cs)
                              | None \<Rightarrow>
                                  let pol = served_policy app profile combined_version chain
                                  in (Ok pol, cs\<lparr>cs_cache := hm_insert cache_key pol (cs_cache cs)\<rparr>))))"

definition resolve_diagnostic ::
  "'d config_service_state \<Rightarrow> 'd \<Rightarrow> string \<Rightarrow> json \<Rightarrow> policy_lookup_error + resolve_diagnostic_body" where
  "resolve_diagnostic cs d app claims =
     (case st_assignment_rules (cs_policy_store cs d) app of
        Err e \<Rightarrow> Err (LookupInternal (store_error_to_string e))
      | Ok rules \<Rightarrow>
          (case resolve_profile rules claims of
             None \<Rightarrow> Err LookupUnmanaged
           | Some resolved \<Rightarrow>
               let rule = ra_rule resolved
               in Ok \<lparr>rd_profile = ar_profile rule,
                      rd_matched_rule =
                        \<lparr>mt_ord = ar_ord rule,
                         mt_claim_path = (if ar_operator rule = Default then None else Some (ar_claim_path rule)),
                         mt_operator = ar_operator rule, mt_value = ar_value rule\<rparr>\<rparr>))"

section \<open>The database as the stores of a service\<close>

definition pg_user_store :: "pg_env \<Rightarrow> pg_db user_config_store" where
  "pg_user_store env =
     \<lparr>us_get = (\<lambda>app subject db. pg_user_get env db app subject), us_put = pg_user_put env\<rparr>"

definition pg_admin_store :: "pg_env \<Rightarrow> manifest_serde \<Rightarrow> pg_db policy_admin_store" where
  "pg_admin_store env ms =
     \<lparr>pa_put_manifest = pg_put_manifest env ms,
      pa_put_policy = pg_put_policy env ms,
      pa_assignment_rules_version = (\<lambda>app db. assignment_rules_version env db app),
      pa_put_assignment_rules = pg_put_assignment_rules env,
      pa_policy_history = (\<lambda>app profile db. policy_history env db app profile),
      pa_import_bundle = pg_import_bundle env ms\<rparr>"

text \<open>A service over the database, as an embedding application builds it.\<close>

definition pg_service ::
  "pg_env \<Rightarrow> manifest_serde \<Rightarrow> (string option \<Rightarrow> config_service_error + json) \<Rightarrow> pg_db config_service_state" where
  "pg_service env ms identity =
     with_admin_store
       (config_service_state_new (pg_policy_store env ms) (pg_user_store env) identity)
       (pg_admin_store env ms)"

section \<open>Lookups\<close>

text \<open>A lookup with an empty cache, from the answers of the store alone.\<close>

definition fresh_lookup :: "((string \<times> u64) list \<Rightarrow> u64) \<Rightarrow> policy_store \<Rightarrow> string \<Rightarrow> json \<Rightarrow> policy_lookup_error + policy" where
  "fresh_lookup hasher store app claims =
     and_then (map_err (LookupInternal \<circ> store_error_to_string) (st_assignment_rules store app)) (\<lambda>rules.
     case resolve_profile rules claims of
       None \<Rightarrow> Err LookupUnmanaged
     | Some resolved \<Rightarrow>
         and_then (map_err (LookupInternal \<circ> store_error_to_string) (st_policies_for_app store app)) (\<lambda>policies.
         and_then (map_err (\<lambda>e. case e of ProfileNotFound _ \<Rightarrow> LookupUnmanaged
                                 | _ \<Rightarrow> LookupInternal (inheritance_error_to_string e))
                     (resolve_chain (by_profile_of policies) (assignment_profile resolved))) (\<lambda>chain.
           Ok (served_policy app (assignment_profile resolved) (combined_chain_version hasher chain) chain))))"

text \<open>
  What the cache may hold: policies served for chains of policies that were stored at some time.
\<close>

definition cache_ok :: "((string \<times> u64) list \<Rightarrow> u64) \<Rightarrow> stored_policy list set \<Rightarrow> policy_cache_map \<Rightarrow> bool" where
  "cache_ok hasher known cache \<longleftrightarrow>
     (\<forall>app profile v pol. map_of cache (app, profile, v) = Some pol \<longrightarrow>
        (\<exists>chain \<in> known. v = combined_chain_version hasher chain \<and> pol = served_policy app profile v chain))"

text \<open>The chains a store can serve for an application.\<close>

definition store_chains :: "policy_store \<Rightarrow> string \<Rightarrow> stored_policy list set" where
  "store_chains store app =
     {chain. \<exists>policies profile. st_policies_for_app store app = Ok policies \<and>
        resolve_chain (by_profile_of policies) profile = Ok chain}"

lemma lookup_policy_fresh:
  assumes "cache_ok hasher known (cs_cache cs)" "store_chains (cs_policy_store cs d) app \<subseteq> known"
    and "inj_on (combined_chain_version hasher) known"
  shows "fst (lookup_policy hasher cs d app claims) = fresh_lookup hasher (cs_policy_store cs d) app claims \<and>
         cache_ok hasher known (cs_cache (snd (lookup_policy hasher cs d app claims))) \<and>
         cs_policy_store (snd (lookup_policy hasher cs d app claims)) = cs_policy_store cs"
proof (cases "\<exists>rules a policies chain. st_assignment_rules (cs_policy_store cs d) app = Ok rules \<and>
    resolve_profile rules claims = Some a \<and> st_policies_for_app (cs_policy_store cs d) app = Ok policies \<and>
    resolve_chain (by_profile_of policies) (assignment_profile a) = Ok chain")
  case False
  then show ?thesis
    using assms(1)
    by (auto simp: lookup_policy_def fresh_lookup_def Let_def split: sum.splits option.splits inheritance_error.splits)
next
  case True
  then obtain rules a policies chain where eqs: "st_assignment_rules (cs_policy_store cs d) app = Ok rules"
    "resolve_profile rules claims = Some a" "st_policies_for_app (cs_policy_store cs d) app = Ok policies"
    "resolve_chain (by_profile_of policies) (assignment_profile a) = Ok chain" by blast
  let ?v = "combined_chain_version hasher chain"
  let ?p = "served_policy app (assignment_profile a) ?v chain"
  have c: "chain \<in> known" using eqs(3,4) assms(2) by (auto simp: store_chains_def)
  have fresh: "fresh_lookup hasher (cs_policy_store cs d) app claims = Ok ?p"
    by (simp add: fresh_lookup_def eqs)
  show ?thesis
  proof (cases "map_of (cs_cache cs) (app, assignment_profile a, ?v)")
    case None
    then have l: "lookup_policy hasher cs d app claims =
        (Ok ?p, cs\<lparr>cs_cache := hm_insert (app, assignment_profile a, ?v) ?p (cs_cache cs)\<rparr>)"
      by (simp add: lookup_policy_def eqs Let_def)
    have "cache_ok hasher known (hm_insert (app, assignment_profile a, ?v) ?p (cs_cache cs))"
      using assms(1) c by (auto simp: cache_ok_def)
    then show ?thesis using l fresh by auto
  next
    case (Some cached)
    then obtain chain' where "chain' \<in> known" "?v = combined_chain_version hasher chain'"
      "cached = served_policy app (assignment_profile a) ?v chain'"
      using assms(1) unfolding cache_ok_def by blast
    then have "cached = ?p" using assms(3) c by (auto dest: inj_onD)
    moreover have "lookup_policy hasher cs d app claims = (Ok cached, cs)"
      by (simp add: lookup_policy_def eqs Let_def Some)
    ultimately show ?thesis using fresh assms(1) by auto
  qed
qed

text \<open>A sequence of lookups, the stored data changing between them.\<close>

fun lookup_all ::
  "((string \<times> u64) list \<Rightarrow> u64) \<Rightarrow> 'd config_service_state \<Rightarrow> ('d \<times> string \<times> json) list \<Rightarrow>
   (policy_lookup_error + policy) list" where
  "lookup_all hasher cs [] = []"
| "lookup_all hasher cs ((d, app, claims) # reqs) =
     (case lookup_policy hasher cs d app claims of (r, cs') \<Rightarrow> r # lookup_all hasher cs' reqs)"

section \<open>Properties\<close>


definition sample_store_of :: "stored_policy list \<Rightarrow> policy_store" where
  "sample_store_of policies =
     \<lparr>st_manifest = (\<lambda>_. Ok (Some \<lparr>sm_app = ''app'', sm_doc = sample_manifest, sm_version = 1\<rparr>)),
      st_policy = (\<lambda>_ profile. Ok (find (\<lambda>p. sp_profile p = profile) policies)),
      st_policies_for_app = (\<lambda>_. Ok policies),
      st_assignment_rules = (\<lambda>_. Ok [\<lparr>ar_app = ''app'', ar_ord = 0, ar_claim_path = '''', ar_operator = Default,
        ar_value = None, ar_profile = ''dev''\<rparr>]),
      st_apps = Ok [''app'']\<rparr>"

definition sample_service :: "stored_policy list config_service_state" where
  "sample_service =
     config_service_state_new sample_store_of
       \<lparr>us_get = (\<lambda>_ _ _. Err (Backend ''none'')), us_put = (\<lambda>_ _ _ _ d. (Err (UserStore (Backend ''none'')), d))\<rparr>
       (\<lambda>_. Ok JNull)"

definition sample_dev :: stored_policy where
  "sample_dev = sample_policy ''dev'' None [(''net.url'', JStr ''c'')]"

lemma sample_chains: "store_chains (cs_policy_store sample_service [sample_dev]) app \<subseteq> {[sample_dev]}"
proof -
  have "is_chain (map_of (by_profile_of [sample_dev])) profile chain \<Longrightarrow> chain = [sample_dev]" for profile chain
    by (cases chain)
      (auto simp: by_profile_of_def hm_of_list_lookup sample_dev_def sample_policy_def split: if_splits)
  then show ?thesis
    by (auto simp: store_chains_def resolve_chain_Ok_iff sample_service_def config_service_state_new_def sample_store_of_def)
qed

lemmas sample_service_defs = sample_service_def config_service_state_new_def sample_store_of_def

lemma sample_chain: "resolve_chain (by_profile_of [sample_dev]) ''dev'' = Ok [sample_dev]"
  unfolding resolve_chain_Ok_iff
  by (simp add: by_profile_of_def hm_of_list_lookup sample_dev_def sample_policy_def)


text \<open>
  C18. A deployment that passed startup validation never answers a policy request with an internal
  error: a caller either gets the policy of the profile assigned to it, or is unmanaged, and the
  latter exactly when no assignment rule matches its claims.
\<close>

theorem validated_lookup_total:
  assumes "validate_at_startup cs d = Ok ()"
    and "st_apps (cs_policy_store cs d) = Ok apps" "app \<in> set apps"
    and "st_assignment_rules (cs_policy_store cs d) app = Ok rules"
  shows "case fst (lookup_policy hasher cs d app claims) of
           Ok pol \<Rightarrow> find (\<lambda>r. rule_matches r claims) rules \<noteq> None
         | Err LookupUnmanaged \<Rightarrow> find (\<lambda>r. rule_matches r claims) rules = None
         | Err (LookupInternal _) \<Rightarrow> False"
proof -
  have valid: "app_valid (cs_policy_store cs d) app"
    using assms(1-3) by (auto simp: validate_at_startup_def validate_all_Ok_iff)
  then obtain m policies where eqs: "st_manifest (cs_policy_store cs d) app = Ok m"
      "st_policies_for_app (cs_policy_store cs d) app = Ok policies"
    using assms(4) by (auto simp: app_valid_def split: sum.splits)
  have profiles: "ar_profile r \<in> sp_profile ` set policies" if "r \<in> set rules" for r
    using valid that by (simp add: app_valid_def eqs assms(4))
  have chains: "chain_ok (by_profile_of policies) (sp_profile p)" if "p \<in> set policies" for p
    using valid that by (cases m) (auto simp: app_valid_def eqs assms(4))
  show ?thesis
  proof (cases "resolve_profile rules claims")
    case None
    then have "find (\<lambda>r. rule_matches r claims) rules = None"
      by (simp add: resolve_profile_None_iff find_None_iff)
    then show ?thesis by (simp add: lookup_policy_def assms(4) None)
  next
    case (Some a)
    note a = resolve_profile_SomeD [OF Some]
    have "chain_ok (by_profile_of policies) (assignment_profile a)"
      using chains profiles a by (fastforce simp: assignment_profile_def)
    then obtain chain where "resolve_chain (by_profile_of policies) (assignment_profile a) = Ok chain"
      by (auto simp: chain_ok_def split: sum.splits)
    moreover have "find (\<lambda>r. rule_matches r claims) rules \<noteq> None"
      using a by (auto simp: find_None_iff)
    ultimately show ?thesis
      by (simp add: lookup_policy_def assms(4) Some eqs Let_def split: option.split)
  qed
qed

theorem validated_lookup_total_witness:
  "\<forall>msg. fst (lookup_policy (\<lambda>_. 7) sample_service [sample_dev] ''app'' JNull) \<noteq> Err (LookupInternal msg)"
proof -
  have "policy_conforms sample_manifest sample_dev"
    unfolding validate_stored_policy_Nil_iff [symmetric] by code_simp
  then have "validate_at_startup sample_service [sample_dev] = Ok ()"
    using sample_chain
    by (simp add: validate_at_startup_def validate_all_Ok_iff app_valid_def sample_service_defs chain_ok_def)
      (simp add: sample_dev_def sample_policy_def)
  moreover have "st_apps (cs_policy_store sample_service [sample_dev]) = Ok [''app'']"
    by (simp add: sample_service_defs)
  moreover obtain rules where "st_assignment_rules (cs_policy_store sample_service [sample_dev]) ''app'' = Ok rules"
    by (simp add: sample_service_defs)
  ultimately show ?thesis
    using validated_lookup_total [of sample_service "[sample_dev]" "[''app'']" "''app''" _ JNull "\<lambda>_. 7"] by fastforce
qed

end
