(* ===== verification/Router.thy ===== *)
theory Router
  imports Service_State
begin

text \<open>
  Authentication and the device-facing routes of the service (\<open>config/service/identity.rs\<close>,
  \<open>config/service/router.rs\<close>).

  A request carries the headers the handlers read and the body, as bytes and as the JSON extractor decoded it; its
  extension map is the slot for the validated claims, which the identity middleware fills. A handler
  maps the service, the backing state and the request to a response, the service (whose cache may
  have grown) and the next backing state. The identity check, serde and the hasher are parameters.
\<close>

section \<open>Requests and responses\<close>

record request =
  rq_authorization :: "string option"
  rq_if_match :: "string option"
  rq_if_none_match :: "string option"
  rq_body :: json
  rq_bytes :: string
  rq_claims :: "json option"

datatype user_field_problem =
    UnknownUserField string
  | SecretUserField string
  | LocalOnlyUserField string
  | NotUserScoped string
  | UserFieldConstraint string constraint_detail

type_synonym assignment_rule_wire = "string \<times> rule_operator \<times> json option \<times> string"

datatype response_body =
    NoBody
  | ErrorBody string
  | FieldErrorBody user_field_problem
  | ErrorsBody "policy_validation_error list"
  | PolicyBody policy
  | ManifestBody config_manifest
  | DiagnosticBody resolve_diagnostic_body
  | UserDocBody json_map
  | StoredPolicyBody stored_policy
  | HistoryBody "mutation_log_entry list"
  | AssignmentsBody "assignment_rule_wire list" u64
  | TarBody string
  | SummaryBody import_summary

record response =
  rp_status :: nat
  rp_etag :: "string option"
  rp_body :: response_body

text \<open>What the handlers use of serde and the standard hasher.\<close>

record service_env =
  sv_hasher :: "(string \<times> u64) list \<Rightarrow> u64"
  sv_doc_size :: "json_map \<Rightarrow> nat option"

type_synonym 'd handler = "'d config_service_state \<Rightarrow> 'd \<Rightarrow> request \<Rightarrow> response \<times> 'd config_service_state \<times> 'd"

definition status_only :: "nat \<Rightarrow> response" where
  "status_only s = \<lparr>rp_status = s, rp_etag = None, rp_body = NoBody\<rparr>"

definition error_response :: "nat \<Rightarrow> string \<Rightarrow> response" where
  "error_response s msg = \<lparr>rp_status = s, rp_etag = None, rp_body = ErrorBody msg\<rparr>"

text \<open>The entity tag of a version: the decimal number between double quotes.\<close>

definition etag_of :: "u64 \<Rightarrow> string" where
  "etag_of v = CHR 0x22 # nat_dec (unat v) @ [CHR 0x22]"

section \<open>Identity\<close>

fun config_service_error_to_string :: "config_service_error \<Rightarrow> string" where
  "config_service_error_to_string MissingCredential = ''no Authorization header presented''"
| "config_service_error_to_string (InvalidCredential m) = ''credential rejected: '' @ m"

definition credential_rejected :: "config_service_error \<Rightarrow> response" where
  "credential_rejected e = error_response 401 (config_service_error_to_string e)"

definition missing_caller_claims :: response where
  "missing_caller_claims = error_response 500 ''config service auth middleware not installed on this route''"

definition with_claims :: "(json \<Rightarrow> 'd handler) \<Rightarrow> 'd handler" where
  "with_claims h cs d req =
     (case rq_claims req of
        None \<Rightarrow> (missing_caller_claims, cs, d)
      | Some claims \<Rightarrow> h claims cs d req)"

definition require_caller_identity :: "'d handler \<Rightarrow> 'd handler" where
  "require_caller_identity next_handler cs d req =
     (case cs_identity cs (rq_authorization req) of
        Ok claims \<Rightarrow> next_handler cs d (req\<lparr>rq_claims := Some claims\<rparr>)
      | Err e \<Rightarrow> (credential_rejected e, cs, d))"

definition require_admin_role :: "'d handler \<Rightarrow> 'd handler" where
  "require_admin_role next_handler cs d req =
     (case rq_claims req of
        None \<Rightarrow> (missing_caller_claims, cs, d)
      | Some claims \<Rightarrow>
          if rule_matches (cs_admin_rule cs) claims then next_handler cs d req
          else (error_response 403 ''caller does not satisfy the administrative role rule'', cs, d))"

section \<open>Helpers\<close>

definition internal_error :: response where
  "internal_error = status_only 500"

definition unmanaged_response :: response where
  "unmanaged_response = error_response 404 ''unmanaged''"

definition subject_from_claims :: "json \<Rightarrow> string option" where
  "subject_from_claims claims = Option.bind (json_get claims ''sub'') as_str"

definition missing_sub_response :: response where
  "missing_sub_response = error_response 401 (''validated identity is missing a '' @ [CHR 0x27] @ ''sub'' @ [CHR 0x27] @ '' claim'')"

definition parse_etag :: "string \<Rightarrow> u64 option" where
  "parse_etag raw = parse_u64 (trim_matches (\<lambda>c. c = CHR 0x22) (str_trim raw))"

definition require_if_match :: "request \<Rightarrow> response + u64" where
  "require_if_match req =
     (case rq_if_match req of
        None \<Rightarrow> Err (error_response 400 ''If-Match header is required'')
      | Some raw \<Rightarrow>
          (case parse_etag raw of
             Some v \<Rightarrow> Ok v
           | None \<Rightarrow> Err (error_response 400 ''If-Match header could not be parsed'')))"

fun first_invalid_user_field :: "config_manifest \<Rightarrow> json_map \<Rightarrow> user_field_problem option" where
  "first_invalid_user_field manifest [] = None"
| "first_invalid_user_field manifest ((key, value) # doc) =
     (case leaf_by_path manifest key of
        None \<Rightarrow> Some (UnknownUserField key)
      | Some field \<Rightarrow>
          if fm_secret field then Some (SecretUserField key)
          else if fm_local_only field then Some (LocalOnlyUserField key)
          else if fm_scope field \<noteq> User then Some (NotUserScoped key)
          else (case constraint_violation_detail field value of
                  Some detail \<Rightarrow> Some (UserFieldConstraint key detail)
                | None \<Rightarrow> first_invalid_user_field manifest doc))"

section \<open>Handlers\<close>

definition get_policy :: "service_env \<Rightarrow> string \<Rightarrow> json \<Rightarrow> 'd handler" where
  "get_policy sv app claims cs d req =
     (case lookup_policy (sv_hasher sv) cs d app claims of
        (Ok pol, cs') \<Rightarrow>
          let etag = etag_of (pol_version pol)
          in if rq_if_none_match req = Some etag
             then (\<lparr>rp_status = 304, rp_etag = Some etag, rp_body = NoBody\<rparr>, cs', d)
             else (\<lparr>rp_status = 200, rp_etag = Some etag, rp_body = PolicyBody pol\<rparr>, cs', d)
      | (Err LookupUnmanaged, cs') \<Rightarrow> (unmanaged_response, cs', d)
      | (Err (LookupInternal _), cs') \<Rightarrow> (internal_error, cs', d))"

definition get_manifest :: "string \<Rightarrow> json \<Rightarrow> 'd handler" where
  "get_manifest app claims cs d req =
     (case st_manifest (cs_policy_store cs d) app of
        Ok (Some m) \<Rightarrow> (\<lparr>rp_status = 200, rp_etag = None, rp_body = ManifestBody (sm_doc m)\<rparr>, cs, d)
      | Ok None \<Rightarrow> (status_only 404, cs, d)
      | Err _ \<Rightarrow> (internal_error, cs, d))"

definition get_resolve :: "string \<Rightarrow> json \<Rightarrow> 'd handler" where
  "get_resolve app claims cs d req =
     (case resolve_diagnostic cs d app claims of
        Ok diag \<Rightarrow> (\<lparr>rp_status = 200, rp_etag = None, rp_body = DiagnosticBody diag\<rparr>, cs, d)
      | Err LookupUnmanaged \<Rightarrow> (unmanaged_response, cs, d)
      | Err (LookupInternal _) \<Rightarrow> (internal_error, cs, d))"

definition get_user_config :: "string \<Rightarrow> json \<Rightarrow> 'd handler" where
  "get_user_config app claims cs d req =
     (case subject_from_claims claims of
        None \<Rightarrow> (missing_sub_response, cs, d)
      | Some subject \<Rightarrow>
          (case us_get (cs_user_config_store cs) app subject d of
             Ok doc \<Rightarrow> (\<lparr>rp_status = 200, rp_etag = Some (etag_of (su_version doc)), rp_body = UserDocBody (su_doc doc)\<rparr>, cs, d)
           | Err _ \<Rightarrow> (internal_error, cs, d)))"

text \<open>The checks of \<open>put_user_config\<close> before the write: the document, then the subject and the version.\<close>

definition user_config_size :: "service_env \<Rightarrow> json_map \<Rightarrow> nat" where
  "user_config_size sv doc = (case sv_doc_size sv doc of Some n \<Rightarrow> n | None \<Rightarrow> 2 ^ 64 - 1)"

definition check_user_document ::
  "service_env \<Rightarrow> string \<Rightarrow> 'd config_service_state \<Rightarrow> 'd \<Rightarrow> json_map \<Rightarrow> response + json_map" where
  "check_user_document sv app cs d doc =
     (let size = user_config_size sv doc
      in if size > cs_max_user_config_bytes cs
         then Err (error_response 413 (''document is '' @ nat_dec size @ '' bytes, exceeding the '' @
                     nat_dec (cs_max_user_config_bytes cs) @ '' byte limit''))
         else (case st_manifest (cs_policy_store cs d) app of
                 Ok (Some manifest) \<Rightarrow>
                   (case first_invalid_user_field (sm_doc manifest) doc of
                      Some problem \<Rightarrow> Err \<lparr>rp_status = 400, rp_etag = None, rp_body = FieldErrorBody problem\<rparr>
                    | None \<Rightarrow> Ok doc)
               | Ok None \<Rightarrow> Err (status_only 404)
               | Err _ \<Rightarrow> Err internal_error))"

definition check_user_config ::
  "service_env \<Rightarrow> string \<Rightarrow> json \<Rightarrow> 'd config_service_state \<Rightarrow> 'd \<Rightarrow> request \<Rightarrow> response + string \<times> u64 \<times> json_map" where
  "check_user_config sv app claims cs d req =
     (case subject_from_claims claims of
        None \<Rightarrow> Err missing_sub_response
      | Some subject \<Rightarrow>
          and_then (require_if_match req) (\<lambda>expected_version.
          case rq_body req of
            JObj doc \<Rightarrow> and_then (check_user_document sv app cs d doc) (\<lambda>doc. Ok (subject, expected_version, doc))
          | _ \<Rightarrow> Err (error_response 400 ''request body must be a JSON object'')))"

definition put_user_config :: "service_env \<Rightarrow> string \<Rightarrow> json \<Rightarrow> 'd handler" where
  "put_user_config sv app claims cs d req =
     (case check_user_config sv app claims cs d req of
        Err resp \<Rightarrow> (resp, cs, d)
      | Ok (subject, expected_version, doc) \<Rightarrow>
          (case us_put (cs_user_config_store cs) app subject doc expected_version d of
             (Ok new_version, d') \<Rightarrow> (\<lparr>rp_status = 200, rp_etag = Some (etag_of new_version), rp_body = NoBody\<rparr>, cs, d')
           | (Err (UserConflict _ _), d') \<Rightarrow> (status_only 412, cs, d')
           | (Err (UserStore _), d') \<Rightarrow> (internal_error, cs, d')))"

section \<open>The router\<close>

datatype route =
    RouteGetPolicy string
  | RouteGetManifest string
  | RouteGetUserConfig string
  | RoutePutUserConfig string
  | RouteGetResolve string

fun route_handler :: "service_env \<Rightarrow> route \<Rightarrow> json \<Rightarrow> 'd handler" where
  "route_handler sv (RouteGetPolicy app) = get_policy sv app"
| "route_handler sv (RouteGetManifest app) = get_manifest app"
| "route_handler sv (RouteGetUserConfig app) = get_user_config app"
| "route_handler sv (RoutePutUserConfig app) = put_user_config sv app"
| "route_handler sv (RouteGetResolve app) = get_resolve app"

definition main_router :: "service_env \<Rightarrow> route \<Rightarrow> 'd handler" where
  "main_router sv route = require_caller_identity (with_claims (route_handler sv route))"

section \<open>Lemmas\<close>

lemma parse_etag_of: "parse_etag (etag_of v) = Some v"
proof -
  have "\<not> is_ws (CHR 0x22)" by code_simp
  then have "str_trim (etag_of v) = etag_of v"
    by (intro trim_matches_id) (simp_all add: etag_of_def)
  moreover have "trim_matches (\<lambda>c. c = CHR 0x22) (etag_of v) = nat_dec (unat v)"
    unfolding etag_of_def by (rule trim_matches_quote) (auto dest!: nat_dec_digits)
  ultimately show ?thesis by (simp add: parse_etag_def parse_u64_nat_dec)
qed

lemma first_invalid_user_field_None_iff:
  "first_invalid_user_field m doc = None \<longleftrightarrow>
     (\<forall>(k, v) \<in> set doc. \<exists>f. leaf_by_path m k = Some f \<and> \<not> fm_secret f \<and> \<not> fm_local_only f \<and>
        fm_scope f = User \<and> constraint_violation_detail f v = None)"
  by (induction doc) (auto split: option.splits if_splits)

text \<open>Every field of a document the server accepts is one its user owns.\<close>

definition user_owned :: "config_manifest \<Rightarrow> json_map \<Rightarrow> bool" where
  "user_owned m doc \<longleftrightarrow>
     (\<forall>(k, v) \<in> set doc. \<exists>f. leaf_by_path m k = Some f \<and> \<not> fm_secret f \<and> \<not> fm_local_only f \<and>
        fm_scope f = User \<and> constraint_violation_detail f v = None)"

lemma check_user_document_OkD:
  "check_user_document sv app cs d doc = Ok doc' \<Longrightarrow>
   doc' = doc \<and> user_config_size sv doc \<le> cs_max_user_config_bytes cs \<and>
   (\<exists>m. st_manifest (cs_policy_store cs d) app = Ok (Some m) \<and> user_owned (sm_doc m) doc)"
  by (auto simp: check_user_document_def user_owned_def first_invalid_user_field_None_iff Let_def
      split: option.splits sum.splits if_splits)

lemma check_user_document_ErrD: "check_user_document sv app cs d doc = Err resp \<Longrightarrow> rp_status resp \<notin> {200, 412}"
  by (auto simp: check_user_document_def Let_def error_response_def status_only_def internal_error_def
      split: option.splits sum.splits if_splits)

lemma check_user_config_OkD:
  "check_user_config sv app claims cs d req = Ok (subject, expected, doc) \<Longrightarrow>
   subject_from_claims claims = Some subject \<and> require_if_match req = Ok expected \<and> rq_body req = JObj doc \<and>
   user_config_size sv doc \<le> cs_max_user_config_bytes cs \<and>
   (\<exists>m. st_manifest (cs_policy_store cs d) app = Ok (Some m) \<and> user_owned (sm_doc m) doc)"
  by (cases "rq_body req")
    (auto simp: check_user_config_def and_then_Ok_iff dest!: check_user_document_OkD split: option.splits)

lemma check_user_config_ErrD: "check_user_config sv app claims cs d req = Err resp \<Longrightarrow> rp_status resp \<notin> {200, 412}"
  by (cases "rq_body req")
    (auto simp: check_user_config_def and_then_Err_iff require_if_match_def missing_sub_response_def error_response_def
      dest!: check_user_document_ErrD split: option.splits)

text \<open>What a write of a user document over the database does.\<close>

lemma put_user_config_pg:
  assumes "put_user_config sv app claims cs db req = (resp, cs', db')"
    and "cs_user_config_store cs = pg_user_store (serial env)"
  shows "cs' = cs \<and>
         (rp_status resp = 200 \<and>
            (\<exists>subject x doc. check_user_config sv app claims cs db req = Ok (subject, x, doc) \<and>
               pg_user_put (serial env) app subject doc x db = (Ok (x + 1), db') \<and> rp_etag resp = Some (etag_of (x + 1))) \<or>
          rp_status resp = 412 \<and> db' = db \<and>
            (\<exists>subject x doc. check_user_config sv app claims cs db req = Ok (subject, x, doc) \<and>
               user_version db (app, subject) \<noteq> x) \<or>
          rp_status resp \<notin> {200, 412} \<and> db' = db)"
proof (cases "check_user_config sv app claims cs db req")
  case (Inl r)
  then show ?thesis
    using check_user_config_ErrD [OF Inl] assms(1) by (simp add: put_user_config_def)
next
  case (Inr a)
  obtain subject x doc where a: "a = (subject, x, doc)" by (cases a) auto
  obtain r d where p: "pg_user_put (serial env) app subject doc x db = (r, d)" by fastforce
  show ?thesis
  proof (cases r)
    case Ok: (Inr v)
    then show ?thesis
      using assms pg_user_put_Ok [of "serial env" app subject doc x db v d] p Inr a
      by (auto simp: put_user_config_def pg_user_store_def)
  next
    case (Inl e)
    have "d = db" using pg_user_put_Err [of "serial env" app subject doc x db e d] p Inl by simp
    moreover have "user_version db (app, subject) \<noteq> x" if "e = UserConflict c y" for c y
      using p Inl that
      by (auto simp: pg_user_put_def user_stmt_def exec_stmt_def Let_def user_insert_race_def and_then_def map_err_def run_tx_def
          split: if_splits option.splits sum.splits abort.splits)
    ultimately show ?thesis
      using assms p Inl Inr a
      by (auto simp: put_user_config_def pg_user_store_def status_only_def internal_error_def split: user_config_write_error.splits)
  qed
qed

lemma get_user_config_200:
  assumes "get_user_config app claims cs d req = (r, cs', d')" "rp_status r = 200"
  shows "\<exists>subject u. subject_from_claims claims = Some subject \<and> us_get (cs_user_config_store cs) app subject d = Ok u \<and>
           rp_etag r = Some (etag_of (su_version u)) \<and> cs' = cs \<and> d' = d"
proof (cases "subject_from_claims claims")
  case None
  then show ?thesis using assms by (auto simp: get_user_config_def missing_sub_response_def error_response_def)
next
  case (Some subject)
  then show ?thesis
    using assms
    by (cases "us_get (cs_user_config_store cs) app subject d")
      (auto simp: get_user_config_def internal_error_def status_only_def)
qed

section \<open>Properties\<close>


definition sample_sv :: service_env where
  "sample_sv = \<lparr>sv_hasher = (\<lambda>_. 7), sv_doc_size = (\<lambda>doc. Some (length doc))\<rparr>"

definition sample_claims :: json where
  "sample_claims = JObj [(''sub'', JStr ''ann'')]"

definition sample_request :: "json \<Rightarrow> string option \<Rightarrow> request" where
  "sample_request body tag =
     \<lparr>rq_authorization = None, rq_if_match = tag, rq_if_none_match = None, rq_body = body, rq_bytes = [], rq_claims = None\<rparr>"

definition sample_pg_service :: "pg_db config_service_state" where
  "sample_pg_service = pg_service (serial quiet_env) (sample_serde_of sample_manifest) (\<lambda>_. Ok sample_claims)"

lemma sample_pg_user_store: "cs_user_config_store sample_pg_service = pg_user_store (serial quiet_env)"
  by (simp add: sample_pg_service_def pg_service_def with_admin_store_def config_service_state_new_def)


text \<open>
  Reading a roaming document and writing it back with the entity tag of the answer is never
  refused as a conflict while nobody else writes, and a read after a successful write returns
  exactly the written document, under the entity tag the write returned.
\<close>

theorem user_config_read_write_read:
  assumes "cs_user_config_store cs = pg_user_store (serial env)"
    and "get_user_config app claims cs db req0 = (r0, cs0, db0)" "rp_status r0 = 200"
    and "put_user_config sv app claims cs0 db0 req1 = (r1, cs1, db1)" "rq_if_match req1 = rp_etag r0"
  shows "rp_status r1 \<noteq> 412 \<and>
         (rp_status r1 = 200 \<longrightarrow>
            (\<exists>doc. rq_body req1 = JObj doc \<and>
               get_user_config app claims cs1 db1 req2 = (\<lparr>rp_status = 200, rp_etag = rp_etag r1, rp_body = UserDocBody doc\<rparr>, cs1, db1)))"
proof -
  obtain subject u where g: "subject_from_claims claims = Some subject" "pg_user_get (serial env) db app subject = Ok u"
      "rp_etag r0 = Some (etag_of (su_version u))" "cs0 = cs" "db0 = db"
    using get_user_config_200 [OF assms(2,3)] assms(1) by (auto simp: pg_user_store_def)
  have ver: "su_version u = user_version db (app, subject)"
    using g(2) by (auto simp: pg_user_get_def user_version_def and_then_Ok_iff split: option.splits json.splits)
  have im: "require_if_match req1 = Ok (su_version u)"
    using assms(5) g(3) by (simp add: require_if_match_def parse_etag_of)
  note p = put_user_config_pg [OF assms(4) [unfolded g(4,5)] assms(1)]
  have "rp_status r1 \<noteq> 412"
  proof
    assume "rp_status r1 = 412"
    then obtain s x doc where c: "check_user_config sv app claims cs db req1 = Ok (s, x, doc)" "user_version db (app, s) \<noteq> x"
      using p by auto
    then show False using check_user_config_OkD [OF c(1)] im ver g(1) by auto
  qed
  moreover have "\<exists>doc. rq_body req1 = JObj doc \<and>
      get_user_config app claims cs1 db1 req2 = (\<lparr>rp_status = 200, rp_etag = rp_etag r1, rp_body = UserDocBody doc\<rparr>, cs1, db1)"
    if ok: "rp_status r1 = 200"
  proof -
    obtain s x doc where c: "check_user_config sv app claims cs db req1 = Ok (s, x, doc)"
      "pg_user_put (serial env) app s doc x db = (Ok (x + 1), db1)" "rp_etag r1 = Some (etag_of (x + 1))" "cs1 = cs"
      using p ok by auto
    then show ?thesis
      using check_user_config_OkD [OF c(1)] pg_user_put_Ok [OF c(2)] g(1,2) assms(1)
      by (auto simp: get_user_config_def pg_user_store_def pg_user_get_def and_then_Ok_iff)
  qed
  ultimately show ?thesis by blast
qed

theorem user_config_read_write_read_witness:
  "rp_status (fst (put_user_config sample_sv ''app'' sample_claims sample_pg_service sample_db
      (sample_request (JObj []) (Some (etag_of 0))))) \<noteq> 412"
proof -
  let ?g = "get_user_config ''app'' sample_claims sample_pg_service sample_db (sample_request JNull None)"
  let ?p = "put_user_config sample_sv ''app'' sample_claims sample_pg_service sample_db
      (sample_request (JObj []) (Some (etag_of 0)))"
  have g: "?g = (\<lparr>rp_status = 200, rp_etag = Some (etag_of 0), rp_body = UserDocBody []\<rparr>, sample_pg_service, sample_db)"
    by (simp add: get_user_config_def sample_claims_def subject_from_claims_def json_get_def sample_pg_user_store
        pg_user_store_def pg_user_get_def exec_stmt_def quiet_env_def sample_db_def empty_db_def)
  have p: "?p = (fst ?p, fst (snd ?p), snd (snd ?p))" by simp
  show ?thesis
    using user_config_read_write_read [OF sample_pg_user_store g _ p] by (simp add: sample_request_def)
qed

end
