(* ===== verification/Merge_Patch.thy ===== *)
theory Merge_Patch
  imports Json
begin

text \<open>
  JSON merge patch (\<open>config/service/merge_patch.rs\<close>, RFC 7386). The patch is characterised by its
  effect on lookups; idempotence and the preservation of the map invariant follow.
\<close>

fun merge_patch :: "json \<Rightarrow> json \<Rightarrow> json"
  and merge_entries :: "json_map \<Rightarrow> json_map \<Rightarrow> json_map" where
  "merge_patch target (JObj patch_obj) =
     JObj (merge_entries (case target of JObj m \<Rightarrow> m | _ \<Rightarrow> []) patch_obj)"
| "merge_patch target patch = patch"
| "merge_entries target_obj [] = target_obj"
| "merge_entries target_obj ((key, patch_value) # rest) =
     merge_entries
       (if patch_value = JNull then bm_remove key target_obj
        else bm_insert key
               (merge_patch (case map_of target_obj key of Some v \<Rightarrow> v | None \<Rightarrow> JNull) patch_value)
               target_obj)
       rest"

text \<open>What a patch member does to the value at its key.\<close>

definition patched :: "json option \<Rightarrow> json \<Rightarrow> json option" where
  "patched old pv =
     (if pv = JNull then None
      else Some (merge_patch (case old of Some v \<Rightarrow> v | None \<Rightarrow> JNull) pv))"

lemma merge_entries_lookup:
  "distinct (map fst ps) \<Longrightarrow>
   map_of (merge_entries m ps) k =
     (case map_of ps k of None \<Rightarrow> map_of m k | Some pv \<Rightarrow> patched (map_of m k) pv)"
proof (induction ps arbitrary: m)
  case Nil
  show ?case by simp
next
  case (Cons e ps)
  obtain key pv where e: "e = (key, pv)" by fastforce
  have "map_of ps key = None" using Cons.prems by (simp add: e map_of_eq_None_iff)
  then show ?case
    using Cons by (auto simp: e patched_def split: option.split)
qed

lemma size_member: "(k, v) \<in> set ps \<Longrightarrow> size v < size (JObj ps)"
  by (induction ps) auto

lemma merge_patch_wf: "wf_json t \<Longrightarrow> wf_json p \<Longrightarrow> wf_json (merge_patch t p)"
  and merge_entries_wf: "wf_map m \<Longrightarrow> wf_map ps \<Longrightarrow> wf_map (merge_entries m ps)"
proof (induction t p and m ps rule: merge_patch_merge_entries.induct)
  case (1 t ps)
  have "wf_map (case t of JObj m \<Rightarrow> m | _ \<Rightarrow> [])"
    using "1.prems"(1) by (cases t) (simp_all add: wf_map_def)
  then show ?case using 1 by (simp add: wf_map_def)
next
  case (4 m k pv rest)
  have old: "wf_json (case map_of m k of Some v \<Rightarrow> v | None \<Rightarrow> JNull)"
    using wf_map_lookup [OF "4.prems"(1)] by (auto split: option.split)
  have pv: "wf_json pv" "wf_map rest" using "4.prems"(2) by (simp_all add: wf_map_def)
  show ?case
    using 4 old pv by (auto simp: wf_map_remove wf_map_insert)
qed simp_all

lemma merge_patch_idem:
  "wf_json t \<Longrightarrow> wf_json p \<Longrightarrow> merge_patch (merge_patch t p) p = merge_patch t p"
proof (induction p arbitrary: t rule: measure_induct_rule [where f = size])
  case (less p)
  show ?case
  proof (cases "is_object p")
    case False
    then show ?thesis by (cases p) simp_all
  next
    case True
    then obtain ps where p: "p = JObj ps" by (auto simp: is_object_iff)
    define m where "m = (case t of JObj m \<Rightarrow> m | _ \<Rightarrow> [])"
    have wm: "wf_map m" using less.prems(1) by (cases t) (simp_all add: m_def wf_map_def)
    have wp: "wf_map ps" using less.prems(2) by (simp add: p wf_map_def)
    have d: "distinct (map fst ps)" by (rule bm_wf_distinct [OF wf_map_bm_wf [OF wp]])
    have w1: "wf_map (merge_entries m ps)" by (rule merge_entries_wf [OF wm wp])
    have "map_of (merge_entries (merge_entries m ps) ps) k = map_of (merge_entries m ps) k" for k
    proof (cases "map_of ps k")
      case None
      then show ?thesis by (simp add: merge_entries_lookup [OF d])
    next
      case (Some pv)
      have old: "wf_json (case map_of m k of Some v \<Rightarrow> v | None \<Rightarrow> JNull)"
        using wf_map_lookup [OF wm] by (auto split: option.split)
      have "size pv < size p" using Some size_member [of k pv ps] by (auto simp: p dest: map_of_SomeD)
      then have "merge_patch (merge_patch (case map_of m k of Some v \<Rightarrow> v | None \<Rightarrow> JNull) pv) pv =
          merge_patch (case map_of m k of Some v \<Rightarrow> v | None \<Rightarrow> JNull) pv"
        using less.IH old wf_map_lookup [OF wp Some] by blast
      then show ?thesis using Some by (simp add: merge_entries_lookup [OF d] patched_def)
    qed
    then have "merge_entries (merge_entries m ps) ps = merge_entries m ps"
      using bm_ext wf_map_bm_wf merge_entries_wf [OF w1 wp] w1 by blast
    then show ?thesis by (simp add: p m_def)
  qed
qed

section \<open>Properties\<close>

text \<open>
  C23. Merge patch follows RFC 7386: a patch that is not an object replaces the target; an object
  patch yields an object in which a key the patch does not mention keeps its value, a null member
  removes its key and any other member is merged into the value there (an absent or non-object
  target counts as empty); the result is again well formed, and applying the same patch twice is
  the same as applying it once.
\<close>

theorem merge_patch_rfc7386:
  assumes "wf_json t" "wf_json p"
  shows "wf_json (merge_patch t p) \<and> merge_patch (merge_patch t p) p = merge_patch t p \<and>
         (\<not> is_object p \<longrightarrow> merge_patch t p = p) \<and>
         (\<forall>ps. p = JObj ps \<longrightarrow>
            (\<exists>m'. merge_patch t p = JObj m' \<and>
               (\<forall>k. map_of m' k =
                  (case map_of ps k of
                     None \<Rightarrow> Option.bind (as_object t) (\<lambda>m. map_of m k)
                   | Some pv \<Rightarrow>
                       if pv = JNull then None
                       else Some (merge_patch (case Option.bind (as_object t) (\<lambda>m. map_of m k) of
                                                 Some v \<Rightarrow> v | None \<Rightarrow> JNull) pv)))))"
proof (intro conjI allI impI)
  show "wf_json (merge_patch t p)" by (rule merge_patch_wf [OF assms])
  show "merge_patch (merge_patch t p) p = merge_patch t p" by (rule merge_patch_idem [OF assms])
  show "merge_patch t p = p" if "\<not> is_object p" using that by (cases p) simp_all
  fix ps
  assume p: "p = JObj ps"
  have d: "distinct (map fst ps)" using assms(2) by (simp add: p bm_wf_distinct)
  have base: "map_of (case t of JObj m \<Rightarrow> m | _ \<Rightarrow> []) k = Option.bind (as_object t) (\<lambda>m. map_of m k)" for k
    by (cases t) simp_all
  show "\<exists>m'. merge_patch t p = JObj m' \<and>
               (\<forall>k. map_of m' k =
                  (case map_of ps k of
                     None \<Rightarrow> Option.bind (as_object t) (\<lambda>m. map_of m k)
                   | Some pv \<Rightarrow>
                       if pv = JNull then None
                       else Some (merge_patch (case Option.bind (as_object t) (\<lambda>m. map_of m k) of
                                                 Some v \<Rightarrow> v | None \<Rightarrow> JNull) pv)))"
    by (intro exI [of _ "merge_entries (case t of JObj m \<Rightarrow> m | _ \<Rightarrow> []) ps"])
      (simp add: p merge_entries_lookup [OF d] base patched_def split: option.split)
qed

theorem merge_patch_rfc7386_witness:
  "merge_patch (merge_patch (JObj [(''a'', JNum (PosInt 1)), (''b'', JNull)]) (JObj [(''a'', JNull), (''c'', JStr ''x'')]))
     (JObj [(''a'', JNull), (''c'', JStr ''x'')]) =
   merge_patch (JObj [(''a'', JNum (PosInt 1)), (''b'', JNull)]) (JObj [(''a'', JNull), (''c'', JStr ''x'')])"
proof -
  have "wf_json (JObj [(''a'', JNum (PosInt 1)), (''b'', JNull)])" "wf_json (JObj [(''a'', JNull), (''c'', JStr ''x'')])"
    by code_simp+
  from merge_patch_rfc7386 [OF this] show ?thesis by (elim conjE)
qed

end
