(* ===== verification/Admin_Router.thy ===== *)
theory Admin_Router
  imports Router Merge_Patch
begin

text \<open>
  The administrative routes of the service (\<open>config/service/admin_router.rs\<close>): the two-gate
  authorisation, the handlers for manifests, policies (replace, patch, history, restore),
  assignments and bundles, and the router that combines them with the device-facing routes.

  The request bodies are decoded by serde, bundles are packed and unpacked by the archive code;
  both are parameters (\<open>admin_env\<close>).
\<close>

section \<open>Request bodies\<close>

record policy_write_body =
  pb_enforced :: json_map
  pb_recommended :: json_map
  pb_parent_profile :: "string option"
  pb_max_cache_age_secs :: u64
  pb_stale_action :: stale_action

record assignment_rule_body =
  ab_claim_path :: string
  ab_operator :: string
  ab_value :: "json option"
  ab_profile :: string

record admin_env = service_env +
  av_manifest :: "json \<Rightarrow> string + config_manifest"
  av_policy_body :: "json \<Rightarrow> string + policy_write_body"
  av_assignments_body :: "json \<Rightarrow> string + assignment_rule_body list"
  av_export :: "policy_store \<Rightarrow> string + string"
  av_extract :: "string \<Rightarrow> string + policy_bundle"

section \<open>Shared helpers\<close>

definition bad_request :: "string \<Rightarrow> response" where
  "bad_request msg = error_response 400 msg"

definition validation_error_response :: "policy_validation_error list \<Rightarrow> response" where
  "validation_error_response errors = \<lparr>rp_status = 400, rp_etag = None, rp_body = ErrorsBody errors\<rparr>"

fun admin_write_error_response :: "admin_write_error \<Rightarrow> response" where
  "admin_write_error_response (Conflict _ _) = status_only 412"
| "admin_write_error_response (Validation errors) = validation_error_response errors"
| "admin_write_error_response (AdminStore e) = internal_error"

definition admin_store_not_configured :: response where
  "admin_store_not_configured = internal_error"

definition etag_response :: "u64 \<Rightarrow> response" where
  "etag_response version = \<lparr>rp_status = 200, rp_etag = Some (etag_of version), rp_body = NoBody\<rparr>"

definition stored_policy_from_write :: "string \<Rightarrow> string \<Rightarrow> policy_write \<Rightarrow> u64 \<Rightarrow> stored_policy" where
  "stored_policy_from_write app profile w version =
     \<lparr>sp_app = app, sp_profile = profile, sp_enforced = pw_enforced w, sp_recommended = pw_recommended w,
      sp_parent_profile = pw_parent_profile w, sp_max_cache_age_secs = pw_max_cache_age_secs w,
      sp_stale_action = pw_stale_action w, sp_version = version\<rparr>"

text \<open>The answer to a versioned write.\<close>

definition write_response :: "'d config_service_state \<Rightarrow> (admin_write_error + u64) \<times> 'd \<Rightarrow> response \<times> 'd config_service_state \<times> 'd" where
  "write_response cs r =
     (case r of
        (Ok v, d') \<Rightarrow> (etag_response v, cs, d')
      | (Err e, d') \<Rightarrow> (admin_write_error_response e, cs, d'))"

text \<open>
  What every versioned write checks first, in this order: the store is configured, the expected
  version is given, the caller has a subject.
\<close>

definition admin_preamble ::
  "'d config_service_state \<Rightarrow> json \<Rightarrow> request \<Rightarrow> response + 'd policy_admin_store \<times> u64 \<times> string" where
  "admin_preamble cs claims req =
     (case cs_admin_store cs of
        None \<Rightarrow> Err admin_store_not_configured
      | Some admin_store \<Rightarrow>
          and_then (require_if_match req) (\<lambda>expected_version.
          case subject_from_claims claims of
            None \<Rightarrow> Err missing_sub_response
          | Some actor \<Rightarrow> Ok (admin_store, expected_version, actor)))"

text \<open>Lifting an early return into the answer of a handler.\<close>

definition respond ::
  "'d config_service_state \<Rightarrow> 'd \<Rightarrow> response + 'a \<Rightarrow> ('a \<Rightarrow> response \<times> 'd config_service_state \<times> 'd) \<Rightarrow>
   response \<times> 'd config_service_state \<times> 'd" where
  "respond cs d r k = (case r of Err resp \<Rightarrow> (resp, cs, d) | Ok a \<Rightarrow> k a)"

section \<open>Manifests\<close>

definition put_manifest :: "admin_env \<Rightarrow> string \<Rightarrow> json \<Rightarrow> 'd handler" where
  "put_manifest av app claims cs d req =
     respond cs d (admin_preamble cs claims req) (\<lambda>(admin_store, expected_version, actor).
     respond cs d (map_err (\<lambda>e. bad_request (''request body is not a valid manifest: '' @ e)) (av_manifest av (rq_body req))) (\<lambda>doc.
       write_response cs (pa_put_manifest admin_store app doc actor expected_version d)))"

section \<open>Policies\<close>

definition get_policy_admin :: "string \<Rightarrow> string \<Rightarrow> json \<Rightarrow> 'd handler" where
  "get_policy_admin app profile claims cs d req =
     (case st_policy (cs_policy_store cs d) app profile of
        Ok (Some p) \<Rightarrow> (\<lparr>rp_status = 200, rp_etag = Some (etag_of (sp_version p)), rp_body = StoredPolicyBody p\<rparr>, cs, d)
      | Ok None \<Rightarrow> (status_only 404, cs, d)
      | Err _ \<Rightarrow> (internal_error, cs, d))"

definition check_candidate ::
  "'d config_service_state \<Rightarrow> 'd \<Rightarrow> string \<Rightarrow> string \<Rightarrow> policy_write \<Rightarrow> response + unit" where
  "check_candidate cs d app profile w =
     (let errors = validate_policy_for_write (cs_policy_store cs d) (stored_policy_from_write app profile w 0)
      in if errors \<noteq> [] then Err (validation_error_response errors) else Ok ())"

definition put_policy :: "admin_env \<Rightarrow> string \<Rightarrow> string \<Rightarrow> json \<Rightarrow> 'd handler" where
  "put_policy av app profile claims cs d req =
     respond cs d (admin_preamble cs claims req) (\<lambda>(admin_store, expected_version, actor).
     respond cs d (map_err (\<lambda>e. bad_request (''request body is not a valid policy: '' @ e)) (av_policy_body av (rq_body req))) (\<lambda>body.
     let policy_write =
           \<lparr>pw_enforced = pb_enforced body, pw_recommended = pb_recommended body,
            pw_parent_profile = pb_parent_profile body, pw_max_cache_age_secs = pb_max_cache_age_secs body,
            pw_stale_action = pb_stale_action body\<rparr>
     in respond cs d (check_candidate cs d app profile policy_write) (\<lambda>_.
          write_response cs
            (pa_put_policy admin_store app profile policy_write PolicyPut (rq_body req) actor expected_version d))))"

text \<open>The document a patch produces from the current policy, or the rejection of the patch.\<close>

definition patch_tree :: "json_map \<Rightarrow> json option \<Rightarrow> json" where
  "patch_tree tree fragment =
     (case fragment of Some f \<Rightarrow> merge_patch (JObj tree) f | None \<Rightarrow> JObj tree)"

definition patch_trees :: "stored_policy \<Rightarrow> json_map \<Rightarrow> response + json_map \<times> json_map" where
  "patch_trees current patch_obj =
     (case (patch_tree (sp_enforced current) (map_of patch_obj ''enforced''),
            patch_tree (sp_recommended current) (map_of patch_obj ''recommended'')) of
        (JObj enforced, JObj recommended) \<Rightarrow> Ok (enforced, recommended)
      | _ \<Rightarrow> Err (bad_request ([CHR 0x27] @ ''enforced'' @ [CHR 0x27] @ '' and '' @ [CHR 0x27] @ ''recommended'' @
                    [CHR 0x27] @ '' must merge-patch to JSON objects'')))"

definition patch_parent_profile :: "stored_policy \<Rightarrow> json_map \<Rightarrow> response + string option" where
  "patch_parent_profile current patch_obj =
     (case map_of patch_obj ''parent_profile'' of
        None \<Rightarrow> Ok (sp_parent_profile current)
      | Some JNull \<Rightarrow> Ok None
      | Some (JStr s) \<Rightarrow> Ok (Some s)
      | Some _ \<Rightarrow> Err (bad_request ([CHR 0x27] @ ''parent_profile'' @ [CHR 0x27] @ '' must be a string or null'')))"

definition patch_max_cache_age :: "stored_policy \<Rightarrow> json_map \<Rightarrow> response + u64" where
  "patch_max_cache_age current patch_obj =
     (case map_of patch_obj ''max_cache_age_secs'' of
        None \<Rightarrow> Ok (sp_max_cache_age_secs current)
      | Some v \<Rightarrow>
          (case as_u64 v of
             Some n \<Rightarrow> Ok n
           | None \<Rightarrow> Err (bad_request ([CHR 0x27] @ ''max_cache_age_secs'' @ [CHR 0x27] @ '' must be a non-negative integer''))))"

definition patch_stale_action :: "stored_policy \<Rightarrow> json_map \<Rightarrow> response + stale_action" where
  "patch_stale_action current patch_obj =
     (case map_of patch_obj ''stale_action'' of
        None \<Rightarrow> Ok (sp_stale_action current)
      | Some (JStr s) \<Rightarrow>
          if s = ''warn'' then Ok Warn
          else if s = ''refuse'' then Ok Refuse
          else Err (bad_request ([CHR 0x27] @ ''stale_action'' @ [CHR 0x27] @ '' must be warn or refuse''))
      | Some _ \<Rightarrow> Err (bad_request ([CHR 0x27] @ ''stale_action'' @ [CHR 0x27] @ '' must be warn or refuse'')))"

definition patched_write :: "stored_policy \<Rightarrow> json_map \<Rightarrow> response + policy_write" where
  "patched_write current patch_obj =
     and_then (patch_trees current patch_obj) (\<lambda>(enforced, recommended).
     and_then (patch_parent_profile current patch_obj) (\<lambda>parent_profile.
     and_then (patch_max_cache_age current patch_obj) (\<lambda>max_cache_age_secs.
     and_then (patch_stale_action current patch_obj) (\<lambda>stale_action.
       Ok \<lparr>pw_enforced = enforced, pw_recommended = recommended, pw_parent_profile = parent_profile,
           pw_max_cache_age_secs = max_cache_age_secs, pw_stale_action = stale_action\<rparr>))))"

definition patch_policy :: "string \<Rightarrow> string \<Rightarrow> json \<Rightarrow> 'd handler" where
  "patch_policy app profile claims cs d req =
     respond cs d (admin_preamble cs claims req) (\<lambda>(admin_store, expected_version, actor).
     case rq_body req of
       JObj patch_obj \<Rightarrow>
         (case st_policy (cs_policy_store cs d) app profile of
            Ok (Some current) \<Rightarrow>
              respond cs d (patched_write current patch_obj) (\<lambda>policy_write.
              respond cs d (check_candidate cs d app profile policy_write) (\<lambda>_.
                write_response cs
                  (pa_put_policy admin_store app profile policy_write PolicyPatch (rq_body req) actor expected_version d)))
          | Ok None \<Rightarrow> (status_only 404, cs, d)
          | Err _ \<Rightarrow> (internal_error, cs, d))
     | _ \<Rightarrow> (bad_request ''request body must be a JSON object'', cs, d))"

section \<open>History\<close>

definition get_policy_history :: "string \<Rightarrow> string \<Rightarrow> json \<Rightarrow> 'd handler" where
  "get_policy_history app profile claims cs d req =
     (case cs_admin_store cs of
        None \<Rightarrow> (admin_store_not_configured, cs, d)
      | Some admin_store \<Rightarrow>
          (case pa_policy_history admin_store app profile d of
             Ok entries \<Rightarrow> (\<lparr>rp_status = 200, rp_etag = None, rp_body = HistoryBody entries\<rparr>, cs, d)
           | Err _ \<Rightarrow> (internal_error, cs, d)))"

definition policy_write_from_resulting_document :: "json \<Rightarrow> string + policy_write" where
  "policy_write_from_resulting_document doc =
     (let enforced = (case Option.bind (json_get doc ''enforced'') as_object of Some m \<Rightarrow> m | None \<Rightarrow> []);
          recommended = (case Option.bind (json_get doc ''recommended'') as_object of Some m \<Rightarrow> m | None \<Rightarrow> []);
          parent_profile = Option.bind (json_get doc ''parent_profile'') as_str
      in case Option.bind (json_get doc ''max_cache_age_secs'') as_u64 of
           None \<Rightarrow> Err ''resulting_document is missing max_cache_age_secs''
         | Some max_cache_age_secs \<Rightarrow>
             and_then (case Option.bind (json_get doc ''stale_action'') as_str of
                         Some s \<Rightarrow>
                           if s = ''warn'' then Ok Warn
                           else if s = ''refuse'' then Ok Refuse
                           else Err ''resulting_document has an invalid stale_action''
                       | None \<Rightarrow> Err ''resulting_document has an invalid stale_action'') (\<lambda>stale_action.
               Ok \<lparr>pw_enforced = enforced, pw_recommended = recommended, pw_parent_profile = parent_profile,
                   pw_max_cache_age_secs = max_cache_age_secs, pw_stale_action = stale_action\<rparr>))"

definition restorable :: "u64 \<Rightarrow> mutation_log_entry \<Rightarrow> bool" where
  "restorable version e \<longleftrightarrow>
     ml_resulting_version e = version \<and> ml_kind e \<in> {PolicyPut, PolicyPatch, PolicyRestore}"

definition restore_policy :: "string \<Rightarrow> string \<Rightarrow> u64 \<Rightarrow> json \<Rightarrow> 'd handler" where
  "restore_policy app profile version claims cs d req =
     (case cs_admin_store cs of
        None \<Rightarrow> (admin_store_not_configured, cs, d)
      | Some admin_store \<Rightarrow>
          (case subject_from_claims claims of
             None \<Rightarrow> (missing_sub_response, cs, d)
           | Some actor \<Rightarrow>
               (case pa_policy_history admin_store app profile d of
                  Err _ \<Rightarrow> (internal_error, cs, d)
                | Ok history \<Rightarrow>
                    (case find (restorable version) history of
                       None \<Rightarrow> (status_only 404, cs, d)
                     | Some entry \<Rightarrow>
                         (case policy_write_from_resulting_document (ml_resulting_document entry) of
                            Err _ \<Rightarrow> (internal_error, cs, d)
                          | Ok policy_write \<Rightarrow>
                              respond cs d (check_candidate cs d app profile policy_write) (\<lambda>_.
                              case st_policy (cs_policy_store cs d) app profile of
                                Err _ \<Rightarrow> (internal_error, cs, d)
                              | Ok found \<Rightarrow>
                                  let current_version = (case found of Some p \<Rightarrow> sp_version p | None \<Rightarrow> 0);
                                      submitted = JObj [(''restore_from_version'', JNum (PosInt version))]
                                  in write_response cs
                                       (pa_put_policy admin_store app profile policy_write PolicyRestore submitted actor
                                          current_version d)))))))"

section \<open>Assignments\<close>

definition assignment_rule_wire_of :: "assignment_rule \<Rightarrow> assignment_rule_wire" where
  "assignment_rule_wire_of r = (ar_claim_path r, ar_operator r, ar_value r, ar_profile r)"

definition get_assignments :: "string \<Rightarrow> json \<Rightarrow> 'd handler" where
  "get_assignments app claims cs d req =
     (case cs_admin_store cs of
        None \<Rightarrow> (admin_store_not_configured, cs, d)
      | Some admin_store \<Rightarrow>
          (case st_assignment_rules (cs_policy_store cs d) app of
             Err _ \<Rightarrow> (internal_error, cs, d)
           | Ok rules \<Rightarrow>
               (case pa_assignment_rules_version admin_store app d of
                  Err _ \<Rightarrow> (internal_error, cs, d)
                | Ok version \<Rightarrow>
                    (\<lparr>rp_status = 200, rp_etag = Some (etag_of version),
                      rp_body = AssignmentsBody (map assignment_rule_wire_of (sort_key ar_ord rules)) version\<rparr>, cs, d))))"

definition parse_assignment_rule :: "string \<Rightarrow> nat \<times> assignment_rule_body \<Rightarrow> response + assignment_rule" where
  "parse_assignment_rule app ir =
     (case ir of (idx, r) \<Rightarrow>
        (case rule_operator_parse_wire_str (ab_operator r) of
           None \<Rightarrow> Err (bad_request (''rule '' @ nat_dec idx @ '': unknown operator '' @ [CHR 0x27] @ ab_operator r @ [CHR 0x27]))
         | Some op \<Rightarrow>
             Ok \<lparr>ar_app = app, ar_ord = int idx, ar_claim_path = ab_claim_path r, ar_operator = op,
                 ar_value = ab_value r, ar_profile = ab_profile r\<rparr>))"

definition put_assignments :: "admin_env \<Rightarrow> string \<Rightarrow> json \<Rightarrow> 'd handler" where
  "put_assignments av app claims cs d req =
     respond cs d (admin_preamble cs claims req) (\<lambda>(admin_store, expected_version, actor).
     respond cs d (map_err (\<lambda>e. bad_request (''request body is not a valid assignment rule set: '' @ e))
                     (av_assignments_body av (rq_body req))) (\<lambda>body.
     respond cs d (collect_results (parse_assignment_rule app) (enumerate 0 body)) (\<lambda>rules.
     case st_policies_for_app (cs_policy_store cs d) app of
       Err _ \<Rightarrow> (internal_error, cs, d)
     | Ok existing_policies \<Rightarrow>
         let errors = assignment_rule_missing_profile_errors app rules (by_profile_of existing_policies) @
                      default_rule_not_last_errors app rules
         in if errors \<noteq> [] then (validation_error_response errors, cs, d)
            else write_response cs (pa_put_assignment_rules admin_store app rules actor expected_version d))))"

section \<open>Bundles\<close>

definition export_bundle :: "admin_env \<Rightarrow> json \<Rightarrow> 'd handler" where
  "export_bundle av claims cs d req =
     (case av_export av (cs_policy_store cs d) of
        Ok bytes \<Rightarrow> (\<lparr>rp_status = 200, rp_etag = None, rp_body = TarBody bytes\<rparr>, cs, d)
      | Err _ \<Rightarrow> (internal_error, cs, d))"

definition import_bundle_handler :: "admin_env \<Rightarrow> json \<Rightarrow> 'd handler" where
  "import_bundle_handler av claims cs d req =
     (case cs_admin_store cs of
        None \<Rightarrow> (admin_store_not_configured, cs, d)
      | Some admin_store \<Rightarrow>
          (case subject_from_claims claims of
             None \<Rightarrow> (missing_sub_response, cs, d)
           | Some actor \<Rightarrow>
               (case av_extract av (rq_bytes req) of
                  Err e \<Rightarrow> (bad_request (''invalid bundle: '' @ e), cs, d)
                | Ok bd \<Rightarrow>
                    (case pa_import_bundle admin_store bd actor d of
                       (Ok summary, d') \<Rightarrow> (\<lparr>rp_status = 200, rp_etag = None, rp_body = SummaryBody summary\<rparr>, cs, d')
                     | (Err e, d') \<Rightarrow> (admin_write_error_response e, cs, d')))))"

section \<open>The router\<close>

datatype admin_route =
    AdminPutManifest string
  | AdminGetPolicy string string
  | AdminPutPolicy string string
  | AdminPatchPolicy string string
  | AdminPolicyHistory string string
  | AdminRestorePolicy string string u64
  | AdminGetAssignments string
  | AdminPutAssignments string
  | AdminExport
  | AdminImport

fun admin_handler :: "admin_env \<Rightarrow> admin_route \<Rightarrow> json \<Rightarrow> 'd handler" where
  "admin_handler av (AdminPutManifest app) = put_manifest av app"
| "admin_handler av (AdminGetPolicy app profile) = get_policy_admin app profile"
| "admin_handler av (AdminPutPolicy app profile) = put_policy av app profile"
| "admin_handler av (AdminPatchPolicy app profile) = patch_policy app profile"
| "admin_handler av (AdminPolicyHistory app profile) = get_policy_history app profile"
| "admin_handler av (AdminRestorePolicy app profile version) = restore_policy app profile version"
| "admin_handler av (AdminGetAssignments app) = get_assignments app"
| "admin_handler av (AdminPutAssignments app) = put_assignments av app"
| "admin_handler av AdminExport = export_bundle av"
| "admin_handler av AdminImport = import_bundle_handler av"

definition admin_router :: "admin_env \<Rightarrow> admin_route \<Rightarrow> 'd handler" where
  "admin_router av route = require_caller_identity (require_admin_role (with_claims (admin_handler av route)))"

datatype any_route = DeviceRoute route | AdminRoute admin_route

fun config_service_router :: "admin_env \<Rightarrow> any_route \<Rightarrow> 'd handler" where
  "config_service_router av (DeviceRoute r) = main_router (service_env.truncate av) r"
| "config_service_router av (AdminRoute r) = admin_router av r"

end
