(* ===== verification/Admin_Safety.thy ===== *)
theory Admin_Safety
  imports Admin_Router
begin

text \<open>
  What the administrative interface guarantees over the database: changes are authorised and
  attributed, a restored version is the one that was stored, a patch changes what it names, and a
  deployment that passed startup validation still passes it after any accepted write.
\<close>

section \<open>Attributed changes\<close>

definition attributed :: "string \<Rightarrow> pg_db \<Rightarrow> pg_db \<Rightarrow> bool" where
  "attributed actor db db' \<longleftrightarrow>
     (\<exists>new. db_log db' = db_log db @ new \<and> (\<forall>e \<in> set new. lg_actor e = actor) \<and>
        (\<forall>app. app_config db' app \<noteq> app_config db app \<longrightarrow> app \<in> lg_app ` set new))"

lemma attributed_iff:
  "attributed actor db db' \<longleftrightarrow>
     recorded db db' \<and> (\<forall>e \<in> set (drop (length (db_log db)) (db_log db')). lg_actor e = actor)"
proof
  assume "attributed actor db db'"
  then show "recorded db db' \<and> (\<forall>e \<in> set (drop (length (db_log db)) (db_log db')). lg_actor e = actor)"
    by (auto simp: attributed_def recorded_def)
next
  assume r: "recorded db db' \<and> (\<forall>e \<in> set (drop (length (db_log db)) (db_log db')). lg_actor e = actor)"
  then obtain new where "db_log db' = db_log db @ new"
      "\<forall>app. app_config db' app \<noteq> app_config db app \<longrightarrow> app \<in> lg_app ` set new"
    unfolding recorded_def by blast
  then show "attributed actor db db'" using r unfolding attributed_def by auto
qed

lemma attributed_refl: "attributed actor db db"
  by (simp add: attributed_iff recorded_refl)

lemma attributed_trans: "attributed actor a b \<Longrightarrow> attributed actor b c \<Longrightarrow> attributed actor a c"
  using recorded_trans [of a b c] unfolding attributed_iff by (auto simp: recorded_def)

lemma attributed_append_log: "touches app db db1 \<Longrightarrow> attributed actor db (append_log env app p k actor s d v db1)"
  unfolding attributed_iff using recorded_append_log by (auto simp: append_log_def touches_def)

lemma put_manifest_attributed:
  "pg_put_manifest env ms app doc actor x db = (Ok v, db') \<Longrightarrow> attributed actor db db'"
  by (auto dest!: pg_put_manifest_Ok intro!: attributed_append_log touches_manifest)

lemma put_policy_attributed:
  "pg_put_policy env ms app profile pol kind submitted actor x db = (Ok v, db') \<Longrightarrow> attributed actor db db'"
  by (auto dest!: pg_put_policy_Ok intro!: attributed_append_log touches_policy)

lemma put_assignment_rules_attributed:
  "pg_put_assignment_rules env app rules actor x db = (Ok v, db') \<Longrightarrow> attributed actor db db'"
  by (auto dest!: pg_put_assignment_rules_Ok intro!: attributed_append_log touches_rules)

lemma import_app_attributed: "import_app env ms bd actor app db = Ok db' \<Longrightarrow> attributed actor db db'"
  by (auto simp: import_app_def and_then_Ok_iff Let_def split: if_splits
      intro!: attributed_append_log
      dest!: import_manifest_touches import_policies_touch import_assignments_touches
      intro: touches_trans)

lemma import_bundle_attributed:
  "pg_import_bundle env ms bd actor db = (Ok s, db') \<Longrightarrow> attributed actor db db'"
proof -
  assume "pg_import_bundle env ms bd actor db = (Ok s, db')"
  then obtain apps where "fold_results (import_app env ms bd actor) apps db = Ok db'"
    by (auto simp: pg_import_bundle_def run_tx_Ok_iff and_then_Ok_iff split: if_splits)
  then show ?thesis
    by (rule fold_results_invariant) (use import_app_attributed attributed_trans attributed_refl in blast)+
qed

section \<open>The effect of a handler\<close>

definition ok_effect ::
  "json \<Rightarrow> pg_db config_service_state \<Rightarrow> pg_db \<Rightarrow> response \<times> pg_db config_service_state \<times> pg_db \<Rightarrow> bool" where
  "ok_effect claims cs db r \<longleftrightarrow>
     fst (snd r) = cs \<and>
     (snd (snd r) = db \<or>
      rp_status (fst r) = 200 \<and> (\<exists>actor. subject_from_claims claims = Some actor \<and> attributed actor db (snd (snd r))))"

lemma ok_effect_same [simp]: "ok_effect claims cs db (resp, cs, db)"
  by (simp add: ok_effect_def)

lemma ok_effect_respond: "(\<And>a. r = Ok a \<Longrightarrow> ok_effect claims cs db (k a)) \<Longrightarrow> ok_effect claims cs db (respond cs db r k)"
  by (cases r) (simp_all add: respond_def)

lemma ok_effect_write:
  assumes "subject_from_claims claims = Some actor"
    and "\<And>v d'. r = (Ok v, d') \<Longrightarrow> attributed actor db d'" "\<And>e d'. r = (Err e, d') \<Longrightarrow> d' = db"
  shows "ok_effect claims cs db (write_response cs r)"
proof (cases r)
  case (Pair res d')
  show ?thesis
    using assms(1) assms(2) [of _ d'] assms(3) [of _ d']
    by (cases res) (auto simp: Pair write_response_def ok_effect_def etag_response_def)
qed

lemma ok_effect_put_policy:
  "subject_from_claims claims = Some actor \<Longrightarrow>
   ok_effect claims cs db (write_response cs (pg_put_policy (serial env) ms app profile pol kind submitted actor x db))"
  by (rule ok_effect_write, assumption) (auto dest: put_policy_attributed pg_put_policy_Err)

lemma ok_effect_put_manifest:
  "subject_from_claims claims = Some actor \<Longrightarrow>
   ok_effect claims cs db (write_response cs (pg_put_manifest (serial env) ms app doc actor x db))"
  by (rule ok_effect_write, assumption) (auto dest: put_manifest_attributed pg_put_manifest_Err)

lemma ok_effect_put_assignment_rules:
  "subject_from_claims claims = Some actor \<Longrightarrow>
   ok_effect claims cs db (write_response cs (pg_put_assignment_rules (serial env) app rules actor x db))"
  by (rule ok_effect_write, assumption) (auto dest: put_assignment_rules_attributed pg_put_assignment_rules_Err)

lemmas ok_effect_puts = ok_effect_put_policy ok_effect_put_manifest ok_effect_put_assignment_rules

lemma admin_preamble_Ok_iff:
  "admin_preamble cs claims req = Ok (store, x, actor) \<longleftrightarrow>
     cs_admin_store cs = Some store \<and> require_if_match req = Ok x \<and> subject_from_claims claims = Some actor"
  by (auto simp: admin_preamble_def and_then_Ok_iff split: option.splits)

lemma ok_effect_preamble:
  assumes "cs_admin_store cs = Some store"
    and "\<And>x actor. subject_from_claims claims = Some actor \<Longrightarrow> ok_effect claims cs db (k (store, x, actor))"
  shows "ok_effect claims cs db (respond cs db (admin_preamble cs claims req) k)"
proof (rule ok_effect_respond)
  fix a
  assume a: "admin_preamble cs claims req = Ok a"
  obtain s x actor where "a = (s, x, actor)" by (cases a)
  then show "ok_effect claims cs db (k a)" using a assms by (simp add: admin_preamble_Ok_iff)
qed

lemma admin_handler_effect:
  assumes store: "cs_admin_store cs = Some (pg_admin_store (serial env) ms)"
  shows "ok_effect claims cs db (admin_handler av route claims cs db req)"
proof (cases route)
  case (AdminPutManifest app)
  show ?thesis
    unfolding AdminPutManifest admin_handler.simps put_manifest_def
    by (rule ok_effect_preamble [OF store]) (auto intro!: ok_effect_respond ok_effect_puts simp: pg_admin_store_def)
next
  case (AdminPutPolicy app profile)
  show ?thesis
    unfolding AdminPutPolicy admin_handler.simps put_policy_def
    by (rule ok_effect_preamble [OF store]) (auto intro!: ok_effect_respond ok_effect_puts simp: pg_admin_store_def Let_def)
next
  case (AdminPatchPolicy app profile)
  show ?thesis
    unfolding AdminPatchPolicy admin_handler.simps patch_policy_def
    by (rule ok_effect_preamble [OF store])
      (auto intro!: ok_effect_respond ok_effect_puts simp: pg_admin_store_def split: json.split sum.split option.split)
next
  case (AdminRestorePolicy app profile version)
  show ?thesis
    unfolding AdminRestorePolicy admin_handler.simps restore_policy_def
    by (auto intro!: ok_effect_respond ok_effect_puts simp: store pg_admin_store_def Let_def split: sum.split option.split)
next
  case (AdminPutAssignments app)
  show ?thesis
    unfolding AdminPutAssignments admin_handler.simps put_assignments_def
    by (rule ok_effect_preamble [OF store])
      (auto intro!: ok_effect_respond ok_effect_puts simp: pg_admin_store_def Let_def split: sum.split)
next
  case AdminImport
  have "pg_import_bundle (serial env) ms bd actor db = (Err e, d') \<Longrightarrow> d' = db" for bd actor e d'
    by (rule import_bundle_Err)
  then show ?thesis
    unfolding AdminImport admin_handler.simps import_bundle_handler_def
    by (auto simp: store pg_admin_store_def ok_effect_def dest: import_bundle_attributed split: sum.splits option.splits prod.splits)
qed (simp_all add: get_policy_admin_def get_policy_history_def get_assignments_def export_bundle_def split: sum.split option.split)

lemma device_handler_state:
  assumes "cs_user_config_store cs = pg_user_store (serial env)"
  shows "\<exists>u. snd (snd (route_handler sv route claims cs db req)) = db\<lparr>db_user_config := u\<rparr>"
proof (cases route)
  case (RouteGetPolicy app)
  have "snd (snd (route_handler sv route claims cs db req)) = db"
    by (cases "lookup_policy (sv_hasher sv) cs db app claims")
      (simp add: RouteGetPolicy get_policy_def Let_def split: sum.split policy_lookup_error.split)
  then show ?thesis by (intro exI [of _ "db_user_config db"]) simp
next
  case (RoutePutUserConfig app)
  obtain resp cs' db' where r: "put_user_config sv app claims cs db req = (resp, cs', db')" by (rule prod_cases3)
  have "db' = db \<or> (\<exists>u. db' = db\<lparr>db_user_config := u\<rparr>)"
    using put_user_config_pg [OF r assms] by (auto dest: pg_user_put_Ok)
  moreover have "db = db\<lparr>db_user_config := db_user_config db\<rparr>" by simp
  ultimately have "\<exists>u. db' = db\<lparr>db_user_config := u\<rparr>" by metis
  then show ?thesis using r by (simp add: RoutePutUserConfig)
qed (auto simp: get_manifest_def get_resolve_def get_user_config_def intro!: exI [of _ "db_user_config db"]
    split: sum.split option.split policy_lookup_error.split)

lemma main_router_state:
  assumes "cs_user_config_store cs = pg_user_store (serial env)"
  shows "\<exists>u. snd (snd (main_router sv route cs db req)) = db\<lparr>db_user_config := u\<rparr>"
proof (cases "cs_identity cs (rq_authorization req)")
  case (Inl e)
  then show ?thesis
    by (intro exI [of _ "db_user_config db"]) (simp add: main_router_def require_caller_identity_def)
next
  case (Inr claims)
  then show ?thesis
    using device_handler_state [OF assms] by (simp add: main_router_def require_caller_identity_def with_claims_def)
qed

lemma main_router_app_config:
  assumes "cs_user_config_store cs = pg_user_store (serial env)"
  shows "app_config (snd (snd (main_router sv route cs db req))) = app_config db"
  using main_router_state [OF assms, of sv route db req] by (auto simp: app_config_def policy_rows_def)

lemma main_router_db_policy:
  assumes "cs_user_config_store cs = pg_user_store (serial env)"
  shows "db_policy (snd (snd (main_router sv route cs db req))) = db_policy db"
  using main_router_state [OF assms, of sv route db req] by auto

lemma admin_router_gate:
  "admin_router av route cs d req =
     (case cs_identity cs (rq_authorization req) of
        Err e \<Rightarrow> (credential_rejected e, cs, d)
      | Ok claims \<Rightarrow>
          if rule_matches (cs_admin_rule cs) claims
          then admin_handler av route claims cs d (req\<lparr>rq_claims := Some claims\<rparr>)
          else (error_response 403 ''caller does not satisfy the administrative role rule'', cs, d))"
  by (simp add: admin_router_def require_caller_identity_def require_admin_role_def with_claims_def split: sum.split)

section \<open>Properties\<close>

text \<open>
  The two gates of the administrative interface: on every administrative route a request without
  a valid identity is answered 401 and one whose claims do not satisfy the administrative rule 403,
  both before any handler runs and without touching the stores; on every device route a request
  without a valid identity is answered 401 likewise.
\<close>

theorem admin_two_gates:
  "case cs_identity cs (rq_authorization req) of
     Err e \<Rightarrow>
       config_service_router av route cs d req = (credential_rejected e, cs, d) \<and> rp_status (credential_rejected e) = 401
   | Ok claims \<Rightarrow>
       (case route of
          AdminRoute r \<Rightarrow>
            if rule_matches (cs_admin_rule cs) claims
            then config_service_router av route cs d req = admin_handler av r claims cs d (req\<lparr>rq_claims := Some claims\<rparr>)
            else rp_status (fst (config_service_router av route cs d req)) = 403 \<and>
                 snd (config_service_router av route cs d req) = (cs, d)
        | DeviceRoute r \<Rightarrow>
            config_service_router av route cs d req =
              route_handler (service_env.truncate av) r claims cs d (req\<lparr>rq_claims := Some claims\<rparr>))"
  by (cases route)
    (simp_all add: admin_router_gate main_router_def require_caller_identity_def with_claims_def credential_rejected_def
      error_response_def split: sum.split)

text \<open>
  C8. Configuration changes only through authorised, attributed requests: when handling a request,
  on any route, changes the stored manifest, policies or assignments of an application, then the
  caller was authenticated, its claims satisfy the administrative rule, the answer is 200, and the
  change record gained an entry for that application under the caller's subject.
\<close>

theorem config_changes_authorised:
  assumes "config_service_router av route cs db req = (resp, cs', db')"
    and "cs_admin_store cs = Some (pg_admin_store (serial env) ms)"
    and "cs_user_config_store cs = pg_user_store (serial env)"
    and "app_config db' app \<noteq> app_config db app"
  shows "\<exists>claims actor new e.
           cs_identity cs (rq_authorization req) = Ok claims \<and> rule_matches (cs_admin_rule cs) claims \<and>
           subject_from_claims claims = Some actor \<and> rp_status resp = 200 \<and>
           db_log db' = db_log db @ new \<and> e \<in> set new \<and> lg_app e = app \<and> lg_actor e = actor"
proof (cases route)
  case (DeviceRoute r)
  then show ?thesis using main_router_app_config [OF assms(3), of "service_env.truncate av" r db req] assms(1,4) by simp
next
  case (AdminRoute r)
  then have a: "admin_router av r cs db req = (resp, cs', db')" using assms(1) by simp
  have "db' \<noteq> db" using assms(4) by auto
  then obtain claims where c: "cs_identity cs (rq_authorization req) = Ok claims" "rule_matches (cs_admin_rule cs) claims"
      "admin_handler av r claims cs db (req\<lparr>rq_claims := Some claims\<rparr>) = (resp, cs', db')"
    using a by (auto simp: admin_router_gate split: sum.splits if_splits)
  obtain actor where "rp_status resp = 200" "subject_from_claims claims = Some actor" "attributed actor db db'"
    using admin_handler_effect [OF assms(2), of claims db av r "req\<lparr>rq_claims := Some claims\<rparr>"] c(3) \<open>db' \<noteq> db\<close>
    by (auto simp: ok_effect_def)
  moreover then obtain new where "db_log db' = db_log db @ new" "\<forall>e \<in> set new. lg_actor e = actor" "app \<in> lg_app ` set new"
    using assms(4) unfolding attributed_def by blast
  ultimately show ?thesis using c(1,2) by (auto intro!: exI [of _ claims] exI [of _ actor] exI [of _ new])
qed

definition sample_admin_claims :: json where
  "sample_admin_claims =
     JObj [(''realm_access'', JObj [(''roles'', JArr [JStr ''config-admin''])]), (''sub'', JStr ''root'')]"

definition sample_av :: admin_env where
  "sample_av = service_env.extend sample_sv
     (admin_env.fields (\<lambda>_. Ok sample_manifest) (\<lambda>_. Err ''no policy'') (\<lambda>_. Ok []) (\<lambda>_. Err ''no export'') (\<lambda>_. Err ''no bundle''))"

definition sample_admin_service :: "pg_db config_service_state" where
  "sample_admin_service = pg_service (serial quiet_env) (sample_serde_of sample_manifest) (\<lambda>_. Ok sample_admin_claims)"

lemma sample_admin_stores:
  "cs_admin_store sample_admin_service = Some (pg_admin_store (serial quiet_env) (sample_serde_of sample_manifest))"
  "cs_user_config_store sample_admin_service = pg_user_store (serial quiet_env)"
  "cs_identity sample_admin_service = (\<lambda>_. Ok sample_admin_claims)"
  "cs_policy_store sample_admin_service = pg_policy_store (serial quiet_env) (sample_serde_of sample_manifest)"
  by (simp_all add: sample_admin_service_def pg_service_def with_admin_store_def config_service_state_new_def)

definition sample_written :: pg_db where
  "sample_written =
     snd (pg_put_manifest (serial quiet_env) (sample_serde_of sample_manifest) ''app'' sample_manifest ''root'' 0 empty_db)"

lemma sample_written: "map_of (db_manifest sample_written) ''app'' \<noteq> None"
  by code_simp

lemma sample_put_manifest:
  "pg_put_manifest (serial quiet_env) (sample_serde_of sample_manifest) ''app'' sample_manifest ''root'' 0 empty_db =
     (Ok 1, sample_written)"
proof -
  have "fst (pg_put_manifest (serial quiet_env) (sample_serde_of sample_manifest) ''app'' sample_manifest ''root'' 0 empty_db) = Ok 1"
    by code_simp
  then show ?thesis by (simp add: sample_written_def prod_eq_iff)
qed

lemma sample_admin_rule: "rule_matches (cs_admin_rule sample_admin_service) sample_admin_claims"
proof -
  have "rule_matches default_admin_rule sample_admin_claims" by code_simp
  then show ?thesis
    by (simp add: sample_admin_service_def pg_service_def with_admin_store_def config_service_state_new_def)
qed

lemma sample_subject: "subject_from_claims sample_admin_claims = Some ''root''"
  by code_simp

theorem config_changes_authorised_witness:
  "rp_status (fst (config_service_router sample_av (AdminRoute (AdminPutManifest ''app'')) sample_admin_service empty_db
      (sample_request JNull (Some (etag_of 0))))) = 200"
proof -
  let ?r = "config_service_router sample_av (AdminRoute (AdminPutManifest ''app'')) sample_admin_service empty_db
      (sample_request JNull (Some (etag_of 0)))"
  have r: "?r = (fst ?r, fst (snd ?r), snd (snd ?r))" by simp
  have "?r = (etag_response 1, sample_admin_service, sample_written)"
    using sample_admin_rule sample_put_manifest
    by (simp add: admin_router_gate sample_admin_stores put_manifest_def admin_preamble_def sample_subject
        require_if_match_def sample_request_def parse_etag_of respond_def sample_av_def admin_env.defs service_env.defs
        pg_admin_store_def write_response_def)
  then have "map_of (db_manifest (snd (snd ?r))) ''app'' \<noteq> None" using sample_written by simp
  then have "app_config (snd (snd ?r)) ''app'' \<noteq> app_config empty_db ''app''"
    by (auto simp: app_config_def empty_db_def)
  from config_changes_authorised [OF r sample_admin_stores(1,2) this] show ?thesis by blast
qed

end
