(* ===== verification/Admin_Restore.thy ===== *)
theory Admin_Restore
  imports Admin_Safety
begin

text \<open>
  Restoring a recorded version of a policy. The change record holds, for every policy write, the
  document it produced (\<open>log_shape\<close>, an invariant of every run of the stores), and the restore
  handler reads such a document back without loss, so a restored policy is the recorded one.
\<close>

section \<open>Reading a recorded document\<close>

lemma resulting_document_fields:
  "json_get (policy_resulting_document app profile w v) ''enforced'' = Some (JObj (pw_enforced w))"
  "json_get (policy_resulting_document app profile w v) ''recommended'' = Some (JObj (pw_recommended w))"
  "json_get (policy_resulting_document app profile w v) ''parent_profile'' = Some (opt_json (map_option JStr (pw_parent_profile w)))"
  "json_get (policy_resulting_document app profile w v) ''max_cache_age_secs'' = Some (JNum (PosInt (pw_max_cache_age_secs w)))"
  "json_get (policy_resulting_document app profile w v) ''stale_action'' = Some (JStr (stale_action_wire_str (pw_stale_action w)))"
  by (simp_all add: policy_resulting_document_def json_get_def bm_of_list_lookup)

lemma policy_write_of_resulting_document:
  "policy_write_from_resulting_document (policy_resulting_document app profile w v) = Ok w"
  by (cases "pw_parent_profile w"; cases "pw_stale_action w")
    (simp_all add: policy_write_from_resulting_document_def resulting_document_fields opt_json_def Let_def)

section \<open>The shape of the change record\<close>

definition policy_kinds :: "string set" where
  "policy_kinds = mutation_kind_wire_str ` {PolicyPut, PolicyPatch, PolicyRestore}"

definition log_shape :: "pg_db \<Rightarrow> bool" where
  "log_shape db \<longleftrightarrow>
     (\<forall>e \<in> set (db_log db). \<forall>profile. lg_profile e = Some profile \<longrightarrow>
        (\<exists>w. lg_resulting_document e = policy_resulting_document (lg_app e) profile w (lg_resulting_version e)))"

lemma log_shape_append:
  assumes "log_shape db" "db_log db1 = db_log db"
    and "\<And>profile. p = Some profile \<Longrightarrow> \<exists>w. d = policy_resulting_document app profile w v"
  shows "log_shape (append_log env app p k a s d v db1)"
  using assms by (auto simp: log_shape_def append_log_def)

lemma import_log_shape: "import_app env ms bd actor app db = Ok db' \<Longrightarrow> log_shape db \<Longrightarrow> log_shape db'"
  by (auto simp: import_app_def and_then_Ok_iff Let_def touches_def split: if_splits
      intro!: log_shape_append
      dest!: import_manifest_touches import_policies_touch import_assignments_touches)

lemma import_bundle_log_shape:
  "pg_import_bundle env ms bd actor db = (r, db') \<Longrightarrow> log_shape db \<Longrightarrow> log_shape db'"
proof (cases r)
  case (Inl e)
  assume "pg_import_bundle env ms bd actor db = (r, db')" "log_shape db"
  then show ?thesis using import_bundle_Err [of env ms bd actor db e db'] by (simp add: Inl)
next
  case (Inr s)
  assume "pg_import_bundle env ms bd actor db = (r, db')" and shape: "log_shape db"
  then obtain apps where "fold_results (import_app env ms bd actor) apps db = Ok db'"
    by (auto simp: Inr pg_import_bundle_def run_tx_Ok_iff and_then_Ok_iff split: if_splits)
  then show ?thesis using import_log_shape shape by (rule fold_results_invariant)
qed

lemma pg_step_log_shape: "pg_step ms db db' \<Longrightarrow> log_shape db \<Longrightarrow> log_shape db'"
proof (erule pg_stepE)
  assume shape: "log_shape db"
  show "log_shape db'" if "pg_put_manifest (serial env) ms app doc actor x db = (r, db')" for env app doc actor x r
    using that shape by (cases r) (auto dest!: pg_put_manifest_Ok pg_put_manifest_Err intro!: log_shape_append)
  show "log_shape db'" if "pg_put_policy (serial env) ms app profile pol kind submitted actor x db = (r, db')"
    for env app profile pol kind submitted actor x r
    using that shape by (cases r) (auto dest!: pg_put_policy_Ok pg_put_policy_Err intro!: log_shape_append)
  show "log_shape db'" if "pg_put_assignment_rules (serial env) app rules actor x db = (r, db')"
    for env app rules actor x r
    using that shape
    by (cases r) (auto dest!: pg_put_assignment_rules_Ok pg_put_assignment_rules_Err intro!: log_shape_append)
  show "log_shape db'" if "pg_import_bundle env ms bd actor db = (s, db')" for env bd actor s
    using that shape by (rule import_bundle_log_shape)
  show "log_shape db'" if "pg_user_put (serial env) app subject doc x db = (u, db')" for env app subject doc x u
    using that shape by (cases u) (auto dest!: pg_user_put_Ok pg_user_put_Err simp: log_shape_def)
qed

lemma run_log_shape: "(pg_step ms)\<^sup>*\<^sup>* empty_db db \<Longrightarrow> log_shape db"
proof (induction rule: rtranclp_induct)
  case base
  show ?case by (simp add: log_shape_def empty_db_def)
next
  case (step b c)
  then show ?case using pg_step_log_shape by blast
qed

section \<open>The restore handler\<close>

text \<open>The entry a restore picks comes from the change record of that policy.\<close>

lemma history_entry:
  assumes "policy_history env db app profile = Ok history" "e \<in> set history"
  shows "\<exists>row \<in> set (db_log db). lg_app row = app \<and> lg_profile row = Some profile \<and>
           lg_kind row = mutation_kind_wire_str (ml_kind e) \<and>
           ml_resulting_version e = lg_resulting_version row \<and> ml_resulting_document e = lg_resulting_document row"
proof -
  let ?rows = "sort_key (\<lambda>r. sint (lg_resulting_version r)) (filter (\<lambda>r. lg_app r = app \<and> lg_profile r = Some profile) (db_log db))"
  have "collect_results row_to_mutation_log_entry ?rows = Ok history"
    using assms(1) by (auto simp: policy_history_def and_then_Ok_iff)
  then obtain row where row: "row \<in> set ?rows" "row_to_mutation_log_entry row = Ok e"
    using collect_results_member [OF _ assms(2)] by blast
  then show ?thesis
    by (intro bexI [of _ row]) (auto simp: row_to_mutation_log_entry_def mut_kind.of_wire_iff split: option.splits)
qed

lemma restore_policy_200:
  assumes "restore_policy app profile version claims cs d req = (resp, cs', d')" "rp_status resp = 200"
  shows "\<exists>store actor history entry w found v.
           cs_admin_store cs = Some store \<and> subject_from_claims claims = Some actor \<and>
           pa_policy_history store app profile d = Ok history \<and> find (restorable version) history = Some entry \<and>
           policy_write_from_resulting_document (ml_resulting_document entry) = Ok w \<and>
           check_candidate cs d app profile w = Ok () \<and> st_policy (cs_policy_store cs d) app profile = Ok found \<and>
           pa_put_policy store app profile w PolicyRestore (JObj [(''restore_from_version'', JNum (PosInt version))]) actor
             (case found of Some p \<Rightarrow> sp_version p | None \<Rightarrow> 0) d = (Ok v, d')"
proof -
  have not200: "rp_status (admin_write_error_response e) \<noteq> 200" for e
    by (cases e) (simp_all add: status_only_def internal_error_def validation_error_response_def)
  have not200': "check_candidate cs d app profile w = Err r \<Longrightarrow> rp_status r \<noteq> 200" for w r
    by (auto simp: check_candidate_def validation_error_response_def Let_def split: if_splits)
  show ?thesis
    using assms not200 not200'
    by (auto simp: restore_policy_def respond_def write_response_def Let_def admin_store_not_configured_def internal_error_def
        missing_sub_response_def error_response_def status_only_def
        split: option.splits sum.splits prod.splits if_splits)
qed

section \<open>Properties\<close>

text \<open>
  C25. Restoring a version brings back exactly what was stored under it. On any database reached from
  an empty one, when the restore of a recorded version of a policy answers 200, there is a record of
  that policy with that version whose document is the one of some policy content; afterwards the
  stored row holds exactly that content, under the next version, nothing else in the policy table
  changed, and the restore itself is recorded under the caller's subject.
\<close>

theorem restore_policy_restores:
  assumes "(pg_step ms)\<^sup>*\<^sup>* empty_db db"
    and "cs_admin_store cs = Some (pg_admin_store (serial env) ms)"
    and "restore_policy app profile version claims cs db req = (resp, cs', db')" "rp_status resp = 200"
  shows "\<exists>row w v actor.
           row \<in> set (db_log db) \<and> lg_app row = app \<and> lg_profile row = Some profile \<and>
           lg_resulting_version row = version \<and> lg_kind row \<in> policy_kinds \<and>
           lg_resulting_document row = policy_resulting_document app profile w version \<and>
           v = policy_version db (app, profile) + 1 \<and>
           map_of (db_policy db') = (map_of (db_policy db))((app, profile) \<mapsto> policy_row_of w v) \<and>
           subject_from_claims claims = Some actor \<and>
           (\<exists>e. db_log db' = db_log db @ [e] \<and> lg_kind e = mutation_kind_wire_str PolicyRestore \<and> lg_actor e = actor \<and>
                lg_resulting_document e = policy_resulting_document app profile w v)"
proof -
  obtain actor history entry w x v where r: "subject_from_claims claims = Some actor"
      "policy_history (serial env) db app profile = Ok history" "find (restorable version) history = Some entry"
      "policy_write_from_resulting_document (ml_resulting_document entry) = Ok w"
      "pg_put_policy (serial env) ms app profile w PolicyRestore (JObj [(''restore_from_version'', JNum (PosInt version))]) actor x db = (Ok v, db')"
    using restore_policy_200 [OF assms(3,4)] assms(2) by (auto simp: pg_admin_store_def)
  have entry: "entry \<in> set history" "restorable version entry" using find_SomeD [OF r(3)] by auto
  obtain row where row: "row \<in> set (db_log db)" "lg_app row = app" "lg_profile row = Some profile"
      "lg_kind row = mutation_kind_wire_str (ml_kind entry)" "ml_resulting_version entry = lg_resulting_version row"
      "ml_resulting_document entry = lg_resulting_document row"
    using history_entry [OF r(2) entry(1)] by blast
  obtain w' where w': "lg_resulting_document row = policy_resulting_document app profile w' (lg_resulting_version row)"
    using run_log_shape [OF assms(1)] row(1-3) unfolding log_shape_def by blast
  then have "w' = w" using r(4) row(6) by (simp add: policy_write_of_resulting_document)
  moreover have "lg_resulting_version row = version" "lg_kind row \<in> policy_kinds"
    using entry(2) row(4,5) by (auto simp: restorable_def policy_kinds_def)
  moreover note pg_put_policy_Ok [OF r(5)]
  ultimately show ?thesis
    using row(1-3) w' r(1)
    by (intro exI [of _ row] exI [of _ w] exI [of _ v] exI [of _ actor]) (auto simp: append_log_def)
qed

text \<open>A database with one manifest and one policy, and the restore of its first version.\<close>

definition sample_pg_ms :: manifest_serde where
  "sample_pg_ms = sample_serde_of sample_manifest"

definition sample_with_policy :: pg_db where
  "sample_with_policy =
     snd (pg_put_policy (serial quiet_env) sample_pg_ms ''app'' ''p'' sample_write PolicyPut JNull ''root'' 0 sample_written)"

lemma sample_with_policy_run: "(pg_step sample_pg_ms)\<^sup>*\<^sup>* empty_db sample_with_policy"
proof -
  have "pg_step sample_pg_ms empty_db sample_written"
    by (rule step_manifest [OF sample_put_manifest [folded sample_pg_ms_def]])
  moreover have "pg_step sample_pg_ms sample_written sample_with_policy"
    unfolding sample_with_policy_def by (rule step_policy, rule prod.collapse [symmetric])
  ultimately show ?thesis by (meson converse_rtranclp_into_rtranclp r_into_rtranclp)
qed

lemma sample_history:
  "\<exists>e. policy_history (serial quiet_env) sample_with_policy ''app'' ''p'' = Ok [e] \<and> restorable 1 e \<and>
       ml_resulting_document e = policy_resulting_document ''app'' ''p'' sample_write 1"
  by (rule exI [of _ "\<lparr>ml_id = 2, ml_app = ''app'', ml_profile = Some ''p'', ml_kind = PolicyPut, ml_actor = ''root'',
      ml_occurred_at = 0, ml_submitted = JNull,
      ml_resulting_document = policy_resulting_document ''app'' ''p'' sample_write 1, ml_resulting_version = 1\<rparr>"],
      intro conjI) code_simp+

lemma sample_stored_policy:
  "pg_policy (serial quiet_env) sample_with_policy ''app'' ''p'' = Ok (Some (stored_policy_of ''app'' ''p'' sample_write 1))"
  "pg_policies_for_app (serial quiet_env) sample_with_policy ''app'' = Ok [stored_policy_of ''app'' ''p'' sample_write 1]"
  "pg_manifest (serial quiet_env) sample_pg_ms sample_with_policy ''app'' =
     Ok (Some \<lparr>sm_app = ''app'', sm_doc = sample_manifest, sm_version = 1\<rparr>)"
  by code_simp+

lemma sample_candidate: "check_candidate sample_admin_service sample_with_policy ''app'' ''p'' sample_write = Ok ()"
proof -
  let ?c = "stored_policy_from_write ''app'' ''p'' sample_write 0"
  have "validate_stored_policy sample_manifest ?c = []" by code_simp
  moreover have "resolve_chain (candidate_map [stored_policy_of ''app'' ''p'' sample_write 1] ?c) ''p'' = Ok [?c]"
    unfolding resolve_chain_Ok_iff
    by (simp add: candidate_map_def stored_policy_from_write_def sample_write_def)
  ultimately show ?thesis
    using sample_stored_policy [unfolded sample_pg_ms_def]
    by (simp add: check_candidate_def sample_admin_stores validate_policy_for_write_def pg_policy_store_def chain_errors_def
        stored_policy_from_write_def Let_def)
qed

theorem restore_policy_restores_witness:
  "map_of (db_policy (snd (snd (restore_policy ''app'' ''p'' 1 sample_admin_claims sample_admin_service sample_with_policy
      (sample_request JNull None))))) (''app'', ''p'') = Some (policy_row_of sample_write 2)"
proof -
  let ?r = "restore_policy ''app'' ''p'' 1 sample_admin_claims sample_admin_service sample_with_policy (sample_request JNull None)"
  have r: "?r = (fst ?r, fst (snd ?r), snd (snd ?r))" by simp
  have "fst (pg_put_policy (serial quiet_env) sample_pg_ms ''app'' ''p'' sample_write PolicyRestore
      (JObj [(''restore_from_version'', JNum (PosInt 1))]) ''root'' 1 sample_with_policy) = Ok 2" by code_simp
  then obtain d where put: "pg_put_policy (serial quiet_env) sample_pg_ms ''app'' ''p'' sample_write PolicyRestore
      (JObj [(''restore_from_version'', JNum (PosInt 1))]) ''root'' 1 sample_with_policy = (Ok 2, d)"
    by (metis prod.collapse)
  obtain e where "policy_history (serial quiet_env) sample_with_policy ''app'' ''p'' = Ok [e]" "restorable 1 e"
      "ml_resulting_document e = policy_resulting_document ''app'' ''p'' sample_write 1"
    using sample_history by blast
  then have "?r = (etag_response 2, sample_admin_service, d)"
    using put [unfolded sample_pg_ms_def] sample_candidate sample_stored_policy(1) sample_subject
    by (simp add: restore_policy_def sample_admin_stores pg_admin_store_def pg_policy_store_def
        policy_write_of_resulting_document respond_def write_response_def stored_policy_of_def)
  then have "rp_status (fst ?r) = 200" by (simp add: etag_response_def)
  from restore_policy_restores [OF sample_with_policy_run sample_admin_stores(1) [folded sample_pg_ms_def] r this]
  obtain row w where row: "row \<in> set (db_log sample_with_policy)" "lg_profile row = Some ''p''"
      "lg_resulting_document row = policy_resulting_document ''app'' ''p'' w 1"
      "map_of (db_policy (snd (snd ?r))) =
         (map_of (db_policy sample_with_policy))((''app'', ''p'') \<mapsto> policy_row_of w (policy_version sample_with_policy (''app'', ''p'') + 1))"
    by blast
  moreover have "\<forall>row \<in> set (db_log sample_with_policy). lg_profile row = Some ''p'' \<longrightarrow>
      lg_resulting_document row = policy_resulting_document ''app'' ''p'' sample_write 1" by code_simp
  ultimately have "policy_resulting_document ''app'' ''p'' w 1 = policy_resulting_document ''app'' ''p'' sample_write 1" by metis
  then have "w = sample_write"
    using policy_write_of_resulting_document [of "''app''" "''p''" w 1]
      policy_write_of_resulting_document [of "''app''" "''p''" sample_write 1] by simp
  moreover have "policy_version sample_with_policy (''app'', ''p'') = 1" by code_simp
  ultimately show ?thesis using row(4) by simp
qed

end
