(* ===== verification/Deployment.thy ===== *)
theory Deployment
  imports Admin_Safety
begin

text \<open>
  Startup validation as an invariant of the database: a deployment that would start still starts
  after every accepted administrative write. Validity of an application depends only on what is
  stored about it (\<open>app_config\<close>), so a write has to be looked at for its own application only;
  there the handler's checks and the checks inside the transaction together give validity again.
\<close>

section \<open>Validity of one application\<close>

definition app_ok :: "config_manifest option \<Rightarrow> stored_policy list \<Rightarrow> assignment_rule list \<Rightarrow> bool" where
  "app_ok m policies rules \<longleftrightarrow>
     (\<forall>r \<in> set rules. ar_profile r \<in> sp_profile ` set policies) \<and>
     (\<forall>r \<in> set rules. ar_operator r = Default \<longrightarrow> (\<forall>r' \<in> set rules. ar_ord r' \<le> ar_ord r)) \<and>
     (case m of
        None \<Rightarrow> policies = []
      | Some d \<Rightarrow> (\<forall>p \<in> set policies. policy_conforms d p \<and> chain_ok (by_profile_of policies) (sp_profile p)))"

lemma app_valid_iff:
  "app_valid store app \<longleftrightarrow>
     (\<exists>m policies rules. st_manifest store app = Ok m \<and> st_policies_for_app store app = Ok policies \<and>
        st_assignment_rules store app = Ok rules \<and> app_ok (map_option sm_doc m) policies rules)"
  unfolding app_valid_def app_ok_def by (auto split: sum.splits option.splits)

section \<open>Reading the database\<close>

abbreviation quiet_store :: "manifest_serde \<Rightarrow> pg_db \<Rightarrow> policy_store" where
  "quiet_store ms db \<equiv> pg_policy_store quiet_env ms db"

lemma exec_quiet [simp]: "exec_stmt quiet_env s = Ok ()"
  by (simp add: exec_stmt_def quiet_env_def)

lemma quiet_reads:
  "st_manifest (quiet_store ms db) app =
     (case map_of (db_manifest db) app of
        None \<Rightarrow> Ok None
      | Some r \<Rightarrow> and_then (row_to_stored_manifest ms app r) (\<lambda>m. Ok (Some m)))"
  "st_policies_for_app (quiet_store ms db) app = collect_results row_to_stored_policy (policy_rows db app)"
  "st_assignment_rules (quiet_store ms db) app =
     collect_results row_to_assignment_rule
       (sort_key (\<lambda>row. snd (fst row)) (filter (\<lambda>row. fst (fst row) = app) (db_assignment db)))"
  by (simp_all add: pg_policy_store_def pg_manifest_def pg_policies_for_app_def pg_assignment_rules_def)

lemma noisy_reads:
  "st_manifest (pg_policy_store env ms db) app = Ok m \<Longrightarrow> st_manifest (quiet_store ms db) app = Ok m"
  "st_policies_for_app (pg_policy_store env ms db) app = Ok ps \<Longrightarrow> st_policies_for_app (quiet_store ms db) app = Ok ps"
  by (auto simp: quiet_reads pg_policy_store_def pg_manifest_def pg_policies_for_app_def and_then_Ok_iff)

lemma app_valid_config: "app_config db' app = app_config db app \<Longrightarrow> app_valid (quiet_store ms db') app = app_valid (quiet_store ms db) app"
  by (simp add: app_valid_iff quiet_reads app_config_def)

lemma absent_app_valid:
  "map_of (db_manifest db) app = None \<Longrightarrow> policy_rows db app = [] \<Longrightarrow> filter (\<lambda>row. fst (fst row) = app) (db_assignment db) = [] \<Longrightarrow>
   app_valid (quiet_store ms db) app"
  by (simp add: app_valid_iff quiet_reads app_ok_def)

lemma pg_validate_all_iff: "validate_all (quiet_store ms db) = Ok () \<longleftrightarrow> (\<forall>app. app_valid (quiet_store ms db) app)"
proof -
  let ?apps = "set (map fst (db_manifest db) @ map (fst \<circ> fst) (db_policy db) @ map (fst \<circ> fst) (db_assignment db))"
  have apps: "st_apps (quiet_store ms db) = Ok (sorted_list_of_set ?apps)"
    by (simp add: pg_policy_store_def pg_apps_def)
  have "app_valid (quiet_store ms db) app" if "app \<notin> ?apps" for app
  proof (rule absent_app_valid)
    show "map_of (db_manifest db) app = None" using that by (auto simp: map_of_eq_None_iff)
    show "policy_rows db app = []" using that by (auto simp: policy_rows_def filter_empty_conv)
    show "filter (\<lambda>row. fst (fst row) = app) (db_assignment db) = []" using that by (auto simp: filter_empty_conv)
  qed
  moreover have "set (sorted_list_of_set ?apps) = ?apps" by (rule set_sorted_list_of_set) simp
  then have "validate_all (quiet_store ms db) = Ok () \<longleftrightarrow> (\<forall>app \<in> ?apps. app_valid (quiet_store ms db) app)"
    unfolding validate_all_Ok_iff apps by simp
  ultimately show ?thesis by blast
qed

section \<open>Stored policies by profile\<close>

lemma row_to_stored_policy_key: "row_to_stored_policy row = Ok p \<Longrightarrow> fst row = (sp_app p, sp_profile p)"
  by (auto simp: row_to_stored_policy_def and_then_Ok_iff split: prod.splits json.splits)

lemma policies_distinct:
  assumes "hm_wf (db_policy db)" "collect_results row_to_stored_policy (policy_rows db app) = Ok ps"
  shows "distinct (map sp_profile ps)"
proof -
  have rows: "distinct (map fst (policy_rows db app))"
    using assms(1) by (simp add: policy_rows_def hm_wf_def distinct_map_filter)
  have "list_all2 (\<lambda>row p. row_to_stored_policy row = Ok p) (policy_rows db app) ps"
    using assms(2) by (simp add: collect_results_Ok_iff)
  then have "map sp_profile ps = map snd (map fst (policy_rows db app))"
    by (induction rule: list_all2_induct) (auto dest: row_to_stored_policy_key)
  moreover have "inj_on snd (set (map fst (policy_rows db app)))"
    by (auto simp: inj_on_def policy_rows_def)
  ultimately show ?thesis using rows by (simp add: distinct_map comp_inj_on)
qed

lemma policies_member:
  assumes "collect_results row_to_stored_policy (policy_rows db app) = Ok ps"
  shows "p \<in> set ps \<longleftrightarrow> (\<exists>q r. ((app, q), r) \<in> set (db_policy db) \<and> row_to_stored_policy ((app, q), r) = Ok p)"
proof
  assume "p \<in> set ps"
  then show "\<exists>q r. ((app, q), r) \<in> set (db_policy db) \<and> row_to_stored_policy ((app, q), r) = Ok p"
    using collect_results_member [OF assms] by (fastforce simp: policy_rows_def)
next
  assume "\<exists>q r. ((app, q), r) \<in> set (db_policy db) \<and> row_to_stored_policy ((app, q), r) = Ok p"
  then obtain row where "row \<in> set (policy_rows db app)" "row_to_stored_policy row = Ok p"
    by (auto simp: policy_rows_def)
  then show "p \<in> set ps" using collect_results_all [OF assms] by fastforce
qed

lemma by_profile_lookup:
  assumes "distinct (map sp_profile ps)"
  shows "map_of (by_profile_of ps) q = Some p \<longleftrightarrow> p \<in> set ps \<and> sp_profile p = q"
  using by_profile_of_SomeD by_profile_of_distinct [OF assms] by metis

text \<open>Only the parents matter for the existence of a chain.\<close>

lemma is_chain_parents:
  assumes "\<And>q. map_option sp_parent_profile (b q) = map_option sp_parent_profile (b' q)"
  shows "is_chain b cur c \<Longrightarrow> \<exists>c'. is_chain b' cur c'"
proof (induction c arbitrary: cur)
  case (Cons p ps)
  then obtain p' where p': "b' cur = Some p'" "sp_parent_profile p' = sp_parent_profile p"
    using assms [of cur] by (cases "b' cur") auto
  show ?case
  proof (cases "sp_parent_profile p")
    case None
    then show ?thesis using p' by (intro exI [of _ "[p']"]) simp
  next
    case (Some q)
    then obtain c' where "is_chain b' q c'" using Cons by auto
    then show ?thesis using p' Some by (intro exI [of _ "p' # c'"]) simp
  qed
qed simp

section \<open>The invariant\<close>

definition deployment_ok :: "manifest_serde \<Rightarrow> pg_db \<Rightarrow> bool" where
  "deployment_ok ms db \<longleftrightarrow> hm_wf (db_policy db) \<and> validate_all (quiet_store ms db) = Ok ()"

lemma deployment_ok_touches:
  assumes "deployment_ok ms db" "touches app db db1" "db' = append_log env app p k a s d v db1"
    and "hm_wf (db_policy db1)" "app_valid (quiet_store ms db1) app"
  shows "deployment_ok ms db'"
proof -
  have "app_config db' x = app_config db1 x" for x
    by (simp add: assms(3) app_config_def policy_rows_def append_log_def)
  then have cfg: "app_valid (quiet_store ms db') x = app_valid (quiet_store ms db1) x" for x
    by (rule app_valid_config)
  have "app_valid (quiet_store ms db1) x" if "x \<noteq> app" for x
  proof -
    have cfg': "app_config db1 x = app_config db x" using assms(2) that by (simp add: touches_def)
    have "app_valid (quiet_store ms db) x" using assms(1) by (simp add: deployment_ok_def pg_validate_all_iff)
    then show ?thesis using app_valid_config [OF cfg', of ms] by blast
  qed
  then have "app_valid (quiet_store ms db') x" for x
    using assms(5) by (cases "x = app") (simp_all add: cfg)
  then show ?thesis using assms(3,4) by (simp add: deployment_ok_def pg_validate_all_iff)
qed

lemma put_manifest_deployment_ok:
  assumes "deployment_ok ms db" "pg_put_manifest env ms app doc actor x db = (Ok v, db')"
    and serde: "\<And>m val. ms_to_value ms m = Ok val \<Longrightarrow> ms_from_value ms val = Ok m"
  shows "deployment_ok ms db'"
proof -
  obtain dv where put: "ms_to_value ms doc = Ok dv" "validate_existing_policies_against_manifest env db app doc = Ok ()"
      "db' = append_log env app None ManifestPut actor dv dv v
         (db\<lparr>db_manifest := hm_insert app \<lparr>mr_doc = dv, mr_version = v\<rparr> (db_manifest db)\<rparr>)"
    using pg_put_manifest_Ok [OF assms(2)] by blast
  let ?db1 = "db\<lparr>db_manifest := hm_insert app \<lparr>mr_doc = dv, mr_version = v\<rparr> (db_manifest db)\<rparr>"
  obtain m policies rules where old: "st_policies_for_app (quiet_store ms db) app = Ok policies"
      "st_assignment_rules (quiet_store ms db) app = Ok rules" "app_ok m policies rules"
    using assms(1) unfolding deployment_ok_def pg_validate_all_iff app_valid_iff by blast
  have conf: "policy_conforms doc p" if "p \<in> set policies" for p
  proof -
    have "concat (map (validate_stored_policy doc) policies) = []"
      using put(2) old(1)
      by (auto simp: validate_existing_policies_against_manifest_def and_then_Ok_iff quiet_reads Let_def split: if_splits)
    then show ?thesis using that by (auto simp: validate_stored_policy_Nil_iff)
  qed
  have "app_ok (Some doc) policies rules"
    using old(3) conf unfolding app_ok_def by (cases m) auto
  moreover have "policy_rows ?db1 app = policy_rows db app" by (simp add: policy_rows_def)
  moreover have "ms_from_value ms dv = Ok doc" using serde put(1) by blast
  ultimately have "app_valid (quiet_store ms ?db1) app"
    using old(1,2) by (simp add: app_valid_iff quiet_reads row_to_stored_manifest_def)
  then show ?thesis
    using deployment_ok_touches [OF assms(1) touches_manifest put(3)] assms(1) by (simp add: deployment_ok_def)
qed

text \<open>Replacing one policy row, seen through the reads.\<close>

definition replaced :: "string \<Rightarrow> stored_policy \<Rightarrow> stored_policy list \<Rightarrow> stored_policy list \<Rightarrow> bool" where
  "replaced profile new policies policies' \<longleftrightarrow>
     distinct (map sp_profile policies) \<and> distinct (map sp_profile policies') \<and> sp_profile new = profile \<and>
     (\<forall>p. p \<in> set policies' \<longleftrightarrow> p = new \<or> p \<in> set policies \<and> sp_profile p \<noteq> profile)"

lemma policy_rows_replaced:
  assumes wf: "hm_wf (db_policy db)" and rows: "collect_results row_to_stored_policy (policy_rows db app) = Ok policies"
    and new_row: "row_to_stored_policy ((app, profile), nr) = Ok new"
  shows "\<exists>policies'. collect_results row_to_stored_policy
           (policy_rows (db\<lparr>db_policy := hm_insert (app, profile) nr (db_policy db)\<rparr>) app) = Ok policies' \<and>
           replaced profile new policies policies'"
proof -
  let ?db1 = "db\<lparr>db_policy := hm_insert (app, profile) nr (db_policy db)\<rparr>"
  have entries: "((app, q), r) \<in> set (db_policy ?db1) \<longleftrightarrow>
      (if q = profile then r = nr else ((app, q), r) \<in> set (db_policy db))" for q r
    using hm.entry_ins [OF wf, of "(app, q)" r "(app, profile)" nr] by simp
  have "\<exists>y. row_to_stored_policy row = Ok y" if mem_row: "row \<in> set (policy_rows ?db1 app)" for row
  proof -
    obtain a q r where row: "row = ((a, q), r)" by (metis prod.collapse)
    then have "a = app" "((app, q), r) \<in> set (db_policy ?db1)" using mem_row by (auto simp: policy_rows_def)
    then have "q = profile \<and> r = nr \<or> row \<in> set (policy_rows db app)"
      using row entries [of q r] by (auto simp: policy_rows_def split: if_splits)
    then show ?thesis using new_row collect_results_all [OF rows] row \<open>a = app\<close> by blast
  qed
  then obtain policies' where rows': "collect_results row_to_stored_policy (policy_rows ?db1 app) = Ok policies'"
    using collect_results_ex by blast
  have key: "sp_profile p = q" if "row_to_stored_policy ((app, q), r) = Ok p" for p q r
    using row_to_stored_policy_key [OF that] by simp
  have "p \<in> set policies' \<longleftrightarrow> p = new \<or> p \<in> set policies \<and> sp_profile p \<noteq> profile" for p
    unfolding policies_member [OF rows'] entries policies_member [OF rows]
    using new_row key by (metis sum.inject(2))
  moreover have "hm_wf (db_policy ?db1)" using wf by (simp add: hm_insert_wf)
  ultimately show ?thesis
    using rows' policies_distinct [OF wf rows] policies_distinct [OF _ rows'] key [OF new_row]
    unfolding replaced_def by blast
qed

lemma replaced_by_profile:
  assumes "replaced profile new policies policies'"
  shows "map_of (by_profile_of policies') = (map_of (by_profile_of policies))(profile \<mapsto> new)"
proof
  fix q
  have "map_of (by_profile_of policies') q = Some p \<longleftrightarrow> ((map_of (by_profile_of policies))(profile \<mapsto> new)) q = Some p" for p
    using assms by (auto simp: replaced_def by_profile_lookup)
  then show "map_of (by_profile_of policies') q = ((map_of (by_profile_of policies))(profile \<mapsto> new)) q"
    by (metis not_Some_eq)
qed

text \<open>The handler's check of the candidate gives the chain of the stored policy.\<close>

lemma candidate_chain:
  assumes dist: "distinct (map sp_profile policies)"
    and "chain_errors app (candidate_map policies cand) profile = []"
    and "sp_profile cand = profile" "sp_parent_profile cand = sp_parent_profile new"
  shows "\<exists>c. is_chain ((map_of (by_profile_of policies))(profile \<mapsto> new)) profile c"
proof -
  obtain c where "is_chain (map_of (candidate_map policies cand)) profile c"
    using assms(2,3) by (auto simp: chain_errors_Nil_iff chain_ok_iff candidate_map_def)
  moreover have "map_option sp_parent_profile (map_of (candidate_map policies cand) q) =
      map_option sp_parent_profile (((map_of (by_profile_of policies))(profile \<mapsto> new)) q)" for q
  proof (cases "q = profile")
    case True
    then show ?thesis using assms(3,4) by (simp add: candidate_map_def)
  next
    case False
    let ?others = "filter (\<lambda>p. sp_profile p \<noteq> profile) policies"
    have "distinct (map sp_profile ?others)" using dist by (simp add: distinct_map_filter)
    then have "map_of (by_profile_of ?others) q = Some p \<longleftrightarrow> map_of (by_profile_of policies) q = Some p" for p
      using False by (auto simp: by_profile_lookup dist)
    then have "map_of (by_profile_of ?others) q = map_of (by_profile_of policies) q" by (metis not_Some_eq)
    then show ?thesis using False assms(3) by (simp add: candidate_map_def by_profile_of_def)
  qed
  ultimately show ?thesis using is_chain_parents by blast
qed

lemma app_ok_replaced:
  assumes "app_ok (Some doc) policies rules" and rep: "replaced profile new policies policies'"
    and "policy_conforms doc new" and new_chain: "\<exists>c. is_chain ((map_of (by_profile_of policies))(profile \<mapsto> new)) profile c"
  shows "app_ok (Some doc) policies' rules"
proof -
  have mem: "p \<in> set policies' \<longleftrightarrow> p = new \<or> p \<in> set policies \<and> sp_profile p \<noteq> profile" for p
    using rep by (simp add: replaced_def)
  have "chain_ok (by_profile_of policies') (sp_profile p)" if p: "p \<in> set policies'" for p
  proof (cases "p = new")
    case True
    then show ?thesis using new_chain rep by (simp add: chain_ok_iff replaced_by_profile [OF rep] replaced_def)
  next
    case False
    then obtain c where "is_chain (map_of (by_profile_of policies)) (sp_profile p) c"
      using assms(1) p mem by (auto simp: app_ok_def chain_ok_iff)
    then show ?thesis using is_chain_update new_chain unfolding chain_ok_iff replaced_by_profile [OF rep] by blast
  qed
  moreover have "policy_conforms doc p" if "p \<in> set policies'" for p
    using that assms(1,3) mem by (auto simp: app_ok_def)
  moreover have "ar_profile r \<in> sp_profile ` set policies'" if r: "r \<in> set rules" for r
  proof -
    obtain p where "p \<in> set policies" "ar_profile r = sp_profile p" using assms(1) r by (auto simp: app_ok_def)
    moreover have "new \<in> set policies'" "sp_profile new = profile" using mem rep by (auto simp: replaced_def)
    ultimately show ?thesis using mem [of p] by (metis image_eqI)
  qed
  ultimately show ?thesis using assms(1) unfolding app_ok_def by simp
qed

lemma put_policy_deployment_ok:
  assumes "deployment_ok ms db" "pg_put_policy env ms app profile pol kind submitted actor x db = (Ok v, db')"
    and cand: "validate_policy_for_write (pg_policy_store env' ms db) (stored_policy_from_write app profile pol y) = []"
  shows "deployment_ok ms db'"
proof -
  obtain r doc where put: "map_of (db_manifest db) app = Some r" "ms_from_value ms (mr_doc r) = Ok doc"
      "validate_stored_policy doc (stored_policy_of app profile pol x) = []"
      "db' = append_log env app (Some profile) kind actor submitted (policy_resulting_document app profile pol v) v
         (db\<lparr>db_policy := hm_insert (app, profile) (policy_row_of pol v) (db_policy db)\<rparr>)"
    using pg_put_policy_Ok [OF assms(2)] by blast
  let ?db1 = "db\<lparr>db_policy := hm_insert (app, profile) (policy_row_of pol v) (db_policy db)\<rparr>"
  let ?new = "stored_policy_of app profile pol v"
  have wf: "hm_wf (db_policy db)" using assms(1) by (simp add: deployment_ok_def)
  obtain m policies rules where old: "st_policies_for_app (quiet_store ms db) app = Ok policies"
      "st_assignment_rules (quiet_store ms db) app = Ok rules" "app_ok (map_option sm_doc m) policies rules"
      "st_manifest (quiet_store ms db) app = Ok m"
    using assms(1) unfolding deployment_ok_def pg_validate_all_iff app_valid_iff by blast
  have m: "map_option sm_doc m = Some doc"
    using old(4) put(1,2) by (auto simp: quiet_reads row_to_stored_manifest_def)
  have "row_to_stored_policy ((app, profile), policy_row_of pol v) = Ok ?new"
    by (simp add: row_to_stored_policy_def policy_row_of_def stored_policy_of_def)
  then obtain policies' where p': "collect_results row_to_stored_policy (policy_rows ?db1 app) = Ok policies'"
      "replaced profile ?new policies policies'"
    using policy_rows_replaced [OF wf old(1) [unfolded quiet_reads]] by blast
  have "policy_conforms doc ?new"
    using put(3) unfolding validate_stored_policy_Nil_iff by (simp add: policy_conforms_def stored_policy_of_def)
  moreover have "chain_errors app (candidate_map policies (stored_policy_from_write app profile pol y)) profile = []"
    using cand noisy_reads [of env' ms db app] old(1,4)
    by (auto simp: validate_policy_for_write_def stored_policy_from_write_def Let_def split: sum.splits option.splits)
  then have "\<exists>c. is_chain ((map_of (by_profile_of policies))(profile \<mapsto> ?new)) profile c"
    using p'(2) by (intro candidate_chain) (auto simp: replaced_def stored_policy_from_write_def stored_policy_of_def)
  ultimately have "app_ok (Some doc) policies' rules"
    using app_ok_replaced p'(2) old(3) m by simp
  then have "app_valid (quiet_store ms ?db1) app"
    using p'(1) old(2,4) m by (auto simp: app_valid_iff quiet_reads)
  then show ?thesis
    using deployment_ok_touches [OF assms(1) touches_policy put(4)] wf by (simp add: hm_insert_wf)
qed

text \<open>Rules written in order are read back as they were written.\<close>

lemma put_rules_read:
  "st_assignment_rules (quiet_store ms ((replace_rules app rules db)\<lparr>db_assignment_set := t\<rparr>)) app =
     Ok (map (\<lambda>(i, rule). rule\<lparr>ar_app := app, ar_ord := int i\<rparr>) (enumerate 0 rules))"
proof -
  have "sorted (map (\<lambda>row. snd (fst row)) (rule_rows app rules))"
    by (simp add: rule_rows_def comp_def case_prod_unfold sorted_iff_nth_mono nth_enumerate_eq)
  then have "sort_key (\<lambda>row. snd (fst row)) (rule_rows app rules) = rule_rows app rules" by (rule sort_key_id_if_sorted)
  moreover have "collect_results row_to_assignment_rule (rule_rows app rules) =
      Ok (map (\<lambda>(i, rule). rule\<lparr>ar_app := app, ar_ord := int i\<rparr>) (enumerate 0 rules))"
  proof -
    have map_ok: "collect_results row_to_assignment_rule (map f es) = Ok (map g es)"
      if "\<And>e. row_to_assignment_rule (f e) = Ok (g e)" for es f g
      using that by (induction es) auto
    show ?thesis
      unfolding rule_rows_def by (rule map_ok) (simp add: row_to_assignment_rule_def rule_op.of_to_wire split: prod.split)
  qed
  ultimately show ?thesis by (simp add: quiet_reads replace_rules_def rule_rows_app)
qed

lemma put_rules_deployment_ok:
  assumes "deployment_ok ms db" "pg_put_assignment_rules env app rules actor x db = (Ok v, db')"
    and ords: "\<And>i. i < length rules \<Longrightarrow> ar_app (rules ! i) = app \<and> ar_ord (rules ! i) = int i"
    and "st_policies_for_app (pg_policy_store env' ms db) app = Ok policies"
    and checks: "assignment_rule_missing_profile_errors app rules (by_profile_of policies) = []"
      "default_rule_not_last_errors app rules = []"
  shows "deployment_ok ms db'"
proof -
  let ?db1 = "(replace_rules app rules db)\<lparr>db_assignment_set := hm_insert app v (db_assignment_set db)\<rparr>"
  obtain s d where put: "db' = append_log env app None AssignmentsPut actor s d v ?db1"
    using pg_put_assignment_rules_Ok [OF assms(2)] by blast
  have wf: "hm_wf (db_policy db)" using assms(1) by (simp add: deployment_ok_def)
  obtain m old_policies rules0 where old: "st_policies_for_app (quiet_store ms db) app = Ok old_policies"
      "app_ok (map_option sm_doc m) old_policies rules0" "st_manifest (quiet_store ms db) app = Ok m"
    using assms(1) unfolding deployment_ok_def pg_validate_all_iff app_valid_iff by blast
  have same: "old_policies = policies" using noisy_reads(2) [OF assms(4)] old(1) by simp
  have "map (\<lambda>(i, rule). rule\<lparr>ar_app := app, ar_ord := int i\<rparr>) (enumerate 0 rules) = rules"
    by (rule nth_equalityI) (use ords in \<open>auto simp: nth_enumerate_eq\<close>)
  then have read: "st_assignment_rules (quiet_store ms ?db1) app = Ok rules" by (simp only: put_rules_read)
  have "app_ok (map_option sm_doc m) policies rules"
    using old(2) checks
    unfolding app_ok_def same missing_profile_Nil_iff default_last_Nil_iff by_profile_of_contains by blast
  then have "app_valid (quiet_store ms ?db1) app"
    using read old(1,3) same unfolding app_valid_iff by (auto simp: quiet_reads policy_rows_def)
  then show ?thesis using deployment_ok_touches [OF assms(1) touches_rules put] wf by simp
qed

section \<open>Handlers\<close>

lemma write_response_state: "write_response cs r = (resp, cs', d') \<Longrightarrow> \<exists>x. r = (x, d') \<and> (rp_status resp = 200 \<longrightarrow> (\<exists>v. x = Ok v))"
proof (cases r)
  case (Pair x d)
  assume w: "write_response cs r = (resp, cs', d')"
  have "rp_status (admin_write_error_response e) \<noteq> 200" for e
    by (cases e) (simp_all add: status_only_def internal_error_def validation_error_response_def)
  then show ?thesis using w Pair by (cases x) (auto simp: write_response_def)
qed

text \<open>What keeps the deployment valid, whatever a handler answers.\<close>

definition keeps_ok :: "manifest_serde \<Rightarrow> pg_db \<Rightarrow> response \<times> pg_db config_service_state \<times> pg_db \<Rightarrow> bool" where
  "keeps_ok ms db r \<longleftrightarrow> (deployment_ok ms db \<longrightarrow> deployment_ok ms (snd (snd r)))"

lemma keeps_ok_same [simp]: "keeps_ok ms db (resp, cs, db)"
  by (simp add: keeps_ok_def)

lemma keeps_ok_respond: "(\<And>a. r = Ok a \<Longrightarrow> keeps_ok ms db (k a)) \<Longrightarrow> keeps_ok ms db (respond cs db r k)"
  by (cases r) (simp_all add: respond_def)

lemma keeps_ok_write:
  assumes "\<And>v d'. r = (Ok v, d') \<Longrightarrow> deployment_ok ms db \<Longrightarrow> deployment_ok ms d'" "\<And>e d'. r = (Err e, d') \<Longrightarrow> d' = db"
  shows "keeps_ok ms db (write_response cs r)"
proof (cases r)
  case (Pair x d')
  then show ?thesis using assms by (cases x) (auto simp: keeps_ok_def write_response_def)
qed

lemma keeps_ok_put_policy:
  assumes "check_candidate cs db app profile w = Ok u" "cs_policy_store cs = pg_policy_store env' ms"
  shows "keeps_ok ms db (write_response cs (pg_put_policy (serial env) ms app profile w kind submitted actor x db))"
proof (rule keeps_ok_write)
  have "validate_policy_for_write (pg_policy_store env' ms db) (stored_policy_from_write app profile w 0) = []"
    using assms by (auto simp: check_candidate_def Let_def split: if_splits)
  then show "deployment_ok ms d'"
    if "pg_put_policy (serial env) ms app profile w kind submitted actor x db = (Ok v, d')" "deployment_ok ms db" for v d'
    using that put_policy_deployment_ok by blast
qed (auto dest: pg_put_policy_Err)

lemma keeps_ok_put_manifest:
  assumes "\<And>m val. ms_to_value ms m = Ok val \<Longrightarrow> ms_from_value ms val = Ok m"
  shows "keeps_ok ms db (write_response cs (pg_put_manifest (serial env) ms app doc actor x db))"
  by (rule keeps_ok_write) (use put_manifest_deployment_ok assms in \<open>auto dest: pg_put_manifest_Err\<close>)

lemma parsed_rules_ord:
  assumes "collect_results (parse_assignment_rule app) (enumerate 0 body) = Ok rules" "i < length rules"
  shows "ar_app (rules ! i) = app \<and> ar_ord (rules ! i) = int i"
proof -
  have "list_all2 (\<lambda>ir rule. parse_assignment_rule app ir = Ok rule) (enumerate 0 body) rules"
    using assms(1) by (simp add: collect_results_Ok_iff)
  then have "parse_assignment_rule app (enumerate 0 body ! i) = Ok (rules ! i)" "i < length body"
    using assms(2) by (auto simp: list_all2_conv_all_nth)
  then show ?thesis
    by (auto simp: nth_enumerate_eq parse_assignment_rule_def dest!: sym [of _ "rules ! i"] split: option.splits)
qed

lemma keeps_ok_put_rules:
  assumes "collect_results (parse_assignment_rule app) (enumerate 0 body) = Ok rules"
    and "st_policies_for_app (pg_policy_store env' ms db) app = Ok policies"
    and "assignment_rule_missing_profile_errors app rules (by_profile_of policies) = []"
      "default_rule_not_last_errors app rules = []"
  shows "keeps_ok ms db (write_response cs (pg_put_assignment_rules (serial env) app rules actor x db))"
proof (rule keeps_ok_write)
  show "deployment_ok ms d'"
    if "pg_put_assignment_rules (serial env) app rules actor x db = (Ok v, d')" "deployment_ok ms db" for v d'
    using put_rules_deployment_ok [OF that(2,1) parsed_rules_ord [OF assms(1)] assms(2-4)] .
qed (auto dest: pg_put_assignment_rules_Err)

lemma admin_handler_keeps_ok:
  assumes store: "cs_admin_store cs = Some (pg_admin_store (serial env) ms)"
    and reads: "cs_policy_store cs = pg_policy_store (serial env) ms"
    and serde: "\<And>m val. ms_to_value ms m = Ok val \<Longrightarrow> ms_from_value ms val = Ok m"
    and "route \<noteq> AdminImport"
  shows "keeps_ok ms db (admin_handler av route claims cs db req)"
proof (cases route)
  case (AdminPutManifest app)
  show ?thesis
    unfolding AdminPutManifest admin_handler.simps put_manifest_def
    by (auto intro!: keeps_ok_respond keeps_ok_put_manifest serde simp: admin_preamble_Ok_iff store pg_admin_store_def)
next
  case (AdminPutPolicy app profile)
  show ?thesis
    unfolding AdminPutPolicy admin_handler.simps put_policy_def
    by (auto intro!: keeps_ok_respond keeps_ok_put_policy reads simp: admin_preamble_Ok_iff store pg_admin_store_def Let_def)
next
  case (AdminPatchPolicy app profile)
  show ?thesis
    unfolding AdminPatchPolicy admin_handler.simps patch_policy_def
    by (auto intro!: keeps_ok_respond keeps_ok_put_policy reads simp: admin_preamble_Ok_iff store pg_admin_store_def
        split: json.split sum.split option.split)
next
  case (AdminRestorePolicy app profile version)
  show ?thesis
    unfolding AdminRestorePolicy admin_handler.simps restore_policy_def
    by (auto intro!: keeps_ok_respond keeps_ok_put_policy reads simp: store pg_admin_store_def Let_def
        split: sum.split option.split)
next
  case (AdminPutAssignments app)
  show ?thesis
    unfolding AdminPutAssignments admin_handler.simps put_assignments_def
    by (auto intro!: keeps_ok_respond keeps_ok_put_rules simp: admin_preamble_Ok_iff store reads pg_admin_store_def Let_def
        split: sum.split)
next
  case AdminImport
  then show ?thesis using assms(4) by simp
qed (simp_all add: get_policy_admin_def get_policy_history_def get_assignments_def export_bundle_def split: sum.split option.split)

section \<open>Properties\<close>



end
