(* ===== verification/Help_Renderer.thy ===== *)
theory Help_Renderer
  imports Command_Registry "HOL-Library.Multiset" "HOL-Library.Product_Lexorder"
begin

text \<open>
  What the program tells its user about itself: the display version (\<open>src/app/version.rs\<close>), the
  registry of environment variables (\<open>src/environment.rs\<close>) and the help page of the
  application (\<open>src/cli_output/help.rs\<close>).

  Strings are bytes, so the dash of the header is its UTF-8 encoding, and upper case is that
  of ASCII letters. The name of the executable, which the header shows when the application has
  no metadata, is an argument of \<open>render_help_page\<close>.
\<close>

section \<open>Metadata and version\<close>

record app_meta =
  meta_name :: string
  meta_version :: string
  meta_description :: string
  meta_usage :: "string option"

definition is_hexdigit :: "char \<Rightarrow> bool" where
  "is_hexdigit c \<longleftrightarrow>
     (let n = (of_char c :: nat) in (48 \<le> n \<and> n \<le> 57) \<or> (65 \<le> n \<and> n \<le> 70) \<or> (97 \<le> n \<and> n \<le> 102))"

definition sanitize_git_sha_short :: "string option \<Rightarrow> string option" where
  "sanitize_git_sha_short sha =
     (case sha of
        None \<Rightarrow> None
      | Some s \<Rightarrow>
          (let trimmed = str_trim s
           in if trimmed = [] then None
              else if \<not> (7 \<le> length trimmed \<and> length trimmed \<le> 40) \<or> \<not> list_all is_hexdigit trimmed then None
              else Some trimmed))"

definition format_display_version :: "string \<Rightarrow> string \<Rightarrow> string option \<Rightarrow> string" where
  "format_display_version name version sha =
     (case sanitize_git_sha_short sha of
        Some s \<Rightarrow> name @ '' '' @ version @ '' ('' @ s @ '')''
      | None \<Rightarrow> name @ '' '' @ version)"

section \<open>Environment variables\<close>

type_synonym env_registry = "(string, string) btree_map"

datatype environment_variable_error =
    EmptyName
  | EmptyDescription string
  | ConflictingDescription string string string

definition env_insert ::
  "string \<Rightarrow> string \<Rightarrow> bool \<Rightarrow> env_registry \<Rightarrow> environment_variable_error + (bool \<times> env_registry)" where
  "env_insert name description reject_conflict r =
     (if str_trim name = [] then Err EmptyName
      else if str_trim description = [] then Err (EmptyDescription name)
      else case map_of r name of
        Some existing \<Rightarrow>
          if reject_conflict \<and> existing \<noteq> description
          then Err (ConflictingDescription name existing description)
          else Ok (False, r)
      | None \<Rightarrow> Ok (True, bm_insert name description r))"

definition env_register :: "env_var_entry \<Rightarrow> env_registry \<Rightarrow> environment_variable_error + env_registry" where
  "env_register entry r =
     and_then (env_insert (env_name entry) (env_description entry) True r) (\<lambda>(_, r'). Ok r')"

definition register_if_absent ::
  "string \<Rightarrow> string \<Rightarrow> env_registry \<Rightarrow> environment_variable_error + (bool \<times> env_registry)" where
  "register_if_absent name description r = env_insert name description False r"

definition register_commands ::
  "'c command_registry \<Rightarrow> env_registry \<Rightarrow> environment_variable_error + env_registry" where
  "register_commands commands r =
     fold_results (\<lambda>(_, command). fold_results env_register (spec_env_vars (cmd_spec command)))
       (tree_commands commands) r"

definition newline :: char where
  "newline = char_of (10 :: nat)"

definition spaces :: "nat \<Rightarrow> string" where
  "spaces n = replicate n (CHR '' '')"

definition max_len :: "string list \<Rightarrow> nat" where
  "max_len names = fold (\<lambda>s n. max n (length s)) names 0"

definition env_render_help :: "env_registry \<Rightarrow> string" where
  "env_render_help r =
     (if r = [] then []
      else
        (let width = max_len (map fst r)
         in ''Environment Variables:'' @ [newline] @
            concat (map (\<lambda>(name, description).
              ''  '' @ name @ spaces (width - length name + 2) @ description @ [newline]) r)))"

text \<open>
  Registration only adds: names and descriptions are never blank, what was declared keeps its
  description, and after \<open>register_commands\<close> succeeds every variable a command declares is in
  the registry with the description of that command.
\<close>

definition env_ok :: "env_registry \<Rightarrow> bool" where
  "env_ok r \<longleftrightarrow> bm_wf r \<and> (\<forall>(n, d) \<in> set r. str_trim n \<noteq> [] \<and> str_trim d \<noteq> [])"

lemma env_insert_keeps:
  "env_ok r \<Longrightarrow> env_insert n d reject r = Ok (added, r') \<Longrightarrow>
     env_ok r' \<and> map_of r \<subseteq>\<^sub>m map_of r' \<and> (reject \<longrightarrow> map_of r' n = Some d) \<and> (added \<longleftrightarrow> map_of r n = None)"
  by (auto simp: env_insert_def env_ok_def bm_insert_wf bm.entry_ins map_le_def dom_def split: if_splits option.splits)

lemma env_register_keeps:
  "env_ok r \<Longrightarrow> env_register e r = Ok r' \<Longrightarrow>
     env_ok r' \<and> map_of r \<subseteq>\<^sub>m map_of r' \<and> map_of r' (env_name e) = Some (env_description e)"
  by (auto simp: env_register_def and_then_Ok_iff dest: env_insert_keeps)

lemma fold_results_adds:
  assumes "\<And>x s s'. x \<in> set xs \<Longrightarrow> P s \<Longrightarrow> f x s = Ok s' \<Longrightarrow> P s' \<and> le s s' \<and> Q x s'"
    and "\<And>s. le s s" "\<And>a b c. le a b \<Longrightarrow> le b c \<Longrightarrow> le a c" "\<And>x s s'. Q x s \<Longrightarrow> le s s' \<Longrightarrow> Q x s'"
    and "P s" "fold_results f xs s = Ok s'"
  shows "P s' \<and> le s s' \<and> (\<forall>x \<in> set xs. Q x s')"
  using assms(1,5,6)
proof (induction xs arbitrary: s)
  case Nil
  then show ?case using assms(2) by simp
next
  case (Cons x xs)
  then obtain s1 where s1: "f x s = Ok s1" "fold_results f xs s1 = Ok s'" by (auto simp: and_then_Ok_iff)
  have "P s1 \<and> le s s1 \<and> Q x s1" using Cons.prems(1) [of x s s1] Cons.prems(2) s1(1) by simp
  moreover from this have "P s' \<and> le s1 s' \<and> (\<forall>y \<in> set xs. Q y s')"
    using Cons.IH [of s1] Cons.prems(1) s1(2) by auto
  ultimately show ?case using assms(3,4) by auto
qed

theorem register_commands_declares:
  assumes "env_ok r" "register_commands commands r = Ok r'"
  shows "env_ok r' \<and> map_of r \<subseteq>\<^sub>m map_of r' \<and>
     (\<forall>(_, c) \<in> set (tree_commands commands). \<forall>e \<in> set (spec_env_vars (cmd_spec c)).
        map_of r' (env_name e) = Some (env_description e))"
proof -
  let ?le = "\<lambda>r r' :: env_registry. map_of r \<subseteq>\<^sub>m map_of r'"
  let ?Q = "\<lambda>e r :: env_registry. map_of r (env_name e) = Some (env_description e)"
  have mono: "?Q e s'" if "?Q e s" "?le s s'" for e s s'
    using that by (auto simp: map_le_def dom_def)
  have one: "env_ok s' \<and> ?le s s' \<and> (\<forall>e \<in> set es. ?Q e s')"
    if s: "env_ok s" "fold_results env_register es s = Ok s'" for es s s'
  proof (rule fold_results_adds [where f = env_register and P = env_ok and le = ?le and Q = ?Q])
  qed (use s mono in \<open>auto dest: env_register_keeps intro: map_le_trans\<close>)
  let ?f = "\<lambda>(_ :: string, c :: 'a command). fold_results env_register (spec_env_vars (cmd_spec c))"
  let ?Qs = "\<lambda>(_ :: string, c :: 'a command) r. \<forall>e \<in> set (spec_env_vars (cmd_spec c)). ?Q e r"
  have "env_ok r' \<and> ?le r r' \<and> (\<forall>x \<in> set (tree_commands commands). ?Qs x r')"
  proof (rule fold_results_adds [where f = ?f and P = env_ok and le = ?le and Q = ?Qs])
    show "fold_results ?f (tree_commands commands) r = Ok r'"
      using assms(2) by (simp add: register_commands_def)
    show "?Qs x s'" if "?Qs x s" "?le s s'" for x s s'
      using that by (cases x) (auto intro: mono)
  qed (use assms(1) one in \<open>auto intro: map_le_trans\<close>)
  then show ?thesis by auto
qed

section \<open>The help page\<close>

record help_entry =
  he_id :: string
  he_summary :: string
  he_category :: "string option"
  he_help_order :: "u32 option"

definition help_entries :: "'c command_registry \<Rightarrow> help_entry list" where
  "help_entries r =
     map (\<lambda>c. \<lparr> he_id = cmd_id c, he_summary = cmd_summary c, he_category = cmd_category c,
                he_help_order = cmd_help_order c \<rparr>)
       (filter (\<lambda>c. \<not> spec_hidden (cmd_spec c)) (root_commands r)) @
     map (\<lambda>(path, m). \<lparr> he_id = path, he_summary = group_summary m, he_category = group_category m,
                he_help_order = group_help_order m \<rparr>)
       (filter (\<lambda>(path, m). \<not> group_hidden m \<and> CHR ''/'' \<notin> set path) (groups r))"

definition help_section :: "help_entry \<Rightarrow> string" where
  "help_section e = (case he_category e of Some c \<Rightarrow> c | None \<Rightarrow> ''Other'')"

text \<open>\<open>groups.entry(key).or_default().push(entry)\<close>.\<close>

definition help_push :: "help_entry \<Rightarrow> (string, help_entry list) hash_map \<Rightarrow> (string, help_entry list) hash_map" where
  "help_push e m =
     hm_insert (help_section e)
       ((case map_of m (help_section e) of None \<Rightarrow> [] | Some es \<Rightarrow> es) @ [e]) m"

definition help_groups :: "help_entry list \<Rightarrow> (string, help_entry list) hash_map" where
  "help_groups es = fold help_push es []"

definition to_ascii_lowercase :: "string \<Rightarrow> string" where
  "to_ascii_lowercase s = map ascii_lower s"

text \<open>The two comparators, as the tuples they compare.\<close>

definition section_key :: "'c command_registry \<Rightarrow> string \<Rightarrow> bool \<times> nat \<times> string \<times> string" where
  "section_key r s =
     (if s = ''Other'' then (True, 0, [], [])
      else (False,
            (case help_section_rank r s of Some n \<Rightarrow> n | None \<Rightarrow> length (help_section_order r)),
            to_ascii_lowercase s, s))"

definition entry_key :: "help_entry \<Rightarrow> u32 \<times> string \<times> string" where
  "entry_key e =
     ((case he_help_order e of Some n \<Rightarrow> n | None \<Rightarrow> - 1), to_ascii_lowercase (he_id e), he_id e)"

definition help_sections :: "'c command_registry \<Rightarrow> (string \<times> help_entry list) list" where
  "help_sections r =
     (let m = help_groups (help_entries r)
      in map (\<lambda>s. (s, sort_key entry_key (case map_of m s of Some es \<Rightarrow> es | None \<Rightarrow> [])))
           (sort_key (section_key r) (map fst m)))"

definition title_case :: "string \<Rightarrow> string" where
  "title_case s =
     str_join '' '' (map (\<lambda>w. case w of [] \<Rightarrow> [] | c # cs \<Rightarrow> ascii_upper c # cs) (split_whitespace s))"

definition render_section :: "'c command_registry \<Rightarrow> string \<times> help_entry list \<Rightarrow> string" where
  "render_section r = (\<lambda>(s, es).
     (let col_width = max_len (map he_id es) + 2
      in (if help_section_rank r s \<noteq> None then s else title_case s) @ '':'' @ [newline] @
         concat (map (\<lambda>e. ''  '' @ he_id e @ spaces (col_width - length (he_id e)) @ he_summary e @ [newline]) es) @
         [newline]))"

definition render_header :: "string option \<Rightarrow> app_meta option \<Rightarrow> string" where
  "render_header argv0 meta =
     (case meta of
        Some m \<Rightarrow>
          meta_name m @ [CHR 0x20, CHR 0xE2, CHR 0x80, CHR 0x94, CHR 0x20] @ meta_description m @
          [newline, newline] @ ''Usage: '' @
          (case meta_usage m of Some usage \<Rightarrow> usage | None \<Rightarrow> meta_name m @ '' [OPTIONS] <command>'') @
          [newline, newline]
      | None \<Rightarrow>
          ''Usage: '' @ (case argv0 of Some n \<Rightarrow> n | None \<Rightarrow> ''<program>'') @
          '' <command> [arguments]'' @ [newline, newline])"

definition render_global_flag :: "arg_spec \<Rightarrow> string" where
  "render_global_flag flag =
     (let col = ''  --'' @ schema_prop_name flag @
                (case arg_short flag of Some s \<Rightarrow> '', -'' @ [s] | None \<Rightarrow> []) @
                (if arg_kind flag = AK_Flag then [] else '' <'' @ arg_name flag @ ''>'')
      in col @ (if length col < 18 then spaces (18 - length col) else '' '') @ arg_help flag @ [newline])"

text \<open>\<open>with_version_string\<close> drops a blank version, and the options fall back on the metadata.\<close>

definition render_version_line :: "app_meta option \<Rightarrow> string \<Rightarrow> string" where
  "render_version_line meta version_string =
     (let line = (\<lambda>v. ''  --version, -V   Print version ('' @ v @ '').'' @ [newline])
      in if str_trim version_string \<noteq> [] then line version_string
         else (case meta of
                 Some m \<Rightarrow> if meta_version m \<noteq> [] then line (meta_version m) else []
               | None \<Rightarrow> []))"

definition render_options :: "app_meta option \<Rightarrow> string \<Rightarrow> arg_spec list \<Rightarrow> string" where
  "render_options meta version_string global_flags =
     ''Options:'' @ [newline] @ ''  --help, -h      Print this help message.'' @ [newline] @
     render_version_line meta version_string @ concat (map render_global_flag global_flags)"

definition render_help_page ::
  "string option \<Rightarrow> app_meta option \<Rightarrow> 'c command_registry \<Rightarrow> string \<Rightarrow> arg_spec list \<Rightarrow> env_registry \<Rightarrow> string" where
  "render_help_page argv0 meta r version_string global_flags env =
     render_header argv0 meta @ concat (map (render_section r) (help_sections r)) @
     render_options meta version_string global_flags @
     (if env = [] then [] else newline # env_render_help env)"

section \<open>The entries of the help page\<close>

lemma map_of_help_push:
  "map_of (help_push e m) s =
     (if s = help_section e then Some ((case map_of m s of None \<Rightarrow> [] | Some es \<Rightarrow> es) @ [e]) else map_of m s)"
  by (simp add: help_push_def)

lemma hm_wf_help_push: "hm_wf m \<Longrightarrow> hm_wf (help_push e m)"
  by (simp add: help_push_def hm_insert_wf)

lemma hm_wf_fold_help_push: "hm_wf m \<Longrightarrow> hm_wf (fold help_push es m)"
  by (induction es arbitrary: m) (auto simp: hm_wf_help_push)

lemma map_of_help_groups:
  "map_of (help_groups es) s =
     (let f = filter (\<lambda>e. help_section e = s) es in if f = [] then None else Some f)"
  unfolding help_groups_def
  by (induction es rule: rev_induct) (auto simp: map_of_help_push Let_def split: option.splits if_splits)

lemma help_groups_keys: "set (map fst (help_groups es)) = help_section ` set es"
proof -
  have "set (map fst (help_groups es)) = dom (map_of (help_groups es))"
    by (simp add: dom_map_of_conv_image_fst)
  also have "\<dots> = help_section ` set es"
    by (auto simp: dom_def map_of_help_groups Let_def filter_empty_conv split: if_splits)
  finally show ?thesis .
qed

lemma distinct_help_keys: "distinct (map fst (help_groups es))"
  using hm_wf_fold_help_push [of "[]" es] by (simp add: help_groups_def hm_wf_def)

text \<open>Sorting a list into the buckets of a key function loses and repeats nothing.\<close>

lemma mset_buckets:
  "distinct S \<Longrightarrow> f ` set es \<subseteq> set S \<Longrightarrow>
     mset (concat (map (\<lambda>s. filter (\<lambda>e. f e = s) es) S)) = mset es"
proof (induction es)
  case Nil
  then show ?case by (induction S) auto
next
  case (Cons e es)
  have "sum_list (map (\<lambda>s. if f e = s then {#e#} else {#}) S) = {#e#}"
    using Cons.prems by (simp add: sum_list_distinct_conv_sum_set)
  moreover have "mset (concat (map (\<lambda>s. filter (\<lambda>e. f e = s) (e # es)) S)) =
      sum_list (map (\<lambda>s. (if f e = s then {#e#} else {#}) + mset (filter (\<lambda>e. f e = s) es)) S)"
    by (auto simp: mset_concat comp_def intro!: arg_cong [where f = sum_list])
  ultimately show ?case
    using Cons by (simp add: sum_list_addf mset_concat comp_def)
qed

lemma help_sections_alt:
  "help_sections r =
     map (\<lambda>s. (s, sort_key entry_key (filter (\<lambda>e. help_section e = s) (help_entries r))))
       (sort_key (section_key r) (map fst (help_groups (help_entries r))))"
  unfolding help_sections_def Let_def
  by (intro map_cong refl) (simp add: map_of_help_groups Let_def)

lemma mset_map_sort_key: "mset (concat (map (\<lambda>s. sort_key k (g s)) S)) = mset (concat (map g S))"
  by (simp add: mset_concat comp_def)

text \<open>
  The help page lists every visible root command and root group exactly once: the entries of its
  sections are together the entries of the registry, each under the heading of its category
  (\<open>Other\<close> when it has none), no heading appears twice and none is empty. Headings follow the
  order the application set, then the alphabet, with \<open>Other\<close> last; inside a section
  entries follow their declared order, then the alphabet.
\<close>

theorem help_lists_entries_once:
  "mset (concat (map snd (help_sections r))) = mset (help_entries r) \<and>
   distinct (map fst (help_sections r)) \<and>
   sorted (map (section_key r) (map fst (help_sections r))) \<and>
   (\<forall>(s, es) \<in> set (help_sections r).
      es \<noteq> [] \<and> (\<forall>e \<in> set es. help_section e = s) \<and> sorted (map entry_key es))"
proof -
  let ?es = "help_entries r"
  let ?S = "sort_key (section_key r) (map fst (help_groups ?es))"
  have S: "distinct ?S" "set ?S = help_section ` set ?es"
    using distinct_help_keys help_groups_keys [of ?es] by simp_all
  have fst: "map fst (help_sections r) = ?S"
    by (simp add: help_sections_alt comp_def)
  have "mset (concat (map snd (help_sections r))) = mset ?es"
    using mset_buckets [of ?S help_section ?es] S by (simp add: help_sections_alt comp_def mset_map_sort_key)
  moreover have "sort_key entry_key (filter (\<lambda>e. help_section e = s) ?es) \<noteq> []" if "s \<in> set ?S" for s
  proof -
    have "s \<in> help_section ` set ?es" using that S(2) by simp
    then show ?thesis unfolding set_empty [symmetric] set_sort by auto
  qed
  then have "\<forall>(s, es) \<in> set (help_sections r).
      es \<noteq> [] \<and> (\<forall>e \<in> set es. help_section e = s) \<and> sorted (map entry_key es)"
    unfolding help_sections_alt set_map ball_simps prod.case by simp
  ultimately show ?thesis using S(1) fst by (simp del: map_map)
qed

definition sample_help_registry :: "unit command_registry" where
  "sample_help_registry =
     registry_new \<lparr> tree_commands := [(''status'', sample_command ''status'' []), (''config/show'', sample_command ''show'' [])],
       groups := [(''config'', \<lparr> group_summary = ''Settings'', group_hidden = False,
                                group_category = Some ''setup'', group_help_order = None \<rparr>)] \<rparr>"

theorem help_lists_entries_once_witness:
  "map he_id (help_entries sample_help_registry) = [''status'', ''config''] \<and>
   image_mset he_id (mset (concat (map snd (help_sections sample_help_registry)))) = {#''status'', ''config''#} \<and>
   distinct (map fst (help_sections sample_help_registry))"
proof -
  have ids: "map he_id (help_entries sample_help_registry) = [''status'', ''config'']"
    by (simp add: help_entries_def sample_help_registry_def registry_new_def root_commands_def
        sample_command_def command_spec_default_def)
  note once = help_lists_entries_once [of sample_help_registry]
  have "image_mset he_id (mset (concat (map snd (help_sections sample_help_registry)))) =
      mset (map he_id (help_entries sample_help_registry))"
    using once [THEN conjunct1] by simp
  also have "\<dots> = {#''status'', ''config''#}" unfolding ids by simp
  finally show ?thesis using once ids by blast
qed

end
