(* ===== verification/Clap_Adapter.thy ===== *)
theory Clap_Adapter
  imports Clap_Mapper Help_Renderer "HOL-Library.Sublist"
begin

text \<open>
  \<open>src/app/clap_adapter.rs\<close>, first half: turning the registry into the tree of commands
  handed to \<open>clap\<close>.

  A \<open>clap::Command\<close> is its name, the list of builder calls made on it and its
  subcommands with their display order, in the order they are added.
\<close>

section \<open>The intermediate tree\<close>

datatype 'c clap_tree_node =
  Node (node_command: "'c command option") (node_children: "(string \<times> 'c clap_tree_node) list")

abbreviation node_default :: "'c clap_tree_node" where
  "node_default \<equiv> Node None []"

text \<open>\<open>self.children.entry(segment).or_default()\<close>: the child, or a new empty node.\<close>

definition child_or_default :: "string \<Rightarrow> 'c clap_tree_node \<Rightarrow> 'c clap_tree_node" where
  "child_or_default s n = (case map_of (node_children n) s of Some c \<Rightarrow> c | None \<Rightarrow> node_default)"

fun insert_command :: "string list \<Rightarrow> 'c command \<Rightarrow> 'c clap_tree_node \<Rightarrow> 'c clap_tree_node" where
  "insert_command [] c n = Node (Some c) (node_children n)"
| "insert_command (s # ss) c n =
     Node (node_command n)
       (bm_insert s (insert_command ss c (child_or_default s n)) (node_children n))"

fun insert_group :: "string list \<Rightarrow> 'c clap_tree_node \<Rightarrow> 'c clap_tree_node" where
  "insert_group [] n = n"
| "insert_group (s # ss) n =
     Node (node_command n) (bm_insert s (insert_group ss (child_or_default s n)) (node_children n))"

definition path_segments :: "string \<Rightarrow> string list" where
  "path_segments path = filter (\<lambda>s. s \<noteq> []) (str_split (CHR ''/'') path)"

definition clap_tree :: "'c command_registry \<Rightarrow> 'c clap_tree_node" where
  "clap_tree r =
     fold (\<lambda>(path, _). insert_group (path_segments path)) (groups r)
       (fold (\<lambda>(path, c). insert_command (path_segments path) c) (tree_commands r) node_default)"

section \<open>The clap commands\<close>

datatype clap_setting =
    CS_Call clap_command_call
  | CS_Version string
  | CS_PropagateVersion
  | CS_SubcommandRequired
  | CS_ArgRequiredElseHelp
  | CS_OverrideUsage string
  | CS_GlobalArg "string \<times> clap_call list"
  | CS_VisibleAlias string
  | CS_Alias string
  | CS_TrailingArg

datatype clap_command =
  ClapCommand (clap_name: string) (clap_settings: "clap_setting list")
    (clap_subs: "(nat option \<times> clap_command) list")

definition help_order_for_path :: "'c command_registry \<Rightarrow> string \<Rightarrow> u32 option" where
  "help_order_for_path r path =
     (case Option.bind (group_metadata_for r path) group_help_order of
        Some n \<Rightarrow> Some n
      | None \<Rightarrow> Option.bind (reg_resolve r (str_split (CHR ''/'') path)) cmd_help_order)"

definition child_path :: "string \<Rightarrow> string \<Rightarrow> string" where
  "child_path parent name = (if parent = [] then name else parent @ ''/'' @ name)"

definition sort_children_by_help_order ::
  "'c command_registry \<Rightarrow> string \<Rightarrow> (string \<times> 'n) list \<Rightarrow> (string \<times> 'n) list" where
  "sort_children_by_help_order r parent =
     sort_key (\<lambda>(name, _).
       ((case help_order_for_path r (child_path parent name) of Some n \<Rightarrow> n | None \<Rightarrow> - 1), name))"

definition build_leaf_clap_command :: "string \<Rightarrow> 'c command \<Rightarrow> clap_command" where
  "build_leaf_clap_command segment c =
     (let (name, calls) = build_typed_clap_command segment (cmd_spec c)
      in ClapCommand name
           (map CS_Call calls @ map CS_VisibleAlias (spec_aliases (cmd_spec c)) @
            map CS_Alias (spec_hidden_aliases (cmd_spec c))) [])"

definition group_about :: "'c command_registry \<Rightarrow> string \<Rightarrow> 'c command option \<Rightarrow> string" where
  "group_about r path c =
     (case group_metadata_for r path of
        Some m \<Rightarrow> group_summary m
      | None \<Rightarrow> (case c of Some c' \<Rightarrow> cmd_summary c' | None \<Rightarrow> ''Command group''))"

lemma sort_children_mem [simp]: "set (sort_children_by_help_order r p ch) = set ch"
  by (simp add: sort_children_by_help_order_def)

lemma enumerate_mem: "(i, x) \<in> set (enumerate n xs) \<Longrightarrow> x \<in> set xs"
  by (auto simp: enumerate_eq_zip dest: set_zip_rightD)

lemma child_size: "(s, n) \<in> set ch \<Longrightarrow> size n < Suc (k + size_list (size_prod (\<lambda>_. 0) size) ch)"
  by (induction ch) auto

function build_clap_node :: "'c command_registry \<Rightarrow> string \<Rightarrow> string \<Rightarrow> 'c clap_tree_node \<Rightarrow> clap_command option" where
  "build_clap_node r segment path (Node c ch) =
     (if ch = [] then map_option (build_leaf_clap_command segment) c
      else Some (ClapCommand segment
             [CS_Call (CC_About (group_about r path c)), CS_SubcommandRequired, CS_ArgRequiredElseHelp]
             (List.map_filter (\<lambda>(display_order, child_segment, child).
                map_option (Pair (Some display_order))
                  (build_clap_node r child_segment (path @ ''/'' @ child_segment) child))
                (enumerate 0 (sort_children_by_help_order r path ch)))))"
  by pat_completeness auto
termination
  by (relation "measure (\<lambda>(_, _, _, n). size n)") (auto dest!: enumerate_mem intro: child_size)

definition builtin_version :: clap_command where
  "builtin_version =
     ClapCommand ''version'' [CS_Call (CC_About ''Print version information''), CS_TrailingArg] []"

definition build_clap_root ::
  "app_meta option \<Rightarrow> 'c command_registry \<Rightarrow> string \<Rightarrow> string \<Rightarrow> string option \<Rightarrow> arg_spec list \<Rightarrow> clap_command" where
  "build_clap_root meta r app_name app_version sha global_flags =
     (let name = (case meta of Some m \<Rightarrow> meta_name m | None \<Rightarrow> app_name);
          version = (case meta of Some m \<Rightarrow> meta_version m | None \<Rightarrow> app_version);
          about = (case meta of
                     None \<Rightarrow> []
                   | Some m \<Rightarrow>
                       (if meta_description m \<noteq> [] then [CS_Call (CC_About (meta_description m))] else []) @
                       (case meta_usage m of Some usage \<Rightarrow> [CS_OverrideUsage usage] | None \<Rightarrow> []));
          subs = List.map_filter (\<lambda>(display_order, segment, child).
                   map_option (Pair (Some display_order)) (build_clap_node r segment segment child))
                   (enumerate 0 (sort_children_by_help_order r [] (node_children (clap_tree r))))
      in ClapCommand name
           ([CS_Version (format_display_version name version sha), CS_PropagateVersion,
             CS_SubcommandRequired, CS_ArgRequiredElseHelp] @ about @
            map (\<lambda>f. CS_GlobalArg (build_clap_arg f)) global_flags)
           (subs @ (if reg_get r ''version'' = None then [(None, builtin_version)] else [])))"

section \<open>What the intermediate tree holds\<close>

fun tree_lookup :: "'c clap_tree_node \<Rightarrow> string list \<Rightarrow> 'c clap_tree_node option" where
  "tree_lookup n [] = Some n"
| "tree_lookup n (s # ss) =
     (case map_of (node_children n) s of None \<Rightarrow> None | Some c \<Rightarrow> tree_lookup c ss)"

definition command_at :: "'c clap_tree_node \<Rightarrow> string list \<Rightarrow> 'c command option" where
  "command_at n p = Option.bind (tree_lookup n p) node_command"

definition node_paths :: "'c clap_tree_node \<Rightarrow> string list set" where
  "node_paths n = {p. tree_lookup n p \<noteq> None}"

lemma command_at_Nil [simp]: "command_at n [] = node_command n"
  by (simp add: command_at_def)

lemma command_at_Cons [simp]:
  "command_at n (s # ss) = (case map_of (node_children n) s of None \<Rightarrow> None | Some c \<Rightarrow> command_at c ss)"
  by (simp add: command_at_def split: option.splits)

lemma command_at_default [simp]: "command_at node_default p = None"
  by (cases p) simp_all

lemma command_at_insert:
  "command_at (insert_command ss c n) p = (if p = ss then Some c else command_at n p)"
proof (induction ss c n arbitrary: p rule: insert_command.induct)
  case (1 c n)
  show ?case by (cases p) simp_all
next
  case (2 s ss c n)
  then show ?case by (cases p) (auto simp: child_or_default_def split: option.splits)
qed

lemma command_at_group: "command_at (insert_group ss n) p = command_at n p"
proof (induction ss n arbitrary: p rule: insert_group.induct)
  case (1 n)
  show ?case by simp
next
  case (2 s ss n)
  then show ?case by (cases p) (auto simp: child_or_default_def split: option.splits)
qed

lemma node_paths_Nil [simp]: "[] \<in> node_paths n"
  by (simp add: node_paths_def)

lemma node_paths_Cons [simp]:
  "s # ss \<in> node_paths n \<longleftrightarrow> (\<exists>c. map_of (node_children n) s = Some c \<and> ss \<in> node_paths c)"
  by (simp add: node_paths_def split: option.splits)

lemma node_paths_default: "p \<in> node_paths node_default \<longleftrightarrow> p = []"
  by (cases p) simp_all

lemma node_paths_insert:
  "p \<in> node_paths (insert_command ss c n) \<longleftrightarrow> p \<in> node_paths n \<or> prefix p ss"
proof (induction ss c n arbitrary: p rule: insert_command.induct)
  case (1 c n)
  show ?case by (cases p) simp_all
next
  case (2 s ss c n)
  then show ?case
    by (cases p) (auto simp: child_or_default_def node_paths_default split: option.splits)
qed

lemma node_paths_group: "p \<in> node_paths (insert_group ss n) \<longleftrightarrow> p \<in> node_paths n \<or> prefix p ss"
proof (induction ss n arbitrary: p rule: insert_group.induct)
  case (1 n)
  show ?case by (cases p) simp_all
next
  case (2 s ss n)
  then show ?case
    by (cases p) (auto simp: child_or_default_def node_paths_default split: option.splits)
qed

text \<open>The children of every node form a \<open>BTreeMap\<close>.\<close>

fun tree_wf :: "'c clap_tree_node \<Rightarrow> bool" where
  "tree_wf (Node c ch) \<longleftrightarrow> bm_wf ch \<and> (\<forall>(s, n) \<in> set ch. tree_wf n)"

lemma tree_wf_child: "tree_wf n \<Longrightarrow> map_of (node_children n) s = Some c \<Longrightarrow> tree_wf c"
  by (cases n) (auto dest!: map_of_SomeD)

lemma tree_wf_update:
  "tree_wf n \<Longrightarrow> tree_wf c \<Longrightarrow> tree_wf (Node x (bm_insert s c (node_children n)))"
  by (cases n) (auto simp: bm_insert_wf bm.entry_ins split: if_splits)

lemma tree_wf_child_or_default: "tree_wf n \<Longrightarrow> tree_wf (child_or_default s n)"
  by (auto simp: child_or_default_def split: option.splits intro: tree_wf_child)

lemma tree_wf_insert: "tree_wf n \<Longrightarrow> tree_wf (insert_command ss c n)"
proof (induction ss c n rule: insert_command.induct)
  case (1 c n)
  then show ?case by (cases n) simp
qed (simp add: tree_wf_update tree_wf_child_or_default del: tree_wf.simps)

lemma tree_wf_group: "tree_wf n \<Longrightarrow> tree_wf (insert_group ss n)"
  by (induction ss n rule: insert_group.induct) (simp_all add: tree_wf_update tree_wf_child_or_default del: tree_wf.simps)

text \<open>No segment of a registered path is empty.\<close>

definition clean_keys :: "'c command_registry \<Rightarrow> bool" where
  "clean_keys r \<longleftrightarrow> (\<forall>k \<in> nodes r. [] \<notin> set (str_split (CHR ''/'') k))"

lemma clean_segments: "[] \<notin> set (str_split (CHR ''/'') k) \<Longrightarrow> path_segments k = str_split (CHR ''/'') k"
  by (auto simp: path_segments_def filter_id_conv)

lemma command_at_commands:
  "command_at (fold (\<lambda>(path, c). insert_command (path_segments path) c) kvs n) p =
     (case find (\<lambda>(k, _). path_segments k = p) (rev kvs) of Some (_, c) \<Rightarrow> Some c | None \<Rightarrow> command_at n p)"
  by (induction kvs rule: rev_induct) (auto simp: command_at_insert)

lemma command_at_groups:
  "command_at (fold (\<lambda>(path, _). insert_group (path_segments path)) kvs n) p = command_at n p"
  by (induction kvs rule: rev_induct) (auto simp: command_at_group)

lemma node_paths_tree:
  "p \<in> node_paths (clap_tree r) \<longleftrightarrow> p = [] \<or> (\<exists>k \<in> nodes r. prefix p (path_segments k))"
proof -
  have "p \<in> node_paths (fold (\<lambda>(path, c). insert_command (path_segments path) c) kvs n) \<longleftrightarrow>
      p \<in> node_paths n \<or> (\<exists>k \<in> fst ` set kvs. prefix p (path_segments k))" for kvs and n :: "'a clap_tree_node"
    by (induction kvs rule: rev_induct) (auto simp: node_paths_insert)
  moreover have "p \<in> node_paths (fold (\<lambda>(path, _). insert_group (path_segments path)) gs n) \<longleftrightarrow>
      p \<in> node_paths n \<or> (\<exists>k \<in> fst ` set gs. prefix p (path_segments k))"
    for gs :: "(string \<times> group_metadata) list" and n :: "'a clap_tree_node"
    by (induction gs rule: rev_induct) (auto simp: node_paths_group)
  ultimately show ?thesis
    by (auto simp: clap_tree_def nodes_def node_paths_default)
qed

lemma tree_wf_clap_tree: "tree_wf (clap_tree r)"
proof -
  have "tree_wf n \<Longrightarrow> tree_wf (fold (\<lambda>(path, c). insert_command (path_segments path) c) kvs n)"
    for kvs and n :: "'a clap_tree_node"
    by (induction kvs rule: rev_induct) (auto simp: tree_wf_insert)
  moreover have "tree_wf n \<Longrightarrow> tree_wf (fold (\<lambda>(path, _). insert_group (path_segments path)) gs n)"
    for gs :: "(string \<times> group_metadata) list" and n :: "'a clap_tree_node"
    by (induction gs rule: rev_induct) (auto simp: tree_wf_group)
  ultimately show ?thesis by (simp add: clap_tree_def)
qed

definition segments_ok :: "string list \<Rightarrow> bool" where
  "segments_ok p \<longleftrightarrow> p \<noteq> [] \<and> path_ok p \<and> [] \<notin> set p"

lemma command_at_tree:
  assumes "hm_wf (tree_commands r)" "clean_keys r"
  shows "command_at (clap_tree r) p = (if segments_ok p then reg_resolve r p else None)"
proof -
  have seg: "path_segments k = str_split (CHR ''/'') k" if "(k, c) \<in> set (tree_commands r)" for k c
    using assms(2) that by (intro clean_segments) (force simp: clean_keys_def nodes_def)
  have match: "path_segments k = p \<longleftrightarrow> segments_ok p \<and> k = to_path_string p"
    if k: "(k, c) \<in> set (tree_commands r)" for k c
  proof
    assume "path_segments k = p"
    then have p: "p = str_split (CHR ''/'') k" using seg [OF k] by simp
    have "[] \<notin> set (str_split (CHR ''/'') k)" using k assms(2) by (force simp: clean_keys_def nodes_def)
    then show "segments_ok p \<and> k = to_path_string p"
      by (auto simp: p segments_ok_def to_path_string_def join_split str_split_no_sep)
  next
    assume "segments_ok p \<and> k = to_path_string p"
    then have "str_split (CHR ''/'') k = p" by (auto simp: segments_ok_def to_path_string_def split_join)
    then show "path_segments k = p" using seg [OF k] by simp
  qed
  have "find (\<lambda>(k, _). path_segments k = p) (rev (tree_commands r)) =
      find (\<lambda>e. segments_ok p \<and> fst e = to_path_string p) (rev (tree_commands r))"
  proof (intro find_cong refl)
    fix x assume "x \<in> set (rev (tree_commands r))"
    then show "(case x of (k, _) \<Rightarrow> path_segments k = p) = (segments_ok p \<and> fst x = to_path_string p)"
      using match [of "fst x" "snd x"] by (simp add: split_beta)
  qed
  moreover have "(case find (\<lambda>e. fst e = k) m of Some (_, c) \<Rightarrow> Some c | None \<Rightarrow> None) = map_of m k" for k and m :: "(string \<times> 'a command) list"
    by (induction m) auto
  moreover have "map_of (rev (tree_commands r)) = map_of (tree_commands r)"
    using assms(1) by (simp add: map_of_rev hm_wf_def)
  ultimately show ?thesis
    unfolding clap_tree_def command_at_groups command_at_commands command_at_default
    by (cases "segments_ok p") (simp_all add: reg_resolve_def find_None_iff [THEN iffD2])
qed

lemma path_segments_above:
  assumes "prefix (p @ [s]) (str_split (CHR ''/'') k)" "p \<noteq> []"
  shows "above (to_path_string p) k"
proof -
  obtain t where "str_split (CHR ''/'') k = p @ s # t" using assms(1) by (auto simp: prefix_def)
  then have "k = str_join ''/'' (p @ s # t)" by (metis join_split)
  then show ?thesis using assms(2) by (simp add: above_iff to_path_string_def join_append)
qed

text \<open>A node that holds a command has no children.\<close>

lemma tree_commands_are_leaves:
  assumes "registry_ok r" "clean_keys r" "command_at (clap_tree r) p \<noteq> None"
  shows "p @ [s] \<notin> node_paths (clap_tree r)"
proof
  assume "p @ [s] \<in> node_paths (clap_tree r)"
  then obtain k where k: "k \<in> nodes r" "prefix (p @ [s]) (path_segments k)"
    by (auto simp: node_paths_tree)
  have "segments_ok p" and res: "reg_resolve r p \<noteq> None"
    using assms by (auto simp: command_at_tree registry_ok_def split: if_splits)
  then have "above (to_path_string p) k"
    using k assms(2) by (intro path_segments_above) (auto simp: clean_keys_def clean_segments segments_ok_def)
  then show False
    using names_okD(1) res k(1) assms(1) by (fastforce simp: registry_ok_def reg_resolve_def dest: map_of_SomeD)
qed

section \<open>What clap is offered\<close>

text \<open>The command \<open>clap\<close> reaches by a chain of subcommand names, when it can end there.\<close>

definition clap_sub :: "clap_command \<Rightarrow> string \<Rightarrow> clap_command option" where
  "clap_sub c s = map_option snd (find (\<lambda>(_, sub). clap_name sub = s) (clap_subs c))"

fun clap_find :: "clap_command \<Rightarrow> string list \<Rightarrow> clap_command option" where
  "clap_find c [] = Some c"
| "clap_find c (s # ss) = (case clap_sub c s of None \<Rightarrow> None | Some sub \<Rightarrow> clap_find sub ss)"

definition clap_leaf :: "clap_command \<Rightarrow> string list \<Rightarrow> clap_command option" where
  "clap_leaf c p =
     (case clap_find c p of
        Some l \<Rightarrow> if CS_SubcommandRequired \<in> set (clap_settings l) then None else Some l
      | None \<Rightarrow> None)"

lemma clap_leaf_Cons: "clap_leaf c (s # ss) = Option.bind (clap_sub c s) (\<lambda>sub. clap_leaf sub ss)"
  by (cases "clap_sub c s") (simp_all add: clap_leaf_def)

lemma leaf_command_simps [simp]:
  "clap_name (build_leaf_clap_command s c) = s"
  "clap_subs (build_leaf_clap_command s c) = []"
  "CS_SubcommandRequired \<notin> set (clap_settings (build_leaf_clap_command s c))"
  by (auto simp: build_leaf_clap_command_def build_typed_clap_command_def)

lemma build_clap_node_name: "build_clap_node r segment path n = Some c \<Longrightarrow> clap_name c = segment"
  by (cases n) (auto split: if_splits)

text \<open>The subcommands built from sorted children, found by name.\<close>

abbreviation built_children ::
  "(string \<Rightarrow> 'n \<Rightarrow> clap_command option) \<Rightarrow> nat \<Rightarrow> (string \<times> 'n) list \<Rightarrow> (nat option \<times> clap_command) list" where
  "built_children B i xs \<equiv>
     List.map_filter (\<lambda>(display_order, s, n). map_option (Pair (Some display_order)) (B s n)) (enumerate i xs)"

lemma find_built_children:
  assumes "distinct (map fst xs)" "\<And>s n c. B s n = Some c \<Longrightarrow> clap_name c = s"
  shows "map_option snd (find (\<lambda>(_, sub). clap_name sub = s) (built_children B i xs)) =
     Option.bind (map_of xs s) (B s)"
  using assms(1)
proof (induction xs arbitrary: i)
  case Nil
  then show ?case by simp
next
  case (Cons x xs)
  obtain t n where x: "x = (t, n)" by fastforce
  show ?case
  proof (cases "t = s")
    case True
    then have "map_of xs s = None" using Cons.prems x by (simp add: map_of_eq_None_iff)
    then show ?thesis using Cons x True assms(2) [of t n] by (cases "B t n") simp_all
  next
    case False
    then show ?thesis using Cons x assms(2) [of t n] by (cases "B t n") auto
  qed
qed

lemma map_of_sort_children:
  "distinct (map fst ch) \<Longrightarrow> map_of (sort_children_by_help_order r p ch) = map_of ch \<and>
     distinct (map fst (sort_children_by_help_order r p ch))"
proof -
  assume d: "distinct (map fst ch)"
  then have "distinct (map fst (sort_children_by_help_order r p ch))"
    by (auto simp: sort_children_by_help_order_def distinct_map)
  then show ?thesis using d by (auto intro: map_of_distinct_perm)
qed

lemma clap_sub_group:
  "tree_wf (Node c ch) \<Longrightarrow> ch \<noteq> [] \<Longrightarrow> build_clap_node r segment path (Node c ch) = Some g \<Longrightarrow>
     clap_sub g s = Option.bind (map_of ch s) (build_clap_node r s (path @ ''/'' @ s))"
  using map_of_sort_children [of ch r path]
  by (auto simp: clap_sub_def find_built_children build_clap_node_name bm_wf_distinct
      simp del: build_clap_node.simps [of _ _ "path @ ''/'' @ _"] split: if_splits)

lemma map_of_nonempty: "ch \<noteq> [] \<Longrightarrow> \<exists>s m. map_of ch s = Some m"
  by (cases ch) force+

lemma clap_leaf_node:
  assumes "tree_wf n" "\<And>q s. command_at n q \<noteq> None \<Longrightarrow> q @ [s] \<notin> node_paths n"
  shows "Option.bind (build_clap_node r segment path n) (\<lambda>c. clap_leaf c p) =
     map_option (build_leaf_clap_command (last (segment # p))) (command_at n p)"
  using assms
proof (induction p arbitrary: n segment path)
  case Nil
  obtain c ch where n: "n = Node c ch" by (cases n)
  show ?case
  proof (cases "ch = []")
    case True
    then show ?thesis using n by (cases c) (simp_all add: clap_leaf_def)
  next
    case False
    then obtain s m where "map_of ch s = Some m" using map_of_nonempty by blast
    then have "c = None" using Nil.prems(2) [of "[]" s] n by (cases c) auto
    then show ?thesis using n False by (simp add: clap_leaf_def)
  qed
next
  case (Cons s ss)
  obtain c ch where n: "n = Node c ch" by (cases n)
  show ?case
  proof (cases "ch = []")
    case True
    then show ?thesis using n by (cases c) (simp_all add: clap_leaf_Cons clap_sub_def)
  next
    case False
    then obtain g where g: "build_clap_node r segment path n = Some g" using n by simp
    have sub: "clap_sub g s = Option.bind (map_of ch s) (build_clap_node r s (path @ ''/'' @ s))"
      using clap_sub_group g Cons.prems(1) False n by blast
    show ?thesis
    proof (cases "map_of ch s")
      case None
      then show ?thesis using g sub n by (simp add: clap_leaf_Cons)
    next
      case (Some m)
      have "q @ [t] \<notin> node_paths m" if "command_at m q \<noteq> None" for q t
        using Cons.prems(2) [of "s # q" t] that Some n by simp
      moreover have "tree_wf m" using tree_wf_child [OF Cons.prems(1)] Some n by simp
      ultimately show ?thesis
        using Cons.IH [of m s "path @ ''/'' @ s"] g sub Some n by (simp add: clap_leaf_Cons)
    qed
  qed
qed

lemma find_append: "find P (xs @ ys) = (case find P xs of Some x \<Rightarrow> Some x | None \<Rightarrow> find P ys)"
  by (induction xs) auto

lemma clap_sub_root:
  "clap_sub (build_clap_root meta r name version sha gf) s =
     (case Option.bind (map_of (node_children (clap_tree r)) s) (build_clap_node r s s) of
        Some c \<Rightarrow> Some c
      | None \<Rightarrow> if s = ''version'' \<and> reg_get r ''version'' = None then Some builtin_version else None)"
proof -
  let ?ch = "node_children (clap_tree r)"
  have "distinct (map fst ?ch)"
    using tree_wf_clap_tree [of r] by (cases "clap_tree r") (simp add: bm_wf_distinct)
  then have "map_option snd (find (\<lambda>(_, sub). clap_name sub = s)
      (built_children (\<lambda>s. build_clap_node r s s) 0 (sort_children_by_help_order r [] ?ch))) =
      Option.bind (map_of ?ch s) (build_clap_node r s s)"
    using map_of_sort_children [of ?ch r "[]"]
      find_built_children [of "sort_children_by_help_order r [] ?ch" "\<lambda>s. build_clap_node r s s" s 0]
      build_clap_node_name by metis
  then show ?thesis
    by (auto simp: clap_sub_def build_clap_root_def Let_def find_append builtin_version_def split: option.splits)
qed

lemma version_not_built:
  assumes "clean_keys r" "\<not> path_has_descendants r ''version''" "reg_get r ''version'' = None"
    and "registry_ok r"
  shows "Option.bind (map_of (node_children (clap_tree r)) ''version'') (build_clap_node r ''version'' ''version'') = None"
proof (cases "map_of (node_children (clap_tree r)) ''version''")
  case None
  then show ?thesis by simp
next
  case (Some n)
  obtain c ch where n: "n = Node c ch" by (cases n)
  have "c = None"
    using command_at_tree [of r "[''version'']"] assms Some n
    by (simp add: registry_ok_def reg_get_def reg_resolve_def to_path_string_def split: if_splits)
  moreover have "ch = []"
  proof (rule ccontr)
    assume "ch \<noteq> []"
    then obtain s where "[''version'', s] \<in> node_paths (clap_tree r)"
      using map_of_nonempty Some n by fastforce
    then obtain k where k: "k \<in> nodes r" "prefix ([''version''] @ [s]) (str_split (CHR ''/'') k)"
      using assms(1) by (auto simp: node_paths_tree clean_keys_def clean_segments)
    then have "above (to_path_string [''version'']) k" by (intro path_segments_above) auto
    then show False using k(1) assms(2) by (auto simp: path_has_descendants_iff to_path_string_def)
  qed
  ultimately show ?thesis using Some n by simp
qed

lemma clap_leaf_root:
  assumes "registry_reachable r" "clean_keys r" "\<not> path_has_descendants r ''version''"
  shows "clap_leaf (build_clap_root meta r name version sha gf) p =
     (if p = [''version''] \<and> reg_get r ''version'' = None then Some builtin_version
      else if segments_ok p then map_option (build_leaf_clap_command (last p)) (reg_resolve r p)
      else None)"
proof (cases p)
  case Nil
  then show ?thesis by (simp add: clap_leaf_def build_clap_root_def Let_def segments_ok_def)
next
  case (Cons s ss)
  have ok: "registry_ok r" using assms(1) by (rule registry_reachable_ok)
  let ?t = "clap_tree r" and ?R = "build_clap_root meta r name version sha gf"
  let ?B = "Option.bind (map_of (node_children ?t) s) (build_clap_node r s s)"
  have at: "command_at ?t q = (if segments_ok q then reg_resolve r q else None)" for q
    using ok assms(2) by (simp add: command_at_tree registry_ok_def)
  have leaf: "Option.bind ?B (\<lambda>c. clap_leaf c ss) = map_option (build_leaf_clap_command (last p)) (command_at ?t p)"
  proof (cases "map_of (node_children ?t) s")
    case None
    then show ?thesis using Cons by simp
  next
    case (Some m)
    have "q @ [u] \<notin> node_paths m" if "command_at m q \<noteq> None" for q u
      using tree_commands_are_leaves [OF ok assms(2), of "s # q" u] that Some by simp
    moreover have "tree_wf m" using tree_wf_child [OF tree_wf_clap_tree] Some by blast
    ultimately show ?thesis using clap_leaf_node [of m r s s ss] Some Cons by simp
  qed
  show ?thesis
  proof (cases "s = ''version'' \<and> reg_get r ''version'' = None")
    case True
    have "?B = None"
      using version_not_built [OF assms(2,3) _ ok] True by simp
    then show ?thesis
      using True leaf at [of p] Cons clap_sub_root [of meta r name version sha gf s]
      by (cases ss) (auto simp: clap_leaf_Cons clap_leaf_def builtin_version_def clap_sub_def)
  next
    case False
    then have "clap_sub ?R s = ?B"
      by (simp add: clap_sub_root split: option.splits)
    then show ?thesis using False leaf at [of p] Cons by (auto simp: clap_leaf_Cons)
  qed
qed

text \<open>
  C27. The command line offers exactly the registry. For every registry a program can build whose
  path segments are not empty and where nothing lies below \<open>version\<close>: \<open>clap\<close> can end at a
  chain of names in the tree of \<open>build_clap_root\<close> iff a command is registered at that
  path, and then it finds the arguments, aliases and texts declared by that very command;
  the one addition is the built-in \<open>version\<close> when the program has no such command.
\<close>

theorem clap_tree_offers_registry:
  assumes "registry_reachable r" "clean_keys r" "\<not> path_has_descendants r ''version''"
  shows "clap_leaf (build_clap_root meta r name version sha gf) p =
     (if p = [''version''] \<and> reg_get r ''version'' = None then Some builtin_version
      else if segments_ok p then map_option (build_leaf_clap_command (last p)) (reg_resolve r p)
      else None)"
  using assms by (rule clap_leaf_root)

lemma sample_registry_clean:
  "clean_keys sample_registry" "\<not> path_has_descendants sample_registry ''version''"
  by (simp_all add: clean_keys_def nodes_def sample_registry_def registry_new_def path_has_descendants_def
      starts_with_def)

theorem clap_tree_offers_registry_witness:
  "clap_leaf (build_clap_root None sample_registry ''app'' ''1.0'' None []) [''config'', ''show''] =
     Some (build_leaf_clap_command ''show'' (sample_command ''show'' [''cat''])) \<and>
   clap_leaf (build_clap_root None sample_registry ''app'' ''1.0'' None []) [''config''] = None \<and>
   clap_leaf (build_clap_root None sample_registry ''app'' ''1.0'' None []) [''version''] = Some builtin_version"
proof -
  note offers = clap_tree_offers_registry [OF sample_registry_reachable sample_registry_clean,
      of None "''app''" "''1.0''" None "[]"]
  have [simp]: "segments_ok [''config'', ''show'']" "reg_get sample_registry ''version'' = None"
    "reg_resolve sample_registry [''config''] = None"
    "reg_resolve sample_registry [''config'', ''show''] = Some (sample_command ''show'' [''cat''])"
    by (simp_all add: segments_ok_def reg_get_def reg_resolve_def to_path_string_def sample_registry_def registry_new_def)
  show ?thesis
    using offers [of "[''config'', ''show'']"] offers [of "[''config'']"] offers [of "[''version'']"] by simp
qed

text \<open>
  The condition on \<open>version\<close> is needed: \<open>build_clap_root\<close> asks the registry only
  for a command at \<open>version\<close>, so a registered group of that name, with a command below it, is
  in the tree next to the built-in command, and \<open>clap\<close> is given two subcommands of one name.
\<close>

theorem version_group_duplicated:
  "\<exists>r. registry_reachable (r :: unit command_registry) \<and> clean_keys r \<and>
     map (clap_name \<circ> snd) (clap_subs (build_clap_root None r ''app'' ''1.0'' None [])) = [''version'', ''version'']"
proof -
  define r :: "unit command_registry" where
    "r = registry_new \<lparr> tree_commands := [(''version/check'', sample_command ''check'' [])] \<rparr>"
  have "register_at [''version'', ''check''] (sample_command ''check'' []) registry_new = Ok r"
    by (simp add: r_def register_at_eval)
  then have reach: "registry_reachable r" by (rule reach_at [OF reach_new, rotated]) simp
  have clean: "clean_keys r" by (simp add: clean_keys_def nodes_def r_def registry_new_def)
  have v: "reg_get r ''version'' = None" by (simp add: reg_get_def r_def registry_new_def)
  have "node_children (clap_tree r) =
      [(''version'', Node None [(''check'', Node (Some (sample_command ''check'' [])) [])])]"
    by (simp add: clap_tree_def r_def registry_new_def path_segments_def child_or_default_def)
  then have "map (clap_name \<circ> snd) (clap_subs (build_clap_root None r ''app'' ''1.0'' None [])) = [''version'', ''version'']"
    using v by (simp add: build_clap_root_def Let_def sort_children_by_help_order_def builtin_version_def)
  with reach clean show ?thesis by (intro exI conjI)
qed

end
