(* ===== verification/App_Dispatch.thy ===== *)
theory App_Dispatch
  imports Clap_Adapter
begin

text \<open>
  From the command line to the body of a command: the second half of
  \<open>src/app/clap_adapter.rs\<close> (\<open>parse_with_clap\<close>), the run loop of
  \<open>src/app/builder.rs\<close> and the context of \<open>src/app/dispatch.rs\<close>.

  \<open>clap\<close> itself is the field \<open>try_get_matches_from\<close> of the record \<open>cli_env\<close>: it
  parses the arguments against a tree of commands, and gives either the matches of the chain of
  subcommands it followed or an error with its kind, context and rendered text. The
  record also holds the \<open>regex\<close> crate, the name of the executable, and whether the
  program is built with the \<open>chat\<close> feature.

  Standard output and error are lists of what was written, in the application; a diagnostic is kept
  as the value given to \<open>DiagnosticReporter::report\<close>. Telemetry and the update notice,
  which only observe a run, are left out.
\<close>

section \<open>Parsing\<close>

datatype clap_error_kind =
    DisplayHelp
  | DisplayHelpOnMissingArgumentOrSubcommand
  | DisplayVersion
  | UnknownArgument
  | MissingRequiredArgument
  | OtherErrorKind

datatype clap_context_kind = InvalidArg | SuggestedArg | SuggestedSubcommand | OtherContextKind

text \<open>\<open>ContextValue\<close>; other values than strings are kept as the text they display.\<close>

datatype clap_context_value = CV_String string | CV_Strings "string list" | CV_Other string

fun context_value_display :: "clap_context_value \<Rightarrow> string" where
  "context_value_display (CV_String s) = s"
| "context_value_display (CV_Strings ss) = str_join '', '' ss"
| "context_value_display (CV_Other s) = s"

record clap_error =
  ce_kind :: clap_error_kind
  ce_context :: "(clap_context_kind \<times> clap_context_value) list"
  ce_text :: string

datatype clap_matches = ClapMatches (cm_args: arg_matches) (cm_subcommand: "(string \<times> clap_matches) option")

datatype parse_outcome =
    Parsed command_path typed_args typed_args
  | HelpShown string
  | VersionShown string
  | ParseError diagnostic

definition E_UNKNOWN_COMMAND :: string where "E_UNKNOWN_COMMAND = ''E001''"
definition E_UNKNOWN_FLAG :: string where "E_UNKNOWN_FLAG = ''E002''"
definition E_NESTED_COMMAND_NOT_FOUND :: string where "E_NESTED_COMMAND_NOT_FOUND = ''E012''"

fun walk_subcommands :: "clap_matches \<Rightarrow> string list \<Rightarrow> string list \<times> arg_matches" where
  "walk_subcommands (ClapMatches args None) segments = (segments, args)"
| "walk_subcommands (ClapMatches args (Some (name, sub))) segments = walk_subcommands sub (segments @ [name])"

definition extract_nested_command_path :: "clap_matches \<Rightarrow> command_path \<times> arg_matches" where
  "extract_nested_command_path m = walk_subcommands m []"

definition extract_clap_suggestion :: "clap_error \<Rightarrow> clap_context_kind \<Rightarrow> string option" where
  "extract_clap_suggestion e kind =
     find_map (\<lambda>(k, v).
       if k = kind then
         (case v of
            CV_String s \<Rightarrow> Some s
          | CV_Strings ss \<Rightarrow> (case ss of [] \<Rightarrow> None | s # _ \<Rightarrow> Some s)
          | CV_Other _ \<Rightarrow> None)
       else None) (ce_context e)"

definition format_subcommand_suggestion :: "string \<Rightarrow> fmt_text" where
  "format_subcommand_suggestion candidate = Text ''Did you mean '{}'?'' [FStr candidate]"

definition format_flag_suggestion :: "string \<Rightarrow> fmt_text" where
  "format_flag_suggestion candidate =
     Text (if starts_with ''--'' candidate then ''Did you mean '{}'?'' else ''Did you mean '--{}'?'')
       [FStr candidate]"

definition unknown_argument_diag :: "bool \<Rightarrow> clap_error \<Rightarrow> diagnostic" where
  "unknown_argument_diag suggest e =
     (let hint = Text ''Use --help to see available arguments'' []
      in \<lparr> diag_code = E_UNKNOWN_FLAG, diag_category = DC_Parse, diag_message = Text ''unknown argument'' [],
           diag_suggestion = Some
             (if suggest then
                (case extract_clap_suggestion e SuggestedArg of
                   Some s \<Rightarrow> format_flag_suggestion s | None \<Rightarrow> hint)
              else hint),
           diag_span = (if suggest then extract_clap_suggestion e InvalidArg else None) \<rparr>)"

definition missing_required_diag :: "clap_error \<Rightarrow> diagnostic" where
  "missing_required_diag e =
     (let missing = List.map_filter (\<lambda>(kind, v). if kind = InvalidArg then Some (context_value_display v) else None)
                      (ce_context e);
          arg_desc = (if missing = [] then ''required argument'' else str_join '', '' missing)
      in \<lparr> diag_code = E_MISSING_REQUIRED, diag_category = DC_Parse,
           diag_message = Text ''missing required argument {}'' [FStr arg_desc],
           diag_suggestion = Some (Text ''Use --help to see required arguments'' []), diag_span = None \<rparr>)"

definition nth_arg :: "string list \<Rightarrow> nat \<Rightarrow> string option" where
  "nth_arg args i = (if i < length args then Some (args ! i) else None)"

definition is_nested_attempt :: "string list \<Rightarrow> bool" where
  "is_nested_attempt args \<longleftrightarrow>
     2 < length args \<and> \<not> starts_with ''-'' (args ! 1) \<and> \<not> starts_with ''-'' (args ! 2)"

definition command_not_found_diag :: "bool \<Rightarrow> clap_error \<Rightarrow> string list \<Rightarrow> diagnostic" where
  "command_not_found_diag suggest e args =
     (let cmd_arg = (case nth_arg args 1 of Some a \<Rightarrow> a | None \<Rightarrow> []);
          hint = Text ''Use --help to see available commands'' [];
          suggestion =
            (if suggest then
               (case extract_clap_suggestion e SuggestedSubcommand of
                  Some s \<Rightarrow> format_subcommand_suggestion s | None \<Rightarrow> hint)
             else hint)
      in if is_nested_attempt args then
           \<lparr> diag_code = E_NESTED_COMMAND_NOT_FOUND, diag_category = DC_Parse,
             diag_message = Text ''nested command path '{}' not found''
               [FStr (str_join '' '' (takeWhile (\<lambda>a. \<not> starts_with ''-'' a) (drop 1 args)))],
             diag_suggestion = Some suggestion, diag_span = Some cmd_arg \<rparr>
         else
           \<lparr> diag_code = E_UNKNOWN_COMMAND, diag_category = DC_Parse,
             diag_message = Text (''unrecognized subcommand '{}'' @ [CHR 0x27]) [FStr cmd_arg],
             diag_suggestion = Some suggestion, diag_span = Some cmd_arg \<rparr>)"

fun setting_version :: "clap_setting \<Rightarrow> string option" where
  "setting_version (CS_Version v) = Some v"
| "setting_version _ = None"

text \<open>\<open>clap::Command::get_version\<close>: what \<open>version\<close> was called with.\<close>

definition get_version :: "clap_command \<Rightarrow> string option" where
  "get_version c = find_map setting_version (clap_settings c)"

definition version_text :: "clap_command \<Rightarrow> string" where
  "version_text clap_root =
     (let t = (case get_version clap_root of Some v \<Rightarrow> v | None \<Rightarrow> [])
      in if t \<noteq> [] \<and> last t = newline then t else t @ [newline])"

definition parse_error_outcome :: "clap_command \<Rightarrow> bool \<Rightarrow> string list \<Rightarrow> clap_error \<Rightarrow> parse_outcome" where
  "parse_error_outcome clap_root suggest args e =
     (case ce_kind e of
        DisplayHelp \<Rightarrow> HelpShown (ce_text e)
      | DisplayHelpOnMissingArgumentOrSubcommand \<Rightarrow> HelpShown (ce_text e)
      | DisplayVersion \<Rightarrow> VersionShown (version_text clap_root)
      | UnknownArgument \<Rightarrow> ParseError (unknown_argument_diag suggest e)
      | MissingRequiredArgument \<Rightarrow> ParseError (missing_required_diag e)
      | OtherErrorKind \<Rightarrow> ParseError (command_not_found_diag suggest e args))"

definition global_args_of :: "arg_spec list \<Rightarrow> arg_matches \<Rightarrow> typed_args" where
  "global_args_of global_flags leaf_matches =
     (if global_flags = [] then []
      else case map_matches_to_typed_args (command_spec_default \<lparr> spec_args := global_flags \<rparr>) leaf_matches of
        Ok args \<Rightarrow> args
      | Err _ \<Rightarrow> [])"

definition matched_command :: "'c command_registry \<Rightarrow> command_path \<Rightarrow> 'c command option" where
  "matched_command r path =
     (if 1 < length path then reg_resolve r path
      else reg_get r (case path_leaf path of Some s \<Rightarrow> s | None \<Rightarrow> []))"

definition parse_with_clap ::
  "(clap_command \<Rightarrow> string list \<Rightarrow> clap_error + clap_matches) \<Rightarrow> clap_command \<Rightarrow> 'c command_registry \<Rightarrow>
   string list \<Rightarrow> arg_spec list \<Rightarrow> bool \<Rightarrow> parse_outcome" where
  "parse_with_clap try_get_matches clap_root r args global_flags suggest =
     (case try_get_matches clap_root args of
        Ok matches \<Rightarrow>
          (let (path, leaf_matches) = extract_nested_command_path matches
           in case (case matched_command r path of
                      Some c \<Rightarrow> map_matches_to_typed_args (cmd_spec c) leaf_matches
                    | None \<Rightarrow> Ok []) of
                Err d \<Rightarrow> ParseError d
              | Ok typed \<Rightarrow> Parsed path typed (global_args_of global_flags leaf_matches))
      | Err e \<Rightarrow> parse_error_outcome clap_root suggest args e)"

section \<open>The application\<close>

datatype invocation_surface = SurfaceCli | SurfaceChat | SurfaceMcp | SurfaceApi

fun surface_as_str :: "invocation_surface \<Rightarrow> string" where
  "surface_as_str SurfaceCli = ''cli''"
| "surface_as_str SurfaceChat = ''chat''"
| "surface_as_str SurfaceMcp = ''mcp''"
| "surface_as_str SurfaceApi = ''api''"

text \<open>
  \<open>CliAppContextWrapper\<close>: the context of the application with what a command may read of its
  invocation, and the output it writes. The capture buffer and the real standard output
  receive the same bytes; \<open>ctx_captured\<close> says whether there is a buffer to drain.
\<close>

record 'x cli_context =
  ctx_inner :: 'x
  ctx_global_args :: typed_args
  ctx_surface :: invocation_surface
  ctx_captured :: bool
  ctx_stdout :: string

definition ctx_println :: "string \<Rightarrow> 'x cli_context \<Rightarrow> 'x cli_context" where
  "ctx_println s c = c \<lparr> ctx_stdout := ctx_stdout c @ s @ [newline] \<rparr>"

definition ctx_drain_output :: "'x cli_context \<Rightarrow> string \<times> 'x cli_context" where
  "ctx_drain_output c = (if ctx_captured c then (ctx_stdout c, c \<lparr> ctx_stdout := [] \<rparr>) else ([], c))"

type_synonym 'x cli_command = "'x cli_context command"

record 'x app =
  a_registry :: "'x cli_context command_registry"
  a_ctx :: 'x
  a_meta :: "app_meta option"
  a_name :: string
  a_version :: string
  a_git_sha_short :: "string option"
  a_clap_root :: clap_command
  a_global_flags :: "arg_spec list"
  a_environment :: env_registry
  a_captured :: bool
  a_suggest_corrections :: bool
  a_stdout :: string
  a_stderr :: "diagnostic list"

record cli_env =
  try_get_matches_from :: "clap_command \<Rightarrow> string list \<Rightarrow> clap_error + clap_matches"
  cli_regex :: regex_new
  cli_argv0 :: "string option"
  chat_feature :: bool

text \<open>
  The errors of a run. The error a body returns is opaque here; only \<open>run\<close> asks whether it is
  a \<open>UsageError\<close>, by a downcast.
\<close>

datatype app_error =
    UsageError fmt_text
  | CommandNotFound string
  | ChatFeatureDisabled
  | CommandFailed string

definition println :: "string \<Rightarrow> 'x app \<Rightarrow> 'x app" where
  "println s app = app \<lparr> a_stdout := a_stdout app @ s @ [newline] \<rparr>"

definition report_all :: "diagnostic list \<Rightarrow> 'x app \<Rightarrow> 'x app" where
  "report_all ds app = app \<lparr> a_stderr := a_stderr app @ ds \<rparr>"

definition should_show_help :: "string list \<Rightarrow> bool" where
  "should_show_help args \<longleftrightarrow>
     length args < 2 \<or> (case nth_arg args 1 of Some s \<Rightarrow> s = ''--help'' \<or> s = ''-h'' | None \<Rightarrow> False)"

definition with_after_help :: "string \<Rightarrow> clap_command \<Rightarrow> clap_command" where
  "with_after_help t c = ClapCommand (clap_name c) (clap_settings c @ [CS_Call (CC_AfterHelp t)]) (clap_subs c)"

definition rebuild_clap_root :: "'x app \<Rightarrow> 'x app" where
  "rebuild_clap_root app =
     (let clap_root = build_clap_root (a_meta app) (a_registry app) (a_name app) (a_version app)
                   (a_git_sha_short app) (a_global_flags app)
      in app \<lparr> a_clap_root :=
           (if a_environment app \<noteq> [] then with_after_help (env_render_help (a_environment app)) clap_root
            else clap_root) \<rparr>)"

definition has_categories :: "'x app \<Rightarrow> bool" where
  "has_categories app \<longleftrightarrow>
     list_ex (\<lambda>c. cmd_category c \<noteq> None) (root_commands (a_registry app)) \<or>
     list_ex (\<lambda>(path, m). CHR ''/'' \<notin> set path \<and> group_category m \<noteq> None) (groups (a_registry app))"

definition version_string :: "'x app \<Rightarrow> string" where
  "version_string app =
     format_display_version
       (case a_meta app of Some m \<Rightarrow> meta_name m | None \<Rightarrow> a_name app)
       (case a_meta app of Some m \<Rightarrow> meta_version m | None \<Rightarrow> a_version app) (a_git_sha_short app)"

definition render_help :: "string option \<Rightarrow> 'x app \<Rightarrow> string" where
  "render_help argv0 app =
     render_help_page argv0 (a_meta app) (a_registry app) (version_string app) (a_global_flags app)
       (a_environment app)"

definition show_help :: "string option \<Rightarrow> 'x app \<Rightarrow> 'x app" where
  "show_help argv0 app = app \<lparr> a_stdout := a_stdout app @ render_help argv0 app \<rparr>"

section \<open>Execution\<close>

definition execute_command_direct ::
  "'x cli_command \<Rightarrow> typed_args \<Rightarrow> typed_args \<Rightarrow> invocation_surface \<Rightarrow> 'x app \<Rightarrow> 'x app \<times> (app_error + unit)" where
  "execute_command_direct c args global_args surface app =
     (let ctx = \<lparr> ctx_inner = a_ctx app, ctx_global_args = global_args, ctx_surface = surface,
                  ctx_captured = a_captured app, ctx_stdout = a_stdout app \<rparr>;
          (ctx', outcome) = cmd_execute c ctx args
      in (app \<lparr> a_ctx := ctx_inner ctx', a_stdout := ctx_stdout ctx' \<rparr>, map_err CommandFailed outcome))"

definition validation_failed :: fmt_text where
  "validation_failed = Text ''validation failed'' []"

definition validate_and_execute ::
  "regex_new \<Rightarrow> 'x cli_command \<Rightarrow> typed_args \<Rightarrow> typed_args \<Rightarrow> 'x app \<Rightarrow> 'x app \<times> (app_error + unit)" where
  "validate_and_execute rx c args global_args app =
     (let diags = dispatch_validate rx c args
      in if diags \<noteq> [] then (report_all diags app, Err (UsageError validation_failed))
         else execute_command_direct c args global_args SurfaceCli app)"

definition execute_command ::
  "string \<Rightarrow> typed_args \<Rightarrow> 'x app \<Rightarrow> 'x app \<times> (app_error + unit)" where
  "execute_command cid args app =
     (case reg_get (a_registry app) cid of
        None \<Rightarrow> (app, Err (CommandNotFound cid))
      | Some c \<Rightarrow> execute_command_direct c args [] SurfaceCli app)"

definition execute_command_with_globals ::
  "regex_new \<Rightarrow> string \<Rightarrow> typed_args \<Rightarrow> typed_args \<Rightarrow> 'x app \<Rightarrow> 'x app \<times> (app_error + unit)" where
  "execute_command_with_globals rx cid args global_args app =
     (case reg_get (a_registry app) cid of
        None \<Rightarrow> (app, Err (CommandNotFound cid))
      | Some c \<Rightarrow> validate_and_execute rx c args global_args app)"

definition nested_not_found_diag :: "command_path \<Rightarrow> diagnostic" where
  "nested_not_found_diag path =
     \<lparr> diag_code = E_NESTED_COMMAND_NOT_FOUND, diag_category = DC_Parse,
       diag_message = Text ''nested command '{}' not found'' [FStr (to_path_string path)],
       diag_suggestion = Some (Text ''Use --help to see available commands'' []), diag_span = None \<rparr>"

text \<open>The arm of \<open>run_command\<close> for a parsed command line.\<close>

definition run_parsed ::
  "regex_new \<Rightarrow> command_path \<Rightarrow> typed_args \<Rightarrow> typed_args \<Rightarrow> 'x app \<Rightarrow> 'x app \<times> (app_error + unit)" where
  "run_parsed rx path args global_args app =
     (let cid = (case path_leaf path of Some s \<Rightarrow> s | None \<Rightarrow> [])
      in if cid = ''version'' \<and> reg_get (a_registry app) ''version'' = None
         then (println (version_string app) app, Ok ())
         else if 1 < length path then
           (case reg_resolve (a_registry app) path of
              Some c \<Rightarrow> validate_and_execute rx c args global_args app
            | None \<Rightarrow>
                (let d = nested_not_found_diag path
                 in (report_all [d] app, Err (UsageError (diag_message d)))))
         else execute_command_with_globals rx cid args global_args app)"

definition trim_end_ws :: "string \<Rightarrow> string" where
  "trim_end_ws s = rev (dropWhile is_ws (rev s))"

definition run_command :: "cli_env \<Rightarrow> string list \<Rightarrow> 'x app \<Rightarrow> 'x app \<times> (app_error + unit)" where
  "run_command env args app =
     (if should_show_help args \<and> has_categories app
      then (println (render_help (cli_argv0 env) app) app, Ok ())
      else case parse_with_clap (try_get_matches_from env) (a_clap_root app) (a_registry app) args
                  (a_global_flags app) (a_suggest_corrections app) of
        Parsed path typed global_args \<Rightarrow> run_parsed (cli_regex env) path typed global_args app
      | HelpShown t \<Rightarrow> (println (trim_end_ws t) app, Ok ())
      | VersionShown t \<Rightarrow> (println (trim_end_ws t) app, Ok ())
      | ParseError d \<Rightarrow>
          if \<not> chat_feature env \<and> diag_code d = E_UNKNOWN_COMMAND \<and> nth_arg args 1 = Some ''chat''
          then (app, Err ChatFeatureDisabled)
          else (report_all [d] app, Err (UsageError (diag_message d))))"

text \<open>\<open>App::run\<close>: a usage error, already reported, ends the process with status 2.\<close>

datatype run_result = ExitProcess int | Returned "app_error + unit"

definition is_usage_error :: "(string \<Rightarrow> bool) \<Rightarrow> app_error \<Rightarrow> bool" where
  "is_usage_error downcast e =
     (case e of UsageError _ \<Rightarrow> True | CommandFailed s \<Rightarrow> downcast s | _ \<Rightarrow> False)"

definition run_app :: "(string \<Rightarrow> bool) \<Rightarrow> cli_env \<Rightarrow> string list \<Rightarrow> 'x app \<Rightarrow> 'x app \<times> run_result" where
  "run_app downcast env argv app =
     (let (app', res) = run_command env argv app
      in (app', case res of
                  Err e \<Rightarrow> if is_usage_error downcast e then ExitProcess 2 else Returned (Err e)
                | Ok u \<Rightarrow> Returned (Ok u)))"

section \<open>What a command line runs\<close>

text \<open>
  What the dispatch relies on of \<open>clap\<close>: a parse that succeeds ends at a subcommand of the
  tree it was given that requires no further subcommand, and reports the names of the chain.
\<close>

definition clap_follows_tree :: "(clap_command \<Rightarrow> string list \<Rightarrow> clap_error + clap_matches) \<Rightarrow> bool" where
  "clap_follows_tree try_get_matches \<longleftrightarrow>
     (\<forall>c argv m. try_get_matches c argv = Ok m \<longrightarrow>
        clap_leaf c (fst (extract_nested_command_path m)) \<noteq> None)"

text \<open>
  An application as \<open>AppBuilder::build\<close> leaves it: its registry was built by registration, and
  the \<open>clap\<close> tree is that of the registry. Nothing lies below \<open>version\<close>, and a command
  whose last segment is \<open>version\<close> exists only beside a root command of that name.
\<close>

definition app_ok :: "'x app \<Rightarrow> bool" where
  "app_ok app \<longleftrightarrow>
     registry_reachable (a_registry app) \<and> clean_keys (a_registry app) \<and>
     \<not> path_has_descendants (a_registry app) ''version'' \<and> rebuild_clap_root app = app"

definition version_unshadowed :: "'c command_registry \<Rightarrow> bool" where
  "version_unshadowed r \<longleftrightarrow>
     (\<forall>p c. reg_resolve r (p @ [''version'']) = Some c \<longrightarrow> reg_get r ''version'' \<noteq> None)"

text \<open>
  What a command line asks for: the command registered at the path \<open>clap\<close> matched, with the
  arguments as its declaration types them, if they pass the checks of the declaration and of the
  command's own validator.
\<close>

definition requested ::
  "cli_env \<Rightarrow> string list \<Rightarrow> 'x app \<Rightarrow> ('x cli_command \<times> typed_args \<times> typed_args) option" where
  "requested env argv app =
     (if should_show_help argv \<and> has_categories app then None
      else case try_get_matches_from env (a_clap_root app) argv of
        Err _ \<Rightarrow> None
      | Ok m \<Rightarrow>
          (let (path, leaf_matches) = extract_nested_command_path m
           in case reg_resolve (a_registry app) path of
                None \<Rightarrow> None
              | Some c \<Rightarrow>
                  (case map_matches_to_typed_args (cmd_spec c) leaf_matches of
                     Err _ \<Rightarrow> None
                   | Ok args \<Rightarrow>
                       if dispatch_validate (cli_regex env) c args = []
                       then Some (c, args, global_args_of (a_global_flags app) leaf_matches) else None)))"

lemma clap_leaf_after_help:
  "CS_SubcommandRequired \<in> set (clap_settings c) \<Longrightarrow> clap_leaf (with_after_help t c) p = clap_leaf c p"
  by (cases p) (auto simp: clap_leaf_Cons clap_sub_def clap_leaf_def [of _ "[]"] with_after_help_def)

lemma root_requires_subcommand:
  "CS_SubcommandRequired \<in> set (clap_settings (build_clap_root meta r name version sha gf))"
  by (simp add: build_clap_root_def Let_def)

lemma app_clap_leaf:
  assumes "app_ok app"
  shows "clap_leaf (a_clap_root app) p =
     (if p = [''version''] \<and> reg_get (a_registry app) ''version'' = None then Some builtin_version
      else if segments_ok p then map_option (build_leaf_clap_command (last p)) (reg_resolve (a_registry app) p)
      else None)"
proof -
  have "clap_leaf (a_clap_root (rebuild_clap_root app)) p =
      clap_leaf (build_clap_root (a_meta app) (a_registry app) (a_name app) (a_version app)
        (a_git_sha_short app) (a_global_flags app)) p"
    by (simp add: rebuild_clap_root_def Let_def clap_leaf_after_help root_requires_subcommand)
  then show ?thesis using assms unfolding app_ok_def by (simp add: clap_leaf_root)
qed

lemma matched_path:
  assumes "app_ok app" "clap_follows_tree (try_get_matches_from env)"
    and "try_get_matches_from env (a_clap_root app) argv = Ok m" "extract_nested_command_path m = (p, lm)"
  shows "p \<noteq> [] \<and> (p = [''version''] \<and> reg_get (a_registry app) ''version'' = None \<or>
                    reg_resolve (a_registry app) p \<noteq> None)"
proof -
  have "clap_leaf (a_clap_root app) p \<noteq> None"
    using assms(2-4) unfolding clap_follows_tree_def by (metis fst_conv)
  then show ?thesis
    unfolding app_clap_leaf [OF assms(1)] by (auto simp: segments_ok_def split: if_splits)
qed

lemma reg_get_singleton: "reg_get r s = reg_resolve r [s]"
  by (simp add: reg_get_def reg_resolve_def to_path_string_def)

lemma matched_command_eq: "p \<noteq> [] \<Longrightarrow> matched_command r p = reg_resolve r p"
  by (cases p; cases "tl p") (auto simp: matched_command_def path_leaf_def reg_get_singleton)

lemma run_parsed_registered:
  assumes "reg_resolve (a_registry app) p = Some c" "p \<noteq> []" "version_unshadowed (a_registry app)"
  shows "run_parsed rx p args g app = validate_and_execute rx c args g app"
proof -
  have "last p = ''version'' \<Longrightarrow> reg_get (a_registry app) ''version'' \<noteq> None"
    using assms unfolding version_unshadowed_def by (metis append_butlast_last_id)
  moreover have "length p \<le> 1 \<Longrightarrow> p = [last p]" using assms(2) by (cases p) auto
  ultimately show ?thesis
    using assms by (auto simp: run_parsed_def Let_def path_leaf_def execute_command_with_globals_def
        reg_get_singleton split: option.splits)
qed

text \<open>A run that reaches no body: it answers, or reports why not, and leaves the context alone.\<close>

definition answered_without_body ::
  "cli_env \<Rightarrow> string list \<Rightarrow> 'x app \<Rightarrow> 'x app \<times> (app_error + unit) \<Rightarrow> bool" where
  "answered_without_body env argv app result \<longleftrightarrow>
     (let (app', res) = result
      in (\<exists>t. app' = app \<lparr> a_stdout := a_stdout app @ t \<rparr> \<and> res = Ok ()) \<or>
         (\<exists>ds msg. ds \<noteq> [] \<and> app' = app \<lparr> a_stderr := a_stderr app @ ds \<rparr> \<and> res = Err (UsageError msg)) \<or>
         (app' = app \<and> res = Err ChatFeatureDisabled \<and> \<not> chat_feature env \<and> nth_arg argv 1 = Some ''chat''))"

lemma answered_println [simp]: "answered_without_body env argv app (println t app, Ok ())"
  by (auto simp: answered_without_body_def println_def)

lemma answered_report [simp]: "ds \<noteq> [] \<Longrightarrow> answered_without_body env argv app (report_all ds app, Err (UsageError msg))"
  by (auto simp: answered_without_body_def report_all_def)

lemma answered_parse_error:
  "answered_without_body env argv app
     (if \<not> chat_feature env \<and> diag_code d = E_UNKNOWN_COMMAND \<and> nth_arg argv 1 = Some ''chat''
      then (app, Err ChatFeatureDisabled) else (report_all [d] app, Err (UsageError (diag_message d))))"
  by (auto simp: answered_without_body_def report_all_def)

lemma run_matched:
  assumes "app_ok app" "clap_follows_tree (try_get_matches_from env)" "version_unshadowed (a_registry app)"
    and no_help: "\<not> (should_show_help argv \<and> has_categories app)"
    and m: "try_get_matches_from env (a_clap_root app) argv = Ok m" "extract_nested_command_path m = (p, lm)"
  shows "(case requested env argv app of
            Some (c, args, g) \<Rightarrow> run_command env argv app = execute_command_direct c args g SurfaceCli app
          | None \<Rightarrow> answered_without_body env argv app (run_command env argv app))"
proof (cases "reg_resolve (a_registry app) p")
  case None
  then have p: "p = [''version'']" and v: "reg_get (a_registry app) ''version'' = None"
    using matched_path [OF assms(1,2) m] by auto
  have "requested env argv app = None" using m None by (simp add: requested_def)
  moreover have "run_command env argv app = (println (version_string app) app, Ok ())"
    using no_help m p v by (auto simp: run_command_def parse_with_clap_def matched_command_def path_leaf_def run_parsed_def)
  ultimately show ?thesis by simp
next
  case (Some c)
  have p: "p \<noteq> []" using matched_path [OF assms(1,2) m] by simp
  show ?thesis
  proof (cases "map_matches_to_typed_args (cmd_spec c) lm")
    case (Inl d)
    then show ?thesis
      using no_help m Some p answered_parse_error [of env argv app d]
      by (auto simp: requested_def run_command_def parse_with_clap_def matched_command_eq)
  next
    case (Inr args)
    have "run_command env argv app =
        validate_and_execute (cli_regex env) c args (global_args_of (a_global_flags app) lm) app"
      using no_help m Some p Inr run_parsed_registered [OF Some p assms(3)]
      by (auto simp: run_command_def parse_with_clap_def matched_command_eq)
    then show ?thesis
      using no_help m Some Inr by (auto simp: requested_def validate_and_execute_def Let_def)
  qed
qed

lemma requested_typed: "requested env argv app = Some (c, args, g) \<Longrightarrow> args_typed (spec_args (cmd_spec c)) args"
  by (auto simp: requested_def Let_def intro: map_matches_typed split: if_splits sum.splits prod.splits option.splits)

lemma run_unmatched:
  assumes "try_get_matches_from env (a_clap_root app) argv = Err e"
  shows "answered_without_body env argv app (run_command env argv app) \<and> requested env argv app = None"
  using assms answered_parse_error [of env argv app]
  by (auto simp: requested_def run_command_def parse_with_clap_def parse_error_outcome_def
      split: clap_error_kind.splits)

text \<open>
  C26. From the command line to the body. The body of a command runs iff the command line names that
  command by its registered path, its arguments convert to the declared types and pass the
  declared checks and the command's validator; it then runs once, on the application's context
  and exactly these arguments, all of them declared and typed. In every other case the context is
  untouched and the run prints an answer, or reports at least one diagnostic and ends in a usage
  error, or says that \<open>chat\<close> is not built in: no registered command is ever reported
  as missing.
\<close>

theorem cli_runs_requested_command:
  assumes "app_ok app" "version_unshadowed (a_registry app)" "clap_follows_tree (try_get_matches_from env)"
  shows "case requested env argv app of
           Some (c, args, g) \<Rightarrow>
             (\<exists>ctx' outcome.
                cmd_execute c \<lparr> ctx_inner = a_ctx app, ctx_global_args = g, ctx_surface = SurfaceCli,
                               ctx_captured = a_captured app, ctx_stdout = a_stdout app \<rparr> args = (ctx', outcome) \<and>
                run_command env argv app =
                  (app \<lparr> a_ctx := ctx_inner ctx', a_stdout := ctx_stdout ctx' \<rparr>, map_err CommandFailed outcome)) \<and>
             args_typed (spec_args (cmd_spec c)) args \<and> dispatch_validate (cli_regex env) c args = []
         | None \<Rightarrow> answered_without_body env argv app (run_command env argv app)"
proof -
  have run: "case requested env argv app of
      Some (c, args, g) \<Rightarrow> run_command env argv app = execute_command_direct c args g SurfaceCli app
    | None \<Rightarrow> answered_without_body env argv app (run_command env argv app)"
  proof (cases "should_show_help argv \<and> has_categories app")
    case True
    then show ?thesis by (simp add: requested_def run_command_def)
  next
    case no_help: False
    show ?thesis
    proof (cases "try_get_matches_from env (a_clap_root app) argv")
      case (Inl e)
      then show ?thesis using run_unmatched [OF Inl] by simp
    next
      case (Inr m)
      obtain p lm where "extract_nested_command_path m = (p, lm)" by fastforce
      with assms no_help Inr show ?thesis by (intro run_matched)
    qed
  qed
  have valid: "dispatch_validate (cli_regex env) c args = []" if "requested env argv app = Some (c, args, g)" for c args g
    using that by (auto simp: requested_def Let_def split: if_splits sum.splits prod.splits option.splits)
  show ?thesis
    using run valid requested_typed [of env argv app]
    by (auto simp: execute_command_direct_def Let_def split: option.splits prod.splits)
qed

definition sample_cli_command :: "nat cli_command" where
  "sample_cli_command =
     \<lparr> cmd_id = ''show'', cmd_spec = sample_spec, cmd_validator = None,
       cmd_execute = (\<lambda>c _. (c \<lparr> ctx_inner := ctx_inner c + 1 \<rparr>, Ok ())), cmd_expose_mcp = False,
       cmd_expose_chat = True, cmd_meta = None, cmd_visibility = None \<rparr>"

definition sample_app_at :: "string list \<Rightarrow> nat app" where
  "sample_app_at p =
     rebuild_clap_root
       \<lparr> a_registry = registry_new \<lparr> tree_commands := [(str_join ''/'' p, sample_cli_command)] \<rparr>,
         a_ctx = 0, a_meta = None, a_name = ''app'', a_version = ''1.0'', a_git_sha_short = None,
         a_clap_root = ClapCommand [] [] [], a_global_flags = [], a_environment = [], a_captured = True,
         a_suggest_corrections = True, a_stdout = [], a_stderr = [] \<rparr>"

definition sample_clap :: "string list \<Rightarrow> clap_command \<Rightarrow> string list \<Rightarrow> clap_error + clap_matches" where
  "sample_clap p c argv =
     (if argv = ''app'' # p \<and> clap_leaf c p \<noteq> None
      then Ok (foldr (\<lambda>s m. ClapMatches sample_matches (Some (s, m))) p (ClapMatches sample_matches None))
      else Err \<lparr> ce_kind = OtherErrorKind, ce_context = [], ce_text = [] \<rparr>)"

definition sample_cli_env :: "string list \<Rightarrow> cli_env" where
  "sample_cli_env p =
     \<lparr> try_get_matches_from = sample_clap p, cli_regex = (\<lambda>_. Err []), cli_argv0 = None, chat_feature = True \<rparr>"

lemma walk_chain:
  "walk_subcommands (foldr (\<lambda>s m. ClapMatches a (Some (s, m))) p (ClapMatches a None)) segs = (segs @ p, a)"
  by (induction p arbitrary: segs) simp_all

lemma sample_clap_follows: "clap_follows_tree (sample_clap p)"
  by (auto simp: clap_follows_tree_def sample_clap_def extract_nested_command_path_def walk_chain split: if_splits)

lemma sample_app_registry [simp]:
  "a_registry (sample_app_at p) = registry_new \<lparr> tree_commands := [(str_join ''/'' p, sample_cli_command)] \<rparr>"
  by (simp add: sample_app_at_def rebuild_clap_root_def Let_def)

lemma sample_app_rebuilt: "rebuild_clap_root (sample_app_at p) = sample_app_at p"
  by (simp add: sample_app_at_def rebuild_clap_root_def Let_def)

lemma sample_app_ok: "app_ok (sample_app_at [''config'', s])"
  if "s \<noteq> []" "CHR ''/'' \<notin> set s"
proof -
  let ?r = "registry_new \<lparr> tree_commands := [(str_join ''/'' [''config'', s], sample_cli_command)] \<rparr>"
  have "register_at [''config'', s] sample_cli_command registry_new = Ok ?r"
    by (simp add: register_at_eval sample_cli_command_def sample_spec_def)
  then have "registry_reachable ?r" by (rule reach_at [OF reach_new, rotated]) (use that in simp)
  moreover have "clean_keys ?r"
    using that by (simp add: clean_keys_def nodes_def registry_new_def split_single)
  moreover have "\<not> path_has_descendants ?r ''version''"
    by (simp add: path_has_descendants_def registry_new_def starts_with_def)
  ultimately show ?thesis by (simp add: app_ok_def sample_app_rebuilt)
qed

lemma sample_validates:
  "dispatch_validate rx sample_cli_command
     [(''port'', AV_List [AV_Int 80, AV_Int (-1)]), (''format'', AV_Enum ''json'')] = []"
  by (simp add: dispatch_validate_def sample_cli_command_def validate_typed_args_def sample_spec_def
      command_spec_default_def arg_spec_default_def check_required_def check_type_def check_constraints_def
      check_conflicts_def check_requires_def)

lemma join_last_char: "str_join sep (p @ [s]) = t \<Longrightarrow> s \<noteq> [] \<Longrightarrow> last t = last s"
  by (cases "p = []") (auto simp: join_append)

theorem cli_runs_requested_command_witness:
  "a_ctx (fst (run_command (sample_cli_env [''config'', ''show'']) [''app'', ''config'', ''show'']
             (sample_app_at [''config'', ''show'']))) = 1"
proof -
  let ?p = "[''config'', ''show'']" and ?args = "[(''port'', AV_List [AV_Int 80, AV_Int (-1)]), (''format'', AV_Enum ''json'')]"
  let ?app = "sample_app_at ?p" and ?env = "sample_cli_env ?p" and ?argv = "''app'' # ?p"
  have ok: "app_ok ?app" by (rule sample_app_ok) simp_all
  have res: "reg_resolve (a_registry ?app) ?p = Some sample_cli_command"
    by (simp add: reg_resolve_def to_path_string_def)
  have "clap_leaf (a_clap_root ?app) ?p \<noteq> None"
    using app_clap_leaf [OF ok, of ?p] res by (simp add: segments_ok_def)
  then have "extract_nested_command_path (projr (try_get_matches_from ?env (a_clap_root ?app) ?argv)) = (?p, sample_matches)"
    and ok_m: "\<exists>m. try_get_matches_from ?env (a_clap_root ?app) ?argv = Ok m"
    using walk_chain [of sample_matches ?p "[]"]
    by (simp_all add: sample_cli_env_def sample_clap_def extract_nested_command_path_def)
  then have req: "requested ?env ?argv ?app = Some (sample_cli_command, ?args, [])"
    using res sample_map_matches sample_validates
    by (auto simp: requested_def should_show_help_def nth_arg_def sample_cli_command_def
        global_args_of_def sample_app_at_def rebuild_clap_root_def Let_def simp del: sample_app_registry)
  have shadow: "version_unshadowed (a_registry ?app)"
    by (auto simp: version_unshadowed_def reg_resolve_def to_path_string_def dest: join_last_char)
  have "a_ctx ?app = 0" by (simp add: sample_app_at_def rebuild_clap_root_def Let_def)
  then show ?thesis
    using cli_runs_requested_command [OF ok shadow, of ?env ?argv] req sample_clap_follows
    by (auto simp: sample_cli_env_def sample_cli_command_def)
qed

section \<open>Where the dispatch departs from the registry\<close>

text \<open>
  \<open>run_command\<close> compares only the last segment of the path with \<open>version\<close>: a command
  registered at \<open>config/version\<close> is never run, the application's version is printed instead.
\<close>

theorem nested_version_shadowed:
  "reg_resolve (a_registry (sample_app_at [''config'', ''version''])) [''config'', ''version''] = Some sample_cli_command \<and>
   run_command (sample_cli_env [''config'', ''version'']) [''app'', ''config'', ''version'']
     (sample_app_at [''config'', ''version'']) =
     (println ''app 1.0'' (sample_app_at [''config'', ''version'']), Ok ())"
proof -
  let ?p = "[''config'', ''version'']"
  let ?app = "sample_app_at ?p" and ?env = "sample_cli_env ?p" and ?argv = "''app'' # ?p"
  have ok: "app_ok ?app" by (rule sample_app_ok) simp_all
  have res: "reg_resolve (a_registry ?app) ?p = Some sample_cli_command"
    by (simp add: reg_resolve_def to_path_string_def)
  have "clap_leaf (a_clap_root ?app) ?p \<noteq> None"
    using app_clap_leaf [OF ok, of ?p] res by (simp add: segments_ok_def)
  then have m: "try_get_matches_from ?env (a_clap_root ?app) ?argv =
      Ok (foldr (\<lambda>s m. ClapMatches sample_matches (Some (s, m))) ?p (ClapMatches sample_matches None))"
    by (simp add: sample_cli_env_def sample_clap_def)
  have "\<exists>typed. map_matches_to_typed_args (cmd_spec sample_cli_command) sample_matches = Ok typed"
    using sample_map_matches by (simp add: sample_cli_command_def)
  then obtain typed where "parse_with_clap (try_get_matches_from ?env) (a_clap_root ?app) (a_registry ?app) ?argv
      (a_global_flags ?app) (a_suggest_corrections ?app) = Parsed ?p typed (global_args_of (a_global_flags ?app) sample_matches)"
    using m res by (auto simp: parse_with_clap_def extract_nested_command_path_def matched_command_def)
  moreover have "reg_get (a_registry ?app) ''version'' = None" by (simp add: reg_get_def)
  moreover have "version_string ?app = ''app 1.0''"
    by (simp add: version_string_def sample_app_at_def rebuild_clap_root_def Let_def
        format_display_version_def sanitize_git_sha_short_def)
  ultimately have "run_command ?env ?argv ?app = (println ''app 1.0'' ?app, Ok ())"
    by (simp add: run_command_def should_show_help_def nth_arg_def run_parsed_def path_leaf_def)
  with res show ?thesis by (intro conjI)
qed

text \<open>
  A global option whose value does not convert is not reported: \<open>parse_with_clap\<close> replaces
  the error by an empty map, so the other global options and their defaults are lost with it.
\<close>

definition sample_globals :: "arg_spec list" where
  "sample_globals =
     [arg_spec_default \<lparr> arg_name := ''profile'', arg_kind := AK_Option, arg_default := Some (AV_Str ''prod'') \<rparr>,
      arg_spec_default \<lparr> arg_name := ''port'', arg_kind := AK_Option, arg_value_type := VT_Int \<rparr>]"

theorem global_value_error_dropped:
  "map_matches_to_typed_args (command_spec_default \<lparr> spec_args := sample_globals \<rparr>)
       (sample_matches \<lparr> get_one := (\<lambda>_. Some ''http'') \<rparr>) = Err (type_error ''port'' ''http'' ''integer'') \<and>
   global_args_of sample_globals (sample_matches \<lparr> get_one := (\<lambda>_. Some ''http'') \<rparr>) = []"
  by code_simp

text \<open>
  Every error of \<open>clap\<close> outside the five kinds the code names, such as an option given without
  its value, is reported as an unknown command, whether or not the command is registered.
\<close>

theorem clap_error_reported_as_unknown:
  assumes "try_get_matches clap_root [prog, cmd, ''--port''] = Err e" "ce_kind e = OtherErrorKind"
  shows "\<exists>d. parse_with_clap try_get_matches clap_root r [prog, cmd, ''--port''] gf suggest = ParseError d \<and>
     diag_code d = E_UNKNOWN_COMMAND \<and>
     diag_message d = Text (''unrecognized subcommand '{}'' @ [CHR 0x27]) [FStr cmd]"
  using assms by (simp add: parse_with_clap_def parse_error_outcome_def command_not_found_diag_def
      is_nested_attempt_def nth_arg_def starts_with_def Let_def)

end
