(* ===== verification/Tool_Bridge.thy ===== *)
theory Tool_Bridge
  imports Command_Registry
begin

text \<open>
  Running a command on behalf of a chat agent or an MCP client
  (\<open>src/command_surface/tool_bridge.rs\<close>): arguments from JSON (\<open>src/mcp/mod.rs\<close>),
  risk tiers and the preflight check (\<open>src/security\<close>), confirmation, and the
  execution gate.

  What the process reads from outside is the record \<open>process_env\<close>: whether standard input
  and output are terminals, the variable \<open>ALLOW_DESTRUCTIVE_COMMANDS\<close>, and the line
  standard input gives the confirmation prompt. Draining the captured output of a context is a
  pair of functions of the record \<open>app_context_ops\<close>, the methods of the \<open>AppContext\<close>
  trait the bridge calls.
\<close>

section \<open>Risk\<close>

datatype command_risk_tier = Safe | Sensitive | Destructive

record command_risk_policy =
  risk_tiers :: "(string, command_risk_tier) hash_map"
  default_tier :: command_risk_tier

definition command_risk_policy_default :: command_risk_policy where
  "command_risk_policy_default = \<lparr> risk_tiers = [], default_tier = Safe \<rparr>"

definition classify :: "command_risk_policy \<Rightarrow> string \<Rightarrow> string option \<Rightarrow> command_risk_tier" where
  "classify policy command_id category =
     (case map_of (risk_tiers policy) command_id of
        Some tier \<Rightarrow> tier
      | None \<Rightarrow>
          if category \<in> {Some ''deployment'', Some ''admin'', Some ''destructive''} then Destructive
          else if category \<in> {Some ''data'', Some ''config''} then Sensitive
          else default_tier policy)"

record process_env =
  stdin_tty :: bool
  stdout_tty :: bool
  allow_destructive_var :: "string option"
  stdin_line :: "string + string"

definition is_interactive :: "process_env \<Rightarrow> bool" where
  "is_interactive env \<longleftrightarrow> stdin_tty env \<and> stdout_tty env"

datatype preflight_error =
    SensitiveNeedsConfirmation
  | DestructiveEnvGated
  | DestructiveNeedsInteractive

definition env_allowed :: "process_env \<Rightarrow> bool" where
  "env_allowed env \<longleftrightarrow>
     (case allow_destructive_var env of None \<Rightarrow> False | Some v \<Rightarrow> v = ''1'' \<or> v = ''true'')"

definition enforce_preflight ::
  "command_risk_policy \<Rightarrow> process_env \<Rightarrow> string \<Rightarrow> string option \<Rightarrow> bool \<Rightarrow> preflight_error + unit" where
  "enforce_preflight policy env command_id category assume_yes =
     (case classify policy command_id category of
        Safe \<Rightarrow> Ok ()
      | Sensitive \<Rightarrow>
          if \<not> is_interactive env \<and> \<not> assume_yes then Err SensitiveNeedsConfirmation else Ok ()
      | Destructive \<Rightarrow>
          if \<not> env_allowed env then Err DestructiveEnvGated
          else if \<not> is_interactive env then Err DestructiveNeedsInteractive
          else Ok ())"

datatype gate_error = Denied string | Failed string

type_synonym 'c execution_gate = "'c command \<Rightarrow> typed_args \<Rightarrow> command_risk_tier \<Rightarrow> gate_error + unit"

section \<open>Arguments from JSON\<close>

fun json_value_to_arg_value :: "json \<Rightarrow> arg_value option" where
  "json_value_to_arg_value (JBool b) = Some (AV_Bool b)"
| "json_value_to_arg_value (JNum n) =
     (case num_as_i64 n of
        Some i \<Rightarrow> Some (AV_Int i)
      | None \<Rightarrow> map_option AV_Float (as_f64 (JNum n)))"
| "json_value_to_arg_value (JStr s) = Some (AV_Str s)"
| "json_value_to_arg_value (JArr arr) = Some (AV_List (List.map_filter json_value_to_arg_value arr))"
| "json_value_to_arg_value _ = None"

definition json_value_to_typed_map :: "json_map \<Rightarrow> typed_args" where
  "json_value_to_typed_map obj =
     hm_of_list
       (List.map_filter (\<lambda>(k, v). map_option (Pair k) (json_value_to_arg_value v))
          (filter (\<lambda>(k, _). k \<noteq> ''_positional'') obj))"

section \<open>The bridge\<close>

datatype bridge_input = InJson json | InArgs typed_args

datatype confirmation_mode = AssumeYes | InteractiveStdin | NonInteractive

datatype bridge_mode = Interactive | Mcp

datatype block_reason = UserDeclined | NeedsInteractive | EnvGated

record 'c bridge_invocation =
  inv_command :: "'c command"
  inv_input :: bridge_input
  inv_confirmation :: confirmation_mode
  inv_mode :: bridge_mode

record bridge_output =
  out_text :: string
  out_structured :: "json option"

datatype bridge_error =
    ToolNotFound string
  | ArgValidation fmt_text
  | SensitiveRequiresConfirmation string block_reason
  | DestructiveBlocked string block_reason
  | GateDenied string
  | GateFailed string
  | ExecutionError string

record 'c bridge =
  risk_policy :: command_risk_policy
  gate :: "'c execution_gate option"

record 'c app_context_ops =
  drain_output :: "'c \<Rightarrow> 'c \<times> string"
  drain_structured_content :: "'c \<Rightarrow> 'c \<times> json option"

definition parse_args :: "bridge_input \<Rightarrow> typed_args" where
  "parse_args input =
     (case input of
        InArgs args \<Rightarrow> args
      | InJson value \<Rightarrow>
          (case as_object value of Some obj \<Rightarrow> json_value_to_typed_map obj | None \<Rightarrow> []))"

definition prompt_confirm_blocking :: "process_env \<Rightarrow> string + bool" where
  "prompt_confirm_blocking env =
     (case stdin_line env of
        Err e \<Rightarrow> Err e
      | Ok line \<Rightarrow>
          (let s = map (\<lambda>c. let n = (of_char c :: nat) in
                       if 65 \<le> n \<and> n \<le> 90 then char_of (n + 32) else c) (str_trim line)
           in Ok (s = ''y'' \<or> s = ''yes'')))"

definition request_confirmation ::
  "process_env \<Rightarrow> confirmation_mode \<Rightarrow> 'c command \<Rightarrow> bool \<Rightarrow> bridge_error + unit" where
  "request_confirmation env mode cmd destructive =
     (let blocked = (\<lambda>reason. if destructive then Err (DestructiveBlocked (cmd_id cmd) reason)
                              else Err (SensitiveRequiresConfirmation (cmd_id cmd) reason))
      in case mode of
        AssumeYes \<Rightarrow> Ok ()
      | InteractiveStdin \<Rightarrow>
          and_then (map_err ExecutionError (prompt_confirm_blocking env))
            (\<lambda>confirmed. if confirmed then Ok () else blocked UserDeclined)
      | NonInteractive \<Rightarrow> blocked NeedsInteractive)"

text \<open>The command itself, then what it left in the capture buffers.\<close>

definition run_command :: "'c app_context_ops \<Rightarrow> 'c \<Rightarrow> 'c command \<Rightarrow> typed_args \<Rightarrow> 'c \<times> (bridge_error + bridge_output)" where
  "run_command ops ctx cmd args =
     (case cmd_execute cmd ctx args of
        (ctx1, Err e) \<Rightarrow> (ctx1, Err (ExecutionError e))
      | (ctx1, Ok _) \<Rightarrow>
          (let (ctx2, t) = drain_output ops ctx1; (ctx3, s) = drain_structured_content ops ctx2
           in (ctx3, Ok \<lparr> out_text = t, out_structured = s \<rparr>)))"

definition invoke_inner ::
  "'c app_context_ops \<Rightarrow> 'c bridge \<Rightarrow> 'c \<Rightarrow> 'c command \<Rightarrow> typed_args \<Rightarrow> command_risk_tier \<Rightarrow>
   'c \<times> (bridge_error + bridge_output)" where
  "invoke_inner ops b ctx cmd args tier =
     (case (case gate b of
              None \<Rightarrow> Ok ()
            | Some g \<Rightarrow>
                map_err (\<lambda>e. case e of Denied reason \<Rightarrow> GateDenied reason | Failed reason \<Rightarrow> GateFailed reason)
                  (g cmd args tier)) of
        Err e \<Rightarrow> (ctx, Err e)
      | Ok _ \<Rightarrow>
          run_command ops ctx cmd args)"

definition preflight_block :: "string \<Rightarrow> preflight_error \<Rightarrow> bridge_error" where
  "preflight_block cid e =
     (case e of
        SensitiveNeedsConfirmation \<Rightarrow> SensitiveRequiresConfirmation cid NeedsInteractive
      | DestructiveEnvGated \<Rightarrow> DestructiveBlocked cid EnvGated
      | DestructiveNeedsInteractive \<Rightarrow> DestructiveBlocked cid NeedsInteractive)"

text \<open>The guards of \<open>invoke_interactive\<close>, from the preflight to the confirmation.\<close>

definition interactive_guards ::
  "command_risk_policy \<Rightarrow> process_env \<Rightarrow> 'c command \<Rightarrow> confirmation_mode \<Rightarrow> bridge_error + unit" where
  "interactive_guards policy env cmd confirmation =
     (let tier = classify policy (cmd_id cmd) (cmd_category cmd);
          assume_yes = (confirmation = AssumeYes)
      in and_then
           (map_err (preflight_block (cmd_id cmd))
              (enforce_preflight policy env (cmd_id cmd) (cmd_category cmd) assume_yes))
           (\<lambda>_. if assume_yes then Ok ()
                else case tier of
                  Safe \<Rightarrow> Ok ()
                | Sensitive \<Rightarrow> request_confirmation env confirmation cmd False
                | Destructive \<Rightarrow> request_confirmation env confirmation cmd True))"

definition invoke_interactive ::
  "regex_new \<Rightarrow> 'c app_context_ops \<Rightarrow> process_env \<Rightarrow> 'c bridge \<Rightarrow> 'c \<Rightarrow> 'c bridge_invocation \<Rightarrow>
   'c \<times> (bridge_error + bridge_output)" where
  "invoke_interactive rx ops env b ctx ivk =
     (let cmd = inv_command ivk; args = parse_args (inv_input ivk)
      in case dispatch_validate rx cmd args of
           d # _ \<Rightarrow> (ctx, Err (ArgValidation (diag_message d)))
         | [] \<Rightarrow>
             (case interactive_guards (risk_policy b) env cmd (inv_confirmation ivk) of
                Err e \<Rightarrow> (ctx, Err e)
              | Ok _ \<Rightarrow>
                  invoke_inner ops b ctx cmd args
                    (classify (risk_policy b) (cmd_id cmd) (cmd_category cmd))))"

definition invoke_mcp ::
  "regex_new \<Rightarrow> 'c app_context_ops \<Rightarrow> 'c bridge \<Rightarrow> 'c \<Rightarrow> 'c bridge_invocation \<Rightarrow>
   'c \<times> (bridge_error + bridge_output)" where
  "invoke_mcp rx ops b ctx ivk =
     (let cmd = inv_command ivk; args = parse_args (inv_input ivk)
      in case dispatch_validate rx cmd args of
           d # _ \<Rightarrow> (ctx, Err (ArgValidation (diag_message d)))
         | [] \<Rightarrow>
             invoke_inner ops b ctx cmd args
               (classify (risk_policy b) (cmd_id cmd) (cmd_category cmd)))"

definition invoke_structured ::
  "regex_new \<Rightarrow> 'c app_context_ops \<Rightarrow> process_env \<Rightarrow> 'c bridge \<Rightarrow> 'c \<Rightarrow> 'c bridge_invocation \<Rightarrow>
   'c \<times> (bridge_error + bridge_output)" where
  "invoke_structured rx ops env b ctx ivk =
     (case inv_mode ivk of
        Interactive \<Rightarrow> invoke_interactive rx ops env b ctx ivk
      | Mcp \<Rightarrow> invoke_mcp rx ops b ctx ivk)"

section \<open>When a command runs\<close>

text \<open>
  The conditions under which the bridge may run a command, read off the documentation:
  valid arguments and the consent of the gate in both modes; in interactive mode also the
  conditions of the command's tier.
\<close>

definition user_confirmed :: "process_env \<Rightarrow> confirmation_mode \<Rightarrow> bool" where
  "user_confirmed env mode \<longleftrightarrow> mode = InteractiveStdin \<and> prompt_confirm_blocking env = Ok True"

definition tier_permits :: "process_env \<Rightarrow> confirmation_mode \<Rightarrow> command_risk_tier \<Rightarrow> bool" where
  "tier_permits env mode tier =
     (case tier of
        Safe \<Rightarrow> True
      | Sensitive \<Rightarrow> mode = AssumeYes \<or> (is_interactive env \<and> user_confirmed env mode)
      | Destructive \<Rightarrow>
          env_allowed env \<and> is_interactive env \<and> (mode = AssumeYes \<or> user_confirmed env mode))"

definition gate_permits :: "'c bridge \<Rightarrow> 'c command \<Rightarrow> typed_args \<Rightarrow> command_risk_tier \<Rightarrow> bool" where
  "gate_permits b cmd args tier =
     (case gate b of None \<Rightarrow> True | Some g \<Rightarrow> g cmd args tier = Ok ())"

definition may_run :: "regex_new \<Rightarrow> process_env \<Rightarrow> 'c bridge \<Rightarrow> 'c bridge_invocation \<Rightarrow> bool" where
  "may_run rx env b ivk \<longleftrightarrow>
     (let cmd = inv_command ivk; args = parse_args (inv_input ivk);
          tier = classify (risk_policy b) (cmd_id cmd) (cmd_category cmd)
      in dispatch_validate rx cmd args = [] \<and> gate_permits b cmd args tier \<and>
         (inv_mode ivk = Interactive \<longrightarrow> tier_permits env (inv_confirmation ivk) tier))"

lemma request_confirmation_Ok_iff:
  "request_confirmation env mode cmd d = Ok () \<longleftrightarrow> mode = AssumeYes \<or> user_confirmed env mode"
  by (cases mode) (auto simp: request_confirmation_def Let_def user_confirmed_def and_then_Ok_iff split: if_splits)

lemma interactive_guards_Ok_iff:
  "interactive_guards policy env cmd mode = Ok () \<longleftrightarrow>
     tier_permits env mode (classify policy (cmd_id cmd) (cmd_category cmd))"
  by (cases "classify policy (cmd_id cmd) (cmd_category cmd)")
    (auto simp: interactive_guards_def Let_def enforce_preflight_def tier_permits_def and_then_def
      user_confirmed_def request_confirmation_Ok_iff split: sum.splits)

lemma invoke_inner_permitted:
  "gate_permits b cmd args tier \<Longrightarrow> invoke_inner ops b ctx cmd args tier = run_command ops ctx cmd args"
  by (cases "gate b") (simp_all add: gate_permits_def invoke_inner_def)

lemma invoke_inner_refused:
  assumes "\<not> gate_permits b cmd args tier"
  shows "\<exists>e. invoke_inner ops b ctx cmd args tier = (ctx, Err e)"
proof -
  obtain g e where "gate b = Some g" "g cmd args tier = Err e"
    using assms by (auto simp: gate_permits_def split: option.splits) (metis old.unit.exhaust sum.exhaust)
  then show ?thesis by (simp add: invoke_inner_def)
qed

lemma bridge_outcome:
  "(may_run rx env b ivk \<longrightarrow>
      invoke_structured rx ops env b ctx ivk =
        run_command ops ctx (inv_command ivk) (parse_args (inv_input ivk))) \<and>
   (\<not> may_run rx env b ivk \<longrightarrow> (\<exists>e. invoke_structured rx ops env b ctx ivk = (ctx, Err e)))"
proof (cases "dispatch_validate rx (inv_command ivk) (parse_args (inv_input ivk))")
  case (Cons d ds)
  then show ?thesis
    by (cases "inv_mode ivk")
      (simp_all add: may_run_def Let_def invoke_structured_def invoke_interactive_def invoke_mcp_def)
next
  case Nil
  let ?cmd = "inv_command ivk" and ?args = "parse_args (inv_input ivk)"
  let ?tier = "classify (risk_policy b) (cmd_id ?cmd) (cmd_category ?cmd)"
  have inner: "(gate_permits b ?cmd ?args ?tier \<longrightarrow>
        invoke_inner ops b ctx ?cmd ?args ?tier = run_command ops ctx ?cmd ?args) \<and>
      (\<not> gate_permits b ?cmd ?args ?tier \<longrightarrow> (\<exists>e. invoke_inner ops b ctx ?cmd ?args ?tier = (ctx, Err e)))"
    using invoke_inner_permitted invoke_inner_refused by metis
  show ?thesis
  proof (cases "inv_mode ivk")
    case Mcp
    then show ?thesis using Nil inner
      by (simp add: may_run_def Let_def invoke_structured_def invoke_mcp_def)
  next
    case Interactive
    show ?thesis
    proof (cases "interactive_guards (risk_policy b) env ?cmd (inv_confirmation ivk)")
      case (Inl e)
      then have "\<not> tier_permits env (inv_confirmation ivk) ?tier"
        using interactive_guards_Ok_iff [of "risk_policy b" env ?cmd "inv_confirmation ivk"] by simp
      then show ?thesis using Nil Interactive Inl
        by (simp add: may_run_def Let_def invoke_structured_def invoke_interactive_def)
    next
      case (Inr u)
      then have "tier_permits env (inv_confirmation ivk) ?tier"
        using interactive_guards_Ok_iff [of "risk_policy b" env ?cmd "inv_confirmation ivk"] by simp
      then show ?thesis using Nil Interactive Inr inner
        by (simp add: may_run_def Let_def invoke_structured_def invoke_interactive_def)
    qed
  qed
qed


text \<open>A destructive command and a terminal: refused without the variable, run with it.\<close>

definition sample_ops :: "nat app_context_ops" where
  "sample_ops = \<lparr> drain_output = (\<lambda>c. (c, ''done'')), drain_structured_content = (\<lambda>c. (c, None)) \<rparr>"

definition sample_invocation :: "nat bridge_invocation" where
  "sample_invocation =
     \<lparr> inv_command =
         \<lparr> cmd_id = ''wipe'', cmd_spec = command_spec_default \<lparr> spec_category := Some ''admin'' \<rparr>,
           cmd_validator = None, cmd_execute = (\<lambda>c _. (c + 1, Ok ())), cmd_expose_mcp = True,
           cmd_expose_chat = True, cmd_meta = None, cmd_visibility = None \<rparr>,
       inv_input = InJson (JObj []), inv_confirmation = InteractiveStdin, inv_mode = Interactive \<rparr>"

definition sample_env :: "string option \<Rightarrow> process_env" where
  "sample_env v =
     \<lparr> stdin_tty = True, stdout_tty = True, allow_destructive_var = v, stdin_line = Ok '' y'' \<rparr>"

lemma sample_may_run:
  "may_run (\<lambda>_. Err []) (sample_env v) \<lparr> risk_policy = command_risk_policy_default, gate = None \<rparr> sample_invocation
     \<longleftrightarrow> v = Some ''1'' \<or> v = Some ''true''"
  by (auto simp: may_run_def sample_invocation_def sample_env_def command_risk_policy_default_def Let_def
      dispatch_validate_def validate_typed_args_def command_spec_default_def gate_permits_def tier_permits_def
      classify_def cmd_category_def env_allowed_def is_interactive_def user_confirmed_def
      prompt_confirm_blocking_def trim_matches_def is_ws_def split: option.splits)


section \<open>Tool calls and the published schema\<close>

text \<open>
  A tool call that follows the published schema can still be refused. JSON has no enum values, so
  a string given for an argument declared as an enum is a \<open>Str\<close>, which the type check
  never accepts; and the schema publishes an argument under its long name while the check looks
  it up by \<open>name\<close>.
\<close>

lemma distinct_map_filter_keys:
  assumes "\<And>e y. f e = Some y \<Longrightarrow> fst y = fst e" "distinct (map fst xs)"
  shows "distinct (map fst (List.map_filter f xs))"
  using assms(2)
proof (induction xs)
  case (Cons e xs)
  have "fst y \<noteq> fst e" if y: "y \<in> set (List.map_filter f xs)" for y
  proof -
    obtain x where x: "x \<in> set xs" "f x = Some y" using y by (auto simp: in_map_filter_iff)
    then have "fst y \<in> set (map fst xs)" using assms(1) by simp
    moreover have "fst e \<notin> set (map fst xs)" using Cons.prems by simp
    ultimately show ?thesis by metis
  qed
  then have "fst e \<notin> fst ` set (List.map_filter f xs)" by force
  then show ?case using Cons assms(1) by (cases "f e") simp_all
qed simp

lemma typed_map_lookup:
  assumes "bm_wf obj" "map_of obj k = Some v" "k \<noteq> ''_positional''" "json_value_to_arg_value v = Some av"
  shows "map_of (json_value_to_typed_map obj) k = Some av"
proof -
  let ?f = "\<lambda>(k, v). map_option (Pair k) (json_value_to_arg_value v)"
  let ?kvs = "List.map_filter ?f (filter (\<lambda>(k, _). k \<noteq> ''_positional'') obj)"
  have "distinct (map fst (filter (\<lambda>(k, _). k \<noteq> ''_positional'') obj))"
    using bm_wf_distinct [OF assms(1)] by (simp add: distinct_map_filter)
  then have "distinct (map fst ?kvs)" by (intro distinct_map_filter_keys) auto
  moreover have "(k, av) \<in> set ?kvs"
    using assms map_of_SomeD [OF assms(2)] by (auto simp: in_map_filter_iff intro!: bexI [of _ "(k, v)"])
  ultimately show ?thesis
    by (simp add: json_value_to_typed_map_def hm_of_list_lookup map_of_rev)
qed

lemma typed_map_keys: "fst ` set (json_value_to_typed_map obj) \<subseteq> fst ` set obj"
proof -
  have "k \<in> fst ` set obj" if k: "k \<in> fst ` set (json_value_to_typed_map obj)" for k
  proof -
    let ?kvs = "List.map_filter (\<lambda>(k, v). map_option (Pair k) (json_value_to_arg_value v))
                (filter (\<lambda>(k, _). k \<noteq> ''_positional'') obj)"
    obtain v where "map_of (rev ?kvs) k = Some v"
      using k by (auto simp: hm_contains_iff [symmetric] json_value_to_typed_map_def hm_of_list_lookup)
    then have "(k, v) \<in> set ?kvs" by (auto dest: map_of_SomeD)
    then show ?thesis by (force simp: in_map_filter_iff)
  qed
  then show ?thesis by blast
qed

lemma dispatch_invalid:
  assumes "invalid_value rx (cmd_spec c) (map_of args) \<or> missing_required (cmd_spec c) (map_of args)"
  shows "dispatch_validate rx c args \<noteq> []"
  using assms codes_validate [of rx "cmd_spec c" args] by (auto simp: dispatch_validate_def)

theorem json_enum_argument_refused:
  assumes "a \<in> set (spec_args (cmd_spec (inv_command ivk)))" "arg_value_type a = VT_Enum allowed"
    and "inv_input ivk = InJson (JObj obj)" "bm_wf obj" "map_of obj (arg_name a) = Some (JStr s)"
    and "arg_name a \<noteq> ''_positional''"
  shows "\<exists>e. invoke_structured rx ops env b ctx ivk = (ctx, Err e)"
proof -
  have "map_of (parse_args (inv_input ivk)) (arg_name a) = Some (AV_Str s)"
    using typed_map_lookup [OF assms(4,5,6)] assms(3) by (simp add: parse_args_def)
  then have "invalid_value rx (cmd_spec (inv_command ivk)) (map_of (parse_args (inv_input ivk)))"
    using assms(1,2) by (auto simp: invalid_value_def intro!: bexI [of _ a])
  then have "\<not> may_run rx env b ivk"
    using dispatch_invalid by (metis may_run_def)
  then show ?thesis using bridge_outcome by metis
qed

theorem json_renamed_argument_refused:
  assumes "a \<in> set (spec_args (cmd_spec (inv_command ivk)))" "arg_cardinality a = Required"
    and "inv_input ivk = InJson (JObj obj)" "arg_name a \<notin> fst ` set obj"
    and "arg_long a = Some l"
  shows "l \<in> set (schema_required (cmd_spec (inv_command ivk))) \<and>
         (\<exists>e. invoke_structured rx ops env b ctx ivk = (ctx, Err e))"
proof -
  have "map_of (parse_args (inv_input ivk)) (arg_name a) = None"
    using typed_map_keys assms(3,4) by (auto simp: parse_args_def map_of_eq_None_iff)
  then have "missing_required (cmd_spec (inv_command ivk)) (map_of (parse_args (inv_input ivk)))"
    using assms(1,2) by (auto simp: missing_required_def)
  then have "\<not> may_run rx env b ivk"
    using dispatch_invalid by (metis may_run_def)
  moreover have "l \<in> set (schema_required (cmd_spec (inv_command ivk)))"
    using assms(1,2,5) by (force simp: schema_required_def is_schema_required_def schema_prop_name_def)
  ultimately show ?thesis using bridge_outcome by metis
qed

end
