(* ===== verification/Retry.thy ===== *)
theory Retry
  imports Prelude "HOL-Library.Extended_Nat"
begin

text \<open>
  Retries: the policy and its delays (\<open>src/retry/policy.rs\<close>), the blocking and the
  asynchronous executor (\<open>src/retry/executor.rs\<close>, \<open>executor_async.rs\<close>) and the HTTP client
  built on them (\<open>src/http_retry\<close>).

  A \<open>Duration\<close> is its number of nanoseconds; adding or multiplying past \<open>Duration::MAX\<close>
  panics. Arithmetic on \<open>u64\<close> panics or wraps around according to the build's
  \<open>overflow_checks\<close>. A panic is \<open>None\<close>. An operation is a function from a state to the
  state it leaves and its result; an asynchronous one also says how long it takes, \<open>\<infinity>\<close> if
  it never completes, and may leave another state when it is cancelled at a timeout, which
  is why it is given the timeout.
\<close>

section \<open>Policies\<close>

type_synonym duration = nat

definition duration_max :: duration where
  "duration_max = (2 ^ 64 - 1) * 10 ^ 9 + 999999999"

definition from_millis :: "u64 \<Rightarrow> duration" where
  "from_millis ms = unat ms * 10 ^ 6"

definition from_secs :: "u64 \<Rightarrow> duration" where
  "from_secs s = unat s * 10 ^ 9"

text \<open>\<open>d.as_millis() as u64\<close>, which truncates twice.\<close>

definition millis_u64 :: "duration \<Rightarrow> u64" where
  "millis_u64 d = of_nat (d div 10 ^ 6)"

text \<open>
  \<open>RetryStrategy\<close>; the arguments are the initial delay, the increment and the cap, in the order
  of the source.
\<close>

datatype retry_strategy =
    No_retry
  | Fixed duration
  | Exponential duration duration
  | Linear duration duration duration

record retry_policy =
  max_attempts :: u32
  strategy :: retry_strategy
  timeout :: "duration option"
  retry_on_timeout :: bool

definition policy_new :: "u32 \<Rightarrow> retry_strategy \<Rightarrow> retry_policy" where
  "policy_new n s = \<lparr> max_attempts = n, strategy = s, timeout = None, retry_on_timeout = True \<rparr>"

definition no_retries :: retry_policy where
  "no_retries = \<lparr> max_attempts = 0, strategy = No_retry, timeout = None, retry_on_timeout = False \<rparr>"

definition fixed_delay :: "u32 \<Rightarrow> duration \<Rightarrow> retry_policy" where
  "fixed_delay n d = \<lparr> max_attempts = n, strategy = Fixed d, timeout = None, retry_on_timeout = True \<rparr>"

definition exponential_backoff :: "u32 \<Rightarrow> duration \<Rightarrow> duration \<Rightarrow> retry_policy" where
  "exponential_backoff n i m =
     \<lparr> max_attempts = n, strategy = Exponential i m, timeout = None, retry_on_timeout = True \<rparr>"

definition with_timeout :: "duration \<Rightarrow> retry_policy \<Rightarrow> retry_policy" where
  "with_timeout t p = p \<lparr> timeout := Some t \<rparr>"

definition with_retry_on_timeout :: "bool \<Rightarrow> retry_policy \<Rightarrow> retry_policy" where
  "with_retry_on_timeout b p = p \<lparr> retry_on_timeout := b \<rparr>"

definition policy_default :: retry_policy where
  "policy_default = fixed_delay 3 (from_millis 500)"

definition delay_for_attempt :: "bool \<Rightarrow> retry_policy \<Rightarrow> u32 \<Rightarrow> duration option" where
  "delay_for_attempt overflow_checks p attempt =
     (if max_attempts p \<le> attempt then Some 0
      else case strategy p of
        No_retry \<Rightarrow> Some 0
      | Fixed delay \<Rightarrow> Some delay
      | Exponential initial max_delay \<Rightarrow>
          (let factor = 2 ^ min (unat attempt) 10;
               delay = millis_u64 initial * factor
           in if overflow_checks \<and> 2 ^ 64 \<le> unat (millis_u64 initial) * unat (factor :: u64) then None
              else Some (from_millis (min delay (millis_u64 max_delay))))
      | Linear initial increment max_delay \<Rightarrow>
          (let step = increment * unat attempt; delay = initial + step
           in if duration_max < step \<or> duration_max < delay then None else Some (min delay max_delay)))"

section \<open>Bounds of the delay\<close>

definition delay_cap :: "retry_strategy \<Rightarrow> duration" where
  "delay_cap s =
     (case s of No_retry \<Rightarrow> 0 | Fixed d \<Rightarrow> d | Exponential _ m \<Rightarrow> m | Linear _ _ m \<Rightarrow> m)"

lemma unat_min: "unat (min a b :: 'a::len word) = min (unat a) (unat b)"
  by (simp add: min_def word_le_nat_alt)

lemma unat_millis_le: "unat (millis_u64 d) \<le> d div 10 ^ 6"
  by (simp add: millis_u64_def unat_of_nat)

lemma from_millis_le: "from_millis (min a (millis_u64 d)) \<le> d"
proof -
  have "unat (min a (millis_u64 d)) \<le> d div 10 ^ 6"
    unfolding unat_min using unat_millis_le [of d] by linarith
  then have "unat (min a (millis_u64 d)) * 10 ^ 6 \<le> d div 10 ^ 6 * 10 ^ 6" by (rule mult_le_mono1)
  also have "\<dots> \<le> d" by simp
  finally show ?thesis by (simp add: from_millis_def)
qed

lemma unat_factor: "n \<le> 10 \<Longrightarrow> unat (2 ^ n :: u64) = 2 ^ n"
proof -
  assume n: "n \<le> 10"
  have "(2 :: nat) ^ n \<le> 2 ^ 10" using n by (rule power_increasing) simp
  then have "(2 :: nat) ^ n < 2 ^ 64" by simp
  then have "unat (of_nat (2 ^ n) :: u64) = 2 ^ n" unfolding unat_of_nat by simp
  then show ?thesis by simp
qed

text \<open>The delay of the documentation: the initial one, doubled up to ten times, capped.\<close>

definition exponential_delay :: "duration \<Rightarrow> duration \<Rightarrow> nat \<Rightarrow> duration" where
  "exponential_delay i m n = min (i div 10 ^ 6 * 2 ^ min n 10) (m div 10 ^ 6) * 10 ^ 6"

lemma exponential_delay_exact:
  assumes "strategy p = Exponential i m" "attempt < max_attempts p"
    and "i div 10 ^ 6 * 1024 < 2 ^ 64" "m div 10 ^ 6 < 2 ^ 64"
  shows "delay_for_attempt oc p attempt = Some (exponential_delay i m (unat attempt))"
proof -
  define k where "k = min (unat attempt) 10"
  have k: "k \<le> 10" by (simp add: k_def)
  then have "(2 :: nat) ^ k \<le> 2 ^ 10" by (rule power_increasing) simp
  then have "i div 10 ^ 6 * 2 ^ k \<le> i div 10 ^ 6 * 1024" by (intro mult_le_mono2) simp
  then have lt: "i div 10 ^ 6 * 2 ^ k < 2 ^ 64" using assms(3) by (rule le_less_trans)
  have i: "unat (millis_u64 i) = i div 10 ^ 6" and m: "unat (millis_u64 m) = m div 10 ^ 6"
    using assms(3,4) by (simp_all add: millis_u64_def unat_of_nat)
  have "unat (millis_u64 i * 2 ^ k) = i div 10 ^ 6 * 2 ^ k"
    using lt by (simp add: unat_word_ariths i unat_factor [OF k])
  moreover have "unat (millis_u64 i) * unat (2 ^ k :: u64) < 2 ^ 64"
    using lt by (simp add: i unat_factor [OF k])
  ultimately show ?thesis
    using assms(1,2) by (simp add: delay_for_attempt_def Let_def k_def [symmetric] from_millis_def unat_min m
        exponential_delay_def)
qed

text \<open>
  C40. Bounds of the backoff. Whatever the build, a delay never exceeds the cap its strategy
  declares, and there is no delay past the last attempt. With an exponential strategy
  whose millisecond counts fit in 54 bits nothing overflows: the delay is the initial one doubled
  once per attempt up to ten times, capped, to the millisecond, and never decreases from one
  attempt to the next.
\<close>

theorem delay_for_attempt_bounds:
  "(\<forall>d. delay_for_attempt oc p attempt = Some d \<longrightarrow>
      d \<le> delay_cap (strategy p) \<and> (max_attempts p \<le> attempt \<longrightarrow> d = 0)) \<and>
   (\<forall>i m. strategy p = Exponential i m \<and> attempt < max_attempts p \<and>
          i div 10 ^ 6 * 1024 < 2 ^ 64 \<and> m div 10 ^ 6 < 2 ^ 64 \<longrightarrow>
      delay_for_attempt oc p attempt = Some (exponential_delay i m (unat attempt)) \<and>
      exponential_delay i m (unat attempt) \<le> exponential_delay i m (unat attempt + 1))"
proof -
  have "d \<le> delay_cap (strategy p) \<and> (max_attempts p \<le> attempt \<longrightarrow> d = 0)"
    if "delay_for_attempt oc p attempt = Some d" for d
    using that from_millis_le
    by (auto simp: delay_for_attempt_def delay_cap_def Let_def split: if_splits retry_strategy.splits)
  moreover have "exponential_delay i m n \<le> exponential_delay i m (n + 1)" for i m n
  proof -
    have "(2 :: nat) ^ min n 10 \<le> 2 ^ min (n + 1) 10" by (rule power_increasing) auto
    then show ?thesis
      unfolding exponential_delay_def by (intro mult_le_mono1 min.mono mult_le_mono2) simp_all
  qed
  ultimately show ?thesis using exponential_delay_exact by metis
qed

definition http_default_policy :: retry_policy where
  "http_default_policy = exponential_backoff 3 (from_secs 1) (from_secs 10)"

theorem delay_for_attempt_bounds_witness:
  "delay_for_attempt True http_default_policy 2 = Some (4 * 10 ^ 9) \<and>
   delay_for_attempt True (http_default_policy \<lparr> max_attempts := 9 \<rparr>) 7 = Some (10 * 10 ^ 9)"
  using delay_for_attempt_bounds [of True http_default_policy 2]
    delay_for_attempt_bounds [of True "http_default_policy \<lparr> max_attempts := 9 \<rparr>" 7]
  by (simp add: http_default_policy_def exponential_backoff_def from_secs_def exponential_delay_def)

section \<open>Executors\<close>

text \<open>\<open>anyhow::Error\<close>: an error of the operation, or a message of the executor.\<close>

datatype 'e any_error = Op_error 'e | Msg string

type_synonym ('s, 'e, 'a) outcome = "('s \<times> duration list \<times> ('e any_error + 'a)) option"

definition no_error_recorded :: "'e any_error" where
  "no_error_recorded = Msg ''Operation failed but no error was recorded''"

definition last_error_result :: "'e any_error option \<Rightarrow> 'e any_error + 'a" where
  "last_error_result last_error =
     (case last_error of Some e \<Rightarrow> Err e | None \<Rightarrow> Err no_error_recorded)"

definition push_sleep :: "duration \<Rightarrow> duration list \<Rightarrow> duration list" where
  "push_sleep d sleeps = (if 0 < d then sleeps @ [d] else sleeps)"

text \<open>
  \<open>RetryExecutor::execute\<close>: the loop over the attempts left, with the last error and the
  sleeps so far.
\<close>

fun execute_loop ::
  "bool \<Rightarrow> retry_policy \<Rightarrow> ('s \<Rightarrow> 's \<times> ('e + 'a)) \<Rightarrow> nat list \<Rightarrow> 'e any_error option \<Rightarrow> duration list \<Rightarrow> 's \<Rightarrow>
   ('s, 'e, 'a) outcome" where
  "execute_loop oc p op [] last_error sleeps s = Some (s, sleeps, last_error_result last_error)"
| "execute_loop oc p op (attempt # rest) last_error sleeps s =
     (case op s of
        (s1, Ok v) \<Rightarrow> Some (s1, sleeps, Ok v)
      | (s1, Err e) \<Rightarrow>
          if unat (max_attempts p) \<le> attempt
          then Some (s1, sleeps, last_error_result (Some (Op_error e)))
          else (case delay_for_attempt oc p (of_nat attempt) of
                  None \<Rightarrow> None
                | Some d \<Rightarrow> execute_loop oc p op rest (Some (Op_error e)) (push_sleep d sleeps) s1))"

definition execute :: "bool \<Rightarrow> retry_policy \<Rightarrow> ('s \<Rightarrow> 's \<times> ('e + 'a)) \<Rightarrow> 's \<Rightarrow> ('s, 'e, 'a) outcome" where
  "execute oc p op s = execute_loop oc p op [0..<unat (max_attempts p) + 1] None [] s"

type_synonym ('s, 'e, 'a) async_op = "duration option \<Rightarrow> 's \<Rightarrow> 's \<times> enat \<times> ('e + 'a)"

text \<open>
  One attempt of \<open>AsyncRetryExecutor::execute\<close>: the state it leaves, its result, and whether
  it failed by the timeout. \<open>tokio::time::timeout\<close> gives the operation's result when it
  completes by the deadline.
\<close>

definition async_attempt ::
  "retry_policy \<Rightarrow> ('s, 'e, 'a) async_op \<Rightarrow> 's \<Rightarrow> ('s \<times> ('e any_error + 'a) \<times> bool) option" where
  "async_attempt p op s =
     (case op (timeout p) s of
        (s1, elapsed, r) \<Rightarrow>
          (case timeout p of
             Some t \<Rightarrow>
               if elapsed \<le> enat t then Some (s1, map_err Op_error r, False)
               else Some (s1, Err (Msg ''Operation timed out''), True)
           | None \<Rightarrow> if elapsed = \<infinity> then None else Some (s1, map_err Op_error r, False)))"

type_synonym 'e classifier = "'e any_error \<Rightarrow> bool"

definition gives_up :: "retry_policy \<Rightarrow> 'e classifier option \<Rightarrow> bool \<Rightarrow> 'e any_error \<Rightarrow> bool" where
  "gives_up p clf timed_out e \<longleftrightarrow>
     (timed_out \<and> \<not> retry_on_timeout p) \<or> (case clf of None \<Rightarrow> False | Some f \<Rightarrow> \<not> f e)"

fun async_loop ::
  "bool \<Rightarrow> retry_policy \<Rightarrow> 'e classifier option \<Rightarrow> ('s, 'e, 'a) async_op \<Rightarrow> nat list \<Rightarrow>
   'e any_error option \<Rightarrow> duration list \<Rightarrow> 's \<Rightarrow> ('s, 'e, 'a) outcome" where
  "async_loop oc p clf op [] last_error sleeps s = Some (s, sleeps, last_error_result last_error)"
| "async_loop oc p clf op (attempt # rest) last_error sleeps s =
     (case async_attempt p op s of
        None \<Rightarrow> None
      | Some (s1, Ok v, _) \<Rightarrow> Some (s1, sleeps, Ok v)
      | Some (s1, Err e, timed_out) \<Rightarrow>
          if gives_up p clf timed_out e then Some (s1, sleeps, Err e)
          else if unat (max_attempts p) \<le> attempt
          then Some (s1, sleeps, last_error_result (Some e))
          else (case delay_for_attempt oc p (of_nat attempt) of
                  None \<Rightarrow> None
                | Some d \<Rightarrow> async_loop oc p clf op rest (Some e) (push_sleep d sleeps) s1))"

definition async_execute ::
  "bool \<Rightarrow> retry_policy \<Rightarrow> 'e classifier option \<Rightarrow> ('s, 'e, 'a) async_op \<Rightarrow> 's \<Rightarrow> ('s, 'e, 'a) outcome" where
  "async_execute oc p clf op s = async_loop oc p clf op [0..<unat (max_attempts p) + 1] None [] s"

section \<open>What an execution does\<close>

text \<open>The state before the \<open>n\<close>-th call, when the calls before it were made one after another.\<close>

fun call_state :: "retry_policy \<Rightarrow> ('s, 'e, 'a) async_op \<Rightarrow> 's \<Rightarrow> nat \<Rightarrow> 's" where
  "call_state p op s 0 = s"
| "call_state p op s (Suc n) = call_state p op (fst (op (timeout p) s)) n"

definition retryable ::
  "retry_policy \<Rightarrow> 'e classifier option \<Rightarrow> ('s, 'e, 'a) async_op \<Rightarrow> 's \<Rightarrow> bool" where
  "retryable p clf op s \<longleftrightarrow>
     (\<exists>s1 e timed_out. async_attempt p op s = Some (s1, Err e, timed_out) \<and> \<not> gives_up p clf timed_out e)"

text \<open>
  \<open>n\<close> retries from \<open>s\<close>: the first \<open>n\<close> calls failed and were worth retrying, the last one was
  not or was the last one allowed, its result is the result, and each retry slept its delay.
\<close>

definition retried ::
  "bool \<Rightarrow> retry_policy \<Rightarrow> 'e classifier option \<Rightarrow> ('s, 'e, 'a) async_op \<Rightarrow> nat \<Rightarrow> 's \<Rightarrow> nat \<Rightarrow> duration list \<Rightarrow>
   's \<times> duration list \<times> ('e any_error + 'a) \<Rightarrow> bool" where
  "retried oc p clf op k s n sleeps res \<longleftrightarrow>
     k + n \<le> unat (max_attempts p) \<and>
     (\<forall>i < n. retryable p clf op (call_state p op s i)) \<and>
     (retryable p clf op (call_state p op s n) \<longrightarrow> k + n = unat (max_attempts p)) \<and>
     (\<exists>s1 r timed_out. async_attempt p op (call_state p op s n) = Some (s1, r, timed_out) \<and>
        res = (s1, sleeps @ filter (\<lambda>d. 0 < d)
                 (map (\<lambda>i. the (delay_for_attempt oc p (of_nat (k + i)))) [0..<n]), r))"

lemma retried_here:
  assumes "async_attempt p op s = Some (s1, r, timed_out)" "k \<le> unat (max_attempts p)"
    and "retryable p clf op s \<Longrightarrow> k = unat (max_attempts p)"
  shows "retried oc p clf op k s 0 sleeps (s1, sleeps, r)"
  using assms by (auto simp: retried_def)

lemma retried_step:
  assumes "retryable p clf op s" "delay_for_attempt oc p (of_nat k) = Some d"
    and "retried oc p clf op (Suc k) (fst (op (timeout p) s)) n (push_sleep d sleeps) res"
  shows "retried oc p clf op k s (Suc n) sleeps res"
proof -
  have "retryable p clf op (call_state p op s i)" if "i < Suc n" for i
    using assms(1,3) that by (cases i) (auto simp: retried_def)
  moreover have "[0..<Suc n] = 0 # map Suc [0..<n]" by (simp add: upt_conv_Cons map_Suc_upt del: upt_Suc)
  ultimately show ?thesis
    using assms(2,3) by (auto simp: retried_def push_sleep_def comp_def ac_simps split: if_splits)
qed

lemma async_loop_retried:
  assumes delays: "\<And>i. i < unat (max_attempts p) \<Longrightarrow> delay_for_attempt oc p (of_nat i) \<noteq> None"
  shows "(\<And>n. async_attempt p op (call_state p op s n) \<noteq> None) \<Longrightarrow> k \<le> unat (max_attempts p) \<Longrightarrow>
    \<exists>n res. async_loop oc p clf op [k..<unat (max_attempts p) + 1] last_error sleeps s = Some res \<and>
      retried oc p clf op k s n sleeps res"
proof (induction "unat (max_attempts p) - k" arbitrary: k s last_error sleeps)
  case 0
  then have k: "k = unat (max_attempts p)" by simp
  obtain s1 r t where a: "async_attempt p op s = Some (s1, r, t)"
    using "0.prems"(1) [of 0] by (auto simp: prod_eq_iff)
  have "async_loop oc p clf op [k..<unat (max_attempts p) + 1] last_error sleeps s = Some (s1, sleeps, r)"
    using k a by (cases r) (auto simp: last_error_result_def)
  then show ?case using retried_here [OF a] k by blast
next
  case (Suc m)
  then have k: "k < unat (max_attempts p)" by simp
  then have upt: "[k..<unat (max_attempts p) + 1] = k # [Suc k..<unat (max_attempts p) + 1]"
    by (simp add: upt_conv_Cons del: upt_Suc)
  obtain s1 r t where a: "async_attempt p op s = Some (s1, r, t)"
    using Suc.prems(1) [of 0] by (auto simp: prod_eq_iff)
  show ?case
  proof (cases "retryable p clf op s")
    case False
    then have "async_loop oc p clf op [k..<unat (max_attempts p) + 1] last_error sleeps s = Some (s1, sleeps, r)"
      using a unfolding upt by (cases r) (auto simp: retryable_def)
    then show ?thesis using retried_here [OF a] k False by (metis less_imp_le)
  next
    case True
    obtain d where d: "delay_for_attempt oc p (of_nat k) = Some d" using delays [OF k] by auto
    have s1: "s1 = fst (op (timeout p) s)"
      using a by (auto simp: async_attempt_def split: prod.splits option.splits if_splits)
    from True a obtain e where r: "r = Err e" and e: "\<not> gives_up p clf t e"
      by (auto simp: retryable_def)
    have "async_attempt p op (call_state p op s1 n) \<noteq> None" for n
      using Suc.prems(1) [of "Suc n"] s1 by simp
    moreover have "m = unat (max_attempts p) - Suc k" "Suc k \<le> unat (max_attempts p)"
      using Suc.hyps(2) k by simp_all
    ultimately obtain n res where
      "async_loop oc p clf op [Suc k..<unat (max_attempts p) + 1] (Some e) (push_sleep d sleeps) s1 = Some res"
      and res: "retried oc p clf op (Suc k) s1 n (push_sleep d sleeps) res"
      using Suc.hyps(1) by blast
    then have "async_loop oc p clf op [k..<unat (max_attempts p) + 1] last_error sleeps s = Some res"
      using a r e k d unfolding upt by simp
    then show ?thesis using retried_step [OF True d] res s1 by blast
  qed
qed

text \<open>The blocking executor is the asynchronous one without a classifier and a timeout.\<close>

definition blocking_op :: "('s \<Rightarrow> 's \<times> ('e + 'a)) \<Rightarrow> ('s, 'e, 'a) async_op" where
  "blocking_op op t s = (fst (op s), 0, snd (op s))"

lemma delay_ignores_timeout: "delay_for_attempt oc (p \<lparr> timeout := t \<rparr>) a = delay_for_attempt oc p a"
  by (simp add: delay_for_attempt_def)

lemma execute_loop_async:
  "execute_loop oc p op as last_error sleeps s =
     async_loop oc (p \<lparr> timeout := None \<rparr>) None (blocking_op op) as last_error sleeps s"
proof (induction as arbitrary: last_error sleeps s)
  case (Cons a as)
  obtain s1 r where "op s = (s1, r)" by (cases "op s")
  then show ?case
    by (cases r) (simp_all add: async_attempt_def blocking_op_def gives_up_def delay_ignores_timeout Cons
        split: option.split)
qed simp

lemma execute_is_async: "execute oc p op s = async_execute oc (p \<lparr> timeout := None \<rparr>) None (blocking_op op) s"
  by (simp add: execute_def async_execute_def execute_loop_async del: upt_Suc)

text \<open>
  C39. The retry loop. When the delays of the policy do not overflow and every call completes or
  is timed out, the executor returns: it makes \<open>n + 1\<close> calls for some \<open>n\<close> up to
  \<open>max_attempts\<close>, one after another; the first \<open>n\<close> failed in a way the classifier and
  the timeout setting allow to retry; the last one succeeded, or failed otherwise, or was the
  last one allowed, and its result is what is returned, never the placeholder error; and
  between the calls it slept the delays of the policy in order.
\<close>

theorem async_execute_retries:
  assumes "\<And>i. i < unat (max_attempts p) \<Longrightarrow> delay_for_attempt oc p (of_nat i) \<noteq> None"
    and "\<And>n. async_attempt p op (call_state p op s n) \<noteq> None"
  shows "\<exists>n res. async_execute oc p clf op s = Some res \<and> retried oc p clf op 0 s n [] res"
  unfolding async_execute_def by (rule async_loop_retried [OF assms]) simp_all

text \<open>A call that fails twice and then succeeds.\<close>

definition sample_op :: "(nat, string, nat) async_op" where
  "sample_op t s = (Suc s, 0, if s < 2 then Err ''down'' else Ok s)"

lemma sample_call_state: "call_state p sample_op s n = s + n"
  by (induction n arbitrary: s) (simp_all add: sample_op_def)

lemma fixed_delay_sel [simp]:
  "max_attempts (fixed_delay n d) = n" "timeout (fixed_delay n d) = None" "strategy (fixed_delay n d) = Fixed d"
  by (simp_all add: fixed_delay_def)

lemma sample_attempt:
  "async_attempt (fixed_delay 5 7) sample_op s =
     Some (Suc s, if s < 2 then Err (Op_error ''down'') else Ok s, False)"
  by (simp add: async_attempt_def sample_op_def)

lemma sample_retryable: "retryable (fixed_delay 5 7) None sample_op s \<longleftrightarrow> s < 2"
  by (auto simp: retryable_def sample_attempt gives_up_def)

theorem async_execute_retries_witness:
  "async_execute True (fixed_delay 5 7) None sample_op 0 = Some (3, [7, 7], Ok 2)"
proof -
  have d: "delay_for_attempt True (fixed_delay 5 7) (of_nat i) = Some 7" if "i < 5" for i
    using that by (simp add: delay_for_attempt_def word_le_nat_alt unat_of_nat)
  obtain n res where ex: "async_execute True (fixed_delay 5 7) None sample_op 0 = Some res"
    and n: "retried True (fixed_delay 5 7) None sample_op 0 0 n [] res"
    using async_execute_retries [of "fixed_delay 5 7" True sample_op 0 None] d
    by (fastforce simp: sample_attempt)
  have le: "\<forall>i < n. i < 2" and ge: "n < 2 \<longrightarrow> n = 5"
    using n by (simp_all add: retried_def sample_call_state sample_retryable)
  have "n = 2" using le [rule_format, of "n - 1"] ge by (cases n) auto
  then show ?thesis
    using n ex d [of 0] d [of 1] by (auto simp: retried_def sample_call_state sample_attempt upt_rec)
qed

section \<open>The HTTP client\<close>

text \<open>
  \<open>reqwest\<close> is not part of the program. What the code reads of an error and of a response
  is a record; sending a request is the parameter \<open>send\<close>, turning a response with an error
  status into an error the parameter \<open>error_for_status\<close>, reading a date the parameter
  \<open>parse_http_date\<close> (the time left until it, if it lies ahead).
\<close>

record reqwest_error =
  err_status :: "nat option"
  err_is_timeout :: bool
  err_is_connect :: bool
  err_is_request :: bool

record response =
  resp_status :: nat
  resp_retry_after :: "string option"

definition is_client_error :: "nat \<Rightarrow> bool" where "is_client_error s \<longleftrightarrow> 400 \<le> s \<and> s < 500"
definition is_server_error :: "nat \<Rightarrow> bool" where "is_server_error s \<longleftrightarrow> 500 \<le> s \<and> s < 600"

definition is_retryable_http_error :: "reqwest_error \<Rightarrow> bool" where
  "is_retryable_http_error e =
     (case err_status e of
        Some status \<Rightarrow> is_server_error status \<or> status = 429
      | None \<Rightarrow> err_is_timeout e \<or> err_is_connect e \<or> err_is_request e)"

definition parse_retry_after_header :: "(string \<Rightarrow> duration option) \<Rightarrow> string option \<Rightarrow> duration option" where
  "parse_retry_after_header parse_http_date header =
     (case header of
        None \<Rightarrow> None
      | Some v \<Rightarrow>
          (case parse_u64 (str_trim v) of
             Some seconds \<Rightarrow> Some (from_secs seconds)
           | None \<Rightarrow> parse_http_date (str_trim v)))"

text \<open>The operation \<open>execute_with_policy_and_classifier\<close> hands to the executor.\<close>

definition http_op ::
  "(response \<Rightarrow> reqwest_error) \<Rightarrow> (string \<Rightarrow> duration option) \<Rightarrow>
   (duration option \<Rightarrow> 's \<Rightarrow> 's \<times> enat \<times> (reqwest_error + response)) \<Rightarrow> ('s, reqwest_error, response) async_op" where
  "http_op error_for_status parse_http_date send t s =
     (case send t s of
        (s1, elapsed, Err e) \<Rightarrow> (s1, elapsed, Err e)
      | (s1, elapsed, Ok resp) \<Rightarrow>
          if is_client_error (resp_status resp) \<or> is_server_error (resp_status resp) then
            (let pause = (if resp_status resp = 429
                          then parse_retry_after_header parse_http_date (resp_retry_after resp) else None)
             in (s1, elapsed + (case pause of None \<Rightarrow> 0 | Some d \<Rightarrow> enat d), Err (error_for_status resp)))
          else (s1, elapsed, Ok resp))"

definition http_classifier :: "(reqwest_error \<Rightarrow> bool) \<Rightarrow> reqwest_error classifier" where
  "http_classifier classifier e = (case e of Op_error re \<Rightarrow> classifier re | Msg _ \<Rightarrow> False)"

definition execute_with_policy_and_classifier ::
  "bool \<Rightarrow> (response \<Rightarrow> reqwest_error) \<Rightarrow> (string \<Rightarrow> duration option) \<Rightarrow>
   (duration option \<Rightarrow> 's \<Rightarrow> 's \<times> enat \<times> (reqwest_error + response)) \<Rightarrow> retry_policy \<Rightarrow>
   (reqwest_error \<Rightarrow> bool) \<Rightarrow> 's \<Rightarrow> ('s, reqwest_error, response) outcome" where
  "execute_with_policy_and_classifier oc error_for_status parse_http_date send policy classifier s =
     async_execute oc policy (Some (http_classifier classifier)) (http_op error_for_status parse_http_date send) s"

definition execute_with_policy ::
  "bool \<Rightarrow> (response \<Rightarrow> reqwest_error) \<Rightarrow> (string \<Rightarrow> duration option) \<Rightarrow>
   (duration option \<Rightarrow> 's \<Rightarrow> 's \<times> enat \<times> (reqwest_error + response)) \<Rightarrow> retry_policy \<Rightarrow> 's \<Rightarrow>
   ('s, reqwest_error, response) outcome" where
  "execute_with_policy oc error_for_status parse_http_date send policy s =
     execute_with_policy_and_classifier oc error_for_status parse_http_date send policy is_retryable_http_error s"

definition execute_with_retry ::
  "bool \<Rightarrow> (response \<Rightarrow> reqwest_error) \<Rightarrow> (string \<Rightarrow> duration option) \<Rightarrow>
   (duration option \<Rightarrow> 's \<Rightarrow> 's \<times> enat \<times> (reqwest_error + response)) \<Rightarrow> 's \<Rightarrow>
   ('s, reqwest_error, response) outcome" where
  "execute_with_retry oc error_for_status parse_http_date send s =
     execute_with_policy_and_classifier oc error_for_status parse_http_date send http_default_policy
       is_retryable_http_error s"

lemma async_execute_first:
  assumes "async_attempt p op s = Some (s1, Err e, timed_out)" "gives_up p clf timed_out e"
  shows "async_execute oc p clf op s = Some (s1, [], Err e)"
  using assms by (simp add: async_execute_def upt_rec)

text \<open>
  The executor's own timeout is never retried through the HTTP client, whatever
  \<open>retry_on_timeout\<close> says: its error is not a \<open>reqwest\<close> error, and the classifier the
  client installs refuses every other one.
\<close>

theorem http_timeout_never_retried:
  assumes "timeout policy = Some t" "http_op efs phd send (Some t) s = (s1, elapsed, r)" "enat t < elapsed"
  shows "execute_with_policy oc efs phd send policy s = Some (s1, [], Err (Msg ''Operation timed out''))"
proof -
  have "async_attempt policy (http_op efs phd send) s = Some (s1, Err (Msg ''Operation timed out''), True)"
    using assms by (simp add: async_attempt_def)
  then show ?thesis
    unfolding execute_with_policy_def execute_with_policy_and_classifier_def
    by (rule async_execute_first) (simp add: gives_up_def http_classifier_def)
qed

text \<open>
  The HTTP client does not repeat a request the server rejected: a response with a client
  error status other than 429 is returned as the error it is after a single request, with no
  sleep, under any policy. The parameter that turns such a response into an error is assumed to
  keep its status, as the documentation of \<open>reqwest\<close> says.
\<close>

theorem http_client_error_not_retried:
  assumes "\<And>r. err_status (error_for_status r) = Some (resp_status r)"
    and "send (timeout policy) s = (s1, elapsed, Ok resp)" "is_client_error (resp_status resp)" "resp_status resp \<noteq> 429"
    and "case timeout policy of None \<Rightarrow> elapsed \<noteq> \<infinity> | Some t \<Rightarrow> elapsed \<le> enat t"
  shows "execute_with_policy oc error_for_status parse_http_date send policy s =
           Some (s1, [], Err (Op_error (error_for_status resp)))"
proof -
  let ?op = "http_op error_for_status parse_http_date send"
  have "async_attempt policy ?op s = Some (s1, Err (Op_error (error_for_status resp)), False)"
    using assms(2-5) by (auto simp: async_attempt_def http_op_def Let_def intro: enat_ile split: option.splits)
  moreover have "\<not> is_retryable_http_error (error_for_status resp)"
    using assms(1,3,4) by (simp add: is_retryable_http_error_def is_client_error_def is_server_error_def)
  ultimately show ?thesis
    unfolding execute_with_policy_def execute_with_policy_and_classifier_def
    by (intro async_execute_first) (simp_all add: gives_up_def http_classifier_def)
qed

theorem http_client_error_not_retried_witness:
  "execute_with_policy True
     (\<lambda>r. \<lparr> err_status = Some (resp_status r), err_is_timeout = False, err_is_connect = False, err_is_request = False \<rparr>)
     (\<lambda>_. None) (\<lambda>_ n. (Suc n, 5, Ok \<lparr> resp_status = 404, resp_retry_after = None \<rparr>)) (policy_default) 0 =
   Some (1, [], Err (Op_error
     \<lparr> err_status = Some 404, err_is_timeout = False, err_is_connect = False, err_is_request = False \<rparr>))"
  using http_client_error_not_retried
    [of "\<lambda>r. \<lparr> err_status = Some (resp_status r), err_is_timeout = False, err_is_connect = False, err_is_request = False \<rparr>"
      "\<lambda>_ n. (Suc n, 5, Ok \<lparr> resp_status = 404, resp_retry_after = None \<rparr>)" policy_default 0 1 5
      "\<lparr> resp_status = 404, resp_retry_after = None \<rparr>" True "\<lambda>_. None"]
  by (simp add: is_client_error_def policy_default_def numeral_eq_enat)

end
