(* ===== verification/Output_Sanitize.thy ===== *)
theory Output_Sanitize
  imports Prelude
begin

text \<open>
  \<open>src/security/output_sanitize.rs\<close>: cleaning text of an untrusted source before it is
  printed. The two \<open>regex\<close> replacements are parameters; a control character is one byte in
  UTF-8 and every byte of a longer sequence is above 0x7F, so filtering bytes filters characters.
\<close>

definition kept_char :: "char \<Rightarrow> bool" where
  "kept_char c \<longleftrightarrow> (let b = (of_char c :: nat) in 0x1F < b \<or> b = 0x09 \<or> b = 0x0A \<or> b = 0x0D)"

definition sanitize_untrusted_output :: "(string \<Rightarrow> string) \<Rightarrow> (string \<Rightarrow> string) \<Rightarrow> string \<Rightarrow> string" where
  "sanitize_untrusted_output strip_csi strip_osc input = filter kept_char (strip_osc (strip_csi input))"

definition ESC :: char where "ESC = char_of (0x1B :: nat)"

text \<open>
  The output holds no control character below 0x20 but tab, line feed and carriage return, in
  particular no escape that could start a terminal sequence; and a text without any is printed as
  it is, when the two patterns, which start with an escape, leave a text without escapes alone.
\<close>

theorem sanitized_output_clean:
  assumes "\<And>t. ESC \<notin> set t \<Longrightarrow> strip_csi t = t" "\<And>t. ESC \<notin> set t \<Longrightarrow> strip_osc t = t"
  shows "(\<forall>c \<in> set (sanitize_untrusted_output strip_csi strip_osc input). kept_char c \<and> c \<noteq> ESC) \<and>
         ((\<forall>c \<in> set input. kept_char c) \<longrightarrow> sanitize_untrusted_output strip_csi strip_osc input = input)"
proof -
  have esc: "\<not> kept_char ESC" by (simp add: kept_char_def ESC_def)
  show ?thesis
  proof (intro conjI impI ballI)
    fix c assume "c \<in> set (sanitize_untrusted_output strip_csi strip_osc input)"
    then show "kept_char c" "c \<noteq> ESC" using esc by (auto simp: sanitize_untrusted_output_def)
  next
    assume all: "\<forall>c \<in> set input. kept_char c"
    then have "ESC \<notin> set input" using esc by blast
    then show "sanitize_untrusted_output strip_csi strip_osc input = input"
      using assms all by (simp add: sanitize_untrusted_output_def)
  qed
qed

end
