(* ===== verification/Spec2Isabelle.thy ===== *)
theory Spec2Isabelle
  imports Install_Properties Oidc_Client_Properties Telemetry_Export Telemetry_Commands Admin_Safety Admin_Restore Deployment App_Dispatch Tool_Bridge Retry Output_Sanitize Oidc_Server
begin

text \<open>
  A verification library for the core of \<open>cli-framework\<close>, a Rust crate for building command
  line applications whose configuration an organisation can manage centrally.

  \<^bold>\<open>The program.\<close> An application declares its configuration in a manifest (\<open>src/config/manifest\<close>).
  At run time the value of every field is resolved from seven layers: the default, the
  recommended tree of the organisation's policy, the configuration file, the environment, the
  flags, the builder's overrides and the enforced tree of the policy (\<open>src/config/resolution\<close>).
  The file is kept by a typed store with schema migrations over a byte backend
  (\<open>src/config/store.rs\<close>, \<open>backend.rs\<close>); the policy comes from a client with a cache and a
  failure mapping (\<open>src/config/managed\<close>). The other side of the wire is the configuration
  service (\<open>src/config/service\<close>): policies with inheritance, assignment of a profile to a caller
  by its claims, validation, versioned stores in memory and in Postgres with a change record, and
  two routers, one for devices and one for administrators. Commands are declared by
  specifications, stored in a registry, and run either from the command line, through
  \<open>clap\<close>, or as tools of a chat agent or an MCP client, behind a risk policy
  (\<open>src/spec\<close>, \<open>src/parser\<close>, \<open>src/command\<close>, \<open>src/command_surface\<close>, \<open>src/security\<close>).
  Network operations are repeated under a retry policy (\<open>src/retry\<close>, \<open>src/http_retry\<close>). An
  application reports on itself as far as its user consents (\<open>src/telemetry\<close>) and replaces its own
  binary from a verified release (\<open>src/self_install\<close>).

  \<^bold>\<open>Conventions.\<close> A struct is a record, an enum a datatype, \<open>Result\<close> a sum with the error on the
  left. Mutable state is passed and returned. \<open>u64\<close> and \<open>u32\<close> are words wherever they are
  computed with; \<open>i64\<close> is an integer whose range is checked where it is parsed. A panic is
  \<open>None\<close>. A \<open>BTreeMap\<close> is a sorted association list, a \<open>HashMap\<close> one with distinct keys
  whose order stands for the unspecified iteration order. Strings are byte lists. Code outside the
  repository is a parameter: serde's decoding of typed documents, the hasher, \<open>clap\<close>'s
  matches, \<open>regex\<close>, \<open>reqwest\<close>, token verification, the SQL connection (as a supply of
  statement failures and of concurrent winners), file-system calls (as a supply of failures), the
  clock. What a property assumes of a parameter is a premise of that property.

  \<^bold>\<open>Foundations.\<close>
  \<^item> \<open>Prelude\<close>: results, words, strings, decimal numbers, trimming; \<open>Rust_Maps\<close>: both map
    types and the locale \<open>keyed_map\<close> they interpret; \<open>Json\<close>: \<open>serde_json::Value\<close> and \<open>f64\<close>.

  \<^bold>\<open>Configuration on the device.\<close>
  \<^item> \<open>Config_Manifest\<close> (\<open>manifest/types.rs\<close>): fields, sections, leaf paths.
  \<^item> \<open>Flatten\<close> (\<open>resolution/flatten.rs\<close>): nested documents to dotted paths and back; both round
    trips.
  \<^item> \<open>Resolver\<close> (\<open>resolution/resolver.rs\<close>): the layered resolution. The value and its provenance
    are those of the greatest layer that offers an acceptable value; an enforced value cannot be
    overridden; secret, local-only and unmanageable fields are out of reach of the server; a
    warning is recorded exactly for what was dropped; every leaf is resolved.
  \<^item> \<open>Config_Backend\<close> (\<open>backend.rs\<close>): the byte stores under one locale \<open>byte_store\<close>; a file write
    is atomic at every point of failure. \<open>Config_Store\<close> (\<open>store.rs\<close>, \<open>format.rs\<close>): load, save and
    reload with migrations run in order, newer documents refused, failures changing nothing.
  \<^item> \<open>Managed\<close> (\<open>managed/\<close>, \<open>policy.rs\<close>): fetching, caching and folding a policy. Every failure has
    its mapped outcome, a denied request never falls back to the cache, the cache agrees with the
    last answer, and only user-scoped fields roam.

  \<^bold>\<open>Configuration service.\<close>
  \<^item> \<open>Service_Types\<close>, \<open>Merge_Patch\<close>, \<open>Inherit\<close>, \<open>Assignment\<close>, \<open>Validate\<close>: documents, wire names
    (locale \<open>wire_enum\<close>), RFC 7386, parent chains, first-match assignment, validation. What the server
    validates is what the resolver on the device applies.
  \<^item> \<open>Stores\<close>, \<open>Postgres\<close>, \<open>Pg_History\<close>: compare-and-set stores under the locale
    \<open>versioned_store\<close>, interpreted on the memory store and on four tables of the database; over any run
    the change record is append-only and complete and of two competing writes one wins.
  \<^item> \<open>Service_State\<close>, \<open>Router\<close>, \<open>Admin_Router\<close>: the shared state with its cache, the
    middleware, five device handlers and ten administrative ones. \<open>Admin_Safety\<close>: configuration
    changes only through both gates, under the caller's name. \<open>Admin_Restore\<close>: a restore stores
    what the record holds. \<open>Deployment\<close>: what starts keeps starting after every request.

  \<^bold>\<open>Commands.\<close>
  \<^item> \<open>Command_Spec\<close> (\<open>spec/\<close>): declarations, published schema, validation, which reports exactly the
    violations of the declaration. \<open>Clap_Mapper\<close> (\<open>parser/clap_mapper.rs\<close>): type soundness of the
    values handed to a command.
  \<^item> \<open>Command_Registry\<close> (\<open>command/registry.rs\<close>): no two commands share a name, registration is an
    insertion. \<open>Tool_Bridge\<close> (\<open>command_surface/tool_bridge.rs\<close>, \<open>security/\<close>): a tool call runs its
    command exactly when arguments, gate and risk tier permit it.
  \<^item> \<open>Clap_Adapter\<close> (\<open>app/clap_adapter.rs\<close>): the tree given to \<open>clap\<close> offers exactly the registered
    commands. \<open>App_Dispatch\<close> (\<open>clap_adapter.rs\<close>, \<open>app/builder.rs\<close>, \<open>app/dispatch.rs\<close>): from the command
    line to the body of a command, which runs iff the command line names it and its arguments pass.
    \<open>Help_Renderer\<close> (\<open>cli_output/help.rs\<close>, \<open>environment.rs\<close>, \<open>app/version.rs\<close>): the help page lists
    every visible entry once.
  \<^item> \<open>Output_Sanitize\<close> (\<open>security/output_sanitize.rs\<close>).
  \<^item> \<open>Retry\<close> (\<open>retry/\<close>, \<open>http_retry/\<close>): delays within their caps, at most one call more than the
    retries allowed, the result of the last call, no repetition of rejected requests.

  \<^bold>\<open>Telemetry.\<close>
  \<^item> \<open>Telemetry_Policy\<close> (\<open>telemetry/axes.rs\<close>, \<open>probe.rs\<close>, \<open>policy.rs\<close>, \<open>notice.rs\<close>): levels, the catalog of
    probes, kill switches, the layered policy and the first-run notice. On an end-user install only
    consent raises the level.
  \<^item> \<open>Telemetry_Export\<close> (\<open>redact.rs\<close>, \<open>exporter.rs\<close>, \<open>probes.rs\<close>, \<open>resource.rs\<close>): the boundary a span
    crosses on its way out. What leaves belongs to a permitted probe and carries permitted keys only.
    Values and the other members of a span are type parameters, the inner exporter an argument.
  \<^item> \<open>Telemetry_Manifest\<close> (\<open>manifest.rs\<close>, \<open>env.rs\<close>): the section merged into the application's manifest
    and the environment variables read through it. The server cannot enforce a level.
  \<^item> \<open>Telemetry_Store\<close> (\<open>store.rs\<close>): the settings of a person over the file backend, with a codec as
    parameter whose faithfulness is a premise.
  \<^item> \<open>Telemetry_Startup\<close> (\<open>startup.rs\<close>): the whole startup walk as one function that returns its
    result, the steps it recorded and the files. A record \<open>startup_world\<close> holds what the machine
    answers: I/O failures, the fresh id, whether providers and subscriber install.
  \<^item> \<open>Telemetry_Commands\<close> (\<open>commands.rs\<close>): the six commands with their bodies and registration, and
    what the next run makes of what they stored.

  \<^bold>\<open>Self-installation.\<close>
  \<^item> \<open>Install_Disk\<close>: the machine these operations run on. A disk maps absolute paths to files and
    directories and counts the system calls made; \<open>mc_fault\<close> decides which of them fails, how, and
    what a broken write leaves behind, so a statement for every machine is one about every failure
    at every point. Operations are functions of the disk; \<open>triple\<close> and \<open>keeps\<close> are the two
    judgements the proofs use.
  \<^item> \<open>Install_Place\<close> (\<open>env.rs\<close>, \<open>layout.rs\<close>, \<open>method.rs\<close>, \<open>options.rs\<close>, \<open>place.rs\<close>): paths, options and putting a
    binary in place, which never leaves half of one. \<open>Install_Receipt\<close> (\<open>receipt.rs\<close>): the receipt,
    replaced atomically.
  \<^item> \<open>Self_Release\<close> (\<open>policy.rs\<close>, \<open>release.rs\<close>, \<open>archive.rs\<close>): the organisation's policy, choosing and
    downloading a release, digests, signatures and extraction. Archive decoding, the digest, the
    signature scheme, versions and the network are parameters.
  \<^item> \<open>Self_Update\<close> (\<open>update.rs\<close>): \<open>update\<close> and \<open>rollback\<close> with the lock and the work directory.
    \<open>Update_Safety\<close> holds what they do to the disk, \<open>Update_Requests\<close> what they ask of the network,
    \<open>Update_Properties\<close> the statements with a machine on which they run: only a verified binary is
    installed, a rollback undoes an update, requests and token stay where they belong.
  \<^item> \<open>Shell_Path\<close> (\<open>shell_path.rs\<close>): the edit of \<open>PATH\<close>, which appends one line once. \<open>Install_Ops\<close>
    (\<open>ops.rs\<close>): \<open>install\<close>, \<open>uninstall\<close> and \<open>status\<close> as the build for Unix has them.
    \<open>Install_Properties\<close>: an install can be undone and updated, spares the files of others, and
    an uninstall removes only what is its own.

  \<^bold>\<open>Identity.\<close>
  \<^item> \<open>Claim_Path\<close> and \<open>Oidc_Server\<close> (\<open>cli-framework-oidc\<close>: \<open>claim_path.rs\<close>, \<open>server/mod.rs\<close>, \<open>jwks.rs\<close>):
    the verification of bearer tokens in front of a server. A token is accepted only if it was
    verified with a key of the trusted issuer it names and under that issuer's settings, and every
    request is answered. An application passes the accepted claims to the routers of the configuration
    service through an adapter of its own, so the two are not composed here.
  \<^item> \<open>Secret_Store\<close> (\<open>src/secrets\<close>): keys and the contract of a store, the locale
    \<open>secret_backend\<close>, interpreted on the in-memory store. The contract also covers a store whose calls
    fail.
  \<^item> \<open>Oidc_Client\<close> (\<open>client/mod.rs\<close>, \<open>client/cache.rs\<close>, \<open>endpoint_security.rs\<close>): the native client as
    programs over the secret store, the clock and the log of requests; \<open>Oidc_Login\<close>
    (\<open>client/callback.rs\<close>, \<open>pkce.rs\<close>): the browser and device logins and the builder.
    \<open>Oidc_Client_Rules\<close> has the judgement \<open>holds\<close> with a rule for every combinator,
    \<open>Oidc_Client_Safety\<close> the invariants proved with it, \<open>Oidc_Client_Properties\<close> the statements: a code
    is redeemed with the state and verifier of its login, credentials go to secure endpoints, the
    grants of others survive, an expired or invalidated token is not handed out, a login ends.

  \<^bold>\<open>Termination and bounds.\<close> One definition has fuel, the polling loop of the device login; one unit for every
  nanosecond a clock can show is enough, whatever the provider answers. The walk along parent profiles, the migration
  loop and the retry loops are total; an operation that never completes is one that takes
  \<open>\<infinity>\<close>, and the executor then has no outcome unless a timeout is set. Arithmetic on
  \<open>u64\<close> delays takes the build's overflow checks as an argument.

  \<^bold>\<open>Not modelled.\<close> The application builder (\<open>app/builder.rs\<close> up to \<open>App\<close>) assembles the modelled
  parts; the MCP and API servers and the OIDC browser and host sessions are protocol code around
  third-party packages, and the command surface documents a rendering of the declarations. Of
  telemetry, the OpenTelemetry providers, the \<open>tracing\<close> subscriber, the propagation of trace headers and
  the doctor's checks are left out; of self-installation, the registry of Windows, the update notice and
  the commands that print the outcomes. Printing and terminal output, keyrings, file
  permissions and ACLs, the derive macros, export and import of bundle archives as files and the
  test kit are calls of operating-system or third-party code. Plugins, the chat command and the search
  for project configuration are left out too.
\<close>

end
